(* ===== verification/Prelude.thy ===== *)
theory Prelude
  imports Main "HOL-Library.Word" "HOL-Library.AList"
begin

text \<open>
  Shared vocabulary of the development: the machine integers of the Rust code, its strings,
  its hash maps, and the generic lemmas every component uses.

  \<^item> A Rust \<open>u8\<close>, \<open>u16\<close>, \<open>u32\<close>, \<open>u64\<close> is a word of that width; an \<open>i32\<close> is a 32-bit word
    read with \<open>sint\<close>.
  \<^item> A Rust \<open>String\<close> or \<open>&str\<close> is the list of its Unicode scalar values (\<open>rstr\<close>), so
    \<open>chars().count()\<close> is the list's length; \<open>len()\<close> counts UTF-8 bytes and is \<open>byte_len\<close>.
  \<^item> A C string argument of an exported function is an \<open>rstr option\<close>: \<open>None\<close> is the null pointer,
    \<open>Some s\<close> the text that \<open>CStr::from_ptr(p).to_string_lossy()\<close> yields.
  \<^item> A \<open>HashMap\<close> that is only looked up is a partial function; a \<open>DashMap\<close> that is also iterated
    is an association list (\<open>('k, 'v) table\<close>), in some fixed iteration order.
  \<^item> An \<open>Instant\<close> is a number of nanoseconds on the monotonic clock.
\<close>

section \<open>Named collections\<close>

named_theorems state_simps \<open>how the state updates of the engine act on its fields\<close>
named_theorems table_simps \<open>lookups in updated tables\<close>

section \<open>Machine integers and time\<close>

type_synonym u8 = "8 word"
type_synonym u16 = "16 word"
type_synonym u32 = "32 word"
type_synonym u64 = "64 word"
type_synonym i32 = "32 word"

type_synonym instant = nat
type_synonym duration = nat

definition nanos_per_sec :: nat where
  "nanos_per_sec = 1000000000"

definition from_secs :: "nat \<Rightarrow> duration" where
  "from_secs s = s * nanos_per_sec"

text \<open>\<open>t.elapsed().as_millis()\<close> at the instant \<open>now\<close>.\<close>

definition elapsed_millis :: "instant \<Rightarrow> instant \<Rightarrow> nat" where
  "elapsed_millis now t = (now - t) div 1000000"

section \<open>Strings\<close>

type_synonym rchar = int
type_synonym rstr = "rchar list"
type_synonym c_str = "rstr option"

definition str :: "string \<Rightarrow> rstr" where
  "str s = map of_char s"

text \<open>The characters with the Unicode property White Space, as \<open>char::is_whitespace\<close> tests.\<close>

definition is_whitespace :: "rchar \<Rightarrow> bool" where
  "is_whitespace c \<longleftrightarrow> (9 \<le> c \<and> c \<le> 13) \<or> c = 32 \<or> c = 133 \<or> c = 160 \<or> c = 5760
     \<or> (8192 \<le> c \<and> c \<le> 8202) \<or> c = 8232 \<or> c = 8233 \<or> c = 8239 \<or> c = 8287 \<or> c = 12288"

definition is_ascii_digit :: "rchar \<Rightarrow> bool" where
  "is_ascii_digit c \<longleftrightarrow> 48 \<le> c \<and> c \<le> 57"

definition is_ascii_upper :: "rchar \<Rightarrow> bool" where
  "is_ascii_upper c \<longleftrightarrow> 65 \<le> c \<and> c \<le> 90"

definition is_ascii_alphabetic :: "rchar \<Rightarrow> bool" where
  "is_ascii_alphabetic c \<longleftrightarrow> is_ascii_upper c \<or> (97 \<le> c \<and> c \<le> 122)"

definition is_ascii_alphanumeric :: "rchar \<Rightarrow> bool" where
  "is_ascii_alphanumeric c \<longleftrightarrow> is_ascii_alphabetic c \<or> is_ascii_digit c"

definition to_ascii_lowercase :: "rstr \<Rightarrow> rstr" where
  "to_ascii_lowercase s = map (\<lambda>c. if is_ascii_upper c then c + 32 else c) s"

definition trim_start_matches :: "(rchar \<Rightarrow> bool) \<Rightarrow> rstr \<Rightarrow> rstr" where
  "trim_start_matches p s = dropWhile p s"

definition trim_end_matches :: "(rchar \<Rightarrow> bool) \<Rightarrow> rstr \<Rightarrow> rstr" where
  "trim_end_matches p s = rev (dropWhile p (rev s))"

definition trim_matches :: "(rchar \<Rightarrow> bool) \<Rightarrow> rstr \<Rightarrow> rstr" where
  "trim_matches p s = trim_end_matches p (trim_start_matches p s)"

definition trim :: "rstr \<Rightarrow> rstr" where
  "trim s = trim_matches is_whitespace s"

text \<open>\<open>rsplit_once\<close>: split at the last occurrence.\<close>

definition rsplit_once :: "rchar \<Rightarrow> rstr \<Rightarrow> (rstr \<times> rstr) option" where
  "rsplit_once c s = (if c \<in> set s
     then Some (rev (tl (dropWhile (\<lambda>d. d \<noteq> c) (rev s))), rev (takeWhile (\<lambda>d. d \<noteq> c) (rev s)))
     else None)"

text \<open>The number of bytes of a character in UTF-8, and \<open>str::len\<close>.\<close>

definition utf8_len :: "rchar \<Rightarrow> nat" where
  "utf8_len c = (if c < 128 then 1 else if c < 2048 then 2 else if c < 65536 then 3 else 4)"

definition byte_len :: "rstr \<Rightarrow> nat" where
  "byte_len s = sum_list (map utf8_len s)"

text \<open>
  \<open>&s[n..]\<close>: the text from byte \<open>n\<close> on. \<open>None\<close> is Rust's panic, when \<open>n\<close> is past the end or
  inside a character.
\<close>

fun slice_from :: "nat \<Rightarrow> rstr \<Rightarrow> rstr option" where
  "slice_from n s = (if n = 0 then Some s else
     (case s of [] \<Rightarrow> None
      | c # cs \<Rightarrow> if utf8_len c \<le> n then slice_from (n - utf8_len c) cs else None))"

declare slice_from.simps [simp del]

lemma utf8_len_pos [simp]: "0 < utf8_len c"
  by (simp add: utf8_len_def)

lemma byte_len_Nil [simp]: "byte_len [] = 0"
  by (simp add: byte_len_def)

lemma byte_len_Cons [simp]: "byte_len (c # s) = utf8_len c + byte_len s"
  by (simp add: byte_len_def)

lemma byte_len_append [simp]: "byte_len (s @ t) = byte_len s + byte_len t"
  by (simp add: byte_len_def)

lemma byte_len_eq_0 [simp]: "byte_len s = 0 \<longleftrightarrow> s = []"
  by (cases s) (simp_all add: byte_len_def utf8_len_def)

lemma slice_from_0 [simp]: "slice_from 0 s = Some s"
  by (simp add: slice_from.simps)

lemma slice_from_append [simp]: "slice_from (byte_len s) (s @ t) = Some t"
proof (induction s)
  case (Cons c s)
  show ?case
    using Cons.IH by (subst slice_from.simps) (simp add: utf8_len_def)
qed simp

lemma slice_from_suffix: "slice_from n s = Some t \<Longrightarrow> \<exists>u. s = u @ t \<and> byte_len u = n"
proof (induction n s rule: slice_from.induct)
  case (1 n s)
  show ?case
  proof (cases "n = 0")
    case True
    with "1.prems" show ?thesis by (intro exI [of _ "[]"]) simp
  next
    case False
    with "1.prems" obtain c cs where s: "s = c # cs" and le: "utf8_len c \<le> n"
      and rest: "slice_from (n - utf8_len c) cs = Some t"
      by (subst (asm) slice_from.simps) (auto split: list.splits if_splits)
    from "1.IH" [OF False s le rest] obtain u
      where "cs = u @ t" "byte_len u = n - utf8_len c" by blast
    with s le show ?thesis by (intro exI [of _ "c # u"]) simp
  qed
qed

section \<open>Trimming\<close>

lemma length_trim_le: "length (trim s) \<le> length s"
proof -
  have "length (trim_start_matches is_whitespace s) \<le> length s"
    by (simp add: trim_start_matches_def length_dropWhile_le)
  moreover have "length (trim_end_matches is_whitespace t) \<le> length t" for t
    using length_dropWhile_le [of is_whitespace "rev t"] by (simp add: trim_end_matches_def)
  ultimately show ?thesis
    unfolding trim_def trim_matches_def using le_trans by blast
qed

lemma trim_end_matches_last:
  "trim_end_matches p s \<noteq> [] \<Longrightarrow> \<not> p (last (trim_end_matches p s))"
  by (simp add: trim_end_matches_def last_rev hd_dropWhile)

lemma trim_end_matches_prefix: "\<exists>u. s = trim_end_matches p s @ u \<and> (\<forall>c\<in>set u. p c)"
proof -
  have "rev s = takeWhile p (rev s) @ dropWhile p (rev s)" by simp
  then have "s = rev (dropWhile p (rev s)) @ rev (takeWhile p (rev s))"
    by (metis rev_append rev_rev_ident)
  moreover have "\<forall>c\<in>set (rev (takeWhile p (rev s))). p c"
    by (auto dest: set_takeWhileD)
  ultimately show ?thesis unfolding trim_end_matches_def by blast
qed

lemma trim_matches_split:
  "\<exists>u v. s = u @ trim_matches p s @ v \<and> (\<forall>c\<in>set u. p c) \<and> (\<forall>c\<in>set v. p c)"
proof -
  have s: "s = takeWhile p s @ trim_start_matches p s"
    by (simp add: trim_start_matches_def)
  obtain v where "trim_start_matches p s = trim_matches p s @ v" "\<forall>c\<in>set v. p c"
    using trim_end_matches_prefix [of "trim_start_matches p s" p]
    by (auto simp: trim_matches_def)
  moreover have "\<forall>c\<in>set (takeWhile p s). p c"
    by (auto dest: set_takeWhileD)
  ultimately show ?thesis using s by metis
qed

section \<open>Tables\<close>

type_synonym ('k, 'v) table = "('k \<times> 'v) list"

abbreviation tget :: "('k, 'v) table \<Rightarrow> 'k \<Rightarrow> 'v option" where
  "tget t k \<equiv> map_of t k"

abbreviation tput :: "'k \<Rightarrow> 'v \<Rightarrow> ('k, 'v) table \<Rightarrow> ('k, 'v) table" where
  "tput k v t \<equiv> AList.update k v t"

abbreviation tdel :: "'k \<Rightarrow> ('k, 'v) table \<Rightarrow> ('k, 'v) table" where
  "tdel k t \<equiv> AList.delete k t"

abbreviation tkeys :: "('k, 'v) table \<Rightarrow> 'k list" where
  "tkeys t \<equiv> map fst t"

lemma tget_tput [table_simps, simp]: "tget (tput k v t) j = (if j = k then Some v else tget t j)"
  by (simp add: update_conv')

lemma tget_tdel [table_simps, simp]: "tget (tdel k t) j = (if j = k then None else tget t j)"
  by (simp add: delete_conv')

lemma distinct_tkeys_tput [simp]: "distinct (tkeys t) \<Longrightarrow> distinct (tkeys (tput k v t))"
  by (rule distinct_update)

lemma distinct_tkeys_tdel [simp]: "distinct (tkeys t) \<Longrightarrow> distinct (tkeys (tdel k t))"
  by (rule distinct_delete)

lemma set_tkeys: "k \<in> set (tkeys t) \<longleftrightarrow> tget t k \<noteq> None"
  by (metis dom_map_of_conv_image_fst domIff set_map)

text \<open>\<open>retain\<close> on the keys of a table.\<close>

definition tfilter :: "('k \<Rightarrow> bool) \<Rightarrow> ('k, 'v) table \<Rightarrow> ('k, 'v) table" where
  "tfilter p t = filter (\<lambda>e. p (fst e)) t"

lemma tget_tfilter [table_simps, simp]:
  "tget (tfilter p t) k = (if p k then tget t k else None)"
  by (induction t) (auto simp: tfilter_def)

lemma distinct_tkeys_tfilter [simp]: "distinct (tkeys t) \<Longrightarrow> distinct (tkeys (tfilter p t))"
  by (simp add: tfilter_def distinct_map_filter)

section \<open>Lists\<close>

lemma length_take_le: "length (take n xs) \<le> n"
  by simp

lemma find_SomeD: "find p xs = Some x \<Longrightarrow> x \<in> set xs \<and> p x"
  by (auto simp: find_Some_iff in_set_conv_nth)

end
