(* ===== verification/F32.thy ===== *)
theory F32
  imports Prelude Complex_Main "HOL-Library.Log_Nat"
begin

text \<open>
  The Rust type \<open>f32\<close>: IEEE 754 single precision with round to nearest, ties to even. A finite
  value is the rational number it denotes, so the two zeros are one value; no code modelled here
  tells them apart. Every operation rounds its exact result (\<open>f32_of_rat\<close>), overflow gives an
  infinity. The lemmas show that rounding keeps representable numbers, is monotone, and that
  subtracting multiples of a common quantum is exact.
\<close>

section \<open>Rounding\<close>

definition ilog2 :: "rat \<Rightarrow> int" where
  "ilog2 x = (case quotient_of x of (n, d) \<Rightarrow>
     let e = bitlen n - bitlen d in if 2 powi e \<le> x then e else e - 1)"

text \<open>Round to the nearest integer, ties to even.\<close>

definition rne :: "rat \<Rightarrow> int" where
  "rne y = (let f = \<lfloor>y\<rfloor>; d = y - of_int f in
     if d < 1/2 then f else if 1/2 < d then f + 1 else if even f then f else f + 1)"

text \<open>The exponent of the last place of \<open>x\<close>: 24 significant bits, never below \<open>-149\<close>.\<close>

definition f32_exp :: "rat \<Rightarrow> int" where
  "f32_exp x = max (ilog2 \<bar>x\<bar>) (-126) - 23"

definition f32_rnd :: "rat \<Rightarrow> rat" where
  "f32_rnd x = (if x = 0 then 0 else of_int (rne (x / 2 powi f32_exp x)) * 2 powi f32_exp x)"

definition f32_rep :: "rat \<Rightarrow> bool" where
  "f32_rep x \<longleftrightarrow> f32_rnd x = x"

section \<open>Values and operations\<close>

datatype f32 = Fin rat | PInf | NInf | NaN

definition f32_of_rat :: "rat \<Rightarrow> f32" where
  "f32_of_rat x = (let r = f32_rnd x in
     if 2 ^ 128 \<le> r then PInf else if r \<le> - (2 ^ 128) then NInf else Fin r)"

fun fneg :: "f32 \<Rightarrow> f32" where
  "fneg (Fin a) = Fin (- a)"
| "fneg PInf = NInf"
| "fneg NInf = PInf"
| "fneg NaN = NaN"

fun fadd :: "f32 \<Rightarrow> f32 \<Rightarrow> f32" where
  "fadd (Fin a) (Fin b) = f32_of_rat (a + b)"
| "fadd NaN _ = NaN"
| "fadd _ NaN = NaN"
| "fadd PInf NInf = NaN"
| "fadd NInf PInf = NaN"
| "fadd PInf _ = PInf"
| "fadd _ PInf = PInf"
| "fadd NInf _ = NInf"
| "fadd _ NInf = NInf"

definition fsub :: "f32 \<Rightarrow> f32 \<Rightarrow> f32" where
  "fsub a b = fadd a (fneg b)"

definition f32_sgn :: "f32 \<Rightarrow> rat" where
  "f32_sgn a = (case a of Fin x \<Rightarrow> sgn x | PInf \<Rightarrow> 1 | NInf \<Rightarrow> -1 | NaN \<Rightarrow> 0)"

definition f32_inf :: "rat \<Rightarrow> f32" where
  "f32_inf s = (if 0 < s then PInf else if s < 0 then NInf else NaN)"

fun fmul :: "f32 \<Rightarrow> f32 \<Rightarrow> f32" where
  "fmul (Fin a) (Fin b) = f32_of_rat (a * b)"
| "fmul NaN _ = NaN"
| "fmul _ NaN = NaN"
| "fmul a b = f32_inf (f32_sgn a * f32_sgn b)"

text \<open>
  Division. The sign of a zero divisor is not modelled; every divisor in the modelled code is
  positive, and division by zero is only reached with the infinite result of a positive zero.
\<close>

fun fdiv :: "f32 \<Rightarrow> f32 \<Rightarrow> f32" where
  "fdiv (Fin a) (Fin b) = (if b = 0 then f32_inf (sgn a) else f32_of_rat (a / b))"
| "fdiv NaN _ = NaN"
| "fdiv _ NaN = NaN"
| "fdiv (Fin a) _ = Fin 0"
| "fdiv a (Fin b) = f32_inf (f32_sgn a * (if b < 0 then -1 else 1))"
| "fdiv _ _ = NaN"

fun fabs :: "f32 \<Rightarrow> f32" where
  "fabs (Fin a) = Fin \<bar>a\<bar>"
| "fabs PInf = PInf"
| "fabs NInf = PInf"
| "fabs NaN = NaN"

fun flt :: "f32 \<Rightarrow> f32 \<Rightarrow> bool" where
  "flt NaN _ = False"
| "flt _ NaN = False"
| "flt (Fin a) (Fin b) = (a < b)"
| "flt NInf b = (b \<noteq> NInf)"
| "flt _ NInf = False"
| "flt _ PInf = True"
| "flt PInf _ = False"

fun fle :: "f32 \<Rightarrow> f32 \<Rightarrow> bool" where
  "fle NaN _ = False"
| "fle _ NaN = False"
| "fle (Fin a) (Fin b) = (a \<le> b)"
| "fle NInf _ = True"
| "fle _ NInf = False"
| "fle _ PInf = True"
| "fle PInf _ = False"

text \<open>\<open>f32::max\<close> and \<open>f32::min\<close> ignore a NaN operand; \<open>f32::clamp\<close> keeps it.\<close>

definition fmax :: "f32 \<Rightarrow> f32 \<Rightarrow> f32" where
  "fmax a b = (if a = NaN then b else if b = NaN then a else if flt a b then b else a)"

definition fmin :: "f32 \<Rightarrow> f32 \<Rightarrow> f32" where
  "fmin a b = (if a = NaN then b else if b = NaN then a else if flt b a then b else a)"

definition fclamp :: "f32 \<Rightarrow> f32 \<Rightarrow> f32 \<Rightarrow> f32" where
  "fclamp lo hi x = (if flt x lo then lo else if flt hi x then hi else x)"

definition is_finite :: "f32 \<Rightarrow> bool" where
  "is_finite a = (case a of Fin _ \<Rightarrow> True | _ \<Rightarrow> False)"

text \<open>\<open>Duration::as_secs_f32\<close>: whole seconds plus the fraction, each converted and rounded.\<close>

definition as_secs_f32 :: "duration \<Rightarrow> f32" where
  "as_secs_f32 d = fadd (f32_of_rat (of_nat (d div nanos_per_sec)))
     (fdiv (f32_of_rat (of_nat (d mod nanos_per_sec))) (f32_of_rat (of_nat nanos_per_sec)))"

section \<open>The binary logarithm\<close>

lemma powi_Suc: "2 powi (e + 1) = (2::rat) * 2 powi e"
  by (simp add: power_int_add)

lemma powi_mono: "a \<le> b \<Longrightarrow> 2 powi a \<le> (2::rat) powi b"
  by (rule power_int_increasing) simp_all

lemma powi_less: "a < b \<Longrightarrow> 2 powi a < (2::rat) powi b"
  by (rule power_int_strict_increasing) simp_all

lemma powi_less_iff: "2 powi a < (2::rat) powi b \<longleftrightarrow> a < b"
  by (metis linorder_not_less powi_mono powi_less)

lemma bitlen_powi:
  assumes "0 < n"
  shows "2 powi (bitlen n - 1) \<le> (of_int n :: rat)" "(of_int n :: rat) < 2 powi bitlen n"
proof -
  have b: "2 ^ nat (bitlen n - 1) \<le> n" "n < 2 ^ nat (bitlen n)"
    using bitlen_bounds [OF assms] by simp_all
  have pos: "0 \<le> bitlen n - 1" using bitlen_ge_iff_power [of 1 n] assms by simp
  have "(of_int (2 ^ nat (bitlen n - 1)) :: rat) \<le> of_int n" using b(1) by (simp only: of_int_le_iff)
  then show "2 powi (bitlen n - 1) \<le> (of_int n :: rat)"
    using pos by (simp add: power_int_def)
  have "(of_int n :: rat) < of_int (2 ^ nat (bitlen n))" using b(2) by (simp only: of_int_less_iff)
  then show "(of_int n :: rat) < 2 powi bitlen n"
    using pos by (simp add: power_int_def)
qed

lemma ilog2_bounds:
  assumes "0 < x"
  shows "2 powi ilog2 x \<le> x" "x < 2 powi (ilog2 x + 1)"
proof -
  obtain n d where q: "quotient_of x = (n, d)" by (cases "quotient_of x")
  have d: "0 < d" using quotient_of_denom_pos [OF q] .
  have x: "x = of_int n / of_int d" using quotient_of_div [OF q] .
  have n: "0 < n" using assms x d by (simp add: zero_less_divide_iff)
  let ?e = "bitlen n - bitlen d"
  have up: "x < 2 powi (?e + 1)"
  proof -
    have "x < 2 powi bitlen n / 2 powi (bitlen d - 1)"
      unfolding x using bitlen_powi [OF n] bitlen_powi [OF d] d n
      by (intro frac_less) simp_all
    also have "\<dots> = 2 powi (?e + 1)"
      by (simp add: power_int_diff [symmetric] algebra_simps)
    finally show ?thesis .
  qed
  have lo: "2 powi (?e - 1) \<le> x"
  proof -
    have "2 powi (?e - 1) = (2 powi (bitlen n - 1) / 2 powi bitlen d :: rat)"
      by (simp add: power_int_diff [symmetric] algebra_simps)
    also have "\<dots> \<le> x"
      unfolding x using bitlen_powi [OF n] bitlen_powi [OF d] d n
      by (intro frac_le) simp_all
    finally show ?thesis .
  qed
  show "2 powi ilog2 x \<le> x" "x < 2 powi (ilog2 x + 1)"
    using up lo by (simp_all add: ilog2_def q Let_def)
qed

lemma ilog2_le_iff: "0 < x \<Longrightarrow> ilog2 x \<le> k \<longleftrightarrow> x < 2 powi (k + 1)"
  by (metis ilog2_bounds add_le_cancel_right linorder_not_le order_less_le_trans
      order_le_less_trans powi_less_iff powi_mono zless_add1_eq add1_zle_eq)

lemma ilog2_mono: "0 < x \<Longrightarrow> x \<le> y \<Longrightarrow> ilog2 x \<le> ilog2 y"
  by (meson ilog2_bounds(2) ilog2_le_iff order_le_less_trans order_less_le_trans)

section \<open>Rounding to an integer\<close>

lemma rne_of_int [simp]: "rne (of_int n) = n"
  by (simp add: rne_def)

lemma rne_bounds: "\<lfloor>y\<rfloor> \<le> rne y" "rne y \<le> \<lfloor>y\<rfloor> + 1"
  by (simp_all add: rne_def Let_def)

lemma rne_mono:
  assumes "x \<le> y"
  shows "rne x \<le> rne y"
proof (cases "\<lfloor>x\<rfloor> = \<lfloor>y\<rfloor>")
  case True
  then show ?thesis using assms by (auto simp: rne_def Let_def)
next
  case False
  then have "\<lfloor>x\<rfloor> + 1 \<le> \<lfloor>y\<rfloor>" using floor_mono [OF assms] by simp
  then show ?thesis using rne_bounds [of x] rne_bounds [of y] by linarith
qed

lemma rne_nonneg: "0 \<le> y \<Longrightarrow> 0 \<le> rne y"
  using rne_mono [of 0 y] rne_of_int [of 0] by simp


section \<open>Rounding to single precision\<close>

lemma f32_rnd_0 [simp]: "f32_rnd 0 = 0"
  by (simp add: f32_rnd_def)

lemma f32_rnd_nonneg: "0 \<le> x \<Longrightarrow> 0 \<le> f32_rnd x"
  by (auto simp: f32_rnd_def intro!: mult_nonneg_nonneg rne_nonneg divide_nonneg_nonneg)

lemma f32_repI:
  assumes x: "x = of_int m * 2 powi k" and m: "\<bar>m\<bar> < 2 ^ 24" and k: "-149 \<le> k"
  shows "f32_rep x"
proof (cases "x = 0")
  case False
  let ?E = "f32_exp x"
  have "\<bar>x\<bar> < 2 powi (24 + k)"
  proof -
    have "(of_int \<bar>m\<bar> :: rat) < of_int (2 ^ 24)" using m by (simp only: of_int_less_iff)
    then have "\<bar>of_int m :: rat\<bar> < 2 powi 24" by simp
    then have "\<bar>of_int m\<bar> * 2 powi k < 2 powi 24 * (2 powi k :: rat)"
      by (intro mult_strict_right_mono) simp_all
    then show ?thesis unfolding x abs_mult by (simp add: power_int_add)
  qed
  then have "ilog2 \<bar>x\<bar> \<le> k + 23" using False by (simp add: ilog2_le_iff algebra_simps)
  then have le: "0 \<le> k - ?E" using k by (simp add: f32_exp_def)
  have "x / 2 powi ?E = of_int m * 2 powi (k - ?E)"
    unfolding x by (simp add: power_int_diff)
  also have "\<dots> = of_int (m * 2 ^ nat (k - ?E))"
    using le by (simp add: power_int_def)
  finally have "of_int (rne (x / 2 powi ?E)) = x / 2 powi ?E" by (metis rne_of_int)
  then show ?thesis using False by (simp add: f32_rep_def f32_rnd_def)
qed (simp add: f32_rep_def)

lemma f32_exp_ge: "-149 \<le> f32_exp x"
  by (simp add: f32_exp_def)

lemma f32_scaled_bound: "0 < x \<Longrightarrow> x / 2 powi f32_exp x < of_int (2 ^ 24)"
proof -
  assume x: "0 < x"
  have "x < 2 powi (ilog2 x + 1)" by (rule ilog2_bounds [OF x])
  also have "\<dots> \<le> 2 powi (24 + f32_exp x)"
    using x by (intro powi_mono) (simp add: f32_exp_def)
  finally have "x < 2 powi 24 * 2 powi f32_exp x" by (simp add: power_int_add)
  then show ?thesis by (simp add: divide_less_eq)
qed

lemma f32_rnd_rep:
  assumes "0 \<le> x"
  shows "f32_rep (f32_rnd x)"
proof (cases "x = 0")
  case False
  let ?E = "f32_exp x" and ?m = "rne (x / 2 powi f32_exp x)"
  have x: "0 < x" using assms False by simp
  have r: "f32_rnd x = of_int ?m * 2 powi ?E" using False by (simp add: f32_rnd_def)
  have m0: "0 \<le> ?m" using x by (intro rne_nonneg) simp
  have m1: "?m \<le> 2 ^ 24"
    using rne_mono [OF less_imp_le [OF f32_scaled_bound [OF x]]] by (simp only: rne_of_int)
  show ?thesis
  proof (cases "?m = 2 ^ 24")
    case True
    have "f32_rnd x = of_int (2 ^ 23) * 2 powi (?E + 1)"
      unfolding r True by (simp add: powi_Suc)
    then show ?thesis by (rule f32_repI) (use f32_exp_ge [of x] in simp_all)
  next
    case False
    then have "\<bar>?m\<bar> < 2 ^ 24" using m0 m1 by linarith
    with r show ?thesis using f32_exp_ge by (rule f32_repI)
  qed
qed (simp add: f32_rep_def)

lemma f32_repE:
  assumes "f32_rep x" "0 \<le> x"
  obtains m k where "x = of_int m * 2 powi k" "0 \<le> m" "m \<le> 2 ^ 24" "-149 \<le> k"
proof (cases "x = 0")
  case True
  then show ?thesis by (intro that [of 0 0]) simp_all
next
  case False
  then have x: "0 < x" using assms by simp
  let ?m = "rne (x / 2 powi f32_exp x)"
  have "x = of_int ?m * 2 powi f32_exp x"
    using assms(1) False by (simp add: f32_rep_def f32_rnd_def)
  moreover have "0 \<le> ?m" using x by (intro rne_nonneg) simp
  moreover have "?m \<le> 2 ^ 24"
    using rne_mono [OF less_imp_le [OF f32_scaled_bound [OF x]]] by (simp only: rne_of_int)
  ultimately show ?thesis using f32_exp_ge that by blast
qed

lemma f32_rnd_mono:
  assumes "0 \<le> x" "x \<le> y"
  shows "f32_rnd x \<le> f32_rnd y"
proof (cases "x = 0")
  case True
  then show ?thesis using f32_rnd_nonneg assms by simp
next
  case False
  then have x: "0 < x" and y: "0 < y" using assms by simp_all
  have le: "f32_exp x \<le> f32_exp y"
    using ilog2_mono [OF x assms(2)] x y by (simp add: f32_exp_def)
  show ?thesis
  proof (cases "f32_exp x = f32_exp y")
    case True
    have "rne (x / 2 powi f32_exp y) \<le> rne (y / 2 powi f32_exp y)"
      using assms by (intro rne_mono divide_right_mono) simp_all
    then show ?thesis using x y True by (simp add: f32_rnd_def)
  next
    case False
    with le have lt: "f32_exp x < f32_exp y" by simp
    then have ey: "f32_exp y = ilog2 y - 23" using y by (simp add: f32_exp_def max_def split: if_splits)
    have "rne (x / 2 powi f32_exp x) \<le> 2 ^ 24"
      using rne_mono [OF less_imp_le [OF f32_scaled_bound [OF x]]] by (simp only: rne_of_int)
    then have "(of_int (rne (x / 2 powi f32_exp x)) :: rat) \<le> of_int (2 ^ 24)"
      by (simp only: of_int_le_iff)
    then have "f32_rnd x \<le> of_int (2 ^ 24) * 2 powi f32_exp x"
      using x unfolding f32_rnd_def by (simp add: mult_right_mono)
    also have "\<dots> = 2 powi (f32_exp x + 1 + 23)" by (simp add: power_int_add)
    also have "\<dots> \<le> 2 powi (f32_exp y + 23)" using lt by (intro powi_mono) simp
    also have "\<dots> = of_int (2 ^ 23) * 2 powi f32_exp y" by (simp add: power_int_add)
    also have "\<dots> \<le> of_int (rne (y / 2 powi f32_exp y)) * 2 powi f32_exp y"
    proof -
      have "2 powi (23 + f32_exp y) \<le> y" using ilog2_bounds(1) [OF y] ey by simp
      then have "of_int (2 ^ 23) \<le> y / 2 powi f32_exp y"
        by (simp add: le_divide_eq power_int_add)
      from rne_mono [OF this] have "2 ^ 23 \<le> rne (y / 2 powi f32_exp y)"
        by (simp only: rne_of_int)
      then have "(of_int (2 ^ 23) :: rat) \<le> of_int (rne (y / 2 powi f32_exp y))"
        by (simp only: of_int_le_iff)
      then show ?thesis by (intro mult_right_mono) simp_all
    qed
    also have "\<dots> = f32_rnd y" using y by (simp add: f32_rnd_def)
    finally show ?thesis .
  qed
qed

lemma f32_rnd_ge: "f32_rep a \<Longrightarrow> 0 \<le> a \<Longrightarrow> a \<le> x \<Longrightarrow> a \<le> f32_rnd x"
  using f32_rnd_mono [of a x] by (simp add: f32_rep_def)

lemma f32_rnd_le: "f32_rep b \<Longrightarrow> 0 \<le> x \<Longrightarrow> x \<le> b \<Longrightarrow> f32_rnd x \<le> b"
  using f32_rnd_mono [of x b] by (simp add: f32_rep_def)

lemma f32_rnd_exact: "f32_rep x \<Longrightarrow> f32_rnd x = x"
  by (simp add: f32_rep_def)

lemma f32_rep_of_int: "\<bar>m\<bar> < 2 ^ 24 \<Longrightarrow> f32_rep (of_int m)"
  by (rule f32_repI [of _ m 0]) simp_all

lemma f32_rep_half: "\<bar>m\<bar> < 2 ^ 24 \<Longrightarrow> f32_rep (of_int m / 2)"
  by (rule f32_repI [of _ m "-1"]) (simp_all add: power_int_minus field_simps)

text \<open>
  Subtracting a non-negative multiple of \<open>1/2\<close> from a larger value of at most \<open>2 ^ 22\<close> is exact:
  the operands are multiples of one quantum and the difference needs no more digits.
\<close>

lemma f32_rep_minus_half:
  assumes t: "f32_rep t" "t \<le> 2 ^ 22" and c: "c = of_int n / 2" "0 \<le> c" "c \<le> t"
  shows "f32_rep (t - c)"
proof -
  from c have t0: "0 \<le> t" by simp
  have n0: "0 \<le> n" using c by (simp add: zero_le_divide_iff)
  obtain m k where m: "t = of_int m * 2 powi k" "0 \<le> m" "m \<le> 2 ^ 24" "-149 \<le> k"
    using f32_repE [OF t(1) t0] .
  show ?thesis
  proof (cases "c = 0 \<or> t = c")
    case True
    then show ?thesis using t by (auto simp: f32_rep_def)
  next
    case False
    then have lt: "0 < c" "0 < t - c" using c by simp_all
    obtain m' k' where m': "t = of_int m' * 2 powi k'" "m' \<le> 2 ^ 24" "-149 \<le> k'" "k' \<le> -1"
    proof (cases "k \<le> -1")
      case False
      have "t = of_int (m * 2 ^ nat (k + 1)) * 2 powi (-1)"
        using False m(1) by (simp add: power_int_def nat_add_distrib)
      moreover have "m * 2 ^ nat (k + 1) \<le> 2 ^ 24"
      proof -
        have "(of_int (m * 2 ^ nat (k + 1)) :: rat) = 2 * t"
          using False m(1) by (simp add: power_int_def nat_add_distrib)
        then have "(of_int (m * 2 ^ nat (k + 1)) :: rat) \<le> of_int (2 ^ 24)"
          using t(2) by simp
        then show ?thesis by (simp only: of_int_le_iff)
      qed
      ultimately show ?thesis by (intro that [of "m * 2 ^ nat (k + 1)" "-1"]) simp_all
    qed (use m that in blast)
    let ?d = "m' - n * 2 ^ nat (-1 - k')"
    have "(2::rat) ^ nat (-1 - k') * 2 powi k' = 2 powi (-1)"
      using m'(4) by (simp add: power_int_add [symmetric] flip: power_int_of_nat)
    then have d: "t - c = of_int ?d * 2 powi k'"
      unfolding m'(1) c(1) by (simp add: left_diff_distrib mult.assoc power_int_minus)
    have "0 < (of_int ?d :: rat)"
    proof (rule zero_less_mult_pos2)
      show "0 < of_int ?d * (2 powi k' :: rat)" using lt(2) unfolding d .
    qed simp
    then have d0: "0 < ?d" by (simp only: of_int_0_less_iff)
    have "0 < n" using lt(1) c(1) by simp
    then have "?d < 2 ^ 24" using m'(2) by (smt (verit) zero_less_mult_iff zero_less_power)
    with d0 have "\<bar>?d\<bar> < 2 ^ 24" by simp
    with d show ?thesis using m'(3) by (rule f32_repI)
  qed
qed


section \<open>Lower and upper bounds of rounded results\<close>

lemma f32_of_rat_rep: "f32_rep x \<Longrightarrow> \<bar>x\<bar> < 2 ^ 128 \<Longrightarrow> f32_of_rat x = Fin x"
  by (auto simp: f32_of_rat_def f32_rep_def Let_def abs_less_iff)

text \<open>Non-negative values: no NaN and no negative number.\<close>

definition fnn :: "f32 \<Rightarrow> bool" where
  "fnn x \<longleftrightarrow> (case x of Fin a \<Rightarrow> 0 \<le> a \<and> f32_rep a | PInf \<Rightarrow> True | _ \<Rightarrow> False)"

lemma fnn_cases:
  assumes "fnn x"
  obtains (Fin) a where "x = Fin a" "0 \<le> a" "f32_rep a" | (PInf) "x = PInf"
  using assms by (cases x) (auto simp: fnn_def)

lemma fnn_of_rat: "0 \<le> x \<Longrightarrow> fnn (f32_of_rat x)"
  using f32_rnd_nonneg [of x] f32_rnd_rep [of x] by (auto simp: f32_of_rat_def fnn_def Let_def)

lemma fnn_fadd: "fnn a \<Longrightarrow> fnn b \<Longrightarrow> fnn (fadd a b)"
  by (elim fnn_cases) (auto intro!: fnn_of_rat simp: fnn_def [of PInf])

lemma fnn_fmul: "fnn a \<Longrightarrow> 0 < r \<Longrightarrow> fnn (fmul a (Fin r))"
  by (elim fnn_cases) (auto intro!: fnn_of_rat simp: fnn_def [of PInf] f32_inf_def f32_sgn_def)

lemma fnn_fdiv: "fnn a \<Longrightarrow> 0 < r \<Longrightarrow> fnn (fdiv a (Fin r))"
  by (elim fnn_cases) (auto intro!: fnn_of_rat simp: fnn_def [of PInf] f32_inf_def f32_sgn_def)

lemma f32_nanos: "f32_of_rat (of_nat nanos_per_sec) = Fin 1000000000"
proof -
  have "f32_rep (of_int 1953125 * 2 powi 9)" by (rule f32_repI [of _ 1953125 9]) simp_all
  then show ?thesis unfolding nanos_per_sec_def by (intro f32_of_rat_rep [THEN trans]) simp_all
qed

lemma fnn_secs: "fnn (as_secs_f32 d)"
  unfolding as_secs_f32_def f32_nanos by (intro fnn_fadd fnn_fdiv fnn_of_rat) simp_all

text \<open>\<open>f32_ge x r\<close>: the value is at least \<open>r\<close>.\<close>

definition f32_ge :: "f32 \<Rightarrow> rat \<Rightarrow> bool" where
  "f32_ge x r \<longleftrightarrow> (case x of Fin a \<Rightarrow> r \<le> a | PInf \<Rightarrow> True | _ \<Rightarrow> False)"

lemma f32_ge_of_rat: "f32_rep r \<Longrightarrow> 0 \<le> r \<Longrightarrow> r \<le> x \<Longrightarrow> f32_ge (f32_of_rat x) r"
  using f32_rnd_ge [of r x] f32_rnd_nonneg [of x]
  by (auto simp: f32_of_rat_def f32_ge_def Let_def)

lemma f32_ge_fadd:
  assumes "fnn a" "fnn b" "f32_ge b r" "f32_rep r" "0 \<le> r"
  shows "f32_ge (fadd a b) r"
proof (cases rule: fnn_cases [OF assms(1)])
  case a: (1 x)
  show ?thesis
  proof (cases rule: fnn_cases [OF assms(2)])
    case (1 y)
    have "f32_ge (f32_of_rat (x + y)) r"
      using assms(3-5) a 1 by (intro f32_ge_of_rat) (simp_all add: f32_ge_def)
    then show ?thesis using a 1 by simp
  qed (use a in \<open>simp add: f32_ge_def\<close>)
next
  case 2
  then show ?thesis using assms(2) by (auto simp: f32_ge_def elim: fnn_cases)
qed

lemma f32_ge_fmul:
  assumes "fnn a" "f32_ge a r" "0 < c" "f32_rep (r * c)" "0 \<le> r"
  shows "f32_ge (fmul a (Fin c)) (r * c)"
  using assms(1)
proof (cases a rule: fnn_cases)
  case (Fin x)
  have "f32_ge (f32_of_rat (x * c)) (r * c)"
    using assms(2-5) Fin by (intro f32_ge_of_rat) (simp_all add: f32_ge_def)
  then show ?thesis using Fin by simp
next
  case PInf
  then show ?thesis using assms(3) by (simp add: f32_inf_def f32_sgn_def f32_ge_def)
qed

lemma fadd_commute: "fadd a b = fadd b a"
  by (cases a; cases b) (simp_all add: add.commute)

lemma as_secs_ge:
  assumes "n * nanos_per_sec \<le> d" "n < 2 ^ 24"
  shows "f32_ge (as_secs_f32 d) (of_nat n)"
proof -
  have n: "f32_rep (of_nat n)" using f32_rep_of_int [of "int n"] assms(2) by simp
  have "n \<le> d div nanos_per_sec"
    using assms(1) by (simp add: nanos_per_sec_def less_eq_div_iff_mult_less_eq)
  then have "f32_ge (f32_of_rat (of_nat (d div nanos_per_sec))) (of_nat n)"
    by (intro f32_ge_of_rat n) simp_all
  then show ?thesis
    unfolding as_secs_f32_def f32_nanos fadd_commute [of "f32_of_rat (of_nat (d div _))"]
    by (intro f32_ge_fadd n fnn_fdiv fnn_of_rat) simp_all
qed

text \<open>The relative error of rounding a normal number is at most \<open>2 ^ -24\<close>.\<close>

lemma rne_le_half: "of_int (rne y) \<le> y + 1/2"
  unfolding rne_def Let_def by (auto simp: not_less) linarith+

lemma f32_rnd_le_add: "0 < x \<Longrightarrow> f32_rnd x \<le> x + 2 powi f32_exp x / 2"
proof -
  assume x: "0 < x"
  let ?q = "2 powi f32_exp x :: rat"
  have "of_int (rne (x / ?q)) * ?q \<le> (x / ?q + 1/2) * ?q"
    by (intro mult_right_mono rne_le_half) simp
  then show ?thesis using x by (simp add: f32_rnd_def algebra_simps)
qed

lemma f32_rnd_upper:
  assumes "2 powi (-126) \<le> x"
  shows "f32_rnd x \<le> x * (1 + 2 powi (-24))"
proof -
  have x: "0 < x" using assms by (rule order_less_le_trans [rotated]) simp
  have "-126 \<le> ilog2 x"
    using ilog2_le_iff [OF x, of "-127"] assms by auto
  then have "2 powi f32_exp x = 2 powi ilog2 x * (2 powi (-23) :: rat)"
    using x by (simp add: f32_exp_def power_int_diff)
  also have "\<dots> \<le> x * 2 powi (-23)"
    using ilog2_bounds(1) [OF x] by (intro mult_right_mono) simp_all
  finally have "2 powi f32_exp x / 2 \<le> x * 2 powi (-24)"
    using powi_Suc [of "-24"] by simp
  then show ?thesis using f32_rnd_le_add [OF x] by (simp add: algebra_simps)
qed

lemma f32_rnd_small:
  assumes "0 < x" "x < 8"
  shows "f32_rnd x \<le> x + 2 powi (-22)"
proof -
  have "ilog2 x \<le> 2" using assms by (simp add: ilog2_le_iff)
  then have "2 powi f32_exp x \<le> (2 powi (-21) :: rat)"
    using assms by (intro powi_mono) (simp add: f32_exp_def)
  then show ?thesis using f32_rnd_le_add [OF assms(1)] powi_Suc [of "-22"] by simp
qed

section \<open>Symmetry\<close>

lemma rne_minus: "rne (- y) = - rne y"
proof (cases "y \<in> \<int>")
  case True
  then obtain k where "y = of_int k" by (auto elim: Ints_cases)
  moreover have "- (of_int k :: rat) = of_int (- k)" by simp
  ultimately show ?thesis by (simp only: rne_def Let_def floor_of_int) simp
next
  case False
  define f where "f = \<lfloor>y\<rfloor>"
  have n: "\<lfloor>- y\<rfloor> = - f - 1"
  proof -
    have "of_int f < y" using False f_def by (metis Ints_of_int floor_le_iff le_less of_int_floor_le)
    moreover have "y < of_int f + 1" unfolding f_def by linarith
    ultimately show ?thesis by (intro floor_unique) simp_all
  qed
  have "even (- f - 1) \<longleftrightarrow> odd f" by simp
  then show ?thesis
    unfolding rne_def Let_def n f_def [symmetric] by (auto simp: algebra_simps)
qed

lemma f32_rnd_minus: "f32_rnd (- x) = - f32_rnd x"
proof -
  have "f32_exp (- x) = f32_exp x" by (simp add: f32_exp_def)
  moreover have "- x / 2 powi f32_exp x = - (x / 2 powi f32_exp x)" by simp
  ultimately show ?thesis unfolding f32_rnd_def using rne_minus by simp
qed

lemma f32_rnd_between:
  assumes "f32_rep a" "f32_rep b" "0 \<le> a" "0 \<le> b" "- a \<le> x" "x \<le> b"
  shows "- a \<le> f32_rnd x" "f32_rnd x \<le> b"
proof -
  have "- a \<le> f32_rnd x \<and> f32_rnd x \<le> b"
  proof (cases "0 \<le> x")
    case True
    then show ?thesis
      using f32_rnd_le [OF assms(2)] f32_rnd_nonneg [of x] assms by auto
  next
    case False
    then have "f32_rnd (- x) \<le> a" "0 \<le> f32_rnd (- x)"
      using f32_rnd_le [OF assms(1), of "- x"] f32_rnd_nonneg [of "- x"] assms by auto
    then show ?thesis using assms(4) by (simp add: f32_rnd_minus)
  qed
  then show "- a \<le> f32_rnd x" "f32_rnd x \<le> b" by simp_all
qed

end
