(* ===== verification/Commands.thy ===== *)
theory Commands
  imports Prelude F32
begin

text \<open>
  The command type of \<open>native/src/lib.rs\<close>: what the interface asks a session's event loop to do,
  the flood cost of each command and which queued command a newer one replaces.
\<close>

section \<open>Commands\<close>

text \<open>The constructor arguments are the fields of the Rust variant, in the order it declares them.\<close>

datatype (plugins only: code size) command =
    SendMessage u8 u64 rstr
      \<comment> \<open>target mode, target client, message\<close>
  | MoveChannel u16 u64 "rstr option"
      \<comment> \<open>client, channel, channel password\<close>
  | SetMuted bool bool
      \<comment> \<open>input, output\<close>
  | SetAway bool "rstr option"
  | SetNickname rstr
  | KickClient u16 bool "rstr option"
      \<comment> \<open>client, from the server, reason\<close>
  | BanClient u16 u64 "rstr option"
      \<comment> \<open>client, seconds, reason\<close>
  | BanUid rstr u64 "rstr option"
  | BanAddress "rstr option" "rstr option" u64 "rstr option"
      \<comment> \<open>ip, name, seconds, reason\<close>
  | BanDelete u32
  | ListBans
  | SubscribeChannel u64 bool
      \<comment> \<open>channel, unsubscribe\<close>
  | ChannelDescription u64
  | AddClientToGroup u64 u64
      \<comment> \<open>client database id, group\<close>
  | RemoveClientFromGroup u64 u64
  | ComplainAdd u64 rstr
  | SetTalker u16 bool
  | DownloadFile u16 u64 rstr rstr
      \<comment> \<open>transfer, channel, channel password, remote path\<close>
  | UploadFile u16 u64 rstr rstr rstr u64 bool
      \<comment> \<open>transfer, channel, channel password, remote path, source path, size, overwrite\<close>
  | RequestFileList u32 u64 rstr rstr
      \<comment> \<open>request, channel, channel password, path\<close>
  | DeleteFile u64 rstr rstr
      \<comment> \<open>channel, channel password, path\<close>
  | CreateDirectory u64 rstr rstr
  | RenameFile u64 rstr "u64 option" "rstr option" rstr rstr
      \<comment> \<open>channel, password, target channel, target password, old name, new name\<close>
  | FileInfoRequest u32 u64 rstr rstr
      \<comment> \<open>request, channel, channel password, name\<close>
  | UseToken rstr
  | CreateChannel u64 rstr "rstr option" "rstr option" "rstr option" "i32 option" bool bool
      \<comment> \<open>parent, name, topic, description, password, max clients, permanent, semi-permanent\<close>
  | EditChannel u64 "rstr option" "rstr option" "rstr option" "rstr option" "bool option"
      "i32 option" "bool option" "bool option"
      \<comment> \<open>channel, name, topic, description, password, has password, max clients, permanent,
         semi-permanent\<close>
  | DeleteChannel u64 bool
  | MoveChannelTree u64 u64 "u64 option"
      \<comment> \<open>channel, parent, order\<close>
  | PokeClient u16 rstr
  | SetChannelCommander bool
  | Disconnect
  | SendAudio "f32 list"

section \<open>Flood cost\<close>

definition flood_cost :: "command \<Rightarrow> f32" where
  "flood_cost c = (case c of
      SendMessage _ _ _ \<Rightarrow> Fin 2
    | MoveChannel _ _ _ \<Rightarrow> Fin (3/2)
    | SetMuted _ _ \<Rightarrow> Fin (1/2)
    | SetAway _ _ \<Rightarrow> Fin (1/2)
    | SetChannelCommander _ \<Rightarrow> Fin (1/2)
    | SetNickname _ \<Rightarrow> Fin 2
    | KickClient _ _ _ \<Rightarrow> Fin 2
    | BanClient _ _ _ \<Rightarrow> Fin 2
    | BanUid _ _ _ \<Rightarrow> Fin 2
    | BanAddress _ _ _ _ \<Rightarrow> Fin 2
    | BanDelete _ \<Rightarrow> Fin 2
    | AddClientToGroup _ _ \<Rightarrow> Fin 2
    | RemoveClientFromGroup _ _ \<Rightarrow> Fin 2
    | ComplainAdd _ _ \<Rightarrow> Fin 2
    | SetTalker _ _ \<Rightarrow> Fin 2
    | ListBans \<Rightarrow> Fin 1
    | SubscribeChannel _ _ \<Rightarrow> Fin 1
    | ChannelDescription _ \<Rightarrow> Fin 1
    | PokeClient _ _ \<Rightarrow> Fin 2
    | DownloadFile _ _ _ _ \<Rightarrow> Fin 1
    | UploadFile _ _ _ _ _ _ _ \<Rightarrow> Fin 1
    | RequestFileList _ _ _ _ \<Rightarrow> Fin 1
    | DeleteFile _ _ _ \<Rightarrow> Fin 1
    | CreateDirectory _ _ _ \<Rightarrow> Fin 1
    | RenameFile _ _ _ _ _ _ \<Rightarrow> Fin 1
    | FileInfoRequest _ _ _ _ \<Rightarrow> Fin 1
    | UseToken _ \<Rightarrow> Fin 1
    | CreateChannel _ _ _ _ _ _ _ _ \<Rightarrow> Fin 2
    | EditChannel _ _ _ _ _ _ _ _ _ \<Rightarrow> Fin 2
    | DeleteChannel _ _ \<Rightarrow> Fin 2
    | MoveChannelTree _ _ _ \<Rightarrow> Fin 2
    | SendAudio _ \<Rightarrow> Fin 0
    | Disconnect \<Rightarrow> Fin 0)"

section \<open>Superseding\<close>

text \<open>
  \<open>Command::supersedes\<close>: the newer command replaces a queued one of the same state-setting kind.
  The match looks at the variants only, never at the fields.
\<close>

definition supersedes :: "command \<Rightarrow> command \<Rightarrow> bool" where
  "supersedes c other = (case c of
      MoveChannel _ _ _ \<Rightarrow> (case other of MoveChannel _ _ _ \<Rightarrow> True | _ \<Rightarrow> False)
    | SetMuted _ _ \<Rightarrow> (case other of SetMuted _ _ \<Rightarrow> True | _ \<Rightarrow> False)
    | SetAway _ _ \<Rightarrow> (case other of SetAway _ _ \<Rightarrow> True | _ \<Rightarrow> False)
    | SetNickname _ \<Rightarrow> (case other of SetNickname _ \<Rightarrow> True | _ \<Rightarrow> False)
    | RequestFileList _ _ _ _ \<Rightarrow> (case other of RequestFileList _ _ _ _ \<Rightarrow> True | _ \<Rightarrow> False)
    | FileInfoRequest _ _ _ _ \<Rightarrow> (case other of FileInfoRequest _ _ _ _ \<Rightarrow> True | _ \<Rightarrow> False)
    | SetChannelCommander _ \<Rightarrow> (case other of SetChannelCommander _ \<Rightarrow> True | _ \<Rightarrow> False)
    | SubscribeChannel _ _ \<Rightarrow> (case other of SubscribeChannel _ _ \<Rightarrow> True | _ \<Rightarrow> False)
    | ListBans \<Rightarrow> (case other of ListBans \<Rightarrow> True | _ \<Rightarrow> False)
    | SetTalker _ _ \<Rightarrow> (case other of SetTalker _ _ \<Rightarrow> True | _ \<Rightarrow> False)
    | _ \<Rightarrow> False)"

section \<open>Costs as rational numbers\<close>

text \<open>The costs are multiples of one half, at most 2: the arithmetic of the budget is exact on them.\<close>

definition cost_halves :: "command \<Rightarrow> int" where
  "cost_halves c = (case flood_cost c of Fin x \<Rightarrow> \<lfloor>2 * x\<rfloor> | _ \<Rightarrow> 0)"

definition cost_rat :: "command \<Rightarrow> rat" where
  "cost_rat c = of_int (cost_halves c) / 2"

lemma flood_cost_eq: "flood_cost c = Fin (cost_rat c)"
  by (cases c) (simp_all add: flood_cost_def cost_rat_def cost_halves_def)

lemma cost_halves_bounds: "0 \<le> cost_halves c" "cost_halves c \<le> 4"
  by (cases c; simp add: flood_cost_def cost_halves_def)+

lemma cost_rat_bounds: "0 \<le> cost_rat c" "cost_rat c \<le> 2"
  using cost_halves_bounds [of c] by (simp_all add: cost_rat_def)

lemma cost_rat_pos: "0 < cost_rat c \<longleftrightarrow> c \<noteq> Disconnect \<and> (\<forall>d. c \<noteq> SendAudio d)"
  by (cases c) (simp_all add: flood_cost_def cost_rat_def cost_halves_def)

lemma supersedes_same_cost: "supersedes c d \<Longrightarrow> flood_cost c = flood_cost d"
  by (cases c; simp add: supersedes_def flood_cost_def split: command.splits)

lemma supersedes_sym: "supersedes c d \<Longrightarrow> supersedes d c"
  by (cases c; simp add: supersedes_def split: command.splits)

end
