(* ===== verification/Budget.thy ===== *)
theory Budget
  imports Commands
begin

text \<open>
  The token bucket of \<open>native/src/lib.rs\<close> (\<open>CommandBudget\<close>): a queue of control commands released
  at a sustainable rate. Operations: \<open>budget_new\<close>, \<open>enter_degraded\<close>, \<open>refill\<close>, \<open>enqueue\<close>,
  \<open>take_ready\<close>, and the event loop's \<open>while let Some(cmd) = budget.take_ready(now)\<close>
  (\<open>drain_ready\<close>). Shown: the bucket invariant under every operation, FIFO release, exact payment
  at one instant, release of a waiting head after a bounded delay, and what a full or a superseded
  queue loses.
\<close>

section \<open>State and operations\<close>

record command_budget =
  tokens :: f32
  capacity :: f32
  refill_per_sec :: f32
  last_refill :: instant
  degraded_until :: "instant option"
  queue :: "command list"
  dropped :: u64

definition CAPACITY :: f32 where "CAPACITY = Fin 8"
definition REFILL_PER_SEC :: f32 where "REFILL_PER_SEC = Fin 3"
definition DEGRADED_CAPACITY :: f32 where "DEGRADED_CAPACITY = Fin 2"
definition DEGRADED_REFILL_PER_SEC :: f32 where "DEGRADED_REFILL_PER_SEC = Fin (1/2)"
definition DEGRADED_DURATION :: duration where "DEGRADED_DURATION = from_secs 30"
definition MAX_QUEUE :: nat where "MAX_QUEUE = 32"

definition budget_new :: "instant \<Rightarrow> command_budget" where
  "budget_new now = \<lparr>tokens = CAPACITY, capacity = CAPACITY, refill_per_sec = REFILL_PER_SEC,
     last_refill = now, degraded_until = None, queue = [], dropped = 0\<rparr>"

definition pending :: "command_budget \<Rightarrow> nat" where
  "pending b = length (queue b)"

definition is_degraded :: "command_budget \<Rightarrow> bool" where
  "is_degraded b \<longleftrightarrow> degraded_until b \<noteq> None"

definition enter_degraded :: "instant \<Rightarrow> command_budget \<Rightarrow> command_budget" where
  "enter_degraded now b = b\<lparr>degraded_until := Some (now + DEGRADED_DURATION),
     capacity := DEGRADED_CAPACITY, refill_per_sec := DEGRADED_REFILL_PER_SEC, tokens := Fin 0\<rparr>"

text \<open>The first half of \<open>refill\<close>: leaving degraded mode once its time is over.\<close>

definition recover :: "instant \<Rightarrow> command_budget \<Rightarrow> command_budget" where
  "recover now b = (case degraded_until b of
      Some until \<Rightarrow> if until \<le> now
        then b\<lparr>degraded_until := None, capacity := CAPACITY, refill_per_sec := REFILL_PER_SEC\<rparr>
        else b
    | None \<Rightarrow> b)"

definition refill :: "instant \<Rightarrow> command_budget \<Rightarrow> command_budget" where
  "refill now b0 = (let b = recover now b0; elapsed = now - last_refill b in
     if elapsed = 0 then b
     else b\<lparr>last_refill := now,
       tokens := fmin (fadd (tokens b) (fmul (as_secs_f32 elapsed) (refill_per_sec b))) (capacity b)\<rparr>)"

text \<open>Overwrites the first queued command the new one supersedes, if there is one.\<close>

fun replace_superseded :: "command \<Rightarrow> command list \<Rightarrow> command list option" where
  "replace_superseded c [] = None"
| "replace_superseded c (q # qs) =
     (if supersedes c q then Some (c # qs) else map_option ((#) q) (replace_superseded c qs))"

definition enqueue :: "command \<Rightarrow> command_budget \<Rightarrow> command_budget" where
  "enqueue c b = (case replace_superseded c (queue b) of
      Some q \<Rightarrow> b\<lparr>queue := q\<rparr>
    | None \<Rightarrow>
        let b' = (if MAX_QUEUE \<le> length (queue b)
                  then b\<lparr>queue := tl (queue b), dropped := dropped b + 1\<rparr> else b)
        in b'\<lparr>queue := queue b' @ [c]\<rparr>)"

definition take_ready :: "instant \<Rightarrow> command_budget \<Rightarrow> command_budget \<times> command option" where
  "take_ready now b0 = (let b = refill now b0 in
     case queue b of
       [] \<Rightarrow> (b, None)
     | c # qs \<Rightarrow>
         let cost = flood_cost c in
         if flt (tokens b) cost then (b, None)
         else (b\<lparr>tokens := fsub (tokens b) cost, queue := qs\<rparr>, Some c))"

lemma queue_recover [simp]: "queue (recover now b) = queue b"
  by (simp add: recover_def split: option.split)

lemma queue_refill [simp]: "queue (refill now b) = queue b"
  by (simp add: refill_def Let_def)

lemma take_ready_Some_queue:
  "take_ready now b = (b', Some c) \<Longrightarrow> queue b = c # queue b'"
  by (auto simp: take_ready_def Let_def split: list.splits if_splits)

lemma take_ready_None_queue: "take_ready now b = (b', None) \<Longrightarrow> queue b' = queue b"
  by (auto simp: take_ready_def Let_def split: list.splits if_splits)

function drain_ready :: "instant \<Rightarrow> command_budget \<Rightarrow> command_budget \<times> command list" where
  "drain_ready now b = (case take_ready now b of
      (b', None) \<Rightarrow> (b', [])
    | (b', Some c) \<Rightarrow> (case drain_ready now b' of (b'', cs) \<Rightarrow> (b'', c # cs)))"
  by pat_completeness auto
termination
  by (relation "measure (\<lambda>(now, b). length (queue b))")
    (auto dest!: take_ready_Some_queue [OF sym])

declare drain_ready.simps [simp del]


section \<open>The invariant\<close>

definition token_limit :: "command_budget \<Rightarrow> rat" where
  "token_limit b = (if is_degraded b then 2 else 8)"

definition token_ok :: "f32 \<Rightarrow> rat \<Rightarrow> bool" where
  "token_ok x l \<longleftrightarrow> (case x of Fin t \<Rightarrow> 0 \<le> t \<and> f32_rep t \<and> t \<le> l | _ \<Rightarrow> False)"

lemma token_ok_Fin [simp]: "token_ok (Fin t) l \<longleftrightarrow> 0 \<le> t \<and> f32_rep t \<and> t \<le> l"
  by (simp add: token_ok_def)

lemma token_okE:
  assumes "token_ok x l"
  obtains t where "x = Fin t" "0 \<le> t" "f32_rep t" "t \<le> l"
  using assms by (cases x) (auto simp: token_ok_def)

definition budget_inv :: "command_budget \<Rightarrow> bool" where
  "budget_inv b \<longleftrightarrow>
     token_ok (tokens b) (token_limit b)
     \<and> capacity b = (if is_degraded b then DEGRADED_CAPACITY else CAPACITY)
     \<and> refill_per_sec b = (if is_degraded b then DEGRADED_REFILL_PER_SEC else REFILL_PER_SEC)
     \<and> length (queue b) \<le> MAX_QUEUE"

text \<open>The balance of an invariant bucket as a number.\<close>

definition balance :: "command_budget \<Rightarrow> rat" where
  "balance b = (case tokens b of Fin t \<Rightarrow> t | _ \<Rightarrow> 0)"

lemma is_degraded_updates [simp]:
  "is_degraded (b\<lparr>queue := q\<rparr>) = is_degraded b" "is_degraded (b\<lparr>dropped := n\<rparr>) = is_degraded b"
  "is_degraded (b\<lparr>tokens := t\<rparr>) = is_degraded b" "is_degraded (b\<lparr>last_refill := i\<rparr>) = is_degraded b"
  by (simp_all add: is_degraded_def)

lemma token_limit_updates [simp]:
  "token_limit (b\<lparr>queue := q\<rparr>) = token_limit b" "token_limit (b\<lparr>dropped := n\<rparr>) = token_limit b"
  "token_limit (b\<lparr>tokens := t\<rparr>) = token_limit b" "token_limit (b\<lparr>last_refill := i\<rparr>) = token_limit b"
  by (simp_all add: token_limit_def)

lemma token_limit_le: "token_limit b \<le> 8"
  by (simp add: token_limit_def)

lemmas budget_consts = CAPACITY_def REFILL_PER_SEC_def DEGRADED_CAPACITY_def
  DEGRADED_REFILL_PER_SEC_def MAX_QUEUE_def

lemma budget_inv_tokens:
  assumes "budget_inv b"
  shows "tokens b = Fin (balance b)" "0 \<le> balance b" "f32_rep (balance b)" "balance b \<le> 8"
  using assms token_limit_le [of b] by (auto simp: budget_inv_def balance_def elim!: token_okE)

lemma budget_inv_caps:
  assumes "budget_inv b"
  obtains c r where "capacity b = Fin c" "refill_per_sec b = Fin r" "f32_rep c"
    "2 \<le> c" "c \<le> token_limit b" "1/2 \<le> r" "r \<le> 3" "f32_rep (4 * r)"
proof (cases "is_degraded b")
  case True
  with assms show ?thesis
    using f32_rep_of_int [of 2] by (intro that [of 2 "1/2"]) (simp_all add: budget_inv_def budget_consts token_limit_def)
next
  case False
  with assms show ?thesis
    using f32_rep_of_int [of 8] f32_rep_of_int [of 12]
    by (intro that [of 8 3]) (simp_all add: budget_inv_def budget_consts token_limit_def)
qed

lemma budget_inv_new: "budget_inv (budget_new now)"
  using f32_rep_of_int [of 8]
  by (simp add: budget_inv_def budget_new_def is_degraded_def budget_consts token_limit_def)

lemma budget_inv_enter_degraded: "budget_inv b \<Longrightarrow> budget_inv (enter_degraded now b)"
  using f32_rep_of_int [of 0]
  by (simp add: budget_inv_def enter_degraded_def is_degraded_def budget_consts token_limit_def)

lemma budget_inv_recover: "budget_inv b \<Longrightarrow> budget_inv (recover now b)"
  by (auto simp: budget_inv_def recover_def is_degraded_def token_limit_def
      split: option.splits elim!: token_okE)

lemma balance_recover [simp]: "balance (recover now b) = balance b"
  by (simp add: recover_def balance_def split: option.split)

lemma last_refill_recover [simp]: "last_refill (recover now b) = last_refill b"
  by (simp add: recover_def split: option.split)

lemma fmin_capacity:
  assumes "fnn x" "0 \<le> c" "f32_rep c"
  obtains m where "fmin x (Fin c) = Fin m" "0 \<le> m" "m \<le> c" "f32_rep m"
  using assms(1)
proof (cases rule: fnn_cases)
  case (Fin a)
  with assms that [of "min a c"] show ?thesis
    by (auto simp: fmin_def min_def split: if_splits)
next
  case PInf
  with assms that [of c] show ?thesis by (simp add: fmin_def)
qed

lemma budget_inv_refill:
  assumes "budget_inv b"
  shows "budget_inv (refill now b)"
proof -
  let ?b = "recover now b"
  have inv: "budget_inv ?b" using assms by (rule budget_inv_recover)
  obtain c r where c: "capacity ?b = Fin c" "refill_per_sec ?b = Fin r" "f32_rep c"
    "2 \<le> c" "c \<le> token_limit ?b" "1/2 \<le> r"
    using budget_inv_caps [OF inv] by metis
  have "fnn (fadd (tokens ?b) (fmul (as_secs_f32 (now - last_refill b)) (Fin r)))"
    using budget_inv_tokens [OF inv] c(6)
    by (intro fnn_fadd fnn_fmul fnn_secs) (simp_all add: fnn_def [of "Fin _"])
  then obtain m where "fmin (fadd (tokens ?b) (fmul (as_secs_f32 (now - last_refill b)) (Fin r)))
      (Fin c) = Fin m" "0 \<le> m" "m \<le> c" "f32_rep m"
    using fmin_capacity c(3,4) by (smt (verit) zero_le_numeral order_trans)
  then show ?thesis
    using inv c by (auto simp: refill_def Let_def budget_inv_def)
qed

lemma length_replace_superseded:
  "replace_superseded c qs = Some qs' \<Longrightarrow> length qs' = length qs"
  by (induction qs arbitrary: qs') (auto split: if_splits)

lemma budget_inv_queue:
  "budget_inv b \<Longrightarrow> length q \<le> MAX_QUEUE \<Longrightarrow> budget_inv (b\<lparr>queue := q\<rparr>)"
  by (simp add: budget_inv_def)

lemma budget_inv_dropped [simp]: "budget_inv (b\<lparr>dropped := n\<rparr>) = budget_inv b"
  by (simp add: budget_inv_def)

lemma enqueue_queue:
  "queue (enqueue c b) = (case replace_superseded c (queue b) of Some q \<Rightarrow> q
     | None \<Rightarrow> (if MAX_QUEUE \<le> length (queue b) then tl (queue b) else queue b) @ [c])"
  by (simp add: enqueue_def Let_def split: option.split)

lemma enqueue_frame:
  "enqueue c b = b\<lparr>queue := queue (enqueue c b), dropped := dropped (enqueue c b)\<rparr>"
  by (simp add: enqueue_def Let_def split: option.split)

lemma length_enqueue: "length (queue b) \<le> MAX_QUEUE \<Longrightarrow> length (queue (enqueue c b)) \<le> MAX_QUEUE"
  by (auto simp: enqueue_queue MAX_QUEUE_def dest: length_replace_superseded split: option.split)

lemma budget_inv_enqueue:
  assumes "budget_inv b"
  shows "budget_inv (enqueue c b)"
proof (subst enqueue_frame)
  have "length (queue (enqueue c b)) \<le> MAX_QUEUE"
    using assms by (intro length_enqueue) (simp add: budget_inv_def)
  then show "budget_inv (b\<lparr>queue := queue (enqueue c b), dropped := dropped (enqueue c b)\<rparr>)"
    using assms by (simp add: budget_inv_queue)
qed

lemma take_ready_Some_iff:
  "take_ready now b = (b', Some c) \<longleftrightarrow>
     (\<exists>qs. queue b = c # qs \<and> \<not> flt (tokens (refill now b)) (flood_cost c)
        \<and> b' = (refill now b)\<lparr>tokens := fsub (tokens (refill now b)) (flood_cost c), queue := qs\<rparr>)"
  by (auto simp: take_ready_def Let_def split: list.splits if_splits)

lemma take_ready_None_iff:
  "take_ready now b = (b', None) \<longleftrightarrow>
     b' = refill now b \<and> (queue b = [] \<or> flt (tokens (refill now b)) (flood_cost (hd (queue b))))"
  by (auto simp: take_ready_def Let_def split: list.splits if_splits)

text \<open>Paying is exact: the balance after a release is the balance before minus the cost.\<close>

lemma take_ready_pays:
  assumes inv: "budget_inv b" and take: "take_ready now b = (b', Some c)"
  shows "budget_inv b'" "balance b' = balance (refill now b) - cost_rat c"
proof -
  let ?r = "refill now b"
  have r: "budget_inv ?r" using inv by (rule budget_inv_refill)
  note t = budget_inv_tokens [OF r]
  from take obtain qs where b': "b' = ?r\<lparr>tokens := fsub (tokens ?r) (flood_cost c), queue := qs\<rparr>"
    and q: "queue b = c # qs" and "\<not> flt (tokens ?r) (flood_cost c)"
    unfolding take_ready_Some_iff by blast
  then have le: "cost_rat c \<le> balance ?r" using t(1) by (simp add: flood_cost_eq)
  have "f32_rep (balance ?r - cost_rat c)"
    by (rule f32_rep_minus_half [OF t(3) _ _ _ le, of "cost_halves c"])
      (use t(4) cost_rat_bounds in \<open>simp_all add: cost_rat_def\<close>)
  then have sub: "fsub (tokens ?r) (flood_cost c) = Fin (balance ?r - cost_rat c)"
    unfolding t(1) flood_cost_eq fsub_def
    using le t(4) cost_rat_bounds(1) [of c] by (simp add: f32_of_rat_rep abs_if)
  show "balance b' = balance ?r - cost_rat c" using sub b' by (simp add: balance_def)
  have "length qs \<le> MAX_QUEUE" using inv q by (simp add: budget_inv_def)
  then show "budget_inv b'"
    using r sub b' le t cost_rat_bounds(1) [of c] \<open>f32_rep (balance ?r - cost_rat c)\<close>
    by (auto simp: budget_inv_def)
qed

lemma budget_inv_take_ready:
  assumes "budget_inv b"
  shows "budget_inv (fst (take_ready now b))"
proof (cases "snd (take_ready now b)")
  case None
  then have "take_ready now b = (fst (take_ready now b), None)" by (metis prod.collapse)
  then have "fst (take_ready now b) = refill now b" unfolding take_ready_None_iff by simp
  then show ?thesis using assms by (simp add: budget_inv_refill)
next
  case (Some c)
  then have "take_ready now b = (fst (take_ready now b), Some c)" by (metis prod.collapse)
  with assms show ?thesis by (rule take_ready_pays)
qed


section \<open>Refilling twice at one instant\<close>

text \<open>A bucket is settled at an instant when refilling it there changes nothing.\<close>

definition settled :: "instant \<Rightarrow> command_budget \<Rightarrow> bool" where
  "settled now b \<longleftrightarrow> now \<le> last_refill b \<and> (case degraded_until b of None \<Rightarrow> True | Some u \<Rightarrow> now < u)"

lemma refill_settled: "settled now b \<Longrightarrow> refill now b = b"
  by (auto simp: settled_def refill_def recover_def split: option.splits)

lemma settled_refill: "settled now (refill now b)"
  by (auto simp: settled_def refill_def recover_def Let_def split: option.splits)

lemma settled_updates [simp]:
  "settled now (b\<lparr>queue := q\<rparr>) = settled now b" "settled now (b\<lparr>tokens := t\<rparr>) = settled now b"
  by (simp_all add: settled_def)

lemma settled_take_ready: "take_ready now b = (b', r) \<Longrightarrow> settled now b'"
  by (cases r) (auto simp: take_ready_Some_iff take_ready_None_iff settled_refill)

section \<open>Draining the queue\<close>

text \<open>
  What the event loop relies on: a queue whose \<open>take\<close> releases the front element when the balance
  at that instant covers its price. A loop that takes until nothing is released empties a prefix
  of the queue, pays exactly its prices, and stops at an element it cannot afford.
\<close>

locale paced_queue =
  fixes take :: "'t \<Rightarrow> 's \<Rightarrow> 's \<times> 'c option"
    and drain :: "'t \<Rightarrow> 's \<Rightarrow> 's \<times> 'c list"
    and content :: "'s \<Rightarrow> 'c list"
    and funds :: "'t \<Rightarrow> 's \<Rightarrow> rat"
    and price :: "'c \<Rightarrow> rat"
    and ok :: "'s \<Rightarrow> bool"
  assumes take_Some: "ok s \<Longrightarrow> take t s = (s', Some c) \<Longrightarrow>
      content s = c # content s' \<and> ok s' \<and> funds t s = price c + funds t s'"
    and take_None: "ok s \<Longrightarrow> take t s = (s', None) \<Longrightarrow>
      content s' = content s \<and> ok s' \<and> funds t s' = funds t s
        \<and> (content s = [] \<or> funds t s < price (hd (content s)))"
    and drain_step: "drain t s = (case take t s of
        (s', None) \<Rightarrow> (s', [])
      | (s', Some c) \<Rightarrow> (case drain t s' of (s'', cs) \<Rightarrow> (s'', c # cs)))"
begin

lemma drain_spec:
  assumes "ok s"
  shows "ok (fst (drain t s)) \<and> content s = snd (drain t s) @ content (fst (drain t s))
    \<and> funds t s = sum_list (map price (snd (drain t s))) + funds t (fst (drain t s))
    \<and> (content (fst (drain t s)) = []
       \<or> funds t (fst (drain t s)) < price (hd (content (fst (drain t s)))))"
  using assms
proof (induction "length (content s)" arbitrary: s rule: less_induct)
  case less
  obtain s' r where tk: "take t s = (s', r)" by (cases "take t s")
  show ?case
  proof (cases r)
    case None
    with tk take_None [OF less.prems] show ?thesis by (subst (1 2 3 4 5 6 7 8) drain_step) simp
  next
    case (Some c)
    with tk take_Some [OF less.prems] have s': "content s = c # content s'" "ok s'"
      "funds t s = price c + funds t s'" by simp_all
    have d: "drain t s = (fst (drain t s'), c # snd (drain t s'))"
      using tk Some by (subst drain_step) (simp add: case_prod_beta)
    show ?thesis using less.hyps [of s'] s' by (simp add: d)
  qed
qed

lemma drain_fifo: "ok s \<Longrightarrow> drain t s = (s', cs) \<Longrightarrow> content s = cs @ content s'"
  using drain_spec [of s t] by simp

lemma drain_pays: "ok s \<Longrightarrow> drain t s = (s', cs) \<Longrightarrow> funds t s = sum_list (map price cs) + funds t s'"
  using drain_spec [of s t] by simp

lemma drain_stops:
  "ok s \<Longrightarrow> drain t s = (s', cs) \<Longrightarrow> content s' = [] \<or> funds t s' < price (hd (content s'))"
  using drain_spec [of s t] by simp

lemma drain_ok: "ok s \<Longrightarrow> ok (fst (drain t s))"
  using drain_spec [of s t] by simp

end

definition funds_at :: "instant \<Rightarrow> command_budget \<Rightarrow> rat" where
  "funds_at now b = balance (refill now b)"

interpretation bq: paced_queue take_ready drain_ready queue funds_at cost_rat budget_inv
proof
  fix b b' :: command_budget and t c
  assume inv: "budget_inv b" and tk: "take_ready t b = (b', Some c)"
  have "balance (refill t b) = cost_rat c + balance b'"
    using take_ready_pays [OF inv tk] by simp
  then show "queue b = c # queue b' \<and> budget_inv b' \<and> funds_at t b = cost_rat c + funds_at t b'"
    using take_ready_Some_queue [OF tk] take_ready_pays(1) [OF inv tk]
      refill_settled [OF settled_take_ready [OF tk]] by (simp add: funds_at_def)
next
  fix b b' :: command_budget and t
  assume inv: "budget_inv b" and tk: "take_ready t b = (b', None)"
  then have b': "b' = refill t b"
    and "queue b = [] \<or> flt (tokens b') (flood_cost (hd (queue b)))"
    by (auto simp: take_ready_None_iff)
  then have "queue b = [] \<or> balance b' < cost_rat (hd (queue b))"
    using budget_inv_tokens(1) [OF budget_inv_refill [OF inv], of t] by (simp add: flood_cost_eq)
  then show "queue b' = queue b \<and> budget_inv b' \<and> funds_at t b' = funds_at t b
      \<and> (queue b = [] \<or> funds_at t b < cost_rat (hd (queue b)))"
    using b' inv refill_settled [OF settled_take_ready [OF tk]]
    by (simp add: funds_at_def budget_inv_refill)
qed (rule drain_ready.simps)

section \<open>Release of a waiting head\<close>

lemma refill_funds_ge_2:
  assumes inv: "budget_inv b" and wait: "last_refill b + from_secs 4 \<le> now"
  shows "2 \<le> funds_at now b"
proof -
  let ?b = "recover now b"
  let ?s = "as_secs_f32 (now - last_refill b)"
  have invb: "budget_inv ?b" using inv by (rule budget_inv_recover)
  obtain c r where c: "capacity ?b = Fin c" "refill_per_sec ?b = Fin r" "2 \<le> c" "1/2 \<le> r"
    "f32_rep (4 * r)"
    using budget_inv_caps [OF invb] by metis
  have "f32_ge ?s (of_nat 4)"
    using wait by (intro as_secs_ge) (simp_all add: from_secs_def)
  then have "f32_ge (fmul ?s (Fin r)) (4 * r)"
    using c(4,5) by (intro f32_ge_fmul fnn_secs) simp_all
  then have "f32_ge (fmul ?s (Fin r)) 2" using c(4) by (auto simp: f32_ge_def split: f32.splits)
  then have "f32_ge (fadd (tokens ?b) (fmul ?s (Fin r))) 2"
    using budget_inv_tokens [OF invb] c(4) f32_rep_of_int [of 2]
    by (intro f32_ge_fadd fnn_fmul fnn_secs) (simp_all add: fnn_def)
  then have "f32_ge (fmin (fadd (tokens ?b) (fmul ?s (Fin r))) (Fin c)) 2"
    using c(3) by (auto simp: fmin_def f32_ge_def split: f32.splits)
  moreover have "0 < now - last_refill b"
    using wait by (simp add: from_secs_def nanos_per_sec_def)
  ultimately have "f32_ge (tokens (refill now b)) 2"
    using c(1,2) by (simp add: refill_def Let_def)
  then show ?thesis
    using budget_inv_tokens(1) [OF budget_inv_refill [OF inv], of now]
    by (simp add: funds_at_def f32_ge_def)
qed

lemma take_ready_head:
  assumes "budget_inv b" "queue b = c # qs" "cost_rat c \<le> funds_at now b"
  shows "\<exists>b'. take_ready now b = (b', Some c)"
  using assms budget_inv_tokens(1) [OF budget_inv_refill [OF assms(1)], of now]
  by (simp add: take_ready_Some_iff flood_cost_eq funds_at_def)


section \<open>The long-run rate\<close>

text \<open>
  Upper bounds of the rounded arithmetic. \<open>f32_ub x r\<close>: \<open>x\<close> is zero or a number far above the
  subnormals, and at most \<open>r\<close> (an infinity is at most \<open>r\<close> when \<open>r\<close> is huge).
\<close>

definition f32_ub :: "f32 \<Rightarrow> rat \<Rightarrow> bool" where
  "f32_ub x r \<longleftrightarrow> 0 \<le> r \<and> (case x of
      Fin a \<Rightarrow> (a = 0 \<or> 2 powi (-100) \<le> a) \<and> a \<le> r
    | PInf \<Rightarrow> 2 powi 127 \<le> r | _ \<Rightarrow> False)"

definition rel_err :: rat where
  "rel_err = 1 + 2 powi (-24)"

lemma f32_rep_powi: "-149 \<le> k \<Longrightarrow> f32_rep (2 powi k)"
  by (rule f32_repI [of _ 1 k]) simp_all

lemma f32_ub_of_rat:
  assumes "x = 0 \<or> 2 powi (-100) \<le> x" "x \<le> r"
  shows "f32_ub (f32_of_rat x) (r * rel_err)"
proof (cases "x = 0")
  case True
  with assms show ?thesis by (simp add: f32_of_rat_def f32_ub_def rel_err_def)
next
  case False
  with assms have x: "2 powi (-100) \<le> x" by simp
  moreover have "(2::rat) powi (-126) \<le> 2 powi (-100)" by (rule powi_mono) simp
  ultimately have up: "f32_rnd x \<le> x * rel_err"
    unfolding rel_err_def by (intro f32_rnd_upper) (rule order_trans)
  have x0: "0 < x" using x by (rule order_less_le_trans [rotated]) simp
  have r: "x * rel_err \<le> r * rel_err"
    using assms(2) by (intro mult_right_mono) (simp_all add: rel_err_def)
  have lo: "2 powi (-100) \<le> f32_rnd x" using x by (intro f32_rnd_ge f32_rep_powi) simp_all
  have "(2::rat) powi 127 \<le> 2 ^ 128" by simp
  then show ?thesis
    using up r lo x0 unfolding f32_of_rat_def f32_ub_def Let_def
    by (auto simp: rel_err_def zero_le_mult_iff intro: order_trans)
qed

lemma f32_ub_fadd:
  assumes "f32_ub a r" "f32_ub b s"
  shows "f32_ub (fadd a b) ((r + s) * rel_err)"
proof (cases a; cases b)
  fix x y assume ab: "a = Fin x" "b = Fin y"
  have "x + y = 0 \<or> 2 powi (-100) \<le> x + y"
    using assms ab by (auto simp: f32_ub_def intro: add_increasing add_increasing2)
  then have "f32_ub (f32_of_rat (x + y)) ((r + s) * rel_err)"
    using assms ab by (intro f32_ub_of_rat) (auto simp: f32_ub_def intro: add_mono)
  then show ?thesis using ab by simp
qed (use assms in \<open>auto simp: f32_ub_def rel_err_def algebra_simps\<close>)

lemma f32_ub_secs: "f32_ub (as_secs_f32 d) (of_nat d / 10 ^ 9 * rel_err ^ 3)"
proof -
  let ?s = "of_nat (d div nanos_per_sec) :: rat" and ?n = "of_nat (d mod nanos_per_sec) :: rat"
  have small: "(2::rat) powi (-100) \<le> 1 / 10 ^ 10" "(2::rat) powi (-100) \<le> 1"
    by (simp_all add: power_int_minus)
  have nat: "of_nat k = (0::rat) \<or> 2 powi (-100) \<le> (of_nat k :: rat)" for k :: nat
    using small(2) by (cases k) simp_all
  have s: "f32_ub (f32_of_rat ?s) (?s * rel_err)" by (rule f32_ub_of_rat [OF nat]) simp
  have n: "f32_ub (f32_of_rat ?n) (?n * rel_err)" by (rule f32_ub_of_rat [OF nat]) simp
  have n9: "?n \<le> 10 ^ 9" by (simp add: nanos_per_sec_def flip: of_nat_le_iff)
  obtain m where m: "f32_of_rat ?n = Fin m" "m \<le> ?n * rel_err" "m = 0 \<or> 1/2 \<le> m"
  proof (cases "f32_of_rat ?n")
    case (Fin m)
    moreover have "m = 0 \<or> 1/2 \<le> m"
    proof (cases "d mod nanos_per_sec = 0")
      case True
      then show ?thesis using Fin by (simp add: f32_of_rat_def)
    next
      case False
      then have "f32_ge (f32_of_rat ?n) (1/2)"
        using f32_rep_half [of 1] by (intro f32_ge_of_rat) simp_all
      then show ?thesis using Fin by (simp add: f32_ge_def)
    qed
    ultimately show ?thesis using n that by (auto simp: f32_ub_def)
  next
    case PInf
    then have "2 powi 127 \<le> ?n * rel_err" using n by (simp add: f32_ub_def)
    also have "\<dots> \<le> 10 ^ 9 * 2"
      using n9 by (intro mult_mono) (simp_all add: rel_err_def power_int_minus)
    finally show ?thesis by simp
  qed (use n in \<open>simp_all add: f32_ub_def\<close>)
  have "f32_ub (f32_of_rat (m / 1000000000)) (?n * rel_err / 10 ^ 9 * rel_err)"
    using m(2,3) small(1) by (intro f32_ub_of_rat) (auto simp: field_simps)
  with s have "f32_ub (as_secs_f32 d) ((?s * rel_err + ?n * rel_err / 10 ^ 9 * rel_err) * rel_err)"
    unfolding as_secs_f32_def f32_nanos m(1) by (intro f32_ub_fadd) simp_all
  moreover have "(?s * rel_err + ?n * rel_err / 10 ^ 9 * rel_err) * rel_err
      \<le> of_nat d / 10 ^ 9 * rel_err ^ 3"
  proof -
    have e: "1 \<le> rel_err" by (simp add: rel_err_def)
    have "?s * rel_err \<le> ?s * (rel_err * rel_err)"
      using e by (intro mult_left_mono) (simp_all add: mult_le_cancel_left1)
    then have "(?s * rel_err + ?n * rel_err / 10 ^ 9 * rel_err) * rel_err
        \<le> (?s * (rel_err * rel_err) + ?n / 10 ^ 9 * (rel_err * rel_err)) * rel_err"
      using e by (intro mult_right_mono add_mono) simp_all
    also have "\<dots> = (?s + ?n / 10 ^ 9) * rel_err ^ 3"
      by (simp add: power3_eq_cube algebra_simps)
    also have "?s + ?n / 10 ^ 9 = of_nat d / 10 ^ 9"
    proof -
      have "d div nanos_per_sec * 10 ^ 9 + d mod nanos_per_sec = d"
        using div_mult_mod_eq [of d nanos_per_sec] by (simp add: nanos_per_sec_def)
      then have "of_nat (d div nanos_per_sec * 10 ^ 9 + d mod nanos_per_sec) = (of_nat d :: rat)"
        by (simp only:)
      then have "?s * 10 ^ 9 + ?n = of_nat d"
        by (simp only: of_nat_add of_nat_mult of_nat_power of_nat_numeral)
      then show ?thesis by (simp add: field_simps)
    qed
    finally show ?thesis .
  qed
  ultimately show ?thesis
    by (auto simp: f32_ub_def rel_err_def split: f32.splits intro: order_trans)
qed

text \<open>Refilling adds at most 3 tokens per second, up to the rounding error.\<close>

definition rate_bound :: rat where
  "rate_bound = 3 * rel_err ^ 4"

lemma refill_upper:
  assumes inv: "budget_inv b"
  shows "balance (refill now b) \<le> balance b
    + rate_bound * (of_nat (last_refill (refill now b)) - of_nat (last_refill b)) / 10 ^ 9 + 2 powi (-22)"
proof (cases "now \<le> last_refill b")
  case True
  then have "refill now b = recover now b" by (simp add: refill_def Let_def)
  then show ?thesis by simp
next
  case False
  let ?b = "recover now b" and ?d = "now - last_refill b"
  have invb: "budget_inv ?b" using inv by (rule budget_inv_recover)
  obtain c r where c: "capacity ?b = Fin c" "refill_per_sec ?b = Fin r" "2 \<le> c" "c \<le> token_limit ?b"
    "1/2 \<le> r" "r \<le> 3"
    using budget_inv_caps [OF invb] by metis
  have c8: "c \<le> 8" using c(4) token_limit_le [of ?b] by simp
  let ?v = "fmul (as_secs_f32 ?d) (Fin r)"
  define R where "R = rate_bound * of_nat ?d / 10 ^ 9"
  have t: "tokens ?b = Fin (balance b)" "0 \<le> balance b" using budget_inv_tokens [OF invb] by simp_all
  have lr: "last_refill (refill now b) = now"
    and rf: "tokens (refill now b) = fmin (fadd (Fin (balance b)) ?v) (Fin c)"
    using False c(1,2) t(1) by (simp_all add: refill_def Let_def)
  have R: "of_nat ?d / 10 ^ 9 * rel_err ^ 3 * r * rel_err \<le> R"
  proof -
    have e4: "rel_err ^ 4 = rel_err ^ 3 * rel_err" by (simp add: eval_nat_numeral)
    have "of_nat ?d / 10 ^ 9 * rel_err ^ 3 * r * rel_err = (of_nat ?d / 10 ^ 9 * rel_err ^ 4) * r"
      unfolding e4 by (simp add: mult_ac)
    also have "\<dots> \<le> (of_nat ?d / 10 ^ 9 * rel_err ^ 4) * 3"
      using c(6) by (intro mult_left_mono) (simp_all add: rel_err_def)
    finally show ?thesis by (simp add: R_def rate_bound_def mult_ac)
  qed
  have fnnv: "fnn ?v" using c(5) by (intro fnn_fmul fnn_secs) simp
  have v: "(case ?v of Fin w \<Rightarrow> 0 \<le> w \<and> w \<le> R | PInf \<Rightarrow> 8 \<le> R | _ \<Rightarrow> False)"
  proof (cases "as_secs_f32 ?d")
    case (Fin s)
    with f32_ub_secs [of ?d] have s: "s = 0 \<or> 2 powi (-100) \<le> s" "s \<le> of_nat ?d / 10 ^ 9 * rel_err ^ 3"
      by (simp_all add: f32_ub_def)
    show ?thesis
    proof (cases "s = 0")
      case True
      then show ?thesis using Fin by (simp add: f32_of_rat_def R_def rate_bound_def rel_err_def)
    next
      case False
      with s have s1: "2 powi (-100) \<le> s" by simp
      have "(2::rat) powi (-126) \<le> 2 powi (-100) * (1/2)" by (simp add: power_int_minus)
      also have "\<dots> \<le> s * r" using s1 c(5) by (intro mult_mono) simp_all
      finally have "f32_rnd (s * r) \<le> s * r * rel_err" unfolding rel_err_def by (rule f32_rnd_upper)
      also have "\<dots> \<le> of_nat ?d / 10 ^ 9 * rel_err ^ 3 * r * rel_err"
        using s(2) c(5) by (intro mult_right_mono) (simp_all add: rel_err_def)
      finally have "f32_rnd (s * r) \<le> R" using R by simp
      then show ?thesis
        using fnnv Fin by (auto simp: f32_of_rat_def Let_def fnn_def split: if_splits)
    qed
  next
    case PInf
    define q where "q = of_nat ?d / 10 ^ 9 * rel_err ^ 3"
    have q: "2 powi 127 \<le> q" using f32_ub_secs [of ?d] PInf by (simp add: f32_ub_def q_def)
    have "16 * (1/2) \<le> q * (r * rel_err)"
      using c(5) q by (intro mult_mono) (simp_all add: rel_err_def)
    moreover have "q * (r * rel_err) \<le> R" using R unfolding q_def by (simp only: mult.assoc)
    ultimately have "8 \<le> R" by simp
    then show ?thesis using PInf c(5) by (simp add: f32_inf_def f32_sgn_def)
  qed (use fnn_secs [of ?d] in \<open>simp_all add: fnn_def\<close>)
  have "balance (refill now b) \<le> balance b + R + 2 powi (-22)"
  proof (cases ?v)
    case (Fin w)
    with v have w: "0 \<le> w" "w \<le> R" by simp_all
    show ?thesis
    proof (cases "8 \<le> balance b + w")
      case True
      have "balance (refill now b) \<le> 8"
        using budget_inv_tokens(4) [OF budget_inv_refill [OF inv]] .
      moreover have "0 \<le> (2::rat) powi (-22)" by (rule zero_le_power_int) simp
      ultimately show ?thesis using True w(2) by linarith
    next
      case False
      then have lt: "balance b + w < 8" by simp
      have "f32_rnd (balance b + w) \<le> balance b + w + 2 powi (-22)"
        using f32_rnd_small [of "balance b + w"] lt t(2) w(1) by (cases "balance b + w = 0") simp_all
      moreover have "f32_rnd (balance b + w) \<le> 8"
        using f32_rnd_le [of 8 "balance b + w"] f32_rep_of_int [of 8] lt t(2) w(1) by simp
      moreover have "tokens (refill now b) = fmin (f32_of_rat (balance b + w)) (Fin c)"
        using rf Fin by simp
      moreover have "0 \<le> f32_rnd (balance b + w)" using t(2) w(1) by (intro f32_rnd_nonneg) simp
      ultimately show ?thesis
        using w(2) by (auto simp: balance_def f32_of_rat_def Let_def fmin_def)
    qed
  next
    case PInf
    then have "tokens (refill now b) = Fin c" using rf by (simp add: fmin_def)
    then show ?thesis using v PInf c8 t(2) by (simp add: balance_def)
  qed (use v in simp_all)
  then show ?thesis using lr False by (simp add: R_def of_nat_diff)
qed


section \<open>Runs\<close>

text \<open>A run interleaves queued commands, releases and flood complaints of the server.\<close>

datatype budget_event = EvEnqueue command | EvTake instant | EvFlood instant

fun budget_step :: "command_budget \<Rightarrow> budget_event \<Rightarrow> command_budget \<times> command list" where
  "budget_step b (EvEnqueue c) = (enqueue c b, [])"
| "budget_step b (EvTake now) = (case take_ready now b of (b', r) \<Rightarrow> (b', case r of None \<Rightarrow> [] | Some c \<Rightarrow> [c]))"
| "budget_step b (EvFlood now) = (enter_degraded now b, [])"

fun budget_run :: "command_budget \<Rightarrow> budget_event list \<Rightarrow> command_budget \<times> command list" where
  "budget_run b [] = (b, [])"
| "budget_run b (e # es) = (case budget_step b e of (b', cs) \<Rightarrow>
     (case budget_run b' es of (b'', ds) \<Rightarrow> (b'', cs @ ds)))"

fun event_time :: "budget_event \<Rightarrow> instant" where
  "event_time (EvEnqueue c) = 0"
| "event_time (EvTake now) = now"
| "event_time (EvFlood now) = now"

fun is_take :: "budget_event \<Rightarrow> bool" where
  "is_take (EvTake now) = True"
| "is_take _ = False"

definition total_cost :: "command list \<Rightarrow> rat" where
  "total_cost cs = sum_list (map cost_rat cs)"

lemma total_cost_simps [simp]:
  "total_cost [] = 0" "total_cost (c # cs) = cost_rat c + total_cost cs"
  "total_cost (cs @ ds) = total_cost cs + total_cost ds"
  by (simp_all add: total_cost_def)

lemma budget_inv_step: "budget_inv b \<Longrightarrow> budget_inv (fst (budget_step b e))"
  using budget_inv_take_ready [of b]
  by (cases e) (simp_all add: budget_inv_enqueue budget_inv_enter_degraded case_prod_beta)

lemma budget_inv_run: "budget_inv b \<Longrightarrow> budget_inv (fst (budget_run b es))"
  by (induction es arbitrary: b) (simp_all add: case_prod_beta budget_inv_step)

lemma last_refill_refill: "last_refill (refill now b) = (if now \<le> last_refill b then last_refill b else now)"
  by (simp add: refill_def Let_def)

lemma last_refill_enqueue [simp]: "last_refill (enqueue c b) = last_refill b"
  by (simp add: enqueue_def Let_def split: option.split)

lemma balance_enqueue [simp]: "balance (enqueue c b) = balance b"
  by (subst enqueue_frame) (simp add: balance_def)

definition refill_slack :: rat where
  "refill_slack = 2 powi (-22)"

definition accrual :: "instant \<Rightarrow> instant \<Rightarrow> rat" where
  "accrual t0 t = rate_bound * (of_nat t - of_nat t0) / 10 ^ 9"

lemma accrual_add: "accrual a b + accrual b c = accrual a c"
  by (simp add: accrual_def field_simps)

lemma accrual_mono: "t \<le> t' \<Longrightarrow> accrual a t \<le> accrual a t'"
  unfolding accrual_def
  by (intro divide_right_mono mult_left_mono) (simp_all add: rate_bound_def rel_err_def)

lemma budget_step_funds:
  assumes inv: "budget_inv b" and st: "budget_step b e = (b', cs)"
  shows "total_cost cs + balance b' \<le> balance b + accrual (last_refill b) (last_refill b')
      + (if is_take e then refill_slack else 0)
    \<and> last_refill b' \<le> max (last_refill b) (event_time e)"
proof (cases e)
  case (EvEnqueue c)
  with st show ?thesis by (auto simp: accrual_def)
next
  case (EvFlood now)
  with st budget_inv_tokens(2) [OF inv] show ?thesis
    by (auto simp: accrual_def enter_degraded_def balance_def [of "_\<lparr>tokens := _\<rparr>"])
next
  case (EvTake now)
  obtain r where tk: "take_ready now b = (b', r)" and cs: "cs = (case r of None \<Rightarrow> [] | Some c \<Rightarrow> [c])"
    using st EvTake by (auto split: prod.splits)
  have rf: "balance (refill now b) \<le> balance b + accrual (last_refill b) (last_refill (refill now b)) + refill_slack"
    using refill_upper [OF inv, of now] by (simp add: accrual_def refill_slack_def)
  show ?thesis
  proof (cases r)
    case None
    with tk have "b' = refill now b" by (simp add: take_ready_None_iff)
    then show ?thesis using rf None cs EvTake by (simp add: last_refill_refill)
  next
    case (Some c)
    with tk have tk': "take_ready now b = (b', Some c)" by simp
    then have "last_refill b' = last_refill (refill now b)" by (auto simp: take_ready_Some_iff)
    then show ?thesis
      using rf take_ready_pays(2) [OF inv tk'] Some cs EvTake by (simp add: last_refill_refill)
  qed
qed

lemma budget_run_funds:
  assumes "budget_inv b" "last_refill b \<le> T" "\<forall>e\<in>set es. event_time e \<le> T"
  shows "total_cost (snd (budget_run b es)) + balance (fst (budget_run b es))
    \<le> balance b + accrual (last_refill b) T + of_nat (length (filter is_take es)) * refill_slack"
  using assms
proof (induction es arbitrary: b)
  case Nil
  then have "0 \<le> accrual (last_refill b) T"
    using accrual_mono [of "last_refill b" T "last_refill b"] by (simp add: accrual_def)
  then show ?case by simp
next
  case (Cons e es)
  obtain b' cs where st: "budget_step b e = (b', cs)" by (cases "budget_step b e")
  note step = budget_step_funds [OF Cons.prems(1) st]
  have le: "last_refill b' \<le> T" using step Cons.prems(2,3) by auto
  have "budget_inv b'" using budget_inv_step [OF Cons.prems(1), of e] st by simp
  note IH = Cons.IH [OF this le]
  have "total_cost (snd (budget_run b' es)) + balance (fst (budget_run b' es))
      \<le> balance b' + accrual (last_refill b') T + of_nat (length (filter is_take es)) * refill_slack"
    using IH Cons.prems(3) by simp
  then show ?case
    using step st accrual_add [of "last_refill b" "last_refill b'" T]
    by (auto simp: case_prod_beta algebra_simps split: if_splits)
qed

section \<open>Properties\<close>

text \<open>C27. Whatever is queued, released or reported, and whatever the clock reads, the bucket stays
  well formed: the balance is a single-precision number between 0 and the current capacity, capacity
  and refill rate are those of the current mode, and at most 32 commands are pending.\<close>

theorem budget_run_well_formed: "budget_inv (fst (budget_run (budget_new t0) es))"
  by (intro budget_inv_run budget_inv_new)

text \<open>C28. Flood protection: in any run whose clock readings are at most \<open>T\<close>, the flood cost of all
  released commands is at most the burst of 8 plus 3 tokens per elapsed second, up to the
  single-precision error (a factor of \<open>(1 + 2 ^ -24) ^ 4\<close> and \<open>2 ^ -22\<close> tokens per release attempt).\<close>

theorem budget_run_rate:
  assumes "t0 \<le> T" "\<forall>e\<in>set es. event_time e \<le> T"
  shows "total_cost (snd (budget_run (budget_new t0) es))
    \<le> 8 + 3 * (1 + 2 powi (-24)) ^ 4 * (of_nat T - of_nat t0) / 10 ^ 9
      + of_nat (length (filter is_take es)) * 2 powi (-22)"
proof -
  have "total_cost (snd (budget_run (budget_new t0) es)) + balance (fst (budget_run (budget_new t0) es))
      \<le> 8 + accrual t0 T + of_nat (length (filter is_take es)) * refill_slack"
    using budget_run_funds [OF budget_inv_new [of t0] _ assms(2)] assms(1)
    by (simp add: budget_new_def balance_def CAPACITY_def)
  moreover have "0 \<le> balance (fst (budget_run (budget_new t0) es))"
    by (intro budget_inv_tokens(2) budget_inv_run budget_inv_new)
  ultimately show ?thesis
    by (simp add: accrual_def refill_slack_def rate_bound_def rel_err_def)
qed

theorem budget_run_rate_witness:
  "total_cost (snd (budget_run (budget_new 0) [EvEnqueue (SetNickname []), EvTake 5, EvFlood 6]))
    \<le> 8 + 3 * (1 + 2 powi (-24)) ^ 4 * (of_nat 6 - of_nat 0) / 10 ^ 9
      + of_nat (length (filter is_take [EvEnqueue (SetNickname []), EvTake 5, EvFlood 6])) * 2 powi (-22)"
  by (rule budget_run_rate) simp_all

lemma drain_ready_spec_facts:
  assumes "budget_inv b" "drain_ready now b = (b', cs)"
  shows "queue b = cs @ queue b'"
    and "total_cost cs + balance (refill now b') = balance (refill now b)"
    and "total_cost cs \<le> 8"
    and "queue b' = [] \<or> balance (refill now b') < cost_rat (hd (queue b'))"
proof -
  have ok: "budget_inv b'" using bq.drain_ok [OF assms(1), of now] assms(2) by simp
  show pays: "total_cost cs + balance (refill now b') = balance (refill now b)"
    using bq.drain_pays [OF assms] by (simp add: funds_at_def total_cost_def)
  show "total_cost cs \<le> 8"
    using pays budget_inv_tokens(4) [OF budget_inv_refill [OF assms(1)], of now]
      budget_inv_tokens(2) [OF budget_inv_refill [OF ok], of now] by linarith
qed (use bq.drain_fifo [OF assms] bq.drain_stops [OF assms] in \<open>simp_all add: funds_at_def\<close>)

text \<open>One pass of the event loop releases a prefix of the queue in order, pays exactly the cost
  of what it releases out of a balance of at most 8, and stops only at an empty queue or at a head it
  cannot afford.\<close>

theorem drain_ready_spec:
  assumes "budget_inv b" "drain_ready now b = (b', cs)"
  shows "(queue b = cs @ queue b')
    \<and> (total_cost cs + balance (refill now b') = balance (refill now b))
    \<and> (total_cost cs \<le> 8)
    \<and> (queue b' = [] \<or> balance (refill now b') < cost_rat (hd (queue b')))"
  by (intro conjI impI drain_ready_spec_facts [OF assms])

theorem drain_ready_spec_witness:
  "\<exists>b' cs. drain_ready 7 (enqueue ListBans (budget_new 7)) = (b', cs)
     \<and> queue (enqueue ListBans (budget_new 7)) = cs @ queue b' \<and> total_cost cs \<le> 8"
proof -
  obtain b' cs where "drain_ready 7 (enqueue ListBans (budget_new 7)) = (b', cs)"
    by (cases "drain_ready 7 (enqueue ListBans (budget_new 7))")
  with drain_ready_spec [OF budget_inv_enqueue [OF budget_inv_new] this] show ?thesis by blast
qed



lemma replace_superseded_None: "replace_superseded c qs = None \<longleftrightarrow> (\<forall>d\<in>set qs. \<not> supersedes c d)"
  by (induction qs) auto

lemma replace_superseded_Some:
  "replace_superseded c qs = Some qs' \<Longrightarrow> \<exists>xs d ys. qs = xs @ d # ys \<and> supersedes c d
     \<and> (\<forall>x\<in>set xs. \<not> supersedes c x) \<and> qs' = xs @ c # ys"
proof (induction qs arbitrary: qs')
  case (Cons q qs)
  show ?case
  proof (cases "supersedes c q")
    case True
    with Cons.prems show ?thesis by (intro exI [of _ "[]"] exI [of _ q] exI [of _ qs]) simp
  next
    case False
    with Cons obtain xs d ys where "q # qs = (q # xs) @ d # ys" "supersedes c d"
      "\<forall>x\<in>set (q # xs). \<not> supersedes c x" "qs' = (q # xs) @ c # ys" by fastforce
    then show ?thesis by blast
  qed
qed simp

text \<open>Queueing a command does one of three things: it overwrites the first command it supersedes
  and keeps everything else in place, or it is appended, or, when 32 commands wait, it is appended
  after dropping the oldest, which the drop counter records.\<close>

theorem enqueue_cases:
  "(\<exists>xs d ys. queue b = xs @ d # ys \<and> supersedes c d \<and> (\<forall>x\<in>set xs. \<not> supersedes c x)
      \<and> enqueue c b = b\<lparr>queue := xs @ c # ys\<rparr>)
   \<or> (\<forall>d\<in>set (queue b). \<not> supersedes c d)
      \<and> enqueue c b = (if length (queue b) < 32 then b\<lparr>queue := queue b @ [c]\<rparr>
          else b\<lparr>queue := tl (queue b) @ [c], dropped := dropped b + 1\<rparr>)"
proof (cases "replace_superseded c (queue b)")
  case None
  then show ?thesis
    by (auto simp: enqueue_def Let_def MAX_QUEUE_def replace_superseded_None [symmetric])
next
  case (Some q)
  then show ?thesis using replace_superseded_Some [OF Some] by (auto simp: enqueue_def)
qed

text \<open>Superseding looks at the kind of the command only: a talk-power change, a move or a
  subscription for one target silently replaces the one queued for another target, and nothing is
  counted as dropped.\<close>

theorem superseding_ignores_the_target:
  "queue (enqueue (SetTalker u y) (enqueue (SetTalker v x) (budget_new t))) = [SetTalker u y]"
  "queue (enqueue (MoveChannel u c p) (enqueue (MoveChannel v d q) (budget_new t))) = [MoveChannel u c p]"
  "queue (enqueue (SubscribeChannel c s) (enqueue (SubscribeChannel d r) (budget_new t)))
     = [SubscribeChannel c s]"
  "dropped (enqueue (SetTalker u y) (enqueue (SetTalker v x) (budget_new t))) = 0"
  by (simp_all add: enqueue_def budget_new_def MAX_QUEUE_def supersedes_def)

end
