(* ===== verification/ConnectErrors.thy ===== *)
theory ConnectErrors
  imports Prelude
begin

text \<open>
  The classification of connection failures in \<open>native/src/api.rs\<close> and the connection phases and
  failure record of \<open>native/src/lib.rs\<close>. The error type is \<open>tsclientlib::Error\<close>; the errors of the
  network and identity libraries it wraps are the type parameter \<open>'e\<close>, since the code never looks
  inside them.
\<close>

section \<open>Errors\<close>

text \<open>
  \<open>TsError\<close> is generated from a table of server error codes. The variants the engine names are
  constructors; every other code is \<open>TsOther\<close> with its number.
\<close>

datatype ts_error = TsOk | ServerInvalidPassword | ClientInvalidPassword | ChannelInvalidPassword
  | ConnectFailedBanned | RenameFailedBanned | ClientNicknameInuse | ServerMaxclientsReached
  | ClientCouldNotValidateIdentity | ClientIsFlooding | BanFlooding | TsOther u32

datatype 'e client_error =
    CommandError ts_error "u32 option"
      \<comment> \<open>error, missing permission\<close>
  | Connect 'e
  | ConnectFailed rstr "'e client_error list"
      \<comment> \<open>address, one error per resolved address\<close>
  | ConnectionFailed 'e
  | ConnectionGone
  | ConnectTs ts_error
  | FiletransferIo 'e
  | IdentityCreate 'e
  | IdentityLevel u8
  | IdentityLevelCorrupted u8 u8
  | IdentityLevelIncreaseFailedThread
  | InitserverParamsMissing
  | InitserverParse 'e
  | InitserverTimeout
  | InitserverWait 'e
  | Io 'e
  | NotConnected
  | ResolveAddress 'e
  | SendClientinit 'e
  | SendPacket 'e
  | ServerUidMismatch "u8 list"

section \<open>Classification\<close>

definition classify_server_refusal :: "ts_error \<Rightarrow> rstr \<times> bool" where
  "classify_server_refusal error = (case error of
      ServerInvalidPassword \<Rightarrow> (str ''password'', False)
    | ClientInvalidPassword \<Rightarrow> (str ''password'', False)
    | ChannelInvalidPassword \<Rightarrow> (str ''channel_password'', False)
    | ConnectFailedBanned \<Rightarrow> (str ''banned'', False)
    | RenameFailedBanned \<Rightarrow> (str ''banned'', False)
    | ClientNicknameInuse \<Rightarrow> (str ''nickname_in_use'', False)
    | ServerMaxclientsReached \<Rightarrow> (str ''server_full'', True)
    | ClientCouldNotValidateIdentity \<Rightarrow> (str ''identity_level'', False)
    | _ \<Rightarrow> (str ''server_refused'', False))"

fun classify_connect_error :: "'e client_error \<Rightarrow> rstr \<times> bool" where
  "classify_connect_error (ResolveAddress _) = (str ''dns'', True)"
| "classify_connect_error InitserverTimeout = (str ''timeout'', True)"
| "classify_connect_error (Connect _) = (str ''network'', True)"
| "classify_connect_error (ConnectionFailed _) = (str ''network'', True)"
| "classify_connect_error ConnectionGone = (str ''network'', True)"
| "classify_connect_error (Io _) = (str ''network'', True)"
| "classify_connect_error NotConnected = (str ''network'', True)"
| "classify_connect_error (SendClientinit _) = (str ''network'', True)"
| "classify_connect_error (SendPacket _) = (str ''network'', True)"
| "classify_connect_error (InitserverWait _) = (str ''network'', True)"
| "classify_connect_error (IdentityLevel _) = (str ''identity_level'', False)"
| "classify_connect_error (IdentityLevelCorrupted _ _) = (str ''identity_level'', False)"
| "classify_connect_error IdentityLevelIncreaseFailedThread = (str ''identity_level'', False)"
| "classify_connect_error (IdentityCreate _) = (str ''identity_level'', False)"
| "classify_connect_error (ServerUidMismatch _) = (str ''server_identity_changed'', False)"
| "classify_connect_error (InitserverParse _) = (str ''protocol'', False)"
| "classify_connect_error InitserverParamsMissing = (str ''protocol'', False)"
| "classify_connect_error (FiletransferIo _) = (str ''protocol'', False)"
| "classify_connect_error (ConnectTs server_error) = classify_server_refusal server_error"
| "classify_connect_error (CommandError error _) = classify_server_refusal error"
| "classify_connect_error (ConnectFailed _ []) = (str ''network'', True)"
| "classify_connect_error (ConnectFailed _ (e # _)) = classify_connect_error e"

section \<open>Phases and failures\<close>

datatype connect_phase = Resolving | Connecting | Authenticating | Connected

fun phase_str :: "connect_phase \<Rightarrow> rstr" where
  "phase_str Resolving = str ''resolving''"
| "phase_str Connecting = str ''connecting''"
| "phase_str Authenticating = str ''authenticating''"
| "phase_str Connected = str ''connected''"

record connect_failure =
  cf_kind :: rstr
  cf_phase :: connect_phase
  cf_message :: rstr
  cf_retryable :: bool

section \<open>Properties\<close>

text \<open>The kinds a retry may fix.\<close>

definition retryable_kinds :: "rstr list" where
  "retryable_kinds = [str ''dns'', str ''timeout'', str ''network'', str ''server_full'']"

lemma server_refusal_kind:
  "snd (classify_server_refusal e) \<longleftrightarrow> fst (classify_server_refusal e) \<in> set retryable_kinds"
  by (cases e) (simp_all add: classify_server_refusal_def retryable_kinds_def str_def)

text \<open>The errors the server sent: the only ones whose verdict rests on a server error code.\<close>

fun leaf_error :: "'e client_error \<Rightarrow> 'e client_error option" where
  "leaf_error (ConnectFailed _ []) = None"
| "leaf_error (ConnectFailed _ (e # _)) = leaf_error e"
| "leaf_error e = Some e"

lemma leaf_error_classify:
  "classify_connect_error e = (case leaf_error e of None \<Rightarrow> (str ''network'', True)
     | Some l \<Rightarrow> classify_connect_error l)"
  by (induction e rule: leaf_error.induct) auto

lemma connect_error_retryable_iff_kind_facts:
  "snd (classify_connect_error e) \<longleftrightarrow> fst (classify_connect_error e) \<in> set retryable_kinds"
  "fst (classify_connect_error e) \<noteq> str ''unknown''"
proof -
  show "snd (classify_connect_error e) \<longleftrightarrow> fst (classify_connect_error e) \<in> set retryable_kinds"
    by (induction e rule: classify_connect_error.induct)
      (simp_all add: server_refusal_kind, simp_all add: retryable_kinds_def str_def)
  have "fst (classify_server_refusal x) \<noteq> str ''unknown''" for x
    by (cases x) (simp_all add: classify_server_refusal_def str_def)
  then show "fst (classify_connect_error e) \<noteq> str ''unknown''"
    by (induction e rule: classify_connect_error.induct) (simp_all, simp_all add: str_def)
qed

text \<open>The retry flag is a function of the kind: a failure is reported as retryable exactly when
  its kind is one of dns, timeout, network and server\_full, however deep the error is nested. So the
  reconnect policy may branch on either. The fallback kind for unknown variants is never reported.\<close>

theorem connect_error_retryable_iff_kind:
  "(snd (classify_connect_error e) \<longleftrightarrow> fst (classify_connect_error e) \<in> set retryable_kinds)
    \<and> (fst (classify_connect_error e) \<noteq> str ''unknown'')"
  by (intro conjI connect_error_retryable_iff_kind_facts)

text \<open>When every resolved address failed, the verdict is that of the first innermost error.\<close>

theorem connect_failed_verdict_of_first_leaf:
  "classify_connect_error (ConnectFailed a (e # es)) =
     (case leaf_error e of None \<Rightarrow> (str ''network'', True) | Some l \<Rightarrow> classify_connect_error l)"
  using leaf_error_classify [of e] by simp

end
