(* ===== verification/IpAddr.thy ===== *)
theory IpAddr
  imports Prelude
begin

text \<open>
  \<open>str::parse::<IpAddr>()\<close> of the standard library, which the ban commands of
  \<open>native/src/api.rs\<close> use to validate an address: a recursive descent over the characters, where
  every reader returns the remaining text or \<open>None\<close>.
\<close>

datatype ip_addr = V4 u8 u8 u8 u8 | V6 "u16 list"

section \<open>Numbers\<close>

definition digit_value :: "int \<Rightarrow> rchar \<Rightarrow> int option" where
  "digit_value radix c =
     (let d = (if is_ascii_digit c then c - 48
               else if 97 \<le> c \<and> c \<le> 122 then c - 97 + 10
               else if is_ascii_upper c then c - 65 + 10 else radix)
      in if d < radix then Some d else None)"

text \<open>The digits at the front, at most \<open>fuel\<close> of them: their value, how many, and the rest.\<close>

fun read_digits :: "int \<Rightarrow> nat \<Rightarrow> rstr \<Rightarrow> int \<Rightarrow> nat \<Rightarrow> int \<times> nat \<times> rstr" where
  "read_digits radix fuel [] v n = (v, n, [])"
| "read_digits radix 0 (c # cs) v n = (v, n, c # cs)"
| "read_digits radix (Suc fuel) (c # cs) v n = (case digit_value radix c of
      None \<Rightarrow> (v, n, c # cs)
    | Some d \<Rightarrow> read_digits radix fuel cs (v * radix + d) (Suc n))"

definition digit_follows :: "int \<Rightarrow> rstr \<Rightarrow> bool" where
  "digit_follows radix s = (case s of [] \<Rightarrow> False | c # _ \<Rightarrow> digit_value radix c \<noteq> None)"

text \<open>An octet: one to three digits, at most 255, without a leading zero.\<close>

definition read_octet :: "rstr \<Rightarrow> (u8 \<times> rstr) option" where
  "read_octet s = (case read_digits 10 3 s 0 0 of (v, n, rest) \<Rightarrow>
     if n = 0 \<or> digit_follows 10 rest \<or> 255 < v \<or> (1 < n \<and> hd s = 48) then None
     else Some (word_of_int v, rest))"

definition read_group :: "rstr \<Rightarrow> (u16 \<times> rstr) option" where
  "read_group s = (case read_digits 16 4 s 0 0 of (v, n, rest) \<Rightarrow>
     if n = 0 \<or> digit_follows 16 rest then None else Some (word_of_int v, rest))"

definition read_char :: "rchar \<Rightarrow> rstr \<Rightarrow> rstr option" where
  "read_char c s = (case s of [] \<Rightarrow> None | d # ds \<Rightarrow> if d = c then Some ds else None)"

section \<open>Addresses\<close>

definition read_ipv4 :: "rstr \<Rightarrow> ((u8 \<times> u8 \<times> u8 \<times> u8) \<times> rstr) option" where
  "read_ipv4 s =
     Option.bind (read_octet s) (\<lambda>(a, s). Option.bind (read_char 46 s) (\<lambda>s.
     Option.bind (read_octet s) (\<lambda>(b, s). Option.bind (read_char 46 s) (\<lambda>s.
     Option.bind (read_octet s) (\<lambda>(c, s). Option.bind (read_char 46 s) (\<lambda>s.
     Option.bind (read_octet s) (\<lambda>(d, s). Some ((a, b, c, d), s))))))))"

definition separated :: "nat \<Rightarrow> (rstr \<Rightarrow> ('a \<times> rstr) option) \<Rightarrow> rstr \<Rightarrow> ('a \<times> rstr) option" where
  "separated i p s = (if i = 0 then p s else Option.bind (read_char 58 s) p)"

text \<open>Groups from index \<open>i\<close> on while fewer than \<open>limit\<close> are read; the flag says that an embedded
  IPv4 address ended the list.\<close>

function read_groups :: "nat \<Rightarrow> nat \<Rightarrow> u16 list \<Rightarrow> rstr \<Rightarrow> u16 list \<times> bool \<times> rstr" where
  "read_groups limit i acc s =
     (if limit \<le> i then (acc, False, s) else
      case (if i + 1 < limit then separated i read_ipv4 s else None) of
        Some ((a, b, c, d), rest) \<Rightarrow>
          (acc @ [word_cat a b, word_cat c d], True, rest)
      | None \<Rightarrow> (case separated i read_group s of
          None \<Rightarrow> (acc, False, s)
        | Some (g, rest) \<Rightarrow> read_groups limit (i + 1) (acc @ [g]) rest))"
  by pat_completeness auto
termination by (relation "measure (\<lambda>(limit, i, acc, s). limit - i)") auto

declare read_groups.simps [simp del]

definition read_ipv6 :: "rstr \<Rightarrow> (u16 list \<times> rstr) option" where
  "read_ipv6 s = (case read_groups 8 0 [] s of (head, v4, rest) \<Rightarrow>
     if length head = 8 then Some (head, rest)
     else if v4 then None
     else Option.bind (read_char 58 rest) (\<lambda>rest. Option.bind (read_char 58 rest) (\<lambda>rest.
       case read_groups (8 - (length head + 1)) 0 [] rest of (tail, _, rest) \<Rightarrow>
         Some (head @ replicate (8 - length head - length tail) 0 @ tail, rest))))"

definition parse_ip :: "rstr \<Rightarrow> ip_addr option" where
  "parse_ip s = (case (case read_ipv4 s of
        Some ((a, b, c, d), rest) \<Rightarrow> Some (V4 a b c d, rest)
      | None \<Rightarrow> map_option (\<lambda>(gs, rest). (V6 gs, rest)) (read_ipv6 s)) of
      Some (ip, []) \<Rightarrow> Some ip
    | _ \<Rightarrow> None)"

lemma parse_ip_examples:
  "parse_ip (str ''127.0.0.1'') = Some (V4 127 0 0 1)"
  "parse_ip (str ''127.0.0.01'') = None"
  "parse_ip (str ''256.0.0.1'') = None"
  "parse_ip (str ''fe80::1'') = Some (V6 [65152, 0, 0, 0, 0, 0, 0, 1])"
  "parse_ip (str ''::ffff:1.2.3.4'') = Some (V6 [0, 0, 0, 0, 0, 65535, 258, 772])"
  "parse_ip (str ''example.org'') = None"
  by code_simp+

end
