(* ===== verification/Messages.thy ===== *)
theory Messages
  imports IpAddr
begin

text \<open>
  What the engine hands to the client library: the protocol messages built in the event loop of
  \<open>native/src/api.rs\<close> and the other calls on a \<open>Connection\<close>. A message the code sends with a single
  part is a constructor with that part's fields; fields the code always leaves \<open>None\<close> are not
  arguments, except in \<open>client_update\<close>, where which fields are set is the point.
\<close>

datatype text_target = TargetClient | TargetChannel | TargetServer

datatype kick_reason = KickChannel | KickServer

text \<open>\<open>OutClientUpdatePart\<close>: every field is optional, an unset one leaves the server's value alone.\<close>

record client_update =
  cu_name :: "rstr option"
  cu_input_muted :: "bool option"
  cu_output_muted :: "bool option"
  cu_is_away :: "bool option"
  cu_away_message :: "rstr option"
  cu_input_hardware_enabled :: "bool option"
  cu_output_hardware_enabled :: "bool option"
  cu_is_channel_commander :: "bool option"
  cu_avatar_hash :: "rstr option"
  cu_phonetic_name :: "rstr option"
  cu_talk_power_request :: "bool option"
  cu_talk_power_request_message :: "rstr option"
  cu_is_recording :: "bool option"
  cu_badges :: "rstr option"

definition no_update :: client_update where
  "no_update = \<lparr>cu_name = None, cu_input_muted = None, cu_output_muted = None, cu_is_away = None,
     cu_away_message = None, cu_input_hardware_enabled = None, cu_output_hardware_enabled = None,
     cu_is_channel_commander = None, cu_avatar_hash = None, cu_phonetic_name = None,
     cu_talk_power_request = None, cu_talk_power_request_message = None, cu_is_recording = None,
     cu_badges = None\<rparr>"

datatype (plugins only: code size) out_message =
    OutSendTextMessage text_target "u16 option" rstr
  | OutClientMove u16 u64 "rstr option"
  | OutClientUpdate client_update
  | OutClientKick u16 kick_reason "rstr option"
  | OutBanClient u16 "int option" "rstr option"
      \<comment> \<open>client, duration in seconds, reason\<close>
  | OutBanAdd "ip_addr option" "rstr option" "u8 list option" "int option" "rstr option"
      \<comment> \<open>ip, name, uid, duration in seconds, reason\<close>
  | OutBanDel u32
  | OutBanListRequest
  | OutChannelSubscribe u64
  | OutChannelUnsubscribe u64
  | OutChannelSubscribeAll
  | OutChannelDescriptionRequest u64
  | OutServerGroupAddClient u64 u64
      \<comment> \<open>group, client database id\<close>
  | OutServerGroupDelClient u64 u64
  | OutComplainAdd u64 rstr
  | OutClientEdit u16 bool
  | OutClientPoke u16 rstr
  | OutInitDownload u16 rstr u64 rstr u64 u8
      \<comment> \<open>transfer, name, channel, channel password, seek position, protocol\<close>
  | OutUploadFile u64 rstr "rstr option" u64 bool bool
      \<comment> \<open>channel, path, password, size, overwrite, resume\<close>
  | OutFileListRequest u64 rstr rstr
  | OutDeleteFile u64 rstr rstr
  | OutCreateDirectory u64 rstr rstr
  | OutRenameFile u64 rstr "u64 option" "rstr option" rstr rstr
  | OutFileInfoRequest u64 rstr rstr
  | OutPrivilegeKeyUse rstr
  | OutChannelCreate "u64 option" rstr "rstr option" "rstr option" "rstr option" "i32 option"
      bool bool bool
      \<comment> \<open>parent, name, topic, description, password, max clients, has password, permanent,
         semi-permanent\<close>
  | OutChannelEdit u64 "rstr option" "rstr option" "bool option" "rstr option" "bool option"
      "bool option" "i32 option" "rstr option"
      \<comment> \<open>channel, name, topic, has password, password, permanent, semi-permanent, max clients,
         description\<close>
  | OutChannelDelete u64 bool
  | OutChannelMove u64 u64 "u64 option"
  | OutDisconnect
  | OutVoice u16 "u8 list"
      \<comment> \<open>packet id, Opus data\<close>
  | OutWhisper u16 "u64 list" "u16 list" "u8 list"
      \<comment> \<open>packet id, channels, clients, Opus data\<close>

end
