(* ===== verification/State.thy ===== *)
theory State
  imports Commands Budget ConnectErrors Messages
begin

text \<open>
  The state of the engine: the types \<open>native/src/lib.rs\<close> hands to the interface (\<open>ts_event\<close>,
  \<open>ts_channel\<close>, \<open>ts_client\<close>), the state of one connection (\<open>ts_connection\<close>), the bookkeeping of one
  session (\<open>session_rec\<close>) and the process-wide statics (\<open>engine\<close>).

  \<^item> A mutex or an atomic is its content: every operation here is one critical section.
  \<^item> The library's \<open>Connection\<close> and the task handles of the runtime are opaque, so a slot that may hold
    one is a \<open>bool\<close>. What the engine hands to the library is recorded in \<open>outbox\<close>.
  \<^item> The sender of a session's command channel is the flag \<open>command_tx\<close>; the channel's receiver and its
    content are \<open>cmd_rx\<close> (no entry: the receiver is gone).
  \<^item> An Opus encoder or decoder is the list of the frames or packets it has processed: it is a
    deterministic function of them.
\<close>

type_synonym connection_id = u64
type_synonym audio_key = "connection_id \<times> u16"
type_synonym i16 = "16 word"
type_synonym frame = "i16 list"

section \<open>Types for the interface\<close>

record ts_server_file =
  sf_name :: rstr
  sf_size :: u64
  sf_modified :: u64
  sf_is_directory :: bool

record ts_channel =
  ch_id :: u32
  ch_name :: rstr
  ch_parent_id :: u32
  ch_topic :: rstr
  ch_has_password :: bool
  ch_client_count :: u32
  ch_order :: u32
  ch_needed_talk_power :: i32
  ch_max_clients :: i32
  ch_codec :: u8
  ch_codec_quality :: u8
  ch_channel_type :: u8
  ch_is_default :: bool
  ch_is_private :: bool
  ch_subscribed :: bool
  ch_icon_id :: u32
  ch_is_unencrypted :: bool

record ts_client =
  cl_id :: u32
  cl_nickname :: rstr
  cl_channel_id :: u32
  cl_database_id :: u64
  cl_channel_group_id :: u64
  cl_channel_group_name :: "rstr option"
  cl_channel_group_icon_id :: u32
  cl_server_group_ids :: "u64 list"
  cl_server_group_names :: "rstr list"
  cl_server_group_icon_ids :: "u32 list"
  cl_away :: bool
  cl_input_muted :: bool
  cl_output_muted :: bool
  cl_is_talking :: bool
  cl_is_whispering :: bool
  cl_permission_hints :: u64
  cl_volume :: f32
  cl_uid :: "rstr option"
  cl_client_type :: u8
  cl_talk_power :: i32
  cl_talk_power_granted :: bool
  cl_is_priority_speaker :: bool
  cl_is_channel_commander :: bool
  cl_is_recording :: bool
  cl_input_hardware_enabled :: bool
  cl_output_hardware_enabled :: bool
  cl_output_only_muted :: bool
  cl_phonetic_name :: rstr
  cl_country_code :: rstr
  cl_metadata :: rstr
  cl_avatar_hash :: rstr

text \<open>The events, with the fields of the Rust variants in the order they are declared.\<close>

datatype (plugins only: code size) ts_event =
    EvConnected rstr u32 rstr rstr rstr rstr u8 u32 u32
      \<comment> \<open>server name, own client, encryption mode, server uid, welcome message, host message and mode,
         max clients, needed identity level\<close>
  | EvDisconnected rstr bool
      \<comment> \<open>reason, expected\<close>
  | EvTextMessage rstr u32 u8 rstr
      \<comment> \<open>from, client id, target mode, message\<close>
  | EvClientJoined u32 rstr u32
  | EvClientLeft u32 rstr
  | EvChannelsUpdated
  | EvDiag rstr
  | EvError rstr
  | EvCommandError rstr rstr "rstr option"
      \<comment> \<open>code, message, missing permission\<close>
  | EvNetworkStats u64 u64 u64 f32 u64 u64 u64 u64 u64 u64
      \<comment> \<open>rtt, deviation, jitter, loss percent, bytes in and out, packets in and out, bandwidth in and out\<close>
  | EvConnectionPhase rstr
  | EvFileTransfer u32 rstr rstr u64 bool "rstr option"
      \<comment> \<open>transfer, remote path, local path, bytes, ok, error\<close>
  | EvFileTransferProgress u32 rstr u64 u64
  | EvServerFileList u32 u32 rstr bool "rstr option" "ts_server_file list"
      \<comment> \<open>request, channel, path, ok, error, files\<close>
  | EvServerFileInfo u32 u32 rstr rstr u64 u64 bool
      \<comment> \<open>request, channel, path, name, size, modified, ok\<close>
  | EvTokenUsed rstr rstr rstr u64
  | EvBanList u32 rstr rstr rstr rstr u64 u64 rstr
  | EvComplainList u64 rstr u64 rstr rstr u64
  | EvChannelDescription u32 rstr
  | EvClientUpdated u32 rstr
  | EvCommandThrottled u32 bool
  | EvConnectFailed rstr rstr rstr bool
      \<comment> \<open>kind, phase, message, retryable\<close>

record enveloped_event =
  ev_connection_id :: connection_id
  ev_event :: ts_event

definition into_event :: "connect_failure \<Rightarrow> ts_event" where
  "into_event f = EvConnectFailed (cf_kind f) (phase_str (cf_phase f)) (cf_message f) (cf_retryable f)"

section \<open>The jitter buffer of one speaker\<close>

record jitter_buffer =
  slots :: "frame option list"
  write_seq :: u32
  base_seq :: u32
  base_slot :: u64
  last_packet :: "instant option"
  frame_pool :: "frame list"
  volume :: f32

definition jitter_new :: jitter_buffer where
  "jitter_new = \<lparr>slots = replicate 32 None, write_seq = 0, base_seq = 0, base_slot = 0,
     last_packet = None, frame_pool = [], volume = Fin 1\<rparr>"

section \<open>One connection\<close>

record ts_connection =
  connected :: bool
  connecting :: bool
  server_name :: rstr
  server_uid :: rstr
  nickname :: rstr
  own_client_id :: u32
  channels :: "ts_channel list"
  clients :: "ts_client list"
  pcm_in :: "f32 list"
  audio_encoder :: "f32 list list option"
  audio_seq :: u16
  vad_threshold :: f32
  vad_enabled :: bool
  vad_noise_floor :: f32
  vad_hold :: u32
  voice_active :: bool
  disconnect_requested :: bool
  mic_gain :: f32
  talking_clients :: "(u16, instant) table"
  whispering_clients :: "(u16, instant) table"
  last_rtt_ms :: u64
  jitter_ms :: u64
  permission_hints :: "u16 \<rightharpoonup> u64"
  whisper_active :: bool
  whisper_target_clients :: "u16 list"
  whisper_target_channels :: "u64 list"
  whisper_seq :: u16
  whisper_was_active :: bool
  whisper_allow_mode :: u8
  whisper_allowed_uids :: "rstr set"
  whisper_ignored_count :: u64
  file_list_buffers :: "u64 \<times> rstr \<rightharpoonup> ts_server_file list"

definition ts_connection_new :: ts_connection where
  "ts_connection_new = \<lparr>connected = False, connecting = False, server_name = [], server_uid = [],
     nickname = [], own_client_id = 0, channels = [], clients = [], pcm_in = [], audio_encoder = None,
     audio_seq = 0, vad_threshold = Fin 0, vad_enabled = False, vad_noise_floor = Fin 0, vad_hold = 0,
     voice_active = False, disconnect_requested = False, mic_gain = Fin 1, talking_clients = [],
     whispering_clients = [], last_rtt_ms = 0, jitter_ms = 0, permission_hints = Map.empty,
     whisper_active = False, whisper_target_clients = [], whisper_target_channels = [],
     whisper_seq = 0, whisper_was_active = False, whisper_allow_mode = 0, whisper_allowed_uids = {},
     whisper_ignored_count = 0, file_list_buffers = Map.empty\<rparr>"

section \<open>One session\<close>

record pending_transfer =
  pt_target_path :: rstr
  pt_max_bytes :: u64
  pt_remote_path :: rstr

record upload_job =
  uj_transfer_id :: u16
  uj_source_path :: rstr
  uj_remote_path :: rstr

record session_rec =
  sess_state :: ts_connection
  command_tx :: bool
  sess_budget :: command_budget
  pending_transfers :: "u16 \<rightharpoonup> pending_transfer"
  upload_jobs :: "u16 \<rightharpoonup> upload_job"
  pending_file_requests :: "u64 \<times> rstr \<rightharpoonup> u32"
  pending_file_info_requests :: "u64 \<times> rstr \<rightharpoonup> u32"
  next_transfer_id :: u32
  next_request_id :: u32
  server_host :: rstr
  generation :: u64
  event_loop_alive :: bool
  connect_task :: bool
  connection :: bool

definition session_new :: "instant \<Rightarrow> connection_id \<Rightarrow> ts_connection \<Rightarrow> session_rec" where
  "session_new now cid st = \<lparr>sess_state = st, command_tx = False, sess_budget = budget_new now,
     pending_transfers = Map.empty, upload_jobs = Map.empty, pending_file_requests = Map.empty,
     pending_file_info_requests = Map.empty, next_transfer_id = 1, next_request_id = 1,
     server_host = [], generation = cid, event_loop_alive = False, connect_task = False,
     connection = False\<rparr>"

section \<open>The engine\<close>

record engine =
  NEXT_CONNECTION_ID :: u64
  SESSIONS :: "(connection_id, session_rec) table"
  IDENTITY_STASH :: "rstr option"
  OUTPUT_RESTART_REQUESTED :: bool
  CLIENT_VOLUMES :: "rstr \<rightharpoonup> f32"
  EVENT_QUEUE :: "enveloped_event list"
  CLIENT_BUFFERS :: "(audio_key, jitter_buffer) table"
  AUDIO_DECODERS :: "(audio_key, u8 list list) table"
  AUDIO_DECODERS_STEREO :: "(audio_key, u8 list list) table"
  PLAYED_SAMPLES :: u64
  MASTER_VOLUME :: f32
  ACTIVE_CLIENT_IDS :: "audio_key list"
  AUDIO_STREAM :: bool
  PANIC_LOG :: rstr
  DIAG_SEQ :: u64
  LOG_LEVEL :: u32
  MAINTENANCE_STARTED :: bool
  cmd_rx :: "connection_id \<rightharpoonup> command list"
  outbox :: "(connection_id \<times> out_message) list"

definition engine_new :: "u32 \<Rightarrow> engine" where
  "engine_new level = \<lparr>NEXT_CONNECTION_ID = 1, SESSIONS = [], IDENTITY_STASH = None,
     OUTPUT_RESTART_REQUESTED = False, CLIENT_VOLUMES = Map.empty, EVENT_QUEUE = [],
     CLIENT_BUFFERS = [], AUDIO_DECODERS = [], AUDIO_DECODERS_STEREO = [], PLAYED_SAMPLES = 0,
     MASTER_VOLUME = Fin 1, ACTIVE_CLIENT_IDS = [], AUDIO_STREAM = False, PANIC_LOG = [],
     DIAG_SEQ = 0, LOG_LEVEL = level, MAINTENANCE_STARTED = False, cmd_rx = Map.empty, outbox = []\<rparr>"

section \<open>Access to a session\<close>

definition session :: "connection_id \<Rightarrow> engine \<Rightarrow> ts_connection option" where
  "session cid e = map_option sess_state (tget (SESSIONS e) cid)"

definition any_session_listening :: "engine \<Rightarrow> bool" where
  "any_session_listening e \<longleftrightarrow> list_ex (\<lambda>(cid, s). connected (sess_state s)) (SESSIONS e)"

definition upd_session :: "connection_id \<Rightarrow> (session_rec \<Rightarrow> session_rec) \<Rightarrow> engine \<Rightarrow> engine" where
  "upd_session cid f e = (case tget (SESSIONS e) cid of
      None \<Rightarrow> e
    | Some s \<Rightarrow> e\<lparr>SESSIONS := tput cid (f s) (SESSIONS e)\<rparr>)"

definition upd_state :: "connection_id \<Rightarrow> (ts_connection \<Rightarrow> ts_connection) \<Rightarrow> engine \<Rightarrow> engine" where
  "upd_state cid f = upd_session cid (\<lambda>s. s\<lparr>sess_state := f (sess_state s)\<rparr>)"

text \<open>The guard most entry points start with.\<close>

definition is_connected :: "connection_id \<Rightarrow> engine \<Rightarrow> bool" where
  "is_connected cid e \<longleftrightarrow> (case session cid e of None \<Rightarrow> False | Some st \<Rightarrow> connected st)"

definition push_event :: "connection_id \<Rightarrow> ts_event \<Rightarrow> engine \<Rightarrow> engine" where
  "push_event cid ev e = e\<lparr>EVENT_QUEUE := EVENT_QUEUE e @ [\<lparr>ev_connection_id = cid, ev_event = ev\<rparr>]\<rparr>"

definition push_global_event :: "ts_event \<Rightarrow> engine \<Rightarrow> engine" where
  "push_global_event ev = push_event 0 ev"

text \<open>\<open>tx.send(command)\<close> on the session's sender, if it still has one.\<close>

definition queue_command :: "connection_id \<Rightarrow> command \<Rightarrow> engine \<Rightarrow> engine \<times> bool" where
  "queue_command cid c e = (case tget (SESSIONS e) cid of
      None \<Rightarrow> (e, False)
    | Some s \<Rightarrow> if command_tx s then
        (case cmd_rx e cid of
           None \<Rightarrow> (e, False)
         | Some cs \<Rightarrow> (e\<lparr>cmd_rx := (cmd_rx e)(cid \<mapsto> cs @ [c])\<rparr>, True))
      else (e, False))"

definition send_to :: "connection_id \<Rightarrow> out_message \<Rightarrow> engine \<Rightarrow> engine" where
  "send_to cid m e = e\<lparr>outbox := outbox e @ [(cid, m)]\<rparr>"

lemma session_upd_state [simp]:
  "session j (upd_state cid f e) = (if j = cid then map_option f (session cid e) else session j e)"
  by (simp add: session_def upd_state_def upd_session_def split: option.split)

lemma session_upd_session_keep [simp]:
  "(\<And>s. sess_state (f s) = sess_state s) \<Longrightarrow> session j (upd_session cid f e) = session j e"
  by (simp add: session_def upd_session_def split: option.split)

lemma tget_upd_session [simp]:
  "tget (SESSIONS (upd_session cid f e)) j
    = (if j = cid then map_option f (tget (SESSIONS e) cid) else tget (SESSIONS e) j)"
  by (simp add: upd_session_def split: option.split)

lemma session_None: "session cid e = None \<longleftrightarrow> tget (SESSIONS e) cid = None"
  by (simp add: session_def)

lemma upd_session_absent: "tget (SESSIONS e) cid = None \<Longrightarrow> upd_session cid f e = e"
  by (simp add: upd_session_def)

text \<open>The sessions are not touched by events and outgoing messages.\<close>

lemma SESSIONS_push_event [simp]: "SESSIONS (push_event cid ev e) = SESSIONS e"
  by (simp add: push_event_def)

lemma session_push_event [simp]: "session j (push_event cid ev e) = session j e"
  by (simp add: session_def)

lemma EVENT_QUEUE_push_event [simp]:
  "EVENT_QUEUE (push_event cid ev e) = EVENT_QUEUE e @ [\<lparr>ev_connection_id = cid, ev_event = ev\<rparr>]"
  by (simp add: push_event_def)

lemma SESSIONS_send_to [simp]: "SESSIONS (send_to cid m e) = SESSIONS e"
  by (simp add: send_to_def)

lemma EVENT_QUEUE_send_to [simp]: "EVENT_QUEUE (send_to cid m e) = EVENT_QUEUE e"
  by (simp add: send_to_def)

lemma outbox_send_to [simp]: "outbox (send_to cid m e) = outbox e @ [(cid, m)]"
  by (simp add: send_to_def)

lemma EVENT_QUEUE_upd_session [simp]: "EVENT_QUEUE (upd_session cid f e) = EVENT_QUEUE e"
  by (simp add: upd_session_def split: option.split)

lemma EVENT_QUEUE_upd_state [simp]: "EVENT_QUEUE (upd_state cid f e) = EVENT_QUEUE e"
  by (simp add: upd_state_def)

lemma outbox_upd_session [simp]: "outbox (upd_session cid f e) = outbox e"
  by (simp add: upd_session_def split: option.split)

lemma outbox_upd_state [simp]: "outbox (upd_state cid f e) = outbox e"
  by (simp add: upd_state_def)

lemma outbox_push_event [simp]: "outbox (push_event cid ev e) = outbox e"
  by (simp add: push_event_def)

lemma tkeys_upd_session [simp]: "set (tkeys (SESSIONS (upd_session cid f e))) = set (tkeys (SESSIONS e))"
  by (auto simp: set_tkeys simp del: set_map split: if_splits)

end
