(* ===== verification/Whisper.thy ===== *)
theory Whisper
  imports State "HOL-Library.List_Lexorder"
begin

text \<open>
  Whispering in \<open>native/src/api.rs\<close>: the list of outgoing targets, arming, and the policy for incoming
  whispers. The JSON arguments are decoded by a library, so the decoders are arguments:
  \<open>parse_targets\<close> yields the clients and channels of the object, \<open>parse_uids\<close> the list of identifiers,
  \<open>None\<close> for text that is not of that shape.
\<close>

section \<open>Operations\<close>

definition WHISPER_MAX_TARGETS :: nat where
  "WHISPER_MAX_TARGETS = 100"

definition sanitize_whisper_targets :: "u32 list \<Rightarrow> u64 list \<Rightarrow> u32 \<Rightarrow> u16 list \<times> u64 list" where
  "sanitize_whisper_targets cs chans own =
     (let cs = map ucast (filter (\<lambda>i. i \<noteq> 0 \<and> i \<noteq> own \<and> i \<le> 65535) cs);
          cs = sort cs;
          cs = remdups_adj cs;
          cs = take WHISPER_MAX_TARGETS cs;
          chans = filter (\<lambda>i. i \<noteq> 0) chans;
          chans = sort chans;
          chans = remdups_adj chans;
          chans = take WHISPER_MAX_TARGETS chans
      in (cs, chans))"

definition ts_set_whisper_targets ::
  "(rstr \<Rightarrow> (u32 list \<times> u64 list) option) \<Rightarrow> connection_id \<Rightarrow> c_str \<Rightarrow> engine \<Rightarrow> engine \<times> bool" where
  "ts_set_whisper_targets parse_targets cid json e = (case json of
      None \<Rightarrow> (e, False)
    | Some raw \<Rightarrow> (case parse_targets raw of
          None \<Rightarrow> (e, False)
        | Some (cs, chans) \<Rightarrow> (case session cid e of
              None \<Rightarrow> (e, False)
            | Some st \<Rightarrow> (case sanitize_whisper_targets cs chans (own_client_id st) of (cs, chans) \<Rightarrow>
                (upd_state cid (\<lambda>st. st\<lparr>whisper_target_clients := cs,
                   whisper_target_channels := chans\<rparr>) e, True)))))"

definition has_whisper_target :: "ts_connection \<Rightarrow> bool" where
  "has_whisper_target st \<longleftrightarrow> whisper_target_clients st \<noteq> [] \<or> whisper_target_channels st \<noteq> []"

definition ts_set_whisper_active :: "connection_id \<Rightarrow> u8 \<Rightarrow> engine \<Rightarrow> engine \<times> bool" where
  "ts_set_whisper_active cid active e = (case session cid e of
      None \<Rightarrow> (e, False)
    | Some st \<Rightarrow>
        if active \<noteq> 0 \<and> \<not> has_whisper_target st
        then (upd_state cid (\<lambda>st. st\<lparr>whisper_active := False\<rparr>) e, False)
        else (upd_state cid (\<lambda>st. st\<lparr>whisper_active := (active \<noteq> 0)\<rparr>) e, True))"

definition ts_set_whisper_allow_mode :: "connection_id \<Rightarrow> u8 \<Rightarrow> engine \<Rightarrow> engine \<times> bool" where
  "ts_set_whisper_allow_mode cid mode e =
     (if mode > 1 then (e, False)
      else (case session cid e of
          None \<Rightarrow> (e, False)
        | Some st \<Rightarrow> (upd_state cid (\<lambda>st. st\<lparr>whisper_allow_mode := mode\<rparr>) e, True)))"

definition ts_set_whisper_allowlist ::
  "(rstr \<Rightarrow> rstr list option) \<Rightarrow> connection_id \<Rightarrow> c_str \<Rightarrow> engine \<Rightarrow> engine \<times> bool" where
  "ts_set_whisper_allowlist parse_uids cid json e = (case json of
      None \<Rightarrow> (e, False)
    | Some raw \<Rightarrow> (case parse_uids raw of
          None \<Rightarrow> (e, False)
        | Some uids \<Rightarrow> (case session cid e of
              None \<Rightarrow> (e, False)
            | Some st \<Rightarrow> (upd_state cid (\<lambda>st. st\<lparr>whisper_allowed_uids :=
                set (filter (\<lambda>u. u \<noteq> []) uids)\<rparr>) e, True))))"

text \<open>The object \<open>ts_get_whisper_status\<close> serialises.\<close>

record whisper_status =
  ws_active :: bool
  ws_clients :: "u16 list"
  ws_channels :: "u64 list"
  ws_allow_mode :: u8
  ws_allowed_uids :: "rstr list"
  ws_ignored_count :: u64

definition ts_get_whisper_status :: "connection_id \<Rightarrow> engine \<Rightarrow> whisper_status" where
  "ts_get_whisper_status cid e = (case session cid e of
      None \<Rightarrow> \<lparr>ws_active = False, ws_clients = [], ws_channels = [], ws_allow_mode = 0,
        ws_allowed_uids = [], ws_ignored_count = 0\<rparr>
    | Some st \<Rightarrow> \<lparr>ws_active = whisper_active st, ws_clients = whisper_target_clients st,
        ws_channels = whisper_target_channels st, ws_allow_mode = whisper_allow_mode st,
        ws_allowed_uids = sorted_list_of_set (whisper_allowed_uids st),
        ws_ignored_count = whisper_ignored_count st\<rparr>)"

text \<open>The user identifier of a client of the roster.\<close>

definition find_uid :: "ts_connection \<Rightarrow> u16 \<Rightarrow> rstr option" where
  "find_uid st from_id = Option.bind (find (\<lambda>c. ucast (cl_id c) = from_id) (clients st)) cl_uid"

definition saturating_add :: "u64 \<Rightarrow> u64 \<Rightarrow> u64" where
  "saturating_add a b = (if uint a + uint b \<le> uint (- 1 :: u64) then a + b else - 1)"

definition whisper_is_allowed :: "connection_id \<Rightarrow> u16 \<Rightarrow> engine \<Rightarrow> engine \<times> bool" where
  "whisper_is_allowed cid from_id e = (case session cid e of
      None \<Rightarrow> (e, False)
    | Some st \<Rightarrow>
        if whisper_allow_mode st = 0 then (e, True)
        else let allowed = (case find_uid st from_id of
               Some uid \<Rightarrow> uid \<in> whisper_allowed_uids st | None \<Rightarrow> False) in
          (if allowed then e else upd_state cid (\<lambda>st. st\<lparr>whisper_ignored_count :=
             saturating_add (whisper_ignored_count st) 1\<rparr>) e, allowed))"

section \<open>Sorted, duplicate-free lists\<close>

lemma distinct_remdups_adj_sorted: "sorted (xs :: 'a::linorder list) \<Longrightarrow> distinct (remdups_adj xs)"
  by (induction xs rule: remdups_adj.induct) (auto simp: antisym)

lemma sorted_remdups_adj_sort:
  "remdups_adj (sort xs) = sorted_list_of_set (set (xs :: 'a::linorder list))"
  using sorted_list_of_set.idem_if_sorted_distinct [of "remdups_adj (sort xs)"]
  by (simp add: distinct_remdups_adj_sorted)

lemma sorted_list_of_set_words: "sorted (sorted_list_of_set (A :: 'a::len word set))"
    "distinct (sorted_list_of_set A)" "set (sorted_list_of_set A) = A"
  by simp_all

lemma ucast_u16_u32 [simp]: "ucast (ucast (i :: u16) :: u32) = i"
  using uint_lt2p [of i]
  by (simp add: word_uint_eq_iff unsigned_ucast_eq unsigned_take_bit_eq take_bit_int_eq_self)

lemma ucast_u32_u16: "i \<le> 65535 \<Longrightarrow> ucast (ucast (i :: u32) :: u16) = i"
  by (simp add: word_uint_eq_iff unsigned_ucast_eq unsigned_take_bit_eq word_le_def take_bit_int_eq_self)

lemma ucast_u16_bound [simp]: "ucast (i :: u16) \<le> (65535 :: u32)"
  using uint_lt2p [of i] by (simp add: word_le_def unsigned_ucast_eq take_bit_int_eq_self)

lemma ucast_u16_eq_0 [simp]: "(ucast (i :: u16) :: u32) = 0 \<longleftrightarrow> i = 0"
  by (metis ucast_0 ucast_u16_u32)

text \<open>The clients a request may name.\<close>

definition valid_targets :: "u32 list \<Rightarrow> u32 \<Rightarrow> u16 set" where
  "valid_targets cs own = {i. i \<noteq> 0 \<and> ucast i \<noteq> own \<and> ucast i \<in> set cs}"

lemma valid_targets_image:
  "ucast ` set (filter (\<lambda>i. i \<noteq> 0 \<and> i \<noteq> own \<and> i \<le> 65535) cs) = valid_targets cs own"
proof (intro equalityI subsetI)
  fix i assume "i \<in> valid_targets cs own"
  then show "i \<in> ucast ` set (filter (\<lambda>i. i \<noteq> 0 \<and> i \<noteq> own \<and> i \<le> 65535) cs)"
    by (intro image_eqI [of _ _ "ucast i"]) (auto simp: valid_targets_def)
next
  fix i :: u16 assume "i \<in> ucast ` set (filter (\<lambda>i. i \<noteq> 0 \<and> i \<noteq> own \<and> i \<le> 65535) cs)"
  then obtain k where k: "k \<noteq> 0" "k \<noteq> own" "k \<le> 65535" "k \<in> set cs" "i = ucast k" by auto
  then have "ucast i = k" by (simp add: ucast_u32_u16)
  with k show "i \<in> valid_targets cs own" by (auto simp: valid_targets_def)
qed

section \<open>Well-formed whisper lists\<close>

definition whisper_wf :: "ts_connection \<Rightarrow> bool" where
  "whisper_wf st \<longleftrightarrow> sorted (whisper_target_clients st) \<and> distinct (whisper_target_clients st)
     \<and> length (whisper_target_clients st) \<le> 100
     \<and> 0 \<notin> set (whisper_target_clients st)
     \<and> own_client_id st \<notin> ucast ` set (whisper_target_clients st)
     \<and> sorted (whisper_target_channels st) \<and> distinct (whisper_target_channels st)
     \<and> length (whisper_target_channels st) \<le> 100 \<and> 0 \<notin> set (whisper_target_channels st)
     \<and> whisper_allow_mode st \<le> 1 \<and> [] \<notin> whisper_allowed_uids st"

datatype whisper_call = SetTargets c_str | SetActive u8 | SetAllowMode u8 | SetAllowlist c_str
  | Incoming u16

primrec whisper_step ::
  "(rstr \<Rightarrow> (u32 list \<times> u64 list) option) \<Rightarrow> (rstr \<Rightarrow> rstr list option) \<Rightarrow> connection_id \<Rightarrow>
    whisper_call \<Rightarrow> engine \<Rightarrow> engine" where
  "whisper_step pt pu cid (SetTargets j) e = fst (ts_set_whisper_targets pt cid j e)"
| "whisper_step pt pu cid (SetActive a) e = fst (ts_set_whisper_active cid a e)"
| "whisper_step pt pu cid (SetAllowMode m) e = fst (ts_set_whisper_allow_mode cid m e)"
| "whisper_step pt pu cid (SetAllowlist j) e = fst (ts_set_whisper_allowlist pu cid j e)"
| "whisper_step pt pu cid (Incoming c) e = fst (whisper_is_allowed cid c e)"

definition whisper_run ::
  "(rstr \<Rightarrow> (u32 list \<times> u64 list) option) \<Rightarrow> (rstr \<Rightarrow> rstr list option) \<Rightarrow> connection_id \<Rightarrow>
    whisper_call list \<Rightarrow> engine \<Rightarrow> engine" where
  "whisper_run pt pu cid calls e = fold (whisper_step pt pu cid) calls e"

text \<open>C39. The sanitised list is the canonical one: the first 100, in ascending order and without
  repetition, of the valid identifiers the request names (not 0, in range, not the own client).\<close>

theorem sanitize_whisper_targets_canonical:
  "sanitize_whisper_targets cs chans own =
     (take 100 (sorted_list_of_set (valid_targets cs own)),
      take 100 (sorted_list_of_set (set chans - {0})))"
proof -
  have "set (filter (\<lambda>i. i \<noteq> 0) chans) = set chans - {0}" by auto
  then show ?thesis
    by (simp only: sanitize_whisper_targets_def Let_def sorted_remdups_adj_sort set_map
      valid_targets_image WHISPER_MAX_TARGETS_def)
qed

lemma finite_valid_targets [simp]: "finite (valid_targets cs own)"
  by (rule finite_subset [OF subset_UNIV]) simp

lemma whisper_wf_targets:
  assumes "whisper_wf st" "sanitize_whisper_targets cs chans (own_client_id st) = (cs', chans')"
  shows "whisper_wf (st\<lparr>whisper_target_clients := cs', whisper_target_channels := chans'\<rparr>)"
proof -
  have e: "cs' = take 100 (sorted_list_of_set (valid_targets cs (own_client_id st)))"
    "chans' = take 100 (sorted_list_of_set (set chans - {0}))"
    using assms(2) by (simp_all add: sanitize_whisper_targets_canonical)
  have "set cs' \<subseteq> valid_targets cs (own_client_id st)" "set chans' \<subseteq> set chans - {0}"
    unfolding e by (auto dest: in_set_takeD)
  then show ?thesis
    using assms(1) by (auto simp: whisper_wf_def e valid_targets_def)
qed

lemma session_whisper_step:
  assumes "session cid e = Some st" "whisper_wf st"
  shows "\<exists>st'. session cid (whisper_step pt pu cid c e) = Some st' \<and> whisper_wf st'
    \<and> own_client_id st' = own_client_id st"
proof (cases c)
  case (SetTargets j)
  show ?thesis
    using assms(2) whisper_wf_targets [OF assms(2)]
    by (cases j)
      (auto simp: SetTargets ts_set_whisper_targets_def assms(1) split: option.split prod.split)
next
  case (SetAllowMode m)
  then show ?thesis
    using assms by (auto simp: ts_set_whisper_allow_mode_def whisper_wf_def not_less)
next
  case (SetAllowlist j)
  then show ?thesis
    using assms by (auto simp: ts_set_whisper_allowlist_def whisper_wf_def split: option.split)
qed (use assms in \<open>auto simp: ts_set_whisper_active_def whisper_is_allowed_def whisper_wf_def Let_def\<close>)

text \<open>Whatever the interface sends and whoever whispers, a session's whisper lists stay canonical:
  sorted, without repetition, at most 100 entries, never 0 and never the own client; the policy is
  0 or 1 and the allow list has no empty identifier.\<close>

theorem whisper_run_well_formed:
  assumes "session cid e = Some st" "whisper_wf st"
  shows "\<exists>st'. session cid (whisper_run pt pu cid calls e) = Some st' \<and> whisper_wf st'"
  using assms
proof (induction calls arbitrary: e st)
  case (Cons c calls)
  obtain st' where "session cid (whisper_step pt pu cid c e) = Some st'" "whisper_wf st'"
    using session_whisper_step [OF Cons.prems] by blast
  from Cons.IH [OF this] show ?case by (simp add: whisper_run_def)
qed (simp add: whisper_run_def)

definition sample_engine :: engine where
  "sample_engine = (engine_new 2)\<lparr>SESSIONS := [(1, session_new 0 1 ts_connection_new)]\<rparr>"

theorem whisper_run_well_formed_witness:
  "\<exists>st'. session 1 (whisper_run (\<lambda>_. Some ([7, 0, 7], [2])) (\<lambda>_. Some [[]]) 1
      [SetTargets (Some []), SetAllowlist (Some []), SetActive 1, Incoming 7] sample_engine) = Some st'
    \<and> whisper_wf st'"
  by (rule whisper_run_well_formed [of _ _ ts_connection_new])
    (simp_all add: sample_engine_def session_def session_new_def whisper_wf_def ts_connection_new_def)

text \<open>The policy for incoming whispers: everything passes in mode 0; otherwise only a sender whose
  identifier is known and listed passes, and each rejected frame of a live session is counted (the
  counter stops at its maximum). Nothing else changes.\<close>

theorem whisper_is_allowed_policy:
  "case whisper_is_allowed cid from_id e of (e', allowed) \<Rightarrow>
     (case session cid e of
        None \<Rightarrow> \<not> allowed \<and> e' = e
      | Some st \<Rightarrow>
          allowed = (whisper_allow_mode st = 0
            \<or> (\<exists>uid. find_uid st from_id = Some uid \<and> uid \<in> whisper_allowed_uids st))
          \<and> (if allowed then e' = e
             else e' = upd_state cid (\<lambda>st. st\<lparr>whisper_ignored_count :=
               (if whisper_ignored_count st = - 1 then - 1 else whisper_ignored_count st + 1)\<rparr>) e))"
proof -
  have sat: "saturating_add n 1 = (if n = - 1 then - 1 else n + 1)" for n
  proof (cases "n = - 1")
    case False
    then have "n < - 1" by (simp add: word_order.not_eq_extremum)
    then show ?thesis using False by (simp add: saturating_add_def word_less_def)
  qed (simp add: saturating_add_def)
  show ?thesis
    by (auto simp: whisper_is_allowed_def Let_def sat split: option.split)
qed

end
