(* ===== verification/Requests.thy ===== *)
theory Requests
  imports State
begin

text \<open>
  The exported functions of \<open>native/src/api.rs\<close> that turn a call of the interface into one command of
  a session's queue: text messages, moves, file management, channel administration, moderation,
  status and microphone data. Each is translated with its guards; \<open>request\<close> and \<open>exec\<close> put them in one
  type, \<open>request_command\<close> says which command a request stands for, and the interface locale
  \<open>command_entry\<close> states what an entry point may do to the engine.

  A \<open>u8\<close> result is a \<open>bool\<close> (1 is \<open>True\<close>).
\<close>

section \<open>Argument helpers\<close>

definition CHANNEL_NAME_MAX :: nat where "CHANNEL_NAME_MAX = 40"
definition CHANNEL_TEXT_MAX :: nat where "CHANNEL_TEXT_MAX = 2000"
definition REASON_MAX :: nat where "REASON_MAX = 200"
definition NICKNAME_MIN :: nat where "NICKNAME_MIN = 3"
definition NICKNAME_MAX :: nat where "NICKNAME_MAX = 30"
definition AWAY_MESSAGE_MAX :: nat where "AWAY_MESSAGE_MAX = 200"

definition opt_cstr :: "c_str \<Rightarrow> nat \<Rightarrow> rstr option" where
  "opt_cstr raw cap = (case raw of None \<Rightarrow> None
     | Some value \<Rightarrow> let trimmed = trim value in
         if trimmed = [] then None else Some (take cap trimmed))"

definition optional_reason :: "c_str \<Rightarrow> rstr option" where
  "optional_reason raw = (case raw of None \<Rightarrow> None
     | Some value \<Rightarrow> let trimmed = trim value in
         if trimmed = [] then None else Some (take REASON_MAX trimmed))"

text \<open>A null password is the empty password.\<close>

definition password_arg :: "c_str \<Rightarrow> rstr" where
  "password_arg p = (case p of None \<Rightarrow> [] | Some s \<Rightarrow> s)"

text \<open>A null or empty password is no password.\<close>

definition nonempty_arg :: "c_str \<Rightarrow> rstr option" where
  "nonempty_arg p = (case p of None \<Rightarrow> None | Some s \<Rightarrow> if s = [] then None else Some s)"

text \<open>\<open>state.lock().own_client_id\<close>, 0 when the session is gone.\<close>

definition own_id :: "connection_id \<Rightarrow> engine \<Rightarrow> u32" where
  "own_id cid e = (case session cid e of None \<Rightarrow> 0 | Some st \<Rightarrow> own_client_id st)"

text \<open>The database id of a client of the roster, 0 when it is not there.\<close>

definition find_db_id :: "ts_connection \<Rightarrow> u16 \<Rightarrow> u64" where
  "find_db_id st client_id = (case find (\<lambda>c. ucast (cl_id c) = client_id) (clients st) of
     None \<Rightarrow> 0 | Some c \<Rightarrow> cl_database_id c)"

definition db_id_of :: "connection_id \<Rightarrow> u16 \<Rightarrow> engine \<Rightarrow> u64" where
  "db_id_of cid client_id e = (case session cid e of None \<Rightarrow> 0 | Some st \<Rightarrow> find_db_id st client_id)"

section \<open>Messages and moves\<close>

definition enqueue_text_message ::
  "connection_id \<Rightarrow> u8 \<Rightarrow> u64 \<Rightarrow> c_str \<Rightarrow> engine \<Rightarrow> engine \<times> bool" where
  "enqueue_text_message cid target_mode target_cid msg e = (case msg of
      None \<Rightarrow> (e, False)
    | Some message \<Rightarrow>
        if \<not> is_connected cid e then (e, False)
        else if message = [] then (e, False)
        else queue_command cid (SendMessage target_mode target_cid message) e)"

definition ts_send_channel_message :: "connection_id \<Rightarrow> u32 \<Rightarrow> c_str \<Rightarrow> engine \<Rightarrow> engine \<times> bool" where
  "ts_send_channel_message cid _ msg e = enqueue_text_message cid 2 0 msg e"

definition ts_send_private_message :: "connection_id \<Rightarrow> u32 \<Rightarrow> c_str \<Rightarrow> engine \<Rightarrow> engine \<times> bool" where
  "ts_send_private_message cid client_id msg e =
     (if client_id = 0 \<or> client_id > 65535 then (e, False)
      else enqueue_text_message cid 1 (ucast client_id) msg e)"

definition ts_send_server_message :: "connection_id \<Rightarrow> c_str \<Rightarrow> engine \<Rightarrow> engine \<times> bool" where
  "ts_send_server_message cid msg e = enqueue_text_message cid 3 0 msg e"

definition ts_move_to_channel :: "connection_id \<Rightarrow> u32 \<Rightarrow> c_str \<Rightarrow> engine \<Rightarrow> engine \<times> bool" where
  "ts_move_to_channel cid chan password e =
     (if \<not> is_connected cid e then (e, False)
      else queue_command cid (MoveChannel (ucast (own_id cid e)) (ucast chan) (nonempty_arg password)) e)"

section \<open>File management\<close>

definition ts_delete_file :: "connection_id \<Rightarrow> u64 \<Rightarrow> c_str \<Rightarrow> c_str \<Rightarrow> engine \<Rightarrow> engine \<times> bool" where
  "ts_delete_file cid channel_id path channel_password e = (case path of
      None \<Rightarrow> (e, False)
    | Some p \<Rightarrow>
        if \<not> is_connected cid e then (e, False)
        else let p = trim p in if p = [] then (e, False)
        else queue_command cid (DeleteFile channel_id (password_arg channel_password) p) e)"

definition ts_create_directory :: "connection_id \<Rightarrow> u64 \<Rightarrow> c_str \<Rightarrow> c_str \<Rightarrow> engine \<Rightarrow> engine \<times> bool" where
  "ts_create_directory cid channel_id path channel_password e = (case path of
      None \<Rightarrow> (e, False)
    | Some p \<Rightarrow>
        if \<not> is_connected cid e then (e, False)
        else let p = trim p in if p = [] then (e, False)
        else queue_command cid (CreateDirectory channel_id (password_arg channel_password) p) e)"

definition ts_rename_file ::
  "connection_id \<Rightarrow> u64 \<Rightarrow> c_str \<Rightarrow> c_str \<Rightarrow> c_str \<Rightarrow> u64 \<Rightarrow> c_str \<Rightarrow> engine \<Rightarrow> engine \<times> bool" where
  "ts_rename_file cid channel_id old_name new_name channel_password target_channel_id
     target_channel_password e = (case (old_name, new_name) of
      (Some old, Some new) \<Rightarrow>
        if \<not> is_connected cid e then (e, False)
        else let old = trim old; new = trim new in
          if old = [] \<or> new = [] then (e, False)
          else queue_command cid (RenameFile channel_id (password_arg channel_password)
            (if 0 < target_channel_id then Some target_channel_id else None)
            (nonempty_arg target_channel_password) old new) e
    | _ \<Rightarrow> (e, False))"

definition ts_use_token :: "connection_id \<Rightarrow> c_str \<Rightarrow> engine \<Rightarrow> engine \<times> bool" where
  "ts_use_token cid tok e = (case tok of
      None \<Rightarrow> (e, False)
    | Some t \<Rightarrow>
        if \<not> is_connected cid e then (e, False)
        else let t = trim t in if t = [] then (e, False) else queue_command cid (UseToken t) e)"

section \<open>Channel administration\<close>

definition ts_create_channel ::
  "connection_id \<Rightarrow> u64 \<Rightarrow> c_str \<Rightarrow> c_str \<Rightarrow> c_str \<Rightarrow> c_str \<Rightarrow> i32 \<Rightarrow> u8 \<Rightarrow> u8 \<Rightarrow> engine \<Rightarrow> engine \<times> bool" where
  "ts_create_channel cid parent_id name topic description password max_clients permanent
     semi_permanent e =
     (if \<not> is_connected cid e \<or> name = None then (e, False)
      else (case opt_cstr name CHANNEL_NAME_MAX of
        None \<Rightarrow> (e, False)
      | Some name \<Rightarrow> queue_command cid (CreateChannel parent_id name
          (opt_cstr topic CHANNEL_TEXT_MAX) (opt_cstr description CHANNEL_TEXT_MAX)
          (opt_cstr password 64) (if 0 <s max_clients then Some max_clients else None)
          (permanent \<noteq> 0) (semi_permanent \<noteq> 0)) e))"

definition ts_edit_channel ::
  "connection_id \<Rightarrow> u64 \<Rightarrow> c_str \<Rightarrow> c_str \<Rightarrow> c_str \<Rightarrow> c_str \<Rightarrow> i32 \<Rightarrow> i32 \<Rightarrow> i32 \<Rightarrow> i32 \<Rightarrow> engine \<Rightarrow> engine \<times> bool" where
  "ts_edit_channel cid channel_id name topic description password has_password max_clients
     permanent semi_permanent e =
     (if \<not> is_connected cid e \<or> channel_id = 0 then (e, False)
      else queue_command cid (EditChannel channel_id (opt_cstr name CHANNEL_NAME_MAX)
        (opt_cstr topic CHANNEL_TEXT_MAX) (opt_cstr description CHANNEL_TEXT_MAX)
        (opt_cstr password 64)
        (if 0 \<le>s has_password then Some (has_password \<noteq> 0) else None)
        (if 0 <s max_clients then Some max_clients else None)
        (if 0 \<le>s permanent then Some (permanent \<noteq> 0) else None)
        (if 0 \<le>s semi_permanent then Some (semi_permanent \<noteq> 0) else None)) e)"

definition ts_delete_channel :: "connection_id \<Rightarrow> u64 \<Rightarrow> u8 \<Rightarrow> engine \<Rightarrow> engine \<times> bool" where
  "ts_delete_channel cid channel_id force e =
     (if \<not> is_connected cid e \<or> channel_id = 0 then (e, False)
      else queue_command cid (DeleteChannel channel_id (force \<noteq> 0)) e)"

definition ts_move_channel_tree :: "connection_id \<Rightarrow> u64 \<Rightarrow> u64 \<Rightarrow> u64 \<Rightarrow> engine \<Rightarrow> engine \<times> bool" where
  "ts_move_channel_tree cid channel_id parent_id order e =
     (if \<not> is_connected cid e \<or> channel_id = 0 then (e, False)
      else queue_command cid
        (MoveChannelTree channel_id parent_id (if 0 < order then Some order else None)) e)"

section \<open>Moderation\<close>

definition ts_kick_client :: "connection_id \<Rightarrow> u16 \<Rightarrow> u8 \<Rightarrow> c_str \<Rightarrow> engine \<Rightarrow> engine \<times> bool" where
  "ts_kick_client cid client_id from_server reason e =
     (if client_id = 0 then (e, False)
      else if \<not> is_connected cid e then (e, False)
      else if ucast client_id = own_id cid e then (e, False)
      else queue_command cid (KickClient client_id (from_server \<noteq> 0) (optional_reason reason)) e)"

definition ts_ban_client :: "connection_id \<Rightarrow> u16 \<Rightarrow> u64 \<Rightarrow> c_str \<Rightarrow> engine \<Rightarrow> engine \<times> bool" where
  "ts_ban_client cid client_id seconds reason e =
     (if client_id = 0 then (e, False)
      else if \<not> is_connected cid e then (e, False)
      else if ucast client_id = own_id cid e then (e, False)
      else queue_command cid (BanClient client_id seconds (optional_reason reason)) e)"

definition ts_ban_uid :: "connection_id \<Rightarrow> c_str \<Rightarrow> u64 \<Rightarrow> c_str \<Rightarrow> engine \<Rightarrow> engine \<times> bool" where
  "ts_ban_uid cid uid seconds reason e = (case uid of
      None \<Rightarrow> (e, False)
    | Some u \<Rightarrow> let u = trim u in
        if u = [] then (e, False)
        else if \<not> is_connected cid e then (e, False)
        else queue_command cid (BanUid u seconds (optional_reason reason)) e)"

definition ts_ban_address :: "connection_id \<Rightarrow> c_str \<Rightarrow> c_str \<Rightarrow> u64 \<Rightarrow> c_str \<Rightarrow> engine \<Rightarrow> engine \<times> bool" where
  "ts_ban_address cid ip name seconds reason e =
     (if \<not> is_connected cid e then (e, False)
      else let ip = (case opt_cstr ip 64 of None \<Rightarrow> None
                     | Some s \<Rightarrow> if parse_ip s \<noteq> None then Some s else None);
               name = opt_cstr name 64 in
        if ip = None \<and> name = None then (e, False)
        else queue_command cid (BanAddress ip name seconds (optional_reason reason)) e)"

definition ts_ban_delete :: "connection_id \<Rightarrow> u32 \<Rightarrow> engine \<Rightarrow> engine \<times> bool" where
  "ts_ban_delete cid ban_id e =
     (if \<not> is_connected cid e \<or> ban_id = 0 then (e, False) else queue_command cid (BanDelete ban_id) e)"

definition ts_list_bans :: "connection_id \<Rightarrow> engine \<Rightarrow> engine \<times> bool" where
  "ts_list_bans cid e = (if \<not> is_connected cid e then (e, False) else queue_command cid ListBans e)"

definition ts_subscribe_channel :: "connection_id \<Rightarrow> u64 \<Rightarrow> engine \<Rightarrow> engine \<times> bool" where
  "ts_subscribe_channel cid channel_id e =
     (if \<not> is_connected cid e \<or> channel_id = 0 then (e, False)
      else queue_command cid (SubscribeChannel channel_id False) e)"

definition ts_unsubscribe_channel :: "connection_id \<Rightarrow> u64 \<Rightarrow> engine \<Rightarrow> engine \<times> bool" where
  "ts_unsubscribe_channel cid channel_id e =
     (if \<not> is_connected cid e \<or> channel_id = 0 then (e, False)
      else queue_command cid (SubscribeChannel channel_id True) e)"

definition ts_channel_description :: "connection_id \<Rightarrow> u64 \<Rightarrow> engine \<Rightarrow> engine \<times> bool" where
  "ts_channel_description cid channel_id e =
     (if \<not> is_connected cid e \<or> channel_id = 0 then (e, False)
      else queue_command cid (ChannelDescription channel_id) e)"

definition ts_add_client_to_group :: "connection_id \<Rightarrow> u16 \<Rightarrow> u64 \<Rightarrow> engine \<Rightarrow> engine \<times> bool" where
  "ts_add_client_to_group cid client_id group_id e =
     (if \<not> is_connected cid e \<or> group_id = 0 then (e, False)
      else let db_id = db_id_of cid client_id e in
        if db_id = 0 then (e, False) else queue_command cid (AddClientToGroup db_id group_id) e)"

definition ts_remove_client_from_group :: "connection_id \<Rightarrow> u16 \<Rightarrow> u64 \<Rightarrow> engine \<Rightarrow> engine \<times> bool" where
  "ts_remove_client_from_group cid client_id group_id e =
     (if \<not> is_connected cid e \<or> group_id = 0 then (e, False)
      else let db_id = db_id_of cid client_id e in
        if db_id = 0 then (e, False) else queue_command cid (RemoveClientFromGroup db_id group_id) e)"

definition ts_complain_add :: "connection_id \<Rightarrow> u16 \<Rightarrow> c_str \<Rightarrow> engine \<Rightarrow> engine \<times> bool" where
  "ts_complain_add cid client_id message e =
     (if message = None then (e, False)
      else if \<not> is_connected cid e then (e, False)
      else let db_id = db_id_of cid client_id e in
        if db_id = 0 then (e, False)
        else (case optional_reason message of
            None \<Rightarrow> (e, False)
          | Some text \<Rightarrow> queue_command cid (ComplainAdd db_id text) e))"

definition ts_set_talker :: "connection_id \<Rightarrow> u16 \<Rightarrow> u8 \<Rightarrow> engine \<Rightarrow> engine \<times> bool" where
  "ts_set_talker cid client_id talk_power_granted e =
     (if client_id = 0 then (e, False)
      else if \<not> is_connected cid e then (e, False)
      else if ucast client_id = own_id cid e then (e, False)
      else queue_command cid (SetTalker client_id (talk_power_granted \<noteq> 0)) e)"

definition ts_poke_client :: "connection_id \<Rightarrow> u16 \<Rightarrow> c_str \<Rightarrow> engine \<Rightarrow> engine \<times> bool" where
  "ts_poke_client cid client_id message e =
     (if client_id = 0 \<or> message = None then (e, False)
      else if \<not> is_connected cid e then (e, False)
      else (case optional_reason message of
          None \<Rightarrow> (e, False)
        | Some text \<Rightarrow> queue_command cid (PokeClient client_id text) e))"

definition ts_move_client :: "connection_id \<Rightarrow> u16 \<Rightarrow> u64 \<Rightarrow> c_str \<Rightarrow> engine \<Rightarrow> engine \<times> bool" where
  "ts_move_client cid client_id channel_id password e =
     (if client_id = 0 \<or> channel_id = 0 then (e, False)
      else if \<not> is_connected cid e then (e, False)
      else queue_command cid (MoveChannel client_id channel_id (optional_reason password)) e)"

section \<open>Own status\<close>

definition ts_set_away :: "connection_id \<Rightarrow> u8 \<Rightarrow> c_str \<Rightarrow> engine \<Rightarrow> engine \<times> bool" where
  "ts_set_away cid away message e =
     (if \<not> is_connected cid e then (e, False)
      else let message = (case message of None \<Rightarrow> None
             | Some value \<Rightarrow> let trimmed = trim value in
                 if trimmed = [] then None else Some (take AWAY_MESSAGE_MAX trimmed))
        in queue_command cid (SetAway (away \<noteq> 0) message) e)"

definition ts_set_nickname :: "connection_id \<Rightarrow> c_str \<Rightarrow> engine \<Rightarrow> engine \<times> bool" where
  "ts_set_nickname cid name e = (case name of
      None \<Rightarrow> (e, False)
    | Some value \<Rightarrow>
        if \<not> is_connected cid e then (e, False)
        else let trimmed = trim value; len = length trimmed in
          if \<not> (NICKNAME_MIN \<le> len \<and> len \<le> NICKNAME_MAX) then (e, False)
          else queue_command cid (SetNickname trimmed) e)"

definition ts_set_channel_commander :: "connection_id \<Rightarrow> u8 \<Rightarrow> engine \<Rightarrow> engine \<times> bool" where
  "ts_set_channel_commander cid enabled e =
     (if \<not> is_connected cid e then (e, False)
      else queue_command cid (SetChannelCommander (enabled \<noteq> 0)) e)"

definition ts_set_muted :: "connection_id \<Rightarrow> u8 \<Rightarrow> u8 \<Rightarrow> engine \<Rightarrow> engine \<times> bool" where
  "ts_set_muted cid inp out e =
     (if \<not> is_connected cid e then (e, False)
      else queue_command cid (SetMuted (inp \<noteq> 0) (out \<noteq> 0)) e)"

text \<open>The samples are the \<open>data_len\<close> values the caller's pointer refers to.\<close>

definition ts_send_audio :: "connection_id \<Rightarrow> f32 list \<Rightarrow> engine \<Rightarrow> engine \<times> bool" where
  "ts_send_audio cid data e =
     (if \<not> is_connected cid e then (e, False)
      else if length data = 0 then (e, False)
      else queue_command cid (SendAudio data) e)"

section \<open>All requests\<close>

datatype (plugins only: code size) request =
    ReqChannelMessage u32 c_str
  | ReqPrivateMessage u32 c_str
  | ReqServerMessage c_str
  | ReqMoveToChannel u32 c_str
  | ReqDeleteFile u64 c_str c_str
  | ReqCreateDirectory u64 c_str c_str
  | ReqRenameFile u64 c_str c_str c_str u64 c_str
  | ReqUseToken c_str
  | ReqCreateChannel u64 c_str c_str c_str c_str i32 u8 u8
  | ReqEditChannel u64 c_str c_str c_str c_str i32 i32 i32 i32
  | ReqDeleteChannel u64 u8
  | ReqMoveChannelTree u64 u64 u64
  | ReqKickClient u16 u8 c_str
  | ReqBanClient u16 u64 c_str
  | ReqBanUid c_str u64 c_str
  | ReqBanAddress c_str c_str u64 c_str
  | ReqBanDelete u32
  | ReqListBans
  | ReqSubscribe u64
  | ReqUnsubscribe u64
  | ReqChannelDescription u64
  | ReqAddToGroup u16 u64
  | ReqRemoveFromGroup u16 u64
  | ReqComplain u16 c_str
  | ReqSetTalker u16 u8
  | ReqPoke u16 c_str
  | ReqMoveClient u16 u64 c_str
  | ReqSetAway u8 c_str
  | ReqSetNickname c_str
  | ReqChannelCommander u8
  | ReqSetMuted u8 u8
  | ReqSendAudio "f32 list"

primrec exec :: "request \<Rightarrow> connection_id \<Rightarrow> engine \<Rightarrow> engine \<times> bool" where
  "exec (ReqChannelMessage c m) cid = ts_send_channel_message cid c m"
| "exec (ReqPrivateMessage c m) cid = ts_send_private_message cid c m"
| "exec (ReqServerMessage m) cid = ts_send_server_message cid m"
| "exec (ReqMoveToChannel c p) cid = ts_move_to_channel cid c p"
| "exec (ReqDeleteFile c f p) cid = ts_delete_file cid c f p"
| "exec (ReqCreateDirectory c f p) cid = ts_create_directory cid c f p"
| "exec (ReqRenameFile c old new p tc tp) cid = ts_rename_file cid c old new p tc tp"
| "exec (ReqUseToken t) cid = ts_use_token cid t"
| "exec (ReqCreateChannel par n t d p m pe se) cid = ts_create_channel cid par n t d p m pe se"
| "exec (ReqEditChannel c n t d p hp m pe se) cid = ts_edit_channel cid c n t d p hp m pe se"
| "exec (ReqDeleteChannel c f) cid = ts_delete_channel cid c f"
| "exec (ReqMoveChannelTree c p ord) cid = ts_move_channel_tree cid c p ord"
| "exec (ReqKickClient c f r) cid = ts_kick_client cid c f r"
| "exec (ReqBanClient c s r) cid = ts_ban_client cid c s r"
| "exec (ReqBanUid u s r) cid = ts_ban_uid cid u s r"
| "exec (ReqBanAddress ip n s r) cid = ts_ban_address cid ip n s r"
| "exec (ReqBanDelete b) cid = ts_ban_delete cid b"
| "exec ReqListBans cid = ts_list_bans cid"
| "exec (ReqSubscribe c) cid = ts_subscribe_channel cid c"
| "exec (ReqUnsubscribe c) cid = ts_unsubscribe_channel cid c"
| "exec (ReqChannelDescription c) cid = ts_channel_description cid c"
| "exec (ReqAddToGroup c g) cid = ts_add_client_to_group cid c g"
| "exec (ReqRemoveFromGroup c g) cid = ts_remove_client_from_group cid c g"
| "exec (ReqComplain c m) cid = ts_complain_add cid c m"
| "exec (ReqSetTalker c t) cid = ts_set_talker cid c t"
| "exec (ReqPoke c m) cid = ts_poke_client cid c m"
| "exec (ReqMoveClient c ch p) cid = ts_move_client cid c ch p"
| "exec (ReqSetAway a m) cid = ts_set_away cid a m"
| "exec (ReqSetNickname n) cid = ts_set_nickname cid n"
| "exec (ReqChannelCommander v) cid = ts_set_channel_commander cid v"
| "exec (ReqSetMuted i out) cid = ts_set_muted cid i out"
| "exec (ReqSendAudio d) cid = ts_send_audio cid d"

section \<open>Which command a request stands for\<close>

text \<open>The specification: the command, as a function of the state of the connected session.\<close>

definition guarded :: "bool \<Rightarrow> 'a \<Rightarrow> 'a option" where
  "guarded b x = (if b then Some x else None)"

definition text_arg :: "c_str \<Rightarrow> rstr option" where
  "text_arg s = Option.bind s (\<lambda>t. guarded (trim t \<noteq> []) (trim t))"

primrec request_command :: "request \<Rightarrow> ts_connection \<Rightarrow> command option" where
  "request_command (ReqChannelMessage c m) st = map_option (SendMessage 2 0) (nonempty_arg m)"
| "request_command (ReqPrivateMessage c m) st =
     Option.bind (nonempty_arg m) (\<lambda>t. guarded (c \<noteq> 0 \<and> c \<le> 65535) (SendMessage 1 (ucast c) t))"
| "request_command (ReqServerMessage m) st = map_option (SendMessage 3 0) (nonempty_arg m)"
| "request_command (ReqMoveToChannel c p) st =
     Some (MoveChannel (ucast (own_client_id st)) (ucast c) (nonempty_arg p))"
| "request_command (ReqDeleteFile c f p) st = map_option (DeleteFile c (password_arg p)) (text_arg f)"
| "request_command (ReqCreateDirectory c f p) st =
     map_option (CreateDirectory c (password_arg p)) (text_arg f)"
| "request_command (ReqRenameFile c old new p tc tp) st =
     Option.bind (text_arg old) (\<lambda>old. map_option
       (RenameFile c (password_arg p) (guarded (tc \<noteq> 0) tc) (nonempty_arg tp) old) (text_arg new))"
| "request_command (ReqUseToken t) st = map_option UseToken (text_arg t)"
| "request_command (ReqCreateChannel par n t d p m pe se) st =
     map_option (\<lambda>n. CreateChannel par n (opt_cstr t 2000) (opt_cstr d 2000) (opt_cstr p 64)
       (guarded (0 <s m) m) (pe \<noteq> 0) (se \<noteq> 0)) (opt_cstr n 40)"
| "request_command (ReqEditChannel c n t d p hp m pe se) st =
     guarded (c \<noteq> 0) (EditChannel c (opt_cstr n 40) (opt_cstr t 2000) (opt_cstr d 2000) (opt_cstr p 64)
       (guarded (0 \<le>s hp) (hp \<noteq> 0)) (guarded (0 <s m) m) (guarded (0 \<le>s pe) (pe \<noteq> 0))
       (guarded (0 \<le>s se) (se \<noteq> 0)))"
| "request_command (ReqDeleteChannel c f) st = guarded (c \<noteq> 0) (DeleteChannel c (f \<noteq> 0))"
| "request_command (ReqMoveChannelTree c p ord) st =
     guarded (c \<noteq> 0) (MoveChannelTree c p (guarded (ord \<noteq> 0) ord))"
| "request_command (ReqKickClient c f r) st =
     guarded (c \<noteq> 0 \<and> ucast c \<noteq> own_client_id st) (KickClient c (f \<noteq> 0) (opt_cstr r 200))"
| "request_command (ReqBanClient c s r) st =
     guarded (c \<noteq> 0 \<and> ucast c \<noteq> own_client_id st) (BanClient c s (opt_cstr r 200))"
| "request_command (ReqBanUid u s r) st = map_option (\<lambda>u. BanUid u s (opt_cstr r 200)) (text_arg u)"
| "request_command (ReqBanAddress ip n s r) st =
     (let ip = Option.bind (opt_cstr ip 64) (\<lambda>ip. guarded (parse_ip ip \<noteq> None) ip) in
       guarded (ip \<noteq> None \<or> opt_cstr n 64 \<noteq> None) (BanAddress ip (opt_cstr n 64) s (opt_cstr r 200)))"
| "request_command (ReqBanDelete b) st = guarded (b \<noteq> 0) (BanDelete b)"
| "request_command ReqListBans st = Some ListBans"
| "request_command (ReqSubscribe c) st = guarded (c \<noteq> 0) (SubscribeChannel c False)"
| "request_command (ReqUnsubscribe c) st = guarded (c \<noteq> 0) (SubscribeChannel c True)"
| "request_command (ReqChannelDescription c) st = guarded (c \<noteq> 0) (ChannelDescription c)"
| "request_command (ReqAddToGroup c g) st =
     guarded (g \<noteq> 0 \<and> find_db_id st c \<noteq> 0) (AddClientToGroup (find_db_id st c) g)"
| "request_command (ReqRemoveFromGroup c g) st =
     guarded (g \<noteq> 0 \<and> find_db_id st c \<noteq> 0) (RemoveClientFromGroup (find_db_id st c) g)"
| "request_command (ReqComplain c m) st =
     Option.bind (opt_cstr m 200) (\<lambda>t. guarded (find_db_id st c \<noteq> 0) (ComplainAdd (find_db_id st c) t))"
| "request_command (ReqSetTalker c t) st =
     guarded (c \<noteq> 0 \<and> ucast c \<noteq> own_client_id st) (SetTalker c (t \<noteq> 0))"
| "request_command (ReqPoke c m) st =
     Option.bind (opt_cstr m 200) (\<lambda>t. guarded (c \<noteq> 0) (PokeClient c t))"
| "request_command (ReqMoveClient c ch p) st =
     guarded (c \<noteq> 0 \<and> ch \<noteq> 0) (MoveChannel c ch (opt_cstr p 200))"
| "request_command (ReqSetAway a m) st = Some (SetAway (a \<noteq> 0) (opt_cstr m 200))"
| "request_command (ReqSetNickname n) st =
     Option.bind n (\<lambda>n. guarded (3 \<le> length (trim n) \<and> length (trim n) \<le> 30) (SetNickname (trim n)))"
| "request_command (ReqChannelCommander v) st = Some (SetChannelCommander (v \<noteq> 0))"
| "request_command (ReqSetMuted i out) st = Some (SetMuted (i \<noteq> 0) (out \<noteq> 0))"
| "request_command (ReqSendAudio d) st = guarded (d \<noteq> []) (SendAudio d)"

section \<open>The contract of an entry point\<close>

text \<open>
  What every entry point promises its caller: in a connected session it queues the command the
  request stands for, if there is one, and otherwise it does nothing and returns 0.
\<close>

lemma queue_command_cases:
  "queue_command cid c e = (e, False) \<or>
   (\<exists>s cs. tget (SESSIONS e) cid = Some s \<and> command_tx s \<and> cmd_rx e cid = Some cs
     \<and> queue_command cid c e = (e\<lparr>cmd_rx := (cmd_rx e)(cid \<mapsto> cs @ [c])\<rparr>, True))"
  by (cases "tget (SESSIONS e) cid"; cases "cmd_rx e cid") (simp_all add: queue_command_def)

lemma queue_command_refused: "\<not> snd (queue_command cid c e) \<Longrightarrow> fst (queue_command cid c e) = e"
  using queue_command_cases [of cid c e] by auto

lemma queue_command_accepts:
  "snd (queue_command cid c e) \<longleftrightarrow> (\<exists>s. tget (SESSIONS e) cid = Some s \<and> command_tx s) \<and> cmd_rx e cid \<noteq> None"
  by (cases "tget (SESSIONS e) cid"; cases "cmd_rx e cid") (simp_all add: queue_command_def)

locale command_entry =
  fixes call :: "'r \<Rightarrow> connection_id \<Rightarrow> engine \<Rightarrow> engine \<times> bool"
    and cmd :: "'r \<Rightarrow> ts_connection \<Rightarrow> command option"
  assumes gate: "call r cid e = (case session cid e of
      None \<Rightarrow> (e, False)
    | Some st \<Rightarrow> if connected st
        then (case cmd r st of None \<Rightarrow> (e, False) | Some c \<Rightarrow> queue_command cid c e)
        else (e, False))"
begin

lemma gate_Some:
  assumes "session cid e = Some st" "connected st" "cmd r st = Some c"
  shows "call r cid e = queue_command cid c e"
  using assms by (simp add: gate)

lemma gate_cases:
  "call r cid e = (e, False)
   \<or> (\<exists>st c. session cid e = Some st \<and> connected st \<and> cmd r st = Some c \<and> call r cid e = queue_command cid c e)"
  using gate [of r cid e] gate_Some [of cid e _ r]
  by (cases "session cid e"; cases "cmd r (the (session cid e))"; force)

lemma refused: "\<not> snd (call r cid e) \<Longrightarrow> fst (call r cid e) = e"
  using gate_cases [of r cid e] queue_command_refused [of cid _ e] by (elim disjE exE conjE) auto

lemma accepted:
  assumes "snd (call r cid e)"
  shows "\<exists>st c cs. session cid e = Some st \<and> connected st \<and> cmd r st = Some c
     \<and> cmd_rx e cid = Some cs \<and> fst (call r cid e) = e\<lparr>cmd_rx := (cmd_rx e)(cid \<mapsto> cs @ [c])\<rparr>"
proof -
  obtain st c where c: "session cid e = Some st" "connected st" "cmd r st = Some c"
    and q: "call r cid e = queue_command cid c e" using gate_cases [of r cid e] assms by auto
  from queue_command_cases [of cid c e] assms q
  obtain s cs where "cmd_rx e cid = Some cs"
    "queue_command cid c e = (e\<lparr>cmd_rx := (cmd_rx e)(cid \<mapsto> cs @ [c])\<rparr>, True)" by auto
  with c q show ?thesis by auto
qed

lemma accepted_iff:
  "snd (call r cid e) \<longleftrightarrow> (\<exists>s c. tget (SESSIONS e) cid = Some s \<and> connected (sess_state s)
     \<and> command_tx s \<and> cmd r (sess_state s) = Some c \<and> cmd_rx e cid \<noteq> None)"
proof (cases "tget (SESSIONS e) cid")
  case None
  then show ?thesis by (simp add: gate session_def)
next
  case (Some s)
  then show ?thesis
    by (cases "connected (sess_state s)"; cases "cmd r (sess_state s)")
      (simp_all add: gate session_def queue_command_accepts)
qed

lemma keeps_others: "j \<noteq> cid \<Longrightarrow> cmd_rx (fst (call r cid e)) j = cmd_rx e j"
  using refused [of r cid e] accepted [of r cid e] by (cases "snd (call r cid e)") auto

end

lemma nonempty_arg_simps [simp]:
  "nonempty_arg None = None" "nonempty_arg (Some s) = (if s = [] then None else Some s)"
  by (simp_all add: nonempty_arg_def)

lemma opt_cstr_simps [simp]:
  "opt_cstr None n = None"
  "opt_cstr (Some s) n = (if trim s = [] then None else Some (take n (trim s)))"
  by (simp_all add: opt_cstr_def Let_def)

lemma optional_reason_opt_cstr: "optional_reason r = opt_cstr r 200"
  by (cases r) (simp_all add: optional_reason_def REASON_MAX_def Let_def)

lemma text_arg_simps [simp]:
  "text_arg None = None" "text_arg (Some s) = (if trim s = [] then None else Some (trim s))"
  by (simp_all add: text_arg_def guarded_def)

lemma is_connected_None: "session cid e = None \<Longrightarrow> \<not> is_connected cid e"
  by (simp add: is_connected_def)

lemma is_connected_Some: "session cid e = Some st \<Longrightarrow> is_connected cid e = connected st"
  by (simp add: is_connected_def)

lemma own_id_Some: "session cid e = Some st \<Longrightarrow> own_id cid e = own_client_id st"
  by (simp add: own_id_def)

lemma db_id_of_Some: "session cid e = Some st \<Longrightarrow> db_id_of cid c e = find_db_id st c"
  by (simp add: db_id_of_def)

lemmas limit_defs = CHANNEL_NAME_MAX_def CHANNEL_TEXT_MAX_def NICKNAME_MIN_def NICKNAME_MAX_def
  AWAY_MESSAGE_MAX_def

lemmas entry_defs = enqueue_text_message_def ts_send_channel_message_def ts_send_private_message_def
  ts_send_server_message_def ts_move_to_channel_def ts_delete_file_def ts_create_directory_def
  ts_rename_file_def ts_use_token_def ts_create_channel_def ts_edit_channel_def
  ts_delete_channel_def ts_move_channel_tree_def ts_kick_client_def ts_ban_client_def
  ts_ban_uid_def ts_ban_address_def ts_ban_delete_def ts_list_bans_def ts_subscribe_channel_def
  ts_unsubscribe_channel_def ts_channel_description_def ts_add_client_to_group_def
  ts_remove_client_from_group_def ts_complain_add_def ts_set_talker_def ts_poke_client_def
  ts_move_client_def ts_set_away_def ts_set_nickname_def ts_set_channel_commander_def
  ts_set_muted_def ts_send_audio_def

lemma exec_disconnected: "\<not> is_connected cid e \<Longrightarrow> exec r cid e = (e, False)"
  by (induction r) (simp_all add: entry_defs Let_def split: option.split)

lemma exec_connected:
  assumes "session cid e = Some st" "connected st"
  shows "exec r cid e = (case request_command r st of None \<Rightarrow> (e, False) | Some c \<Rightarrow> queue_command cid c e)"
  using assms
  by (induction r)
    (simp_all add: entry_defs is_connected_Some own_id_Some db_id_of_Some optional_reason_opt_cstr
      limit_defs Let_def guarded_def word_gt_0 split: option.split, auto simp: not_le)

interpretation api: command_entry exec request_command
proof
  fix r cid e
  show "exec r cid e = (case session cid e of
      None \<Rightarrow> (e, False)
    | Some st \<Rightarrow> if connected st
        then (case request_command r st of None \<Rightarrow> (e, False) | Some c \<Rightarrow> queue_command cid c e)
        else (e, False))"
    using exec_disconnected [of cid e r] exec_connected [of cid e _ r]
    by (cases "session cid e") (auto simp: is_connected_def)
qed

section \<open>Admissible commands\<close>

text \<open>A text of at most \<open>n\<close> characters that neither is blank nor starts with white space.\<close>

definition bounded_text :: "nat \<Rightarrow> rstr \<Rightarrow> bool" where
  "bounded_text n s \<longleftrightarrow> s \<noteq> [] \<and> length s \<le> n \<and> \<not> is_whitespace (hd s)"

definition trimmed_text :: "rstr \<Rightarrow> bool" where
  "trimmed_text s \<longleftrightarrow> s \<noteq> [] \<and> \<not> is_whitespace (hd s) \<and> \<not> is_whitespace (last s)"

text \<open>What the event loop may rely on for every command a session in the state \<open>st\<close> has queued.\<close>

definition admissible :: "ts_connection \<Rightarrow> command \<Rightarrow> bool" where
  "admissible st c \<longleftrightarrow> (case c of
      SendMessage mode target msg \<Rightarrow> msg \<noteq> []
        \<and> (mode = 1 \<and> 1 \<le> target \<and> target \<le> 65535 \<or> mode \<in> {2, 3} \<and> target = 0)
    | MoveChannel client _ password \<Rightarrow>
        (client \<noteq> 0 \<or> client = ucast (own_client_id st)) \<and> password \<noteq> Some []
    | SetAway _ message \<Rightarrow> pred_option (bounded_text 200) message
    | SetNickname name \<Rightarrow> trimmed_text name \<and> 3 \<le> length name \<and> length name \<le> 30
    | KickClient client _ reason \<Rightarrow>
        client \<noteq> 0 \<and> ucast client \<noteq> own_client_id st \<and> pred_option (bounded_text 200) reason
    | BanClient client _ reason \<Rightarrow>
        client \<noteq> 0 \<and> ucast client \<noteq> own_client_id st \<and> pred_option (bounded_text 200) reason
    | BanUid uid _ reason \<Rightarrow> trimmed_text uid \<and> pred_option (bounded_text 200) reason
    | BanAddress ip name _ reason \<Rightarrow> (ip \<noteq> None \<or> name \<noteq> None)
        \<and> pred_option (\<lambda>a. parse_ip a \<noteq> None) ip \<and> pred_option (bounded_text 64) name
        \<and> pred_option (bounded_text 200) reason
    | BanDelete ban \<Rightarrow> ban \<noteq> 0
    | SubscribeChannel channel _ \<Rightarrow> channel \<noteq> 0
    | ChannelDescription channel \<Rightarrow> channel \<noteq> 0
    | AddClientToGroup db_id group_id \<Rightarrow>
        db_id \<noteq> 0 \<and> group_id \<noteq> 0 \<and> db_id \<in> cl_database_id ` set (clients st)
    | RemoveClientFromGroup db_id group_id \<Rightarrow>
        db_id \<noteq> 0 \<and> group_id \<noteq> 0 \<and> db_id \<in> cl_database_id ` set (clients st)
    | ComplainAdd db_id message \<Rightarrow>
        db_id \<noteq> 0 \<and> db_id \<in> cl_database_id ` set (clients st) \<and> bounded_text 200 message
    | SetTalker client _ \<Rightarrow> client \<noteq> 0 \<and> ucast client \<noteq> own_client_id st
    | DeleteFile _ _ path \<Rightarrow> trimmed_text path
    | CreateDirectory _ _ path \<Rightarrow> trimmed_text path
    | RenameFile _ _ target target_password old new \<Rightarrow>
        trimmed_text old \<and> trimmed_text new \<and> target \<noteq> Some 0 \<and> target_password \<noteq> Some []
    | UseToken tok \<Rightarrow> trimmed_text tok
    | CreateChannel _ name topic description password max_clients _ _ \<Rightarrow> bounded_text 40 name
        \<and> pred_option (bounded_text 2000) topic \<and> pred_option (bounded_text 2000) description
        \<and> pred_option (bounded_text 64) password \<and> pred_option (\<lambda>m. 0 <s m) max_clients
    | EditChannel channel name topic description password _ max_clients _ _ \<Rightarrow> channel \<noteq> 0
        \<and> pred_option (bounded_text 40) name
        \<and> pred_option (bounded_text 2000) topic \<and> pred_option (bounded_text 2000) description
        \<and> pred_option (bounded_text 64) password \<and> pred_option (\<lambda>m. 0 <s m) max_clients
    | DeleteChannel channel _ \<Rightarrow> channel \<noteq> 0
    | MoveChannelTree channel _ order \<Rightarrow> channel \<noteq> 0 \<and> order \<noteq> Some 0
    | PokeClient client message \<Rightarrow> client \<noteq> 0 \<and> bounded_text 200 message
    | SendAudio data \<Rightarrow> data \<noteq> []
    | DownloadFile _ _ _ _ \<Rightarrow> False
    | UploadFile _ _ _ _ _ _ _ \<Rightarrow> False
    | RequestFileList _ _ _ _ \<Rightarrow> False
    | FileInfoRequest _ _ _ _ \<Rightarrow> False
    | Disconnect \<Rightarrow> False
    | _ \<Rightarrow> True)"

lemma trim_hd: "trim s \<noteq> [] \<Longrightarrow> \<not> is_whitespace (hd (trim s))"
proof -
  assume ne: "trim s \<noteq> []"
  obtain v where v: "trim_start_matches is_whitespace s = trim s @ v"
    using trim_end_matches_prefix [of "trim_start_matches is_whitespace s" is_whitespace]
    unfolding trim_def trim_matches_def by blast
  with ne have "trim_start_matches is_whitespace s \<noteq> []" by simp
  then have "\<not> is_whitespace (hd (trim_start_matches is_whitespace s))"
    unfolding trim_start_matches_def by (rule hd_dropWhile)
  with v ne show ?thesis by simp
qed

lemma trim_last: "trim s \<noteq> [] \<Longrightarrow> \<not> is_whitespace (last (trim s))"
  unfolding trim_def trim_matches_def by (rule trim_end_matches_last)

lemma trimmed_text_trim [simp]: "trimmed_text (trim s) \<longleftrightarrow> trim s \<noteq> []"
  using trim_hd [of s] trim_last [of s] by (auto simp: trimmed_text_def)

lemma bounded_text_take [simp]: "0 < n \<Longrightarrow> bounded_text n (take n (trim s)) \<longleftrightarrow> trim s \<noteq> []"
  using trim_hd [of s] by (auto simp: bounded_text_def hd_take)

lemma opt_cstr_bounded [simp]: "0 < n \<Longrightarrow> pred_option (bounded_text n) (opt_cstr s n)"
  by (cases s) (simp_all del: opt_cstr_simps add: opt_cstr_def Let_def)

lemma opt_cstr_SomeD: "opt_cstr s n = Some t \<Longrightarrow> 0 < n \<Longrightarrow> bounded_text n t"
  using opt_cstr_bounded [of n s] by simp

lemma opt_cstr_nonempty [simp]: "0 < n \<Longrightarrow> opt_cstr s n \<noteq> Some []"
  by (auto dest!: opt_cstr_SomeD simp: bounded_text_def)

lemma text_arg_SomeD: "text_arg s = Some t \<Longrightarrow> trimmed_text t"
  by (cases s) (auto split: if_splits)

lemma nonempty_arg_nonempty [simp]: "nonempty_arg s \<noteq> Some []"
  by (cases s) simp_all

lemma nonempty_argD: "nonempty_arg s = Some t \<Longrightarrow> t \<noteq> []"
  by (cases s) (auto split: if_splits)

lemma find_db_id_in: "find_db_id st c \<noteq> 0 \<Longrightarrow> find_db_id st c \<in> cl_database_id ` set (clients st)"
  by (auto simp: find_db_id_def dest: find_SomeD split: option.splits)

lemma guarded_Some [simp]: "guarded b x = Some y \<longleftrightarrow> b \<and> x = y"
  by (simp add: guarded_def)

lemma pred_option_guarded [simp]: "pred_option p (guarded b x) \<longleftrightarrow> (b \<longrightarrow> p x)"
  by (simp add: guarded_def)

lemma private_target: "(c :: u32) \<noteq> 0 \<Longrightarrow> c \<le> 65535 \<Longrightarrow> 1 \<le> (ucast c :: u64) \<and> (ucast c :: u64) \<le> 65535"
  by (simp add: word_le_nat_alt word_unat_eq_iff unsigned_ucast_eq take_bit_nat_eq_self)

lemmas opt_cstr_texts = opt_cstr_SomeD [of _ 40, simplified] opt_cstr_SomeD [of _ 64, simplified]
  opt_cstr_SomeD [of _ 200, simplified] opt_cstr_SomeD [of _ 2000, simplified]

lemma pred_option_bind: "pred_option p (Option.bind x f) \<longleftrightarrow> pred_option (\<lambda>a. pred_option p (f a)) x"
  by (cases x) simp_all

lemma pred_option_True: "(\<And>a. p a) \<Longrightarrow> pred_option p x"
  by (cases x) simp_all

lemma request_command_admissible: "request_command r st = Some c \<Longrightarrow> admissible st c"
  by (induction r)
    (auto simp: admissible_def bind_eq_Some_conv Let_def pred_option_bind find_db_id_in
      dest: nonempty_argD text_arg_SomeD opt_cstr_texts private_target intro: pred_option_True)

section \<open>Properties\<close>

text \<open>C29. Every entry point that returns 1 queued exactly one command, in its own session and at the
  end of the queue, and changed nothing else; the session is connected and the command is admissible
  in its state: identifiers are not 0, no client kicks, bans or silences itself, texts are trimmed
  and within their limits, an address ban has an address that parses. An entry point that returns 0
  changed nothing.\<close>

theorem exec_queues_one_admissible_command:
  "(if snd (exec r cid e)
    then \<exists>st c cs. session cid e = Some st \<and> connected st \<and> request_command r st = Some c
       \<and> admissible st c \<and> cmd_rx e cid = Some cs
       \<and> fst (exec r cid e) = e\<lparr>cmd_rx := (cmd_rx e)(cid \<mapsto> cs @ [c])\<rparr>
    else fst (exec r cid e) = e)"
proof (cases "snd (exec r cid e)")
  case True
  with api.accepted [OF this] show ?thesis using request_command_admissible by fastforce
qed (simp add: api.refused)

text \<open>A request is accepted exactly when its session is connected, still has the sender and the
  receiver of its command channel, and the arguments stand for a command.\<close>

theorem exec_accepts_iff:
  "snd (exec r cid e) = (\<exists>s c. tget (SESSIONS e) cid = Some s \<and> connected (sess_state s)
     \<and> command_tx s \<and> request_command r (sess_state s) = Some c \<and> cmd_rx e cid \<noteq> None)"
  by (rule api.accepted_iff)

text \<open>The two ways to move a client treat the channel password differently: moving oneself sends
  it as typed, moving another client trims it and cuts it to 200 characters, so a password with
  surrounding white space works for one and not for the other.\<close>

theorem move_client_alters_the_password:
  "request_command (ReqMoveToChannel c (Some [32, 97])) st
     = Some (MoveChannel (ucast (own_client_id st)) (ucast c) (Some [32, 97]))"
  "request_command (ReqMoveClient 1 1 (Some [32, 97])) st = Some (MoveChannel 1 1 (Some [97]))"
  by (simp_all add: guarded_def trim_def trim_matches_def trim_start_matches_def
    trim_end_matches_def is_whitespace_def)

end
