(* ===== verification/Interface.thy ===== *)
theory Interface
  imports Whisper Requests
begin

text \<open>
  The entry points of \<open>native/src/api.rs\<close> that read or set the engine's state without queueing a
  command: identity, log level, the event queue, the roster getters, voice activation, gain and
  volume, and the microphone encoder. The JSON text a getter returns is left out: its result is the
  value that is serialised. \<open>powf\<close> is the platform's power function on \<open>f32\<close>, an argument.
\<close>

section \<open>Identity and log level\<close>

text \<open>A string with an interior NUL cannot become a C string.\<close>

definition to_c_str :: "rstr \<Rightarrow> rstr" where
  "to_c_str s = (if 0 \<in> set s then str ''null string'' else s)"

definition ts_set_identity :: "c_str \<Rightarrow> engine \<Rightarrow> engine" where
  "ts_set_identity json e = (case json of
      None \<Rightarrow> e
    | Some s \<Rightarrow> e\<lparr>IDENTITY_STASH := (if s = [] then None else Some s)\<rparr>)"

definition ts_get_identity :: "engine \<Rightarrow> c_str" where
  "ts_get_identity e = (case IDENTITY_STASH e of None \<Rightarrow> None | Some s \<Rightarrow> Some (to_c_str s))"

definition ts_clear_identity :: "engine \<Rightarrow> engine \<times> bool" where
  "ts_clear_identity e = (e\<lparr>IDENTITY_STASH := None\<rparr>, True)"

definition ts_set_log_level :: "u8 \<Rightarrow> engine \<Rightarrow> engine \<times> bool" where
  "ts_set_log_level level e = (if level > 4 then (e, False) else (e\<lparr>LOG_LEVEL := ucast level\<rparr>, True))"

definition log_enabled :: "u32 \<Rightarrow> engine \<Rightarrow> bool" where
  "log_enabled level e \<longleftrightarrow> level \<le> LOG_LEVEL e"

section \<open>Events\<close>

text \<open>The panic hook leaves its message for the next poll.\<close>

definition panic_hook :: "rstr \<Rightarrow> rstr \<Rightarrow> engine \<Rightarrow> engine" where
  "panic_hook location payload e =
     e\<lparr>PANIC_LOG := str ''PANIC '' @ location @ str '': '' @ payload\<rparr>"

definition flush_panic_log :: "engine \<Rightarrow> engine" where
  "flush_panic_log e = (if PANIC_LOG e = [] then e
     else push_global_event (EvDiag (PANIC_LOG e)) (e\<lparr>PANIC_LOG := []\<rparr>))"

definition ts_poll_events :: "engine \<Rightarrow> engine \<times> enveloped_event list" where
  "ts_poll_events e = (let e = flush_panic_log e in (e\<lparr>EVENT_QUEUE := []\<rparr>, EVENT_QUEUE e))"

section \<open>Roster getters\<close>

definition ts_is_connected :: "connection_id \<Rightarrow> engine \<Rightarrow> bool" where
  "ts_is_connected cid e = is_connected cid e"

definition ts_get_channels :: "connection_id \<Rightarrow> engine \<Rightarrow> ts_channel list" where
  "ts_get_channels cid e = (case session cid e of
      None \<Rightarrow> []
    | Some st \<Rightarrow> if connected st then channels st else [])"

text \<open>The clients whose last frame is less than half a second old.\<close>

definition recent_clients :: "instant \<Rightarrow> (u16, instant) table \<Rightarrow> u16 list" where
  "recent_clients now t = map fst (filter (\<lambda>(_, seen). elapsed_millis now seen < 500) t)"

definition with_activity :: "u16 list \<Rightarrow> u16 list \<Rightarrow> ts_client \<Rightarrow> ts_client" where
  "with_activity talking whispering c =
     c\<lparr>cl_is_talking := ucast (cl_id c) \<in> set talking,
       cl_is_whispering := ucast (cl_id c) \<in> set whispering\<rparr>"

definition with_volume :: "(rstr \<rightharpoonup> f32) \<Rightarrow> ts_client \<Rightarrow> ts_client" where
  "with_volume volumes c = (case cl_uid c of
      None \<Rightarrow> c
    | Some uid \<Rightarrow> (case volumes uid of None \<Rightarrow> c | Some db \<Rightarrow> c\<lparr>cl_volume := db\<rparr>))"

definition ts_get_clients :: "instant \<Rightarrow> connection_id \<Rightarrow> engine \<Rightarrow> engine \<times> ts_client list" where
  "ts_get_clients now cid e = (case session cid e of
      None \<Rightarrow> (e, [])
    | Some st \<Rightarrow>
        if \<not> connected st then (e, [])
        else let talking = recent_clients now (talking_clients st);
                 whispering = recent_clients now (whispering_clients st);
                 cs = map (with_activity talking whispering) (clients st);
                 cs = map (with_volume (CLIENT_VOLUMES e)) cs
          in (upd_state cid (\<lambda>st. st\<lparr>clients := cs\<rparr>) e, cs))"

section \<open>Voice activation, gain and volume\<close>

definition VAD_MIN :: f32 where "VAD_MIN = f32_of_rat (5 / 10000)"

definition ts_set_vad_threshold :: "connection_id \<Rightarrow> f32 \<Rightarrow> engine \<Rightarrow> engine" where
  "ts_set_vad_threshold cid threshold e =
     upd_state cid (\<lambda>st. st\<lparr>vad_threshold := fclamp VAD_MIN (Fin 1) threshold,
       vad_noise_floor := Fin 0\<rparr>) e"

definition ts_set_vad_enabled :: "connection_id \<Rightarrow> u8 \<Rightarrow> engine \<Rightarrow> engine \<times> bool" where
  "ts_set_vad_enabled cid enabled e = (case session cid e of
      None \<Rightarrow> (e, False)
    | Some _ \<Rightarrow> (upd_state cid (\<lambda>st. st\<lparr>vad_enabled := (enabled \<noteq> 0)\<rparr>) e, True))"

text \<open>Reading the voice flag clears it.\<close>

definition ts_is_voice_active :: "connection_id \<Rightarrow> engine \<Rightarrow> engine \<times> bool" where
  "ts_is_voice_active cid e = (case session cid e of
      None \<Rightarrow> (e, False)
    | Some st \<Rightarrow> (upd_state cid (\<lambda>st. st\<lparr>voice_active := False\<rparr>) e, voice_active st))"

definition ts_set_mic_gain :: "connection_id \<Rightarrow> f32 \<Rightarrow> engine \<Rightarrow> engine" where
  "ts_set_mic_gain cid gain e = upd_state cid (\<lambda>st. st\<lparr>mic_gain := fclamp (Fin 0) (Fin 3) gain\<rparr>) e"

definition db_to_gain :: "(f32 \<Rightarrow> f32 \<Rightarrow> f32) \<Rightarrow> f32 \<Rightarrow> f32" where
  "db_to_gain powf db = powf (Fin 10) (fdiv db (Fin 20))"

definition set_master_volume_db :: "(f32 \<Rightarrow> f32 \<Rightarrow> f32) \<Rightarrow> f32 \<Rightarrow> engine \<Rightarrow> engine" where
  "set_master_volume_db powf db e =
     (let db = fclamp (Fin (- 20)) (Fin 20) db in e\<lparr>MASTER_VOLUME := db_to_gain powf db\<rparr>)"

definition master_volume_gain :: "engine \<Rightarrow> f32" where
  "master_volume_gain e = fmax (MASTER_VOLUME e) (Fin 0)"

definition ts_set_master_volume :: "(f32 \<Rightarrow> f32 \<Rightarrow> f32) \<Rightarrow> f32 \<Rightarrow> engine \<Rightarrow> engine" where
  "ts_set_master_volume powf volume_db e = set_master_volume_db powf volume_db e"

definition ts_set_client_volume ::
  "(f32 \<Rightarrow> f32 \<Rightarrow> f32) \<Rightarrow> connection_id \<Rightarrow> u16 \<Rightarrow> f32 \<Rightarrow> engine \<Rightarrow> engine" where
  "ts_set_client_volume powf cid client_id volume_db e =
     (let vol_db = fclamp (Fin (- 20)) (Fin 20) volume_db;
          gain = db_to_gain powf vol_db;
          uid = Option.bind (session cid e) (\<lambda>st. find_uid st client_id);
          e = (case uid of None \<Rightarrow> e
               | Some uid \<Rightarrow> e\<lparr>CLIENT_VOLUMES := (CLIENT_VOLUMES e)(uid \<mapsto> vol_db)\<rparr>)
      in (case tget (CLIENT_BUFFERS e) (cid, client_id) of
            None \<Rightarrow> e
          | Some buf \<Rightarrow> e\<lparr>CLIENT_BUFFERS := tput (cid, client_id) (buf\<lparr>volume := gain\<rparr>) (CLIENT_BUFFERS e)\<rparr>))"

section \<open>The microphone encoder\<close>

text \<open>Whether the library can create an encoder is the argument \<open>encoder_ok\<close>.\<close>

definition ts_start_audio :: "bool \<Rightarrow> connection_id \<Rightarrow> engine \<Rightarrow> engine \<times> bool" where
  "ts_start_audio encoder_ok cid e =
     (if \<not> encoder_ok then (e, False)
      else (case session cid e of
          None \<Rightarrow> (e, False)
        | Some _ \<Rightarrow> (upd_state cid (\<lambda>st. st\<lparr>audio_encoder := Some [], pcm_in := [], audio_seq := 0\<rparr>) e, True)))"

definition ts_stop_audio :: "connection_id \<Rightarrow> engine \<Rightarrow> engine" where
  "ts_stop_audio cid e = upd_state cid (\<lambda>st. st\<lparr>audio_encoder := None, pcm_in := []\<rparr>) e"

section \<open>Properties\<close>

datatype queue_action = Push connection_id ts_event | Poll

primrec queue_step :: "queue_action \<Rightarrow> engine \<Rightarrow> engine \<times> enveloped_event list" where
  "queue_step (Push cid ev) e = (push_event cid ev e, [])"
| "queue_step Poll e = ts_poll_events e"

fun queue_run :: "queue_action list \<Rightarrow> engine \<Rightarrow> engine \<times> enveloped_event list" where
  "queue_run [] e = (e, [])"
| "queue_run (a # as) e = (case queue_step a e of (e', out) \<Rightarrow>
     (case queue_run as e' of (e'', out') \<Rightarrow> (e'', out @ out')))"

fun pushed :: "queue_action list \<Rightarrow> enveloped_event list" where
  "pushed [] = []"
| "pushed (Push cid ev # as) = \<lparr>ev_connection_id = cid, ev_event = ev\<rparr> # pushed as"
| "pushed (Poll # as) = pushed as"

text \<open>Event delivery: however pushes of all sessions and polls interleave, what the polls return,
  followed by what is still queued, is what was queued before followed by the pushed events in
  order: none is lost, repeated or reordered, and each keeps the session it belongs to.\<close>

theorem events_delivered_once_in_order:
  assumes "PANIC_LOG e = []"
  shows "case queue_run as e of (e', out) \<Rightarrow> out @ EVENT_QUEUE e' = EVENT_QUEUE e @ pushed as"
proof -
  have "PANIC_LOG (fst (queue_run as e)) = []
      \<and> snd (queue_run as e) @ EVENT_QUEUE (fst (queue_run as e)) = EVENT_QUEUE e @ pushed as"
    using assms
  proof (induction as arbitrary: e)
    case (Cons a as)
    show ?case
    proof (cases a)
      case (Push cid ev)
      then show ?thesis
        using Cons.IH [of "push_event cid ev e"] Cons.prems
        by (simp add: case_prod_beta push_event_def)
    next
      case Poll
      then show ?thesis
        using Cons.IH [of "e\<lparr>EVENT_QUEUE := []\<rparr>"] Cons.prems
        by (simp add: case_prod_beta ts_poll_events_def flush_panic_log_def)
    qed
  qed simp
  then show ?thesis by (simp add: case_prod_beta)
qed

theorem events_delivered_once_in_order_witness:
  "case queue_run [Push 3 EvChannelsUpdated, Poll, Push 4 EvChannelsUpdated] (engine_new 2) of
     (e', out) \<Rightarrow> out @ EVENT_QUEUE e' = [\<lparr>ev_connection_id = 3, ev_event = EvChannelsUpdated\<rparr>,
       \<lparr>ev_connection_id = 4, ev_event = EvChannelsUpdated\<rparr>]"
  using events_delivered_once_in_order [of "engine_new 2"
      "[Push 3 EvChannelsUpdated, Poll, Push 4 EvChannelsUpdated]"]
  by (simp add: engine_new_def)

lemma recent_clients_iff:
  assumes "distinct (tkeys t)"
  shows "i \<in> set (recent_clients now t) \<longleftrightarrow> (\<exists>seen. tget t i = Some seen \<and> elapsed_millis now seen < 500)"
  using assms by (force simp: recent_clients_def)

lemma with_volume_eq: "with_volume vs c = c\<lparr>cl_volume := (case cl_uid c of None \<Rightarrow> cl_volume c
    | Some uid \<Rightarrow> (case vs uid of None \<Rightarrow> cl_volume c | Some db \<Rightarrow> db))\<rparr>"
  by (simp add: with_volume_def split: option.split)

text \<open>The roster getter: an entry shows as talking exactly when audio from its (16-bit) client
  number arrived less than 500 ms ago, its volume is the stored one of its user if there is one, and
  nothing else of the roster changes. Nothing is shown of a session that is not connected.\<close>

theorem ts_get_clients_spec:
  assumes "session cid e = Some st" "distinct (tkeys (talking_clients st))"
    "distinct (tkeys (whispering_clients st))"
  shows "snd (ts_get_clients now cid e) = (if \<not> connected st then [] else map (\<lambda>c. c\<lparr>
      cl_is_talking := (\<exists>seen. tget (talking_clients st) (ucast (cl_id c)) = Some seen \<and> elapsed_millis now seen < 500),
      cl_is_whispering := (\<exists>seen. tget (whispering_clients st) (ucast (cl_id c)) = Some seen \<and> elapsed_millis now seen < 500),
      cl_volume := (case cl_uid c of None \<Rightarrow> cl_volume c
        | Some uid \<Rightarrow> (case CLIENT_VOLUMES e uid of None \<Rightarrow> cl_volume c | Some db \<Rightarrow> db))\<rparr>) (clients st))"
  using recent_clients_iff [OF assms(2), of _ now] recent_clients_iff [OF assms(3), of _ now]
  by (simp add: ts_get_clients_def assms(1) Let_def with_activity_def with_volume_eq
    cong: option.case_cong)

theorem ts_get_clients_spec_witness:
  "snd (ts_get_clients 0 1 sample_engine) = []"
  by (subst ts_get_clients_spec [of _ _ ts_connection_new])
    (simp_all add: sample_engine_def session_def session_new_def ts_connection_new_def)

end
