(* ===== verification/Roster.thy ===== *)
theory Roster
  imports Interface "HOL-Library.Multiset"
begin

text \<open>
  The roster snapshot of \<open>native/src/api.rs\<close> (\<open>refresh_from_book\<close>): from the library's book of a server
  to the lists of channels and clients the interface shows. The book is a record of the fields the
  code reads; hash maps and sets that are iterated are lists in their iteration order, identifiers
  are the numbers inside their wrappers, and a client's unique identifier is its text. \<open>log10\<close> is the
  platform's logarithm on \<open>f32\<close>, an argument.
\<close>

section \<open>The book\<close>

datatype codec = SpeexNarrowband | SpeexWideband | SpeexUltrawideband | CeltMono | OpusVoice | OpusMusic

datatype channel_type = Permanent | SemiPermanent | Temporary

datatype max_clients = Unlimited | Inherited | Limited u16

datatype client_type = NormalClient | QueryClient

datatype host_message_mode = HostNone | HostLog | HostModal | HostModalquit

record book_channel =
  bch_id :: u64
  bch_name :: rstr
  bch_parent :: u64
  bch_topic :: "rstr option"
  bch_has_password :: "bool option"
  bch_order :: u64
  bch_needed_talk_power :: "i32 option"
  bch_max_clients :: "max_clients option"
  bch_codec :: codec
  bch_codec_quality :: "u8 option"
  bch_channel_type :: channel_type
  bch_is_default :: "bool option"
  bch_is_private :: "bool option"
  bch_subscribed :: bool
  bch_icon :: "u32 option"
  bch_is_unencrypted :: "bool option"
  bch_description :: "rstr option"
    \<comment> \<open>the description in \<open>optional_data\<close>\<close>

record book_client =
  bcl_id :: u16
  bcl_name :: rstr
  bcl_channel :: u64
  bcl_database_id :: u64
  bcl_channel_group :: u64
  bcl_server_groups :: "u64 list"
  bcl_uid :: "rstr option"
  bcl_away_message :: "rstr option"
  bcl_input_muted :: bool
  bcl_output_muted :: bool
  bcl_client_type :: client_type
  bcl_talk_power :: i32
  bcl_talk_power_granted :: bool
  bcl_is_priority_speaker :: bool
  bcl_is_channel_commander :: bool
  bcl_is_recording :: bool
  bcl_input_hardware_enabled :: bool
  bcl_output_hardware_enabled :: bool
  bcl_output_only_muted :: bool
  bcl_phonetic_name :: rstr
  bcl_country_code :: rstr
  bcl_metadata :: rstr
  bcl_avatar_hash :: rstr

record book_server =
  bs_name :: rstr
  bs_uid :: rstr
  bs_codec_encryption_mode :: rstr
  bs_welcome_message :: rstr
  bs_hostmessage :: rstr
  bs_hostmessage_mode :: host_message_mode
  bs_max_clients :: u16
  bs_needed_identity_level :: "u8 option"

record book =
  book_server :: book_server
  book_own_client :: u16
  book_clients :: "book_client list"
  book_channels :: "book_channel list"
  book_server_groups :: "u64 \<rightharpoonup> rstr \<times> u32"
  book_channel_groups :: "u64 \<rightharpoonup> rstr \<times> u32"

section \<open>The snapshot\<close>

fun channel_codec_code :: "codec \<Rightarrow> u8" where
  "channel_codec_code SpeexNarrowband = 0"
| "channel_codec_code SpeexWideband = 1"
| "channel_codec_code SpeexUltrawideband = 2"
| "channel_codec_code CeltMono = 3"
| "channel_codec_code OpusVoice = 4"
| "channel_codec_code OpusMusic = 5"

fun channel_type_code :: "channel_type \<Rightarrow> u8" where
  "channel_type_code Permanent = 1"
| "channel_type_code SemiPermanent = 2"
| "channel_type_code Temporary = 0"

definition unwrap_or :: "'a option \<Rightarrow> 'a \<Rightarrow> 'a" where
  "unwrap_or x d = (case x of None \<Rightarrow> d | Some v \<Rightarrow> v)"

text \<open>\<open>*count.entry(channel).or_insert(0) += 1\<close> for every client.\<close>

definition count_clients :: "book_client list \<Rightarrow> u64 \<rightharpoonup> u32" where
  "count_clients cs = fold (\<lambda>c m. m(bcl_channel c \<mapsto> unwrap_or (m (bcl_channel c)) 0 + 1)) cs Map.empty"

definition channel_of_book :: "(u64 \<rightharpoonup> u32) \<Rightarrow> book_channel \<Rightarrow> ts_channel" where
  "channel_of_book per_channel c = \<lparr>
     ch_id = ucast (bch_id c),
     ch_name = bch_name c,
     ch_parent_id = (if bch_parent c = 0 then 0 else ucast (bch_parent c)),
     ch_topic = unwrap_or (bch_topic c) [],
     ch_has_password = unwrap_or (bch_has_password c) False,
     ch_client_count = unwrap_or (per_channel (bch_id c)) 0,
     ch_order = ucast (bch_order c),
     ch_needed_talk_power = unwrap_or (bch_needed_talk_power c) 0,
     ch_max_clients = (case unwrap_or (bch_max_clients c) Unlimited of
         Unlimited \<Rightarrow> - 1 | Inherited \<Rightarrow> - 2 | Limited n \<Rightarrow> ucast n),
     ch_codec = channel_codec_code (bch_codec c),
     ch_codec_quality = unwrap_or (bch_codec_quality c) 0,
     ch_channel_type = channel_type_code (bch_channel_type c),
     ch_is_default = unwrap_or (bch_is_default c) False,
     ch_is_private = unwrap_or (bch_is_private c) False,
     ch_subscribed = bch_subscribed c,
     ch_icon_id = unwrap_or (bch_icon c) 0,
     ch_is_unencrypted = unwrap_or (bch_is_unencrypted c) True\<rparr>"

text \<open>The (name, icon) pairs of a client's server groups that the book knows.\<close>

definition client_groups :: "book \<Rightarrow> book_client \<Rightarrow> (rstr \<times> u32) list" where
  "client_groups bk c = List.map_filter (book_server_groups bk) (bcl_server_groups c)"

definition active_within :: "nat \<Rightarrow> instant \<Rightarrow> (u16, instant) table \<Rightarrow> u16 \<Rightarrow> bool" where
  "active_within ms now t i =
     (case tget t i of None \<Rightarrow> False | Some seen \<Rightarrow> elapsed_millis now seen < ms)"

definition client_volume ::
  "(f32 \<Rightarrow> f32) \<Rightarrow> connection_id \<Rightarrow> engine \<Rightarrow> book_client \<Rightarrow> f32" where
  "client_volume log10 cid e c =
     (case Option.bind (bcl_uid c) (CLIENT_VOLUMES e) of
        Some db \<Rightarrow> db
      | None \<Rightarrow> (case tget (CLIENT_BUFFERS e) (cid, bcl_id c) of
            Some b \<Rightarrow> fmul (Fin 20) (log10 (fmax (volume b) (f32_of_rat (1 / 10 ^ 10))))
          | None \<Rightarrow> Fin 0))"

definition client_of_book ::
  "(f32 \<Rightarrow> f32) \<Rightarrow> instant \<Rightarrow> connection_id \<Rightarrow> book \<Rightarrow> (u16, instant) table \<Rightarrow> (u16, instant) table \<Rightarrow>
    (u16 \<rightharpoonup> u64) \<Rightarrow> engine \<Rightarrow> book_client \<Rightarrow> ts_client" where
  "client_of_book log10 now cid bk talking whispering hints e c = (let groups = client_groups bk c in \<lparr>
     cl_id = ucast (bcl_id c),
     cl_nickname = bcl_name c,
     cl_channel_id = ucast (bcl_channel c),
     cl_database_id = bcl_database_id c,
     cl_channel_group_id = bcl_channel_group c,
     cl_channel_group_name = map_option fst (book_channel_groups bk (bcl_channel_group c)),
     cl_channel_group_icon_id = unwrap_or (map_option snd (book_channel_groups bk (bcl_channel_group c))) 0,
     cl_server_group_ids = sort (bcl_server_groups c),
     cl_server_group_names = sort (map fst groups),
     cl_server_group_icon_ids = map snd (sort_key fst groups),
     cl_away = bcl_away_message c \<noteq> None,
     cl_input_muted = bcl_input_muted c,
     cl_output_muted = bcl_output_muted c,
     cl_is_talking = active_within 500 now talking (bcl_id c),
     cl_is_whispering = active_within 500 now whispering (bcl_id c),
     cl_permission_hints = unwrap_or (hints (bcl_id c)) 0,
     cl_volume = client_volume log10 cid e c,
     cl_uid = bcl_uid c,
     cl_client_type = (case bcl_client_type c of NormalClient \<Rightarrow> 0 | QueryClient \<Rightarrow> 1),
     cl_talk_power = bcl_talk_power c,
     cl_talk_power_granted = bcl_talk_power_granted c,
     cl_is_priority_speaker = bcl_is_priority_speaker c,
     cl_is_channel_commander = bcl_is_channel_commander c,
     cl_is_recording = bcl_is_recording c,
     cl_input_hardware_enabled = bcl_input_hardware_enabled c,
     cl_output_hardware_enabled = bcl_output_hardware_enabled c,
     cl_output_only_muted = bcl_output_only_muted c,
     cl_phonetic_name = bcl_phonetic_name c,
     cl_country_code = bcl_country_code c,
     cl_metadata = bcl_metadata c,
     cl_avatar_hash = bcl_avatar_hash c\<rparr>)"

definition refresh_from_book ::
  "(f32 \<Rightarrow> f32) \<Rightarrow> instant \<Rightarrow> connection_id \<Rightarrow> book \<Rightarrow> (u16, instant) table \<Rightarrow> (u16, instant) table \<Rightarrow>
    (u16 \<rightharpoonup> u64) \<Rightarrow> engine \<Rightarrow> ts_channel list \<times> ts_client list" where
  "refresh_from_book log10 now cid bk talking whispering hints e =
     (let per_channel = count_clients (book_clients bk) in
       (map (channel_of_book per_channel) (book_channels bk),
        map (client_of_book log10 now cid bk talking whispering hints e) (book_clients bk)))"

section \<open>Properties\<close>

lemma unwrap_or_simps [simp]: "unwrap_or None d = d" "unwrap_or (Some v) d = v"
  by (simp_all add: unwrap_or_def)

lemma count_clients_fold:
  "unwrap_or (fold (\<lambda>c m. m(bcl_channel c \<mapsto> unwrap_or (m (bcl_channel c)) 0 + 1)) cs m ch) 0
    = unwrap_or (m ch) 0 + of_nat (length (filter (\<lambda>c. bcl_channel c = ch) cs))"
proof (induction cs arbitrary: m)
  case (Cons c cs)
  show ?case using Cons.IH [of "m(bcl_channel c \<mapsto> unwrap_or (m (bcl_channel c)) 0 + 1)"]
    by (auto simp: algebra_simps)
qed simp

lemma count_clients_eq:
  "unwrap_or (count_clients cs ch) 0 = of_nat (length (filter (\<lambda>c. bcl_channel c = ch) cs))"
  using count_clients_fold [of cs Map.empty ch] by (simp add: count_clients_def)

text \<open>The snapshot has one channel per channel of the book, in the same order, and a channel's
  client count is the number of clients of the book that are in it.\<close>

theorem roster_channels:
  "map ch_client_count (fst (refresh_from_book log10 now cid bk talking whispering hints e))
    = map (\<lambda>ch. of_nat (length (filter (\<lambda>c. bcl_channel c = bch_id ch) (book_clients bk)))) (book_channels bk)"
  by (simp add: refresh_from_book_def Let_def channel_of_book_def count_clients_eq)

lemma map_fst_sort_key: "map fst (sort_key fst xs) = sort (map fst (xs :: ('a::linorder \<times> 'b) list))"
  by (rule properties_for_sort [symmetric]) simp_all

text \<open>The interface pairs a client's group names and group icons by index: the two lists have the
  same length, the pairs are exactly the client's groups known to the book, ordered by name.\<close>

theorem roster_groups_aligned:
  assumes "c \<in> set (book_clients bk)"
    "cl = client_of_book log10 now cid bk talking whispering hints e c"
  shows "length (cl_server_group_names cl) = length (cl_server_group_icon_ids cl)"
    and "zip (cl_server_group_names cl) (cl_server_group_icon_ids cl) = sort_key fst (client_groups bk c)"
    and "mset (zip (cl_server_group_names cl) (cl_server_group_icon_ids cl)) = mset (client_groups bk c)"
    and "sorted (cl_server_group_names cl)"
    and "cl \<in> set (snd (refresh_from_book log10 now cid bk talking whispering hints e))"
proof -
  have n: "cl_server_group_names cl = map fst (sort_key fst (client_groups bk c))"
    and i: "cl_server_group_icon_ids cl = map snd (sort_key fst (client_groups bk c))"
    by (simp_all add: assms(2) client_of_book_def Let_def map_fst_sort_key)
  show "length (cl_server_group_names cl) = length (cl_server_group_icon_ids cl)" by (simp add: n i)
  show "zip (cl_server_group_names cl) (cl_server_group_icon_ids cl) = sort_key fst (client_groups bk c)"
    by (simp only: n i zip_map_fst_snd)
  then show "mset (zip (cl_server_group_names cl) (cl_server_group_icon_ids cl)) = mset (client_groups bk c)"
    by simp
  show "sorted (cl_server_group_names cl)" by (simp add: n)
  show "cl \<in> set (snd (refresh_from_book log10 now cid bk talking whispering hints e))"
    using assms by (simp add: refresh_from_book_def Let_def)
qed

definition sample_client :: book_client where
  "sample_client = \<lparr>bcl_id = 5, bcl_name = [], bcl_channel = 1, bcl_database_id = 9,
     bcl_channel_group = 0, bcl_server_groups = [7, 6], bcl_uid = None, bcl_away_message = None,
     bcl_input_muted = False, bcl_output_muted = False, bcl_client_type = NormalClient,
     bcl_talk_power = 0, bcl_talk_power_granted = False, bcl_is_priority_speaker = False,
     bcl_is_channel_commander = False, bcl_is_recording = False, bcl_input_hardware_enabled = True,
     bcl_output_hardware_enabled = True, bcl_output_only_muted = False, bcl_phonetic_name = [],
     bcl_country_code = [], bcl_metadata = [], bcl_avatar_hash = []\<rparr>"

definition sample_book :: book where
  "sample_book = \<lparr>book_server = \<lparr>bs_name = [], bs_uid = [], bs_codec_encryption_mode = [],
     bs_welcome_message = [], bs_hostmessage = [], bs_hostmessage_mode = HostNone, bs_max_clients = 32,
     bs_needed_identity_level = None\<rparr>, book_own_client = 5, book_clients = [sample_client],
     book_channels = [], book_server_groups = [6 \<mapsto> ([97], 60), 7 \<mapsto> ([98], 70)],
     book_channel_groups = Map.empty\<rparr>"

theorem roster_groups_aligned_witness:
  "zip (cl_server_group_names (client_of_book (\<lambda>x. x) 0 1 sample_book [] [] Map.empty (engine_new 2) sample_client))
     (cl_server_group_icon_ids (client_of_book (\<lambda>x. x) 0 1 sample_book [] [] Map.empty (engine_new 2) sample_client))
   = [([97], 60), ([98], 70)]"
  by (subst roster_groups_aligned(2) [OF _ refl])
    (simp_all add: sample_book_def sample_client_def client_groups_def map_filter_simps)

end
