(* ===== verification/Lifecycle.thy ===== *)
theory Lifecycle
  imports Roster
begin

text \<open>
  The life of a session in \<open>native/src/api.rs\<close>: \<open>ts_connect\<close> and the task it starts (\<open>do_connect\<close> and
  its error handling), cancelling, the orderly and the forced end (\<open>finalize_disconnect\<close>,
  \<open>ts_disconnect\<close>, the Android entry points), and the audio clean-up of \<open>native/src/lib.rs\<close>.

  What the library and the device do during one connection attempt is a record \<open>connect_env\<close>: the
  result of opening the connection, the items of its event stream up to the book, how the wait
  ended, the book, the identity the library ended up with, the text of its errors, and whether an
  output stream could be started. The items after the connection is established are the business of
  the event loop.
\<close>

section \<open>Diagnostics\<close>

fun decimal :: "nat \<Rightarrow> rstr" where
  "decimal n = (if n < 10 then [48 + int n] else decimal (n div 10) @ [48 + int (n mod 10)])"

declare decimal.simps [simp del]

definition push_diag :: "connection_id \<Rightarrow> rstr \<Rightarrow> engine \<Rightarrow> engine" where
  "push_diag cid msg e = push_event cid
     (EvDiag (str ''#'' @ decimal (unat (DIAG_SEQ e)) @ str '' '' @ msg)) (e\<lparr>DIAG_SEQ := DIAG_SEQ e + 1\<rparr>)"

section \<open>Audio clean-up\<close>

definition refresh_active_client_snapshot :: "engine \<Rightarrow> engine" where
  "refresh_active_client_snapshot e = e\<lparr>ACTIVE_CLIENT_IDS := tkeys (CLIENT_BUFFERS e)\<rparr>"

text \<open>The body of the loop over the keys. The frames of a removed buffer go back to its own pool, which
  is dropped with it.\<close>

definition remove_client_audio :: "audio_key \<Rightarrow> engine \<Rightarrow> engine" where
  "remove_client_audio key e = e\<lparr>CLIENT_BUFFERS := tdel key (CLIENT_BUFFERS e),
     AUDIO_DECODERS := tdel key (AUDIO_DECODERS e),
     AUDIO_DECODERS_STEREO := tdel key (AUDIO_DECODERS_STEREO e)\<rparr>"

definition drop_session_audio :: "connection_id \<Rightarrow> engine \<Rightarrow> engine" where
  "drop_session_audio cid e =
     (let keys = filter (\<lambda>k. fst k = cid) (tkeys (CLIENT_BUFFERS e)) in
       refresh_active_client_snapshot (fold remove_client_audio keys e))"

definition ensure_output_stream_running :: "bool \<Rightarrow> engine \<Rightarrow> engine" where
  "ensure_output_stream_running output_ok e =
     (if AUDIO_STREAM e then e else e\<lparr>AUDIO_STREAM := output_ok\<rparr>)"

definition restart_output_stream :: "bool \<Rightarrow> engine \<Rightarrow> engine" where
  "restart_output_stream output_ok e = e\<lparr>CLIENT_BUFFERS := [], AUDIO_DECODERS := [],
     AUDIO_DECODERS_STEREO := [], PLAYED_SAMPLES := 0, ACTIVE_CLIENT_IDS := [], AUDIO_STREAM := output_ok\<rparr>"

section \<open>The end of a session\<close>

definition finalize_disconnect :: "connection_id \<Rightarrow> rstr \<Rightarrow> bool \<Rightarrow> engine \<Rightarrow> engine" where
  "finalize_disconnect cid reason expected e =
     (let e = upd_state cid (\<lambda>st. st\<lparr>connected := False, disconnect_requested := False\<rparr>) e;
          e = push_event cid (EvDisconnected reason expected) e;
          e = upd_session cid (\<lambda>s. s\<lparr>command_tx := False, event_loop_alive := False\<rparr>) e;
          e = drop_session_audio cid e;
          e = (if any_session_listening e then e else e\<lparr>AUDIO_STREAM := False\<rparr>)
      in e\<lparr>SESSIONS := tdel cid (SESSIONS e)\<rparr>)"

text \<open>\<open>tx.take()\<close> and \<open>tx.send(Command::Disconnect)\<close>.\<close>

definition send_disconnect :: "connection_id \<Rightarrow> engine \<Rightarrow> engine" where
  "send_disconnect cid e = upd_session cid (\<lambda>s. s\<lparr>command_tx := False\<rparr>) (fst (queue_command cid Disconnect e))"

definition ts_disconnect :: "connection_id \<Rightarrow> engine \<Rightarrow> engine" where
  "ts_disconnect cid e =
     (let alive = (case tget (SESSIONS e) cid of None \<Rightarrow> False | Some s \<Rightarrow> event_loop_alive s);
          e = push_diag cid (str ''ts_disconnect: event_loop_alive='' @
            (if alive then str ''true'' else str ''false'')) e
      in if alive then
           send_disconnect cid (upd_state cid (\<lambda>st. st\<lparr>disconnect_requested := True\<rparr>) e)
         else (case tget (SESSIONS e) cid of
             None \<Rightarrow> e
           | Some s \<Rightarrow> if connection s then
               (let e = send_to cid OutDisconnect (upd_session cid (\<lambda>s. s\<lparr>connection := False\<rparr>) e);
                    e = upd_state cid (\<lambda>st. st\<lparr>connected := False, disconnect_requested := False\<rparr>) e;
                    e = drop_session_audio cid e
                in e\<lparr>SESSIONS := tdel cid (SESSIONS e)\<rparr>)
             else e))"

definition jni_disconnect_one :: "connection_id \<Rightarrow> engine \<Rightarrow> engine" where
  "jni_disconnect_one cid e =
     (let e = upd_state cid (\<lambda>st. st\<lparr>disconnect_requested := True\<rparr>) e;
          e = send_disconnect cid e
      in (case tget (SESSIONS e) cid of
            None \<Rightarrow> e
          | Some s \<Rightarrow> if connection s
              then send_to cid OutDisconnect (upd_session cid (\<lambda>s. s\<lparr>connection := False\<rparr>) e)
              else e))"

definition jni_ts_disconnect :: "engine \<Rightarrow> engine" where
  "jni_ts_disconnect e = fold jni_disconnect_one (tkeys (SESSIONS e)) e"

definition ts_restart_audio_output :: "engine \<Rightarrow> engine" where
  "ts_restart_audio_output e =
     (if any_session_listening e then e\<lparr>OUTPUT_RESTART_REQUESTED := True\<rparr> else e)"

section \<open>Connecting\<close>

definition host_of_address :: "rstr \<Rightarrow> rstr" where
  "host_of_address address =
     (let host = (case rsplit_once 58 address of None \<Rightarrow> address | Some (host, _) \<Rightarrow> host)
      in trim_matches (\<lambda>c. c = 91 \<or> c = 93) host)"

record connect_args =
  ca_address :: rstr
  ca_nickname :: rstr
  ca_channel :: c_str
  ca_password :: c_str
  ca_channel_password :: c_str

text \<open>\<open>ts_connect\<close> registers the session and starts the connection task; the second component is the
  new identifier.\<close>

definition ts_connect :: "instant \<Rightarrow> connect_args \<Rightarrow> engine \<Rightarrow> engine \<times> connection_id" where
  "ts_connect now args e =
     (let cid = NEXT_CONNECTION_ID e;
          e = e\<lparr>NEXT_CONNECTION_ID := cid + 1\<rparr>;
          st = ts_connection_new\<lparr>connecting := True, nickname := ca_nickname args,
            whisper_allow_mode := 0, whisper_ignored_count := 0\<rparr>;
          s = (session_new now cid st)\<lparr>server_host := host_of_address (ca_address args)\<rparr>;
          e = e\<lparr>SESSIONS := tput cid s (SESSIONS e)\<rparr>;
          e = upd_session cid (\<lambda>s. s\<lparr>connect_task := True\<rparr>) e
      in (e, cid))"

definition ts_cancel_connect :: "connection_id \<Rightarrow> engine \<Rightarrow> engine \<times> bool" where
  "ts_cancel_connect cid e =
     (let aborted = (case tget (SESSIONS e) cid of None \<Rightarrow> False | Some s \<Rightarrow> connect_task s);
          e = upd_session cid (\<lambda>s. s\<lparr>connect_task := False\<rparr>) e;
          was_connecting = (case session cid e of None \<Rightarrow> False | Some st \<Rightarrow> connecting st);
          e = upd_state cid (\<lambda>st. st\<lparr>connecting := False\<rparr>) e
      in if \<not> aborted \<and> \<not> was_connecting then (e, False)
         else (push_event cid (into_event \<lparr>cf_kind = str ''cancelled'', cf_phase = Connecting,
           cf_message = str ''Connection attempt cancelled'', cf_retryable = False\<rparr>) e, True))"

record connect_options =
  co_address :: rstr
  co_name :: rstr
  co_identity :: "rstr option"
  co_channel :: c_str
  co_password :: c_str
  co_channel_password :: c_str

datatype 'e handshake_item = HsBookEvents | HsIdentityLevelIncreasing u8 | HsOther | HsError "'e client_error"

datatype handshake_end = StreamEnds | TimesOut | IsAborted

datatype 'e handshake_outcome = HsOk | HsEnded | HsTimedOut | HsAborted | HsFailed connect_failure

record 'e connect_env =
  ce_now :: instant
  ce_identity_parses :: "rstr \<Rightarrow> bool"
  ce_connect :: "connect_options \<Rightarrow> 'e client_error option"
  ce_items :: "'e handshake_item list"
  ce_end :: handshake_end
  ce_book :: "'e client_error + book"
  ce_identity :: "rstr option"
  ce_error_text :: "'e client_error \<Rightarrow> rstr"
  ce_log10 :: "f32 \<Rightarrow> f32"
  ce_output_ok :: bool

definition push_phase :: "connection_id \<Rightarrow> connect_phase \<Rightarrow> engine \<Rightarrow> engine" where
  "push_phase cid p = push_event cid (EvConnectionPhase (phase_str p))"

definition failure_of :: "('e client_error \<Rightarrow> rstr) \<Rightarrow> connect_phase \<Rightarrow> 'e client_error \<Rightarrow> connect_failure" where
  "failure_of render phase err = (case classify_connect_error err of (kind, retryable) \<Rightarrow>
     \<lparr>cf_kind = kind, cf_phase = phase, cf_message = render err, cf_retryable = retryable\<rparr>)"

text \<open>The wait for the book; \<open>announced\<close> is \<open>announced_auth\<close>.\<close>

fun handshake :: "('e client_error \<Rightarrow> rstr) \<Rightarrow> connection_id \<Rightarrow> bool \<Rightarrow> 'e handshake_item list \<Rightarrow>
    handshake_end \<Rightarrow> engine \<Rightarrow> engine \<times> 'e handshake_outcome" where
  "handshake render cid announced [] fin e =
     (e, case fin of StreamEnds \<Rightarrow> HsEnded | TimesOut \<Rightarrow> HsTimedOut | IsAborted \<Rightarrow> HsAborted)"
| "handshake render cid announced (HsBookEvents # items) fin e = (e, HsOk)"
| "handshake render cid announced (HsIdentityLevelIncreasing level # items) fin e =
     (let e = (if announced then e else push_phase cid Authenticating e);
          e = push_event cid (EvDiag (str ''Raising identity level to '' @ decimal (unat level))) e
      in handshake render cid True items fin e)"
| "handshake render cid announced (HsOther # items) fin e =
     handshake render cid True items fin (if announced then e else push_phase cid Authenticating e)"
| "handshake render cid announced (HsError err # items) fin e =
     (e, HsFailed (failure_of render Authenticating err))"

datatype connect_result = ConnectOk | ConnectErr connect_failure | ConnectPanic | ConnectAbort

definition options_of :: "(rstr \<Rightarrow> bool) \<Rightarrow> connect_args \<Rightarrow> rstr option \<Rightarrow> connect_options" where
  "options_of parses args stash = \<lparr>co_address = ca_address args, co_name = ca_nickname args,
     co_identity = Option.bind stash (\<lambda>j. if parses j then Some j else None),
     co_channel = ca_channel args, co_password = ca_password args,
     co_channel_password = ca_channel_password args\<rparr>"

fun host_message_mode_code :: "host_message_mode \<Rightarrow> u8" where
  "host_message_mode_code HostNone = 0"
| "host_message_mode_code HostLog = 1"
| "host_message_mode_code HostModal = 2"
| "host_message_mode_code HostModalquit = 3"

text \<open>The last part of \<open>do_connect\<close>, from the book on.\<close>

definition connect_established ::
  "'e connect_env \<Rightarrow> connection_id \<Rightarrow> book \<Rightarrow> engine \<Rightarrow> engine \<times> connect_result" where
  "connect_established env cid bk e = (case session cid e of
      None \<Rightarrow> (e, ConnectPanic)
    | Some st0 \<Rightarrow>
        let snapshot = refresh_from_book (ce_log10 env) (ce_now env) cid bk (talking_clients st0)
              (whispering_clients st0) (permission_hints st0) e;
            srv = book_server bk;
            oid = ucast (book_own_client bk);
            e = e\<lparr>cmd_rx := (cmd_rx e)(cid \<mapsto> [])\<rparr>;
            e = upd_session cid (\<lambda>s. s\<lparr>command_tx := True\<rparr>) e;
            e = upd_state cid (\<lambda>st. st\<lparr>connecting := False, connected := True,
              server_name := bs_name srv, server_uid := bs_uid srv, own_client_id := oid,
              channels := fst snapshot, clients := snd snapshot\<rparr>) e;
            e = push_event cid (EvConnected (bs_name srv) oid (bs_codec_encryption_mode srv) (bs_uid srv)
              (bs_welcome_message srv) (bs_hostmessage srv)
              (host_message_mode_code (bs_hostmessage_mode srv)) (ucast (bs_max_clients srv))
              (unwrap_or (map_option ucast (bs_needed_identity_level srv)) 0)) e;
            e = (case ce_identity env of None \<Rightarrow> e | Some json \<Rightarrow> e\<lparr>IDENTITY_STASH := Some json\<rparr>);
            e = upd_session cid (\<lambda>s. s\<lparr>connection := True\<rparr>) e;
            e = e\<lparr>MAINTENANCE_STARTED := True\<rparr>
        in (ensure_output_stream_running (ce_output_ok env) e, ConnectOk))"

definition do_connect ::
  "'e connect_env \<Rightarrow> connection_id \<Rightarrow> connect_args \<Rightarrow> engine \<Rightarrow> engine \<times> connect_result" where
  "do_connect env cid args e =
     (let e = push_phase cid Resolving e;
          opts = options_of (ce_identity_parses env) args (IDENTITY_STASH e);
          e = e\<lparr>IDENTITY_STASH := None\<rparr>
      in (case ce_connect env opts of
            Some err \<Rightarrow> (e, ConnectErr (failure_of (ce_error_text env) Resolving err))
          | None \<Rightarrow>
              (case handshake (ce_error_text env) cid False (ce_items env) (ce_end env)
                  (push_phase cid Connecting e) of
                 (e, HsAborted) \<Rightarrow> (e, ConnectAbort)
               | (e, HsTimedOut) \<Rightarrow> (e, ConnectErr \<lparr>cf_kind = str ''timeout'', cf_phase = Authenticating,
                   cf_message = str ''No answer from the server within 15s'', cf_retryable = True\<rparr>)
               | (e, HsFailed failure) \<Rightarrow> (e, ConnectErr failure)
               | (e, HsEnded) \<Rightarrow> (e, ConnectErr \<lparr>cf_kind = str ''network'', cf_phase = Authenticating,
                   cf_message = str ''The server closed the connection during the handshake'',
                   cf_retryable = True\<rparr>)
               | (e, HsOk) \<Rightarrow>
                   (let e = send_to cid OutChannelSubscribeAll e in
                     (case ce_book env of
                        Inl err \<Rightarrow> (e, ConnectErr (failure_of (ce_error_text env) Authenticating err))
                      | Inr bk \<Rightarrow> connect_established env cid bk e)))))"

text \<open>The task \<open>ts_connect\<close> spawns. An aborted or panicked task runs nothing after that point.\<close>

definition run_connect_task ::
  "'e connect_env \<Rightarrow> connection_id \<Rightarrow> connect_args \<Rightarrow> engine \<Rightarrow> engine" where
  "run_connect_task env cid args e = (case do_connect env cid args e of
      (e, ConnectAbort) \<Rightarrow> e
    | (e, ConnectPanic) \<Rightarrow> e
    | (e, ConnectOk) \<Rightarrow> upd_session cid (\<lambda>s. s\<lparr>connect_task := False\<rparr>) e
    | (e, ConnectErr failure) \<Rightarrow>
        let e = upd_state cid (\<lambda>st. st\<lparr>connecting := False\<rparr>) e;
            e = push_event cid (into_event failure) e
        in upd_session cid (\<lambda>s. s\<lparr>connect_task := False\<rparr>) e)"

text \<open>The start of the event loop's task: it takes the connection out of the stash.\<close>

definition start_event_loop :: "connection_id \<Rightarrow> engine \<Rightarrow> engine \<times> bool" where
  "start_event_loop cid e = (case tget (SESSIONS e) cid of
      None \<Rightarrow> (e, False)
    | Some s \<Rightarrow> if connection s
        then (upd_session cid (\<lambda>s. s\<lparr>connection := False, event_loop_alive := True\<rparr>) e, True)
        else (e, False))"

section \<open>Audio clean-up\<close>

lemma remove_client_audio_frame [simp]:
  "SESSIONS (remove_client_audio k e) = SESSIONS e"
  "EVENT_QUEUE (remove_client_audio k e) = EVENT_QUEUE e"
  "AUDIO_STREAM (remove_client_audio k e) = AUDIO_STREAM e"
  "NEXT_CONNECTION_ID (remove_client_audio k e) = NEXT_CONNECTION_ID e"
  "cmd_rx (remove_client_audio k e) = cmd_rx e"
  by (simp_all add: remove_client_audio_def)

lemma fold_remove_client_audio [simp]:
  "SESSIONS (fold remove_client_audio ks e) = SESSIONS e"
  "EVENT_QUEUE (fold remove_client_audio ks e) = EVENT_QUEUE e"
  "AUDIO_STREAM (fold remove_client_audio ks e) = AUDIO_STREAM e"
  "NEXT_CONNECTION_ID (fold remove_client_audio ks e) = NEXT_CONNECTION_ID e"
  "cmd_rx (fold remove_client_audio ks e) = cmd_rx e"
  by (induction ks arbitrary: e) simp_all

lemma fold_remove_buffers:
  "tget (CLIENT_BUFFERS (fold remove_client_audio ks e)) k
    = (if k \<in> set ks then None else tget (CLIENT_BUFFERS e) k)"
  by (induction ks arbitrary: e) (auto simp: remove_client_audio_def)

lemma fold_remove_decoders:
  "tget (AUDIO_DECODERS (fold remove_client_audio ks e)) k
    = (if k \<in> set ks then None else tget (AUDIO_DECODERS e) k)"
  by (induction ks arbitrary: e) (auto simp: remove_client_audio_def)

lemma drop_session_audio_frame [simp]:
  "SESSIONS (drop_session_audio cid e) = SESSIONS e"
  "EVENT_QUEUE (drop_session_audio cid e) = EVENT_QUEUE e"
  "AUDIO_STREAM (drop_session_audio cid e) = AUDIO_STREAM e"
  "NEXT_CONNECTION_ID (drop_session_audio cid e) = NEXT_CONNECTION_ID e"
  "cmd_rx (drop_session_audio cid e) = cmd_rx e"
  by (simp_all add: drop_session_audio_def Let_def refresh_active_client_snapshot_def)

lemma drop_session_buffers:
  "tget (CLIENT_BUFFERS (drop_session_audio cid e)) k
    = (if fst k = cid then None else tget (CLIENT_BUFFERS e) k)"
proof -
  have "tget (CLIENT_BUFFERS e) k = None" if "k \<notin> set (tkeys (CLIENT_BUFFERS e))"
    using that set_tkeys [of k "CLIENT_BUFFERS e"] by blast
  then show ?thesis
    by (auto simp: drop_session_audio_def Let_def refresh_active_client_snapshot_def
      fold_remove_buffers simp del: set_map)
qed

lemma drop_session_snapshot:
  "set (ACTIVE_CLIENT_IDS (drop_session_audio cid e)) = {k. fst k \<noteq> cid \<and> tget (CLIENT_BUFFERS e) k \<noteq> None}"
proof -
  have "ACTIVE_CLIENT_IDS (drop_session_audio cid e) = tkeys (CLIENT_BUFFERS (drop_session_audio cid e))"
    by (simp add: drop_session_audio_def Let_def refresh_active_client_snapshot_def)
  then show ?thesis by (auto simp: set_tkeys drop_session_buffers simp del: set_map split: if_splits)
qed

lemma drop_session_decoders:
  "tget (AUDIO_DECODERS (drop_session_audio cid e)) k
    = (if fst k = cid \<and> tget (CLIENT_BUFFERS e) k \<noteq> None then None else tget (AUDIO_DECODERS e) k)"
proof -
  have "tget (AUDIO_DECODERS (drop_session_audio cid e)) k
      = (if k \<in> {k \<in> set (tkeys (CLIENT_BUFFERS e)). fst k = cid} then None else tget (AUDIO_DECODERS e) k)"
    by (simp add: drop_session_audio_def Let_def refresh_active_client_snapshot_def
      fold_remove_decoders del: set_map)
  then show ?thesis by (simp only: set_tkeys mem_Collect_eq conj_commute)
qed

lemma any_session_listening_iff:
  assumes "distinct (tkeys (SESSIONS e))"
  shows "any_session_listening e \<longleftrightarrow> (\<exists>j s. tget (SESSIONS e) j = Some s \<and> connected (sess_state s))"
  using assms by (auto simp: any_session_listening_def list_ex_iff)

lemma distinct_SESSIONS_upd [simp]:
  "distinct (tkeys (SESSIONS e)) \<Longrightarrow> distinct (tkeys (SESSIONS (upd_session cid f e)))"
  by (simp add: upd_session_def distinct_update split: option.split)

section \<open>The end of a session\<close>

lemma upd_session_frame [simp]:
  "AUDIO_STREAM (upd_session cid f e) = AUDIO_STREAM e"
  "CLIENT_BUFFERS (upd_session cid f e) = CLIENT_BUFFERS e"
  "AUDIO_DECODERS (upd_session cid f e) = AUDIO_DECODERS e"
  "NEXT_CONNECTION_ID (upd_session cid f e) = NEXT_CONNECTION_ID e"
  "IDENTITY_STASH (upd_session cid f e) = IDENTITY_STASH e"
  "PANIC_LOG (upd_session cid f e) = PANIC_LOG e"
  "cmd_rx (upd_session cid f e) = cmd_rx e"
  by (simp_all add: upd_session_def split: option.split)

lemma push_event_frame [simp]:
  "AUDIO_STREAM (push_event cid ev e) = AUDIO_STREAM e"
  "CLIENT_BUFFERS (push_event cid ev e) = CLIENT_BUFFERS e"
  "AUDIO_DECODERS (push_event cid ev e) = AUDIO_DECODERS e"
  "NEXT_CONNECTION_ID (push_event cid ev e) = NEXT_CONNECTION_ID e"
  "IDENTITY_STASH (push_event cid ev e) = IDENTITY_STASH e"
  "cmd_rx (push_event cid ev e) = cmd_rx e"
  by (simp_all add: push_event_def)

lemma finalize_disconnect_spec_facts:
  assumes "distinct (tkeys (SESSIONS e))" "e' = finalize_disconnect cid reason expected e"
  shows "tget (SESSIONS e') j = (if j = cid then None else tget (SESSIONS e) j)"
    and "EVENT_QUEUE e' = EVENT_QUEUE e @ [\<lparr>ev_connection_id = cid, ev_event = EvDisconnected reason expected\<rparr>]"
    and "tget (CLIENT_BUFFERS e') k = (if fst k = cid then None else tget (CLIENT_BUFFERS e) k)"
    and "set (ACTIVE_CLIENT_IDS e') = {k. fst k \<noteq> cid \<and> tget (CLIENT_BUFFERS e) k \<noteq> None}"
    and "AUDIO_STREAM e' = (AUDIO_STREAM e \<and>
      (\<exists>j s. j \<noteq> cid \<and> tget (SESSIONS e) j = Some s \<and> connected (sess_state s)))"
proof -
  define e1 where "e1 = upd_session cid (\<lambda>s. s\<lparr>command_tx := False, event_loop_alive := False\<rparr>)
    (push_event cid (EvDisconnected reason expected)
      (upd_state cid (\<lambda>st. st\<lparr>connected := False, disconnect_requested := False\<rparr>) e))"
  have d: "distinct (tkeys (SESSIONS e1))" by (simp add: e1_def upd_state_def assms(1))
  have s1: "tget (SESSIONS e1) i = (if i = cid
      then map_option (\<lambda>s. s\<lparr>sess_state := (sess_state s)\<lparr>connected := False, disconnect_requested := False\<rparr>,
        command_tx := False, event_loop_alive := False\<rparr>) (tget (SESSIONS e) cid)
      else tget (SESSIONS e) i)" for i
    by (simp add: e1_def upd_state_def option.map_comp comp_def)
  have e': "e' = (let e = drop_session_audio cid e1;
        e = (if any_session_listening e then e else e\<lparr>AUDIO_STREAM := False\<rparr>)
      in e\<lparr>SESSIONS := tdel cid (SESSIONS e)\<rparr>)"
    by (simp add: assms(2) finalize_disconnect_def e1_def Let_def)
  have bufs: "CLIENT_BUFFERS e1 = CLIENT_BUFFERS e" by (simp add: e1_def upd_state_def)
  show "tget (SESSIONS e') j = (if j = cid then None else tget (SESSIONS e) j)"
    by (simp add: e' Let_def s1)
  show "EVENT_QUEUE e' = EVENT_QUEUE e @ [\<lparr>ev_connection_id = cid, ev_event = EvDisconnected reason expected\<rparr>]"
    by (simp add: e' Let_def e1_def)
  show "tget (CLIENT_BUFFERS e') k = (if fst k = cid then None else tget (CLIENT_BUFFERS e) k)"
    by (simp add: e' Let_def drop_session_buffers bufs)
  show "set (ACTIVE_CLIENT_IDS e') = {k. fst k \<noteq> cid \<and> tget (CLIENT_BUFFERS e) k \<noteq> None}"
    by (simp add: e' Let_def drop_session_snapshot bufs)
  have "any_session_listening (drop_session_audio cid e1) \<longleftrightarrow>
      (\<exists>j s. j \<noteq> cid \<and> tget (SESSIONS e) j = Some s \<and> connected (sess_state s))"
    using d by (subst any_session_listening_iff) (auto simp: s1 split: if_splits)
  moreover have "AUDIO_STREAM e1 = AUDIO_STREAM e" by (simp add: e1_def upd_state_def)
  ultimately show "AUDIO_STREAM e' = (AUDIO_STREAM e \<and>
      (\<exists>j s. j \<noteq> cid \<and> tget (SESSIONS e) j = Some s \<and> connected (sess_state s)))"
    by (simp add: e' Let_def)
qed

text \<open>The end of a session: it leaves the table, one \<open>disconnected\<close> event is queued, its speakers
  leave the jitter buffers and the snapshot of the audio callback, the other sessions and their audio
  stay as they are, and the output stream stops exactly when no other session is connected.\<close>

theorem finalize_disconnect_spec:
  assumes "distinct (tkeys (SESSIONS e))" "e' = finalize_disconnect cid reason expected e"
  shows "(tget (SESSIONS e') j = (if j = cid then None else tget (SESSIONS e) j))
    \<and> (EVENT_QUEUE e' = EVENT_QUEUE e @ [\<lparr>ev_connection_id = cid, ev_event = EvDisconnected reason expected\<rparr>])
    \<and> (tget (CLIENT_BUFFERS e') k = (if fst k = cid then None else tget (CLIENT_BUFFERS e) k))
    \<and> (set (ACTIVE_CLIENT_IDS e') = {k. fst k \<noteq> cid \<and> tget (CLIENT_BUFFERS e) k \<noteq> None})
    \<and> (AUDIO_STREAM e' = (AUDIO_STREAM e \<and>
      (\<exists>j s. j \<noteq> cid \<and> tget (SESSIONS e) j = Some s \<and> connected (sess_state s))))"
  by (intro conjI impI finalize_disconnect_spec_facts [OF assms])

theorem finalize_disconnect_spec_witness:
  "tget (SESSIONS (finalize_disconnect 1 [] True sample_engine)) 1 = None"
  by (subst finalize_disconnect_spec [OF _ refl, THEN conjunct1]) (simp_all add: sample_engine_def)

text \<open>A speaker whose packets never decoded has a decoder but no jitter buffer; the clean-up goes
  by the buffers, so this decoder outlives its session.\<close>

theorem finalize_keeps_unbuffered_decoders:
  assumes "tget (CLIENT_BUFFERS e) k = None"
  shows "tget (AUDIO_DECODERS (finalize_disconnect cid reason expected e)) k = tget (AUDIO_DECODERS e) k"
  using assms by (simp add: finalize_disconnect_def Let_def drop_session_decoders upd_state_def)

theorem finalize_keeps_unbuffered_decoders_witness:
  "tget (AUDIO_DECODERS (finalize_disconnect 1 [] True (sample_engine\<lparr>AUDIO_DECODERS := [((1, 5), [])]\<rparr>))) (1, 5)
    = Some []"
  by (subst finalize_keeps_unbuffered_decoders) (simp_all add: sample_engine_def engine_new_def)

section \<open>The connection task\<close>

lemma push_phase_frame [simp]:
  "SESSIONS (push_phase cid p e) = SESSIONS e"
  "IDENTITY_STASH (push_phase cid p e) = IDENTITY_STASH e"
  "EVENT_QUEUE (push_phase cid p e)
    = EVENT_QUEUE e @ [\<lparr>ev_connection_id = cid, ev_event = EvConnectionPhase (phase_str p)\<rparr>]"
  by (simp_all add: push_phase_def)

lemma send_to_frame [simp]:
  "IDENTITY_STASH (send_to cid m e) = IDENTITY_STASH e"
  "AUDIO_STREAM (send_to cid m e) = AUDIO_STREAM e"
  "cmd_rx (send_to cid m e) = cmd_rx e"
  "session j (send_to cid m e) = session j e"
  by (simp_all add: send_to_def session_def)

text \<open>The phases a list of events announces.\<close>

definition phases :: "enveloped_event list \<Rightarrow> rstr list" where
  "phases es = List.map_filter (\<lambda>ev. case ev_event ev of EvConnectionPhase p \<Rightarrow> Some p | _ \<Rightarrow> None) es"

lemma phases_append [simp]: "phases (xs @ ys) = phases xs @ phases ys"
  by (induction xs) (simp_all add: phases_def map_filter_simps split: option.split)

lemma phases_simps [simp]:
  "phases [] = []"
  "phases (\<lparr>ev_connection_id = cid, ev_event = EvConnectionPhase p\<rparr> # es) = p # phases es"
  "phases (\<lparr>ev_connection_id = cid, ev_event = EvDiag d\<rparr> # es) = phases es"
  "phases (\<lparr>ev_connection_id = cid, ev_event = EvConnected a b c d' e f g h i\<rparr> # es) = phases es"
  "phases (\<lparr>ev_connection_id = cid, ev_event = into_event failure\<rparr> # es) = phases es"
  by (simp_all add: phases_def map_filter_simps into_event_def)

text \<open>Events that end an attempt.\<close>

definition terminal :: "enveloped_event \<Rightarrow> bool" where
  "terminal ev \<longleftrightarrow> (case ev_event ev of EvConnected _ _ _ _ _ _ _ _ _ \<Rightarrow> True
     | EvConnectFailed _ _ _ _ \<Rightarrow> True | _ \<Rightarrow> False)"

lemma terminal_simps [simp]:
  "\<not> terminal \<lparr>ev_connection_id = cid, ev_event = EvConnectionPhase p\<rparr>"
  "\<not> terminal \<lparr>ev_connection_id = cid, ev_event = EvDiag d\<rparr>"
  "terminal \<lparr>ev_connection_id = cid, ev_event = EvConnected a b c d' e f g h i\<rparr>"
  "terminal \<lparr>ev_connection_id = cid, ev_event = into_event failure\<rparr>"
  by (simp_all add: terminal_def into_event_def)

text \<open>The wait for the book announces authentication at most once and touches nothing but the queue.\<close>

lemma handshake_events:
  "\<exists>new. fst (handshake render cid announced items fin e) = e\<lparr>EVENT_QUEUE := EVENT_QUEUE e @ new\<rparr>
     \<and> phases new \<in> (if announced then {[]} else {[], [phase_str Authenticating]})
     \<and> (\<forall>ev\<in>set new. ev_connection_id ev = cid \<and> \<not> terminal ev)"
proof (induction render cid announced items fin e rule: handshake.induct)
  case (3 render cid announced level items fin e)
  define diag where "diag = EvDiag (str ''Raising identity level to '' @ decimal (unat level))"
  obtain new where new: "fst (handshake render cid announced (HsIdentityLevelIncreasing level # items) fin e)
      = (push_event cid diag (if announced then e else push_phase cid Authenticating e))
          \<lparr>EVENT_QUEUE := EVENT_QUEUE (push_event cid diag (if announced then e else push_phase cid Authenticating e)) @ new\<rparr>"
    "phases new = []" "\<forall>ev\<in>set new. ev_connection_id ev = cid \<and> \<not> terminal ev"
    using "3.IH" [OF refl refl] by (auto simp: diag_def)
  let ?d = "\<lparr>ev_connection_id = cid, ev_event = diag\<rparr>"
  let ?a = "\<lparr>ev_connection_id = cid, ev_event = EvConnectionPhase (phase_str Authenticating)\<rparr>"
  show ?case
    using new
    by (intro exI [of _ "(if announced then [] else [?a]) @ ?d # new"])
      (auto simp: push_event_def push_phase_def diag_def)
next
  case (4 render cid announced items fin e)
  let ?a = "\<lparr>ev_connection_id = cid, ev_event = EvConnectionPhase (phase_str Authenticating)\<rparr>"
  obtain new where new: "fst (handshake render cid announced (HsOther # items) fin e)
      = (if announced then e else push_phase cid Authenticating e)
          \<lparr>EVENT_QUEUE := EVENT_QUEUE (if announced then e else push_phase cid Authenticating e) @ new\<rparr>"
    "phases new = []" "\<forall>ev\<in>set new. ev_connection_id ev = cid \<and> \<not> terminal ev"
    using "4.IH" by auto
  show ?case
    using new
    by (intro exI [of _ "(if announced then [] else [?a]) @ new"])
      (auto simp: push_event_def push_phase_def)
qed (rule exI [of _ "[]"], simp)+

definition connect_phases :: "rstr list set" where
  "connect_phases = {[phase_str Resolving], [phase_str Resolving, phase_str Connecting],
     [phase_str Resolving, phase_str Connecting, phase_str Authenticating]}"

lemma connect_task_failed:
  assumes "do_connect env cid args e = (x, ConnectErr failure)" "session cid x = Some st"
  shows "EVENT_QUEUE (run_connect_task env cid args e)
      = EVENT_QUEUE x @ [\<lparr>ev_connection_id = cid, ev_event = into_event failure\<rparr>]"
    and "session cid (run_connect_task env cid args e) = Some (st\<lparr>connecting := False\<rparr>)"
  using assms by (simp_all add: run_connect_task_def Let_def)

lemma ensure_output_stream_running_frame [simp]:
  "SESSIONS (ensure_output_stream_running ok e) = SESSIONS e"
  "EVENT_QUEUE (ensure_output_stream_running ok e) = EVENT_QUEUE e"
  "IDENTITY_STASH (ensure_output_stream_running ok e) = IDENTITY_STASH e"
  "cmd_rx (ensure_output_stream_running ok e) = cmd_rx e"
  "NEXT_CONNECTION_ID (ensure_output_stream_running ok e) = NEXT_CONNECTION_ID e"
  by (simp_all add: ensure_output_stream_running_def)

lemma session_cong: "SESSIONS a = SESSIONS b \<Longrightarrow> session j a = session j b"
  by (simp add: session_def)

lemma connect_established_result:
  assumes "session cid e = Some st"
  shows "\<exists>x st' ev. connect_established env cid bk e = (x, ConnectOk)
    \<and> session cid x = Some st' \<and> connected st' \<and> \<not> connecting st' \<and> cmd_rx x cid = Some []
    \<and> EVENT_QUEUE x = EVENT_QUEUE e @ [ev] \<and> terminal ev \<and> ev_connection_id ev = cid \<and> phases [ev] = []"
proof -
  define f where "f st0 = refresh_from_book (ce_log10 env) (ce_now env) cid bk (talking_clients st0)
    (whispering_clients st0) (permission_hints st0) e" for st0 :: ts_connection
  let ?srv = "book_server bk"
  let ?ev = "EvConnected (bs_name ?srv) (ucast (book_own_client bk)) (bs_codec_encryption_mode ?srv)
    (bs_uid ?srv) (bs_welcome_message ?srv) (bs_hostmessage ?srv)
    (host_message_mode_code (bs_hostmessage_mode ?srv)) (ucast (bs_max_clients ?srv))
    (unwrap_or (map_option ucast (bs_needed_identity_level ?srv)) 0)"
  let ?st = "st\<lparr>connecting := False, connected := True, server_name := bs_name ?srv,
    server_uid := bs_uid ?srv, own_client_id := ucast (book_own_client bk),
    channels := fst (f st), clients := snd (f st)\<rparr>"
  obtain s where s: "tget (SESSIONS e) cid = Some s" "sess_state s = st"
    using assms by (auto simp: session_def)
  define x where "x = fst (connect_established env cid bk e)"
  have r: "connect_established env cid bk e = (x, ConnectOk)"
    by (simp add: x_def connect_established_def assms Let_def)
  have "tget (SESSIONS x) cid = Some (s\<lparr>sess_state := ?st, command_tx := True, connection := True\<rparr>)"
    by (simp add: x_def connect_established_def assms Let_def f_def upd_state_def s option.case_distrib
      split: option.split)
  moreover have "cmd_rx x cid = Some []" "EVENT_QUEUE x = EVENT_QUEUE e @ [\<lparr>ev_connection_id = cid, ev_event = ?ev\<rparr>]"
    by (simp_all add: x_def connect_established_def assms Let_def upd_state_def split: option.split)
  ultimately show ?thesis
    using r by (intro exI [of _ x] exI [of _ ?st] exI [of _ "\<lparr>ev_connection_id = cid, ev_event = ?ev\<rparr>"])
      (simp add: session_def)
qed

text \<open>A connection attempt of a live session tells its whole story once: the phases it announces
  are resolving, connecting and authenticating, in this order and cut short only by the end of the
  attempt; unless it is aborted it ends with exactly one verdict, which is its last event. After a
  failure the session is no longer connecting, after a success it is connected with an empty command
  queue.\<close>

theorem connect_task_reports_once:
  assumes "session cid e = Some st"
  shows "\<exists>new st'. EVENT_QUEUE (run_connect_task env cid args e) = EVENT_QUEUE e @ new
    \<and> (\<forall>ev\<in>set new. ev_connection_id ev = cid) \<and> phases new \<in> connect_phases
    \<and> session cid (run_connect_task env cid args e) = Some st'
    \<and> (case snd (do_connect env cid args e) of
         ConnectAbort \<Rightarrow> st' = st \<and> filter terminal new = []
       | ConnectErr failure \<Rightarrow> st' = st\<lparr>connecting := False\<rparr>
           \<and> filter terminal new = [last new] \<and> ev_event (last new) = into_event failure
       | ConnectOk \<Rightarrow> connected st' \<and> \<not> connecting st' \<and> filter terminal new = [last new]
           \<and> cmd_rx (run_connect_task env cid args e) cid = Some []
       | ConnectPanic \<Rightarrow> False)"
proof -
  define e1 where "e1 = (push_phase cid Resolving e)\<lparr>IDENTITY_STASH := None\<rparr>"
  define opts where "opts = options_of (ce_identity_parses env) args (IDENTITY_STASH e)"
  define res where "res = handshake (ce_error_text env) cid False (ce_items env) (ce_end env)
    (push_phase cid Connecting e1)"
  obtain hs where hs: "fst res = (push_phase cid Connecting e1)\<lparr>EVENT_QUEUE :=
        EVENT_QUEUE (push_phase cid Connecting e1) @ hs\<rparr>"
      "phases hs \<in> {[], [phase_str Authenticating]}"
      "\<forall>ev\<in>set hs. ev_connection_id ev = cid \<and> \<not> terminal ev"
    using handshake_events [of "ce_error_text env" cid False "ce_items env" "ce_end env"
      "push_phase cid Connecting e1"] by (auto simp: res_def)
  have no_terminal: "filter terminal hs = []" using hs(3) by (simp add: filter_empty_conv)
  have s1: "session cid e1 = Some st" "EVENT_QUEUE e1 = EVENT_QUEUE e @
      [\<lparr>ev_connection_id = cid, ev_event = EvConnectionPhase (phase_str Resolving)\<rparr>]"
    using assms by (simp_all add: e1_def session_def)
  have s2: "session cid (fst res) = Some st"
    using s1(1) by (simp add: hs(1) session_def)
  have q2: "EVENT_QUEUE (fst res) = EVENT_QUEUE e @
      [\<lparr>ev_connection_id = cid, ev_event = EvConnectionPhase (phase_str Resolving)\<rparr>,
       \<lparr>ev_connection_id = cid, ev_event = EvConnectionPhase (phase_str Connecting)\<rparr>] @ hs"
    by (simp add: hs(1) s1)
  have ph: "phases hs = [] \<or> phases hs = [phase_str Authenticating]" using hs(2) by simp
  have run: "do_connect env cid args e = (case ce_connect env opts of
      Some err \<Rightarrow> (e1, ConnectErr (failure_of (ce_error_text env) Resolving err))
    | None \<Rightarrow> (case snd res of
          HsAborted \<Rightarrow> (fst res, ConnectAbort)
        | HsTimedOut \<Rightarrow> (fst res, ConnectErr \<lparr>cf_kind = str ''timeout'', cf_phase = Authenticating,
            cf_message = str ''No answer from the server within 15s'', cf_retryable = True\<rparr>)
        | HsFailed failure \<Rightarrow> (fst res, ConnectErr failure)
        | HsEnded \<Rightarrow> (fst res, ConnectErr \<lparr>cf_kind = str ''network'', cf_phase = Authenticating,
            cf_message = str ''The server closed the connection during the handshake'', cf_retryable = True\<rparr>)
        | HsOk \<Rightarrow> (case ce_book env of
              Inl err \<Rightarrow> (send_to cid OutChannelSubscribeAll (fst res),
                ConnectErr (failure_of (ce_error_text env) Authenticating err))
            | Inr bk \<Rightarrow> connect_established env cid bk (send_to cid OutChannelSubscribeAll (fst res)))))"
    by (simp add: do_connect_def Let_def e1_def [symmetric] opts_def [symmetric] res_def [symmetric]
      case_prod_beta split: option.split)
  consider (early) err where "ce_connect env opts = Some err"
    | (failed) failure x where "do_connect env cid args e = (x, ConnectErr failure)"
        "SESSIONS x = SESSIONS (fst res)" "EVENT_QUEUE x = EVENT_QUEUE (fst res)"
    | (aborted) "do_connect env cid args e = (fst res, ConnectAbort)"
    | (book) bk where "do_connect env cid args e
        = connect_established env cid bk (send_to cid OutChannelSubscribeAll (fst res))"
    using run by (cases "ce_connect env opts"; cases "snd res"; cases "ce_book env") auto
  then show ?thesis
  proof cases
    case early
    then have "do_connect env cid args e = (e1, ConnectErr (failure_of (ce_error_text env) Resolving err))"
      using run by simp
    from connect_task_failed [OF this s1(1)] this show ?thesis
      by (auto simp: s1 connect_phases_def)
  next
    case failed
    have "session cid x = Some st" using s2 failed(2) by (simp add: session_def)
    from connect_task_failed [OF failed(1) this] failed(1) show ?thesis
      using ph hs(3) by (auto simp: failed(3) q2 connect_phases_def no_terminal)
  next
    case aborted
    then show ?thesis
      using s2 ph hs(3) by (auto simp: run_connect_task_def q2 connect_phases_def no_terminal)
  next
    case book
    then show ?thesis
      using connect_established_result [of cid "send_to cid OutChannelSubscribeAll (fst res)" st env bk]
        s2 ph hs(3)
      by (auto simp: run_connect_task_def q2 connect_phases_def no_terminal case_prod_beta)
  qed
qed

definition dead_env :: "unit connect_env" where
  "dead_env = \<lparr>ce_now = 0, ce_identity_parses = (\<lambda>_. True), ce_connect = (\<lambda>_. Some ConnectionGone),
     ce_items = [], ce_end = StreamEnds, ce_book = Inl ConnectionGone, ce_identity = None,
     ce_error_text = (\<lambda>_. []), ce_log10 = (\<lambda>x. x), ce_output_ok = True\<rparr>"

definition sample_args :: connect_args where
  "sample_args = \<lparr>ca_address = str ''[::1]:9987'', ca_nickname = [], ca_channel = None,
     ca_password = None, ca_channel_password = None\<rparr>"

theorem connect_task_reports_once_witness:
  "\<exists>new st'. EVENT_QUEUE (run_connect_task dead_env 1 sample_args sample_engine) = EVENT_QUEUE sample_engine @ new
    \<and> filter terminal new = [last new] \<and> session 1 (run_connect_task dead_env 1 sample_args sample_engine) = Some st'
    \<and> \<not> connecting st'"
proof -
  have s: "session 1 sample_engine = Some ts_connection_new"
    by (simp add: sample_engine_def session_def session_new_def)
  have "snd (do_connect dead_env 1 sample_args sample_engine) = ConnectErr (failure_of (ce_error_text dead_env) Resolving ConnectionGone)"
    by (simp add: do_connect_def dead_env_def Let_def)
  with connect_task_reports_once [OF s, of dead_env sample_args] show ?thesis by fastforce
qed

section \<open>Identifiers\<close>

text \<open>Everything that can happen to the table of sessions.\<close>

datatype 'e life_event =
    LConnect instant connect_args
  | LTask "'e connect_env" connection_id connect_args
  | LCancel connection_id
  | LLoop connection_id
  | LFinalize connection_id rstr bool
  | LDisconnect connection_id
  | LJni
  | LRequest connection_id request
  | LPoll

fun life_step :: "'e life_event \<Rightarrow> engine \<Rightarrow> engine \<times> connection_id list" where
  "life_step (LConnect now args) e = (case ts_connect now args e of (e', cid) \<Rightarrow> (e', [cid]))"
| "life_step (LTask env cid args) e = (run_connect_task env cid args e, [])"
| "life_step (LCancel cid) e = (fst (ts_cancel_connect cid e), [])"
| "life_step (LLoop cid) e = (fst (start_event_loop cid e), [])"
| "life_step (LFinalize cid reason expected) e = (finalize_disconnect cid reason expected e, [])"
| "life_step (LDisconnect cid) e = (ts_disconnect cid e, [])"
| "life_step LJni e = (jni_ts_disconnect e, [])"
| "life_step (LRequest cid r) e = (fst (exec r cid e), [])"
| "life_step LPoll e = (fst (ts_poll_events e), [])"

fun life_run :: "'e life_event list \<Rightarrow> engine \<Rightarrow> engine \<times> connection_id list" where
  "life_run [] e = (e, [])"
| "life_run (ev # evs) e = (case life_step ev e of (e', ids) \<Rightarrow>
     (case life_run evs e' of (e'', ids') \<Rightarrow> (e'', ids @ ids')))"

fun is_connect :: "'e life_event \<Rightarrow> bool" where
  "is_connect (LConnect _ _) = True"
| "is_connect _ = False"

text \<open>No session appears, none changes its generation, and the counter stands still.\<close>

definition no_new_sessions :: "engine \<Rightarrow> engine \<Rightarrow> bool" where
  "no_new_sessions e e' \<longleftrightarrow> NEXT_CONNECTION_ID e' = NEXT_CONNECTION_ID e
     \<and> (\<forall>j s'. tget (SESSIONS e') j = Some s' \<longrightarrow> (\<exists>s. tget (SESSIONS e) j = Some s \<and> generation s' = generation s))"

lemma no_new_sessions_refl [simp]: "no_new_sessions e e"
  by (simp add: no_new_sessions_def)

lemma no_new_sessions_trans: "no_new_sessions a b \<Longrightarrow> no_new_sessions b c \<Longrightarrow> no_new_sessions a c"
  unfolding no_new_sessions_def by metis

lemma no_new_sessions_eq:
  "SESSIONS e' = SESSIONS e \<Longrightarrow> NEXT_CONNECTION_ID e' = NEXT_CONNECTION_ID e \<Longrightarrow> no_new_sessions e e'"
  by (simp add: no_new_sessions_def)

lemma no_new_sessions_upd:
  "(\<And>s. generation (f s) = generation s) \<Longrightarrow> no_new_sessions e (upd_session cid f e)"
  by (auto simp: no_new_sessions_def)

lemma no_new_sessions_upd_state: "no_new_sessions e (upd_state cid f e)"
  unfolding upd_state_def by (rule no_new_sessions_upd) simp

lemma no_new_sessions_push: "no_new_sessions e (push_event cid ev e)"
  by (simp add: no_new_sessions_def)

lemma no_new_sessions_send: "no_new_sessions e (send_to cid m e)"
  by (simp add: no_new_sessions_def send_to_def)

lemma no_new_sessions_audio: "no_new_sessions e (drop_session_audio cid e)"
  by (simp add: no_new_sessions_def)

lemma no_new_sessions_del: "no_new_sessions e (e\<lparr>SESSIONS := tdel cid (SESSIONS e)\<rparr>)"
  by (auto simp: no_new_sessions_def split: if_splits)

lemma no_new_sessions_queue: "no_new_sessions e (fst (queue_command cid c e))"
  using queue_command_cases [of cid c e] by (auto simp: no_new_sessions_def)

lemmas no_new_sessions_intros = no_new_sessions_refl no_new_sessions_upd no_new_sessions_upd_state
  no_new_sessions_push no_new_sessions_send no_new_sessions_audio no_new_sessions_del
  no_new_sessions_queue

text \<open>Threading an update through: \<open>e' = f e\<close> after \<open>e\<close>.\<close>

lemmas no_new_sessions_after = no_new_sessions_trans [OF _ no_new_sessions_upd]
  no_new_sessions_trans [OF _ no_new_sessions_upd_state]
  no_new_sessions_trans [OF _ no_new_sessions_push]
  no_new_sessions_trans [OF _ no_new_sessions_send]
  no_new_sessions_trans [OF _ no_new_sessions_audio]
  no_new_sessions_trans [OF _ no_new_sessions_del]
  no_new_sessions_trans [OF _ no_new_sessions_queue]

lemma no_new_sessions_static:
  "no_new_sessions a (e\<lparr>AUDIO_STREAM := b\<rparr>) = no_new_sessions a e"
  "no_new_sessions a (e\<lparr>DIAG_SEQ := d\<rparr>) = no_new_sessions a e"
  "no_new_sessions a (e\<lparr>IDENTITY_STASH := i\<rparr>) = no_new_sessions a e"
  "no_new_sessions a (e\<lparr>MAINTENANCE_STARTED := b\<rparr>) = no_new_sessions a e"
  "no_new_sessions a (e\<lparr>cmd_rx := m\<rparr>) = no_new_sessions a e"
  "no_new_sessions a (e\<lparr>EVENT_QUEUE := q\<rparr>) = no_new_sessions a e"
  "no_new_sessions a (e\<lparr>PANIC_LOG := p\<rparr>) = no_new_sessions a e"
  "no_new_sessions a (ensure_output_stream_running ok e) = no_new_sessions a e"
  by (simp_all add: no_new_sessions_def)

lemma no_new_sessions_finalize: "no_new_sessions e (finalize_disconnect cid reason expected e)"
  by (simp add: no_new_sessions_def finalize_disconnect_def Let_def upd_state_def)

lemma no_new_sessions_ops:
  "no_new_sessions e (fst (ts_cancel_connect cid e))"
  "no_new_sessions e (fst (start_event_loop cid e))"
  "no_new_sessions e (send_disconnect cid e)"
  "no_new_sessions e (fst (ts_poll_events e))"
  "no_new_sessions e (push_diag cid msg e)"
  "no_new_sessions e (push_phase cid p e)"
  by (auto simp: ts_cancel_connect_def start_event_loop_def send_disconnect_def
      ts_poll_events_def flush_panic_log_def push_global_event_def push_diag_def push_phase_def Let_def
      no_new_sessions_static split: option.split
      intro!: no_new_sessions_after no_new_sessions_refl)

lemma no_new_sessions_end:
  "no_new_sessions e (let e = send_to cid OutDisconnect (upd_session cid (\<lambda>s. s\<lparr>connection := False\<rparr>) e);
      e = upd_state cid (\<lambda>st. st\<lparr>connected := False, disconnect_requested := False\<rparr>) e;
      e = drop_session_audio cid e in e\<lparr>SESSIONS := tdel cid (SESSIONS e)\<rparr>)"
  by (simp add: no_new_sessions_def Let_def upd_state_def send_to_def)

lemma no_new_sessions_disconnect: "no_new_sessions e (ts_disconnect cid e)"
proof -
  define alive where "alive = (case tget (SESSIONS e) cid of None \<Rightarrow> False | Some s \<Rightarrow> event_loop_alive s)"
  define d where "d = push_diag cid (str ''ts_disconnect: event_loop_alive='' @
    (if alive then str ''true'' else str ''false'')) e"
  have eq: "ts_disconnect cid e = (if alive
      then send_disconnect cid (upd_state cid (\<lambda>st. st\<lparr>disconnect_requested := True\<rparr>) d)
      else (case tget (SESSIONS d) cid of
          None \<Rightarrow> d
        | Some s \<Rightarrow> if connection s then
            (let e = send_to cid OutDisconnect (upd_session cid (\<lambda>s. s\<lparr>connection := False\<rparr>) d);
                 e = upd_state cid (\<lambda>st. st\<lparr>connected := False, disconnect_requested := False\<rparr>) e;
                 e = drop_session_audio cid e
             in e\<lparr>SESSIONS := tdel cid (SESSIONS e)\<rparr>)
          else d))"
    unfolding ts_disconnect_def Let_def alive_def d_def ..
  have "no_new_sessions e d" unfolding d_def by (rule no_new_sessions_ops)
  moreover have "no_new_sessions d (ts_disconnect cid e)"
    unfolding eq
    using no_new_sessions_end [of d cid]
      no_new_sessions_trans [OF no_new_sessions_upd_state no_new_sessions_ops(3)]
    by (simp split: option.split)
  ultimately show ?thesis by (rule no_new_sessions_trans)
qed

lemma no_new_sessions_jni: "no_new_sessions e (jni_ts_disconnect e)"
proof -
  have one: "no_new_sessions e (jni_disconnect_one j e)" for j e
    by (auto simp: jni_disconnect_one_def Let_def split: option.split
      intro!: no_new_sessions_after no_new_sessions_trans [OF _ no_new_sessions_ops(3)] no_new_sessions_refl)
  have "no_new_sessions a (fold jni_disconnect_one ks e)" if "no_new_sessions a e" for ks a e
    using that by (induction ks arbitrary: e) (auto intro: no_new_sessions_trans [OF _ one])
  then show ?thesis by (simp add: jni_ts_disconnect_def)
qed

lemma no_new_sessions_handshake: "no_new_sessions e (fst (handshake render cid announced items fin e))"
  using handshake_events [of render cid announced items fin e] by (auto simp: no_new_sessions_static)

lemma no_new_sessions_established: "no_new_sessions e (fst (connect_established env cid bk e))"
  by (auto simp: connect_established_def Let_def no_new_sessions_static split: option.split
    intro!: no_new_sessions_after no_new_sessions_refl)

lemma no_new_sessions_connect: "no_new_sessions e (fst (do_connect env cid args e))"
proof -
  have p: "no_new_sessions e ((push_phase cid Resolving e)\<lparr>IDENTITY_STASH := None\<rparr>)"
    by (simp add: no_new_sessions_static no_new_sessions_ops)
  have h: "no_new_sessions e (fst (handshake (ce_error_text env) cid False (ce_items env) (ce_end env)
      (push_phase cid Connecting ((push_phase cid Resolving e)\<lparr>IDENTITY_STASH := None\<rparr>))))"
    by (intro no_new_sessions_trans [OF p] no_new_sessions_trans [OF no_new_sessions_ops(6)
      no_new_sessions_handshake])
  show ?thesis
    using p h
    by (auto simp: do_connect_def Let_def case_prod_beta
      split: option.split handshake_outcome.split sum.split
      intro: no_new_sessions_after no_new_sessions_trans [OF _ no_new_sessions_established])
qed

lemma no_new_sessions_task: "no_new_sessions e (run_connect_task env cid args e)"
  using no_new_sessions_connect [of e env cid args]
  by (auto simp: run_connect_task_def Let_def case_prod_beta split: connect_result.split
    intro!: no_new_sessions_after)

lemma no_new_sessions_exec: "no_new_sessions e (fst (exec r cid e))"
  using api.refused [of r cid e] api.accepted [of r cid e]
  by (cases "snd (exec r cid e)") (auto simp: no_new_sessions_static)

lemma no_new_sessions_step: "\<not> is_connect ev \<Longrightarrow> no_new_sessions e (fst (life_step ev e))"
  by (cases ev) (simp_all add: no_new_sessions_ops no_new_sessions_finalize no_new_sessions_disconnect
    no_new_sessions_jni no_new_sessions_task no_new_sessions_exec)

text \<open>After \<open>n\<close> connection attempts.\<close>

definition life_inv :: "nat \<Rightarrow> engine \<Rightarrow> bool" where
  "life_inv n e \<longleftrightarrow> unat (NEXT_CONNECTION_ID e) = n + 1
     \<and> (\<forall>j s. tget (SESSIONS e) j = Some s \<longrightarrow> generation s = j \<and> 0 < unat j \<and> unat j \<le> n)"

lemma life_inv_step: "life_inv n e \<Longrightarrow> no_new_sessions e e' \<Longrightarrow> life_inv n e'"
  unfolding life_inv_def no_new_sessions_def by metis

lemma life_inv_connect:
  assumes "life_inv n e" "n + 2 < 2 ^ 64"
  shows "life_inv (n + 1) (fst (ts_connect now args e)) \<and> snd (ts_connect now args e) = of_nat (n + 1)"
proof -
  let ?cid = "NEXT_CONNECTION_ID e"
  have c: "unat ?cid = n + 1" using assms(1) by (simp add: life_inv_def)
  then have "unat (?cid + 1) = n + 2"
    using assms(2) by (simp add: unat_word_ariths)
  moreover have "of_nat (unat ?cid) = ?cid" by simp
  then have "?cid = of_nat (n + 1)" unfolding c by (rule sym)
  ultimately show ?thesis
    using assms(1) c
    by (auto simp: ts_connect_def Let_def life_inv_def session_new_def le_SucI)
qed

lemma life_run_inv:
  assumes "life_inv n e" "n + length (filter is_connect evs) + 1 < 2 ^ 64"
  shows "life_inv (n + length (filter is_connect evs)) (fst (life_run evs e))
    \<and> snd (life_run evs e) = map of_nat [n + 1..<n + length (filter is_connect evs) + 1]"
  using assms
proof (induction evs arbitrary: n e)
  case (Cons ev evs)
  show ?case
  proof (cases "is_connect ev")
    case True
    then obtain now args where ev: "ev = LConnect now args" by (cases ev) simp_all
    have c: "life_inv (n + 1) (fst (ts_connect now args e))" "snd (ts_connect now args e) = of_nat (n + 1)"
      using life_inv_connect [OF Cons.prems(1)] Cons.prems(2) ev by simp_all
    have "[n + 1..<n + Suc (length (filter is_connect evs)) + 1]
        = (n + 1) # [n + 1 + 1..<n + 1 + length (filter is_connect evs) + 1]"
      by (subst upt_conv_Cons) simp_all
    then show ?thesis
      using Cons.IH [OF c(1)] Cons.prems(2) c(2) ev by (simp add: case_prod_beta)
  next
    case False
    then have "snd (life_step ev e) = []" by (cases ev) simp_all
    then show ?thesis
      using Cons.IH [OF life_inv_step [OF Cons.prems(1) no_new_sessions_step [OF False]]] Cons.prems(2) False
      by (simp add: case_prod_beta)
  qed
qed simp

lemma connection_ids_are_never_reused_facts:
  assumes "length (filter is_connect evs) + 1 < 2 ^ 64" "life_run evs (engine_new level) = (e, ids)"
  shows "ids = map of_nat [1..<length (filter is_connect evs) + 1]" "distinct ids" "0 \<notin> set ids"
    and "tget (SESSIONS e) j = Some s \<Longrightarrow> generation s = j \<and> j \<in> set ids"
proof -
  let ?n = "length (filter is_connect evs)"
  have inv: "life_inv ?n e" and ids: "ids = map of_nat [1..<?n + 1]"
    using life_run_inv [of 0 "engine_new level" evs] assms
    by (simp_all add: life_inv_def engine_new_def)
  show "ids = map of_nat [1..<?n + 1]" by (rule ids)
  have u: "unat (of_nat k :: u64) = k" if "k < ?n + 1" for k
    using that assms(1) by (simp add: unsigned_of_nat take_bit_nat_eq_self)
  then show "distinct ids" unfolding ids
    by (intro distinct_map [THEN iffD2] conjI distinct_upt inj_onI) (metis atLeastLessThan_iff set_upt)
  show "0 \<notin> set ids" unfolding ids using u by force
  show "generation s = j \<and> j \<in> set ids" if "tget (SESSIONS e) j = Some s"
  proof -
    have "generation s = j" "0 < unat j" "unat j \<le> ?n" using inv that by (auto simp: life_inv_def)
    moreover from this have "j = of_nat (unat j)" "unat j \<in> set [1..<?n + 1]" by auto
    ultimately show ?thesis unfolding ids by (metis image_eqI set_map)
  qed
qed

text \<open>Identifiers are never reused: in any history of the engine with fewer than \<open>2 ^ 64 - 1\<close>
  attempts, the attempts get the identifiers 1, 2, 3 and so on, all different and none 0, and every
  session in the table is filed under the identifier it was created with.\<close>

theorem connection_ids_are_never_reused:
  assumes "length (filter is_connect evs) + 1 < 2 ^ 64" "life_run evs (engine_new level) = (e, ids)"
  shows "(ids = map of_nat [1..<length (filter is_connect evs) + 1])
    \<and> (distinct ids)
    \<and> (0 \<notin> set ids)
    \<and> (tget (SESSIONS e) j = Some s \<longrightarrow> generation s = j \<and> j \<in> set ids)"
  by (intro conjI impI connection_ids_are_never_reused_facts [OF assms])

theorem connection_ids_are_never_reused_witness:
  "snd (life_run [LConnect 0 sample_args, LTask dead_env 1 sample_args, LConnect 5 sample_args, LPoll]
     (engine_new 2)) = [1, 2]"
proof -
  define evs where "evs = [LConnect 0 sample_args, LTask dead_env 1 sample_args, LConnect 5 sample_args, LPoll]"
  obtain e ids where r: "life_run evs (engine_new 2) = (e, ids)" by (cases "life_run evs (engine_new 2)")
  have l: "length (filter is_connect evs) = 2" by (simp add: evs_def)
  then have "length (filter is_connect evs) + 1 < 2 ^ 64" by simp
  from connection_ids_are_never_reused [OF this r, THEN conjunct1]
  have "ids = map of_nat [1..<2 + 1]" by (simp only: l)
  moreover have "[1..<2 + 1] = [1, 2::nat]" by (simp add: upt_rec)
  ultimately have "ids = [1, 2]" by simp
  then show ?thesis unfolding evs_def [symmetric] using r by simp
qed

section \<open>Disconnecting\<close>

lemma push_diag_frame [simp]: "SESSIONS (push_diag cid msg e) = SESSIONS e" "cmd_rx (push_diag cid msg e) = cmd_rx e"
  by (simp_all add: push_diag_def)

lemma cmd_rx_upd_state [simp]: "cmd_rx (upd_state cid f e) = cmd_rx e"
  by (simp add: upd_state_def)

text \<open>Disconnecting a session whose event loop runs hands it the disconnect command behind
  everything queued before, raises the flag the loop checks first, and closes the session to further
  requests.\<close>

theorem ts_disconnect_closes_the_session:
  assumes "tget (SESSIONS e) cid = Some s" "event_loop_alive s" "command_tx s" "cmd_rx e cid = Some cs"
  shows "cmd_rx (ts_disconnect cid e) cid = Some (cs @ [Disconnect])"
    and "map_option disconnect_requested (session cid (ts_disconnect cid e)) = Some True"
    and "exec r cid (ts_disconnect cid e) = (ts_disconnect cid e, False)"
proof -
  define e' where "e' = ts_disconnect cid e"
  have s': "tget (SESSIONS e') cid
      = Some (s\<lparr>sess_state := (sess_state s)\<lparr>disconnect_requested := True\<rparr>, command_tx := False\<rparr>)"
    and rx: "cmd_rx e' cid = Some (cs @ [Disconnect])"
    using assms
    by (simp_all add: e'_def ts_disconnect_def Let_def send_disconnect_def queue_command_def upd_state_def)
  have "\<not> snd (exec r cid e')" unfolding api.accepted_iff using s' by simp
  then have "exec r cid e' = (e', False)" using api.refused by (metis prod.collapse)
  then show "cmd_rx (ts_disconnect cid e) cid = Some (cs @ [Disconnect])"
    "map_option disconnect_requested (session cid (ts_disconnect cid e)) = Some True"
    "exec r cid (ts_disconnect cid e) = (ts_disconnect cid e, False)"
    using rx s' by (simp_all add: e'_def session_def)
qed

definition live_engine :: engine where
  "live_engine = (engine_new 2)\<lparr>SESSIONS := [(1, (session_new 0 1 (ts_connection_new\<lparr>connected := True\<rparr>))
     \<lparr>event_loop_alive := True, command_tx := True\<rparr>)], cmd_rx := [1 \<mapsto> [ListBans]]\<rparr>"

theorem ts_disconnect_closes_the_session_witness:
  "cmd_rx (ts_disconnect 1 live_engine) 1 = Some [ListBans, Disconnect]"
  by (subst ts_disconnect_closes_the_session(1)) (simp add: live_engine_def)+

text \<open>While a session is still connecting there is no event loop and no connection to close, and
  disconnecting it does nothing: the table of sessions stays as it is and the attempt goes on.\<close>

theorem ts_disconnect_ignores_a_connecting_session:
  assumes "tget (SESSIONS e) cid = Some s" "\<not> event_loop_alive s" "\<not> connection s"
  shows "SESSIONS (ts_disconnect cid e) = SESSIONS e"
  using assms by (simp add: ts_disconnect_def Let_def)

theorem ts_disconnect_ignores_a_connecting_session_witness:
  "SESSIONS (ts_disconnect 1 (fst (ts_connect 0 sample_args (engine_new 2))))
    = SESSIONS (fst (ts_connect 0 sample_args (engine_new 2)))"
  by (rule ts_disconnect_ignores_a_connecting_session)
    (simp add: ts_connect_def Let_def engine_new_def session_new_def)+

end
