(* ===== verification/Control.thy ===== *)
theory Control
  imports Lifecycle
begin

text \<open>
  \<open>handle_control_item\<close> of \<open>native/src/api.rs\<close>: what the event loop does with the items of the
  library's stream that are not audio. Messages with several parts are lists of parts; text the code
  produces with \<open>{:?}\<close> or \<open>to_string\<close> from library values comes with the item. What the handler asks
  the connection for is a record \<open>con_view\<close>. The transfers it starts run as tasks of their own and are
  returned as a list.
\<close>

section \<open>Items of the stream\<close>

datatype message_target = ToServer | ToChannel | ToClient u16 | ToPoke u16

datatype book_event =
    BookMessage message_target rstr u16 rstr
      \<comment> \<open>target, invoker name and id, message\<close>
  | BookChange
      \<comment> \<open>any other event\<close>

record text_part =
  tp_invoker_name :: rstr
  tp_invoker_id :: u16
  tp_target :: u8
  tp_message :: rstr

record download_part =
  dp_client_filetransfer_id :: u16
  dp_filetransfer_key :: rstr
  dp_ip :: "ip_addr option"
  dp_port :: u16
  dp_size :: u64

record file_part =
  fp_channel_id :: u64
  fp_path :: rstr
  fp_name :: rstr
  fp_size :: u64
  fp_date_time :: int
    \<comment> \<open>Unix time in seconds\<close>
  fp_is_file :: bool

record token_part =
  tk_token :: rstr
  tk_token1 :: rstr
  tk_token2 :: rstr
  tk_client_db_id :: u64

record ban_part =
  bp_ban_id :: u32
  bp_ip :: rstr
  bp_name :: rstr
  bp_uid :: rstr
  bp_last_nickname :: rstr
  bp_created :: int
  bp_duration :: int
  bp_invoker_name :: rstr

record complain_part =
  cp_target_db_id :: u64
  cp_target_name :: rstr
  cp_from_db_id :: u64
  cp_from_name :: rstr
  cp_message :: rstr
  cp_timestamp :: int

record group_part =
  gp_client_id :: u16
  gp_invoker_name :: rstr
  gp_name :: rstr
  gp_server_group_id :: u64

record error_part =
  ep_id :: ts_error
  ep_code :: rstr
    \<comment> \<open>the identifier as \<open>{:?}\<close> prints it\<close>
  ep_message :: rstr
  ep_missing_permission :: "rstr option"

datatype (plugins only: code size) in_message =
    ImTextMessage "text_part list"
  | ImFileDownload "download_part list"
  | ImClientPermissionHints "(u16 \<times> u64) list"
  | ImFileList "file_part list"
  | ImFileListFinished "(u64 \<times> rstr) list"
  | ImFileInfo "file_part list"
  | ImTokenUsed "token_part list"
  | ImChannelDescriptionChanged "u64 list"
  | ImBanList "ban_part list"
  | ImComplainList "complain_part list"
  | ImClientServerGroupAdded "group_part list"
  | ImClientServerGroupRemoved "group_part list"
  | ImCommandError "error_part list"
  | ImOther

datatype (plugins only: code size) stream_item =
    SiAudio
  | SiBookEvents "book_event list"
  | SiMessageEvent in_message
  | SiMessageFailed rstr rstr "rstr option"
      \<comment> \<open>a failed \<open>MessageResult\<close>: code, message, missing permission\<close>
  | SiNetworkStatsUpdated
  | SiFileDownload u16
      \<comment> \<open>handle\<close>
  | SiFileUpload u16
  | SiFiletransferFailed u16
  | SiDisconnectedTemporarily rstr
  | SiOther

text \<open>\<open>PacketStat\<close> indexes the counters: three inbound kinds, then three outbound kinds.\<close>

record net_stats =
  ns_rtt_ms :: nat
  ns_rtt_dev_ms :: nat
  ns_total_bytes :: "u64 list"
  ns_total_packets :: "u64 list"
  ns_last_second_bytes :: "u32 list list"
  ns_packetloss :: f32

record con_view =
  cv_now :: instant
  cv_book :: "book option"
  cv_stats :: "net_stats option"
  cv_log10 :: "f32 \<Rightarrow> f32"

datatype spawned =
    SpawnFileDownload u16 rstr "ip_addr option" u16 u64 pending_transfer
  | SpawnDownloadStream u16 pending_transfer
  | SpawnFileUpload u16 rstr rstr
      \<comment> \<open>transfer id, remote path, source path\<close>

section \<open>Double precision, for the jitter average\<close>

definition f64_rnd :: "rat \<Rightarrow> rat" where
  "f64_rnd x = (if x = 0 then 0
     else let q = 2 powi (max (ilog2 \<bar>x\<bar>) (- 1022) - 52) in of_int (rne (x / q)) * q)"

text \<open>\<open>x as u64\<close> for a finite \<open>x\<close>: truncation, saturating.\<close>

definition f64_as_u64 :: "rat \<Rightarrow> u64" where
  "f64_as_u64 x = word_of_int (max 0 (min (2 ^ 64 - 1) \<lfloor>x\<rfloor>))"

text \<open>The new jitter from the old one, the previous and the current round trip time.\<close>

definition jitter_update :: "u64 \<Rightarrow> u64 \<Rightarrow> u64 \<Rightarrow> u64" where
  "jitter_update jitter prev rtt =
     (if prev \<noteq> 0 \<and> prev \<le> rtt
      then let delta = f64_rnd (of_int (uint (rtt - prev))) in
        if jitter = 0 then f64_as_u64 delta
        else f64_as_u64 (f64_rnd (f64_rnd (f64_rnd (of_int (uint jitter)) * (1/4)) + f64_rnd (delta * (3/4))))
      else jitter)"

definition in_kinds :: "nat list" where "in_kinds = [0, 1, 2]"
definition out_kinds :: "nat list" where "out_kinds = [3, 4, 5]"

definition sum_kinds :: "nat list \<Rightarrow> u64 list \<Rightarrow> u64" where
  "sum_kinds kinds counters = sum_list (map (\<lambda>k. counters ! k) kinds)"

definition sum_slots :: "nat list \<Rightarrow> u32 list list \<Rightarrow> u64" where
  "sum_slots kinds table = sum_list (concat (map (\<lambda>row. map (\<lambda>k. ucast (row ! k)) kinds) table))"

definition network_stats_updated :: "con_view \<Rightarrow> connection_id \<Rightarrow> engine \<Rightarrow> engine" where
  "network_stats_updated v cid e = (case cv_stats v of
      None \<Rightarrow> e
    | Some stats \<Rightarrow>
        let rtt_ms = (of_nat (min (ns_rtt_ms stats) (2 ^ 64 - 1)) :: u64);
            rtt_dev_ms = (of_nat (min (ns_rtt_dev_ms stats) (2 ^ 64 - 1)) :: u64);
            e = upd_state cid (\<lambda>st. st\<lparr>jitter_ms := jitter_update (jitter_ms st) (last_rtt_ms st) rtt_ms,
              last_rtt_ms := rtt_ms\<rparr>) e;
            emit = (case session cid e of None \<Rightarrow> 0 | Some st \<Rightarrow> jitter_ms st)
        in push_event cid (EvNetworkStats rtt_ms rtt_dev_ms emit (fmul (ns_packetloss stats) (Fin 100))
             (sum_kinds in_kinds (ns_total_bytes stats)) (sum_kinds out_kinds (ns_total_bytes stats))
             (sum_kinds in_kinds (ns_total_packets stats)) (sum_kinds out_kinds (ns_total_packets stats))
             (sum_slots in_kinds (ns_last_second_bytes stats))
             (sum_slots out_kinds (ns_last_second_bytes stats))) e)"

section \<open>Book events\<close>

fun target_mode_of :: "message_target \<Rightarrow> u8" where
  "target_mode_of ToServer = 3"
| "target_mode_of ToChannel = 2"
| "target_mode_of (ToClient _) = 1"
| "target_mode_of (ToPoke _) = 0"

definition refresh_roster :: "con_view \<Rightarrow> connection_id \<Rightarrow> engine \<Rightarrow> engine" where
  "refresh_roster v cid e = (case cv_book v of
      None \<Rightarrow> e
    | Some bk \<Rightarrow>
        let (talking, whispering, hints) = (case session cid e of
               None \<Rightarrow> ([], [], Map.empty)
             | Some st \<Rightarrow> (talking_clients st, whispering_clients st, permission_hints st));
            (ch, cl) = refresh_from_book (cv_log10 v) (cv_now v) cid bk talking whispering hints e
        in push_event cid EvChannelsUpdated
             (upd_state cid (\<lambda>st. st\<lparr>channels := ch, clients := cl\<rparr>) e))"

fun handle_book_event :: "con_view \<Rightarrow> connection_id \<Rightarrow> book_event \<Rightarrow> engine \<Rightarrow> engine" where
  "handle_book_event v cid (BookMessage target name invoker message) e =
     push_event cid (EvTextMessage name (ucast invoker) (target_mode_of target) message) e"
| "handle_book_event v cid BookChange e = refresh_roster v cid e"

section \<open>Messages\<close>

definition nonneg_u64 :: "int \<Rightarrow> u64" where
  "nonneg_u64 t = word_of_int (max t 0)"

definition handle_file_download ::
  "connection_id \<Rightarrow> download_part \<Rightarrow> engine \<times> spawned list \<Rightarrow> engine \<times> spawned list" where
  "handle_file_download cid d acc = (case acc of (e, ts) \<Rightarrow>
     (case Option.bind (tget (SESSIONS e) cid) (\<lambda>s. pending_transfers s (dp_client_filetransfer_id d)) of
        None \<Rightarrow> (e, ts)
      | Some job \<Rightarrow>
          (upd_session cid (\<lambda>s. s\<lparr>pending_transfers :=
             (pending_transfers s)(dp_client_filetransfer_id d := None)\<rparr>) e,
           ts @ [SpawnFileDownload (dp_client_filetransfer_id d) (dp_filetransfer_key d) (dp_ip d)
             (dp_port d) (dp_size d) job])))"

definition file_of_part :: "file_part \<Rightarrow> ts_server_file" where
  "file_of_part p = \<lparr>sf_name = fp_name p, sf_size = fp_size p, sf_modified = nonneg_u64 (fp_date_time p),
     sf_is_directory = fp_is_file p\<rparr>"

definition handle_file_entry :: "connection_id \<Rightarrow> file_part \<Rightarrow> engine \<Rightarrow> engine" where
  "handle_file_entry cid p = upd_state cid (\<lambda>st. st\<lparr>file_list_buffers :=
     (file_list_buffers st)((fp_channel_id p, fp_path p) \<mapsto>
       unwrap_or (file_list_buffers st (fp_channel_id p, fp_path p)) [] @ [file_of_part p])\<rparr>)"

definition handle_list_finished :: "connection_id \<Rightarrow> u64 \<times> rstr \<Rightarrow> engine \<Rightarrow> engine" where
  "handle_list_finished cid key e =
     (let request_id = unwrap_or (Option.bind (tget (SESSIONS e) cid) (\<lambda>s. pending_file_requests s key)) 0;
          e = upd_session cid (\<lambda>s. s\<lparr>pending_file_requests := (pending_file_requests s)(key := None)\<rparr>) e;
          files = unwrap_or (Option.bind (session cid e) (\<lambda>st. file_list_buffers st key)) [];
          e = upd_state cid (\<lambda>st. st\<lparr>file_list_buffers := (file_list_buffers st)(key := None)\<rparr>) e
      in push_event cid (EvServerFileList request_id (ucast (fst key)) (snd key) True None files) e)"

definition handle_file_info :: "connection_id \<Rightarrow> file_part \<Rightarrow> engine \<Rightarrow> engine" where
  "handle_file_info cid p e =
     (let key = (fp_channel_id p, fp_name p);
          request_id = unwrap_or (Option.bind (tget (SESSIONS e) cid) (\<lambda>s. pending_file_info_requests s key)) 0;
          e = upd_session cid (\<lambda>s. s\<lparr>pending_file_info_requests :=
            (pending_file_info_requests s)(key := None)\<rparr>) e
      in push_event cid (EvServerFileInfo request_id (ucast (fp_channel_id p)) (fp_path p) (fp_name p)
           (fp_size p) (nonneg_u64 (fp_date_time p)) True) e)"

definition channel_description_of :: "con_view \<Rightarrow> u64 \<Rightarrow> rstr" where
  "channel_description_of v channel_id = unwrap_or
     (Option.bind (cv_book v) (\<lambda>bk.
      Option.bind (find (\<lambda>c. bch_id c = channel_id) (book_channels bk)) bch_description)) []"

definition group_event :: "rstr \<Rightarrow> rstr \<Rightarrow> group_part \<Rightarrow> ts_event" where
  "group_event verb preposition p = EvClientUpdated (ucast (gp_client_id p))
     (gp_invoker_name p @ verb @ gp_name p @ preposition @ decimal (unat (gp_server_group_id p)))"

definition handle_command_error :: "con_view \<Rightarrow> connection_id \<Rightarrow> error_part \<Rightarrow> engine \<Rightarrow> engine" where
  "handle_command_error v cid p e =
     (if ep_id p = TsOk then e
      else let e = (if ep_id p = ClientIsFlooding \<or> ep_id p = BanFlooding
             then upd_session cid (\<lambda>s. s\<lparr>sess_budget := enter_degraded (cv_now v) (sess_budget s)\<rparr>) e
             else e)
        in push_event cid (EvCommandError (ep_code p) (ep_message p) (ep_missing_permission p)) e)"

definition handle_message ::
  "con_view \<Rightarrow> connection_id \<Rightarrow> in_message \<Rightarrow> engine \<Rightarrow> engine \<times> spawned list" where
  "handle_message v cid msg e = (case msg of
      ImTextMessage ps \<Rightarrow> (fold (\<lambda>p. push_event cid (EvTextMessage (tp_invoker_name p)
        (ucast (tp_invoker_id p)) (tp_target p) (tp_message p))) ps e, [])
    | ImFileDownload ds \<Rightarrow> fold (handle_file_download cid) ds (e, [])
    | ImClientPermissionHints hs \<Rightarrow> (upd_state cid (\<lambda>st. st\<lparr>permission_hints :=
        fold (\<lambda>(client, flags) m. m(client \<mapsto> flags)) hs (permission_hints st)\<rparr>) e, [])
    | ImFileList ps \<Rightarrow> (fold (handle_file_entry cid) ps e, [])
    | ImFileListFinished ks \<Rightarrow> (fold (handle_list_finished cid) ks e, [])
    | ImFileInfo ps \<Rightarrow> (fold (handle_file_info cid) ps e, [])
    | ImTokenUsed ps \<Rightarrow> (fold (\<lambda>p. push_event cid (EvTokenUsed (tk_token p) (tk_token1 p) (tk_token2 p)
        (tk_client_db_id p))) ps e, [])
    | ImChannelDescriptionChanged cs \<Rightarrow> (fold (\<lambda>c. push_event cid (EvChannelDescription (ucast c)
        (channel_description_of v c))) cs e, [])
    | ImBanList ps \<Rightarrow> (fold (\<lambda>p. push_event cid (EvBanList (bp_ban_id p) (bp_ip p) (bp_name p) (bp_uid p)
        (bp_last_nickname p) (nonneg_u64 (bp_created p)) (nonneg_u64 (bp_duration p))
        (bp_invoker_name p))) ps e, [])
    | ImComplainList ps \<Rightarrow> (fold (\<lambda>p. push_event cid (EvComplainList (cp_target_db_id p)
        (cp_target_name p) (cp_from_db_id p) (cp_from_name p) (cp_message p)
        (nonneg_u64 (cp_timestamp p)))) ps e, [])
    | ImClientServerGroupAdded ps \<Rightarrow>
        (fold (\<lambda>p. push_event cid (group_event (str '' added '') (str '' to group '') p)) ps e, [])
    | ImClientServerGroupRemoved ps \<Rightarrow>
        (fold (\<lambda>p. push_event cid (group_event (str '' removed '') (str '' from group '') p)) ps e, [])
    | ImCommandError ps \<Rightarrow> (fold (handle_command_error v cid) ps e, [])
    | ImOther \<Rightarrow> (e, []))"

section \<open>Items\<close>

definition handle_control_item ::
  "con_view \<Rightarrow> connection_id \<Rightarrow> stream_item \<Rightarrow> engine \<Rightarrow> engine \<times> spawned list" where
  "handle_control_item v cid item e = (case item of
      SiAudio \<Rightarrow> (e, [])
    | SiBookEvents evs \<Rightarrow> (fold (handle_book_event v cid) evs e, [])
    | SiMessageEvent msg \<Rightarrow> handle_message v cid msg e
    | SiMessageFailed code message permission \<Rightarrow>
        (push_event cid (EvCommandError code message permission) e, [])
    | SiNetworkStatsUpdated \<Rightarrow> (network_stats_updated v cid e, [])
    | SiFileDownload handle \<Rightarrow>
        (case Option.bind (tget (SESSIONS e) cid) (\<lambda>s. pending_transfers s handle) of
           None \<Rightarrow> (e, [])
         | Some job \<Rightarrow> (upd_session cid (\<lambda>s. s\<lparr>pending_transfers := (pending_transfers s)(handle := None)\<rparr>) e,
             [SpawnDownloadStream handle job]))
    | SiFileUpload handle \<Rightarrow>
        (case Option.bind (tget (SESSIONS e) cid) (\<lambda>s. upload_jobs s handle) of
           None \<Rightarrow> (e, [])
         | Some job \<Rightarrow> (upd_session cid (\<lambda>s. s\<lparr>upload_jobs := (upload_jobs s)(handle := None)\<rparr>) e,
             [SpawnFileUpload (uj_transfer_id job) (uj_remote_path job) (uj_source_path job)]))
    | SiFiletransferFailed handle \<Rightarrow>
        (case Option.bind (tget (SESSIONS e) cid) (\<lambda>s. upload_jobs s handle) of
           None \<Rightarrow> (e, [])
         | Some job \<Rightarrow> (push_event cid (EvFileTransfer (ucast (uj_transfer_id job)) [] [] 0 False
               (Some (str ''refused'')))
             (upd_session cid (\<lambda>s. s\<lparr>upload_jobs := (upload_jobs s)(handle := None)\<rparr>) e), []))
    | SiDisconnectedTemporarily reason \<Rightarrow>
        (push_event cid (EvError (str ''Temp disconnected: '' @ reason)) e, [])
    | SiOther \<Rightarrow> (e, []))"

section \<open>Lemmas\<close>

lemma fold_push_event [simp]:
  "EVENT_QUEUE (fold (\<lambda>p. push_event cid (f p)) ps e)
    = EVENT_QUEUE e @ map (\<lambda>p. \<lparr>ev_connection_id = cid, ev_event = f p\<rparr>) ps"
  "SESSIONS (fold (\<lambda>p. push_event cid (f p)) ps e) = SESSIONS e"
  "cmd_rx (fold (\<lambda>p. push_event cid (f p)) ps e) = cmd_rx e"
  by (induction ps arbitrary: e) (simp_all add: push_event_def)

lemma tget_upd_state [simp]:
  "tget (SESSIONS (upd_state cid f e)) j = (if j = cid
     then map_option (\<lambda>s. s\<lparr>sess_state := f (sess_state s)\<rparr>) (tget (SESSIONS e) cid) else tget (SESSIONS e) j)"
  by (simp add: upd_state_def)

text \<open>The parts of a listing that belong to one directory.\<close>

definition parts_of :: "u64 \<times> rstr \<Rightarrow> file_part list \<Rightarrow> file_part list" where
  "parts_of key = filter (\<lambda>p. (fp_channel_id p, fp_path p) = key)"

text \<open>What one session's fields are while listings arrive: only the buffers grow.\<close>

lemma file_entries_session:
  assumes "tget (SESSIONS e) cid = Some s"
  shows "\<exists>s'. tget (SESSIONS (fold (handle_file_entry cid) ps e)) cid = Some s'
    \<and> pending_file_requests s' = pending_file_requests s
    \<and> unwrap_or (file_list_buffers (sess_state s') key) []
      = unwrap_or (file_list_buffers (sess_state s) key) [] @ map file_of_part (parts_of key ps)"
  using assms
proof (induction ps arbitrary: e s)
  case Nil
  then show ?case by (simp add: parts_of_def)
next
  case (Cons p ps)
  define s1 where "s1 = s\<lparr>sess_state := (sess_state s)\<lparr>file_list_buffers := (file_list_buffers (sess_state s))
    ((fp_channel_id p, fp_path p) \<mapsto> unwrap_or (file_list_buffers (sess_state s) (fp_channel_id p, fp_path p)) []
      @ [file_of_part p])\<rparr>\<rparr>"
  have "tget (SESSIONS (handle_file_entry cid p e)) cid = Some s1"
    using Cons.prems by (simp add: handle_file_entry_def s1_def)
  from Cons.IH [OF this] show ?case by (auto simp: parts_of_def s1_def)
qed

lemma file_entries_frame [simp]:
  "EVENT_QUEUE (fold (handle_file_entry cid) ps e) = EVENT_QUEUE e"
  by (induction ps arbitrary: e) (simp_all add: handle_file_entry_def)

lemma fold_file_lists:
  "fold (\<lambda>ps e. fst (handle_message v cid (ImFileList ps) e)) answers e
    = fold (handle_file_entry cid) (concat answers) e"
  by (induction answers arbitrary: e) (simp_all add: handle_message_def)

text \<open>However the server splits a directory listing into messages, and whatever other listings
  are interleaved with it, the finishing message yields one event with exactly the entries of that
  directory in the order of arrival, under the identifier of the request, and forgets both the
  buffered entries and the request.\<close>
theorem listing_is_assembled:
  assumes "tget (SESSIONS e) cid = Some s" and "file_list_buffers (sess_state s) key = None"
    and "e' = fst (handle_message v cid (ImFileListFinished [key])
           (fold (\<lambda>ps e. fst (handle_message v cid (ImFileList ps) e)) answers e))"
  shows "EVENT_QUEUE e' = EVENT_QUEUE e @ [\<lparr>ev_connection_id = cid,
      ev_event = EvServerFileList (unwrap_or (pending_file_requests s key) 0) (ucast (fst key)) (snd key)
        True None (map file_of_part (filter (\<lambda>p. (fp_channel_id p, fp_path p) = key) (concat answers)))\<rparr>]
    \<and> (\<exists>s'. tget (SESSIONS e') cid = Some s' \<and> file_list_buffers (sess_state s') key = None
        \<and> pending_file_requests s' = (pending_file_requests s)(key := None))"
proof -
  define e1 where "e1 = fold (handle_file_entry cid) (concat answers) e"
  have e': "e' = handle_list_finished cid key e1" and q: "EVENT_QUEUE e1 = EVENT_QUEUE e"
    by (simp_all only: assms(3) fold_file_lists e1_def file_entries_frame) (simp add: handle_message_def)
  obtain s1 where s1: "tget (SESSIONS e1) cid = Some s1"
      "pending_file_requests s1 = pending_file_requests s"
      "unwrap_or (file_list_buffers (sess_state s1) key) [] = map file_of_part (parts_of key (concat answers))"
    using file_entries_session [OF assms(1), of "concat answers" key] assms(2)
    unfolding e1_def [symmetric] by auto
  show ?thesis
    using s1 q unfolding e' parts_of_def by (simp add: handle_list_finished_def Let_def session_def)
qed

definition quiet_view :: con_view where
  "quiet_view = \<lparr>cv_now = 0, cv_book = None, cv_stats = None, cv_log10 = \<lambda>x. x\<rparr>"

definition sample_engine_1 :: engine where
  "sample_engine_1 = (engine_new 1)\<lparr>SESSIONS := [(1, session_new 0 1 ts_connection_new)]\<rparr>"

lemma sample_engine_1_simps [simp]:
  "tget (SESSIONS sample_engine_1) 1 = Some (session_new 0 1 ts_connection_new)"
  "EVENT_QUEUE sample_engine_1 = []"
  by (simp_all add: sample_engine_1_def engine_new_def)

definition sample_parts :: "file_part list" where
  "sample_parts = [\<lparr>fp_channel_id = 5, fp_path = str ''/'', fp_name = str ''a'', fp_size = 3, fp_date_time = -1,
       fp_is_file = True\<rparr>,
     \<lparr>fp_channel_id = 6, fp_path = str ''/'', fp_name = str ''b'', fp_size = 4, fp_date_time = 7,
       fp_is_file = False\<rparr>]"

theorem listing_is_assembled_witness:
  "EVENT_QUEUE (fst (handle_message quiet_view 1 (ImFileListFinished [(5, str ''/'')])
     (fst (handle_message quiet_view 1 (ImFileList sample_parts) sample_engine_1))))
   = [\<lparr>ev_connection_id = 1, ev_event = EvServerFileList 0 5 (str ''/'') True None
       [\<lparr>sf_name = str ''a'', sf_size = 3, sf_modified = 0, sf_is_directory = True\<rparr>]\<rparr>]"
proof -
  have "file_list_buffers (sess_state (session_new 0 1 ts_connection_new)) (5, str ''/'') = None"
    by (simp add: session_new_def ts_connection_new_def)
  from listing_is_assembled [OF sample_engine_1_simps(1) this refl, of quiet_view "[sample_parts]"]
  have "EVENT_QUEUE (fst (handle_message quiet_view 1 (ImFileListFinished [(5, str ''/'')])
     (fst (handle_message quiet_view 1 (ImFileList sample_parts) sample_engine_1))))
   = [\<lparr>ev_connection_id = 1, ev_event = EvServerFileList
       (unwrap_or (pending_file_requests (session_new 0 1 ts_connection_new) (5, str ''/'')) 0) 5 (str ''/'') True None
       (map file_of_part (filter (\<lambda>p. (fp_channel_id p, fp_path p) = (5, str ''/'')) sample_parts))\<rparr>]" by simp
  then show ?thesis
    by (simp only: session_new_def sample_parts_def) (simp add: file_of_part_def nonneg_u64_def)
qed

text \<open>Flood reports.\<close>

definition is_flood_report :: "error_part \<Rightarrow> bool" where
  "is_flood_report p \<longleftrightarrow> ep_id p = ClientIsFlooding \<or> ep_id p = BanFlooding"

lemma enter_degraded_idem [simp]: "enter_degraded now (enter_degraded now b) = enter_degraded now b"
  by (simp add: enter_degraded_def)

lemma command_errors_session:
  assumes "tget (SESSIONS e) cid = Some s"
  shows "tget (SESSIONS (fold (handle_command_error v cid) ps e)) cid
    = Some (if list_ex is_flood_report ps then s\<lparr>sess_budget := enter_degraded (cv_now v) (sess_budget s)\<rparr> else s)"
  using assms
proof (induction ps arbitrary: e s)
  case (Cons p ps)
  show ?case
  proof (cases "is_flood_report p")
    case True
    then have "tget (SESSIONS (handle_command_error v cid p e)) cid
        = Some (s\<lparr>sess_budget := enter_degraded (cv_now v) (sess_budget s)\<rparr>)"
      using Cons.prems by (auto simp: handle_command_error_def is_flood_report_def)
    from Cons.IH [OF this] True show ?thesis by simp
  next
    case False
    then have "tget (SESSIONS (handle_command_error v cid p e)) cid = Some s"
      using Cons.prems by (auto simp: handle_command_error_def is_flood_report_def)
    from Cons.IH [OF this] False show ?thesis by simp
  qed
qed simp

lemma command_errors_events:
  "EVENT_QUEUE (fold (handle_command_error v cid) ps e) = EVENT_QUEUE e
    @ map (\<lambda>p. \<lparr>ev_connection_id = cid, ev_event = EvCommandError (ep_code p) (ep_message p) (ep_missing_permission p)\<rparr>)
        (filter (\<lambda>p. ep_id p \<noteq> TsOk) ps)"
  by (induction ps arbitrary: e) (auto simp: handle_command_error_def Let_def)

text \<open>An answer of the server with errors is reported error by error, acknowledgements left out,
  and the command budget is slowed down exactly when one of them is a flood report, nothing else of
  the session being touched.\<close>
theorem command_errors_slow_down_iff_flooding:
  assumes "tget (SESSIONS e) cid = Some s"
    and "e' = fst (handle_message v cid (ImCommandError ps) e)"
  shows "EVENT_QUEUE e' = EVENT_QUEUE e @ map (\<lambda>p. \<lparr>ev_connection_id = cid,
      ev_event = EvCommandError (ep_code p) (ep_message p) (ep_missing_permission p)\<rparr>) (filter (\<lambda>p. ep_id p \<noteq> TsOk) ps)
    \<and> tget (SESSIONS e') cid = Some (if list_ex (\<lambda>p. ep_id p = ClientIsFlooding \<or> ep_id p = BanFlooding) ps
        then s\<lparr>sess_budget := enter_degraded (cv_now v) (sess_budget s)\<rparr> else s)"
proof -
  have f: "is_flood_report = (\<lambda>p. ep_id p = ClientIsFlooding \<or> ep_id p = BanFlooding)"
    by (simp add: fun_eq_iff is_flood_report_def)
  show ?thesis
    using command_errors_session [OF assms(1), of v ps] assms(2)
    by (simp only: handle_message_def in_message.case fst_conv command_errors_events f)
qed

theorem command_errors_slow_down_iff_flooding_witness:
  "map_option (\<lambda>s. capacity (sess_budget s)) (tget (SESSIONS (fst (handle_message quiet_view 1 (ImCommandError
     [\<lparr>ep_id = ClientIsFlooding, ep_code = [], ep_message = [], ep_missing_permission = None\<rparr>]) sample_engine_1))) 1)
   = Some DEGRADED_CAPACITY"
  using command_errors_slow_down_iff_flooding [OF sample_engine_1_simps(1) refl, of quiet_view
    "[\<lparr>ep_id = ClientIsFlooding, ep_code = [], ep_message = [], ep_missing_permission = None\<rparr>]"]
  by (simp add: enter_degraded_def)

section \<open>Transfers\<close>

text \<open>The download a spawned task serves.\<close>

definition download_of :: "spawned \<Rightarrow> (u16 \<times> pending_transfer) option" where
  "download_of x = (case x of
      SpawnFileDownload i key ip port sz job \<Rightarrow> Some (i, job)
    | SpawnDownloadStream i job \<Rightarrow> Some (i, job)
    | SpawnFileUpload tid remote source \<Rightarrow> None)"

abbreviation downloads :: "spawned list \<Rightarrow> (u16 \<times> pending_transfer) list" where
  "downloads ts \<equiv> List.map_filter download_of ts"

text \<open>What the handling of an item may do to the transfers of its session.\<close>

definition transfers_taken :: "session_rec \<Rightarrow> session_rec \<Rightarrow> spawned list \<Rightarrow> bool" where
  "transfers_taken s s' ts \<longleftrightarrow> distinct (map fst (downloads ts))
    \<and> (\<forall>d\<in>set (downloads ts). pending_transfers s (fst d) = Some (snd d))
    \<and> pending_transfers s' = pending_transfers s |` (- fst ` set (downloads ts))
    \<and> (\<forall>t r p. SpawnFileUpload t r p \<in> set ts \<longrightarrow> (\<exists>h. upload_jobs s' h = None
        \<and> upload_jobs s h = Some \<lparr>uj_transfer_id = t, uj_source_path = p, uj_remote_path = r\<rparr>))"

definition keeps_transfers :: "connection_id \<Rightarrow> engine \<Rightarrow> engine \<Rightarrow> bool" where
  "keeps_transfers cid e e' \<longleftrightarrow> map_option pending_transfers (tget (SESSIONS e') cid)
    = map_option pending_transfers (tget (SESSIONS e) cid)"

lemma keeps_transfers_refl [simp]: "keeps_transfers cid e e"
  by (simp add: keeps_transfers_def)

lemma keeps_transfers_fold: "(\<And>p e. keeps_transfers cid e (f p e)) \<Longrightarrow> keeps_transfers cid e (fold f ps e)"
  by (induction ps arbitrary: e) (auto simp: keeps_transfers_def)

lemma keeps_transfers_push [simp]: "keeps_transfers cid e (push_event j ev e') = keeps_transfers cid e e'"
  by (simp add: keeps_transfers_def)

lemma keeps_transfers_upd [simp]:
  "keeps_transfers cid e (upd_state j f e') = keeps_transfers cid e e'"
  "(\<And>s. pending_transfers (g s) = pending_transfers s) \<Longrightarrow>
     keeps_transfers cid e (upd_session j g e') = keeps_transfers cid e e'"
  by (auto simp: keeps_transfers_def option.map_comp comp_def)

lemma keeps_transfers_ops [simp]:
  "keeps_transfers cid e (refresh_roster v j e)"
  "keeps_transfers cid e (handle_book_event v j bev e)"
  "keeps_transfers cid e (handle_file_entry j fp e)"
  "keeps_transfers cid e (handle_list_finished j k e)"
  "keeps_transfers cid e (handle_file_info j fp e)"
  "keeps_transfers cid e (handle_command_error v j ep e)"
  "keeps_transfers cid e (network_stats_updated v j e)"
proof -
  show r: "keeps_transfers cid e (refresh_roster v j e)"
    by (auto simp: refresh_roster_def Let_def split: option.split prod.split)
  show "keeps_transfers cid e (handle_book_event v j bev e)"
    by (cases bev) (simp_all add: r)
qed (simp_all add: handle_file_entry_def handle_list_finished_def handle_file_info_def
  handle_command_error_def network_stats_updated_def Let_def split: option.split)

lemma map_filter_append [simp]: "List.map_filter f (xs @ ys) = List.map_filter f xs @ List.map_filter f ys"
  by (induction xs) (auto simp: List.map_filter_simps split: option.split)

lemma file_downloads_taken:
  assumes "tget (SESSIONS e) cid = Some s" and "transfers_taken s0 s ts"
    and "fold (handle_file_download cid) ds (e, ts) = (e', ts')" and "\<forall>t r p. SpawnFileUpload t r p \<notin> set ts"
  shows "\<exists>s'. tget (SESSIONS e') cid = Some s' \<and> transfers_taken s0 s' ts'"
  using assms
proof (induction ds arbitrary: e s ts)
  case (Cons d ds)
  show ?case
  proof (cases "pending_transfers s (dp_client_filetransfer_id d)")
    case None
    then have "handle_file_download cid d (e, ts) = (e, ts)"
      using Cons.prems(1) by (simp add: handle_file_download_def)
    with Cons show ?thesis by (metis fold_simps(2))
  next
    case (Some job)
    let ?i = "dp_client_filetransfer_id d"
    let ?s = "s\<lparr>pending_transfers := (pending_transfers s)(?i := None)\<rparr>"
    let ?x = "SpawnFileDownload ?i (dp_filetransfer_key d) (dp_ip d) (dp_port d) (dp_size d) job"
    let ?e = "upd_session cid (\<lambda>s. s\<lparr>pending_transfers := (pending_transfers s)(?i := None)\<rparr>) e"
    have step: "handle_file_download cid d (e, ts) = (?e, ts @ [?x])"
      using Cons.prems(1) Some by (simp add: handle_file_download_def)
    have old: "pending_transfers s0 ?i = Some job" "?i \<notin> fst ` set (downloads ts)"
      using Some Cons.prems(2) by (auto simp: transfers_taken_def restrict_map_def split: if_splits)
    have "transfers_taken s0 ?s (ts @ [?x])"
      using Cons.prems(2,4) old
      by (auto simp: transfers_taken_def download_of_def List.map_filter_simps restrict_map_def fun_eq_iff)
    moreover have "tget (SESSIONS ?e) cid = Some ?s" using Cons.prems(1) by simp
    ultimately show ?thesis
      using Cons.IH [of ?e ?s "ts @ [?x]"] Cons.prems(3,4) step by auto
  qed
qed auto

lemma restrict_map_UNIV [simp]: "m |` UNIV = m"
  by (simp add: restrict_map_def)

lemma transfers_taken_none: "pending_transfers s' = pending_transfers s \<Longrightarrow> transfers_taken s s' []"
  by (simp add: transfers_taken_def List.map_filter_simps)

lemma keeps_transfers_taken:
  assumes "tget (SESSIONS e) cid = Some s" and "keeps_transfers cid e e'"
  shows "\<exists>s'. tget (SESSIONS e') cid = Some s' \<and> transfers_taken s s' []"
  using assms by (auto simp: keeps_transfers_def intro: transfers_taken_none)

lemma message_transfers:
  assumes "tget (SESSIONS e) cid = Some s" and "handle_message v cid msg e = (e', ts)"
  shows "\<exists>s'. tget (SESSIONS e') cid = Some s' \<and> transfers_taken s s' ts"
proof (cases "\<exists>ds. msg = ImFileDownload ds")
  case True
  then show ?thesis
    using file_downloads_taken [OF assms(1) transfers_taken_none [OF refl]] assms(2)
    by (auto simp: handle_message_def)
next
  case False
  then have "ts = [] \<and> keeps_transfers cid e e'"
    using assms(2) by (cases msg) (auto simp: handle_message_def intro!: keeps_transfers_fold)
  then show ?thesis using keeps_transfers_taken [OF assms(1)] by blast
qed

text \<open>No socket is opened for a transfer nobody asked for, and none twice: the downloads an item
  of the stream starts were pending under their handles, are distinct, and are exactly what leaves
  the pending table; an upload starts only from a registered job, which leaves the table too.\<close>
theorem transfers_start_once_and_only_if_pending:
  assumes "tget (SESSIONS e) cid = Some s" and "handle_control_item v cid item e = (e', ts)"
  shows "\<exists>s'. tget (SESSIONS e') cid = Some s'
    \<and> distinct (map fst (downloads ts))
    \<and> (\<forall>d\<in>set (downloads ts). pending_transfers s (fst d) = Some (snd d))
    \<and> pending_transfers s' = pending_transfers s |` (- fst ` set (downloads ts))
    \<and> (\<forall>t r p. SpawnFileUpload t r p \<in> set ts \<longrightarrow> (\<exists>h. upload_jobs s' h = None
        \<and> upload_jobs s h = Some \<lparr>uj_transfer_id = t, uj_source_path = p, uj_remote_path = r\<rparr>))"
proof -
  have k: "ts = [] \<Longrightarrow> keeps_transfers cid e e' \<Longrightarrow> \<exists>s'. tget (SESSIONS e') cid = Some s' \<and> transfers_taken s s' ts"
    using keeps_transfers_taken [OF assms(1)] by auto
  have "\<exists>s'. tget (SESSIONS e') cid = Some s' \<and> transfers_taken s s' ts"
  proof (cases item)
    case (SiMessageEvent msg)
    then show ?thesis using message_transfers [OF assms(1)] assms(2) by (simp add: handle_control_item_def)
  next
    case (SiFileDownload h)
    then show ?thesis using assms
      by (auto simp: handle_control_item_def transfers_taken_def download_of_def List.map_filter_simps
        restrict_map_def fun_eq_iff split: option.splits)
  next
    case (SiFileUpload h)
    then show ?thesis using assms
    proof (cases "upload_jobs s h")
      case (Some job)
      with SiFileUpload assms have "ts = [SpawnFileUpload (uj_transfer_id job) (uj_remote_path job) (uj_source_path job)]"
          and "tget (SESSIONS e') cid = Some (s\<lparr>upload_jobs := (upload_jobs s)(h := None)\<rparr>)"
        by (auto simp: handle_control_item_def)
      moreover have "upload_jobs s h = Some \<lparr>uj_transfer_id = uj_transfer_id job,
          uj_source_path = uj_source_path job, uj_remote_path = uj_remote_path job\<rparr>"
        using Some by simp
      ultimately show ?thesis
        by (auto simp: transfers_taken_def download_of_def List.map_filter_simps intro!: exI [of _ h])
    qed (auto simp: handle_control_item_def intro: transfers_taken_none)
  next
    case (SiFiletransferFailed h)
    then show ?thesis using assms
      by (auto simp: handle_control_item_def transfers_taken_def List.map_filter_simps split: option.splits)
  qed (rule k; use assms(2) in \<open>auto simp: handle_control_item_def intro!: keeps_transfers_fold\<close>)+
  then show ?thesis by (simp add: transfers_taken_def)
qed

theorem transfers_start_once_and_only_if_pending_witness:
  "snd (handle_control_item quiet_view 1 (SiFileDownload 7) sample_engine_1) = []"
proof -
  obtain e' ts where h: "handle_control_item quiet_view 1 (SiFileDownload 7) sample_engine_1 = (e', ts)" by fastforce
  have "\<forall>d\<in>set (downloads ts). pending_transfers (session_new 0 1 ts_connection_new) (fst d) = Some (snd d)"
    using transfers_start_once_and_only_if_pending [OF sample_engine_1_simps(1) h] by blast
  then have none: "downloads ts = []" by (cases "downloads ts") (auto simp: session_new_def)
  have "ts = [] \<or> (\<exists>job. ts = [SpawnDownloadStream 7 job])"
    using h by (auto simp: handle_control_item_def split: option.splits)
  then show ?thesis using h none by (auto simp: List.map_filter_simps download_of_def)
qed

text \<open>A failed download is reported to nobody: the answer to a refusal looks only at the uploads.\<close>
theorem refused_downloads_are_not_reported:
  "upload_jobs s h = None \<Longrightarrow> tget (SESSIONS e) cid = Some s \<Longrightarrow>
   handle_control_item v cid (SiFiletransferFailed h) e = (e, [])"
  by (simp add: handle_control_item_def)

theorem refused_downloads_are_not_reported_witness:
  "handle_control_item quiet_view 1 (SiFiletransferFailed 7) sample_engine_1 = (sample_engine_1, [])"
  by (rule refused_downloads_are_not_reported [OF _ sample_engine_1_simps(1)]) (simp add: session_new_def)

text \<open>The jitter reported to the interface ignores every round trip that is shorter than the one
  before: only rises enter the average.\<close>
theorem jitter_ignores_falling_round_trips:
  assumes "cv_stats v = Some stats" and "session cid e = Some st"
    and "ns_rtt_ms stats < unat (last_rtt_ms st)"
  shows "session cid (network_stats_updated v cid e) = Some (st\<lparr>last_rtt_ms := of_nat (ns_rtt_ms stats)\<rparr>)"
proof -
  let ?r = "of_nat (ns_rtt_ms stats) :: u64"
  have "unat (last_rtt_ms st) < 2 ^ 64" using unsigned_less [of "last_rtt_ms st"] by simp
  then have b: "ns_rtt_ms stats < 2 ^ 64" using assms(3) by simp
  then have "unat ?r = ns_rtt_ms stats" by (simp add: unat_of_nat take_bit_nat_eq_self)
  then have "\<not> last_rtt_ms st \<le> ?r" using assms(3) by (simp add: word_le_nat_alt)
  then have "jitter_update (jitter_ms st) (last_rtt_ms st) ?r = jitter_ms st" by (simp add: jitter_update_def)
  moreover have "min (ns_rtt_ms stats) (2 ^ 64 - 1) = ns_rtt_ms stats" using b by simp
  ultimately show ?thesis using assms(1,2) by (simp add: network_stats_updated_def Let_def)
qed

end
