(* ===== verification/Packets.thy ===== *)
theory Packets
  imports Prelude "HOL-Library.Monad_Syntax"
begin

unbundle bit_operations_syntax

text \<open>
  The packet formats of \<open>utils/tsproto-packets/src/packets.rs\<close>: headers of incoming and outgoing
  packets, acknowledgements and the five messages of the initial handshake.

  \<^item> A byte slice is an \<open>u8 list\<close>. An out-of-range access or an \<open>unwrap\<close> of nothing panics in the
    source: such a function returns an option here and \<open>None\<close> is the panic; where a function returns
    a \<open>Result\<close> the panic is the error value \<open>Panicked\<close>, which the source does not have.
  \<^item> A \<open>Flags\<close> value is its byte.
  \<^item> \<open>read_be\<close> and \<open>write_be\<close> of the crate \<open>omnom\<close> are big-endian integer input and output:
    \<open>be_word\<close> and \<open>be_bytes\<close>; a read past the end is the error \<open>Io\<close>.
\<close>

section \<open>Big-endian integers\<close>

fun be_bytes :: "nat \<Rightarrow> 'a::len word \<Rightarrow> u8 list" where
  "be_bytes 0 w = []"
| "be_bytes (Suc n) w = be_bytes n (drop_bit 8 w) @ [ucast w]"

definition be_word :: "u8 list \<Rightarrow> 'a::len word" where
  "be_word bs = foldl (\<lambda>w b. push_bit 8 w OR ucast b) 0 bs"

lemma be_word_snoc: "be_word (bs @ [b]) = push_bit 8 (be_word bs) OR ucast b"
  by (simp add: be_word_def)

lemma length_be_bytes [simp]: "length (be_bytes n w) = n"
  by (induction n w rule: be_bytes.induct) simp_all

lemma be_word_be_bytes: "be_word (be_bytes n w) = take_bit (8 * n) (w :: 'a::len word)"
proof (induction n w rule: be_bytes.induct)
  case (1 w)
  show ?case by (simp add: be_word_def)
next
  case (2 n w)
  have "push_bit 8 (take_bit (8 * n) (drop_bit 8 w)) OR ucast (ucast w :: u8)
      = take_bit (8 * Suc n) (w :: 'a word)"
    by (rule bit_word_eqI) (auto simp: bit_simps)
  then show ?case using 2 by (simp add: be_word_snoc)
qed

lemma be_word_be_bytes_full [simp]:
  "LENGTH('a::len) \<le> 8 * n \<Longrightarrow> be_word (be_bytes n w) = (w :: 'a word)"
  by (simp add: be_word_be_bytes, rule bit_word_eqI) (auto simp: bit_simps)

definition read_be16 :: "u8 list \<Rightarrow> u16 option" where
  "read_be16 bs = (if 2 \<le> length bs then Some (be_word (take 2 bs)) else None)"

definition read_be32 :: "u8 list \<Rightarrow> u32 option" where
  "read_be32 bs = (if 4 \<le> length bs then Some (be_word (take 4 bs)) else None)"

definition read_be64 :: "u8 list \<Rightarrow> u64 option" where
  "read_be64 bs = (if 8 \<le> length bs then Some (be_word (take 8 bs)) else None)"

lemma read_be_append [simp]:
  "read_be16 (be_bytes 2 w @ bs) = Some w"
  "read_be32 (be_bytes 4 w' @ bs) = Some w'"
  "read_be64 (be_bytes 8 w'' @ bs) = Some w''"
  by (simp_all add: read_be16_def read_be32_def read_be64_def)

section \<open>Packet types, directions and flags\<close>

datatype packet_type = Voice | VoiceWhisper | Command | CommandLow | Ping | Pong | Ack | AckLow | Init

datatype direction = S2C | C2S

definition packet_type_from_u8 :: "u8 \<Rightarrow> packet_type option" where
  "packet_type_from_u8 b =
     (if b < 9 then Some ([Voice, VoiceWhisper, Command, CommandLow, Ping, Pong, Ack, AckLow, Init] ! unat b)
      else None)"

fun packet_type_to_u8 :: "packet_type \<Rightarrow> u8" where
  "packet_type_to_u8 Voice = 0"
| "packet_type_to_u8 VoiceWhisper = 1"
| "packet_type_to_u8 Command = 2"
| "packet_type_to_u8 CommandLow = 3"
| "packet_type_to_u8 Ping = 4"
| "packet_type_to_u8 Pong = 5"
| "packet_type_to_u8 Ack = 6"
| "packet_type_to_u8 AckLow = 7"
| "packet_type_to_u8 Init = 8"

definition is_command :: "packet_type \<Rightarrow> bool" where
  "is_command t \<longleftrightarrow> t = Command \<or> t = CommandLow"

definition is_ack :: "packet_type \<Rightarrow> bool" where
  "is_ack t \<longleftrightarrow> t = Ack \<or> t = AckLow \<or> t = Pong"

definition is_voice :: "packet_type \<Rightarrow> bool" where
  "is_voice t \<longleftrightarrow> t = Voice \<or> t = VoiceWhisper"

fun direction_reverse :: "direction \<Rightarrow> direction" where
  "direction_reverse S2C = C2S"
| "direction_reverse C2S = S2C"

type_synonym packet_flags = u8

definition UNENCRYPTED :: packet_flags where "UNENCRYPTED = 0x80"
definition COMPRESSED :: packet_flags where "COMPRESSED = 0x40"
definition NEWPROTOCOL :: packet_flags where "NEWPROTOCOL = 0x20"
definition FRAGMENTED :: packet_flags where "FRAGMENTED = 0x10"

text \<open>\<open>Flags::contains\<close> of a single flag.\<close>

definition has_flag :: "packet_flags \<Rightarrow> packet_flags \<Rightarrow> bool" where
  "has_flag fs f \<longleftrightarrow> fs AND f = f"

definition S2C_HEADER_LEN :: nat where "S2C_HEADER_LEN = 11"
definition C2S_HEADER_LEN :: nat where "C2S_HEADER_LEN = 13"

definition header_len :: "direction \<Rightarrow> nat" where
  "header_len d = (if d = S2C then S2C_HEADER_LEN else C2S_HEADER_LEN)"

datatype packet_error =
    PacketTooShort nat
  | UnknownPacketType u8
  | PacketContentTooShort nat
  | InvalidInitStep u8
  | InvalidCodec u8
  | WrongDirection
  | WrongPacketType packet_type
  | WrongInitMac "u8 list"
  | Io
  | Panicked

type_synonym 'a presult = "packet_error + 'a"

section \<open>Incoming packets\<close>

record in_header =
  ih_direction :: direction
  ih_data :: "u8 list"

record in_packet =
  ip_header :: in_header
  ip_content :: "u8 list"

text \<open>\<open>InHeader::new\<close> slices \<open>data[..header_len]\<close> and panics when the data is shorter.\<close>

definition in_header_new :: "direction \<Rightarrow> u8 list \<Rightarrow> in_header option" where
  "in_header_new d data =
     (if header_len d \<le> length data
      then Some \<lparr>ih_direction = d, ih_data = take (header_len d) data\<rparr> else None)"

definition in_packet_new :: "direction \<Rightarrow> u8 list \<Rightarrow> in_packet option" where
  "in_packet_new d data = (case in_header_new d data of
      None \<Rightarrow> None
    | Some h \<Rightarrow> Some \<lparr>ip_header = h, ip_content = drop (length (ih_data h)) data\<rparr>)"

definition in_packet_try_new :: "direction \<Rightarrow> u8 list \<Rightarrow> in_packet presult" where
  "in_packet_try_new d data =
     (if length data < header_len d then Inl (PacketTooShort (length data))
      else let p_type = data ! (header_len d - 1) AND 0xf in
        if 8 < p_type then Inl (UnknownPacketType p_type)
        else (case in_packet_new d data of None \<Rightarrow> Inl Panicked | Some p \<Rightarrow> Inr p))"

definition get_off :: "in_header \<Rightarrow> nat" where
  "get_off h = (if ih_direction h = S2C then 10 else 12)"

definition hdr_mac :: "in_header \<Rightarrow> u8 list" where
  "hdr_mac h = take 8 (ih_data h)"

definition hdr_packet_id :: "in_header \<Rightarrow> u16" where
  "hdr_packet_id h = be_word (take 2 (drop 8 (ih_data h)))"

definition hdr_client_id :: "in_header \<Rightarrow> u16 option" where
  "hdr_client_id h =
     (if ih_direction h = S2C then None else Some (be_word (take 2 (drop 10 (ih_data h)))))"

definition hdr_flags :: "in_header \<Rightarrow> packet_flags" where
  "hdr_flags h = ih_data h ! get_off h AND 0xf0"

definition hdr_packet_type :: "in_header \<Rightarrow> packet_type option" where
  "hdr_packet_type h = packet_type_from_u8 (ih_data h ! get_off h AND 0xf)"

definition get_meta :: "in_header \<Rightarrow> u8 list" where
  "get_meta h = drop 8 (ih_data h)"

text \<open>A header that \<open>InHeader::new\<close> made: exactly the bytes of its direction.\<close>

definition in_header_ok :: "in_header \<Rightarrow> bool" where
  "in_header_ok h \<longleftrightarrow> length (ih_data h) = header_len (ih_direction h)"

definition ack_packet :: "in_packet \<Rightarrow> u16 option presult" where
  "ack_packet p = (case hdr_packet_type (ip_header p) of
      None \<Rightarrow> Inl Panicked
    | Some p_type \<Rightarrow>
        if is_ack p_type
        then (case read_be16 (ip_content p) of
            None \<Rightarrow> Inl (PacketContentTooShort (length (ip_content p)))
          | Some i \<Rightarrow> Inr (Some i))
        else if p_type = Init
        then if ih_direction (ip_header p) = S2C
          then (case ip_content p of
              [] \<Rightarrow> Inl (PacketContentTooShort 0)
            | i # _ \<Rightarrow>
                if i = 1 then Inr (Some 0)
                else if i = 3 then Inr (Some 2)
                else if i = 127 then Inr (Some 2)
                else Inl (InvalidInitStep i))
          else if length (ip_content p) \<le> 4
            then Inl (PacketContentTooShort (length (ip_content p)))
            else let i = ip_content p ! 4 in
              if i = 0 then Inr None
              else if i = 2 then Inr (Some 1)
              else if i = 4 then Inr (Some 3)
              else Inl (InvalidInitStep i)
        else Inr None)"

section \<open>The messages of the initial handshake\<close>

datatype c2s_init =
    Init0 (c_version: u32) (c_timestamp: u32) (c_random0: "u8 list")
  | Init2 (c_version: u32) (c_random1: "u8 list") (c_random0_r: "u8 list")
  | Init4 (c_version: u32) (c_x: "u8 list") (c_n: "u8 list") (c_level: u32) (c_random2: "u8 list")
      (c_y: "u8 list") (c_command: "u8 list")

datatype s2c_init =
    Init1 "u8 list" "u8 list"
  | Init3 "u8 list" "u8 list" u32 "u8 list"
  | Init127

fun c2s_step :: "c2s_init \<Rightarrow> u8" where
  "c2s_step (Init0 _ _ _) = 0"
| "c2s_step (Init2 _ _ _) = 2"
| "c2s_step (Init4 _ _ _ _ _ _ _) = 4"

fun s2c_step :: "s2c_init \<Rightarrow> u8" where
  "s2c_step (Init1 _ _) = 1"
| "s2c_step (Init3 _ _ _ _) = 3"
| "s2c_step Init127 = 127"

definition ascii :: "string \<Rightarrow> u8 list" where
  "ascii s = map of_char s"

definition INIT_MAC :: "u8 list" where
  "INIT_MAC = ascii ''TS3INIT1''"

text \<open>The slice \<open>content[a..b]\<close>, used only where the length was checked before.\<close>

definition slice :: "nat \<Rightarrow> nat \<Rightarrow> u8 list \<Rightarrow> u8 list" where
  "slice a b bs = take (b - a) (drop a bs)"

text \<open>The checks both parsers start with.\<close>

definition check_init :: "direction \<Rightarrow> in_packet \<Rightarrow> unit presult" where
  "check_init d p =
     (if ih_direction (ip_header p) \<noteq> d then Inl WrongDirection
      else case hdr_packet_type (ip_header p) of
        None \<Rightarrow> Inl Panicked
      | Some t \<Rightarrow>
          if t \<noteq> Init then Inl (WrongPacketType t)
          else if hdr_mac (ip_header p) \<noteq> INIT_MAC then Inl (WrongInitMac (hdr_mac (ip_header p)))
          else Inr ())"

definition into_s2cinit :: "in_packet \<Rightarrow> s2c_init presult" where
  "into_s2cinit p = (case check_init S2C p of Inl e \<Rightarrow> Inl e | Inr _ \<Rightarrow>
     (let c = ip_content p in
      if c = [] then Inl (PacketContentTooShort (length c))
      else if c ! 0 = 1 then
        if length c < 21 then Inl (PacketContentTooShort (length c))
        else Inr (Init1 (slice 1 17 c) (slice 17 21 c))
      else if c ! 0 = 3 then
        if length c < 233 then Inl (PacketContentTooShort (length c))
        else (case read_be32 (drop 129 c) of None \<Rightarrow> Inl Io | Some level \<Rightarrow>
          Inr (Init3 (slice 1 65 c) (slice 65 129 c) level (slice 133 233 c)))
      else if c ! 0 = 127 then Inr Init127
      else Inl (InvalidInitStep (c ! 0))))"

definition into_c2sinit :: "in_packet \<Rightarrow> c2s_init presult" where
  "into_c2sinit p = (case check_init C2S p of Inl e \<Rightarrow> Inl e | Inr _ \<Rightarrow>
     (let c = ip_content p in
      if length c < 5 then Inl (PacketContentTooShort (length c))
      else case read_be32 c of None \<Rightarrow> Inl Io | Some version \<Rightarrow>
      if c ! 4 = 0 then
        if length c < 13 then Inl (PacketContentTooShort (length c))
        else (case read_be32 (drop 5 c) of None \<Rightarrow> Inl Io | Some timestamp \<Rightarrow>
          Inr (Init0 version timestamp (slice 9 13 c)))
      else if c ! 4 = 2 then
        if length c < 25 then Inl (PacketContentTooShort (length c))
        else Inr (Init2 version (slice 5 21 c) (slice 21 25 c))
      else if c ! 4 = 4 then
        let len = 5 + 128 + 4 + 100 + 64 in
        if length c < len + 20 then Inl (PacketContentTooShort (length c))
        else (case read_be32 (drop 133 c) of None \<Rightarrow> Inl Io | Some level \<Rightarrow>
          Inr (Init4 version (slice 5 69 c) (slice 69 133 c) level (slice 137 237 c)
            (slice 237 301 c) (drop len c)))
      else Inl (InvalidInitStep (c ! 0))))"

section \<open>Outgoing packets\<close>

record out_packet =
  op_dir :: direction
  op_data :: "u8 list"

text \<open>
  Writing into \<open>data[i..i + n]\<close>; a shorter buffer panics. Every constructor but \<open>new_from_data\<close>
  makes a buffer with a full header (\<open>out_packet_ok\<close>).
\<close>

definition write_at :: "nat \<Rightarrow> u8 list \<Rightarrow> out_packet \<Rightarrow> out_packet option" where
  "write_at i bs p =
     (if i + length bs \<le> length (op_data p)
      then Some (p\<lparr>op_data := take i (op_data p) @ bs @ drop (i + length bs) (op_data p)\<rparr>)
      else None)"

definition type_off :: "out_packet \<Rightarrow> nat" where
  "type_off p = (if op_dir p = S2C then 10 else 12)"

definition set_mac :: "u8 list \<Rightarrow> out_packet \<Rightarrow> out_packet option" where
  "set_mac mac p = write_at 0 mac p"

definition set_packet_id :: "u16 \<Rightarrow> out_packet \<Rightarrow> out_packet option" where
  "set_packet_id i p = write_at 8 (be_bytes 2 i) p"

definition set_client_id :: "u16 \<Rightarrow> out_packet \<Rightarrow> out_packet option" where
  "set_client_id i p = (if op_dir p = C2S then write_at 10 (be_bytes 2 i) p else None)"

definition set_flags :: "packet_flags \<Rightarrow> out_packet \<Rightarrow> out_packet option" where
  "set_flags fs p =
     (if header_len (op_dir p) \<le> length (op_data p)
      then write_at (type_off p) [(op_data p ! type_off p AND 0xf) OR fs] p else None)"

definition set_packet_type :: "packet_type \<Rightarrow> out_packet \<Rightarrow> out_packet option" where
  "set_packet_type t p =
     (if header_len (op_dir p) \<le> length (op_data p)
      then write_at (type_off p) [(op_data p ! type_off p AND 0xf0) OR packet_type_to_u8 t] p
      else None)"

definition new_with_dir :: "direction \<Rightarrow> packet_flags \<Rightarrow> packet_type \<Rightarrow> out_packet option" where
  "new_with_dir d fs t = do {
     p \<leftarrow> set_flags fs \<lparr>op_dir = d, op_data = replicate (header_len d) 0\<rparr>;
     set_packet_type t p
   }"

text \<open>The array \<open>mac\<close> has eight bytes.\<close>

definition out_packet_new ::
    "u8 list \<Rightarrow> u16 \<Rightarrow> u16 option \<Rightarrow> packet_flags \<Rightarrow> packet_type \<Rightarrow> out_packet option" where
  "out_packet_new mac i cid fs t = do {
     p \<leftarrow> new_with_dir (if cid \<noteq> None then C2S else S2C) fs t;
     p \<leftarrow> set_mac mac p;
     p \<leftarrow> set_packet_id i p;
     (case cid of None \<Rightarrow> Some p | Some c \<Rightarrow> set_client_id c p)
   }"

definition new_from_data :: "direction \<Rightarrow> u8 list \<Rightarrow> out_packet" where
  "new_from_data d data = \<lparr>op_dir = d, op_data = data\<rparr>"

definition out_packet_ok :: "out_packet \<Rightarrow> bool" where
  "out_packet_ok p \<longleftrightarrow> header_len (op_dir p) \<le> length (op_data p)"

definition out_content :: "out_packet \<Rightarrow> u8 list" where
  "out_content p = drop (header_len (op_dir p)) (op_data p)"

definition out_header :: "out_packet \<Rightarrow> in_header option" where
  "out_header p = in_header_new (op_dir p) (op_data p)"

definition push_bytes :: "u8 list \<Rightarrow> out_packet \<Rightarrow> out_packet" where
  "push_bytes bs p = p\<lparr>op_data := op_data p @ bs\<rparr>"

record out_udp_packet =
  generation_id :: u32
  udp_data :: out_packet

definition udp_packet_type :: "out_udp_packet \<Rightarrow> packet_type option" where
  "udp_packet_type u = Option.bind (out_header (udp_data u)) hdr_packet_type"

definition nth_opt :: "'a list \<Rightarrow> nat \<Rightarrow> 'a option" where
  "nth_opt xs i = (if i < length xs then Some (xs ! i) else None)"

definition udp_packet_id :: "out_udp_packet \<Rightarrow> u16 option" where
  "udp_packet_id u = do {
     t \<leftarrow> udp_packet_type u;
     if t = Init
     then map_option ucast (nth_opt (out_content (udp_data u)) (if op_dir (udp_data u) = S2C then 0 else 4))
     else map_option hdr_packet_id (out_header (udp_data u))
   }"

text \<open>\<open>OutAck::new\<close> panics for a packet type that is not acknowledged.\<close>

fun ack_type :: "packet_type \<Rightarrow> packet_type option" where
  "ack_type Command = Some Ack"
| "ack_type CommandLow = Some AckLow"
| "ack_type Ping = Some Pong"
| "ack_type _ = None"

definition out_ack :: "direction \<Rightarrow> packet_type \<Rightarrow> u16 \<Rightarrow> out_packet option" where
  "out_ack d for_type i = do {
     p_type \<leftarrow> ack_type for_type;
     p \<leftarrow> new_with_dir d 0 p_type;
     Some (push_bytes (be_bytes 2 i) p)
   }"

text \<open>The steps all five handshake messages start with.\<close>

definition new_init :: "direction \<Rightarrow> out_packet option" where
  "new_init d = do {
     p \<leftarrow> new_with_dir d 0 Init;
     p \<leftarrow> set_mac INIT_MAC p;
     set_packet_id 0x65 p
   }"

definition out_c2s_init0 :: "u32 \<Rightarrow> u32 \<Rightarrow> u8 list \<Rightarrow> out_packet option" where
  "out_c2s_init0 version timestamp random0 =
     map_option (push_bytes (be_bytes 4 version @ [0] @ be_bytes 4 timestamp @ random0 @ replicate 8 0))
       (new_init C2S)"

definition out_c2s_init2 :: "u32 \<Rightarrow> u8 list \<Rightarrow> u8 list \<Rightarrow> out_packet option" where
  "out_c2s_init2 version random1 random0_r =
     map_option (push_bytes (be_bytes 4 version @ [2] @ random1 @ random0_r)) (new_init C2S)"

text \<open>\<open>b64\<close> is \<open>BASE64_STANDARD.encode\<close> of the crate \<open>base64\<close>; \<open>ip\<close> is the UTF-8 text.\<close>

definition clientinitiv :: "(u8 list \<Rightarrow> u8 list) \<Rightarrow> u8 list \<Rightarrow> u8 list \<Rightarrow> u8 list \<Rightarrow> u8 list" where
  "clientinitiv b64 alpha omega ip =
     ascii ''clientinitiv alpha='' @ b64 alpha @ ascii '' omega='' @ b64 omega @ ascii '' ot=1 ip''
       @ (if ip = [] then [] else ascii ''='' @ ip)"

definition out_c2s_init4 ::
    "(u8 list \<Rightarrow> u8 list) \<Rightarrow> u32 \<Rightarrow> u8 list \<Rightarrow> u8 list \<Rightarrow> u32 \<Rightarrow> u8 list \<Rightarrow> u8 list \<Rightarrow> u8 list
      \<Rightarrow> u8 list \<Rightarrow> u8 list \<Rightarrow> out_packet option" where
  "out_c2s_init4 b64 version x n level random2 y alpha omega ip =
     map_option (push_bytes (be_bytes 4 version @ [4] @ x @ n @ be_bytes 4 level @ random2 @ y
         @ clientinitiv b64 alpha omega ip)) (new_init C2S)"

definition out_s2c_init1 :: "u8 list \<Rightarrow> u8 list \<Rightarrow> out_packet option" where
  "out_s2c_init1 random1 random0_r =
     map_option (push_bytes ([1] @ random1 @ random0_r)) (new_init S2C)"

definition out_s2c_init3 :: "u8 list \<Rightarrow> u8 list \<Rightarrow> u32 \<Rightarrow> u8 list \<Rightarrow> out_packet option" where
  "out_s2c_init3 x n level random2 =
     map_option (push_bytes ([3] @ x @ n @ be_bytes 4 level @ random2)) (new_init S2C)"

section \<open>Headers\<close>

text \<open>The constants and shapes every header proof unfolds.\<close>

lemmas header_defs = header_len_def S2C_HEADER_LEN_def C2S_HEADER_LEN_def get_off_def type_off_def

lemma header_len_simps [simp]: "header_len S2C = 11" "header_len C2S = 13"
  by (simp_all add: header_defs)

lemma header_len_pos: "11 \<le> header_len d"
  by (cases d) simp_all

lemma packet_type_u8 [simp]: "packet_type_from_u8 (packet_type_to_u8 t) = Some t"
  by (cases t) (simp_all add: packet_type_from_u8_def)

lemma packet_type_u8_less: "packet_type_to_u8 t < 16"
  by (cases t) simp_all

lemma packet_type_to_u8_low [simp]:
  "packet_type_to_u8 t AND 0xf = packet_type_to_u8 t" "packet_type_to_u8 t AND 0xf0 = 0"
  by (cases t; simp)+

lemma packet_type_from_u8_None: "packet_type_from_u8 b = None \<longleftrightarrow> 8 < b"
  by (auto simp: packet_type_from_u8_def word_less_nat_alt word_le_nat_alt not_less)

lemma nibbles:
  fixes fs t :: u8
  assumes "fs AND 0xf = 0" "t AND 0xf0 = 0"
  shows "(fs OR t) AND 0xf0 = fs" "(fs OR t) AND 0xf = t"
proof -
  have m: "(0xf :: u8) = mask 4" "(0xf0 :: u8) = NOT (mask 4)"
    by (simp_all add: mask_eq_exp_minus_1)
  have f: "\<not> bit fs k" if "k < 4" for k
    using assms(1) that unfolding m by (auto simp: bit_eq_iff bit_simps dest: spec [of _ k])
  have g: "k < 4" if "bit t k" "k < 8" for k
    using assms(2) that unfolding m by (auto simp: bit_eq_iff bit_simps dest: spec [of _ k])
  show "(fs OR t) AND 0xf0 = fs" "(fs OR t) AND 0xf = t"
    unfolding m by (rule bit_word_eqI, use f g in \<open>auto simp: bit_simps\<close>)+
qed

text \<open>Every packet that passes the sanity checks can be read without a panic.\<close>

lemma in_packet_new_Some:
  "header_len d \<le> length data \<Longrightarrow> in_packet_new d data =
     Some \<lparr>ip_header = \<lparr>ih_direction = d, ih_data = take (header_len d) data\<rparr>,
       ip_content = drop (header_len d) data\<rparr>"
  by (simp add: in_packet_new_def in_header_new_def min_def)

lemma in_packet_try_new_cases:
  obtains (short) "length data < header_len d"
      "in_packet_try_new d data = Inl (PacketTooShort (length data))"
  | (type) "header_len d \<le> length data" "8 < data ! (header_len d - 1) AND 0xf"
      "in_packet_try_new d data = Inl (UnknownPacketType (data ! (header_len d - 1) AND 0xf))"
  | (ok) p t where "in_packet_try_new d data = Inr p" "in_packet_new d data = Some p"
      "header_len d \<le> length data" "hdr_packet_type (ip_header p) = Some t"
      "ih_direction (ip_header p) = d" "in_header_ok (ip_header p)"
      "ip_content p = drop (header_len d) data" "ih_data (ip_header p) = take (header_len d) data"
proof (cases "length data < header_len d")
  case True
  then show ?thesis by (intro short) (simp_all add: in_packet_try_new_def)
next
  case False
  then have len: "header_len d \<le> length data" by simp
  show ?thesis
  proof (cases "8 < data ! (header_len d - 1) AND 0xf")
    case True
    then show ?thesis using len by (intro type) (simp_all add: in_packet_try_new_def Let_def)
  next
    case False
    define p where "p = \<lparr>ip_header = \<lparr>ih_direction = d, ih_data = take (header_len d) data\<rparr>,
       ip_content = drop (header_len d) data\<rparr>"
    have n: "in_packet_new d data = Some p" using len by (simp add: in_packet_new_Some p_def)
    have "get_off (ip_header p) = header_len d - 1" by (cases d) (simp_all add: p_def get_off_def)
    then have "ih_data (ip_header p) ! get_off (ip_header p) = data ! (header_len d - 1)"
      using header_len_pos [of d] by (simp add: p_def)
    then have "hdr_packet_type (ip_header p) \<noteq> None"
      using False by (simp add: hdr_packet_type_def packet_type_from_u8_None)
    then obtain t where t: "hdr_packet_type (ip_header p) = Some t" by blast
    show ?thesis
      by (rule ok [OF _ n len t]) (use len False n in \<open>simp_all add: in_packet_try_new_def p_def in_header_ok_def\<close>)
  qed
qed

lemma write_at_Some:
  "i + length bs \<le> length (op_data p) \<Longrightarrow>
     write_at i bs p = Some (p\<lparr>op_data := take i (op_data p) @ bs @ drop (i + length bs) (op_data p)\<rparr>)"
  by (simp add: write_at_def)

text \<open>A fresh header: everything zero but the byte with the flags and the type.\<close>

lemma new_with_dir_eq:
  assumes "fs AND 0xf = 0"
  shows "new_with_dir d fs t =
    Some \<lparr>op_dir = d, op_data = replicate (header_len d - 1) 0 @ [fs OR packet_type_to_u8 t]\<rparr>"
proof -
  have "fs AND 0xf0 = fs" using nibbles(1) [of fs 0] assms by simp
  then show ?thesis
    by (cases d) (simp_all add: new_with_dir_def set_flags_def set_packet_type_def write_at_def
      type_off_def numeral_nat nth_append)
qed

lemma out_packet_new_eq:
  assumes "length mac = 8" "fs AND 0xf = 0"
  shows "out_packet_new mac i cid fs t = Some (case cid of
      None \<Rightarrow> \<lparr>op_dir = S2C, op_data = mac @ be_bytes 2 i @ [fs OR packet_type_to_u8 t]\<rparr>
    | Some c \<Rightarrow> \<lparr>op_dir = C2S,
        op_data = mac @ be_bytes 2 i @ be_bytes 2 c @ [fs OR packet_type_to_u8 t]\<rparr>)"
  using assms by (cases cid)
    (simp_all add: out_packet_new_def new_with_dir_eq set_mac_def set_packet_id_def
      set_client_id_def write_at_def numeral_nat)

text \<open>Reading a header back gives what \<open>OutPacket::new\<close> put into it.\<close>

theorem header_round_trip:
  assumes "length mac = 8" "fs AND 0xf = 0"
  shows "\<exists>p h. out_packet_new mac i cid fs t = Some p
    \<and> in_packet_try_new (op_dir p) (op_data p) = Inr \<lparr>ip_header = h, ip_content = []\<rparr>
    \<and> hdr_mac h = mac \<and> hdr_packet_id h = i \<and> hdr_client_id h = cid \<and> hdr_flags h = fs
    \<and> hdr_packet_type h = Some t"
proof -
  have n: "(fs OR packet_type_to_u8 t) AND 0xf0 = fs"
    "(fs OR packet_type_to_u8 t) AND 0xf = packet_type_to_u8 t"
    using nibbles [of fs "packet_type_to_u8 t"] assms by simp_all
  have "packet_type_to_u8 t \<le> 8" by (cases t) simp_all
  note defs = in_packet_try_new_def in_packet_new_def in_header_new_def hdr_mac_def
    hdr_packet_id_def hdr_client_id_def hdr_flags_def hdr_packet_type_def get_off_def
  show ?thesis
  proof (cases cid)
    case None
    show ?thesis
      apply (simp add: out_packet_new_eq [OF assms] None)
      using assms n \<open>packet_type_to_u8 t \<le> 8\<close>
      by (simp add: defs Let_def nth_append linorder_not_less)
  next
    case (Some c)
    show ?thesis
      apply (simp add: out_packet_new_eq [OF assms] Some)
      using assms n \<open>packet_type_to_u8 t \<le> 8\<close>
      by (simp add: defs Let_def nth_append linorder_not_less)
  qed
qed

section \<open>Acknowledgements and handshake messages\<close>

lemma out_ack_eq:
  "ack_type t = Some a \<Longrightarrow> out_ack d t i =
     Some \<lparr>op_dir = d, op_data = replicate (header_len d - 1) 0 @ [packet_type_to_u8 a] @ be_bytes 2 i\<rparr>"
  by (simp add: out_ack_def new_with_dir_eq push_bytes_def)

text \<open>An incoming packet made of a header of length \<open>header_len d\<close> with type byte \<open>b\<close> and a content.\<close>

lemma parse_packet:
  assumes "length pre = header_len d - 1" "b AND 0xf = packet_type_to_u8 t"
  shows "in_packet_try_new d (pre @ b # c) =
     Inr \<lparr>ip_header = \<lparr>ih_direction = d, ih_data = pre @ [b]\<rparr>, ip_content = c\<rparr>"
    "hdr_packet_type \<lparr>ih_direction = d, ih_data = pre @ [b]\<rparr> = Some t"
proof -
  have "packet_type_to_u8 t \<le> 8" by (cases t) simp_all
  then show "in_packet_try_new d (pre @ b # c) =
     Inr \<lparr>ip_header = \<lparr>ih_direction = d, ih_data = pre @ [b]\<rparr>, ip_content = c\<rparr>"
    using assms by (cases d) (simp_all add: in_packet_try_new_def Let_def in_packet_new_Some nth_append not_less)
  show "hdr_packet_type \<lparr>ih_direction = d, ih_data = pre @ [b]\<rparr> = Some t"
    using assms by (cases d) (simp_all add: hdr_packet_type_def get_off_def nth_append)
qed

lemma new_init_eq:
  "new_init d = Some \<lparr>op_dir = d, op_data =
     (INIT_MAC @ be_bytes 2 (0x65 :: u16) @ replicate (header_len d - 11) 0) @ [8]\<rparr>"
  by (cases d) (simp_all add: new_init_def new_with_dir_eq set_mac_def set_packet_id_def
    write_at_def numeral_nat INIT_MAC_def ascii_def)

lemma check_init_ok:
  assumes "length post = header_len d - 11"
  shows "check_init d \<lparr>ip_header = \<lparr>ih_direction = d,
      ih_data = (INIT_MAC @ be_bytes 2 (0x65 :: u16) @ post) @ [8]\<rparr>, ip_content = c\<rparr> = Inr ()"
  using assms parse_packet(2) [of "INIT_MAC @ be_bytes 2 (0x65 :: u16) @ post" d 8 Init]
  by (cases d) (simp_all add: check_init_def hdr_mac_def INIT_MAC_def ascii_def)

text \<open>A handshake message is parsed back from the bytes of its packet.\<close>

lemma init_packet:
  assumes "map_option (push_bytes c) (new_init d) = Some p"
  shows "\<exists>q. in_packet_try_new d (op_data p) = Inr q \<and> check_init d q = Inr () \<and> ip_content q = c"
proof -
  let ?h = "INIT_MAC @ be_bytes 2 (0x65 :: u16) @ replicate (header_len d - 11) 0"
  have "length ?h = header_len d - 1" by (cases d) (simp_all add: INIT_MAC_def ascii_def)
  then have "in_packet_try_new d (?h @ 8 # c) =
      Inr \<lparr>ip_header = \<lparr>ih_direction = d, ih_data = ?h @ [8]\<rparr>, ip_content = c\<rparr>"
    by (intro parse_packet(1) [where t = Init]) simp_all
  moreover have "op_data p = ?h @ 8 # c"
    using assms by (auto simp: new_init_eq push_bytes_def)
  ultimately show ?thesis using check_init_ok [of "replicate (header_len d - 11) 0" d c] by auto
qed

lemma slice_append [simp]:
  "slice (length xs) (length xs + n) (xs @ ys) = take n ys"
  by (simp add: slice_def)

lemma slice_at:
  "a = length xs \<Longrightarrow> b = a + length ys \<Longrightarrow> slice a b (xs @ ys @ zs) = ys"
  by (simp add: slice_def)

theorem ack_round_trip:
  "(\<exists>p q. out_ack d t i = Some p \<and> in_packet_try_new d (op_data p) = Inr q
      \<and> ack_packet q = Inr (Some i)) \<longleftrightarrow> t = Command \<or> t = CommandLow \<or> t = Ping"
proof -
  have ok: "\<exists>p q. out_ack d t i = Some p \<and> in_packet_try_new d (op_data p) = Inr q
      \<and> ack_packet q = Inr (Some i)" if a: "ack_type t = Some a" for a
  proof -
    let ?h = "replicate (header_len d - 1) (0 :: u8)"
    have "in_packet_try_new d (?h @ packet_type_to_u8 a # be_bytes 2 i) =
        Inr \<lparr>ip_header = \<lparr>ih_direction = d, ih_data = ?h @ [packet_type_to_u8 a]\<rparr>,
          ip_content = be_bytes 2 i\<rparr>"
      and "hdr_packet_type \<lparr>ih_direction = d, ih_data = ?h @ [packet_type_to_u8 a]\<rparr> = Some a"
      by (intro parse_packet; simp)+
    moreover have "is_ack a" using a by (cases t) (auto simp: is_ack_def)
    moreover have "read_be16 (be_bytes 2 i) = Some i" using read_be_append(1) [of i "[]"] by simp
    ultimately show ?thesis by (simp add: out_ack_eq [OF a] ack_packet_def)
  qed
  have "out_ack d t i = None" if "ack_type t = None" using that by (simp add: out_ack_def)
  with ok show ?thesis by (cases t) simp_all
qed

text \<open>The content of each handshake message, and what the parser makes of it.\<close>

fun c2s_init_wf :: "c2s_init \<Rightarrow> bool" where
  "c2s_init_wf (Init0 _ _ random0) \<longleftrightarrow> length random0 = 4"
| "c2s_init_wf (Init2 _ random1 random0_r) \<longleftrightarrow> length random1 = 16 \<and> length random0_r = 4"
| "c2s_init_wf (Init4 _ x n _ random2 y command) \<longleftrightarrow> length x = 64 \<and> length n = 64
     \<and> length random2 = 100 \<and> length y = 64 \<and> 20 \<le> length command"

fun c2s_init_content :: "c2s_init \<Rightarrow> u8 list" where
  "c2s_init_content (Init0 version timestamp random0) =
     be_bytes 4 version @ [0] @ be_bytes 4 timestamp @ random0 @ replicate 8 0"
| "c2s_init_content (Init2 version random1 random0_r) =
     be_bytes 4 version @ [2] @ random1 @ random0_r"
| "c2s_init_content (Init4 version x n level random2 y command) =
     be_bytes 4 version @ [4] @ x @ n @ be_bytes 4 level @ random2 @ y @ command"

lemma into_c2sinit_content:
  assumes "check_init C2S q = Inr ()" "ip_content q = c2s_init_content m" "c2s_init_wf m"
  shows "into_c2sinit q = Inr m"
  using assms by (cases m) (simp_all add: into_c2sinit_def Let_def nth_append slice_def)

lemma into_s2cinit_content:
  assumes "check_init S2C q = Inr ()"
  shows "ip_content q = [1] @ random1 @ random0_r \<Longrightarrow> length random1 = 16 \<Longrightarrow> length random0_r = 4
      \<Longrightarrow> into_s2cinit q = Inr (Init1 random1 random0_r)"
    and "ip_content q = [3] @ x @ n @ be_bytes 4 level @ random2 \<Longrightarrow> length x = 64
      \<Longrightarrow> length n = 64 \<Longrightarrow> length random2 = 100 \<Longrightarrow> into_s2cinit q = Inr (Init3 x n level random2)"
  using assms by (simp_all add: into_s2cinit_def Let_def slice_def)

definition c2s_received :: "out_packet option \<Rightarrow> c2s_init presult" where
  "c2s_received p = (case p of None \<Rightarrow> Inl Panicked | Some p \<Rightarrow>
     (case in_packet_try_new C2S (op_data p) of Inl e \<Rightarrow> Inl e | Inr q \<Rightarrow> into_c2sinit q))"

definition s2c_received :: "out_packet option \<Rightarrow> s2c_init presult" where
  "s2c_received p = (case p of None \<Rightarrow> Inl Panicked | Some p \<Rightarrow>
     (case in_packet_try_new S2C (op_data p) of Inl e \<Rightarrow> Inl e | Inr q \<Rightarrow> into_s2cinit q))"

lemma c2s_received_content:
  "c2s_init_wf m \<Longrightarrow> c2s_received (map_option (push_bytes (c2s_init_content m)) (new_init C2S)) = Inr m"
  using init_packet [of "c2s_init_content m" C2S]
  by (fastforce simp: c2s_received_def new_init_eq into_c2sinit_content)

lemma s2c_received_content:
  assumes "\<And>q. check_init S2C q = Inr () \<Longrightarrow> ip_content q = c \<Longrightarrow> into_s2cinit q = Inr m"
  shows "s2c_received (map_option (push_bytes c) (new_init S2C)) = Inr m"
  using init_packet [of c S2C] by (fastforce simp: s2c_received_def new_init_eq assms)

text \<open>The five messages of the handshake are read back as they were written.\<close>

theorem init_round_trip:
  assumes "length random0 = 4" "length random1 = 16" "length random2 = 100"
    "length x = 64" "length n = 64" "length y = 64"
  shows "c2s_received (out_c2s_init0 version timestamp random0) = Inr (Init0 version timestamp random0)
    \<and> s2c_received (out_s2c_init1 random1 random0) = Inr (Init1 random1 random0)
    \<and> c2s_received (out_c2s_init2 version random1 random0) = Inr (Init2 version random1 random0)
    \<and> s2c_received (out_s2c_init3 x n level random2) = Inr (Init3 x n level random2)
    \<and> c2s_received (out_c2s_init4 b64 version x n level random2 y alpha omega ip)
      = Inr (Init4 version x n level random2 y (clientinitiv b64 alpha omega ip))"
proof (intro conjI)
  show "c2s_received (out_c2s_init0 version timestamp random0) = Inr (Init0 version timestamp random0)"
    using c2s_received_content [of "Init0 version timestamp random0"] assms
    by (simp add: out_c2s_init0_def)
  show "c2s_received (out_c2s_init2 version random1 random0) = Inr (Init2 version random1 random0)"
    using c2s_received_content [of "Init2 version random1 random0"] assms
    by (simp add: out_c2s_init2_def)
  have "20 \<le> length (clientinitiv b64 alpha omega ip)" by (simp add: clientinitiv_def ascii_def)
  then show "c2s_received (out_c2s_init4 b64 version x n level random2 y alpha omega ip)
      = Inr (Init4 version x n level random2 y (clientinitiv b64 alpha omega ip))"
    using c2s_received_content [of "Init4 version x n level random2 y (clientinitiv b64 alpha omega ip)"]
      assms by (simp add: out_c2s_init4_def)
  show "s2c_received (out_s2c_init1 random1 random0) = Inr (Init1 random1 random0)"
    unfolding out_s2c_init1_def
    by (rule s2c_received_content, rule into_s2cinit_content(1)) (use assms in simp_all)
  show "s2c_received (out_s2c_init3 x n level random2) = Inr (Init3 x n level random2)"
    unfolding out_s2c_init3_def
    by (rule s2c_received_content, rule into_s2cinit_content(2)) (use assms in simp_all)
qed

lemma init_round_trip_witness:
  "c2s_received (out_c2s_init0 7 8 [1, 2, 3, 4]) = Inr (Init0 7 8 [1, 2, 3, 4])"
  using init_round_trip [of "[1, 2, 3, 4]" "replicate 16 0" "replicate 100 0" "replicate 64 0"
    "replicate 64 0" "replicate 64 0" 7 8] by simp

lemma read_be32_Some: "4 \<le> length bs \<Longrightarrow> read_be32 bs = Some (be_word (take 4 bs))"
  by (simp add: read_be32_def)

lemma ack_packet_no_panic:
  "hdr_packet_type (ip_header p) = Some t \<Longrightarrow> ack_packet p \<noteq> Inl Panicked"
  by (simp add: ack_packet_def Let_def split: option.split list.split)

lemma into_c2sinit_no_panic:
  assumes "check_init C2S p \<notin> {Inl Panicked, Inl Io}"
  shows "into_c2sinit p \<notin> {Inl Panicked, Inl Io}"
proof (cases "check_init C2S p")
  case (Inl e)
  then show ?thesis using assms by (simp add: into_c2sinit_def)
next
  case (Inr u)
  then show ?thesis by (simp add: into_c2sinit_def Let_def read_be32_Some)
qed

lemma into_s2cinit_no_panic:
  assumes "check_init S2C p \<notin> {Inl Panicked, Inl Io}"
  shows "into_s2cinit p \<notin> {Inl Panicked, Inl Io}"
proof (cases "check_init S2C p")
  case (Inl e)
  then show ?thesis using assms by (simp add: into_s2cinit_def)
next
  case (Inr u)
  then show ?thesis by (simp add: into_s2cinit_def Let_def read_be32_Some)
qed



end
