(* ===== verification/Utf8.thy ===== *)
theory Utf8
  imports Packets
begin

text \<open>
  UTF-8 as the standard library reads and writes it: \<open>str::as_bytes\<close> and \<open>str::from_utf8\<close>. A text is
  a list of scalar values; overlong forms, surrogates and values past the last plane are refused.
\<close>

definition scalar_value :: "rchar \<Rightarrow> bool" where
  "scalar_value c \<longleftrightarrow> 0 \<le> c \<and> c < 1114112 \<and> \<not> (55296 \<le> c \<and> c < 57344)"

definition byte_of :: "int \<Rightarrow> u8" where
  "byte_of i = word_of_int i"

definition utf8_char :: "rchar \<Rightarrow> u8 list" where
  "utf8_char c =
     (if c < 128 then [byte_of c]
      else if c < 2048 then [byte_of (192 + c div 64), byte_of (128 + c mod 64)]
      else if c < 65536
        then [byte_of (224 + c div 4096), byte_of (128 + c div 64 mod 64), byte_of (128 + c mod 64)]
      else [byte_of (240 + c div 262144), byte_of (128 + c div 4096 mod 64),
        byte_of (128 + c div 64 mod 64), byte_of (128 + c mod 64)])"

definition utf8_encode :: "rstr \<Rightarrow> u8 list" where
  "utf8_encode s = concat (map utf8_char s)"

text \<open>The six bits of a continuation byte, if it is one.\<close>

definition continuation :: "u8 \<Rightarrow> int option" where
  "continuation b = (if 128 \<le> uint b \<and> uint b < 192 then Some (uint b - 128) else None)"

definition scalar_from :: "int \<Rightarrow> rchar \<Rightarrow> rchar option" where
  "scalar_from low c = (if low \<le> c \<and> scalar_value c then Some c else None)"

text \<open>One character at the front of the bytes, and how many bytes it takes.\<close>

definition utf8_head :: "u8 \<Rightarrow> u8 list \<Rightarrow> (rchar \<times> nat) option" where
  "utf8_head a bs = (let i = uint a in
     if i < 128 then Some (i, 0)
     else if 192 \<le> i \<and> i < 224 then (case bs of
         b # _ \<Rightarrow> do { x \<leftarrow> continuation b; c \<leftarrow> scalar_from 128 ((i - 192) * 64 + x); Some (c, 1) }
       | _ \<Rightarrow> None)
     else if 224 \<le> i \<and> i < 240 then (case bs of
         b # d # _ \<Rightarrow> do { x \<leftarrow> continuation b; y \<leftarrow> continuation d;
           c \<leftarrow> scalar_from 2048 ((i - 224) * 4096 + x * 64 + y); Some (c, 2) }
       | _ \<Rightarrow> None)
     else if 240 \<le> i \<and> i < 248 then (case bs of
         b # d # e # _ \<Rightarrow> do { x \<leftarrow> continuation b; y \<leftarrow> continuation d; z \<leftarrow> continuation e;
           c \<leftarrow> scalar_from 65536 ((i - 240) * 262144 + x * 4096 + y * 64 + z); Some (c, 3) }
       | _ \<Rightarrow> None)
     else None)"

function utf8_decode :: "u8 list \<Rightarrow> rstr option" where
  "utf8_decode [] = Some []"
| "utf8_decode (a # bs) = (case utf8_head a bs of
      None \<Rightarrow> None
    | Some (c, n) \<Rightarrow> map_option ((#) c) (utf8_decode (drop n bs)))"
  by pat_completeness auto
termination by (relation "measure length") auto

lemma uint_byte_of [simp]: "0 \<le> i \<Longrightarrow> i < 256 \<Longrightarrow> uint (byte_of i) = i"
  by (simp add: byte_of_def uint_word_of_int)

lemma continuation_byte: "0 \<le> x \<Longrightarrow> x < 64 \<Longrightarrow> continuation (byte_of (128 + x)) = Some x"
  by (simp add: continuation_def)

text \<open>A character as digits to the base 64.\<close>

lemma base64_digits:
  fixes c :: int
  assumes "0 \<le> c"
  obtains p q r s where "c = p * 262144 + q * 4096 + r * 64 + s" "0 \<le> p" "0 \<le> q" "q < 64" "0 \<le> r" "r < 64"
    "0 \<le> s" "s < 64" "c mod 64 = s" "c div 64 mod 64 = r" "c div 4096 mod 64 = q" "c div 262144 = p"
    "c div 64 = p * 4096 + q * 64 + r" "c div 4096 = p * 64 + q"
proof -
  define p q r s where "p = c div 64 div 64 div 64" and "q = c div 64 div 64 mod 64"
    and "r = c div 64 mod 64" and "s = c mod 64"
  have d: "c div 4096 = c div 64 div 64" "c div 262144 = c div 64 div 64 div 64"
    by (simp_all add: zdiv_zmult2_eq [symmetric])
  have "c div 64 div 64 = p * 64 + q" by (simp add: p_def q_def)
  moreover from this have "c div 64 = p * 4096 + q * 64 + r"
    using div_mult_mod_eq [of "c div 64" 64] unfolding r_def by simp
  moreover from this have "c = p * 262144 + q * 4096 + r * 64 + s"
    using div_mult_mod_eq [of c 64] unfolding s_def by simp
  moreover have "0 \<le> p" "0 \<le> q" "q < 64" "0 \<le> r" "r < 64" "0 \<le> s" "s < 64"
    using assms by (simp_all add: p_def q_def r_def s_def pos_imp_zdiv_nonneg_iff)
  ultimately show ?thesis using that d by (metis p_def q_def r_def s_def)
qed

lemma utf8_head_encode:
  assumes "scalar_value c"
  shows "\<exists>a as. utf8_char c = a # as \<and> utf8_head a (as @ bs) = Some (c, length as)"
proof -
  have c: "0 \<le> c" "c < 1114112" using assms by (simp_all add: scalar_value_def)
  obtain p q r s where d: "c = p * 262144 + q * 4096 + r * 64 + s" "0 \<le> p" "0 \<le> q" "q < 64" "0 \<le> r" "r < 64"
    "0 \<le> s" "s < 64" "c mod 64 = s" "c div 64 mod 64 = r" "c div 4096 mod 64 = q" "c div 262144 = p"
    "c div 64 = p * 4096 + q * 64 + r" "c div 4096 = p * 64 + q"
    by (rule base64_digits [OF c(1)])
  note cb = continuation_byte [OF d(7,8)] continuation_byte [OF d(5,6)] continuation_byte [OF d(3,4)]
  consider (a) "c < 128" | (b) "128 \<le> c" "c < 2048" | (c) "2048 \<le> c" "c < 65536" | (d) "65536 \<le> c" by linarith
  then show ?thesis
  proof cases
    case a
    then show ?thesis using c by (simp add: utf8_char_def utf8_head_def)
  next
    case b
    define k where "k = p * 4096 + q * 64 + r"
    have k: "c = k * 64 + s" "2 \<le> k" "k < 32"
      using b d(1-8) unfolding k_def by (simp add: algebra_simps, linarith+)
    have "utf8_char c = [byte_of (192 + k), byte_of (128 + s)]"
      using b d(9,13) by (simp add: utf8_char_def k_def)
    moreover have "utf8_head (byte_of (192 + k)) ([byte_of (128 + s)] @ bs) = Some (c, 1)"
      using b k assms cb by (simp add: utf8_head_def scalar_from_def)
    ultimately show ?thesis by simp
  next
    case c
    define k where "k = p * 64 + q"
    have k: "c = k * 4096 + r * 64 + s" "0 \<le> k" "k < 16"
      using c d(1-8) unfolding k_def by (simp add: algebra_simps, linarith+)
    have "utf8_char c = [byte_of (224 + k), byte_of (128 + r), byte_of (128 + s)]"
      using c d(9,10,14) by (simp add: utf8_char_def k_def)
    moreover have "utf8_head (byte_of (224 + k)) ([byte_of (128 + r), byte_of (128 + s)] @ bs) = Some (c, 2)"
      using c k assms cb by (simp add: utf8_head_def scalar_from_def)
    ultimately show ?thesis by simp
  next
    case d': d
    have k: "p < 8" using c(2) d(1-8) by linarith
    have "utf8_char c = [byte_of (240 + p), byte_of (128 + q), byte_of (128 + r), byte_of (128 + s)]"
      using d' d(9-12) by (simp add: utf8_char_def)
    moreover have "utf8_head (byte_of (240 + p)) ([byte_of (128 + q), byte_of (128 + r), byte_of (128 + s)] @ bs)
        = Some (c, 3)"
      using d' d(1,2) k assms cb by (simp add: utf8_head_def scalar_from_def)
    ultimately show ?thesis by simp
  qed
qed

lemma utf8_encode_Cons [simp]: "utf8_encode [] = []" "utf8_encode (c # s) = utf8_char c @ utf8_encode s"
  by (simp_all add: utf8_encode_def)

lemma utf8_decode_encode: "\<forall>c\<in>set s. scalar_value c \<Longrightarrow> utf8_decode (utf8_encode s) = Some s"
proof (induction s)
  case (Cons c s)
  obtain a as where "utf8_char c = a # as" "utf8_head a (as @ utf8_encode s) = Some (c, length as)"
    using utf8_head_encode [of c "utf8_encode s"] Cons.prems by auto
  then show ?case using Cons by simp
qed simp

lemma length_utf8_encode: "\<forall>c\<in>set s. scalar_value c \<Longrightarrow> length (utf8_encode s) = byte_len s"
  by (induction s) (auto simp: utf8_char_def utf8_len_def)

text \<open>Only the character 0 is written with a zero byte.\<close>

lemma zero_free_encode:
  assumes "\<forall>c\<in>set s. scalar_value c \<and> c \<noteq> 0"
  shows "0 \<notin> set (utf8_encode s)"
proof -
  have nz: "byte_of i \<noteq> 0" if "0 < i" "i < 256" for i
    using uint_byte_of [of i] that by (metis less_irrefl less_imp_le uint_0_eq)
  have "0 \<notin> set (utf8_char c)" if sc: "scalar_value c" "c \<noteq> 0" for c
  proof -
    have c: "0 \<le> c" "0 < c" "c < 1114112" using sc by (simp_all add: scalar_value_def)
    obtain p q r s where d: "c = p * 262144 + q * 4096 + r * 64 + s" "0 \<le> p" "0 \<le> q" "q < 64" "0 \<le> r" "r < 64"
      "0 \<le> s" "s < 64" "c mod 64 = s" "c div 64 mod 64 = r" "c div 4096 mod 64 = q" "c div 262144 = p"
      "c div 64 = p * 4096 + q * 64 + r" "c div 4096 = p * 64 + q"
      by (rule base64_digits [OF c(1)])
    have p: "p < 8" using c(3) d(1-8) by linarith
    have k: "c < 2048 \<Longrightarrow> p * 4096 + q * 64 + r < 32" "c < 65536 \<Longrightarrow> p * 64 + q < 16"
      using d(1-8) by linarith+
    show ?thesis
      unfolding utf8_char_def d(9-12) unfolding d(13,14)
      using c(2) d(2-8) p k nz [of c] nz [of "128 + s"] nz [of "128 + r"] nz [of "128 + q"] nz [of "240 + p"]
        nz [of "224 + (p * 64 + q)"] nz [of "192 + (p * 4096 + q * 64 + r)"]
      by (auto dest: sym)
  qed
  then show ?thesis using assms by (auto simp: utf8_encode_def)
qed

end
