(* ===== verification/License.thy ===== *)
theory License
  imports Utf8
begin

unbundle bit_operations_syntax

text \<open>
  \<open>tsproto/src/license.rs\<close>: the chain of license blocks a server sends, its time bounds, its
  properties, the builder of such chains and the keys derived along them.

  \<^item> A block is read from its own slice of the data. \<open>LicensePanic\<close> stands for an out-of-range access
    or a failed assertion, which panics in the source.
  \<^item> A time is its Unix time in seconds; every timestamp of a block, an unsigned 32 bit number plus
    \<open>TIMESTAMP_OFFSET\<close>, is in the range of the crate \<open>time\<close>, so that \<open>DeserializeDate\<close> does not occur.
  \<^item> \<open>known\<close> tells which numbers the generated enumeration \<open>LicenseType\<close> has. The curve is a
    parameter, the record \<open>curve\<close>.
\<close>

definition TIMESTAMP_OFFSET :: int where "TIMESTAMP_OFFSET = 0x50e22700"
definition BLOCK_MIN_LEN :: nat where "BLOCK_MIN_LEN = 42"
definition BLOCK_TYPE_OFFSET :: nat where "BLOCK_TYPE_OFFSET = 33"
definition BLOCK_NOT_VALID_BEFORE_OFFSET :: nat where "BLOCK_NOT_VALID_BEFORE_OFFSET = 34"
definition BLOCK_NOT_VALID_AFTER_OFFSET :: nat where "BLOCK_NOT_VALID_AFTER_OFFSET = 38"

lemmas block_offsets = BLOCK_MIN_LEN_def BLOCK_TYPE_OFFSET_def BLOCK_NOT_VALID_BEFORE_OFFSET_def
  BLOCK_NOT_VALID_AFTER_OFFSET_def

datatype (plugins only: code size) license_error =
    OutOfBounds int int int int
  | Deserialize
  | DeserializeString
  | DeserializeDate
  | Expired int int
  | InvalidPublicKey
  | IntermediateInvalidData u32
  | InvalidRootKey
  | NonterminatedString
  | NoPrivateKey
  | TooManyBlocks nat
  | TooShort nat string
  | UnknownBlockType u8
  | UnknownLicenseType u8
  | UnsupportedVersion u8
  | WrongKeyKind u8
  | NoSuchProperty string
  | WrongPropertyType u8 u8 u8
  | WrongPropertyLength u8 u8 u8 u8
  | LicensePanic

type_synonym 'a lresult = "license_error + 'a"

text \<open>The operator \<open>?\<close>.\<close>

definition and_then :: "'a lresult \<Rightarrow> ('a \<Rightarrow> 'b lresult) \<Rightarrow> 'b lresult" where
  "and_then r f = (case r of Inl e \<Rightarrow> Inl e | Inr x \<Rightarrow> f x)"

definition ok_or :: "'a option \<Rightarrow> license_error \<Rightarrow> 'a lresult" where
  "ok_or x e = (case x of None \<Rightarrow> Inl e | Some v \<Rightarrow> Inr v)"

lemma and_then_Inr [simp]: "and_then (Inl e) f = Inl e" "and_then (Inr x) f = f x"
  by (simp_all add: and_then_def)

lemma and_then_eq_Inr: "and_then r f = Inr y \<longleftrightarrow> (\<exists>x. r = Inr x \<and> f x = Inr y)"
  by (cases r) simp_all

lemma ok_or_simps [simp]: "ok_or None e = Inl e" "ok_or (Some v) e = Inr v"
  by (simp_all add: ok_or_def)

lemma ok_or_eq_Inr: "ok_or x e = Inr v \<longleftrightarrow> x = Some v"
  by (cases x) simp_all

text \<open>The slice \<open>data[a..b]\<close>.\<close>

definition data_slice :: "nat \<Rightarrow> nat \<Rightarrow> u8 list \<Rightarrow> u8 list lresult" where
  "data_slice a b data = (if a \<le> b \<and> b \<le> length data then Inr (slice a b data) else Inl LicensePanic)"

datatype license_block_type = Intermediate | Website | ServerBlock | CodeBlock | Ts5Server | Ephemeral

definition block_type_from_u8 :: "u8 \<Rightarrow> license_block_type option" where
  "block_type_from_u8 b =
     (if b = 0 then Some Intermediate else if b = 1 then Some Website else if b = 2 then Some ServerBlock
      else if b = 3 then Some CodeBlock else if b = 8 then Some Ts5Server
      else if b = 32 then Some Ephemeral else None)"

fun block_type_to_u8 :: "license_block_type \<Rightarrow> u8" where
  "block_type_to_u8 Intermediate = 0"
| "block_type_to_u8 Website = 1"
| "block_type_to_u8 ServerBlock = 2"
| "block_type_to_u8 CodeBlock = 3"
| "block_type_to_u8 Ts5Server = 8"
| "block_type_to_u8 Ephemeral = 32"

lemma block_type_u8 [simp]: "block_type_from_u8 (block_type_to_u8 t) = Some t"
  by (cases t) (simp_all add: block_type_from_u8_def)

text \<open>\<open>lic_properties\<close> is \<open>None\<close> for \<open>InnerLicense::Other\<close>. A private key is a scalar.\<close>

record 's license =
  lic_len :: nat
  lic_private_key :: "'s option"
  lic_properties :: "nat list option"

record 's licenses =
  lics_data :: "u8 list"
  lics_blocks :: "'s license list"

datatype license_property = Unknown1 u32 | Issuer rstr | MaxClients u32 | UnknownProperty u8 u8 "u8 list"

section \<open>Parsing a block\<close>

text \<open>\<open>iter().position(|b| b == 0)\<close>.\<close>

definition zero_position :: "u8 list \<Rightarrow> nat option" where
  "zero_position bs = (let n = length (takeWhile (\<lambda>b. b \<noteq> 0) bs) in if n < length bs then Some n else None)"

text \<open>
  The loop over the properties of a \<open>Ts5Server\<close> block: \<open>n\<close> are left, the next one starts at \<open>pos\<close>. The
  result is the offset of each property, from the start of the properties, and the end.
\<close>

fun ts5_properties :: "nat \<Rightarrow> u8 list \<Rightarrow> nat \<Rightarrow> nat \<Rightarrow> (nat list \<times> nat) lresult" where
  "ts5_properties len data 0 pos = Inr ([], pos)"
| "ts5_properties len data (Suc n) pos =
     (if length data \<le> pos then Inl (TooShort len ''missing TS5 license property'')
      else let plen = unat (data ! pos) in
        if length data \<le> pos + 1 + plen then Inl (TooShort len ''cut off TS5 license property'')
        else and_then (ts5_properties len data n (pos + 1 + plen)) (\<lambda>(ps, end). Inr ((pos - 2) # ps, end)))"

definition inner_license :: "nat \<Rightarrow> license_block_type \<Rightarrow> u8 \<Rightarrow> u8 list \<Rightarrow> (nat list option \<times> nat) lresult" where
  "inner_license len t b data = (case t of
      Intermediate \<Rightarrow>
        if length data < 5 then Inl (TooShort len ''less than minimum length of intermediate license'')
        else and_then (ok_or (zero_position (drop 4 data)) NonterminatedString) (\<lambda>n. Inr (None, 5 + n))
    | ServerBlock \<Rightarrow>
        if length data < 6 then Inl (TooShort len ''less than minimum length of TS3 server license'')
        else and_then (ok_or (zero_position (drop 5 data)) NonterminatedString) (\<lambda>n. Inr (None, 6 + n))
    | Ts5Server \<Rightarrow>
        if length data < 2 then Inl (TooShort len ''less than minimum length of TS5 server license'')
        else and_then (ts5_properties len data (unat (data ! 1)) 2) (\<lambda>(ps, pos). Inr (Some ps, pos))
    | Ephemeral \<Rightarrow> Inr (None, 0)
    | _ \<Rightarrow> Inl (UnknownBlockType b))"

definition license_parse :: "u8 list \<Rightarrow> 's license lresult" where
  "license_parse data =
     (if length data < BLOCK_MIN_LEN then Inl (TooShort (length data) ''less than minimum block length'')
      else if data ! 0 \<noteq> 0 then Inl (WrongKeyKind (data ! 0))
      else let b = data ! BLOCK_TYPE_OFFSET in
        and_then (ok_or (block_type_from_u8 b) (UnknownBlockType b)) (\<lambda>t.
        and_then (inner_license (length data) t b (drop BLOCK_MIN_LEN data)) (\<lambda>(ps, extra_len).
          Inr \<lparr>lic_len = BLOCK_MIN_LEN + extra_len, lic_private_key = None, lic_properties = ps\<rparr>)))"

section \<open>Reading a block\<close>

text \<open>From here on \<open>data\<close> is the slice of the block.\<close>

definition get_type :: "u8 list \<Rightarrow> license_block_type lresult" where
  "get_type data = and_then (ok_or (nth_opt data BLOCK_TYPE_OFFSET) LicensePanic)
     (\<lambda>b. ok_or (block_type_from_u8 b) (UnknownBlockType b))"

definition get_timestamp :: "u8 list \<Rightarrow> nat \<Rightarrow> int lresult" where
  "get_timestamp data off =
     (if length data < off then Inl LicensePanic
      else and_then (ok_or (read_be32 (drop off data)) Deserialize) (\<lambda>n. Inr (uint n + TIMESTAMP_OFFSET)))"

definition get_not_valid_before :: "u8 list \<Rightarrow> int lresult" where
  "get_not_valid_before data = get_timestamp data BLOCK_NOT_VALID_BEFORE_OFFSET"

definition get_not_valid_after :: "u8 list \<Rightarrow> int lresult" where
  "get_not_valid_after data = get_timestamp data BLOCK_NOT_VALID_AFTER_OFFSET"

definition get_license_type :: "(u8 \<Rightarrow> bool) \<Rightarrow> u8 list \<Rightarrow> u8 lresult" where
  "get_license_type known data = and_then (get_type data) (\<lambda>t.
     if t \<noteq> ServerBlock \<and> t \<noteq> Ts5Server then Inl (NoSuchProperty ''license type'')
     else and_then (ok_or (nth_opt data BLOCK_MIN_LEN) LicensePanic) (\<lambda>b.
       if known b then Inr b else Inl (UnknownLicenseType b)))"

text \<open>The check of the length of a property, by its type.\<close>

definition check_property :: "u8 list \<Rightarrow> nat \<Rightarrow> u8 \<Rightarrow> u8 \<Rightarrow> u8 \<Rightarrow> unit lresult" where
  "check_property data off plen i t =
     (if t = 0 then and_then (ok_or (nth_opt data (off + unat plen)) LicensePanic)
        (\<lambda>z. if z \<noteq> 0 then Inl NonterminatedString else Inr ())
      else if t = 1 \<or> t = 3 then (if plen \<noteq> 4 then Inl (WrongPropertyLength i t 4 plen) else Inr ())
      else if t = 2 \<or> t = 4 then (if plen \<noteq> 8 then Inl (WrongPropertyLength i t 8 plen) else Inr ())
      else Inr ())"

definition property_u32 :: "u8 list \<Rightarrow> nat \<Rightarrow> u32 lresult" where
  "property_u32 data off = and_then (data_slice (off + 3) (off + 7) data) (\<lambda>bs. ok_or (read_be32 bs) Deserialize)"

definition get_property :: "u8 list \<Rightarrow> nat \<Rightarrow> license_property lresult" where
  "get_property data p = (let off = BLOCK_MIN_LEN + 2 + p in
     and_then (ok_or (nth_opt data off) LicensePanic) (\<lambda>plen.
     and_then (ok_or (nth_opt data (off + 1)) LicensePanic) (\<lambda>i.
     and_then (ok_or (nth_opt data (off + 2)) LicensePanic) (\<lambda>t.
     and_then (check_property data off plen i t) (\<lambda>_.
       if i = 1 then (if t \<noteq> 1 then Inl (WrongPropertyType i 1 t)
         else and_then (property_u32 data off) (\<lambda>n. Inr (Unknown1 n)))
       else if i = 2 then (if t \<noteq> 0 then Inl (WrongPropertyType i 0 t)
         else and_then (data_slice (off + 3) (off + unat plen) data) (\<lambda>bs.
           and_then (ok_or (utf8_decode bs) DeserializeString) (\<lambda>s. Inr (Issuer s))))
       else if i = 3 then (if t \<noteq> 1 then Inl (WrongPropertyType i 1 t)
         else and_then (property_u32 data off) (\<lambda>n. Inr (MaxClients n)))
       else and_then (data_slice (off + 3) (off + unat plen) data) (\<lambda>bs. Inr (UnknownProperty i t bs)))))))"

text \<open>\<open>find_map\<close> over the properties: errors are skipped, a panic is not.\<close>

fun find_property :: "(license_property \<Rightarrow> 'a option) \<Rightarrow> string \<Rightarrow> u8 list \<Rightarrow> nat list \<Rightarrow> 'a lresult" where
  "find_property f what data [] = Inl (NoSuchProperty what)"
| "find_property f what data (p # ps) = (case get_property data p of
      Inl LicensePanic \<Rightarrow> Inl LicensePanic
    | Inl _ \<Rightarrow> find_property f what data ps
    | Inr prop \<Rightarrow> (case f prop of Some v \<Rightarrow> Inr v | None \<Rightarrow> find_property f what data ps))"

definition get_properties :: "'s license \<Rightarrow> nat list lresult" where
  "get_properties l = ok_or (lic_properties l) (NoSuchProperty ''properties'')"

definition issuer_of :: "license_property \<Rightarrow> rstr option" where
  "issuer_of p = (case p of Issuer s \<Rightarrow> Some s | _ \<Rightarrow> None)"

definition max_clients_of :: "license_property \<Rightarrow> u32 option" where
  "max_clients_of p = (case p of MaxClients n \<Rightarrow> Some n | _ \<Rightarrow> None)"

definition issuer_offset :: "license_block_type \<Rightarrow> nat option" where
  "issuer_offset t = (case t of Intermediate \<Rightarrow> Some 4 | Website \<Rightarrow> Some 0 | CodeBlock \<Rightarrow> Some 0
     | ServerBlock \<Rightarrow> Some 5 | _ \<Rightarrow> None)"

definition get_issuer :: "'s license \<Rightarrow> u8 list \<Rightarrow> rstr lresult" where
  "get_issuer l data = and_then (get_type data) (\<lambda>t.
     if t = Ts5Server then and_then (get_properties l) (find_property issuer_of ''issuer'' data)
     else and_then (ok_or (issuer_offset t) (NoSuchProperty ''issuer'')) (\<lambda>o1. let off = BLOCK_MIN_LEN + o1 in
       if lic_len l < off + 1 then Inl LicensePanic
       else and_then (data_slice off (off + (lic_len l - off - 1)) data) (\<lambda>bs.
         ok_or (utf8_decode bs) DeserializeString)))"

definition get_max_clients :: "'s license \<Rightarrow> u8 list \<Rightarrow> u32 lresult" where
  "get_max_clients l data = and_then (get_type data) (\<lambda>t.
     if t = Ts5Server then and_then (get_properties l) (find_property max_clients_of ''max clients'' data)
     else and_then (ok_or (if t = Intermediate then Some 0 else if t = ServerBlock then Some 1 else None)
         (NoSuchProperty ''max clients'')) (\<lambda>o1. let off = BLOCK_MIN_LEN + o1 in
       and_then (data_slice off (off + 4) data) (\<lambda>bs. ok_or (read_be32 bs) Deserialize)))"

section \<open>A chain of blocks\<close>

type_synonym time_bounds = "int \<times> int"

text \<open>\<open>Licenses::parse_block\<close>: the block at the front of \<open>data\<close> and its time bounds.\<close>

definition parse_block ::
    "bool \<Rightarrow> int \<Rightarrow> time_bounds option \<Rightarrow> u8 list \<Rightarrow> ('s license \<times> time_bounds) lresult" where
  "parse_block check_expired now bounds data =
     and_then (license_parse data) (\<lambda>l.
     and_then (data_slice 0 (lic_len l) data) (\<lambda>license_data.
     and_then (get_not_valid_before license_data) (\<lambda>from.
     and_then (get_not_valid_after license_data) (\<lambda>until.
       if now < from \<and> check_expired then Inl (Expired from until)
       else if until < now \<and> check_expired then Inl (Expired from until)
       else (case bounds of
           Some (start, stop) \<Rightarrow>
             if from < start \<or> stop < until then Inl (OutOfBounds start stop from until)
             else Inr (l, (from, until))
         | None \<Rightarrow> Inr (l, (from, until)))))))"

text \<open>The loop over the blocks: \<open>rest\<close> is what is left, \<open>blocks\<close> what was read.\<close>

function parse_blocks ::
    "bool \<Rightarrow> int \<Rightarrow> time_bounds option \<Rightarrow> 's license list \<Rightarrow> u8 list \<Rightarrow> 's license list lresult" where
  "parse_blocks check_expired now bounds blocks rest =
     (if rest = [] then Inr blocks
      else if 8 \<le> length blocks then Inl (TooManyBlocks (length blocks))
      else (case parse_block check_expired now bounds rest of
          Inl e \<Rightarrow> Inl e
        | Inr (l, b) \<Rightarrow> parse_blocks check_expired now (Some b) (blocks @ [l]) (drop (lic_len l) rest)))"
  by pat_completeness auto
termination
  by (relation "measure (\<lambda>(check, now, bounds, blocks, rest). 8 - length blocks)") auto

declare parse_blocks.simps [simp del]

definition parse_internal :: "u8 list \<Rightarrow> bool \<Rightarrow> int \<Rightarrow> 's licenses lresult" where
  "parse_internal data check_expired now = (case data of
      [] \<Rightarrow> Inl LicensePanic
    | version # rest \<Rightarrow>
        if version \<noteq> 0 \<and> version \<noteq> 1 then Inl (UnsupportedVersion version)
        else and_then (parse_blocks check_expired now None [] rest)
          (\<lambda>blocks. Inr \<lparr>lics_data = data, lics_blocks = blocks\<rparr>))"

definition licenses_parse :: "u8 list \<Rightarrow> int \<Rightarrow> 's licenses lresult" where
  "licenses_parse data now = parse_internal data True now"

definition parse_ignore_expired :: "u8 list \<Rightarrow> int \<Rightarrow> 's licenses lresult" where
  "parse_ignore_expired data now = parse_internal data False now"

definition licenses_default :: "'s licenses" where
  "licenses_default = \<lparr>lics_data = [1], lics_blocks = []\<rparr>"

text \<open>The checks of \<open>is_valid\<close>; errors for a property that the block does not have are allowed.\<close>

definition allow_missing :: "'a lresult \<Rightarrow> unit lresult" where
  "allow_missing r = (case r of Inl (NoSuchProperty _) \<Rightarrow> Inr () | Inl e \<Rightarrow> Inl e | Inr _ \<Rightarrow> Inr ())"

fun check_properties :: "u8 list \<Rightarrow> nat list \<Rightarrow> unit lresult" where
  "check_properties data [] = Inr ()"
| "check_properties data (p # ps) = and_then (get_property data p) (\<lambda>_. check_properties data ps)"

section \<open>Keys\<close>

text \<open>
  The operations of the crate \<open>curve25519-dalek\<close> that are used, on points \<open>'p\<close> and scalars \<open>'s\<close>.
\<close>

record ('p, 's) curve =
  decompress_point :: "u8 list \<Rightarrow> 'p option"
  point_mul :: "'p \<Rightarrow> 's \<Rightarrow> 'p"
  point_add :: "'p \<Rightarrow> 'p \<Rightarrow> 'p"
  scalar_mul :: "'s \<Rightarrow> 's \<Rightarrow> 's"
  scalar_add :: "'s \<Rightarrow> 's \<Rightarrow> 's"
  base_mul :: "'s \<Rightarrow> 'p"
  scalar_of :: "u8 list \<Rightarrow> 's"
  sha512_of :: "u8 list \<Rightarrow> u8 list"

text \<open>The hash is clamped, with 63 instead of the usual 127; it has 64 bytes.\<close>

definition clamp_hash :: "u8 list \<Rightarrow> u8 list" where
  "clamp_hash h = take 32 (h[0 := h ! 0 AND 248, 31 := (h ! 31 AND 63) OR 64])"

definition get_hash_key :: "('p, 's) curve \<Rightarrow> u8 list \<Rightarrow> 's lresult" where
  "get_hash_key cv data =
     (if data = [] then Inl LicensePanic else Inr (scalar_of cv (clamp_hash (sha512_of cv (drop 1 data)))))"

definition get_public_key :: "('p, 's) curve \<Rightarrow> u8 list \<Rightarrow> 'p lresult" where
  "get_public_key cv data = and_then (data_slice 1 33 data) (\<lambda>k. ok_or (decompress_point cv k) InvalidPublicKey)"

definition block_public_key :: "('p, 's) curve \<Rightarrow> u8 list \<Rightarrow> 'p \<Rightarrow> 'p lresult" where
  "block_public_key cv data parent =
     and_then (get_public_key cv data) (\<lambda>k. and_then (get_hash_key cv data)
       (\<lambda>h. Inr (point_add cv (point_mul cv k h) parent)))"

definition block_private_key :: "('p, 's) curve \<Rightarrow> 's license \<Rightarrow> u8 list \<Rightarrow> 's \<Rightarrow> 's lresult" where
  "block_private_key cv l data parent =
     and_then (ok_or (lic_private_key l) NoPrivateKey) (\<lambda>k. and_then (get_hash_key cv data)
       (\<lambda>h. Inr (scalar_add cv (scalar_mul cv k h) parent)))"

text \<open>The loops over the blocks from \<open>offset\<close> on.\<close>

fun public_key_loop :: "('p, 's) curve \<Rightarrow> u8 list \<Rightarrow> nat \<Rightarrow> 's license list \<Rightarrow> 'p \<Rightarrow> 'p lresult" where
  "public_key_loop cv data offset [] key = Inr key"
| "public_key_loop cv data offset (l # ls) key =
     and_then (data_slice offset (offset + lic_len l) data) (\<lambda>d.
     and_then (block_public_key cv d key) (\<lambda>key. public_key_loop cv data (offset + lic_len l) ls key))"

definition derive_public_key :: "('p, 's) curve \<Rightarrow> 's licenses \<Rightarrow> u8 list \<Rightarrow> 'p lresult" where
  "derive_public_key cv ls root =
     and_then (ok_or (decompress_point cv root) InvalidRootKey) (public_key_loop cv (lics_data ls) 1 (lics_blocks ls))"

fun private_key_loop ::
    "('p, 's) curve \<Rightarrow> u8 list \<Rightarrow> nat \<Rightarrow> nat \<Rightarrow> 's license list \<Rightarrow> 's \<Rightarrow> 's lresult" where
  "private_key_loop cv data skip offset [] key = Inr key"
| "private_key_loop cv data skip offset (l # ls) key =
     and_then (if skip = 0
       then and_then (data_slice offset (offset + lic_len l) data) (\<lambda>d. block_private_key cv l d key)
       else Inr key)
     (\<lambda>key. private_key_loop cv data (skip - 1) (offset + lic_len l) ls key)"

definition derive_private_key :: "('p, 's) curve \<Rightarrow> 's licenses \<Rightarrow> nat \<Rightarrow> 's \<Rightarrow> 's lresult" where
  "derive_private_key cv ls starting_block first_key =
     private_key_loop cv (lics_data ls) starting_block 1 (lics_blocks ls) first_key"

definition block_is_valid :: "('p, 's) curve \<Rightarrow> (u8 \<Rightarrow> bool) \<Rightarrow> 's license \<Rightarrow> u8 list \<Rightarrow> unit lresult" where
  "block_is_valid cv known l data =
     and_then (get_public_key cv data) (\<lambda>_. and_then (get_not_valid_before data) (\<lambda>_.
     and_then (get_not_valid_after data) (\<lambda>_. and_then (allow_missing (get_license_type known data)) (\<lambda>_.
     and_then (allow_missing (get_issuer l data)) (\<lambda>_. (case get_properties l of
         Inl e \<Rightarrow> allow_missing (Inl e :: unit lresult)
       | Inr ps \<Rightarrow> check_properties data ps))))))"

fun blocks_valid :: "('p, 's) curve \<Rightarrow> (u8 \<Rightarrow> bool) \<Rightarrow> u8 list \<Rightarrow> nat \<Rightarrow> 's license list \<Rightarrow> unit lresult" where
  "blocks_valid cv known data offset [] = Inr ()"
| "blocks_valid cv known data offset (l # ls) =
     and_then (data_slice offset (offset + lic_len l) data) (\<lambda>d.
     and_then (block_is_valid cv known l d) (\<lambda>_. blocks_valid cv known data (offset + lic_len l) ls))"

definition is_valid :: "('p, 's) curve \<Rightarrow> (u8 \<Rightarrow> bool) \<Rightarrow> 's licenses \<Rightarrow> unit lresult" where
  "is_valid cv known ls = blocks_valid cv known (lics_data ls) 1 (lics_blocks ls)"

section \<open>Building a chain\<close>

definition min_len :: "license_block_type \<Rightarrow> nat" where
  "min_len t = BLOCK_MIN_LEN + (case t of Intermediate \<Rightarrow> 5 | Website \<Rightarrow> 1 | CodeBlock \<Rightarrow> 1
     | ServerBlock \<Rightarrow> 6 | Ts5Server \<Rightarrow> 2 | Ephemeral \<Rightarrow> 0)"

text \<open>A builder of one block: it starts at \<open>offset\<close> and has the type \<open>typ\<close>. \<open>None\<close> is a panic.\<close>

record block_builder =
  bb_offset :: nat
  bb_typ :: license_block_type

definition add_block :: "license_block_type \<Rightarrow> u8 list \<Rightarrow> u8 list \<times> block_builder" where
  "add_block t data =
     ((data @ replicate (min_len t) 0)[length data + BLOCK_TYPE_OFFSET := block_type_to_u8 t],
      \<lparr>bb_offset = length data, bb_typ = t\<rparr>)"

text \<open>\<open>data[o..o + len].copy_from_slice(bytes)\<close>.\<close>

definition copy_into :: "nat \<Rightarrow> u8 list \<Rightarrow> u8 list \<Rightarrow> u8 list option" where
  "copy_into off bs data =
     (if off + length bs \<le> length data then Some (take off data @ bs @ drop (off + length bs) data) else None)"

definition build_public_key :: "u8 list \<Rightarrow> block_builder \<Rightarrow> u8 list \<Rightarrow> u8 list option" where
  "build_public_key key b data = copy_into (bb_offset b + 1) key data"

definition write_timestamp :: "nat \<Rightarrow> int \<Rightarrow> block_builder \<Rightarrow> u8 list \<Rightarrow> u8 list option" where
  "write_timestamp off t b data =
     copy_into (bb_offset b + off) (be_bytes 4 (word_of_int (t - TIMESTAMP_OFFSET) :: u32)) data"

definition build_not_valid_before :: "int \<Rightarrow> block_builder \<Rightarrow> u8 list \<Rightarrow> u8 list option" where
  "build_not_valid_before t = write_timestamp BLOCK_NOT_VALID_BEFORE_OFFSET t"

definition build_not_valid_after :: "int \<Rightarrow> block_builder \<Rightarrow> u8 list \<Rightarrow> u8 list option" where
  "build_not_valid_after t = write_timestamp BLOCK_NOT_VALID_AFTER_OFFSET t"

definition build_license_type :: "u8 \<Rightarrow> block_builder \<Rightarrow> u8 list \<Rightarrow> u8 list option" where
  "build_license_type lt b data =
     (if bb_typ b \<noteq> ServerBlock \<and> bb_typ b \<noteq> Ts5Server then None
      else copy_into (bb_offset b + BLOCK_MIN_LEN) [lt] data)"

text \<open>
  The new data and where the content of the property starts. The count and the length are bytes;
  \<open>u8::try_from(len).unwrap() + 2\<close> and the increment panic when they overflow.
\<close>

definition ts5_add_property :: "u8 \<Rightarrow> u8 \<Rightarrow> nat \<Rightarrow> block_builder \<Rightarrow> u8 list \<Rightarrow> (u8 list \<times> nat) option" where
  "ts5_add_property i t len b data = (let off = length data; count = bb_offset b + BLOCK_MIN_LEN + 1 in
     if length data \<le> count \<or> data ! count = 255 \<or> 253 < len then None
     else Some ((data[count := data ! count + 1]) @ [of_nat len + 2, i, t] @ replicate len 0, off + 3))"

definition build_max_clients :: "u32 \<Rightarrow> block_builder \<Rightarrow> u8 list \<Rightarrow> u8 list option" where
  "build_max_clients n b data = (case bb_typ b of
      Ts5Server \<Rightarrow> Option.bind (ts5_add_property 3 1 4 b data) (\<lambda>(data, off). copy_into off (be_bytes 4 n) data)
    | Intermediate \<Rightarrow> copy_into (bb_offset b + BLOCK_MIN_LEN) (be_bytes 4 n) data
    | ServerBlock \<Rightarrow> copy_into (bb_offset b + BLOCK_MIN_LEN + 1) (be_bytes 4 n) data
    | _ \<Rightarrow> None)"

definition build_issuer :: "rstr \<Rightarrow> block_builder \<Rightarrow> u8 list \<Rightarrow> u8 list option" where
  "build_issuer s b data = (let bs = utf8_encode s in
     if 0 \<in> set s then None
     else if bb_typ b = Ts5Server
       then Option.bind (ts5_add_property 2 0 (length bs + 1) b data) (\<lambda>(data, off). copy_into off bs data)
     else if bb_typ b \<noteq> Intermediate \<and> bb_typ b \<noteq> ServerBlock then None
     else if length data - bb_offset b \<noteq> min_len (bb_typ b) then None
     else copy_into (length data - 1) bs (data @ replicate (length bs) 0))"

text \<open>
  \<open>Licenses::build\<close>: \<open>f\<close> appends to the data, the new blocks are parsed within the bounds of the last
  old one. The old blocks fill the old data.
\<close>

definition last_bounds :: "'s licenses \<Rightarrow> time_bounds option lresult" where
  "last_bounds ls = (if lics_blocks ls = [] then Inr None
     else let b = last (lics_blocks ls); len = length (lics_data ls) in
       if len < lic_len b then Inl LicensePanic
       else let d = drop (len - lic_len b) (lics_data ls) in
         and_then (get_not_valid_before d) (\<lambda>from. and_then (get_not_valid_after d) (\<lambda>until. Inr (Some (from, until)))))"

definition licenses_build :: "(u8 list \<Rightarrow> u8 list option) \<Rightarrow> int \<Rightarrow> 's licenses \<Rightarrow> 's licenses lresult" where
  "licenses_build f now ls = and_then (ok_or (f (lics_data ls)) LicensePanic) (\<lambda>data.
     and_then (last_bounds ls) (\<lambda>bounds.
     and_then (parse_blocks False now bounds (lics_blocks ls) (drop (length (lics_data ls)) data)) (\<lambda>blocks.
       Inr \<lparr>lics_data = data, lics_blocks = blocks\<rparr>)))"

end
