(* ===== verification/AudioPackets.thy ===== *)
theory AudioPackets
  imports Packets
begin

unbundle bit_operations_syntax

text \<open>
  Voice packets of \<open>utils/tsproto-packets/src/packets.rs\<close>: \<open>AudioData::parse\<close> and \<open>OutAudio::new\<close>.
  The writer casts the number of whisper targets to a byte, so the round trip holds up to 255
  channels and 255 clients, and the reader wants at least one byte of sound in a whisper of the
  new protocol.
\<close>

section \<open>Audio data\<close>

datatype codec_type = SpeexNarrowband | SpeexWideband | SpeexUltrawideband | CeltMono | OpusVoice | OpusMusic

definition codec_from_u8 :: "u8 \<Rightarrow> codec_type option" where
  "codec_from_u8 b = (if b < 6
     then Some ([SpeexNarrowband, SpeexWideband, SpeexUltrawideband, CeltMono, OpusVoice, OpusMusic] ! unat b)
     else None)"

fun codec_to_u8 :: "codec_type \<Rightarrow> u8" where
  "codec_to_u8 SpeexNarrowband = 0"
| "codec_to_u8 SpeexWideband = 1"
| "codec_to_u8 SpeexUltrawideband = 2"
| "codec_to_u8 CeltMono = 3"
| "codec_to_u8 OpusVoice = 4"
| "codec_to_u8 OpusMusic = 5"

datatype audio_data =
    AudioC2S u16 codec_type "u8 list"
  | AudioC2SWhisper u16 codec_type "u64 list" "u16 list" "u8 list"
  | AudioC2SWhisperNew u16 codec_type u8 u8 u64 "u8 list"
  | AudioS2C u16 u16 codec_type "u8 list"
  | AudioS2CWhisper u16 u16 codec_type "u8 list"

fun audio_direction :: "audio_data \<Rightarrow> direction" where
  "audio_direction (AudioC2S _ _ _) = C2S"
| "audio_direction (AudioC2SWhisper _ _ _ _ _) = C2S"
| "audio_direction (AudioC2SWhisperNew _ _ _ _ _ _) = C2S"
| "audio_direction (AudioS2C _ _ _ _) = S2C"
| "audio_direction (AudioS2CWhisper _ _ _ _) = S2C"

fun audio_packet_type :: "audio_data \<Rightarrow> packet_type" where
  "audio_packet_type (AudioC2S _ _ _) = Voice"
| "audio_packet_type (AudioC2SWhisper _ _ _ _ _) = VoiceWhisper"
| "audio_packet_type (AudioC2SWhisperNew _ _ _ _ _ _) = VoiceWhisper"
| "audio_packet_type (AudioS2C _ _ _ _) = Voice"
| "audio_packet_type (AudioS2CWhisper _ _ _ _) = VoiceWhisper"

fun audio_codec :: "audio_data \<Rightarrow> codec_type" where
  "audio_codec (AudioC2S _ c _) = c"
| "audio_codec (AudioC2SWhisper _ c _ _ _) = c"
| "audio_codec (AudioC2SWhisperNew _ c _ _ _ _) = c"
| "audio_codec (AudioS2C _ _ c _) = c"
| "audio_codec (AudioS2CWhisper _ _ c _) = c"

fun audio_id :: "audio_data \<Rightarrow> u16" where
  "audio_id (AudioC2S i _ _) = i"
| "audio_id (AudioC2SWhisper i _ _ _ _) = i"
| "audio_id (AudioC2SWhisperNew i _ _ _ _ _) = i"
| "audio_id (AudioS2C i _ _ _) = i"
| "audio_id (AudioS2CWhisper i _ _ _) = i"

fun audio_flags :: "audio_data \<Rightarrow> packet_flags" where
  "audio_flags (AudioC2S _ _ _) = 0"
| "audio_flags (AudioC2SWhisper _ _ _ _ _) = 0"
| "audio_flags (AudioC2SWhisperNew _ _ _ _ _ _) = NEWPROTOCOL"
| "audio_flags (AudioS2C _ _ _ _) = 0"
| "audio_flags (AudioS2CWhisper _ _ _ _) = 0"

fun audio_bytes :: "audio_data \<Rightarrow> u8 list" where
  "audio_bytes (AudioC2S _ _ d) = d"
| "audio_bytes (AudioC2SWhisper _ _ _ _ d) = d"
| "audio_bytes (AudioC2SWhisperNew _ _ _ _ _ d) = d"
| "audio_bytes (AudioS2C _ _ _ d) = d"
| "audio_bytes (AudioS2CWhisper _ _ _ d) = d"

section \<open>Reading\<close>

text \<open>
  \<open>CodecType::from_u8(content[i])\<close>. In the client's packets the error names \<open>content[4]\<close>, an access
  that panics when the content has only three or four bytes.
\<close>

definition read_codec :: "nat \<Rightarrow> u8 list \<Rightarrow> codec_type presult" where
  "read_codec i content = (case codec_from_u8 (content ! i) of
      Some c \<Rightarrow> Inr c
    | None \<Rightarrow> (case nth_opt content 4 of None \<Rightarrow> Inl Panicked | Some b \<Rightarrow> Inl (InvalidCodec b)))"

text \<open>\<open>collect\<close> of a sequence of reads: the first failed read is the result.\<close>

fun collect :: "'a option list \<Rightarrow> 'a list presult" where
  "collect [] = Inr []"
| "collect (None # xs) = Inl Io"
| "collect (Some x # xs) = (case collect xs of Inl e \<Rightarrow> Inl e | Inr ys \<Rightarrow> Inr (x # ys))"

definition parse_from_server ::
    "(u16 \<Rightarrow> u16 \<Rightarrow> codec_type \<Rightarrow> u8 list \<Rightarrow> audio_data) \<Rightarrow> u16 \<Rightarrow> u8 list \<Rightarrow> audio_data presult" where
  "parse_from_server k i content =
     (if length content < 5 then Inl (PacketContentTooShort (length content))
      else case read_be16 (drop 2 content) of None \<Rightarrow> Inl Io | Some from \<Rightarrow>
        (case read_codec 4 content of Inl e \<Rightarrow> Inl e | Inr codec \<Rightarrow>
          Inr (k i from codec (drop 5 content))))"

definition parse_whisper_new :: "u16 \<Rightarrow> codec_type \<Rightarrow> u8 list \<Rightarrow> audio_data presult" where
  "parse_whisper_new i codec content =
     (if length content < 14 then Inl (PacketContentTooShort (length content))
      else case read_be64 (drop 5 content) of None \<Rightarrow> Inl Io | Some target_id \<Rightarrow>
        Inr (AudioC2SWhisperNew i codec (content ! 3) (content ! 4) target_id (drop 13 content)))"

definition parse_whisper :: "u16 \<Rightarrow> codec_type \<Rightarrow> u8 list \<Rightarrow> audio_data presult" where
  "parse_whisper i codec content =
     (if length content < 5 then Inl (PacketContentTooShort (length content))
      else let
        channel_count = unat (content ! 3);
        client_count = unat (content ! 4);
        channel_off = 5;
        client_off = channel_off + channel_count * 8;
        off = client_off + client_count * 2
      in if length content < off then Inl (PacketContentTooShort (length content))
      else case collect (map (\<lambda>j. read_be64 (drop (channel_off + j * 8) content)) [0..<channel_count]) of
        Inl e \<Rightarrow> Inl e
      | Inr chans \<Rightarrow>
        (case collect (map (\<lambda>j. read_be16 (drop (client_off + j * 2) content)) [0..<client_count]) of
          Inl e \<Rightarrow> Inl e
        | Inr cls \<Rightarrow> Inr (AudioC2SWhisper i codec chans cls (drop off content))))"

definition audio_parse :: "packet_type \<Rightarrow> bool \<Rightarrow> direction \<Rightarrow> u8 list \<Rightarrow> audio_data presult" where
  "audio_parse p_type newprotocol d content = (case read_be16 content of None \<Rightarrow> Inl Io | Some i \<Rightarrow>
     if p_type = Voice then
       if d = S2C then parse_from_server AudioS2C i content
       else if length content < 3 then Inl (PacketContentTooShort (length content))
       else (case read_codec 2 content of Inl e \<Rightarrow> Inl e | Inr codec \<Rightarrow>
         Inr (AudioC2S i codec (drop 3 content)))
     else if d = S2C then parse_from_server AudioS2CWhisper i content
     else if length content < 3 then Inl (PacketContentTooShort (length content))
     else (case read_codec 2 content of Inl e \<Rightarrow> Inl e | Inr codec \<Rightarrow>
       if newprotocol then parse_whisper_new i codec content else parse_whisper i codec content))"

definition into_audio :: "in_packet \<Rightarrow> audio_data presult" where
  "into_audio p = (case hdr_packet_type (ip_header p) of
      None \<Rightarrow> Inl Panicked
    | Some p_type \<Rightarrow> audio_parse p_type (has_flag (hdr_flags (ip_header p)) NEWPROTOCOL)
        (ih_direction (ip_header p)) (ip_content p))"

section \<open>Writing\<close>

fun audio_content :: "audio_data \<Rightarrow> u8 list" where
  "audio_content (AudioC2S _ codec d) = [codec_to_u8 codec] @ d"
| "audio_content (AudioC2SWhisper _ codec chans cls d) =
     [codec_to_u8 codec, of_nat (length chans), of_nat (length cls)]
       @ concat (map (be_bytes 8) chans) @ concat (map (be_bytes 2) cls) @ d"
| "audio_content (AudioC2SWhisperNew _ codec whisper_type target target_id d) =
     [codec_to_u8 codec, whisper_type, target] @ be_bytes 8 target_id @ d"
| "audio_content (AudioS2C _ from codec d) = be_bytes 2 from @ [codec_to_u8 codec] @ d"
| "audio_content (AudioS2CWhisper _ from codec d) = be_bytes 2 from @ [codec_to_u8 codec] @ d"

definition out_audio :: "audio_data \<Rightarrow> out_packet option" where
  "out_audio a = map_option (push_bytes (be_bytes 2 (audio_id a) @ audio_content a))
     (new_with_dir (audio_direction a) (audio_flags a) (audio_packet_type a))"

text \<open>What the receiver of the packet reads.\<close>

definition audio_received :: "audio_data \<Rightarrow> audio_data presult" where
  "audio_received a = (case out_audio a of None \<Rightarrow> Inl Panicked | Some p \<Rightarrow>
     (case in_packet_try_new (op_dir p) (op_data p) of Inl e \<Rightarrow> Inl e | Inr q \<Rightarrow> into_audio q))"

section \<open>Round trip\<close>

lemma codec_u8 [simp]: "codec_from_u8 (codec_to_u8 c) = Some c"
  by (cases c) (simp_all add: codec_from_u8_def)

lemma collect_Some [simp]: "collect (map Some xs) = Inr xs"
  by (induction xs) simp_all

lemma drop_length_plus: "drop (length xs + m) (xs @ ys) = drop m ys"
  by simp

lemma drop_prefix: "n = length xs + m \<Longrightarrow> drop n (xs @ ys) = drop m ys"
  by simp

text \<open>The reads of a sequence of integers of \<open>k\<close> bytes each, behind a prefix.\<close>

lemma drop_concat_be_bytes:
  "j < length ws \<Longrightarrow> drop (j * k) (concat (map (be_bytes k) ws) @ bs)
     = be_bytes k (ws ! j) @ concat (map (be_bytes k) (drop (Suc j) ws)) @ bs"
proof (induction ws arbitrary: j)
  case (Cons w ws)
  then show ?case by (cases j) simp_all
qed simp

lemma length_concat_be_bytes [simp]: "length (concat (map (be_bytes k) ws)) = k * length ws"
  by (induction ws) simp_all

lemma collect_reads:
  assumes "\<And>w bs. rd (be_bytes k w @ bs) = Some w" "o' = length pre"
  shows "collect (map (\<lambda>j. rd (drop (o' + j * k) (pre @ concat (map (be_bytes k) ws) @ bs)))
      [0..<length ws]) = Inr ws"
proof -
  have "map (\<lambda>j. rd (drop (o' + j * k) (pre @ concat (map (be_bytes k) ws) @ bs))) [0..<length ws]
      = map Some ws"
    by (rule nth_equalityI)
      (simp_all add: assms drop_concat_be_bytes drop_length_plus del: drop_append)
  then show ?thesis by simp
qed

fun audio_wf :: "audio_data \<Rightarrow> bool" where
  "audio_wf (AudioC2SWhisper _ _ chans cls _) \<longleftrightarrow> length chans < 256 \<and> length cls < 256"
| "audio_wf (AudioC2SWhisperNew _ _ _ _ _ d) \<longleftrightarrow> d \<noteq> []"
| "audio_wf _ \<longleftrightarrow> True"

lemma parse_whisper_written:
  assumes "length chans < 256" "length cls < 256"
  shows "parse_whisper i codec (be_bytes 2 i @ audio_content (AudioC2SWhisper i codec chans cls d))
     = Inr (AudioC2SWhisper i codec chans cls d)"
proof -
  let ?pre = "be_bytes 2 i @ [codec_to_u8 codec, of_nat (length chans), of_nat (length cls)]"
  have n: "unat (of_nat (length chans) :: u8) = length chans" "unat (of_nat (length cls) :: u8) = length cls"
    using assms by (simp_all add: unat_of_nat)
  have a: "be_bytes 2 i @ audio_content (AudioC2SWhisper i codec chans cls d)
      = ?pre @ concat (map (be_bytes 8) chans) @ concat (map (be_bytes 2) cls) @ d" by simp
  have c: "collect (map (\<lambda>j. read_be64 (drop (5 + j * 8)
      (?pre @ concat (map (be_bytes 8) chans) @ concat (map (be_bytes 2) cls) @ d))) [0..<length chans])
      = Inr chans"
    by (rule collect_reads) simp_all
  have e: "collect (map (\<lambda>j. read_be16 (drop (5 + length chans * 8 + j * 2)
      ((?pre @ concat (map (be_bytes 8) chans)) @ concat (map (be_bytes 2) cls) @ d))) [0..<length cls])
      = Inr cls"
    by (rule collect_reads) simp_all
  have l: "(?pre @ zs) ! 3 = of_nat (length chans)" "(?pre @ zs) ! 4 = of_nat (length cls)" for zs
    by (simp_all add: nth_append)
  have f: "drop (5 + length chans * 8 + length cls * 2)
      (?pre @ concat (map (be_bytes 8) chans) @ concat (map (be_bytes 2) cls) @ d) = d"
    using drop_prefix [of "5 + length chans * 8 + length cls * 2" "?pre @ concat (map (be_bytes 8) chans) @ concat (map (be_bytes 2) cls)" 0 d]
    by (simp del: drop_append)
  show ?thesis
    unfolding a parse_whisper_def Let_def l n c f using e by (simp del: drop_append)
qed

lemma audio_parse_written:
  assumes "audio_wf a"
  shows "audio_parse (audio_packet_type a) (has_flag (audio_flags a) NEWPROTOCOL) (audio_direction a)
    (be_bytes 2 (audio_id a) @ audio_content a) = Inr a"
proof (cases a)
  case (AudioC2SWhisper i codec chans cls d)
  then show ?thesis
    using assms parse_whisper_written [of chans cls i codec d]
    by (simp add: audio_parse_def read_codec_def nth_append has_flag_def NEWPROTOCOL_def)
next
  case (AudioC2SWhisperNew i codec whisper_type target target_id d)
  then show ?thesis
    using assms by (simp add: audio_parse_def read_codec_def nth_append has_flag_def
      NEWPROTOCOL_def parse_whisper_new_def Suc_le_eq)
qed (simp_all add: audio_parse_def parse_from_server_def read_codec_def nth_append)

lemma audio_received_eq:
  "audio_received a = audio_parse (audio_packet_type a) (has_flag (audio_flags a) NEWPROTOCOL)
     (audio_direction a) (be_bytes 2 (audio_id a) @ audio_content a)"
proof -
  let ?b = "audio_flags a OR packet_type_to_u8 (audio_packet_type a)"
  let ?h = "\<lparr>ih_direction = audio_direction a, ih_data = replicate (header_len (audio_direction a) - 1) 0 @ [?b]\<rparr>"
  have fl: "audio_flags a AND 0xf = 0" by (cases a) (simp_all add: NEWPROTOCOL_def)
  have b: "?b AND 0xf = packet_type_to_u8 (audio_packet_type a)" "?b AND 0xf0 = audio_flags a"
    using nibbles [OF fl] by simp_all
  have q: "in_packet_try_new (audio_direction a) (replicate (header_len (audio_direction a) - 1) 0 @ ?b #
      be_bytes 2 (audio_id a) @ audio_content a)
      = Inr \<lparr>ip_header = ?h, ip_content = be_bytes 2 (audio_id a) @ audio_content a\<rparr>"
    and t: "hdr_packet_type ?h = Some (audio_packet_type a)"
    by (intro parse_packet; simp add: b)+
  have "hdr_flags ?h = audio_flags a"
    using b(2) by (cases "audio_direction a") (simp_all add: hdr_flags_def get_off_def nth_append)
  then show ?thesis
    using q t by (simp add: audio_received_def out_audio_def new_with_dir_eq [OF fl] push_bytes_def into_audio_def)
qed

text \<open>Voice packets are read back as they were written.\<close>

theorem audio_round_trip:
  assumes "audio_wf a"
  shows "audio_received a = Inr a"
  by (simp add: audio_received_eq audio_parse_written [OF assms])

lemma audio_round_trip_witness:
  "audio_received (AudioC2SWhisper 4660 OpusVoice [4, 5, 6] [7, 8] [1, 2, 3])
     = Inr (AudioC2SWhisper 4660 OpusVoice [4, 5, 6] [7, 8] [1, 2, 3])"
  using audio_round_trip [of "AudioC2SWhisper 4660 OpusVoice [4, 5, 6] [7, 8] [1, 2, 3]"] by simp

text \<open>An empty whisper of the new protocol is refused by the reader.\<close>

lemma empty_new_whisper_is_refused:
  "audio_received (AudioC2SWhisperNew i codec whisper_type target target_id [])
     = Inl (PacketContentTooShort 13)"
  by (simp add: audio_received_eq audio_parse_def read_codec_def nth_append parse_whisper_new_def
    has_flag_def NEWPROTOCOL_def)

text \<open>A short voice packet with an unknown codec makes the reader panic.\<close>

lemma unknown_codec_panics:
  "audio_parse Voice n C2S [0, 0, 6] = Inl Panicked"
  by (simp add: audio_parse_def read_be16_def read_codec_def codec_from_u8_def nth_opt_def)

text \<open>
  With 256 channels the counter is written as zero: the reader takes the identifiers for sound.
\<close>

lemma too_many_channels_are_lost:
  "audio_received (AudioC2SWhisper i codec (replicate 256 0) [] [])
     = Inr (AudioC2SWhisper i codec [] [] (concat (map (be_bytes 8) (replicate 256 (0 :: u64)))))"
  by (simp add: audio_received_eq audio_parse_def read_codec_def nth_append parse_whisper_def
    has_flag_def NEWPROTOCOL_def)

end
