(* ===== verification/ProtoState.thy ===== *)
theory ProtoState
  imports AudioPackets F32
begin

text \<open>
  The state of a protocol connection: the records of \<open>tsproto/src/connection.rs\<close>,
  \<open>tsproto/src/resend.rs\<close> and \<open>tsproto/src/packet_codec.rs\<close> and the packet identifiers they share.

  \<^item> An array indexed by an enumeration is a function from that enumeration.
  \<^item> A \<open>BTreeMap\<close> is its list of entries in the order of the keys; a \<open>BinaryHeap\<close> is the list of its
    elements, of which \<open>peek\<close> yields a greatest one.
  \<^item> The socket is the environment: \<open>sock_answers\<close> are the answers to the calls of \<open>poll_send_to\<close> still
    to come (\<open>Poll::Pending\<close> when there are none), \<open>wire\<close> collects the packets handed to it.
  \<^item> Event listeners, tracing and the buffer for incoming datagrams are left out.
\<close>

section \<open>Packet identifiers\<close>

datatype partial_packet_id = PartialPacketId (pid_generation: u32) (pid_packet: u16)

definition pid_le :: "partial_packet_id \<Rightarrow> partial_packet_id \<Rightarrow> bool" where
  "pid_le a b \<longleftrightarrow> pid_generation a < pid_generation b
     \<or> (pid_generation a = pid_generation b \<and> pid_packet a \<le> pid_packet b)"

definition pid_less :: "partial_packet_id \<Rightarrow> partial_packet_id \<Rightarrow> bool" where
  "pid_less a b \<longleftrightarrow> pid_generation a < pid_generation b
     \<or> (pid_generation a = pid_generation b \<and> pid_packet a < pid_packet b)"

instantiation partial_packet_id :: linorder
begin

definition less_eq_partial_packet_id :: "partial_packet_id \<Rightarrow> partial_packet_id \<Rightarrow> bool" where
  "less_eq_partial_packet_id = pid_le"

definition less_partial_packet_id :: "partial_packet_id \<Rightarrow> partial_packet_id \<Rightarrow> bool" where
  "less_partial_packet_id = pid_less"

instance
  by standard (auto simp: less_eq_partial_packet_id_def less_partial_packet_id_def pid_le_def pid_less_def
    intro: partial_packet_id.expand)

end

lemmas pid_order = less_eq_partial_packet_id_def less_partial_packet_id_def pid_le_def pid_less_def

definition pid_zero :: partial_packet_id where
  "pid_zero = PartialPacketId 0 0"

text \<open>\<open>overflowing_add\<close> and \<open>overflowing_sub\<close> with the carry going to the generation.\<close>

definition pid_add :: "partial_packet_id \<Rightarrow> u16 \<Rightarrow> partial_packet_id" where
  "pid_add p n = PartialPacketId
     (if 2 ^ 16 \<le> unat (pid_packet p) + unat n then pid_generation p + 1 else pid_generation p)
     (pid_packet p + n)"

definition pid_sub :: "partial_packet_id \<Rightarrow> u16 \<Rightarrow> partial_packet_id" where
  "pid_sub p n = PartialPacketId
     (if pid_packet p < n then pid_generation p - 1 else pid_generation p)
     (pid_packet p - n)"

text \<open>The difference of two identifiers is an \<open>i64\<close>.\<close>

definition pid_diff :: "partial_packet_id \<Rightarrow> partial_packet_id \<Rightarrow> int" where
  "pid_diff a b = (uint (pid_generation a) - uint (pid_generation b)) * 65535
     + (uint (pid_packet a) - uint (pid_packet b))"

text \<open>The position of an identifier in the sequence of all packets.\<close>

definition pid_num :: "partial_packet_id \<Rightarrow> nat" where
  "pid_num p = unat (pid_generation p) * 65536 + unat (pid_packet p)"

lemma pid_packet_less: "unat (pid_packet p) < 65536"
  using unsigned_less [of "pid_packet p", where ?'a = nat] by simp

lemma pid_num_le: "a \<le> b \<longleftrightarrow> pid_num a \<le> pid_num b"
proof -
  have *: "g * 65536 + i \<le> h * 65536 + j \<longleftrightarrow> g < h \<or> (g = h \<and> i \<le> j)"
    if "i < 65536" "j < 65536" for g h i j :: nat
    using that by (cases g h rule: linorder_cases) linarith+
  show ?thesis
    unfolding pid_num_def *[OF pid_packet_less pid_packet_less] less_eq_partial_packet_id_def pid_le_def
    by (simp add: word_less_nat_alt word_le_nat_alt word_unat_eq_iff)
qed

lemma pid_num_less: "a < b \<longleftrightarrow> pid_num a < pid_num b"
  by (simp add: not_le [symmetric] pid_num_le)

lemma pid_num_inj: "pid_num a = pid_num b \<longleftrightarrow> a = b"
  by (metis order.antisym order.refl pid_num_le)

lemma pid_num_add:
  assumes "pid_num p + unat n < 2 ^ 48"
  shows "pid_num (pid_add p n) = pid_num p + unat n"
proof -
  have n: "unat n < 65536" using unsigned_less [of n, where ?'a = nat] by simp
  have s: "unat (pid_packet p + n) = (unat (pid_packet p) + unat n) mod 65536"
    by (simp add: unat_word_ariths)
  show ?thesis
  proof (cases "2 ^ 16 \<le> unat (pid_packet p) + unat n")
    case True
    then have g: "unat (pid_generation p) + 1 < 2 ^ 32"
      using assms by (simp add: pid_num_def)
    then have "unat (pid_generation p + 1) = unat (pid_generation p) + 1"
      by (simp add: unat_word_ariths)
    moreover have "(unat (pid_packet p) + unat n) mod 65536 = unat (pid_packet p) + unat n - 65536"
      using True n pid_packet_less [of p] by (subst mod_if) simp
    ultimately show ?thesis using True s by (simp add: pid_num_def pid_add_def)
  next
    case False
    then show ?thesis using s n by (simp add: pid_num_def pid_add_def)
  qed
qed

text \<open>
  The difference counts a generation as 65535 packets, so it is one too small across every change of
  generation.
\<close>

lemma pid_diff_exact:
  "pid_diff a b = int (pid_num a) - int (pid_num b)
     - (uint (pid_generation a) - uint (pid_generation b))"
  by (simp add: pid_diff_def pid_num_def algebra_simps)

record packet_id =
  pk_type :: packet_type
  pk_part :: partial_packet_id

section \<open>Records of the resender\<close>

datatype resender_state = Connecting | Connected | Disconnecting | Disconnected

record send_record_id =
  sr_last :: instant
  sr_tries :: nat
  sr_id :: packet_id

record send_record =
  rec_sent :: instant
  rec_id :: send_record_id
  rec_packet :: out_udp_packet

record ping_rec =
  ping_id :: partial_packet_id
  ping_sent :: instant

datatype packet_stat = InControl | InKeepalive | InSpeech | OutControl | OutKeepalive | OutSpeech

datatype packet_loss_stat = VoiceInCount | VoiceInLost | AckOutCount | AckOutLost | AckInCount
  | AckInLost | AckInOrCommandOutLost | CommandOutCount | PongInCount | PongInLost | PingOutCount
  | PingInCount | PingInLost

record connection_stats =
  st_rtt :: duration
  st_rtt_dev :: duration
  st_total_packets :: "packet_stat \<Rightarrow> u64"
  st_total_bytes :: "packet_stat \<Rightarrow> u64"
  st_packet_loss :: "packet_loss_stat \<Rightarrow> u32"
  st_last_second_bytes :: "(packet_stat \<Rightarrow> u32) list"
  st_next_second_index :: u8

record stats_counter =
  ct_bytes :: "packet_stat \<Rightarrow> u32"
  ct_packet_loss :: "packet_loss_stat \<Rightarrow> u32"

record resend_config =
  connecting_timeout :: duration
  normal_timeout :: duration
  disconnect_timeout :: duration
  srtt :: duration
  srtt_dev :: duration

text \<open>The three queues of \<open>full_send_queue\<close>.\<close>

datatype queue_index = QInit | QCommand | QCommandLow

record resender =
  rs_send_queue :: "send_record_id list"
  rs_full :: "queue_index \<Rightarrow> (partial_packet_id \<times> send_record) list"
  rs_indices :: "queue_index \<Rightarrow> partial_packet_id"
  rs_config :: resend_config
  rs_state :: resender_state
  rs_last_pings :: "ping_rec list"
  rs_counter :: stats_counter
  rs_stats :: connection_stats
  rs_w_max :: u16
  rs_last_loss :: instant
  rs_no_congestion_since :: "instant option"
  rs_last_receive :: instant
  rs_last_send :: instant
  rs_last_stat :: instant

definition resend_config_default :: resend_config where
  "resend_config_default = \<lparr>connecting_timeout = from_secs 5, normal_timeout = from_secs 30,
     disconnect_timeout = from_secs 5, srtt = 500000000, srtt_dev = 0\<rparr>"

definition connection_stats_default :: connection_stats where
  "connection_stats_default = \<lparr>st_rtt = 0, st_rtt_dev = 0, st_total_packets = (\<lambda>_. 0),
     st_total_bytes = (\<lambda>_. 0), st_packet_loss = (\<lambda>_. 0),
     st_last_second_bytes = replicate 60 (\<lambda>_. 0), st_next_second_index = 0\<rparr>"

definition stats_counter_default :: stats_counter where
  "stats_counter_default = \<lparr>ct_bytes = (\<lambda>_. 0), ct_packet_loss = (\<lambda>_. 0)\<rparr>"

definition UDP_SINK_CAPACITY :: nat where "UDP_SINK_CAPACITY = 50"

definition resender_default :: "instant \<Rightarrow> resender" where
  "resender_default now = \<lparr>rs_send_queue = [], rs_full = (\<lambda>_. []), rs_indices = (\<lambda>_. pid_zero),
     rs_config = resend_config_default, rs_state = Connecting, rs_last_pings = [],
     rs_counter = stats_counter_default, rs_stats = connection_stats_default,
     rs_w_max = of_nat UDP_SINK_CAPACITY, rs_last_loss = now, rs_no_congestion_since = Some now,
     rs_last_receive = now, rs_last_send = now, rs_last_stat = now\<rparr>"

section \<open>Records of the codec and the connection\<close>

text \<open>\<open>receive_queue\<close> and \<open>fragmented_queue\<close> are used for \<open>Command\<close> and \<open>CommandLow\<close> only.\<close>

record packet_codec =
  outgoing_p_ids :: "packet_type \<Rightarrow> partial_packet_id"
  receive_queue :: "packet_type \<Rightarrow> u8 list list"
  fragmented_queue :: "packet_type \<Rightarrow> u8 list option"
  incoming_p_ids :: "packet_type \<Rightarrow> partial_packet_id"

definition packet_codec_default :: packet_codec where
  "packet_codec_default = \<lparr>outgoing_p_ids = (\<lambda>_. pid_zero), receive_queue = (\<lambda>_. []),
     fragmented_queue = (\<lambda>_. None), incoming_p_ids = (\<lambda>_. pid_zero)\<rparr>"

record cached_key =
  ck_generation :: u32
  ck_key :: "u8 list"
  ck_nonce :: "u8 list"

text \<open>The second index of \<open>key_cache\<close> says whether the packet carries a client identifier.\<close>

type_synonym key_cache = "packet_type \<Rightarrow> bool \<Rightarrow> cached_key"

definition cached_key_default :: cached_key where
  "cached_key_default = \<lparr>ck_generation = - 1, ck_key = replicate 16 0, ck_nonce = replicate 16 0\<rparr>"

record connected_params =
  cp_c_id :: u16
  cp_voice_encryption :: bool
  cp_shared_iv :: "u8 list"
  cp_shared_mac :: "u8 list"
  cp_key_cache :: key_cache

definition connected_params_new :: "u8 list \<Rightarrow> u8 list \<Rightarrow> connected_params" where
  "connected_params_new iv mac = \<lparr>cp_c_id = 0, cp_voice_encryption = True, cp_shared_iv = iv,
     cp_shared_mac = mac, cp_key_cache = (\<lambda>_ _. cached_key_default)\<rparr>"

datatype proto_error =
    CreateAck packet_error
  | DecompressPacket
  | MaxLengthExceeded string
  | Network
  | NotInReceiveWindow u16 u16 u16 packet_type
  | PacketParse string packet_error
  | Timeout string
  | UnallowedUnencryptedPacket
  | UnexpectedInitPacket
  | WrongClientId u16
  | WrongAddress
  | WrongMac packet_type u32 u16
  | ProtoPanic

datatype stream_item =
    StreamCommand in_packet
  | StreamAudio in_packet audio_data
  | StreamC2SInit in_packet c2s_init
  | StreamS2CInit in_packet s2c_init
  | AckPacket packet_id
  | NetworkStatsUpdated
  | StreamError proto_error

text \<open>What \<open>poll_send_to\<close> answers: a datagram sent in full, not now, or an error or a partial write.\<close>

datatype send_answer = SendOk | SendPending | SendFailed

record proto_con =
  is_client :: bool
  con_params :: "connected_params option"
  con_resender :: resender
  con_codec :: packet_codec
  stream_items :: "stream_item list"
  acks_to_send :: "out_udp_packet list"
  sock_answers :: "send_answer list"
  wire :: "out_udp_packet list"

definition connection_new :: "bool \<Rightarrow> instant \<Rightarrow> proto_con" where
  "connection_new client now =
     \<lparr>is_client = client, con_params = None, con_resender = resender_default now,
      con_codec = (if client
        then packet_codec_default\<lparr>outgoing_p_ids := (\<lambda>_. pid_zero)(Command := PartialPacketId 0 1)\<rparr>
        else packet_codec_default\<lparr>incoming_p_ids := (\<lambda>_. pid_zero)(Command := PartialPacketId 0 1)\<rparr>),
      stream_items = [], acks_to_send = [], sock_answers = [], wire = []\<rparr>"

text \<open>\<open>From<&OutUdpPacket> for PacketId\<close>; \<open>None\<close> is a panic of the accessors.\<close>

definition packet_id_of :: "out_udp_packet \<Rightarrow> packet_id option" where
  "packet_id_of u = do {
     t \<leftarrow> udp_packet_type u;
     i \<leftarrow> udp_packet_id u;
     Some \<lparr>pk_type = t, pk_part = PartialPacketId (generation_id u) i\<rparr>
   }"

section \<open>Ordered maps\<close>

type_synonym 'v btree = "(partial_packet_id \<times> 'v) list"

fun bt_insert :: "partial_packet_id \<Rightarrow> 'v \<Rightarrow> 'v btree \<Rightarrow> 'v btree" where
  "bt_insert k v [] = [(k, v)]"
| "bt_insert k v ((j, w) # t) =
     (if k < j then (k, v) # (j, w) # t
      else if k = j then (k, v) # t
      else (j, w) # bt_insert k v t)"

definition bt_remove :: "partial_packet_id \<Rightarrow> 'v btree \<Rightarrow> 'v btree" where
  "bt_remove k t = filter (\<lambda>e. fst e \<noteq> k) t"

abbreviation bt_get :: "'v btree \<Rightarrow> partial_packet_id \<Rightarrow> 'v option" where
  "bt_get t k \<equiv> map_of t k"

definition bt_ok :: "'v btree \<Rightarrow> bool" where
  "bt_ok t \<longleftrightarrow> sorted_wrt (<) (map fst t)"

lemma set_bt_insert: "fst ` set (bt_insert k v t) = insert k (fst ` set t)"
  by (induction k v t rule: bt_insert.induct) auto

lemma bt_ok_insert: "bt_ok t \<Longrightarrow> bt_ok (bt_insert k v t)"
proof (induction k v t rule: bt_insert.induct)
  case (2 k v j w t)
  have "\<forall>x\<in>fst ` set (bt_insert k v t). j < x" if "j < k" "\<forall>x\<in>fst ` set t. j < x"
    using that by (simp add: set_bt_insert)
  with 2 show ?case by (auto simp: bt_ok_def)
qed (simp add: bt_ok_def)

lemma bt_get_insert: "bt_ok t \<Longrightarrow> bt_get (bt_insert k v t) j = (if j = k then Some v else bt_get t j)"
proof (induction k v t rule: bt_insert.induct)
  case (2 k v i w t)
  have "bt_get t i = None" if "\<forall>x\<in>fst ` set t. i < x"
    using that by (metis less_irrefl map_of_eq_None_iff)
  with 2 show ?case by (auto simp: bt_ok_def)
qed simp

lemma bt_ok_remove: "bt_ok t \<Longrightarrow> bt_ok (bt_remove k t)"
  by (induction t) (auto simp: bt_ok_def bt_remove_def)

lemma bt_get_remove [simp]: "bt_get (bt_remove k t) j = (if j = k then None else bt_get t j)"
  by (induction t) (auto simp: bt_remove_def)

lemma bt_ok_distinct: "bt_ok t \<Longrightarrow> distinct (map fst t)"
  by (induction t) (auto simp: bt_ok_def)

lemma bt_get_iff: "bt_ok t \<Longrightarrow> bt_get t k = Some v \<longleftrightarrow> (k, v) \<in> set t"
  by (simp add: bt_ok_distinct)

end
