(* ===== verification/Crypto.thy ===== *)
theory Crypto
  imports ProtoState
begin

unbundle bit_operations_syntax

text \<open>
  \<open>tsproto/src/algorithms.rs\<close>: which packets are encrypted, the derivation and caching of keys, the
  encryption of a packet, compression and splitting, and the hash cash of an identity
  (\<open>tsproto/src/lib.rs\<close>). The ciphers, hashes and the compressor are functions of other crates: they
  are the fields of \<open>proto_lib\<close>, and \<open>proto_lib_ok\<close> states what is relied on.
\<close>

section \<open>The functions of other crates\<close>

text \<open>
  \<open>eax_encrypt key nonce meta plain\<close> is the ciphertext with its tag, \<open>eax_decrypt key nonce meta
  cipher tag\<close> the plaintext; \<open>None\<close> is their error. \<open>decompress\<close> gets the maximal size;
  \<open>powf\<close> is the power function of the platform, whose precision Rust leaves open.
\<close>

record proto_lib =
  sha1 :: "u8 list \<Rightarrow> u8 list"
  sha256 :: "u8 list \<Rightarrow> u8 list"
  sha512 :: "u8 list \<Rightarrow> u8 list"
  eax_encrypt :: "u8 list \<Rightarrow> u8 list \<Rightarrow> u8 list \<Rightarrow> u8 list \<Rightarrow> (u8 list \<times> u8 list) option"
  eax_decrypt :: "u8 list \<Rightarrow> u8 list \<Rightarrow> u8 list \<Rightarrow> u8 list \<Rightarrow> u8 list \<Rightarrow> u8 list option"
  compress :: "u8 list \<Rightarrow> u8 list"
  decompress :: "u8 list \<Rightarrow> nat \<Rightarrow> u8 list option"
  powf :: "f32 \<Rightarrow> f32 \<Rightarrow> f32"

definition MAX_DECOMPRESSED_SIZE :: nat where "MAX_DECOMPRESSED_SIZE = 2 * 1024 * 1024"

text \<open>
  Documented behaviour: what the cipher encrypts, with a tag of eight bytes and as many bytes as the
  plaintext, it decrypts under the same key, nonce and header; the compressor is undone up to the
  maximal size.
\<close>

definition proto_lib_ok :: "proto_lib \<Rightarrow> bool" where
  "proto_lib_ok lib \<longleftrightarrow>
     (\<forall>k n a x. \<exists>c t. eax_encrypt lib k n a x = Some (c, t) \<and> length c = length x \<and> length t = 8
        \<and> eax_decrypt lib k n a c t = Some x)
     \<and> (\<forall>x. length x \<le> MAX_DECOMPRESSED_SIZE \<longrightarrow>
        decompress lib (compress lib x) MAX_DECOMPRESSED_SIZE = Some x)"

section \<open>Which packets are encrypted\<close>

fun must_encrypt :: "packet_type \<Rightarrow> bool" where
  "must_encrypt Command = True"
| "must_encrypt CommandLow = True"
| "must_encrypt _ = False"

definition should_encrypt :: "packet_type \<Rightarrow> bool \<Rightarrow> bool" where
  "should_encrypt t voice_encryption \<longleftrightarrow>
     must_encrypt t \<or> t = Ack \<or> t = AckLow \<or> (voice_encryption \<and> is_voice t)"

section \<open>Keys\<close>

definition FAKE_KEY :: "u8 list" where
  "FAKE_KEY = ascii ''c:'' @ [0x5c] @ ascii ''windows'' @ [0x5c] @ ascii ''syste''"

definition FAKE_NONCE :: "u8 list" where
  "FAKE_NONCE = ascii ''m'' @ [0x5c] @ ascii ''firewall32.cpl''"

text \<open>The 70 bytes hashed for a packet type, a direction and a generation.\<close>

definition key_input :: "packet_type \<Rightarrow> bool \<Rightarrow> u32 \<Rightarrow> u8 list \<Rightarrow> u8 list" where
  "key_input t from_client gen iv =
     [if from_client then 0x31 else 0x30, packet_type_to_u8 t] @ be_bytes 4 gen @ iv"

definition derive_key :: "proto_lib \<Rightarrow> packet_type \<Rightarrow> bool \<Rightarrow> u32 \<Rightarrow> u8 list \<Rightarrow> cached_key" where
  "derive_key lib t from_client gen iv = (let kn = sha256 lib (key_input t from_client gen iv) in
     \<lparr>ck_generation = gen, ck_key = take 16 kn, ck_nonce = drop 16 kn\<rparr>)"

text \<open>The packet identifier is mixed into the first two bytes of the key.\<close>

definition mix_id :: "u16 \<Rightarrow> u8 list \<Rightarrow> u8 list" where
  "mix_id i key = key[0 := key ! 0 XOR ucast (drop_bit 8 i), 1 := key ! 1 XOR ucast (i AND 0xff)]"

definition create_key_nonce ::
    "proto_lib \<Rightarrow> packet_type \<Rightarrow> u16 option \<Rightarrow> u16 \<Rightarrow> u32 \<Rightarrow> u8 list \<Rightarrow> key_cache
      \<Rightarrow> (u8 list \<times> u8 list) \<times> key_cache" where
  "create_key_nonce lib t cid i gen iv cache =
     (let b = (cid \<noteq> None);
          cache = (if ck_generation (cache t b) \<noteq> gen
            then cache(t := (cache t)(b := derive_key lib t b gen iv)) else cache)
      in ((mix_id i (ck_key (cache t b)), ck_nonce (cache t b)), cache))"

text \<open>
  The cache holds what would be derived. The initial entries claim the last generation, so the cache
  is right for every generation but that one.
\<close>

definition cache_ok :: "proto_lib \<Rightarrow> u8 list \<Rightarrow> key_cache \<Rightarrow> bool" where
  "cache_ok lib iv cache \<longleftrightarrow> (\<forall>t b. ck_generation (cache t b) \<noteq> - 1 \<longrightarrow>
     cache t b = derive_key lib t b (ck_generation (cache t b)) iv)"

definition fresh_key_nonce ::
    "proto_lib \<Rightarrow> packet_type \<Rightarrow> u16 option \<Rightarrow> u16 \<Rightarrow> u32 \<Rightarrow> u8 list \<Rightarrow> u8 list \<times> u8 list" where
  "fresh_key_nonce lib t cid i gen iv = (let k = derive_key lib t (cid \<noteq> None) gen iv in
     (mix_id i (ck_key k), ck_nonce k))"

lemma ck_generation_derive [simp]: "ck_generation (derive_key lib t b gen iv) = gen"
  by (simp add: derive_key_def Let_def)

lemma cache_ok_default: "cache_ok lib iv (\<lambda>_ _. cached_key_default)"
  by (simp add: cache_ok_def cached_key_default_def)

lemma create_key_nonce_fresh:
  assumes "cache_ok lib iv cache"
  shows "gen \<noteq> - 1 \<Longrightarrow> fst (create_key_nonce lib t cid i gen iv cache) = fresh_key_nonce lib t cid i gen iv"
    and "cache_ok lib iv (snd (create_key_nonce lib t cid i gen iv cache))"
proof -
  show "fst (create_key_nonce lib t cid i gen iv cache) = fresh_key_nonce lib t cid i gen iv"
    if "gen \<noteq> - 1"
  proof -
    have hit: "cache t b = derive_key lib t b gen iv" if "ck_generation (cache t b) = gen" for b
      using assms that \<open>gen \<noteq> - 1\<close> by (auto simp: cache_ok_def)
    show ?thesis using hit by (simp add: create_key_nonce_def fresh_key_nonce_def Let_def)
  qed
  show "cache_ok lib iv (snd (create_key_nonce lib t cid i gen iv cache))"
    using assms by (auto simp: create_key_nonce_def cache_ok_def Let_def)
qed

section \<open>Encryption of a packet\<close>

definition encrypt_key_nonce ::
    "proto_lib \<Rightarrow> out_packet \<Rightarrow> u8 list \<times> u8 list \<Rightarrow> proto_error + out_packet" where
  "encrypt_key_nonce lib p kn = (case out_header p of
      None \<Rightarrow> Inl ProtoPanic
    | Some h \<Rightarrow> (case eax_encrypt lib (fst kn) (snd kn) (get_meta h) (out_content p) of
        None \<Rightarrow> Inl (MaxLengthExceeded ''encryption data'')
      | Some (c, mac) \<Rightarrow>
          (case set_mac mac (p\<lparr>op_data := take (header_len (op_dir p)) (op_data p) @ c\<rparr>) of
            None \<Rightarrow> Inl ProtoPanic | Some p \<Rightarrow> Inr p)))"

definition encrypt_fake :: "proto_lib \<Rightarrow> out_packet \<Rightarrow> proto_error + out_packet" where
  "encrypt_fake lib p = encrypt_key_nonce lib p (FAKE_KEY, FAKE_NONCE)"

definition encrypt ::
    "proto_lib \<Rightarrow> out_packet \<Rightarrow> u32 \<Rightarrow> u8 list \<Rightarrow> key_cache \<Rightarrow> (proto_error + out_packet) \<times> key_cache" where
  "encrypt lib p gen iv cache = (case out_header p of
      None \<Rightarrow> (Inl ProtoPanic, cache)
    | Some h \<Rightarrow> (case hdr_packet_type h of
        None \<Rightarrow> (Inl ProtoPanic, cache)
      | Some t \<Rightarrow>
          (let (kn, cache) = create_key_nonce lib t (hdr_client_id h) (hdr_packet_id h) gen iv cache
           in (encrypt_key_nonce lib p kn, cache))))"

text \<open>The generation of the error is filled in by \<open>decrypt\<close>.\<close>

definition decrypt_key_nonce ::
    "proto_lib \<Rightarrow> in_packet \<Rightarrow> packet_type \<Rightarrow> u8 list \<times> u8 list \<Rightarrow> proto_error + u8 list" where
  "decrypt_key_nonce lib p t kn =
     (case eax_decrypt lib (fst kn) (snd kn) (get_meta (ip_header p)) (ip_content p) (hdr_mac (ip_header p)) of
        None \<Rightarrow> Inl (WrongMac t 0 (hdr_packet_id (ip_header p)))
      | Some c \<Rightarrow> Inr c)"

definition decrypt_fake :: "proto_lib \<Rightarrow> in_packet \<Rightarrow> packet_type \<Rightarrow> proto_error + u8 list" where
  "decrypt_fake lib p t = decrypt_key_nonce lib p t (FAKE_KEY, FAKE_NONCE)"

definition decrypt ::
    "proto_lib \<Rightarrow> in_packet \<Rightarrow> packet_type \<Rightarrow> u32 \<Rightarrow> u8 list \<Rightarrow> key_cache
      \<Rightarrow> (proto_error + u8 list) \<times> key_cache" where
  "decrypt lib p t gen iv cache =
     (let (kn, cache) = create_key_nonce lib t (hdr_client_id (ip_header p)) (hdr_packet_id (ip_header p))
            gen iv cache
      in (case decrypt_key_nonce lib p t kn of
            Inl (WrongMac t' _ i) \<Rightarrow> Inl (WrongMac t' gen i)
          | r \<Rightarrow> r, cache))"

text \<open>Decrypting an encrypted packet with the same key yields the content; the header stays.\<close>

lemma encrypt_key_nonce_ok:
  assumes "proto_lib_ok lib" "out_packet_ok p"
  obtains c mac where "encrypt_key_nonce lib p kn = Inr (p\<lparr>op_data :=
        mac @ drop 8 (take (header_len (op_dir p)) (op_data p)) @ c\<rparr>)"
    "length mac = 8" "length c = length (out_content p)"
    "eax_decrypt lib (fst kn) (snd kn) (drop 8 (take (header_len (op_dir p)) (op_data p))) c mac
       = Some (out_content p)"
proof -
  define h where "h = take (header_len (op_dir p)) (op_data p)"
  have l: "length h = header_len (op_dir p)" "8 \<le> length h"
    using assms(2) header_len_pos [of "op_dir p"] by (simp_all add: h_def out_packet_ok_def)
  obtain c mac where c: "eax_encrypt lib (fst kn) (snd kn) (drop 8 h) (out_content p) = Some (c, mac)"
    "length c = length (out_content p)" "length mac = 8"
    "eax_decrypt lib (fst kn) (snd kn) (drop 8 h) c mac = Some (out_content p)"
    using assms(1) unfolding proto_lib_ok_def by blast
  have "out_header p = Some \<lparr>ih_direction = op_dir p, ih_data = h\<rparr>"
    using assms(2) by (simp add: out_header_def in_header_new_def out_packet_ok_def h_def)
  then have "encrypt_key_nonce lib p kn = Inr (p\<lparr>op_data := mac @ drop 8 h @ c\<rparr>)"
    using c l by (simp add: encrypt_key_nonce_def get_meta_def set_mac_def write_at_def
      h_def [symmetric])
  then show ?thesis using that c unfolding h_def by blast
qed

section \<open>Compression and splitting\<close>

text \<open>The loop that cuts pieces of \<open>max_size\<close> bytes; it would not end for a size of zero.\<close>

function split_data :: "nat \<Rightarrow> u8 list \<Rightarrow> u8 list list" where
  "split_data max_size data =
     (if max_size < length data \<and> 0 < max_size
      then take max_size data # split_data max_size (drop max_size data)
      else [data])"
  by auto
termination by (relation "measure (\<lambda>(m, d). length d)") auto

declare split_data.simps [simp del]

definition add_flag :: "packet_flags \<Rightarrow> out_packet \<Rightarrow> out_packet option" where
  "add_flag f p = Option.bind (out_header p) (\<lambda>h. set_flags (hdr_flags h OR f) p)"

text \<open>The packet made of the \<open>i\<close>-th of \<open>n\<close> pieces, with the header of the original packet.\<close>

definition piece_packet :: "out_packet \<Rightarrow> bool \<Rightarrow> nat \<Rightarrow> nat \<Rightarrow> u8 list \<Rightarrow> out_packet option" where
  "piece_packet p compressed n i d = do {
     q \<leftarrow> Some (new_from_data (op_dir p) (take (header_len (op_dir p)) (op_data p) @ d));
     q \<leftarrow> (if i = 0 \<and> compressed then add_flag COMPRESSED q else Some q);
     (if 1 < n \<and> (i = 0 \<or> i = n - 1) then add_flag FRAGMENTED q else Some q)
   }"

definition max_content :: "bool \<Rightarrow> nat" where
  "max_content client = 500 - (if client then C2S_HEADER_LEN else S2C_HEADER_LEN)"

definition compress_and_split :: "proto_lib \<Rightarrow> bool \<Rightarrow> out_packet \<Rightarrow> out_packet list option" where
  "compress_and_split lib client p =
     (let data = out_content p; max_size = max_content client in
      if length data \<le> max_size then Some [p]
      else if header_len (op_dir p) \<noteq> (if client then C2S_HEADER_LEN else S2C_HEADER_LEN) then None
      else let
        cdata = compress lib data;
        compressed = (length cdata \<le> length data);
        data = (if compressed then cdata else data);
        datas = (if length data \<le> max_size \<or> Option.bind (out_header p) hdr_packet_type = Some VoiceWhisper
          then [data] else split_data max_size data)
      in those (map (\<lambda>(i, d). piece_packet p compressed (length datas) i d)
           (zip [0..<length datas] datas)))"

section \<open>Shared secrets\<close>

definition xor_bytes :: "u8 list \<Rightarrow> u8 list \<Rightarrow> u8 list" where
  "xor_bytes xs ys = map2 (\<lambda>x y. x XOR y) xs ys"

text \<open>\<open>shared_secret\<close> is the result of the key exchange; \<open>alpha\<close> has 10 and \<open>beta\<close> 54 bytes.\<close>

definition compute_iv_mac :: "proto_lib \<Rightarrow> u8 list \<Rightarrow> u8 list \<Rightarrow> u8 list \<Rightarrow> u8 list \<times> u8 list" where
  "compute_iv_mac lib alpha beta shared_secret =
     (let iv = xor_bytes (sha512 lib shared_secret) (alpha @ beta) in (iv, take 8 (sha1 lib iv)))"

section \<open>Hash cash\<close>

definition trailing_zeros :: "u8 \<Rightarrow> nat" where
  "trailing_zeros d = length (takeWhile (\<lambda>i. \<not> bit d i) [0..<8])"

text \<open>The loop over the digest adds 8 for every zero byte and stops at the first other one.\<close>

fun zero_bits :: "u8 list \<Rightarrow> u8 \<Rightarrow> u8" where
  "zero_bits [] res = res"
| "zero_bits (d # ds) res = (if d = 0 then zero_bits ds (res + 8) else res + of_nat (trailing_zeros d))"

text \<open>\<open>decimal\<close> is the decimal text of the offset.\<close>

fun decimal :: "nat \<Rightarrow> u8 list" where
  "decimal n = (if n < 10 then [of_nat (48 + n)] else decimal (n div 10) @ [of_nat (48 + n mod 10)])"

declare decimal.simps [simp del]

definition get_hash_cash_level :: "proto_lib \<Rightarrow> u8 list \<Rightarrow> u64 \<Rightarrow> u8" where
  "get_hash_cash_level lib omega offset = zero_bits (sha1 lib (omega @ decimal (unat offset))) 0"

lemma unat_max_u64: "unat (- 1 :: u64) = 2 ^ 64 - 1"
  by (simp add: unsigned_minus_1_eq_mask mask_eq_exp_minus_1)

text \<open>The loop \<open>hash_cash\<close> and \<open>upgrade_level\<close> share.\<close>

function search_level :: "proto_lib \<Rightarrow> u8 list \<Rightarrow> u8 \<Rightarrow> u64 \<Rightarrow> u64" where
  "search_level lib omega target offset =
     (if offset < - 1 \<and> get_hash_cash_level lib omega offset < target
      then search_level lib omega target (offset + 1) else offset)"
  by auto
termination
proof (relation "measure (\<lambda>(l, w, t, offset). 2 ^ 64 - unat offset)", goal_cases)
  case (2 lib omega target offset)
  then have "unat offset < unat (- 1 :: u64)" by (simp add: word_less_nat_alt)
  then have "unat (offset + 1) = unat offset + 1" by (simp add: unat_word_ariths unat_max_u64)
  then show ?case using \<open>unat offset < unat (- 1 :: u64)\<close>
    by (simp add: unat_max_u64)
qed simp

declare search_level.simps [simp del]

definition hash_cash :: "proto_lib \<Rightarrow> u8 list \<Rightarrow> u8 \<Rightarrow> u64" where
  "hash_cash lib omega level = search_level lib omega level 0"

record identity =
  id_omega :: "u8 list"
  id_counter :: u64
  id_max_counter :: u64

definition upgrade_level :: "proto_lib \<Rightarrow> u8 \<Rightarrow> 'a identity_scheme \<Rightarrow> 'a identity_scheme" where
  "upgrade_level lib target i = (let offset = search_level lib (id_omega i) target (id_max_counter i) in
     i\<lparr>id_counter := offset, id_max_counter := offset\<rparr>)"

definition identity_level :: "proto_lib \<Rightarrow> 'a identity_scheme \<Rightarrow> u8" where
  "identity_level lib i = get_hash_cash_level lib (id_omega i) (id_counter i)"

end
