(* ===== verification/Keys.thy ===== *)
theory Keys
  imports Utf8 License Crypto
begin

unbundle bit_operations_syntax

text \<open>
  \<open>utils/tsproto-types/src/crypto.rs\<close>: the encodings of the keys of servers and identities, and
  \<open>Identity\<close> of \<open>tsproto/src/lib.rs\<close>. A \<open>&str\<close> is the list of its bytes. The curves, ASN.1 and base64
  come from other crates: they are the fields of \<open>key_crates\<close> and \<open>dalek\<close>, and \<open>key_crates_ok\<close> states
  what is relied on.
\<close>

section \<open>The functions of other crates\<close>

text \<open>\<open>simple_asn1\<close>: the blocks the source looks at, without their offsets.\<close>

datatype asn1 = Asn1Sequence "asn1 list" | Asn1BitString nat "u8 list" | Asn1Integer int | Asn1Other

text \<open>
  On secret keys \<open>'w\<close> and public keys \<open>'q\<close> of the curve P-256. \<open>point_from x y\<close> is
  \<open>PublicKey::from_encoded_point\<close> of the uncompressed point with these coordinates of 32 bytes.
\<close>

record ('q, 'w) key_crates =
  b64_enc :: "u8 list \<Rightarrow> u8 list"
  b64_dec :: "u8 list \<Rightarrow> u8 list option"
  from_der :: "u8 list \<Rightarrow> asn1 list option"
  to_der :: "asn1 \<Rightarrow> u8 list"
  sha1_digest :: "u8 list \<Rightarrow> u8 list"
  sec1_decode :: "u8 list \<Rightarrow> 'q option"
  sec1_encode :: "'q \<Rightarrow> u8 list"
  point_x :: "'q \<Rightarrow> u8 list"
  point_y :: "'q \<Rightarrow> u8 list"
  point_from :: "u8 list \<Rightarrow> u8 list \<Rightarrow> 'q option"
  secret_from :: "u8 list \<Rightarrow> 'w option"
  secret_bytes :: "'w \<Rightarrow> u8 list"
  public_of :: "'w \<Rightarrow> 'q"
  signature_from_der :: "u8 list \<Rightarrow> u8 list option"
  ecdsa_verify :: "'q \<Rightarrow> u8 list \<Rightarrow> u8 list \<Rightarrow> bool"
  ecdsa_sign :: "'w \<Rightarrow> u8 list \<Rightarrow> u8 list"
  diffie_hellman :: "'w \<Rightarrow> 'q \<Rightarrow> u8 list"

record ('p, 's) dalek = "('p, 's) curve" +
  compress_point :: "'p \<Rightarrow> u8 list"
  scalar_bytes :: "'s \<Rightarrow> u8 list"

text \<open>The sequence of an encoded key: a bit string of one bit, the size of the key and its numbers.\<close>

definition key_block :: "u8 \<Rightarrow> int list \<Rightarrow> asn1" where
  "key_block c ns = Asn1Sequence (Asn1BitString 1 [c] # Asn1Integer 32 # map Asn1Integer ns)"

text \<open>
  Documented behaviour: decoders undo encoders, base64 makes data longer and its text is ASCII, and a
  digest of SHA-1 has 20 bytes.
\<close>

definition key_crates_ok :: "('q, 'w) key_crates \<Rightarrow> bool" where
  "key_crates_ok kc \<longleftrightarrow>
     (\<forall>d. b64_dec kc (b64_enc kc d) = Some d \<and> (\<forall>c\<in>set (b64_enc kc d). c < 0x80))
     \<and> (\<forall>s d. b64_dec kc s = Some d \<longrightarrow> d = [] \<or> length d < length s)
     \<and> (\<forall>c ns. (\<forall>n\<in>set ns. 0 \<le> n \<and> n < 2 ^ 256) \<longrightarrow> from_der kc (to_der kc (key_block c ns)) = Some [key_block c ns])
     \<and> (\<forall>d. length (sha1_digest kc d) = 20)
     \<and> (\<forall>q. length (point_x kc q) = 32 \<and> length (point_y kc q) = 32
          \<and> point_from kc (point_x kc q) (point_y kc q) = Some q \<and> sec1_decode kc (sec1_encode kc q) = Some q)
     \<and> (\<forall>w. length (secret_bytes kc w) = 32 \<and> secret_from kc (secret_bytes kc w) = Some w)"

text \<open>\<open>BigInt::from_bytes_be\<close> of a positive number and the bytes of \<open>to_bytes_be\<close>, without the sign.\<close>

definition big_from :: "u8 list \<Rightarrow> int" where
  "big_from bs = foldl (\<lambda>n b. n * 256 + uint b) 0 bs"

function big_digits :: "nat \<Rightarrow> u8 list" where
  "big_digits n = (if n < 256 then [of_nat n] else big_digits (n div 256) @ [of_nat (n mod 256)])"
  by auto
termination by (relation "measure id") auto

declare big_digits.simps [simp del]

definition big_bytes :: "int \<Rightarrow> u8 list" where
  "big_bytes i = big_digits (nat \<bar>i\<bar>)"

section \<open>Errors\<close>

datatype (plugins only: code size) key_error =
    TooManyAsn1Blocks
  | UnexpectedPrivateKey
  | NoPrivateKey
  | PublicKeyNotFound
  | ExpectedBitString
  | ExpectedSequence
  | EmptyKeyData
  | KeyDecodeError
  | NoShortKey
  | NoObfuscatedKey
  | NoCounterBlock
  | ParsePublicKeyFailed
  | WrongKeyLength
  | WrongPublicKeyLength nat nat
  | WrongSignature
  | Asn1Decode
  | KeyBase64
  | KeyUtf8
  | KeyPanic

type_synonym 'a kresult = "key_error + 'a"

definition kthen :: "'a kresult \<Rightarrow> ('a \<Rightarrow> 'b kresult) \<Rightarrow> 'b kresult" where
  "kthen r f = (case r of Inl e \<Rightarrow> Inl e | Inr x \<Rightarrow> f x)"

definition kopt :: "key_error \<Rightarrow> 'a option \<Rightarrow> 'a kresult" where
  "kopt e x = (case x of None \<Rightarrow> Inl e | Some y \<Rightarrow> Inr y)"

text \<open>\<open>if let Ok(r) = .. \<close> followed by another attempt: an error is dropped, a panic is not.\<close>

definition or_try :: "'a kresult \<Rightarrow> 'a kresult \<Rightarrow> 'a kresult" where
  "or_try r s = (case r of Inr x \<Rightarrow> Inr x | Inl e \<Rightarrow> if e = KeyPanic then Inl KeyPanic else s)"

lemma kthen_simps [simp]: "kthen (Inl e) f = Inl e" "kthen (Inr x) f = f x"
  by (simp_all add: kthen_def)

lemma kthen_Inr: "kthen r f = Inr y \<longleftrightarrow> (\<exists>x. r = Inr x \<and> f x = Inr y)"
  by (cases r) simp_all

lemma kopt_simps [simp]: "kopt e None = Inl e" "kopt e (Some x) = Inr x"
  by (simp_all add: kopt_def)

lemma or_try_simps [simp]:
  "or_try (Inr x) s = Inr x" "e \<noteq> KeyPanic \<Longrightarrow> or_try (Inl e) s = s" "or_try (Inl KeyPanic) s = Inl KeyPanic"
  by (simp_all add: or_try_def)

section \<open>Public keys of P-256\<close>

definition pub_from_short :: "('q, 'w) key_crates \<Rightarrow> u8 list \<Rightarrow> 'q kresult" where
  "pub_from_short kc data = kopt ParsePublicKeyFailed (sec1_decode kc data)"

text \<open>The first block of a sequence has to be a bit string; the rest of the sequence is given along.\<close>

definition key_sequence :: "asn1 list \<Rightarrow> (nat \<times> u8 list \<times> asn1 list) kresult" where
  "key_sequence blocks = (case blocks of
      [Asn1Sequence bs] \<Rightarrow> (case bs of
          Asn1BitString len content # _ \<Rightarrow> Inr (len, content, bs)
        | _ \<Rightarrow> Inl ExpectedBitString)
    | [_] \<Rightarrow> Inl ExpectedSequence
    | _ \<Rightarrow> Inl TooManyAsn1Blocks)"

text \<open>\<open>content[0] & 0x80 != 0\<close>\<close>

definition private_bit :: "u8 list \<Rightarrow> bool kresult" where
  "private_bit content = (case content of [] \<Rightarrow> Inl KeyPanic | c # _ \<Rightarrow> Inr (c AND 0x80 \<noteq> 0))"

definition integer_at :: "nat \<Rightarrow> asn1 list \<Rightarrow> int option" where
  "integer_at i bs = (case nth_opt bs i of Some (Asn1Integer n) \<Rightarrow> Some n | _ \<Rightarrow> None)"

definition pub_from_tomcrypt :: "('q, 'w) key_crates \<Rightarrow> u8 list \<Rightarrow> 'q kresult" where
  "pub_from_tomcrypt kc data =
     kthen (kopt Asn1Decode (from_der kc data)) (\<lambda>blocks.
     kthen (key_sequence blocks) (\<lambda>(len, content, bs).
     kthen (if len \<noteq> 1 then Inr True else private_bit content) (\<lambda>private.
     if private then Inl UnexpectedPrivateKey
     else case (integer_at 2 bs, integer_at 3 bs) of
         (Some x, Some y) \<Rightarrow> (let xs = big_bytes x; ys = big_bytes y in
           if length xs \<noteq> 32 then Inl (WrongPublicKeyLength 32 (length xs))
           else if length ys \<noteq> 32 then Inl (WrongPublicKeyLength 32 (length ys))
           else kopt ParsePublicKeyFailed (point_from kc xs ys))
       | _ \<Rightarrow> Inl PublicKeyNotFound)))"

definition pub_from_ts :: "('q, 'w) key_crates \<Rightarrow> u8 list \<Rightarrow> 'q kresult" where
  "pub_from_ts kc data = kthen (kopt KeyBase64 (b64_dec kc data)) (pub_from_tomcrypt kc)"

definition pub_to_tomcrypt :: "('q, 'w) key_crates \<Rightarrow> 'q \<Rightarrow> u8 list" where
  "pub_to_tomcrypt kc q = 
     to_der kc (key_block 0 [big_from (point_x kc q), big_from (point_y kc q)])"

definition pub_to_ts :: "('q, 'w) key_crates \<Rightarrow> 'q \<Rightarrow> u8 list" where
  "pub_to_ts kc q = b64_enc kc (pub_to_tomcrypt kc q)"

definition pub_to_short :: "('q, 'w) key_crates \<Rightarrow> 'q \<Rightarrow> u8 list" where
  "pub_to_short kc q = sec1_encode kc q"

definition get_uid_no_base64 :: "('q, 'w) key_crates \<Rightarrow> 'q \<Rightarrow> u8 list" where
  "get_uid_no_base64 kc q = sha1_digest kc (pub_to_ts kc q)"

definition get_uid :: "('q, 'w) key_crates \<Rightarrow> 'q \<Rightarrow> u8 list" where
  "get_uid kc q = b64_enc kc (get_uid_no_base64 kc q)"

definition pub_verify :: "('q, 'w) key_crates \<Rightarrow> 'q \<Rightarrow> u8 list \<Rightarrow> u8 list \<Rightarrow> unit kresult" where
  "pub_verify kc q data signature = kthen (kopt WrongSignature (signature_from_der kc signature))
     (\<lambda>sig. if ecdsa_verify kc q data sig then Inr () else Inl WrongSignature)"

section \<open>Private keys of P-256\<close>

definition IDENTITY_OBFUSCATION :: "u8 list" where
  "IDENTITY_OBFUSCATION = ascii (''b9dfaa7bee6ac57ac7b65f1094a1c155''
     @ ''e747327bc2fe5d51c512023fe54a280201004e90ad1daaae1075d53b7d571c30e063b5a''
     @ ''62a4a017bb394833aa0983e6e'')"

definition priv_from_short :: "('q, 'w) key_crates \<Rightarrow> u8 list \<Rightarrow> 'w kresult" where
  "priv_from_short kc data =
     (if length data \<noteq> 32 then Inl NoShortKey else kopt NoShortKey (secret_from kc data))"

definition priv_to_short :: "('q, 'w) key_crates \<Rightarrow> 'w \<Rightarrow> u8 list" where
  "priv_to_short kc w = secret_bytes kc w"

definition priv_from_tomcrypt :: "('q, 'w) key_crates \<Rightarrow> u8 list \<Rightarrow> 'w kresult" where
  "priv_from_tomcrypt kc data =
     kthen (kopt Asn1Decode (from_der kc data)) (\<lambda>blocks.
     kthen (key_sequence blocks) (\<lambda>(len, content, bs).
     kthen (if len \<noteq> 1 \<and> len \<noteq> 2 then Inr False else private_bit content) (\<lambda>private.
     if \<not> private then Inl NoPrivateKey
     else case integer_at (if len = 1 then 4 else 2) bs of
         Some i \<Rightarrow> priv_from_short kc (big_bytes i)
       | None \<Rightarrow> Inl NoPrivateKey)))"

definition priv_from_ts :: "('q, 'w) key_crates \<Rightarrow> u8 list \<Rightarrow> 'w kresult" where
  "priv_from_ts kc data = kthen (kopt KeyBase64 (b64_dec kc data)) (priv_from_tomcrypt kc)"

definition priv_to_tomcrypt :: "('q, 'w) key_crates \<Rightarrow> 'w \<Rightarrow> u8 list" where
  "priv_to_tomcrypt kc w = (let q = public_of kc w in
     to_der kc (key_block 0x80 [big_from (point_x kc q), big_from (point_y kc q), big_from (secret_bytes kc w)]))"

definition priv_to_ts :: "('q, 'w) key_crates \<Rightarrow> 'w \<Rightarrow> u8 list" where
  "priv_to_ts kc w = b64_enc kc (priv_to_tomcrypt kc w)"

text \<open>A loop \<open>data[i] ^= mask[i]\<close> over the first bytes, as many as the mask has.\<close>

fun xor_prefix :: "u8 list \<Rightarrow> u8 list \<Rightarrow> u8 list" where
  "xor_prefix (m # ms) (d # ds) = (d XOR m) # xor_prefix ms ds"
| "xor_prefix _ ds = ds"

text \<open>The hash of what follows the first 20 bytes, up to the first zero byte.\<close>

definition obfuscation_hash :: "('q, 'w) key_crates \<Rightarrow> u8 list \<Rightarrow> u8 list" where
  "obfuscation_hash kc data = sha1_digest kc (takeWhile (\<lambda>b. b \<noteq> 0) (drop 20 data))"

definition xor_hash :: "('q, 'w) key_crates \<Rightarrow> u8 list \<Rightarrow> u8 list" where
  "xor_hash kc data = xor_prefix (take 20 (obfuscation_hash kc data)) data"

definition xor_static :: "u8 list \<Rightarrow> u8 list" where
  "xor_static data = xor_prefix (take 100 IDENTITY_OBFUSCATION) data"

definition from_ts_obfuscated :: "('q, 'w) key_crates \<Rightarrow> u8 list \<Rightarrow> 'w kresult" where
  "from_ts_obfuscated kc data = kthen (kopt KeyBase64 (b64_dec kc data)) (\<lambda>data.
     if length data < 20 then Inl NoObfuscatedKey
     else (let data = xor_static (xor_hash kc data) in
       case utf8_decode data of None \<Rightarrow> Inl KeyUtf8 | Some _ \<Rightarrow> priv_from_ts kc data))"

text \<open>\<open>None\<close> is the panic of \<open>data[20..]\<close>.\<close>

definition to_ts_obfuscated :: "('q, 'w) key_crates \<Rightarrow> 'w \<Rightarrow> u8 list option" where
  "to_ts_obfuscated kc w = (let data = xor_static (priv_to_ts kc w) in
     if length data < 20 then None else Some (b64_enc kc (xor_hash kc data)))"

text \<open>
  \<open>import\<close> and \<open>import_str\<close> call each other with ever shorter data; \<open>fuel\<close> counts the decodings and
  \<open>None\<close> is reached only without it.
\<close>

definition import_data ::
    "('q, 'w) key_crates \<Rightarrow> (u8 list \<Rightarrow> 'w kresult option) \<Rightarrow> u8 list \<Rightarrow> 'w kresult option" where
  "import_data kc text data =
     (if data = [] then Some (Inl EmptyKeyData)
      else Option.bind (if utf8_decode data = None then Some (Inl KeyDecodeError) else text data)
        (\<lambda>r. Some (or_try r (or_try (priv_from_tomcrypt kc data)
          (or_try (priv_from_short kc data) (Inl KeyDecodeError))))))"

fun import_str :: "nat \<Rightarrow> ('q, 'w) key_crates \<Rightarrow> u8 list \<Rightarrow> 'w kresult option" where
  "import_str 0 kc s = None"
| "import_str (Suc fuel) kc s =
     Option.bind (case b64_dec kc s of
         None \<Rightarrow> Some (Inl KeyBase64)
       | Some d \<Rightarrow> import_data kc (import_str fuel kc) d)
       (\<lambda>r. Some (or_try r (or_try (from_ts_obfuscated kc s) (Inl KeyDecodeError))))"

definition import_fuel :: "u8 list \<Rightarrow> nat" where
  "import_fuel data = length data + 1"

definition import :: "('q, 'w) key_crates \<Rightarrow> u8 list \<Rightarrow> 'w kresult option" where
  "import kc data = import_data kc (import_str (import_fuel data) kc) data"

definition create_shared_secret :: "('q, 'w) key_crates \<Rightarrow> 'w \<Rightarrow> 'q \<Rightarrow> u8 list" where
  "create_shared_secret kc w q = diffie_hellman kc w q"

definition priv_sign :: "('q, 'w) key_crates \<Rightarrow> 'w \<Rightarrow> u8 list \<Rightarrow> u8 list" where
  "priv_sign kc w data = ecdsa_sign kc w data"

definition to_pub :: "('q, 'w) key_crates \<Rightarrow> 'w \<Rightarrow> 'q" where
  "to_pub kc w = public_of kc w"

text \<open>\<open>encode_password\<close>\<close>

definition encode_password :: "('q, 'w) key_crates \<Rightarrow> u8 list \<Rightarrow> u8 list" where
  "encode_password kc password = b64_enc kc (sha1_digest kc password)"

section \<open>Keys of Ed25519\<close>

text \<open>Both kinds of keys are read from 32 bytes; a public key is its compressed point.\<close>

definition ed_bytes_from_base64 :: "('q, 'w) key_crates \<Rightarrow> u8 list \<Rightarrow> u8 list kresult" where
  "ed_bytes_from_base64 kc data = kthen (kopt KeyBase64 (b64_dec kc data)) (\<lambda>d.
     if length d \<noteq> 32 then Inl WrongKeyLength else Inr d)"

definition ed_pub_to_base64 :: "('q, 'w) key_crates \<Rightarrow> u8 list \<Rightarrow> u8 list" where
  "ed_pub_to_base64 kc key = b64_enc kc key"

definition ed_priv_from_base64 :: "('q, 'w) key_crates \<Rightarrow> ('p, 's) dalek \<Rightarrow> u8 list \<Rightarrow> 's kresult" where
  "ed_priv_from_base64 kc dk data = kthen (ed_bytes_from_base64 kc data) (\<lambda>d. Inr (scalar_of dk d))"

definition ed_priv_to_base64 :: "('q, 'w) key_crates \<Rightarrow> ('p, 's) dalek \<Rightarrow> 's \<Rightarrow> u8 list" where
  "ed_priv_to_base64 kc dk s = b64_enc kc (scalar_bytes dk s)"

definition ed_shared_secret :: "('p, 's) dalek \<Rightarrow> 's \<Rightarrow> 'p \<Rightarrow> u8 list" where
  "ed_shared_secret dk s p = compress_point dk (point_mul dk p s)"

definition ed_to_pub :: "('p, 's) dalek \<Rightarrow> 's \<Rightarrow> u8 list" where
  "ed_to_pub dk s = compress_point dk (base_mul dk s)"

section \<open>Numbers in text\<close>

text \<open>
  \<open>str::parse\<close> for an unsigned integer below \<open>limit\<close>: an optional plus sign and at least one digit;
  \<open>None\<close> is its error. The value only grows, so overflow shows at the end.
\<close>

definition byte_digit :: "u8 \<Rightarrow> bool" where
  "byte_digit c \<longleftrightarrow> 0x30 \<le> c \<and> c \<le> 0x39"

definition digits_value :: "u8 list \<Rightarrow> nat" where
  "digits_value ds = foldl (\<lambda>n c. n * 10 + (unat c - 48)) 0 ds"

definition parse_unsigned :: "nat \<Rightarrow> u8 list \<Rightarrow> nat option" where
  "parse_unsigned limit s =
     (let ds = (case s of c # cs \<Rightarrow> if c = 0x2b then cs else s | [] \<Rightarrow> []) in
      if ds \<noteq> [] \<and> (\<forall>c\<in>set ds. byte_digit c) \<and> digits_value ds < limit then Some (digits_value ds) else None)"

section \<open>Identities\<close>

record 'w key_identity = identity +
  id_key :: 'w

definition new_with_max_counter :: "('q, 'w) key_crates \<Rightarrow> 'w \<Rightarrow> u64 \<Rightarrow> u64 \<Rightarrow> 'w key_identity" where
  "new_with_max_counter kc key counter max_counter = \<lparr>id_omega = pub_to_ts kc (to_pub kc key),
     id_counter = counter, id_max_counter = max_counter, id_key = key\<rparr>"

definition identity_new :: "('q, 'w) key_crates \<Rightarrow> 'w \<Rightarrow> u64 \<Rightarrow> 'w key_identity" where
  "identity_new kc key counter = new_with_max_counter kc key counter counter"

text \<open>\<open>Identity::create\<close>, from a random key.\<close>

definition identity_create :: "proto_lib \<Rightarrow> ('q, 'w) key_crates \<Rightarrow> 'w \<Rightarrow> 'w key_identity" where
  "identity_create lib kc key = upgrade_level lib 8 (identity_new kc key 0)"

definition new_from_ts_str :: "('q, 'w) key_crates \<Rightarrow> u8 list \<Rightarrow> 'w key_identity kresult option" where
  "new_from_ts_str kc key =
     (if 0x56 \<notin> set key then Some (Inl NoCounterBlock)
      else case parse_unsigned (2 ^ 64) (takeWhile (\<lambda>c. c \<noteq> 0x56) key) of
          None \<Rightarrow> Some (Inl NoCounterBlock)
        | Some counter \<Rightarrow> (let rest = drop 1 (dropWhile (\<lambda>c. c \<noteq> 0x56) key) in
            map_option (\<lambda>r. kthen r (\<lambda>k. Inr (identity_new kc k (of_nat counter))))
              (import_str (import_fuel rest) kc rest)))"

definition new_from_str :: "proto_lib \<Rightarrow> ('q, 'w) key_crates \<Rightarrow> u8 list \<Rightarrow> 'w key_identity kresult option" where
  "new_from_str lib kc key = Option.bind (new_from_ts_str kc key) (\<lambda>r. case r of
      Inr i \<Rightarrow> Some (Inr i)
    | Inl e \<Rightarrow> if e = KeyPanic then Some (Inl KeyPanic)
        else map_option (\<lambda>r. kthen r (\<lambda>k. Inr (upgrade_level lib 8 (identity_new kc k 0))))
          (import_str (import_fuel key) kc key))"

definition new_from_bytes :: "proto_lib \<Rightarrow> ('q, 'w) key_crates \<Rightarrow> u8 list \<Rightarrow> 'w key_identity kresult option" where
  "new_from_bytes lib kc key =
     map_option (\<lambda>r. kthen r (\<lambda>k. Inr (upgrade_level lib 8 (identity_new kc k 0)))) (import kc key)"

text \<open>\<open>set_key\<close>, \<open>set_counter\<close> and \<open>set_max_counter\<close>; omega follows the key.\<close>

definition set_key :: "('q, 'w) key_crates \<Rightarrow> 'w \<Rightarrow> 'w key_identity \<Rightarrow> 'w key_identity" where
  "set_key kc key i = i\<lparr>id_omega := pub_to_ts kc (to_pub kc key), id_key := key\<rparr>"

definition set_counter :: "u64 \<Rightarrow> 'w key_identity \<Rightarrow> 'w key_identity" where
  "set_counter c i = i\<lparr>id_counter := c\<rparr>"

definition set_max_counter :: "u64 \<Rightarrow> 'w key_identity \<Rightarrow> 'w key_identity" where
  "set_max_counter c i = i\<lparr>id_max_counter := c\<rparr>"

text \<open>An identity is saved as the base64 text of its short key and read back by \<open>import_str\<close>.\<close>

definition serialize_id_key :: "('q, 'w) key_crates \<Rightarrow> 'w \<Rightarrow> u8 list" where
  "serialize_id_key kc key = b64_enc kc (priv_to_short kc key)"

definition deserialize_id_key :: "('q, 'w) key_crates \<Rightarrow> u8 list \<Rightarrow> 'w option option" where
  "deserialize_id_key kc s = map_option (\<lambda>r. case r of Inr k \<Rightarrow> Some k | Inl _ \<Rightarrow> None)
     (import_str (import_fuel s) kc s)"

section \<open>Identifiers\<close>

text \<open>\<open>Uid::as_avatar\<close>: hexadecimal with the letters a to p.\<close>

definition as_avatar :: "u8 list \<Rightarrow> u8 list" where
  "as_avatar uid = concat (map (\<lambda>b. [0x61 + drop_bit 4 b, 0x61 + (b AND 0xf)]) uid)"

definition is_server_admin :: "u8 list \<Rightarrow> bool" where
  "is_server_admin uid \<longleftrightarrow> uid = ascii ''ServerAdmin''"

end
