(* ===== verification/Book.thy ===== *)
theory Book
  imports Control Keys
begin

text \<open>
  The book of a server, \<open>utils/ts-bookkeeping/src/data.rs\<close>: its clients and channels and the functions
  that keep them up to date when messages arrive. The structs are generated from tables at build time,
  and so are the messages and the code that calls these functions; the records here hold the fields the
  functions read or write. \<open>'x\<close> stands for data that are only passed on.

  A hash map is a table in its iteration order. A function that fails leaves its changes and events
  behind, as the code does.
\<close>

section \<open>The data\<close>

datatype encryption_mode = PerChannel | ForcedOff | ForcedOn

datatype reason = ReasonNone | ReasonMoved | ReasonSubscription | LostConnection | ReasonKickChannel
  | ReasonKickServer | KickServerBan | Serverstop | Clientdisconnect | Channelupdate | Channeledit
  | ClientdisconnectServerShutdown

datatype view_client_type = ViewNormal | ViewQuery bool

record talk_power_request =
  tpr_time :: int
  tpr_message :: rstr

record 'x client_connection =
  cc_connected_time :: "int option"
  cc_rest :: 'x

record 'x data_client =
  dcl_id :: u16
  dcl_name :: rstr
  dcl_channel :: u64
  dcl_away_message :: "rstr option"
  dcl_input_muted :: bool
  dcl_output_muted :: bool
  dcl_output_only_muted :: bool
  dcl_input_hardware_enabled :: bool
  dcl_output_hardware_enabled :: bool
  dcl_talk_power :: i32
  dcl_talk_power_granted :: bool
  dcl_talk_power_request :: "talk_power_request option"
  dcl_connection_data :: "'x client_connection option"
  dcl_optional_data :: "'x option"

record 'x data_channel =
  dch_id :: u64
  dch_parent :: u64
  dch_order :: u64
  dch_subscribed :: bool
  dch_max_clients :: "max_clients option"
  dch_max_family_clients :: "max_clients option"
  dch_channel_type :: channel_type
  dch_needed_talk_power :: "i32 option"
  dch_is_unencrypted :: "bool option"
  dch_optional_data :: "'x option"

record 'x data_server =
  dsv_codec_encryption_mode :: encryption_mode
  dsv_optional_data :: "'x option"
  dsv_connection_data :: "'x option"

record 'x data_book =
  db_own_client :: u16
  db_server :: "'x data_server"
  db_clients :: "(u16, 'x data_client) table"
  db_channels :: "(u64, 'x data_channel) table"
  db_channel_groups :: "(u64, 'x) table"
  db_server_groups :: "(u64, 'x) table"

section \<open>Events\<close>

datatype property_id =
    PidServer
  | PidClient u16
  | PidClientName u16
  | PidClientAwayMessage u16
  | PidClientInputMuted u16
  | PidClientOutputMuted u16
  | PidClientOutputOnlyMuted u16
  | PidClientInputHardwareEnabled u16
  | PidClientOutputHardwareEnabled u16
  | PidClientTalkPowerRequest u16
  | PidChannelOrder u64
  | PidChannelSubscribed u64
  | PidChannelMaxClients u64
  | PidChannelMaxFamilyClients u64
  | PidChannelChannelType u64
  | PidOther nat

datatype 'x property_value =
    PvBool bool
  | PvString rstr
  | PvOptionString "rstr option"
  | PvOptionMaxClients "max_clients option"
  | PvChannelType channel_type
  | PvOptionTalkPowerRequest "talk_power_request option"
  | PvChannelId u64
  | PvClient "'x data_client"
  | PvOther 'x

record invoker =
  inv_name :: rstr
  inv_id :: u16
  inv_uid :: "u8 list option"

text \<open>The last component is the \<open>reason\<close> in \<open>ExtraInfo\<close>.\<close>

datatype 'x event =
    PropertyAdded property_id "invoker option" "reason option"
  | PropertyChanged property_id "'x property_value" "invoker option" "reason option"
  | PropertyRemoved property_id "'x property_value" "invoker option" "reason option"
  | EventMessage message_target invoker rstr

fun get_invoker :: "'x event \<Rightarrow> invoker option" where
  "get_invoker (PropertyAdded _ i _) = i"
| "get_invoker (PropertyChanged _ _ i _) = i"
| "get_invoker (PropertyRemoved _ _ i _) = i"
| "get_invoker (EventMessage _ i _) = Some i"

section \<open>Errors\<close>

datatype book_error =
    MessageWithoutTargetClientId
  | UnknownTextMessageTargetMode
  | BookNotFound string nat
  | RemoveNotFound string
  | InvalidConnectionIp

text \<open>A function on the book and the events so far.\<close>

type_synonym ('x, 'a) book_run =
  "'x data_book \<times> 'x event list \<Rightarrow> (book_error + 'a) \<times> 'x data_book \<times> 'x event list"

definition changed :: "property_id \<Rightarrow> 'x property_value \<Rightarrow> 'x event" where
  "changed p old = PropertyChanged p old None None"

section \<open>Getting and replacing parts\<close>

definition get_client :: "u16 \<Rightarrow> 'x data_book \<Rightarrow> book_error + 'x data_client" where
  "get_client i b = (case tget (db_clients b) i of None \<Rightarrow> Inl (BookNotFound ''Client'' (unat i)) | Some c \<Rightarrow> Inr c)"

definition get_channel :: "u64 \<Rightarrow> 'x data_book \<Rightarrow> book_error + 'x data_channel" where
  "get_channel i b = (case tget (db_channels b) i of None \<Rightarrow> Inl (BookNotFound ''Channel'' (unat i)) | Some c \<Rightarrow> Inr c)"

text \<open>\<open>get_mut_client\<close> and \<open>get_mut_channel\<close> with the change made to what they yield.\<close>

definition set_client :: "u16 \<Rightarrow> 'x data_client \<Rightarrow> 'x data_book \<Rightarrow> 'x data_book" where
  "set_client i c b = b\<lparr>db_clients := tput i c (db_clients b)\<rparr>"

definition set_channel :: "u64 \<Rightarrow> 'x data_channel \<Rightarrow> 'x data_book \<Rightarrow> 'x data_book" where
  "set_channel i c b = b\<lparr>db_channels := tput i c (db_channels b)\<rparr>"

definition on_client :: "u16 \<Rightarrow> ('x data_client \<Rightarrow> 'x data_client \<times> 'x event list) \<Rightarrow> ('x, unit) book_run" where
  "on_client i f s = (case s of (b, es) \<Rightarrow> (case get_client i b of
      Inl e \<Rightarrow> (Inl e, b, es)
    | Inr c \<Rightarrow> (case f c of (c, new) \<Rightarrow> (Inr (), set_client i c b, es @ new))))"

definition on_channel :: "u64 \<Rightarrow> ('x data_channel \<Rightarrow> 'x data_channel \<times> 'x event list) \<Rightarrow> ('x, unit) book_run" where
  "on_channel i f s = (case s of (b, es) \<Rightarrow> (case get_channel i b of
      Inl e \<Rightarrow> (Inl e, b, es)
    | Inr c \<Rightarrow> (case f c of (c, new) \<Rightarrow> (Inr (), set_channel i c b, es @ new))))"

definition get_channel_group :: "u64 \<Rightarrow> 'x data_book \<Rightarrow> book_error + 'x" where
  "get_channel_group i b = (case tget (db_channel_groups b) i of
      None \<Rightarrow> Inl (BookNotFound ''ChannelGroup'' (unat i)) | Some g \<Rightarrow> Inr g)"

definition add_channel_group :: "u64 \<Rightarrow> 'x \<Rightarrow> 'x data_book \<Rightarrow> 'x option \<times> 'x data_book" where
  "add_channel_group i g b = (tget (db_channel_groups b) i, b\<lparr>db_channel_groups := tput i g (db_channel_groups b)\<rparr>)"

definition get_server_group :: "u64 \<Rightarrow> 'x data_book \<Rightarrow> book_error + 'x" where
  "get_server_group i b = (case tget (db_server_groups b) i of
      None \<Rightarrow> Inl (BookNotFound ''ServerGroup'' (unat i)) | Some g \<Rightarrow> Inr g)"

definition add_server_group :: "u64 \<Rightarrow> 'x \<Rightarrow> 'x data_book \<Rightarrow> 'x option \<times> 'x data_book" where
  "add_server_group i g b = (tget (db_server_groups b) i, b\<lparr>db_server_groups := tput i g (db_server_groups b)\<rparr>)"

definition get_optional_server_data :: "'x data_book \<Rightarrow> 'x option" where
  "get_optional_server_data b = dsv_optional_data (db_server b)"

definition replace_optional_server_data :: "'x \<Rightarrow> 'x data_book \<Rightarrow> 'x option \<times> 'x data_book" where
  "replace_optional_server_data r b =
     (dsv_optional_data (db_server b), b\<lparr>db_server := (db_server b)\<lparr>dsv_optional_data := Some r\<rparr>\<rparr>)"

definition remove_optional_server_data :: "'x data_book \<Rightarrow> 'x option \<times> 'x data_book" where
  "remove_optional_server_data b =
     (dsv_optional_data (db_server b), b\<lparr>db_server := (db_server b)\<lparr>dsv_optional_data := None\<rparr>\<rparr>)"

definition get_connection_server_data :: "'x data_book \<Rightarrow> 'x option" where
  "get_connection_server_data b = dsv_connection_data (db_server b)"

definition replace_connection_server_data :: "'x \<Rightarrow> 'x data_book \<Rightarrow> 'x option \<times> 'x data_book" where
  "replace_connection_server_data r b =
     (dsv_connection_data (db_server b), b\<lparr>db_server := (db_server b)\<lparr>dsv_connection_data := Some r\<rparr>\<rparr>)"

definition add_client :: "u16 \<Rightarrow> 'x data_client \<Rightarrow> 'x data_book \<Rightarrow> 'x data_client option \<times> 'x data_book" where
  "add_client i c b = (tget (db_clients b) i, b\<lparr>db_clients := tput i c (db_clients b)\<rparr>)"

definition remove_client :: "u16 \<Rightarrow> 'x data_book \<Rightarrow> 'x data_client option \<times> 'x data_book" where
  "remove_client i b = (tget (db_clients b) i, b\<lparr>db_clients := tdel i (db_clients b)\<rparr>)"

text \<open>The attached data of a client and of a channel, with the old data when they are replaced.\<close>

definition get_connection_client_data :: "u16 \<Rightarrow> 'x data_book \<Rightarrow> book_error + 'x client_connection option" where
  "get_connection_client_data i b = map_sum id dcl_connection_data (get_client i b)"

definition replace_connection_client_data ::
    "u16 \<Rightarrow> 'x client_connection \<Rightarrow> 'x data_book \<Rightarrow> (book_error + 'x client_connection option) \<times> 'x data_book" where
  "replace_connection_client_data i r b = (case get_client i b of
      Inl e \<Rightarrow> (Inl e, b)
    | Inr c \<Rightarrow> (Inr (dcl_connection_data c), set_client i (c\<lparr>dcl_connection_data := Some r\<rparr>) b))"

definition get_optional_client_data :: "u16 \<Rightarrow> 'x data_book \<Rightarrow> book_error + 'x option" where
  "get_optional_client_data i b = map_sum id dcl_optional_data (get_client i b)"

definition replace_optional_client_data :: "u16 \<Rightarrow> 'x \<Rightarrow> 'x data_book \<Rightarrow> (book_error + 'x option) \<times> 'x data_book" where
  "replace_optional_client_data i r b = (case get_client i b of
      Inl e \<Rightarrow> (Inl e, b)
    | Inr c \<Rightarrow> (Inr (dcl_optional_data c), set_client i (c\<lparr>dcl_optional_data := Some r\<rparr>) b))"

definition get_optional_channel_data :: "u64 \<Rightarrow> 'x data_book \<Rightarrow> book_error + 'x option" where
  "get_optional_channel_data i b = map_sum id dch_optional_data (get_channel i b)"

definition replace_optional_channel_data :: "u64 \<Rightarrow> 'x \<Rightarrow> 'x data_book \<Rightarrow> (book_error + 'x option) \<times> 'x data_book" where
  "replace_optional_channel_data i r b = (case get_channel i b of
      Inl e \<Rightarrow> (Inl e, b)
    | Inr c \<Rightarrow> (Inr (dch_optional_data c), set_channel i (c\<lparr>dch_optional_data := Some r\<rparr>) b))"

definition remove_optional_channel_data :: "u64 \<Rightarrow> 'x data_book \<Rightarrow> (book_error + 'x option) \<times> 'x data_book" where
  "remove_optional_channel_data i b = (case get_channel i b of
      Inl e \<Rightarrow> (Inl e, b)
    | Inr c \<Rightarrow> (Inr (dch_optional_data c), set_channel i (c\<lparr>dch_optional_data := None\<rparr>) b))"

section \<open>The order of channels\<close>

text \<open>
  The order of a channel is the identifier of the one before it, zero for the first of a parent.
  \<open>values_mut().any\<close> changes the first channel that fits, which is what the second component was.
\<close>

fun update_first :: "('v \<Rightarrow> bool) \<Rightarrow> ('v \<Rightarrow> 'v) \<Rightarrow> ('k, 'v) table \<Rightarrow> ('k, 'v) table \<times> 'v option" where
  "update_first P f [] = ([], None)"
| "update_first P f ((k, v) # t) =
     (if P v then ((k, f v) # t, Some v)
      else (case update_first P f t of (t, old) \<Rightarrow> ((k, v) # t, old)))"

definition reorder :: "('x data_channel \<Rightarrow> bool) \<Rightarrow> u64 \<Rightarrow> 'x data_book \<times> 'x event list \<Rightarrow> 'x data_book \<times> 'x event list" where
  "reorder P order s = (case s of (b, es) \<Rightarrow>
     (case update_first P (\<lambda>c. c\<lparr>dch_order := order\<rparr>) (db_channels b) of (t, old) \<Rightarrow>
       (b\<lparr>db_channels := t\<rparr>, es @ (case old of
          None \<Rightarrow> []
        | Some c \<Rightarrow> [changed (PidChannelOrder (dch_id c)) (PvChannelId (dch_order c))]))))"

definition channel_order_remove :: "u64 \<Rightarrow> u64 \<Rightarrow> 'x data_book \<times> 'x event list \<Rightarrow> 'x data_book \<times> 'x event list" where
  "channel_order_remove i order = reorder (\<lambda>c. dch_order c = i \<and> dch_id c \<noteq> i) order"

definition channel_order_insert :: "u64 \<Rightarrow> u64 \<Rightarrow> u64 \<Rightarrow> 'x data_book \<times> 'x event list \<Rightarrow> 'x data_book \<times> 'x event list" where
  "channel_order_insert i order parent = reorder (\<lambda>c. dch_order c = order \<and> dch_parent c = parent \<and> dch_id c \<noteq> i) i"

definition add_channel :: "u64 \<Rightarrow> 'x data_channel \<Rightarrow> ('x, 'x data_channel option) book_run" where
  "add_channel i c s = (case channel_order_insert (dch_id c) (dch_order c) (dch_parent c) s of (b, es) \<Rightarrow>
     (Inr (tget (db_channels b) i), b\<lparr>db_channels := tput i c (db_channels b)\<rparr>, es))"

definition remove_channel :: "u64 \<Rightarrow> ('x, 'x data_channel option) book_run" where
  "remove_channel i s = (case s of (b, es) \<Rightarrow>
     let old = tget (db_channels b) i; b = b\<lparr>db_channels := tdel i (db_channels b)\<rparr> in
     case old of
       None \<Rightarrow> (Inr None, b, es)
     | Some c \<Rightarrow> (Inr (Some c), channel_order_remove (dch_id c) (dch_order c) (b, es)))"

definition channel_order_move_fun :: "u64 \<Rightarrow> u64 option \<Rightarrow> u64 option \<Rightarrow> ('x, unit) book_run" where
  "channel_order_move_fun i new_order parent s =
     (if new_order = None \<and> parent = None then (Inr (), s)
      else case s of (b, es) \<Rightarrow> (case get_channel i b of
          Inl e \<Rightarrow> (Inl e, b, es)
        | Inr c \<Rightarrow>
            let old_order = dch_order c;
                new_parent = (case parent of Some p \<Rightarrow> p | None \<Rightarrow> dch_parent c);
                (b, es) = (case new_order of
                    None \<Rightarrow> (b, es)
                  | Some order \<Rightarrow> (set_channel i (c\<lparr>dch_order := order\<rparr>) b,
                      es @ [changed (PidChannelOrder (dch_id c)) (PvChannelId (dch_order c))]))
            in (Inr (), channel_order_insert i (case new_order of Some order \<Rightarrow> order | None \<Rightarrow> old_order) new_parent
                  (channel_order_remove i old_order (b, es)))))"

section \<open>Limits, types and codecs of channels\<close>

text \<open>The fields of \<open>ChannelCreated\<close> and \<open>ChannelEdited\<close> that both have, then those of each.\<close>

record channel_part =
  chp_max_clients :: "i32 option"
  chp_is_max_clients_unlimited :: "bool option"
  chp_max_family_clients :: "i32 option"
  chp_is_max_family_clients_unlimited :: "bool option"
  chp_inherits_max_family_clients :: "bool option"
  chp_is_permanent :: "bool option"
  chp_is_semi_permanent :: "bool option"

record created_part = channel_part +
  crp_channel_id :: u64
  crp_order :: u64
  crp_parent_id :: u64
  crp_codec :: "codec option"

record edited_part = channel_part +
  edp_order :: "u64 option"
  edp_parent_id :: "u64 option"
  edp_reason :: reason
  edp_invoker :: "invoker option"

record list_part =
  lip_max_clients :: i32
  lip_is_max_clients_unlimited :: bool
  lip_max_family_clients :: i32
  lip_is_max_family_clients_unlimited :: bool
  lip_inherits_max_family_clients :: bool
  lip_is_permanent :: bool
  lip_is_semi_permanent :: bool

definition flag :: "bool option \<Rightarrow> bool" where
  "flag b = (b = Some True)"

text \<open>A limit between 0 and \<open>u16::MAX\<close>.\<close>

definition limited :: "i32 \<Rightarrow> max_clients option" where
  "limited n = (if 0 \<le> sint n \<and> sint n \<le> 65535 then Some (Limited (ucast n)) else None)"

definition max_clients_of_part :: "'a channel_part_scheme \<Rightarrow> max_clients option" where
  "max_clients_of_part m =
     (if flag (chp_is_max_clients_unlimited m) then Some Unlimited
      else Option.bind (chp_max_clients m) limited)"

definition max_family_of_part :: "'a channel_part_scheme \<Rightarrow> max_clients option" where
  "max_family_of_part m =
     (if flag (chp_is_max_family_clients_unlimited m) then Some Unlimited
      else if flag (chp_inherits_max_family_clients m) then Some Inherited
      else Option.bind (chp_max_family_clients m) limited)"

definition max_clients_cc_fun :: "created_part \<Rightarrow> max_clients option \<times> max_clients option" where
  "max_clients_cc_fun m = (max_clients_of_part m, max_family_of_part m)"

definition max_clients_ce_fun :: "u64 \<Rightarrow> edited_part \<Rightarrow> ('x, unit) book_run" where
  "max_clients_ce_fun i m = on_channel i (\<lambda>c.
     let (c, es) = (case max_clients_of_part m of
           None \<Rightarrow> (c, [])
         | Some ch \<Rightarrow> (c\<lparr>dch_max_clients := Some ch\<rparr>, [PropertyChanged (PidChannelMaxClients i)
             (PvOptionMaxClients (dch_max_clients c)) (edp_invoker m) (Some (edp_reason m))]))
     in case max_family_of_part m of
         None \<Rightarrow> (c, es)
       | Some ch \<Rightarrow> (c\<lparr>dch_max_family_clients := Some ch\<rparr>, es @ [PropertyChanged (PidChannelMaxFamilyClients i)
           (PvOptionMaxClients (dch_max_family_clients c)) (edp_invoker m) (Some (edp_reason m))]))"

definition max_clients_cl_fun :: "list_part \<Rightarrow> max_clients option \<times> max_clients option" where
  "max_clients_cl_fun m =
     (if lip_is_max_clients_unlimited m then Some Unlimited else limited (lip_max_clients m),
      if lip_is_max_family_clients_unlimited m then Some Unlimited
      else if lip_inherits_max_family_clients m then Some Inherited
      else case limited (lip_max_family_clients m) of None \<Rightarrow> Some Unlimited | Some l \<Rightarrow> Some l)"

definition channel_flags_to_type :: "bool option \<Rightarrow> bool option \<Rightarrow> channel_type" where
  "channel_flags_to_type perm semi = (if flag perm then Permanent else if flag semi then SemiPermanent else Temporary)"

definition channel_type_cc_fun :: "created_part \<Rightarrow> channel_type" where
  "channel_type_cc_fun m = channel_flags_to_type (chp_is_permanent m) (chp_is_semi_permanent m)"

definition channel_type_ce_fun :: "u64 \<Rightarrow> edited_part \<Rightarrow> ('x, unit) book_run" where
  "channel_type_ce_fun i m = on_channel i (\<lambda>c.
     if chp_is_permanent m = None \<and> chp_is_semi_permanent m = None then (c, [])
     else (c\<lparr>dch_channel_type := channel_flags_to_type (chp_is_permanent m) (chp_is_semi_permanent m)\<rparr>,
       [PropertyChanged (PidChannelChannelType i) (PvChannelType (dch_channel_type c)) (edp_invoker m) (Some (edp_reason m))]))"

definition channel_type_cl_fun :: "list_part \<Rightarrow> channel_type" where
  "channel_type_cl_fun m = channel_flags_to_type (Some (lip_is_permanent m)) (Some (lip_is_semi_permanent m))"

definition channel_codec_cc_fun :: "created_part \<Rightarrow> codec" where
  "channel_codec_cc_fun m = (case crp_codec m of None \<Rightarrow> codec.OpusVoice | Some c \<Rightarrow> c)"

definition channel_order_cc_fun :: "created_part \<Rightarrow> ('x, u64) book_run" where
  "channel_order_cc_fun m s = (Inr (crp_order m), channel_order_insert (crp_channel_id m) (crp_order m) (crp_parent_id m) s)"

definition channel_order_ce_fun :: "u64 \<Rightarrow> edited_part \<Rightarrow> ('x, unit) book_run" where
  "channel_order_ce_fun i m = channel_order_move_fun i (edp_order m) (edp_parent_id m)"

text \<open>\<open>ChannelMoved\<close> has the new order and parent.\<close>

definition channel_order_cm_fun :: "u64 \<Rightarrow> u64 \<Rightarrow> u64 \<Rightarrow> ('x, unit) book_run" where
  "channel_order_cm_fun i order parent = channel_order_move_fun i (Some order) (Some parent)"

section \<open>Clients\<close>

definition away_cev_fun :: "bool \<Rightarrow> rstr \<Rightarrow> rstr option" where
  "away_cev_fun is_away message = (if is_away then Some message else None)"

definition client_type_cev_fun :: "u8 list \<Rightarrow> view_client_type \<Rightarrow> view_client_type" where
  "client_type_cev_fun uid t = (case t of
      ViewQuery _ \<Rightarrow> if is_server_admin uid then ViewQuery True else t
    | ViewNormal \<Rightarrow> ViewNormal)"

text \<open>The fields of \<open>ClientUpdated\<close>.\<close>

record updated_part =
  upp_is_away :: "bool option"
  upp_away_message :: "rstr option"
  upp_talk_power_request_time :: "int option"
  upp_talk_power_request_message :: "rstr option"
  upp_invoker :: "invoker option"

definition away_cu_fun :: "u16 \<Rightarrow> updated_part \<Rightarrow> ('x, unit) book_run" where
  "away_cu_fun i m = on_client i (\<lambda>c.
     let update = (\<lambda>away. (c\<lparr>dcl_away_message := away\<rparr>,
           [PropertyChanged (PidClientAwayMessage i) (PvOptionString (dcl_away_message c)) (upp_invoker m) None]))
     in case upp_is_away m of
         Some is_away \<Rightarrow>
           if is_away \<noteq> (dcl_away_message c \<noteq> None)
           then update (if is_away then Some (case upp_away_message m of None \<Rightarrow> [] | Some t \<Rightarrow> t) else None)
           else (c, [])
       | None \<Rightarrow> (case (upp_away_message m, dcl_away_message c) of
             (Some new, Some cur) \<Rightarrow> if new \<noteq> cur then update (Some new) else (c, [])
           | _ \<Rightarrow> (c, [])))"

definition talk_power_cev_fun :: "int \<Rightarrow> rstr \<Rightarrow> talk_power_request option" where
  "talk_power_cev_fun time message = (if 0 < time then Some \<lparr>tpr_time = time, tpr_message = message\<rparr> else None)"

definition talk_power_cu_fun :: "u16 \<Rightarrow> updated_part \<Rightarrow> ('x, unit) book_run" where
  "talk_power_cu_fun i m = (case upp_talk_power_request_time m of
      None \<Rightarrow> (\<lambda>s. (Inr (), s))
    | Some time \<Rightarrow> on_client i (\<lambda>c.
        (c\<lparr>dcl_talk_power_request := talk_power_cev_fun time
            (case upp_talk_power_request_message m of None \<Rightarrow> [] | Some t \<Rightarrow> t)\<rparr>,
         [PropertyChanged (PidClientTalkPowerRequest i) (PvOptionTalkPowerRequest (dcl_talk_power_request c))
            (upp_invoker m) None])))"

text \<open>\<open>trim_matches(&['[', ']'])\<close>\<close>

definition trim_brackets :: "rstr \<Rightarrow> rstr" where
  "trim_brackets s = (let bracket = (\<lambda>c. c = 91 \<or> c = 93) in rev (dropWhile bracket (rev (dropWhile bracket s))))"

definition address_fun :: "rstr option \<Rightarrow> u16 option \<Rightarrow> book_error + (ip_addr \<times> u16) option" where
  "address_fun ip port = (case (ip, port) of
      (Some ip, Some port) \<Rightarrow>
        if ip = [] then Inr None
        else (case parse_ip (trim_brackets ip) of None \<Rightarrow> Inl InvalidConnectionIp | Some a \<Rightarrow> Inr (Some (a, port)))
    | _ \<Rightarrow> Inr None)"

section \<open>Subscriptions\<close>

definition set_subscribed :: "bool \<Rightarrow> u64 \<Rightarrow> ('x, unit) book_run" where
  "set_subscribed v i = on_channel i (\<lambda>c.
     (c\<lparr>dch_subscribed := v\<rparr>, [changed (PidChannelSubscribed i) (PvBool (dch_subscribed c))]))"

definition channel_subscribe_fun :: "u64 \<Rightarrow> ('x, unit) book_run" where
  "channel_subscribe_fun = set_subscribed True"

text \<open>The clients of the channel are removed. \<open>None\<close> is the panic of \<open>unwrap\<close> on a missing client.\<close>

fun remove_clients :: "u16 list \<Rightarrow> 'x data_book \<times> 'x event list \<Rightarrow> ('x data_book \<times> 'x event list) option" where
  "remove_clients [] s = Some s"
| "remove_clients (i # is) (b, es) = (case remove_client i b of
      (None, _) \<Rightarrow> None
    | (Some c, b) \<Rightarrow> remove_clients is (b, es @ [PropertyRemoved (PidClient i) (PvClient c) None None]))"

definition channel_unsubscribe_fun ::
    "u64 \<Rightarrow> 'x data_book \<times> 'x event list \<Rightarrow> ((book_error + unit) \<times> 'x data_book \<times> 'x event list) option" where
  "channel_unsubscribe_fun i s = (case set_subscribed False i s of
      (Inl e, s) \<Rightarrow> Some (Inl e, s)
    | (Inr _, (b, es)) \<Rightarrow>
        map_option (\<lambda>s. (Inr (), s))
          (remove_clients (map dcl_id (filter (\<lambda>c. dcl_channel c = i) (map snd (db_clients b)))) (b, es)))"

text \<open>A channel we enter gets subscribed: \<open>ClientMoved\<close>.\<close>

definition subscribe_channel_fun :: "u16 \<Rightarrow> u64 \<Rightarrow> ('x, unit) book_run" where
  "subscribe_channel_fun i target s =
     (if i = db_own_client (fst s) \<and> target \<noteq> 0 then set_subscribed True target s else (Inr (), s))"

section \<open>Messages\<close>

datatype text_mode = ModeUnknown | ModeClient | ModeChannel | ModeServer

record text_message_part =
  txp_target :: text_mode
  txp_target_client_id :: "u16 option"
  txp_invoker :: invoker
  txp_message :: rstr

text \<open>The messages that are handled by hand; the others are left to the generated code.\<close>

record error_report =
  er_id :: ts_error
  er_missing_permission :: "u32 option"
  er_return_code :: "rstr option"
  er_extra_message :: "rstr option"

datatype 'm book_message =
    BmTextMessage "text_message_part list"
  | BmClientPoke "(invoker \<times> rstr) list"
  | BmCommandError "error_report list"
  | BmOther 'm

definition message_target_of :: "text_message_part \<Rightarrow> book_error + message_target" where
  "message_target_of m = (case txp_target m of
      ModeServer \<Rightarrow> Inr ToServer
    | ModeChannel \<Rightarrow> Inr ToChannel
    | ModeClient \<Rightarrow> (case txp_target_client_id m of
        None \<Rightarrow> Inl MessageWithoutTargetClientId | Some c \<Rightarrow> Inr (ToClient c))
    | ModeUnknown \<Rightarrow> Inl UnknownTextMessageTargetMode)"

fun text_events :: "text_message_part list \<Rightarrow> book_error + 'x event list" where
  "text_events [] = Inr []"
| "text_events (m # ms) = (case message_target_of m of
      Inl e \<Rightarrow> Inl e
    | Inr t \<Rightarrow> map_sum id (Cons (EventMessage t (txp_invoker m) (txp_message m))) (text_events ms))"

definition special_events :: "'m book_message \<Rightarrow> bool \<Rightarrow> book_error + 'x event list \<times> bool" where
  "special_events msg handled = (case msg of
      BmTextMessage ms \<Rightarrow> map_sum id (\<lambda>es. (es, handled \<or> ms \<noteq> [])) (text_events ms)
    | BmClientPoke ms \<Rightarrow> Inr (map (\<lambda>(i, t). EventMessage (ToPoke (inv_id i)) i t) ms, handled \<or> ms \<noteq> [])
    | BmCommandError _ \<Rightarrow> Inr ([], True)
    | BmOther _ \<Rightarrow> Inr ([], handled))"

text \<open>The name of the invoker of the first event is the current name of that client.\<close>

definition adjust_invoker :: "'x data_book \<times> 'x event list \<Rightarrow> 'x data_book \<times> 'x event list" where
  "adjust_invoker s = (case s of (b, es) \<Rightarrow>
     (case es of
        [] \<Rightarrow> (b, es)
      | e # _ \<Rightarrow> (case get_invoker e of
          None \<Rightarrow> (b, es)
        | Some who \<Rightarrow> (case get_client (inv_id who) b of
            Inl _ \<Rightarrow> (b, es)
          | Inr c \<Rightarrow>
              if dcl_name c \<noteq> inv_name who
              then (set_client (inv_id who) (c\<lparr>dcl_name := inv_name who\<rparr>) b,
                es @ [changed (PidClientName (dcl_id c)) (PvString (dcl_name c))])
              else (b, es)))))"

text \<open>\<open>gen\<close> is \<open>handle_command_generated\<close>.\<close>

definition book_handle_command ::
    "('m book_message \<Rightarrow> ('x, bool) book_run) \<Rightarrow> 'm book_message \<Rightarrow> 'x data_book
      \<Rightarrow> (book_error + 'x event list \<times> bool) \<times> 'x data_book" where
  "book_handle_command gen msg b = (case gen msg (b, []) of
      (Inl e, b, _) \<Rightarrow> (Inl e, b)
    | (Inr handled, b, es) \<Rightarrow> (case special_events msg handled of
        Inl e \<Rightarrow> (Inl e, b)
      | Inr (new, handled) \<Rightarrow> (case adjust_invoker (b, es @ new) of
          (b, es) \<Rightarrow> (Inr (es, handled), b))))"

section \<open>From the book to messages\<close>

definition away_fun_b2m :: "rstr option \<Rightarrow> bool \<times> rstr" where
  "away_fun_b2m m = (case m of Some t \<Rightarrow> (True, t) | None \<Rightarrow> (False, []))"

definition password_flagged_b2m :: "('q, 'w) key_crates \<Rightarrow> u8 list option \<Rightarrow> bool \<times> u8 list" where
  "password_flagged_b2m kc p = (case p of Some p \<Rightarrow> (True, encode_password kc p) | None \<Rightarrow> (False, []))"

definition password_b2m :: "('q, 'w) key_crates \<Rightarrow> u8 list option \<Rightarrow> u8 list" where
  "password_b2m kc p = (case p of Some p \<Rightarrow> encode_password kc p | None \<Rightarrow> [])"

text \<open>Semi-permanent comes first in the pair.\<close>

fun channel_type_fun_b2m :: "channel_type \<Rightarrow> bool \<times> bool" where
  "channel_type_fun_b2m Temporary = (False, False)"
| "channel_type_fun_b2m SemiPermanent = (True, False)"
| "channel_type_fun_b2m Permanent = (False, True)"

fun max_clients_fun_b2m :: "max_clients \<Rightarrow> i32 \<times> bool" where
  "max_clients_fun_b2m Inherited = (0, False)"
| "max_clients_fun_b2m Unlimited = (0, True)"
| "max_clients_fun_b2m (Limited n) = (ucast n, False)"

fun max_family_clients_fun_b2m :: "max_clients \<Rightarrow> i32 \<times> bool \<times> bool" where
  "max_family_clients_fun_b2m Inherited = (0, False, True)"
| "max_family_clients_fun_b2m Unlimited = (0, True, False)"
| "max_family_clients_fun_b2m (Limited n) = (ucast n, False, False)"

text \<open>\<open>send_message\<close> for the four targets, \<open>send_textmessage\<close> and \<open>poke\<close> of a client and of the server.\<close>

fun send_message :: "message_target \<Rightarrow> rstr \<Rightarrow> out_message" where
  "send_message ToServer m = OutSendTextMessage TargetServer None m"
| "send_message ToChannel m = OutSendTextMessage TargetChannel None m"
| "send_message (ToClient i) m = OutSendTextMessage TargetClient (Some i) m"
| "send_message (ToPoke i) m = OutClientPoke i m"

definition client_send_textmessage :: "'x data_client \<Rightarrow> rstr \<Rightarrow> out_message" where
  "client_send_textmessage c m = OutSendTextMessage TargetClient (Some (dcl_id c)) m"

definition poke :: "'x data_client \<Rightarrow> rstr \<Rightarrow> out_message" where
  "poke c m = OutClientPoke (dcl_id c) m"

definition server_send_textmessage :: "rstr \<Rightarrow> out_message" where
  "server_send_textmessage m = OutSendTextMessage TargetServer None m"

definition channel_set_subscribed :: "'x data_channel \<Rightarrow> bool \<Rightarrow> out_message" where
  "channel_set_subscribed c v = (if v then OutChannelSubscribe (dch_id c) else OutChannelUnsubscribe (dch_id c))"

text \<open>\<open>ChannelOptions\<close> and the message that creates a channel.\<close>

record channel_options =
  cho_name :: rstr
  cho_description :: "rstr option"
  cho_parent_id :: "u64 option"
  cho_codec :: "codec option"
  cho_codec_quality :: "u8 option"
  cho_delete_delay :: "int option"
  cho_password :: "u8 list option"
  cho_is_default :: bool
  cho_max_clients :: "max_clients option"
  cho_max_family_clients :: "max_clients option"
  cho_channel_type :: "channel_type option"
  cho_is_unencrypted :: "bool option"
  cho_order :: "u64 option"
  cho_phonetic_name :: "rstr option"
  cho_topic :: "rstr option"

definition channel_options_new :: "rstr \<Rightarrow> channel_options" where
  "channel_options_new name = \<lparr>cho_name = name, cho_description = None, cho_parent_id = None, cho_codec = None,
     cho_codec_quality = None, cho_delete_delay = None, cho_password = None, cho_is_default = False,
     cho_max_clients = None, cho_max_family_clients = None, cho_channel_type = None, cho_is_unencrypted = None,
     cho_order = None, cho_phonetic_name = None, cho_topic = None\<rparr>"

text \<open>The builder.\<close>

definition with_description :: "rstr \<Rightarrow> channel_options \<Rightarrow> channel_options" where
  "with_description v opt = opt\<lparr>cho_description := Some v\<rparr>"

definition with_parent_id :: "u64 \<Rightarrow> channel_options \<Rightarrow> channel_options" where
  "with_parent_id v opt = opt\<lparr>cho_parent_id := Some v\<rparr>"

definition with_codec :: "codec \<Rightarrow> channel_options \<Rightarrow> channel_options" where
  "with_codec v opt = opt\<lparr>cho_codec := Some v\<rparr>"

definition with_codec_quality :: "u8 \<Rightarrow> channel_options \<Rightarrow> channel_options" where
  "with_codec_quality v opt = opt\<lparr>cho_codec_quality := Some v\<rparr>"

definition with_delete_delay :: "int \<Rightarrow> channel_options \<Rightarrow> channel_options" where
  "with_delete_delay v opt = opt\<lparr>cho_delete_delay := Some v\<rparr>"

definition with_password :: "u8 list \<Rightarrow> channel_options \<Rightarrow> channel_options" where
  "with_password v opt = opt\<lparr>cho_password := Some v\<rparr>"

definition with_max_clients :: "max_clients \<Rightarrow> channel_options \<Rightarrow> channel_options" where
  "with_max_clients v opt = opt\<lparr>cho_max_clients := Some v\<rparr>"

definition with_max_family_clients :: "max_clients \<Rightarrow> channel_options \<Rightarrow> channel_options" where
  "with_max_family_clients v opt = opt\<lparr>cho_max_family_clients := Some v\<rparr>"

definition with_channel_type :: "channel_type \<Rightarrow> channel_options \<Rightarrow> channel_options" where
  "with_channel_type v opt = opt\<lparr>cho_channel_type := Some v\<rparr>"

definition with_is_unencrypted :: "bool \<Rightarrow> channel_options \<Rightarrow> channel_options" where
  "with_is_unencrypted v opt = opt\<lparr>cho_is_unencrypted := Some v\<rparr>"

definition with_order :: "u64 \<Rightarrow> channel_options \<Rightarrow> channel_options" where
  "with_order v opt = opt\<lparr>cho_order := Some v\<rparr>"

definition with_phonetic_name :: "rstr \<Rightarrow> channel_options \<Rightarrow> channel_options" where
  "with_phonetic_name v opt = opt\<lparr>cho_phonetic_name := Some v\<rparr>"

definition with_topic :: "rstr \<Rightarrow> channel_options \<Rightarrow> channel_options" where
  "with_topic v opt = opt\<lparr>cho_topic := Some v\<rparr>"

definition as_default :: "channel_options \<Rightarrow> channel_options" where
  "as_default opt = opt\<lparr>cho_is_default := True\<rparr>"

record channel_create = channel_part +
  cre_options :: channel_options
    \<comment> \<open>the fields copied as they are\<close>
  cre_has_password :: "bool option"
  cre_is_default :: "bool option"
  cre_password :: "u8 list option"

definition only :: "bool \<Rightarrow> bool option" where
  "only b = (if b then Some True else None)"

fun limit_value :: "max_clients option \<Rightarrow> i32 option" where
  "limit_value (Some (Limited n)) = Some (ucast n)"
| "limit_value _ = None"

definition create_channel :: "('q, 'w) key_crates \<Rightarrow> channel_options \<Rightarrow> channel_create" where
  "create_channel kc opt = \<lparr>
     chp_max_clients = limit_value (cho_max_clients opt),
     chp_is_max_clients_unlimited = only (cho_max_clients opt = Some Unlimited),
     chp_max_family_clients = limit_value (cho_max_family_clients opt),
     chp_is_max_family_clients_unlimited = only (cho_max_family_clients opt = Some Unlimited),
     chp_inherits_max_family_clients = only (cho_max_family_clients opt = Some Inherited),
     chp_is_permanent = only (cho_channel_type opt = Some Permanent),
     chp_is_semi_permanent = only (cho_channel_type opt = Some SemiPermanent),
     cre_options = opt,
     cre_has_password = only (cho_password opt \<noteq> None),
     cre_is_default = only (cho_is_default opt),
     cre_password = map_option (encode_password kc) (cho_password opt)\<rparr>"

section \<open>A new book\<close>

definition data_connection_new :: "u16 \<Rightarrow> encryption_mode \<Rightarrow> 'x data_book" where
  "data_connection_new own mode = \<lparr>db_own_client = own,
     db_server = \<lparr>dsv_codec_encryption_mode = mode, dsv_optional_data = None, dsv_connection_data = None\<rparr>,
     db_clients = [], db_channels = [], db_channel_groups = [], db_server_groups = []\<rparr>"

section \<open>What is read back\<close>

lemma limited_ucast: "limited (ucast (n :: u16)) = Some (Limited n)"
proof -
  have n: "uint n < 65536" using uint_lt2p [of n] by simp
  have "- 2147483648 \<le> uint n" by (rule order_trans [OF _ uint_ge_0]) simp
  moreover have "uint (ucast n :: i32) = uint n" using n by (simp add: unsigned_ucast_eq take_bit_int_eq_self)
  ultimately have "sint (ucast n :: i32) = uint n" using n by (subst sint_uint) (simp add: signed_take_bit_int_eq_self_iff)
  moreover have "ucast (ucast n :: i32) = n" by (rule bit_word_eqI) (simp add: bit_ucast_iff)
  ultimately show ?thesis using n by (simp add: limited_def)
qed

text \<open>C20. A channel made with \<open>ChannelOptions\<close> is read back with its limits and its type, except that a limit of
  the channel itself cannot be inherited and a missing type means a temporary channel. The values written for
  a channel that is changed are read back too, except that an inherited limit of its own becomes the limit
  zero, which closes the channel.
\<close>

theorem limits_and_types_are_read_back:
  "max_clients_of_part (create_channel kc opt)
     = (if cho_max_clients opt = Some Inherited then None else cho_max_clients opt)
   \<and> max_family_of_part (create_channel kc opt) = cho_max_family_clients opt
   \<and> channel_flags_to_type (chp_is_permanent (create_channel kc opt)) (chp_is_semi_permanent (create_channel kc opt))
     = (case cho_channel_type opt of Some t \<Rightarrow> t | None \<Rightarrow> Temporary)
   \<and> (let (n, u) = max_clients_fun_b2m own; (nf, uf, i) = max_family_clients_fun_b2m family;
          (semi, perm) = channel_type_fun_b2m t;
          m = \<lparr>lip_max_clients = n, lip_is_max_clients_unlimited = u, lip_max_family_clients = nf,
            lip_is_max_family_clients_unlimited = uf, lip_inherits_max_family_clients = i,
            lip_is_permanent = perm, lip_is_semi_permanent = semi\<rparr>
      in max_clients_cl_fun m = (Some (if own = Inherited then Limited 0 else own), Some family)
         \<and> channel_type_cl_fun m = t)"
proof (intro conjI)
  show "max_clients_of_part (create_channel kc opt)
     = (if cho_max_clients opt = Some Inherited then None else cho_max_clients opt)"
    by (cases "cho_max_clients opt" rule: limit_value.cases)
      (simp_all add: max_clients_of_part_def create_channel_def only_def flag_def limited_ucast)
  show "max_family_of_part (create_channel kc opt) = cho_max_family_clients opt"
    by (cases "cho_max_family_clients opt" rule: limit_value.cases)
      (simp_all add: max_family_of_part_def create_channel_def only_def flag_def limited_ucast)
  show "channel_flags_to_type (chp_is_permanent (create_channel kc opt)) (chp_is_semi_permanent (create_channel kc opt))
     = (case cho_channel_type opt of Some t \<Rightarrow> t | None \<Rightarrow> Temporary)"
  proof (cases "cho_channel_type opt")
    case (Some t)
    then show ?thesis by (cases t) (simp_all add: channel_flags_to_type_def create_channel_def only_def flag_def)
  qed (simp add: channel_flags_to_type_def create_channel_def only_def flag_def)
  have "limited 0 = Some (Limited 0)" using limited_ucast [of 0] by simp
  then show "let (n, u) = max_clients_fun_b2m own; (nf, uf, i) = max_family_clients_fun_b2m family;
          (semi, perm) = channel_type_fun_b2m t;
          m = \<lparr>lip_max_clients = n, lip_is_max_clients_unlimited = u, lip_max_family_clients = nf,
            lip_is_max_family_clients_unlimited = uf, lip_inherits_max_family_clients = i,
            lip_is_permanent = perm, lip_is_semi_permanent = semi\<rparr>
      in max_clients_cl_fun m = (Some (if own = Inherited then Limited 0 else own), Some family)
         \<and> channel_type_cl_fun m = t"
    by (cases own; cases family; cases t)
      (simp_all add: max_clients_cl_fun_def channel_type_cl_fun_def channel_flags_to_type_def flag_def limited_ucast)
qed

end
