(* ===== verification/ChannelOrder.thy ===== *)
theory ChannelOrder
  imports Book
begin

text \<open>
  The order of channels in the book (theory Book) is a linked list for each parent: adding, removing and
  moving a channel are insertion and removal in that list.
\<close>

section \<open>Linked lists of identifiers\<close>

text \<open>Every identifier of the list has the one before it as its order.\<close>

fun chained :: "(u64 \<Rightarrow> u64 option) \<Rightarrow> u64 \<Rightarrow> u64 list \<Rightarrow> bool" where
  "chained ord prev [] = True"
| "chained ord prev (x # xs) = (ord x = Some prev \<and> chained ord x xs)"

fun next_of :: "u64 \<Rightarrow> u64 \<Rightarrow> u64 list \<Rightarrow> u64 option" where
  "next_of prev a [] = None"
| "next_of prev a (x # xs) = (if prev = a then Some x else next_of x a xs)"

fun insert_next :: "u64 \<Rightarrow> u64 \<Rightarrow> u64 \<Rightarrow> u64 list \<Rightarrow> u64 list" where
  "insert_next prev a i [] = (if prev = a then [i] else [])"
| "insert_next prev a i (x # xs) = (if prev = a then i # x # xs else x # insert_next x a i xs)"

text \<open>Insertion behind \<open>a\<close>, at the front for zero.\<close>

definition insert_after :: "u64 \<Rightarrow> u64 \<Rightarrow> u64 list \<Rightarrow> u64 list" where
  "insert_after a i xs = insert_next 0 a i xs"

lemma chained_cong: "(\<And>x. x \<in> set xs \<Longrightarrow> f x = g x) \<Longrightarrow> chained f prev xs = chained g prev xs"
  by (induction xs arbitrary: prev) auto

lemma chained_other [simp]: "y \<notin> set xs \<Longrightarrow> chained (\<lambda>b. if b = y then v else f b) prev xs = chained f prev xs"
  by (rule chained_cong) auto

lemma chained_order: "chained f prev xs \<Longrightarrow> x \<in> set xs \<Longrightarrow> f x \<in> Some ` set (prev # xs)"
  by (induction xs arbitrary: prev) auto

lemma chained_append: "chained f prev (xs @ ys) \<longleftrightarrow> chained f prev xs \<and> chained f (last (prev # xs)) ys"
  by (induction xs arbitrary: prev) auto

lemma next_of_member: "next_of prev a xs = Some x \<Longrightarrow> x \<in> set xs"
  by (induction prev a xs rule: next_of.induct) (auto split: if_splits)

lemma next_of_none: "a \<notin> set (prev # xs) \<Longrightarrow> next_of prev a xs = None"
  by (induction prev a xs rule: next_of.induct) auto

lemma next_of_order:
  "chained f prev xs \<Longrightarrow> distinct (prev # xs) \<Longrightarrow> x \<in> set xs \<Longrightarrow> f x = Some a \<longleftrightarrow> next_of prev a xs = Some x"
proof (induction prev a xs rule: next_of.induct)
  case (2 prev a y ys)
  show ?case
  proof (cases "x = y")
    case True
    have "next_of y a ys \<noteq> Some y" using 2(3) next_of_member by fastforce
    then show ?thesis using 2 True by auto
  next
    case False
    then have x: "x \<in> set ys" using 2(4) by simp
    show ?thesis
    proof (cases "prev = a")
      case True
      then have "a \<notin> set (y # ys)" using 2(3) by auto
      then have "f x \<noteq> Some a" using chained_order [of f y ys x] 2(2) x by auto
      then show ?thesis using True False by simp
    qed (use 2 x False in auto)
  qed
qed simp

lemma next_of_self: "distinct (prev # xs) \<Longrightarrow> next_of prev a xs \<noteq> Some a"
  by (induction prev a xs rule: next_of.induct) auto

lemma set_insert_next: "a \<in> set (prev # xs) \<Longrightarrow> set (insert_next prev a i xs) = insert i (set xs)"
  by (induction prev a i xs rule: insert_next.induct) auto

lemma distinct_insert_next: "distinct xs \<Longrightarrow> i \<notin> set xs \<Longrightarrow> distinct (insert_next prev a i xs)"
proof (induction prev a i xs rule: insert_next.induct)
  case (2 prev a i x xs)
  have "set (insert_next x a i xs) \<subseteq> insert i (set xs)" for x xs
    by (induction x a i xs rule: insert_next.induct) auto
  with 2 show ?case by auto
qed simp

definition relink :: "u64 option \<Rightarrow> u64 \<Rightarrow> (u64 \<Rightarrow> u64 option) \<Rightarrow> u64 \<Rightarrow> u64 option" where
  "relink s a f = (case s of None \<Rightarrow> f | Some x \<Rightarrow> f(x \<mapsto> a))"

lemma relink_other: "s \<noteq> Some x \<Longrightarrow> relink s a f x = f x"
  by (auto simp: relink_def split: option.splits)

lemma chained_insert:
  "chained f prev xs \<Longrightarrow> distinct (prev # xs) \<Longrightarrow> i \<notin> set (prev # xs) \<Longrightarrow> a \<in> set (prev # xs)
    \<Longrightarrow> f i = Some a \<Longrightarrow> chained (relink (next_of prev a xs) i f) prev (insert_next prev a i xs)"
proof (induction prev a i xs rule: insert_next.induct)
  case (2 prev a i x xs)
  show ?case
  proof (cases "prev = a")
    case True
    show ?thesis using 2 True by (auto simp: relink_def)
  next
    case False
    have "next_of x a xs \<noteq> Some x" using 2(3) next_of_member by fastforce
    then show ?thesis using 2 False by (auto simp: relink_other)
  qed
qed (auto simp: relink_def)

lemma chained_remove:
  "chained f prev xs \<Longrightarrow> distinct (prev # xs) \<Longrightarrow> i \<in> set xs \<Longrightarrow> f i = Some a
    \<Longrightarrow> chained (relink (next_of prev i xs) a f) prev (remove1 i xs)"
proof (induction prev i xs rule: next_of.induct)
  case (2 prev i x xs)
  show ?case
  proof (cases "x = i")
    case True
    then have "a = prev" "prev \<noteq> i" using 2 by auto
    show ?thesis
    proof (cases xs)
      case (Cons y ys)
      then show ?thesis using 2 True Cons \<open>a = prev\<close> \<open>prev \<noteq> i\<close> by (auto simp: relink_def)
    qed (use True in simp)
  next
    case False
    then have "i \<in> set xs" "prev \<noteq> i" using 2 by auto
    moreover have "next_of x i xs \<noteq> Some x" using 2(3) next_of_member by fastforce
    ultimately show ?thesis using 2 False by (auto simp: relink_other)
  qed
qed simp

section \<open>Updating one channel\<close>

lemma update_first_none: "\<forall>v\<in>snd ` set t. \<not> P v \<Longrightarrow> update_first P f t = (t, None)"
  by (induction t) auto

lemma update_first_only:
  assumes "distinct (tkeys t)" "tget t k = Some v" "P v" "\<forall>j u. tget t j = Some u \<longrightarrow> P u \<longrightarrow> j = k"
  shows "update_first P f t = (tput k (f v) t, Some v)"
  using assms
proof (induction t)
  case (Cons e t)
  obtain j u where e: "e = (j, u)" by (metis surj_pair)
  show ?case
  proof (cases "j = k")
    case True
    then have "u = v" using Cons.prems(2) e by simp
    then show ?thesis using Cons.prems(3) e True by simp
  next
    case False
    have "\<not> P u" using Cons.prems(4) e False by auto
    moreover have "j' = k" if "tget t j' = Some u'" "P u'" for j' u'
    proof -
      have "j' \<in> set (tkeys t)" unfolding set_tkeys using that(1) by simp
      then have "j' \<noteq> j" using Cons.prems(1) e by auto
      then have "tget (e # t) j' = Some u'" using that(1) e by simp
      then show ?thesis using Cons.prems(4) that(2) by blast
    qed
    moreover have "distinct (tkeys t)" "tget t k = Some v" using Cons.prems(1,2) e False by simp_all
    ultimately have "update_first P f t = (tput k (f v) t, Some v)" using Cons.IH Cons.prems(3) by blast
    then show ?thesis using e False \<open>\<not> P u\<close> by simp
  qed
qed simp

section \<open>The forest of a book\<close>

type_synonym forest = "u64 \<Rightarrow> u64 list"

definition order_in :: "(u64, 'x data_channel) table \<Rightarrow> u64 \<Rightarrow> u64 option" where
  "order_in t i = map_option dch_order (tget t i)"

definition parent_in :: "(u64, 'x data_channel) table \<Rightarrow> u64 \<Rightarrow> u64 option" where
  "parent_in t i = map_option dch_parent (tget t i)"

text \<open>\<open>F p\<close> lists the channels with parent \<open>p\<close> in their order.\<close>

definition forest_ok :: "(u64, 'x data_channel) table \<Rightarrow> forest \<Rightarrow> bool" where
  "forest_ok t F \<longleftrightarrow> distinct (tkeys t) \<and> (\<forall>i c. tget t i = Some c \<longrightarrow> dch_id c = i \<and> i \<noteq> 0)
     \<and> (\<forall>p. distinct (F p) \<and> set (F p) = {i. parent_in t i = Some p} \<and> chained (order_in t) 0 (F p))"

lemma forest_member: "forest_ok t F \<Longrightarrow> i \<in> set (F p) \<longleftrightarrow> (\<exists>c. tget t i = Some c \<and> dch_parent c = p)"
  by (auto simp: forest_ok_def parent_in_def)

lemma forest_zero:
  assumes "forest_ok t F"
  shows "distinct (0 # F p)"
proof -
  have "0 \<notin> set (F p)" unfolding forest_member [OF assms] using assms unfolding forest_ok_def by blast
  then show ?thesis using assms by (simp add: forest_ok_def)
qed

text \<open>The channel behind \<open>a\<close> is the only one with that order, under one parent if \<open>a\<close> is zero.\<close>

lemma forest_next:
  assumes "forest_ok t F" "tget t j = Some c"
  shows "dch_order c = a \<longleftrightarrow> next_of 0 a (F (dch_parent c)) = Some j"
proof -
  have "j \<in> set (F (dch_parent c))" using assms forest_member by blast
  moreover have "chained (order_in t) 0 (F (dch_parent c))" using assms(1) by (simp add: forest_ok_def)
  ultimately have "order_in t j = Some a \<longleftrightarrow> next_of 0 a (F (dch_parent c)) = Some j"
    using next_of_order forest_zero [OF assms(1)] by blast
  then show ?thesis using assms(2) by (simp add: order_in_def)
qed

lemma forest_order_parent:
  assumes "forest_ok t F" "tget t j = Some c" "dch_order c \<noteq> 0"
  shows "dch_order c \<in> set (F (dch_parent c))"
proof -
  have "next_of 0 (dch_order c) (F (dch_parent c)) \<noteq> None" using forest_next [OF assms(1,2)] by auto
  then have "dch_order c \<in> set (0 # F (dch_parent c))" by (metis next_of_none)
  then show ?thesis using assms(3) by simp
qed

section \<open>Relinking\<close>

text \<open>The table in which the channel \<open>s\<close>, if there is one, has the order \<open>a\<close>.\<close>

definition relinked :: "u64 option \<Rightarrow> u64 \<Rightarrow> (u64, 'x data_channel) table \<Rightarrow> (u64, 'x data_channel) table" where
  "relinked s a t = (case Option.bind s (\<lambda>x. map_option (Pair x) (tget t x)) of
      None \<Rightarrow> t | Some (x, c) \<Rightarrow> tput x (c\<lparr>dch_order := a\<rparr>) t)"

lemma relinked_get: "tget (relinked s a t) x = map_option (\<lambda>c. if s = Some x then c\<lparr>dch_order := a\<rparr> else c) (tget t x)"
  by (cases s; cases "tget t (the s)"; cases "tget t x") (auto simp: relinked_def)

lemma tkeys_tput: "k \<in> set (tkeys t) \<Longrightarrow> tkeys (tput k v t) = tkeys t"
  by (induction t) auto

lemma relinked_fields [simp]:
  "distinct (tkeys (relinked s a t)) = distinct (tkeys t)" "parent_in (relinked s a t) = parent_in t"
proof -
  show "parent_in (relinked s a t) = parent_in t"
    by (auto simp: parent_in_def relinked_get fun_eq_iff map_option_case split: option.split)
  have "tkeys (relinked s a t) = tkeys t"
    by (cases s; cases "tget t (the s)") (simp_all add: relinked_def tkeys_tput set_tkeys del: set_map)
  then show "distinct (tkeys (relinked s a t)) = distinct (tkeys t)" by simp
qed

lemma relinked_order: "order_in t x \<noteq> None \<or> s \<noteq> Some x \<Longrightarrow> order_in (relinked s a t) x = relink s a (order_in t) x"
  by (auto simp: order_in_def relinked_get relink_def option.map_ident split: option.splits)

lemma reorder_relinks:
  assumes "distinct (tkeys (db_channels b))"
    "\<forall>j c. tget (db_channels b) j = Some c \<longrightarrow> P c = (s = Some j)" "\<forall>j. s = Some j \<longrightarrow> tget (db_channels b) j \<noteq> None"
  shows "fst (reorder P a (b, es)) = b\<lparr>db_channels := relinked s a (db_channels b)\<rparr>"
proof (cases s)
  case None
  have "\<not> P v" if v: "v \<in> snd ` set (db_channels b)" for v
  proof -
    obtain j where "(j, v) \<in> set (db_channels b)" using v by force
    then have "tget (db_channels b) j = Some v" using assms(1) by simp
    then show ?thesis using assms(2) None by simp
  qed
  then have "update_first P (\<lambda>c. c\<lparr>dch_order := a\<rparr>) (db_channels b) = (db_channels b, None)"
    by (intro update_first_none) blast
  then show ?thesis using None by (simp add: reorder_def relinked_def)
next
  case (Some j)
  then obtain c where c: "tget (db_channels b) j = Some c" using assms(3) by auto
  have "P c" using assms(2) c Some by simp
  moreover have "k = j" if "tget (db_channels b) k = Some u" "P u" for k u using assms(2) that Some by simp
  ultimately have "update_first P (\<lambda>c. c\<lparr>dch_order := a\<rparr>) (db_channels b)
      = (tput j (c\<lparr>dch_order := a\<rparr>) (db_channels b), Some c)"
    using update_first_only [OF assms(1) c, of P] by blast
  then show ?thesis using Some c by (simp add: reorder_def relinked_def)
qed

lemma forest_ok_cong: "forest_ok t F \<Longrightarrow> tget u = tget t \<Longrightarrow> distinct (tkeys u) \<Longrightarrow> forest_ok u F"
  by (simp add: forest_ok_def parent_in_def [abs_def] order_in_def [abs_def])

lemma forest_next_member:
  assumes "forest_ok t F" "next_of 0 a (F p) = Some j"
  obtains c where "tget t j = Some c" "dch_parent c = p" "dch_order c = a"
proof -
  have "j \<in> set (F p)" using assms(2) by (rule next_of_member)
  then obtain c where "tget t j = Some c" "dch_parent c = p" using forest_member [OF assms(1)] by auto
  then show ?thesis using that forest_next [OF assms(1)] assms(2) by blast
qed

lemma forest_next_other:
  assumes "forest_ok t F" "x \<in> set (F q)" "next_of 0 a (F p) = Some x"
  shows "q = p"
proof -
  obtain c where "tget t x = Some c" "dch_parent c = p" by (rule forest_next_member [OF assms(1,3)])
  then show ?thesis using forest_member [OF assms(1)] assms(2) by auto
qed

lemma channel_order_insert_relinks:
  assumes "forest_ok (tdel i (db_channels b)) F" "distinct (tkeys (db_channels b))"
    "\<forall>c. tget (db_channels b) i = Some c \<longrightarrow> dch_id c = i"
  shows "fst (channel_order_insert i a p (b, es)) = b\<lparr>db_channels := relinked (next_of 0 a (F p)) i (db_channels b)\<rparr>"
  unfolding channel_order_insert_def
proof (rule reorder_relinks)
  let ?s = "next_of 0 a (F p)"
  have s: "\<exists>c. tget (db_channels b) j = Some c \<and> j \<noteq> i \<and> dch_parent c = p" if "?s = Some j" for j
    by (rule forest_next_member [OF assms(1) that]) (auto split: if_splits)
  then show "\<forall>j. ?s = Some j \<longrightarrow> tget (db_channels b) j \<noteq> None" by fastforce
  show "\<forall>j c. tget (db_channels b) j = Some c \<longrightarrow>
      (dch_order c = a \<and> dch_parent c = p \<and> dch_id c \<noteq> i) = (?s = Some j)"
  proof (intro allI impI)
    fix j c
    assume c: "tget (db_channels b) j = Some c"
    show "(dch_order c = a \<and> dch_parent c = p \<and> dch_id c \<noteq> i) = (?s = Some j)"
    proof (cases "j = i")
      case True
      then show ?thesis using assms(3) c s by auto
    next
      case False
      then have d: "tget (tdel i (db_channels b)) j = Some c" using c by simp
      then have "dch_id c = j" using assms(1) unfolding forest_ok_def by blast
      moreover have "?s = Some j \<Longrightarrow> dch_parent c = p" using s [of j] c by auto
      ultimately show ?thesis using forest_next [OF assms(1) d, of a] False by auto
    qed
  qed
qed (rule assms(2))

lemma next_of_self_member:
  assumes "forest_ok t F" "tget t i = Some c"
  shows "next_of 0 i (F (dch_parent c)) \<noteq> Some i"
  by (rule next_of_self) (rule forest_zero [OF assms(1)])

lemma channel_order_remove_relinks:
  assumes "forest_ok t F" "tget t i = Some c" "distinct (tkeys (db_channels b))"
    "\<forall>j. j \<noteq> i \<longrightarrow> tget (db_channels b) j = tget t j" "\<forall>d. tget (db_channels b) i = Some d \<longrightarrow> dch_id d = i"
  shows "fst (channel_order_remove i a (b, es))
    = b\<lparr>db_channels := relinked (next_of 0 i (F (dch_parent c))) a (db_channels b)\<rparr>"
  unfolding channel_order_remove_def
proof (rule reorder_relinks)
  let ?s = "next_of 0 i (F (dch_parent c))"
  have i: "i \<noteq> 0" using assms(1,2) unfolding forest_ok_def by blast
  have mem: "i \<in> set (F (dch_parent c))" using forest_member [OF assms(1)] assms(2) by auto
  have ne: "j \<noteq> i" if "?s = Some j" for j using next_of_self_member [OF assms(1,2)] that by auto
  have s: "\<exists>d. tget t j = Some d \<and> dch_parent d = dch_parent c" if "?s = Some j" for j
    using forest_next_member [OF assms(1) that] by auto
  then show "\<forall>j. ?s = Some j \<longrightarrow> tget (db_channels b) j \<noteq> None" using assms(4) ne by fastforce
  show "\<forall>j d. tget (db_channels b) j = Some d \<longrightarrow> (dch_order d = i \<and> dch_id d \<noteq> i) = (?s = Some j)"
  proof (intro allI impI)
    fix j d
    assume d: "tget (db_channels b) j = Some d"
    show "(dch_order d = i \<and> dch_id d \<noteq> i) = (?s = Some j)"
    proof (cases "j = i")
      case True
      then show ?thesis using assms(5) d ne by auto
    next
      case False
      then have e: "tget t j = Some d" using d assms(4) by simp
      then have "dch_id d = j" using assms(1) unfolding forest_ok_def by blast
      moreover have "dch_parent d = dch_parent c" if "dch_order d = i"
        using forest_order_parent [OF assms(1) e] that i forest_member [OF assms(1)] assms(2) by auto
      moreover have "dch_parent d = dch_parent c" if "?s = Some j" using s [OF that] e by simp
      ultimately show ?thesis using forest_next [OF assms(1) e, of i] False by auto
    qed
  qed
qed (rule assms(3))

section \<open>Insertion and removal in the forest\<close>

lemma order_in_tput: "order_in (tput i c t) = (order_in t)(i \<mapsto> dch_order c)"
  by (auto simp: order_in_def fun_eq_iff)

lemma parent_in_tput: "parent_in (tput i c t) = (parent_in t)(i \<mapsto> dch_parent c)"
  by (auto simp: parent_in_def fun_eq_iff)

lemma relinked_ids: "tget (relinked s a t) x = Some c \<Longrightarrow> \<exists>d. tget t x = Some d \<and> dch_id c = dch_id d"
  by (auto simp: relinked_get split: if_splits)

lemma forest_insert:
  assumes "forest_ok t F" "tget t i = None" "i \<noteq> 0" "dch_id c = i" "dch_order c \<in> set (0 # F (dch_parent c))"
  shows "forest_ok (tput i c (relinked (next_of 0 (dch_order c) (F (dch_parent c))) i t))
    (F(dch_parent c := insert_after (dch_order c) i (F (dch_parent c))))" (is "forest_ok ?t ?F")
proof -
  let ?a = "dch_order c" and ?p = "dch_parent c"
  let ?s = "next_of 0 ?a (F ?p)"
  have fresh: "i \<notin> set (F q)" for q using forest_member [OF assms(1), of i q] assms(2) by auto
  have ord: "order_in ?t x = relink ?s i ((order_in t)(i \<mapsto> ?a)) x" if "x = i \<or> x \<in> set (F q)" for x q
  proof (cases "x = i")
    case True
    then have "?s \<noteq> Some x" using fresh next_of_member by fastforce
    then show ?thesis using True by (simp add: order_in_tput relink_other)
  next
    case False
    then have "tget t x \<noteq> None" using that forest_member [OF assms(1)] by auto
    then have "order_in (relinked ?s i t) x = relink ?s i (order_in t) x"
      by (intro relinked_order) (simp add: order_in_def)
    then show ?thesis using False by (simp add: order_in_tput relink_def split: option.splits)
  qed
  have chain: "chained (order_in ?t) 0 (?F q)" for q
  proof (cases "q = ?p")
    case True
    have f: "chained (order_in t) 0 (F ?p)" using assms(1) by (simp add: forest_ok_def)
    then have "chained ((order_in t)(i \<mapsto> ?a)) 0 (F ?p)" using fresh [of ?p] by (simp add: fun_upd_def)
    then have "chained (relink ?s i ((order_in t)(i \<mapsto> ?a))) 0 (insert_after ?a i (F ?p))"
      unfolding insert_after_def using forest_zero [OF assms(1)] fresh assms(3,5) by (intro chained_insert) auto
    moreover have "chained (order_in ?t) 0 (insert_after ?a i (F ?p))
        = chained (relink ?s i ((order_in t)(i \<mapsto> ?a))) 0 (insert_after ?a i (F ?p))"
      using assms(5) by (intro chained_cong ord [where q = ?p]) (simp add: insert_after_def set_insert_next)
    ultimately show ?thesis using True by simp
  next
    case False
    have "?s \<noteq> Some x" if x: "x \<in> set (F q)" for x
      using forest_next_other [OF assms(1) x] False by blast
    then have "order_in ?t x = order_in t x" if x: "x \<in> set (F q)" for x
      using ord [of x q] x fresh [of q] by (auto simp: relink_other)
    then have "chained (order_in ?t) 0 (F q) = chained (order_in t) 0 (F q)" by (rule chained_cong)
    then show ?thesis using False assms(1) by (simp add: forest_ok_def)
  qed
  have "set (?F q) = {x. parent_in ?t x = Some q}" for q
    using assms fresh by (auto simp: parent_in_tput insert_after_def set_insert_next forest_ok_def parent_in_def)
  moreover have "distinct (?F q)" for q
    using assms(1) fresh by (auto simp: insert_after_def distinct_insert_next forest_ok_def)
  moreover have "dch_id d = j \<and> j \<noteq> 0" if "tget ?t j = Some d" for j d
    using that assms(1,3,4) relinked_ids [of ?s i t j d] unfolding forest_ok_def by (auto split: if_splits)
  moreover have "distinct (tkeys ?t)" using assms(1) by (simp add: forest_ok_def)
  ultimately show ?thesis using chain unfolding forest_ok_def by blast
qed

lemma forest_remove:
  assumes "forest_ok t F" "tget t i = Some c"
  shows "forest_ok (relinked (next_of 0 i (F (dch_parent c))) (dch_order c) (tdel i t))
    (F(dch_parent c := remove1 i (F (dch_parent c))))" (is "forest_ok ?t ?F")
proof -
  let ?a = "dch_order c" and ?p = "dch_parent c"
  let ?s = "next_of 0 i (F ?p)"
  have d: "distinct (tkeys t)" using assms(1) by (simp add: forest_ok_def)
  have mem: "i \<in> set (F ?p)" using forest_member [OF assms(1)] assms(2) by auto
  have other: "i \<notin> set (F q)" if "q \<noteq> ?p" for q using forest_member [OF assms(1), of i q] assms(2) that by auto
  have dis: "distinct (F q)" "chained (order_in t) 0 (F q)" for q using assms(1) by (auto simp: forest_ok_def)
  have ord: "order_in ?t x = relink ?s ?a (order_in t) x" if "x \<in> set (F q)" "x \<noteq> i" for x q
  proof -
    have "tget (tdel i t) x \<noteq> None" using that forest_member [OF assms(1)] by auto
    then have "order_in ?t x = relink ?s ?a (order_in (tdel i t)) x" by (intro relinked_order) (simp add: order_in_def)
    then show ?thesis using that(2) by (simp add: relink_def order_in_def split: option.splits)
  qed
  have chain: "chained (order_in ?t) 0 (?F q)" for q
  proof (cases "q = ?p")
    case True
    have "chained (relink ?s ?a (order_in t)) 0 (remove1 i (F ?p))"
      using dis forest_zero [OF assms(1)] mem assms(2) by (intro chained_remove) (auto simp: order_in_def)
    moreover have "chained (order_in ?t) 0 (remove1 i (F ?p)) = chained (relink ?s ?a (order_in t)) 0 (remove1 i (F ?p))"
      using dis(1) by (intro chained_cong ord [where q = ?p]) simp_all
    ultimately show ?thesis using True by simp
  next
    case False
    have "?s \<noteq> Some x" if x: "x \<in> set (F q)" for x
      using forest_next_other [OF assms(1) x] False by blast
    then have "order_in ?t x = order_in t x" if x: "x \<in> set (F q)" for x
      using ord [OF x] x other [OF False] by (auto simp: relink_other)
    then have "chained (order_in ?t) 0 (F q) = chained (order_in t) 0 (F q)" by (rule chained_cong)
    then show ?thesis using False dis by simp
  qed
  have "set (?F q) = {x. parent_in ?t x = Some q}" for q
    using assms d other dis by (auto simp: parent_in_def forest_ok_def)
  moreover have "distinct (?F q)" for q using dis by simp
  moreover have "dch_id e = j \<and> j \<noteq> 0" if "tget ?t j = Some e" for j e
    using that assms(1) relinked_ids [of ?s ?a "tdel i t" j e] d unfolding forest_ok_def by (auto split: if_splits)
  moreover have "distinct (tkeys ?t)" using d by simp
  ultimately show ?thesis using chain unfolding forest_ok_def by blast
qed

section \<open>The operations of the book\<close>

lemma reorder_none:
  assumes "\<forall>j c. tget (db_channels b) j = Some c \<longrightarrow> \<not> P c" "distinct (tkeys (db_channels b))"
  shows "reorder P a (b, es) = (b, es)"
proof -
  have "\<not> P v" if v: "v \<in> snd ` set (db_channels b)" for v
  proof -
    obtain j where "(j, v) \<in> set (db_channels b)" using v by force
    then show ?thesis using assms by simp
  qed
  then have "update_first P (\<lambda>c. c\<lparr>dch_order := a\<rparr>) (db_channels b) = (db_channels b, None)"
    by (intro update_first_none) blast
  then show ?thesis by (simp add: reorder_def)
qed

lemma insert_relinks:
  assumes "forest_ok (db_channels b) F" "tget (db_channels b) i = None"
  shows "fst (channel_order_insert i a p (b, es)) = b\<lparr>db_channels := relinked (next_of 0 a (F p)) i (db_channels b)\<rparr>"
proof (rule channel_order_insert_relinks)
  have d: "distinct (tkeys (db_channels b))" using assms(1) by (simp add: forest_ok_def)
  show "forest_ok (tdel i (db_channels b)) F"
    using assms d by (intro forest_ok_cong [OF assms(1)]) (auto simp: fun_eq_iff)
  show "distinct (tkeys (db_channels b))" by (rule d)
qed (use assms in simp)

text \<open>No channel keeps the place a new one has taken, so that a second insertion changes nothing.\<close>

lemma insert_again:
  assumes "forest_ok t F" "db_channels b = relinked (next_of 0 a (F p)) i t" "i \<noteq> a"
  shows "channel_order_insert i a p (b, es) = (b, es)"
  unfolding channel_order_insert_def
proof (rule reorder_none)
  show "distinct (tkeys (db_channels b))" using assms(1,2) by (simp add: forest_ok_def)
  show "\<forall>j c. tget (db_channels b) j = Some c \<longrightarrow> \<not> (dch_order c = a \<and> dch_parent c = p \<and> dch_id c \<noteq> i)"
  proof (intro allI impI notI)
    fix j c
    assume c: "tget (db_channels b) j = Some c" and fits: "dch_order c = a \<and> dch_parent c = p \<and> dch_id c \<noteq> i"
    then obtain d where d: "tget t j = Some d" "c = (if next_of 0 a (F p) = Some j then d\<lparr>dch_order := i\<rparr> else d)"
      using assms(2) by (auto simp: relinked_get)
    then have "next_of 0 a (F p) \<noteq> Some j" using fits assms(3) by auto
    then show False using forest_next [OF assms(1) d(1)] d(2) fits by auto
  qed
qed

lemma channel_inserted:
  assumes "forest_ok (db_channels b) F" "tget (db_channels b) i = None" "i \<noteq> 0" "dch_id c = i"
    "dch_order c \<in> set (0 # F (dch_parent c))"
  shows "forest_ok (db_channels (fst (snd (add_channel i c (channel_order_insert i (dch_order c) (dch_parent c) (b, es))))))
    (F(dch_parent c := insert_after (dch_order c) i (F (dch_parent c))))"
proof -
  obtain b1 es1 where run: "channel_order_insert i (dch_order c) (dch_parent c) (b, es) = (b1, es1)"
    by (metis surj_pair)
  then have b1: "db_channels b1 = relinked (next_of 0 (dch_order c) (F (dch_parent c))) i (db_channels b)"
    using insert_relinks [OF assms(1,2), of "dch_order c" "dch_parent c" es] by simp
  have "i \<notin> set (F (dch_parent c))" using forest_member [OF assms(1)] assms(2) by auto
  then have "i \<noteq> dch_order c" using assms(3,5) by auto
  then have "channel_order_insert i (dch_order c) (dch_parent c) (b1, es1) = (b1, es1)"
    by (rule insert_again [OF assms(1) b1])
  then have "db_channels (fst (snd (add_channel i c (b1, es1)))) = tput i c (db_channels b1)"
    using assms(4) by (simp add: add_channel_def)
  then show ?thesis unfolding run b1 using forest_insert [OF assms] by simp
qed

lemma channel_removed:
  assumes "forest_ok (db_channels b) F" "tget (db_channels b) i = Some c"
  shows "forest_ok (db_channels (fst (snd (remove_channel i (b, es)))))
    (F(dch_parent c := remove1 i (F (dch_parent c))))"
proof -
  let ?b = "b\<lparr>db_channels := tdel i (db_channels b)\<rparr>"
  have "distinct (tkeys (db_channels ?b))" using assms(1) by (simp add: forest_ok_def)
  then have "fst (channel_order_remove i (dch_order c) (?b, es))
      = ?b\<lparr>db_channels := relinked (next_of 0 i (F (dch_parent c))) (dch_order c) (db_channels ?b)\<rparr>"
    by (intro channel_order_remove_relinks [OF assms]) simp_all
  moreover have "dch_id c = i" using assms unfolding forest_ok_def by blast
  ultimately have "db_channels (fst (snd (remove_channel i (b, es))))
      = relinked (next_of 0 i (F (dch_parent c))) (dch_order c) (tdel i (db_channels b))"
    using assms(2) by (simp add: remove_channel_def)
  then show ?thesis using forest_remove [OF assms] by simp
qed

text \<open>The list of each parent after a channel has gone, and after it has come to another place.\<close>

definition without :: "u64 \<Rightarrow> u64 \<Rightarrow> forest \<Rightarrow> forest" where
  "without i p F = F(p := remove1 i (F p))"

definition placed :: "u64 \<Rightarrow> u64 \<Rightarrow> u64 \<Rightarrow> forest \<Rightarrow> forest" where
  "placed i a p F = F(p := insert_after a i (F p))"

lemma without_absent: "forest_ok t F \<Longrightarrow> tget t i = Some c \<Longrightarrow> i \<notin> set (without i (dch_parent c) F p)"
  using forest_member [of t F i] by (auto simp: without_def forest_ok_def)

lemma channel_moved:
  assumes "forest_ok (db_channels b) F" "tget (db_channels b) i = Some c"
    "a \<in> set (0 # without i (dch_parent c) F p)"
    "channel_order_move_fun i (Some a) (Some p) (b, es) = (r, b', es')"
  shows "r = Inr () \<and> tget (db_channels b') i = Some (c\<lparr>dch_order := a\<rparr>)
    \<and> forest_ok (db_channels (set_channel i (c\<lparr>dch_order := a, dch_parent := p\<rparr>) b'))
    (placed i a p (without i (dch_parent c) F))"
proof -
  let ?t = "db_channels b" and ?c = "c\<lparr>dch_order := a\<rparr>" and ?F = "without i (dch_parent c) F"
  let ?s = "next_of 0 i (F (dch_parent c))" and ?z = "next_of 0 a (?F p)" and ?n = "c\<lparr>dch_order := a, dch_parent := p\<rparr>"
  let ?t1 = "tput i ?c ?t"
  let ?t2 = "relinked ?s (dch_order c) ?t1"
  have d: "distinct (tkeys ?t)" and id: "dch_id c = i" "i \<noteq> 0"
    using assms(1,2) unfolding forest_ok_def by blast+
  define b1 where "b1 = set_channel i ?c b"
  have b1: "db_channels b1 = ?t1" by (simp add: b1_def set_channel_def)
  define ev where "ev = es @ [changed (PidChannelOrder (dch_id c)) (PvChannelId (dch_order c))]"
  obtain b2 es2 where run: "channel_order_remove i (dch_order c) (b1, ev) = (b2, es2)" by (metis surj_pair)
  have "fst (channel_order_remove i (dch_order c) (b1, ev)) = b1\<lparr>db_channels := relinked ?s (dch_order c) (db_channels b1)\<rparr>"
    using d id by (intro channel_order_remove_relinks [OF assms(1,2)]) (simp_all add: b1)
  then have b2: "db_channels b2 = ?t2" using run b1 by simp
  have "forest_ok (relinked ?s (dch_order c) (tdel i ?t)) ?F"
    using forest_remove [OF assms(1,2)] by (simp add: without_def)
  moreover have "tget (tdel i ?t2) = tget (relinked ?s (dch_order c) (tdel i ?t))"
    by (auto simp: relinked_get fun_eq_iff)
  ultimately have gone: "forest_ok (tdel i ?t2) ?F"
    by (rule forest_ok_cong) (simp add: d)
  have "fst (channel_order_insert i a p (b2, es2)) = b2\<lparr>db_channels := relinked ?z i (db_channels b2)\<rparr>"
    using gone d id by (intro channel_order_insert_relinks) (auto simp: b2 relinked_get)
  moreover have moved: "(r, b', es') = (Inr (), channel_order_insert i a p (b2, es2))"
    using assms(2,4) run unfolding channel_order_move_fun_def b1_def ev_def by (simp add: get_channel_def)
  ultimately have b': "db_channels b' = relinked ?z i ?t2" using b2 by (simp add: prod_eq_iff)
  have "forest_ok (tput i ?n (relinked ?z i (tdel i ?t2))) (placed i a p ?F)"
    using forest_insert [OF gone, of i ?n] id assms(3) by (simp add: placed_def)
  moreover have "tget (tput i ?n (relinked ?z i ?t2)) = tget (tput i ?n (relinked ?z i (tdel i ?t2)))"
    by (auto simp: relinked_get fun_eq_iff)
  moreover have "r = Inr ()" using moved by simp
  moreover have "tget (db_channels b') i = Some ?c"
    using without_absent [OF assms(1,2), of p] next_of_member [of 0 a "?F p" i]
      next_of_self_member [OF assms(1,2)] b' by (auto simp: relinked_get)
  ultimately show ?thesis
    unfolding set_channel_def using b' d by (auto intro: forest_ok_cong)
qed

section \<open>Messages about channels\<close>

text \<open>
  What the messages \<open>channellist\<close>, \<open>notifychannelcreated\<close>, \<open>notifychanneldeleted\<close> and \<open>notifychannelmoved\<close>
  do to the order: the generated handler (\<open>codegen/MessagesToBook.tt\<close>) calls the functions of the rule
  first and then adds the channel, removes it, or sets its parent.
\<close>

datatype 'x channel_change = Listed "'x data_channel" | Created created_part "'x data_channel"
  | Deleted u64 | Moved u64 u64 u64

fun book_channel_change :: "'x channel_change \<Rightarrow> 'x data_book \<times> 'x event list \<Rightarrow> 'x data_book \<times> 'x event list" where
  "book_channel_change (Listed c) s = snd (add_channel (dch_id c) c s)"
| "book_channel_change (Created m c) s = (case channel_order_cc_fun m s of
      (Inl _, s) \<Rightarrow> s
    | (Inr order, s) \<Rightarrow> snd (add_channel (crp_channel_id m)
        (c\<lparr>dch_id := crp_channel_id m, dch_order := order, dch_parent := crp_parent_id m\<rparr>) s))"
| "book_channel_change (Deleted i) s = snd (remove_channel i s)"
| "book_channel_change (Moved i order parent) s = (case channel_order_cm_fun i order parent s of
      (Inl _, s) \<Rightarrow> s
    | (Inr _, s) \<Rightarrow> snd (on_channel i (\<lambda>c. (c\<lparr>dch_parent := parent\<rparr>, [])) s))"

text \<open>The same messages on the lists of the forest, and the messages that make sense there.\<close>

definition taken :: "u64 \<Rightarrow> forest \<Rightarrow> forest" where
  "taken i F = (\<lambda>q. remove1 i (F q))"

fun forest_message :: "'x channel_change \<Rightarrow> forest \<Rightarrow> forest" where
  "forest_message (Listed c) F = placed (dch_id c) (dch_order c) (dch_parent c) F"
| "forest_message (Created m c) F = placed (crp_channel_id m) (crp_order m) (crp_parent_id m) F"
| "forest_message (Deleted i) F = taken i F"
| "forest_message (Moved i order parent) F = placed i order parent (taken i F)"

definition free_at :: "u64 \<Rightarrow> u64 \<Rightarrow> u64 \<Rightarrow> forest \<Rightarrow> bool" where
  "free_at i order parent F \<longleftrightarrow> i \<noteq> 0 \<and> (\<forall>q. i \<notin> set (F q)) \<and> order \<in> set (0 # F parent)"

fun message_fits :: "'x channel_change \<Rightarrow> forest \<Rightarrow> bool" where
  "message_fits (Listed c) F = free_at (dch_id c) (dch_order c) (dch_parent c) F"
| "message_fits (Created m c) F = free_at (crp_channel_id m) (crp_order m) (crp_parent_id m) F"
| "message_fits (Deleted i) F = (\<exists>q. i \<in> set (F q))"
| "message_fits (Moved i order parent) F = ((\<exists>q. i \<in> set (F q)) \<and> order \<in> set (0 # remove1 i (F parent)))"

fun messages_fit :: "'x channel_change list \<Rightarrow> forest \<Rightarrow> bool" where
  "messages_fit [] F = True"
| "messages_fit (m # ms) F = (message_fits m F \<and> messages_fit ms (forest_message m F))"

lemma forest_absent: "forest_ok t F \<Longrightarrow> \<forall>q. i \<notin> set (F q) \<Longrightarrow> tget t i = None"
  using forest_member by (metis not_None_eq)

lemma taken_without: "forest_ok t F \<Longrightarrow> tget t i = Some c \<Longrightarrow> taken i F = without i (dch_parent c) F"
  by (auto simp: taken_def without_def fun_eq_iff forest_member intro!: remove1_idem)

lemma channel_listed:
  assumes "forest_ok (db_channels b) F" "free_at (dch_id c) (dch_order c) (dch_parent c) F"
  shows "forest_ok (db_channels (fst (snd (add_channel (dch_id c) c (b, es)))))
    (placed (dch_id c) (dch_order c) (dch_parent c) F)"
proof -
  have none: "tget (db_channels b) (dch_id c) = None"
    using forest_absent [OF assms(1)] assms(2) by (simp add: free_at_def)
  have "db_channels (fst (snd (add_channel (dch_id c) c (b, es))))
      = tput (dch_id c) c (db_channels (fst (channel_order_insert (dch_id c) (dch_order c) (dch_parent c) (b, es))))"
    by (simp add: add_channel_def split: prod.split)
  then show ?thesis
    using insert_relinks [OF assms(1) none] forest_insert [OF assms(1) none] assms(2) by (simp add: free_at_def placed_def)
qed

lemma channel_change_refines:
  assumes "forest_ok (db_channels (fst s)) F" "message_fits m F"
  shows "forest_ok (db_channels (fst (book_channel_change m s))) (forest_message m F)"
proof (cases s)
  case (Pair b es)
  have ok: "forest_ok (db_channels b) F" using assms(1) Pair by simp
  show ?thesis
  proof (cases m)
    case (Listed c)
    then show ?thesis using channel_listed [OF ok] assms(2) Pair by simp
  next
    case (Created p c)
    let ?c = "c\<lparr>dch_id := crp_channel_id p, dch_order := crp_order p, dch_parent := crp_parent_id p\<rparr>"
    have "tget (db_channels b) (crp_channel_id p) = None"
      using forest_absent [OF ok] assms(2) Created by (simp add: free_at_def)
    then show ?thesis
      using channel_inserted [OF ok, of "crp_channel_id p" ?c es] assms(2) Created Pair
      by (simp add: channel_order_cc_fun_def placed_def free_at_def)
  next
    case (Deleted i)
    then obtain c where c: "tget (db_channels b) i = Some c" using assms(2) forest_member [OF ok] by auto
    then show ?thesis
      using channel_removed [OF ok c, of es] taken_without [OF ok c] Deleted Pair by (simp add: without_def)
  next
    case (Moved i a p)
    then obtain c where c: "tget (db_channels b) i = Some c" using assms(2) forest_member [OF ok] by auto
    obtain r b' es' where run: "channel_order_move_fun i (Some a) (Some p) (b, es) = (r, b', es')" by (metis surj_pair)
    have "a \<in> set (0 # without i (dch_parent c) F p)"
      using assms(2) Moved by (simp add: taken_without [OF ok c, symmetric] taken_def)
    from channel_moved [OF ok c this run] show ?thesis
      using taken_without [OF ok c] run Moved Pair by (simp add: channel_order_cm_fun_def on_channel_def get_channel_def)
  qed
qed

lemma channel_changes_refine:
  "forest_ok (db_channels (fst s)) F \<Longrightarrow> messages_fit ms F
    \<Longrightarrow> forest_ok (db_channels (fst (fold book_channel_change ms s))) (fold forest_message ms F)"
  by (induction ms arbitrary: s F) (simp_all add: channel_change_refines)

section \<open>The property\<close>

text \<open>C19. Whatever channels are listed, created, deleted and moved, the orders kept in a book spell, below each
  parent, exactly the list that inserting and removing at the named places gives.
\<close>

theorem channels_keep_their_order:
  assumes "messages_fit ms (\<lambda>_. [])"
  shows "forest_ok (db_channels (fst (fold book_channel_change ms (data_connection_new own mode, []))))
    (fold forest_message ms (\<lambda>_. []))"
  using assms
  by (intro channel_changes_refine) (auto simp: forest_ok_def data_connection_new_def parent_in_def)

definition plain_channel :: "u64 \<Rightarrow> u64 \<Rightarrow> u64 \<Rightarrow> unit data_channel" where
  "plain_channel i order parent = \<lparr>dch_id = i, dch_parent = parent, dch_order = order, dch_subscribed = False,
     dch_max_clients = None, dch_max_family_clients = None, dch_channel_type = Permanent,
     dch_needed_talk_power = None, dch_is_unencrypted = None, dch_optional_data = None\<rparr>"

definition first_messages :: "unit channel_change list" where
  "first_messages = [Listed (plain_channel 1 0 0), Listed (plain_channel 2 1 0), Listed (plain_channel 3 0 0),
     Moved 1 2 0, Listed (plain_channel 4 0 2), Moved 3 4 2, Deleted 2]"

theorem channels_keep_their_order_witness:
  "forest_ok (db_channels (fst (fold book_channel_change first_messages (data_connection_new 7 PerChannel, []))))
    (fold forest_message first_messages (\<lambda>_. []))
   \<and> map (fold forest_message first_messages (\<lambda>_. [])) [0, 2] = [[1], [4, 3]]
   \<and> map (\<lambda>i. order_in (db_channels (fst (fold book_channel_change first_messages (data_connection_new 7 PerChannel, [])))) i)
       [1, 2, 3, 4] = [Some 0, None, Some 4, Some 0]"
proof (intro conjI)
  have fits: "messages_fit first_messages (\<lambda>_. [])"
    by (auto simp: first_messages_def plain_channel_def free_at_def placed_def taken_def insert_after_def)
  show "forest_ok (db_channels (fst (fold book_channel_change first_messages (data_connection_new 7 PerChannel, []))))
    (fold forest_message first_messages (\<lambda>_. []))"
    by (rule channels_keep_their_order [OF fits])
qed (simp_all add: first_messages_def plain_channel_def placed_def taken_def insert_after_def order_in_def
  data_connection_new_def add_channel_def channel_order_insert_def channel_order_cm_fun_def channel_order_move_fun_def
  channel_order_remove_def remove_channel_def reorder_def on_channel_def get_channel_def set_channel_def)

end
