(* ===== verification/Resend.thy ===== *)
theory Resend
  imports Crypto
begin

text \<open>
  Retransmission, \<open>tsproto/src/resend.rs\<close>: the queues of unacknowledged packets, acknowledgements,
  round trip times, the congestion window, and the loop that sends and resends.

  One call of an operation sees one time \<open>now\<close>: all its readings of the clock are the same instant.
  A timer set to a later instant is then not ready, so the loops that wait for a timer stop there.
  Counters wrap around, as in release builds; a difference of instants is never negative.
\<close>

section \<open>Constants\<close>

definition BETA :: f32 where "BETA = f32_of_rat 0.7"
definition C_CUBIC :: f32 where "C_CUBIC = f32_of_rat 0.5"
definition PING_COUNT :: nat where "PING_COUNT = 30"
definition PING_SECONDS :: nat where "PING_SECONDS = 1"
definition STAT_SECONDS :: nat where "STAT_SECONDS = 1"
definition UDP_HEADER_SIZE :: u32 where "UDP_HEADER_SIZE = 8"
definition IPV4_HEADER_SIZE :: u32 where "IPV4_HEADER_SIZE = 20"

fun packet_type_to_index :: "packet_type \<Rightarrow> queue_index option" where
  "packet_type_to_index Init = Some QInit"
| "packet_type_to_index Command = Some QCommand"
| "packet_type_to_index CommandLow = Some QCommandLow"
| "packet_type_to_index _ = None"

section \<open>The order of the send queue\<close>

text \<open>\<open>a.cmp(b) == Less\<close>.\<close>

definition sr_less :: "send_record_id \<Rightarrow> send_record_id \<Rightarrow> bool" where
  "sr_less a b \<longleftrightarrow>
     (if sr_tries a = 0 \<and> sr_tries b \<noteq> 0 then False
      else if sr_tries a \<noteq> 0 \<and> sr_tries b = 0 then True
      else sr_last b < sr_last a
        \<or> (sr_last a = sr_last b \<and> pk_part (sr_id b) < pk_part (sr_id a)))"

text \<open>A greatest element and the others.\<close>

fun heap_peek :: "send_record_id list \<Rightarrow> (send_record_id \<times> send_record_id list) option" where
  "heap_peek [] = None"
| "heap_peek (x # xs) = (case heap_peek xs of
      None \<Rightarrow> Some (x, [])
    | Some (y, ys) \<Rightarrow> if sr_less x y then Some (y, x # ys) else Some (x, xs))"

section \<open>Statistics\<close>

definition packet_stat_of :: "packet_type \<Rightarrow> bool \<Rightarrow> packet_stat" where
  "packet_stat_of t incoming =
     (if t = Voice \<or> t = VoiceWhisper then (if incoming then InSpeech else OutSpeech)
      else if t = Ping \<or> t = Pong then (if incoming then InKeepalive else OutKeepalive)
      else (if incoming then InControl else OutControl))"

definition bump :: "'k \<Rightarrow> 'a::len word \<Rightarrow> ('k \<Rightarrow> 'a word) \<Rightarrow> ('k \<Rightarrow> 'a word)" where
  "bump k n f = f(k := f k + n)"

text \<open>The first match is on acknowledgements, of which a \<open>Pong\<close> is one.\<close>

definition loss_counters :: "packet_type \<Rightarrow> (packet_loss_stat \<times> packet_loss_stat) option" where
  "loss_counters t =
     (if is_voice t then Some (VoiceInCount, VoiceInLost)
      else if is_ack t then Some (AckInCount, AckInLost)
      else if t = Pong then Some (PongInCount, PongInLost)
      else if t = Ping then Some (PingInCount, PingInLost)
      else None)"

definition handle_loss_incoming :: "packet_type \<Rightarrow> in_packet \<Rightarrow> bool \<Rightarrow> u16 \<Rightarrow> resender \<Rightarrow> resender" where
  "handle_loss_incoming t p in_recv_win cur_next r =
     (let id_diff = ucast (hdr_packet_id (ip_header p) - cur_next) :: u32;
          s = packet_stat_of t True;
          len = of_nat (length (ih_data (ip_header p)) + length (ip_content p))
            + UDP_HEADER_SIZE + IPV4_HEADER_SIZE :: u32;
          ct = rs_counter r;
          ct = ct\<lparr>ct_bytes := bump s len (ct_bytes ct)\<rparr>;
          st = rs_stats r;
          st = st\<lparr>st_total_packets := bump s 1 (st_total_packets st),
                  st_total_bytes := bump s (ucast len) (st_total_bytes st)\<rparr>;
          ct = (case loss_counters t of
              None \<Rightarrow> ct
            | Some (cnt, lost) \<Rightarrow>
                if in_recv_win
                then ct\<lparr>ct_packet_loss := bump lost id_diff (bump cnt (id_diff + 1) (ct_packet_loss ct))\<rparr>
                else ct\<lparr>ct_packet_loss := (ct_packet_loss ct)(lost :=
                  (if ct_packet_loss ct lost = 0 then 0 else ct_packet_loss ct lost - 1))\<rparr>)
      in r\<lparr>rs_counter := ct, rs_stats := st\<rparr>)"

definition counter_outgoing :: "packet_type \<Rightarrow> packet_stat \<Rightarrow> u32 \<Rightarrow> stats_counter \<Rightarrow> stats_counter" where
  "counter_outgoing t s len ct =
     (let ct = ct\<lparr>ct_bytes := bump s len (ct_bytes ct)\<rparr> in
      if is_ack t then ct\<lparr>ct_packet_loss := bump AckOutCount 1 (ct_packet_loss ct)\<rparr>
      else if t = Ping then ct\<lparr>ct_packet_loss := bump PingOutCount 1 (ct_packet_loss ct)\<rparr>
      else if is_command t then ct\<lparr>ct_packet_loss := bump CommandOutCount 1 (ct_packet_loss ct)\<rparr>
      else ct)"

definition stats_outgoing :: "packet_stat \<Rightarrow> u64 \<Rightarrow> connection_stats \<Rightarrow> connection_stats" where
  "stats_outgoing s len st = st\<lparr>st_total_packets := bump s 1 (st_total_packets st),
     st_total_bytes := bump s len (st_total_bytes st)\<rparr>"

definition handle_loss_outgoing :: "packet_type \<Rightarrow> out_udp_packet \<Rightarrow> resender \<Rightarrow> resender" where
  "handle_loss_outgoing t u r =
     (let s = packet_stat_of t False;
          len = of_nat (length (op_data (udp_data u))) + UDP_HEADER_SIZE + IPV4_HEADER_SIZE :: u32
      in r\<lparr>rs_counter := counter_outgoing t s len (rs_counter r),
           rs_stats := stats_outgoing s (ucast len) (rs_stats r)\<rparr>)"

definition handle_loss_resend_ack :: "resender \<Rightarrow> resender" where
  "handle_loss_resend_ack r = r\<lparr>rs_counter := (rs_counter r)\<lparr>ct_packet_loss :=
     bump AckOutLost 1 (ct_packet_loss (rs_counter r))\<rparr>\<rparr>"

definition handle_loss_resend_command :: "resender \<Rightarrow> resender" where
  "handle_loss_resend_command r = r\<lparr>rs_counter := (rs_counter r)\<lparr>ct_packet_loss :=
     bump AckInOrCommandOutLost 1 (ct_packet_loss (rs_counter r))\<rparr>\<rparr>"

definition get_last_second_bytes :: "connection_stats \<Rightarrow> packet_stat \<Rightarrow> u32" where
  "get_last_second_bytes st =
     st_last_second_bytes st ! ((unat (st_next_second_index st) + 60 - 1) mod 60)"

definition get_last_minute_bytes :: "connection_stats \<Rightarrow> packet_stat \<Rightarrow> u64" where
  "get_last_minute_bytes st s = sum_list (map (\<lambda>bs. ucast (bs s)) (st_last_second_bytes st))"

definition u32_f32 :: "u32 \<Rightarrow> f32" where
  "u32_f32 n = f32_of_rat (of_nat (unat n))"

definition loss_ratio :: "f32 \<Rightarrow> u32 \<Rightarrow> f32" where
  "loss_ratio lost cnt = (if cnt = 0 then Fin 0 else fdiv lost (u32_f32 cnt))"

definition get_packetloss_s2c_speech :: "connection_stats \<Rightarrow> f32" where
  "get_packetloss_s2c_speech st = (let l = st_packet_loss st in
     loss_ratio (u32_f32 (l VoiceInLost)) (l VoiceInCount))"

definition get_packetloss_s2c_keepalive :: "connection_stats \<Rightarrow> f32" where
  "get_packetloss_s2c_keepalive st = (let l = st_packet_loss st in
     loss_ratio (fadd (u32_f32 (l PingInLost)) (u32_f32 (l PongInLost))) (l PingInCount + l PongInCount))"

definition get_packetloss_s2c_control :: "connection_stats \<Rightarrow> f32" where
  "get_packetloss_s2c_control st = (let l = st_packet_loss st in
     loss_ratio (u32_f32 (l AckInLost)) (l AckInCount))"

definition get_packetloss_s2c_total :: "connection_stats \<Rightarrow> f32" where
  "get_packetloss_s2c_total st = (let l = st_packet_loss st in
     loss_ratio (fadd (fadd (fadd (u32_f32 (l VoiceInLost)) (u32_f32 (l PingInLost)))
         (u32_f32 (l PongInLost))) (u32_f32 (l AckInLost)))
       (l VoiceInCount + l PingInCount + l PongInCount + l AckInCount))"

definition get_packetloss :: "connection_stats \<Rightarrow> f32" where
  "get_packetloss st = (let l = st_packet_loss st;
     cnt = l VoiceInCount + l PingInCount + l PongInCount + l AckInCount + l AckOutCount + l CommandOutCount;
     command_out_lost = min (if l AckInOrCommandOutLost < l AckInLost then 0
         else l AckInOrCommandOutLost - l AckInLost) (l CommandOutCount)
   in loss_ratio (fadd (fadd (fadd (fadd (fadd (u32_f32 (l VoiceInLost)) (u32_f32 (l PingInLost)))
       (u32_f32 (l PongInLost))) (u32_f32 (l AckInLost))) (u32_f32 (l AckOutLost)))
       (u32_f32 command_out_lost)) cnt)"

section \<open>Round trip times and the window\<close>

definition absdiff :: "nat \<Rightarrow> nat \<Rightarrow> nat" where
  "absdiff a b = (if b < a then a - b else b - a)"

definition update_srtt :: "duration \<Rightarrow> resender \<Rightarrow> resender" where
  "update_srtt rtt r =
     (let c = rs_config r; st = rs_stats r in
      r\<lparr>rs_config := c\<lparr>srtt_dev := srtt_dev c * 3 div 4 + absdiff rtt (srtt c) div 4,
                       srtt := srtt c * 7 div 8 + rtt div 8\<rparr>,
        rs_stats := st\<lparr>st_rtt_dev := st_rtt_dev st * 3 div 4 + absdiff rtt (st_rtt st) div 4,
                       st_rtt := st_rtt st div 2 + rtt div 2\<rparr>\<rparr>)"

definition get_timeout :: "resender \<Rightarrow> duration" where
  "get_timeout r = (case rs_state r of
      Connecting \<Rightarrow> connecting_timeout (rs_config r)
    | Disconnecting \<Rightarrow> disconnect_timeout (rs_config r)
    | Disconnected \<Rightarrow> disconnect_timeout (rs_config r)
    | Connected \<Rightarrow> normal_timeout (rs_config r))"

definition set_state :: "instant \<Rightarrow> resender_state \<Rightarrow> resender \<Rightarrow> resender" where
  "set_state now s r = r\<lparr>rs_state := s, rs_last_send := now\<rparr>"

definition received_packet :: "instant \<Rightarrow> resender \<Rightarrow> resender" where
  "received_packet now r = r\<lparr>rs_last_receive := now\<rparr>"

text \<open>\<open>x as u16\<close>: towards zero, saturating, and zero for not-a-number.\<close>

fun f32_to_u16 :: "f32 \<Rightarrow> u16" where
  "f32_to_u16 (Fin x) = (if x \<le> 0 then 0 else if 65535 \<le> x then 65535 else of_nat (nat \<lfloor>x\<rfloor>))"
| "f32_to_u16 PInf = 65535"
| "f32_to_u16 NInf = 0"
| "f32_to_u16 NaN = 0"

definition MAX_WINDOW :: u16 where "MAX_WINDOW = 32767"

definition get_window :: "proto_lib \<Rightarrow> instant \<Rightarrow> resender \<Rightarrow> u16" where
  "get_window lib now r =
     (let time = (case rs_no_congestion_since r of None \<Rightarrow> now | Some t \<Rightarrow> t) - rs_last_loss r;
          w = f32_of_rat (of_nat (unat (rs_w_max r)));
          third = fdiv (Fin 1) (Fin 3);
          res = fadd (fmul C_CUBIC (powf lib
            (fsub (as_secs_f32 time) (powf lib (fdiv (fmul w BETA) C_CUBIC) third)) (Fin 3))) w
      in if flt (Fin 32767) res then MAX_WINDOW
         else if flt res (Fin 1) then 1
         else f32_to_u16 res)"

section \<open>Filling the send queue\<close>

text \<open>
  The queue whose next record is sent next: the variable is called \<open>min_time\<close>, but a record replaces
  the choice when it is later.
\<close>

definition pick_queue :: "(queue_index \<Rightarrow> send_record list) \<Rightarrow> queue_index option" where
  "pick_queue iters = map_option fst (fold (\<lambda>i best. (case iters i of
      [] \<Rightarrow> best
    | rec # _ \<Rightarrow> (case best of
        None \<Rightarrow> Some (i, rec_sent rec)
      | Some (j, t) \<Rightarrow> if t < rec_sent rec then Some (i, rec_sent rec) else best)))
     [QInit, QCommand, QCommandLow] None)"

text \<open>\<open>n\<close> rounds of the loop; \<open>False\<close> when the records ran out.\<close>

fun fill_loop :: "nat \<Rightarrow> (queue_index \<Rightarrow> send_record list) \<Rightarrow> resender \<Rightarrow> resender \<times> bool" where
  "fill_loop 0 iters r = (r, True)"
| "fill_loop (Suc n) iters r = (case pick_queue iters of
      None \<Rightarrow> (r, False)
    | Some i \<Rightarrow>
        let rid = rec_id (hd (iters i)) in
        fill_loop n (iters(i := tl (iters i)))
          (r\<lparr>rs_indices := (rs_indices r)(i := pid_add (pk_part (sr_id rid)) 1),
             rs_send_queue := rs_send_queue r @ [rid]\<rparr>))"

definition unsent :: "resender \<Rightarrow> queue_index \<Rightarrow> send_record list" where
  "unsent r i = dropWhile (\<lambda>rec. pk_part (sr_id (rec_id rec)) < rs_indices r i) (map snd (rs_full r i))"

definition fill_up_send_queue :: "proto_lib \<Rightarrow> instant \<Rightarrow> resender \<Rightarrow> resender" where
  "fill_up_send_queue lib now r =
     (let (r', full) = fill_loop (unat (get_window lib now r) - length (rs_send_queue r)) (unsent r) r in
      if full
      then (case rs_no_congestion_since r' of
          None \<Rightarrow> r'
        | Some until \<Rightarrow> r'\<lparr>rs_no_congestion_since := None,
            rs_last_loss := now - (until - rs_last_loss r')\<rparr>)
      else (case rs_no_congestion_since r' of
          None \<Rightarrow> r'\<lparr>rs_no_congestion_since := Some now\<rparr>
        | Some _ \<Rightarrow> r'))"

definition rebuild_send_queue :: "proto_lib \<Rightarrow> instant \<Rightarrow> resender \<Rightarrow> resender" where
  "rebuild_send_queue lib now r =
     fill_up_send_queue lib now (r\<lparr>rs_send_queue := [], rs_indices := (\<lambda>_. pid_zero)\<rparr>)"

text \<open>\<open>full_send_queue.len()\<close> is the length of the array: three.\<close>

definition is_full :: "proto_lib \<Rightarrow> instant \<Rightarrow> resender \<Rightarrow> bool" where
  "is_full lib now r \<longleftrightarrow> get_window lib now r \<le> 3"

definition is_empty :: "resender \<Rightarrow> bool" where
  "is_empty r \<longleftrightarrow> (\<forall>i\<in>{QInit, QCommand, QCommandLow}. rs_full r i = [])"

section \<open>Sending and acknowledging\<close>

abbreviation upd_resender :: "(resender \<Rightarrow> resender) \<Rightarrow> proto_con \<Rightarrow> proto_con" where
  "upd_resender f con \<equiv> con\<lparr>con_resender := f (con_resender con)\<rparr>"

definition push_item :: "stream_item \<Rightarrow> proto_con \<Rightarrow> proto_con" where
  "push_item it con = con\<lparr>stream_items := stream_items con @ [it]\<rparr>"

definition add_record :: "queue_index \<Rightarrow> send_record \<Rightarrow> resender \<Rightarrow> resender" where
  "add_record i rec r =
     (let part = pk_part (sr_id (rec_id rec)) in
      r\<lparr>rs_indices := (rs_indices r)(i := (if part < rs_indices r i then part else rs_indices r i)),
        rs_full := (rs_full r)(i := bt_insert part rec (rs_full r i))\<rparr>)"

definition resender_send_packet :: "proto_lib \<Rightarrow> instant \<Rightarrow> out_udp_packet \<Rightarrow> proto_con \<Rightarrow> proto_con option" where
  "resender_send_packet lib now u con = do {
     pid \<leftarrow> packet_id_of u;
     i \<leftarrow> packet_type_to_index (pk_type pid);
     let rec = \<lparr>rec_sent = now, rec_id = \<lparr>sr_last = now, sr_tries = 0, sr_id = pid\<rparr>, rec_packet = u\<rparr>;
     Some (upd_resender (\<lambda>r. fill_up_send_queue lib now (add_record i rec (r\<lparr>rs_last_send := now\<rparr>))) con)
   }"

text \<open>
  \<open>binary_search_by_key\<close> on the identifiers of the pings, which are in order within a generation.
\<close>

definition ack_ping :: "instant \<Rightarrow> u16 \<Rightarrow> resender \<Rightarrow> resender" where
  "ack_ping now i r = (case List.extract (\<lambda>p. pid_packet (ping_id p) = i) (rs_last_pings r) of
      None \<Rightarrow> r
    | Some (before, p, after) \<Rightarrow>
        update_srtt (now - ping_sent p) (r\<lparr>rs_last_pings := before @ after\<rparr>))"

text \<open>Up to which packet everything is acknowledged when the first of the queue is.\<close>

definition acked_until :: "packet_type \<Rightarrow> u16 \<Rightarrow> (partial_packet_id \<times> send_record) list \<Rightarrow> proto_con \<Rightarrow> partial_packet_id" where
  "acked_until t i rest con = (case rest of
      (_, rec2) # _ \<Rightarrow> pk_part (sr_id (rec_id rec2))
    | [] \<Rightarrow> if t = Init then PartialPacketId 0 (i + 1) else outgoing_p_ids (con_codec con) t)"

definition acked_id :: "u16 \<Rightarrow> partial_packet_id \<Rightarrow> partial_packet_id" where
  "acked_id i first =
     (if pid_packet first = i then first
      else PartialPacketId (if i < pid_packet first then pid_generation first + 1 else pid_generation first) i)"

definition remove_acked :: "instant \<Rightarrow> queue_index \<Rightarrow> partial_packet_id \<Rightarrow> resender \<Rightarrow> resender" where
  "remove_acked now qi pid r = (case bt_get (rs_full r qi) pid of
      None \<Rightarrow> r
    | Some rec \<Rightarrow>
        let r = r\<lparr>rs_full := (rs_full r)(qi := bt_remove pid (rs_full r qi))\<rparr> in
        if sr_tries (rec_id rec) = 1 then update_srtt (now - rec_sent rec) r else r)"

definition resender_ack_packet :: "instant \<Rightarrow> packet_type \<Rightarrow> u16 \<Rightarrow> proto_con \<Rightarrow> proto_con option" where
  "resender_ack_packet now t i con =
     (if t = Ping then Some (upd_resender (ack_ping now i) con)
      else case packet_type_to_index t of
        None \<Rightarrow> None
      | Some qi \<Rightarrow> (case rs_full (con_resender con) qi of
          [] \<Rightarrow> Some con
        | (first, _) # rest \<Rightarrow>
            let con = (if pid_packet first = i
              then push_item (AckPacket \<lparr>pk_type = t, pk_part = pid_sub (acked_until t i rest con) 1\<rparr>) con
              else con)
            in Some (upd_resender (remove_acked now qi (acked_id i first)) con)))"

section \<open>The resend loop\<close>

text \<open>\<open>static_poll_send_udp_packet\<close>.\<close>

definition sock_send :: "out_udp_packet \<Rightarrow> proto_con \<Rightarrow> send_answer \<times> proto_con" where
  "sock_send u con = (case sock_answers con of
      [] \<Rightarrow> (SendPending, con)
    | SendOk # as \<Rightarrow> (SendOk, con\<lparr>sock_answers := as, wire := wire con @ [u]\<rparr>)
    | a # as \<Rightarrow> (a, con\<lparr>sock_answers := as\<rparr>))"

definition rto :: "resender \<Rightarrow> duration" where
  "rto r = min (srtt (rs_config r) + srtt_dev (rs_config r) * 4) (from_secs 1)"

text \<open>What a loss changes: the round trip time doubles, the window shrinks, the queue is rebuilt.\<close>

definition packet_lost :: "proto_lib \<Rightarrow> instant \<Rightarrow> duration \<Rightarrow> resender \<Rightarrow> resender" where
  "packet_lost lib now timeout r =
     (let r = r\<lparr>rs_config := (rs_config r)\<lparr>srtt := min (srtt (rs_config r) * 2) timeout\<rparr>\<rparr>;
          r = r\<lparr>rs_w_max := get_window lib now r\<rparr>;
          r = r\<lparr>rs_last_loss := now, rs_no_congestion_since := None\<rparr>
      in rebuild_send_queue lib now r)"

text \<open>The bookkeeping after the packet of the greatest entry \<open>e\<close> was sent.\<close>

definition record_sent ::
    "proto_lib \<Rightarrow> instant \<Rightarrow> duration \<Rightarrow> queue_index \<Rightarrow> send_record_id \<Rightarrow> send_record_id list \<Rightarrow> send_record
      \<Rightarrow> resender \<Rightarrow> resender" where
  "record_sent lib now timeout qi e others rec r =
     (let r = (if sr_tries e \<noteq> 0 then handle_loss_resend_command r else r);
          e' = e\<lparr>sr_last := now, sr_tries := sr_tries e + 1\<rparr>;
          part = pk_part (sr_id e);
          r = r\<lparr>rs_send_queue := e' # others,
                rs_full := (rs_full r)(qi := map (\<lambda>(k, v). (k, if k = part then v\<lparr>rec_id := e'\<rparr> else v)) (rs_full r qi))\<rparr>;
          r = (case udp_packet_type (rec_packet rec) of
              None \<Rightarrow> r | Some t \<Rightarrow> handle_loss_outgoing t (rec_packet rec) r)
      in if sr_tries e' \<noteq> 1 then packet_lost lib now timeout r else r)"

datatype loop_result = Again proto_con | Stopped proto_con | Failed proto_con proto_error

definition resend_step :: "proto_lib \<Rightarrow> instant \<Rightarrow> proto_con \<Rightarrow> loop_result" where
  "resend_step lib now con =
     (let r = con_resender con; timeout = get_timeout r; last_threshold = now - rto r in
      case heap_peek (rs_send_queue r) of
        None \<Rightarrow> Stopped con
      | Some (e, others) \<Rightarrow> (case packet_type_to_index (pk_type (sr_id e)) of
          None \<Rightarrow> Failed con ProtoPanic
        | Some qi \<Rightarrow> (case bt_get (rs_full r qi) (pk_part (sr_id e)) of
            None \<Rightarrow> Again (upd_resender (\<lambda>r. fill_up_send_queue lib now (r\<lparr>rs_send_queue := others\<rparr>)) con)
          | Some rec \<Rightarrow>
              if sr_tries e \<noteq> 0 \<and> last_threshold < sr_last e then Stopped con
              else if timeout < now - rec_sent rec then Failed con (Timeout ''Packet was not acked'')
              else (case sock_send (rec_packet rec) con of
                  (SendPending, con) \<Rightarrow> Stopped con
                | (SendFailed, con) \<Rightarrow> Failed con Network
                | (SendOk, con) \<Rightarrow> Again (upd_resender (record_sent lib now timeout qi e others rec) con)))))"

text \<open>The loop with fuel: \<open>None\<close> means that it was not enough.\<close>

fun poll_resend :: "nat \<Rightarrow> proto_lib \<Rightarrow> instant \<Rightarrow> proto_con \<Rightarrow> (proto_con \<times> proto_error option) option" where
  "poll_resend 0 lib now con = None"
| "poll_resend (Suc n) lib now con = (case resend_step lib now con of
      Again con \<Rightarrow> poll_resend n lib now con
    | Stopped con \<Rightarrow> Some (con, None)
    | Failed con e \<Rightarrow> Some (con, Some e))"

end
