(* ===== verification/Codec.thy ===== *)
theory Codec
  imports Resend
begin

unbundle bit_operations_syntax

text \<open>
  \<open>tsproto/src/packet_codec.rs\<close> and the parts of \<open>tsproto/src/connection.rs\<close> it calls: numbering,
  encryption and splitting of outgoing packets, the receive window, the order and the reassembly of
  incoming commands, acknowledgements.

  \<^item> \<open>lib\<close> holds the functions of other crates (theory Crypto); \<open>now\<close> is the time of the call.
  \<^item> An operation that returns a \<open>Result\<close> returns the state it leaves and its error, if any.
\<close>

definition MAX_FRAGMENTS_LENGTH :: nat where "MAX_FRAGMENTS_LENGTH = 40960"
definition MAX_QUEUE_LEN :: u16 where "MAX_QUEUE_LEN = 200"

section \<open>The receive window\<close>

text \<open>Whether \<open>i\<close> lies in the window from \<open>cur\<close> up to \<open>limit\<close>, which may wrap around.\<close>

definition in_window :: "u16 \<Rightarrow> u16 \<Rightarrow> bool \<Rightarrow> u16 \<Rightarrow> bool" where
  "in_window cur limit next_gen i \<longleftrightarrow>
     (\<not> next_gen \<and> cur \<le> i \<and> i < limit) \<or> (next_gen \<and> (cur \<le> i \<or> i < limit))"

definition overflows :: "u16 \<Rightarrow> u16 \<Rightarrow> bool" where
  "overflows a b \<longleftrightarrow> 2 ^ 16 \<le> unat a + unat b"

definition in_receive_window :: "packet_codec \<Rightarrow> packet_type \<Rightarrow> u16 \<Rightarrow> bool \<times> u32 \<times> u16 \<times> u16" where
  "in_receive_window codec t i =
     (if t = Init then (True, 0, 0, 0)
      else let
        cur_next = pid_packet (incoming_p_ids codec t);
        limit = cur_next + 32767;
        next_gen = overflows cur_next 32767;
        gen = pid_generation (incoming_p_ids codec t);
        in_recv_win = in_window cur_next limit next_gen i;
        gen_id = (if in_recv_win
          then (if next_gen \<and> i < limit then gen + 1 else gen)
          else if i < cur_next then gen
          else gen - 1)
      in (in_recv_win, gen_id, cur_next, limit))"

section \<open>Incoming commands\<close>

text \<open>Fields of a raw packet that is known to have a full header.\<close>

definition raw_id :: "direction \<Rightarrow> u8 list \<Rightarrow> u16" where
  "raw_id d data = be_word (take 2 (drop 8 data))"

definition raw_flags :: "direction \<Rightarrow> u8 list \<Rightarrow> packet_flags" where
  "raw_flags d data = data ! (header_len d - 1) AND 0xf0"

definition raw_content :: "direction \<Rightarrow> u8 list \<Rightarrow> u8 list" where
  "raw_content d data = drop (header_len d) data"

definition decompress_packet :: "proto_lib \<Rightarrow> direction \<Rightarrow> u8 list \<Rightarrow> u8 list option" where
  "decompress_packet lib d data =
     (if has_flag (raw_flags d data) COMPRESSED
      then map_option (\<lambda>c. take (header_len d) data @ c)
        (decompress lib (raw_content d data) MAX_DECOMPRESSED_SIZE)
      else Some data)"

text \<open>
  One packet that is in order: the complete packet it finishes, if it does, and the fragments kept.
\<close>

definition defragment ::
    "proto_lib \<Rightarrow> direction \<Rightarrow> u8 list \<Rightarrow> u8 list option \<Rightarrow> (proto_error + u8 list option) \<times> u8 list option" where
  "defragment lib d data frag =
     (if has_flag (raw_flags d data) FRAGMENTED
      then (case frag of
          Some q \<Rightarrow> (case decompress_packet lib d (q @ raw_content d data) of
              None \<Rightarrow> (Inl DecompressPacket, None)
            | Some p \<Rightarrow> (Inr (Some p), None))
        | None \<Rightarrow> (Inr None, Some data))
      else (case frag of
          Some q \<Rightarrow>
            if length q < MAX_FRAGMENTS_LENGTH then (Inr None, Some (q @ raw_content d data))
            else (Inl (MaxLengthExceeded ''fragment queue''), Some q)
        | None \<Rightarrow> (case decompress_packet lib d data of
              None \<Rightarrow> (Inl DecompressPacket, None)
            | Some p \<Rightarrow> (Inr (Some p), None))))"

text \<open>What the loop works on: the next expected identifier, the queue and the fragments.\<close>

record cmd_state =
  cs_next :: partial_packet_id
  cs_queue :: "u8 list list"
  cs_frag :: "u8 list option"

lemma length_extract: "List.extract P xs = Some (ys, x, zs) \<Longrightarrow> length xs = Suc (length ys + length zs)"
  by (auto simp: extract_Some_iff)

text \<open>The loop: \<open>i\<close> is the identifier of the packet at hand, \<open>done\<close> the packets completed so far.\<close>

function command_loop ::
    "proto_lib \<Rightarrow> direction \<Rightarrow> u16 \<Rightarrow> u8 list \<Rightarrow> u8 list list \<Rightarrow> cmd_state
      \<Rightarrow> (proto_error + u8 list list) \<times> cmd_state" where
  "command_loop lib d i data ps s =
     (let s = s\<lparr>cs_next := pid_add (cs_next s) 1\<rparr>;
          (res, frag) = defragment lib d data (cs_frag s);
          s = s\<lparr>cs_frag := frag\<rparr>
      in case res of
        Inl e \<Rightarrow> (Inl e, s)
      | Inr p \<Rightarrow>
          let ps = (case p of None \<Rightarrow> ps | Some p \<Rightarrow> ps @ [p]) in
          (case List.extract (\<lambda>q. raw_id d q = i + 1) (cs_queue s) of
            None \<Rightarrow> (Inr ps, s)
          | Some (before, data, after) \<Rightarrow>
              command_loop lib d (i + 1) data ps (s\<lparr>cs_queue := before @ after\<rparr>)))"
  by auto
termination
  by (relation "measure (\<lambda>(lib, d, i, data, ps, s). length (cs_queue s))")
    (auto dest: length_extract split: prod.splits)

declare command_loop.simps [simp del]

definition handle_command :: "proto_lib \<Rightarrow> direction \<Rightarrow> u8 list \<Rightarrow> cmd_state
      \<Rightarrow> (proto_error + u8 list list) \<times> cmd_state" where
  "handle_command lib d data s =
     (let i = raw_id d data; cur_next = pid_packet (cs_next s) in
      if cur_next = i then command_loop lib d i data [] s
      else if in_window cur_next (cur_next + MAX_QUEUE_LEN) (overflows cur_next MAX_QUEUE_LEN) i
        then (Inr [], s\<lparr>cs_queue := cs_queue s @ [data]\<rparr>)
        else (Inl (MaxLengthExceeded ''command queue''), s))"

definition get_cmd_state :: "packet_type \<Rightarrow> packet_codec \<Rightarrow> cmd_state" where
  "get_cmd_state t c = \<lparr>cs_next = incoming_p_ids c t, cs_queue = receive_queue c t, cs_frag = fragmented_queue c t\<rparr>"

definition put_cmd_state :: "packet_type \<Rightarrow> cmd_state \<Rightarrow> packet_codec \<Rightarrow> packet_codec" where
  "put_cmd_state t s c = c\<lparr>incoming_p_ids := (incoming_p_ids c)(t := cs_next s),
     receive_queue := (receive_queue c)(t := cs_queue s),
     fragmented_queue := (fragmented_queue c)(t := cs_frag s)\<rparr>"

abbreviation upd_codec :: "(packet_codec \<Rightarrow> packet_codec) \<Rightarrow> proto_con \<Rightarrow> proto_con" where
  "upd_codec f con \<equiv> con\<lparr>con_codec := f (con_codec con)\<rparr>"

definition handle_command_packet ::
    "proto_lib \<Rightarrow> direction \<Rightarrow> packet_type \<Rightarrow> u8 list \<Rightarrow> proto_con \<Rightarrow> (proto_error + u8 list list) \<times> proto_con" where
  "handle_command_packet lib d t data con =
     (let (r, s) = handle_command lib d data (get_cmd_state t (con_codec con))
      in (r, upd_codec (put_cmd_state t s) con))"

section \<open>Outgoing packets\<close>

definition starts_with :: "string \<Rightarrow> u8 list \<Rightarrow> bool" where
  "starts_with s bs \<longleftrightarrow> take (length s) bs = ascii s"

definition next_out_id :: "packet_type \<Rightarrow> packet_codec \<Rightarrow> partial_packet_id" where
  "next_out_id t c = (if t = Init then pid_zero else outgoing_p_ids c t)"

definition fake_encrypted :: "bool \<Rightarrow> packet_type \<Rightarrow> partial_packet_id \<Rightarrow> u8 list \<Rightarrow> bool" where
  "fake_encrypted client t p_id content \<longleftrightarrow>
     (t = Command \<and> pid_generation p_id = 0
       \<and> ((\<not> client \<and> pid_packet p_id = 0)
          \<or> (client \<and> pid_packet p_id = 1 \<and> starts_with ''clientek'' content)))
     \<or> (client \<and> t = Ack \<and> pid_generation p_id = 0 \<and> pid_packet p_id = 0)"

text \<open>The encryption of one packet; it may update the key cache of the parameters.\<close>

definition encrypt_packet ::
    "proto_lib \<Rightarrow> bool \<Rightarrow> bool \<Rightarrow> u32 \<Rightarrow> out_packet \<Rightarrow> proto_con \<Rightarrow> (proto_error + out_packet) \<times> proto_con" where
  "encrypt_packet lib fake should gen p con =
     (if fake then (encrypt_fake lib p, con)
      else if should then (case con_params con of
          None \<Rightarrow> (Inl ProtoPanic, con)
        | Some params \<Rightarrow>
            (let (r, cache) = encrypt lib p gen (cp_shared_iv params) (cp_key_cache params)
             in (r, con\<lparr>con_params := Some (params\<lparr>cp_key_cache := cache\<rparr>)\<rparr>)))
      else (Inr p, con))"

text \<open>
  The packets of one call get consecutive identifiers. The generation of the datagram is taken after
  the identifier was incremented.
\<close>

fun encode_pieces ::
    "proto_lib \<Rightarrow> packet_type \<Rightarrow> bool \<Rightarrow> bool \<Rightarrow> out_packet list \<Rightarrow> proto_con
      \<Rightarrow> (proto_error + out_udp_packet list) \<times> proto_con" where
  "encode_pieces lib t fake should [] con = (Inr [], con)"
| "encode_pieces lib t fake should (p # ps) con =
     (let p_id = next_out_id t (con_codec con) in
      case (if t = Init then Some p else set_packet_id (pid_packet p_id) p) of
        None \<Rightarrow> (Inl ProtoPanic, con)
      | Some p \<Rightarrow> (case encrypt_packet lib fake should (pid_generation p_id) p con of
          (Inl e, con) \<Rightarrow> (Inl e, con)
        | (Inr p, con) \<Rightarrow>
            (let next = pid_add p_id 1;
                 con = (if t = Init then con
                   else upd_codec (\<lambda>c. c\<lparr>outgoing_p_ids := (outgoing_p_ids c)(t := next)\<rparr>) con)
             in (case encode_pieces lib t fake should ps con of
                  (Inl e, con) \<Rightarrow> (Inl e, con)
                | (Inr us, con) \<Rightarrow> (Inr (\<lparr>generation_id = pid_generation next, udp_data = p\<rparr> # us), con)))))"

definition set_voice_id :: "u16 \<Rightarrow> out_packet \<Rightarrow> out_packet option" where
  "set_voice_id i p =
     (if length (out_content p) < 2 then None else write_at (header_len (op_dir p)) (be_bytes 2 i) p)"

text \<open>The header fields set before the packet is split.\<close>

definition prepare_header :: "bool \<Rightarrow> packet_type \<Rightarrow> u16 \<Rightarrow> bool \<Rightarrow> u8 list option \<Rightarrow> out_packet \<Rightarrow> out_packet option" where
  "prepare_header client t cid plain mac p = do {
     p \<leftarrow> (if client then set_client_id cid p else Some p);
     if plain then do {
       p \<leftarrow> add_flag UNENCRYPTED p;
       (case mac of None \<Rightarrow> Some p | Some m \<Rightarrow> set_mac m p)
     } else Some p
   }"

definition encode_packet :: "proto_lib \<Rightarrow> out_packet \<Rightarrow> proto_con \<Rightarrow> (proto_error + out_udp_packet list) \<times> proto_con" where
  "encode_packet lib p con = (case Option.bind (out_header p) hdr_packet_type of
      None \<Rightarrow> (Inl ProtoPanic, con)
    | Some t \<Rightarrow>
        let client = is_client con;
            fake = fake_encrypted client t (next_out_id t (con_codec con)) (out_content p);
            (should, fake, cid, mac) = (case con_params con of
                Some params \<Rightarrow> (should_encrypt t (cp_voice_encryption params), fake,
                  cp_c_id params, Some (cp_shared_mac params))
              | None \<Rightarrow> (should_encrypt t False, fake \<or> should_encrypt t False, 0, None))
        in case do {
            p \<leftarrow> (if is_command t \<and> client then add_flag NEWPROTOCOL p else Some p);
            p \<leftarrow> prepare_header client t cid (\<not> should \<and> \<not> fake) mac p;
            (if is_command t then compress_and_split lib client p
             else if client \<and> is_voice t
               then map_option (\<lambda>q. [q]) (set_voice_id (pid_packet (outgoing_p_ids (con_codec con) t)) p)
             else Some [p])
          } of
            None \<Rightarrow> (Inl ProtoPanic, con)
          | Some ps \<Rightarrow> encode_pieces lib t fake should ps con)"

definition send_udp_packet :: "proto_lib \<Rightarrow> instant \<Rightarrow> out_udp_packet \<Rightarrow> proto_con \<Rightarrow> proto_con option" where
  "send_udp_packet lib now u con = (case udp_packet_type u of
      None \<Rightarrow> None
    | Some t \<Rightarrow> if t \<in> {Init, Command, CommandLow} then resender_send_packet lib now u con
        else Some (con\<lparr>acks_to_send := acks_to_send con @ [u]\<rparr>))"

fun send_udp_packets :: "proto_lib \<Rightarrow> instant \<Rightarrow> out_udp_packet list \<Rightarrow> proto_con \<Rightarrow> proto_con option" where
  "send_udp_packets lib now [] con = Some con"
| "send_udp_packets lib now (u # us) con =
     Option.bind (send_udp_packet lib now u con) (send_udp_packets lib now us)"

definition send_packet :: "proto_lib \<Rightarrow> instant \<Rightarrow> out_packet \<Rightarrow> proto_con \<Rightarrow> (proto_error + packet_id) \<times> proto_con" where
  "send_packet lib now p con = (case encode_packet lib p con of
      (Inl e, con) \<Rightarrow> (Inl e, con)
    | (Inr us, con) \<Rightarrow> (case (if us = [] then None else packet_id_of (last us)) of
        None \<Rightarrow> (Inl ProtoPanic, con)
      | Some pid \<Rightarrow> (case send_udp_packets lib now us con of
          None \<Rightarrow> (Inl ProtoPanic, con)
        | Some con \<Rightarrow> (Inr pid, con))))"

definition handle_loss_outgoing_udp :: "out_udp_packet \<Rightarrow> proto_con \<Rightarrow> proto_con" where
  "handle_loss_outgoing_udp u con = (case udp_packet_type u of
      None \<Rightarrow> con | Some t \<Rightarrow> upd_resender (handle_loss_outgoing t u) con)"

definition send_ack_packet :: "proto_lib \<Rightarrow> out_packet \<Rightarrow> proto_con \<Rightarrow> proto_con \<times> proto_error option" where
  "send_ack_packet lib p con = (case encode_packet lib p con of
      (Inl e, con) \<Rightarrow> (con, Some e)
    | (Inr [u], con) \<Rightarrow> (case sock_send u con of
        (SendOk, con) \<Rightarrow> (handle_loss_outgoing_udp u con, None)
      | (SendFailed, con) \<Rightarrow> (con, Some Network)
      | (SendPending, con) \<Rightarrow> (con\<lparr>acks_to_send := acks_to_send con @ [u]\<rparr>, None))
    | (Inr _, con) \<Rightarrow> (con, Some ProtoPanic))"

section \<open>Incoming datagrams\<close>

definition con_dir :: "proto_con \<Rightarrow> direction" where
  "con_dir con = (if is_client con then S2C else C2S)"

text \<open>Refused before anything else: \<open>Init\<close> packets on a connection, and foreign client identifiers.\<close>

definition refused :: "proto_con \<Rightarrow> packet_type \<Rightarrow> u32 \<Rightarrow> u16 \<Rightarrow> u16 option \<Rightarrow> proto_error option" where
  "refused con t gen_id i cid = (case con_params con of
      None \<Rightarrow> None
    | Some params \<Rightarrow>
        if t = Init then Some UnexpectedInitPacket
        else if is_client con then None
        else (case cid of
            None \<Rightarrow> Some ProtoPanic
          | Some c \<Rightarrow>
              if c \<noteq> cp_c_id params \<and> \<not> (gen_id = 0 \<and> i \<le> 3 \<and> t = Ack)
              then Some (WrongClientId c) else None))"

definition decrypt_with_params ::
    "proto_lib \<Rightarrow> in_packet \<Rightarrow> packet_type \<Rightarrow> u32 \<Rightarrow> proto_error \<Rightarrow> proto_con \<Rightarrow> (proto_error + u8 list) \<times> proto_con" where
  "decrypt_with_params lib p t gen_id e con = (case con_params con of
      None \<Rightarrow> (Inl e, con)
    | Some params \<Rightarrow>
        (let (r, cache) = decrypt lib p t gen_id (cp_shared_iv params) (cp_key_cache params)
         in (r, con\<lparr>con_params := Some (params\<lparr>cp_key_cache := cache\<rparr>)\<rparr>)))"

definition decrypt_packet ::
    "proto_lib \<Rightarrow> in_packet \<Rightarrow> packet_type \<Rightarrow> u32 \<Rightarrow> u16 \<Rightarrow> proto_con \<Rightarrow> (proto_error + u8 list) \<times> proto_con" where
  "decrypt_packet lib p t gen_id i con =
     (if (t = Ack \<and> i \<le> 1 \<and> is_client con) \<or> con_params con = None
      then (case decrypt_fake lib p t of
          Inr c \<Rightarrow> (Inr c, con)
        | Inl _ \<Rightarrow> decrypt_with_params lib p t gen_id (WrongMac t gen_id i) con)
      else decrypt_with_params lib p t gen_id (WrongMac t gen_id i) con)"

text \<open>Some commands stand for an acknowledgement.\<close>

definition implied_ack :: "bool \<Rightarrow> u8 list \<Rightarrow> (packet_type \<times> u16) option" where
  "implied_ack client content =
     (if client \<and> starts_with ''initivexpand2 '' content then Some (Init, 4)
      else if client \<and> starts_with ''initserver '' content then Some (Command, 2)
      else if \<not> client \<and> starts_with ''clientek '' content then Some (Command, 0)
      else None)"

fun deliver_commands :: "instant \<Rightarrow> u8 list list \<Rightarrow> proto_con \<Rightarrow> proto_con option" where
  "deliver_commands now [] con = Some con"
| "deliver_commands now (c # cs) con = (case in_packet_new (con_dir con) c of
      None \<Rightarrow> None
    | Some p \<Rightarrow>
        Option.bind (case implied_ack (is_client con) (ip_content p) of
            None \<Rightarrow> Some con
          | Some (t, i) \<Rightarrow> resender_ack_packet now t i con)
        (\<lambda>con. deliver_commands now cs (push_item (StreamCommand p) con)))"

definition acked_type :: "packet_type \<Rightarrow> packet_type" where
  "acked_type t = (if t = Ack then Command else if t = AckLow then CommandLow
     else if t = Pong then Ping else t)"

definition next_in_id :: "packet_type \<Rightarrow> u16 \<Rightarrow> u32 \<Rightarrow> packet_codec \<Rightarrow> packet_codec" where
  "next_in_id t i gen_id c =
     (if t = Init then c
      else c\<lparr>incoming_p_ids := (incoming_p_ids c)(t :=
        PartialPacketId (if overflows i 1 then gen_id + 1 else gen_id) (i + 1))\<rparr>)"

text \<open>The item a packet that is no command becomes, if it becomes one.\<close>

definition other_item :: "bool \<Rightarrow> packet_type \<Rightarrow> in_packet \<Rightarrow> stream_item option" where
  "other_item client t p =
     (if is_voice t then Some (case into_audio p of
          Inl e \<Rightarrow> StreamError (PacketParse ''audio'' e) | Inr a \<Rightarrow> StreamAudio p a)
      else if t = Init then Some (if client
          then (case into_s2cinit p of
            Inl e \<Rightarrow> StreamError (PacketParse ''s2cinit'' e) | Inr m \<Rightarrow> StreamS2CInit p m)
          else (case into_c2sinit p of
            Inl e \<Rightarrow> StreamError (PacketParse ''c2sinit'' e) | Inr m \<Rightarrow> StreamC2SInit p m))
      else None)"

definition handle_other ::
    "instant \<Rightarrow> packet_type \<Rightarrow> u16 \<Rightarrow> u32 \<Rightarrow> in_packet \<Rightarrow> proto_con \<Rightarrow> (bool \<times> proto_con) option" where
  "handle_other now t i gen_id p con =
     (let con = upd_codec (next_in_id t i gen_id) con in
      case ack_packet p of
        Inl e \<Rightarrow> Some (False, push_item (StreamError (CreateAck e)) con)
      | Inr ack \<Rightarrow>
          map_option (\<lambda>con. (True, case other_item (is_client con) t p of
              None \<Rightarrow> con | Some it \<Rightarrow> push_item it con))
            (case ack of None \<Rightarrow> Some con | Some a \<Rightarrow> resender_ack_packet now (acked_type t) a con))"

definition ignores_window :: "packet_type \<Rightarrow> bool" where
  "ignores_window t \<longleftrightarrow> t \<in> {Ack, AckLow, Voice, VoiceWhisper}"

definition ack_answer :: "proto_lib \<Rightarrow> packet_type \<Rightarrow> u16 \<Rightarrow> proto_con \<Rightarrow> proto_con \<times> proto_error option" where
  "ack_answer lib t i con = (case out_ack (direction_reverse (con_dir con)) t i of
      None \<Rightarrow> (con, Some ProtoPanic)
    | Some p \<Rightarrow> send_ack_packet lib p con)"

text \<open>A packet whose content is decrypted: \<open>data\<close> are its bytes.\<close>

definition handle_plain_packet ::
    "proto_lib \<Rightarrow> instant \<Rightarrow> packet_type \<Rightarrow> u16 \<Rightarrow> u32 \<Rightarrow> u8 list \<Rightarrow> proto_con \<Rightarrow> proto_con \<times> proto_error option" where
  "handle_plain_packet lib now t i gen_id data con =
     (if is_command t then
        (case handle_command_packet lib (con_dir con) t data con of
          (Inl e, con) \<Rightarrow> (con, Some e)
        | (Inr cs, con) \<Rightarrow> (case deliver_commands now cs con of
            None \<Rightarrow> (con, Some ProtoPanic)
          | Some con \<Rightarrow> ack_answer lib t i con))
      else (case in_packet_new (con_dir con) data of
          None \<Rightarrow> (con, Some ProtoPanic)
        | Some p \<Rightarrow> (case handle_other now t i gen_id p con of
            None \<Rightarrow> (con, Some ProtoPanic)
          | Some (go_on, con) \<Rightarrow> if go_on \<and> t = Ping then ack_answer lib t i con else (con, None))))"

definition codec_handle_udp_packet :: "proto_lib \<Rightarrow> instant \<Rightarrow> u8 list \<Rightarrow> proto_con \<Rightarrow> proto_con \<times> proto_error option" where
  "codec_handle_udp_packet lib now data con = (case in_packet_new (con_dir con) data of
      None \<Rightarrow> (con, Some ProtoPanic)
    | Some p \<Rightarrow> (case hdr_packet_type (ip_header p) of
        None \<Rightarrow> (con, Some ProtoPanic)
      | Some t \<Rightarrow>
          let i = hdr_packet_id (ip_header p);
              (in_recv_win, gen_id, cur_next, limit) = in_receive_window (con_codec con) t i;
              con = upd_resender (handle_loss_incoming t p in_recv_win cur_next) con
          in case refused con t gen_id i (hdr_client_id (ip_header p)) of
            Some ProtoPanic \<Rightarrow> (con, Some ProtoPanic)
          | Some e \<Rightarrow> (push_item (StreamError e) con, None)
          | None \<Rightarrow>
              if ignores_window t \<or> in_recv_win then
                if \<not> has_flag (hdr_flags (ip_header p)) UNENCRYPTED then
                  if t = Ack \<and> i = 1 \<and> is_client con then (con, None)
                  else (case decrypt_packet lib p t gen_id i con of
                      (Inl e, con) \<Rightarrow> (push_item (StreamError e) con, None)
                    | (Inr c, con) \<Rightarrow>
                        if length c \<noteq> length (ip_content p) then (con, Some ProtoPanic)
                        else handle_plain_packet lib now t i gen_id (ih_data (ip_header p) @ c) con)
                else if must_encrypt t
                  then (push_item (StreamError UnallowedUnencryptedPacket) con, None)
                  else handle_plain_packet lib now t i gen_id data con
              else
                let con = (if is_command t then upd_resender handle_loss_resend_ack con else con);
                    con = push_item (StreamError (NotInReceiveWindow i cur_next limit t)) con
                in if is_command t then ack_answer lib t i con else (con, None)))"

end
