(* ===== verification/ProtoConnection.thy ===== *)
theory ProtoConnection
  imports Codec
begin

text \<open>
  The stream of \<open>tsproto/src/connection.rs\<close> and \<open>poll_ping\<close> of \<open>resend.rs\<close>: one poll sends the queued
  acknowledgements, resends, pings, and then returns a stored item or reads from the socket.
  The answers of the socket to \<open>poll_recv_from\<close> are an input: datagrams with the right or a foreign
  address, or a failure; when there is none left it is pending.
\<close>

definition MAX_UDP_PACKET_LENGTH :: nat where "MAX_UDP_PACKET_LENGTH = 1500"

datatype recv_answer = Datagram bool "u8 list" | RecvFailed

datatype poll_result = ReadyItem stream_item | ReadyError proto_error | ReadyNone | NotReady

section \<open>Acknowledgements\<close>

text \<open>\<open>poll_send_acks\<close>: the queue is emptied from the front until the socket is not ready.\<close>

fun poll_send_acks_loop :: "out_udp_packet list \<Rightarrow> proto_con \<Rightarrow> proto_con \<times> proto_error option" where
  "poll_send_acks_loop [] con = (con\<lparr>acks_to_send := []\<rparr>, None)"
| "poll_send_acks_loop (u # us) con = (case sock_send u con of
      (SendOk, con) \<Rightarrow> poll_send_acks_loop us (handle_loss_outgoing_udp u con)
    | (SendFailed, con) \<Rightarrow> (con\<lparr>acks_to_send := u # us\<rparr>, Some Network)
    | (SendPending, con) \<Rightarrow> (con\<lparr>acks_to_send := u # us\<rparr>, None))"

definition poll_send_acks :: "proto_con \<Rightarrow> proto_con \<times> proto_error option" where
  "poll_send_acks con = poll_send_acks_loop (acks_to_send con) con"

section \<open>Pings and statistics\<close>

text \<open>One second is over: the counters become the statistics of that second.\<close>

definition take_stats :: "instant \<Rightarrow> resender \<Rightarrow> resender" where
  "take_stats now r =
     (let st = rs_stats r; ct = rs_counter r; i = st_next_second_index st in
      r\<lparr>rs_last_stat := now,
        rs_stats := st\<lparr>st_last_second_bytes := (st_last_second_bytes st)[unat i := ct_bytes ct],
          st_next_second_index := (i + 1) mod 60,
          st_packet_loss := ct_packet_loss ct\<rparr>,
        rs_counter := stats_counter_default\<rparr>)"

text \<open>After one round \<open>last_stat\<close> is \<open>now\<close>, so the timer of the next round is not ready.\<close>

definition poll_stats :: "instant \<Rightarrow> proto_con \<Rightarrow> proto_con" where
  "poll_stats now con =
     (if rs_last_stat (con_resender con) + from_secs STAT_SECONDS \<le> now
      then push_item NetworkStatsUpdated (upd_resender (take_stats now) con) else con)"

text \<open>Pings are forgotten when something was received after the last of them.\<close>

definition forget_pings :: "resender \<Rightarrow> resender" where
  "forget_pings r =
     (if rs_last_pings r \<noteq> [] \<and> \<not> rs_last_receive r < ping_sent (last (rs_last_pings r))
      then r\<lparr>rs_last_pings := []\<rparr> else r)"

definition next_ping :: "resender \<Rightarrow> instant" where
  "next_ping r =
     (if rs_last_pings r \<noteq> [] \<and> rs_last_receive r < ping_sent (last (rs_last_pings r))
      then ping_sent (last (rs_last_pings r)) + from_secs PING_SECONDS
      else rs_last_receive r + from_secs PING_SECONDS)"

text \<open>\<open>diff as usize\<close> of a negative difference is huge, so it equals no length.\<close>

definition pings_unanswered :: "resender \<Rightarrow> bool" where
  "pings_unanswered r \<longleftrightarrow> PING_COUNT \<le> length (rs_last_pings r)
     \<and> pid_diff (ping_id (last (rs_last_pings r))) (ping_id (hd (rs_last_pings r)))
       = int (length (rs_last_pings r)) - 1"

definition remember_ping :: "instant \<Rightarrow> partial_packet_id \<Rightarrow> resender \<Rightarrow> resender" where
  "remember_ping now pid r =
     (let ps = rs_last_pings r @ [\<lparr>ping_id = pid, ping_sent = now\<rparr>] in
      r\<lparr>rs_last_pings := (if PING_COUNT < length ps then tl ps else ps)\<rparr>)"

text \<open>
  The loop sends one ping at most: then the next one is due a second after \<open>now\<close>.
\<close>

definition poll_pings :: "proto_lib \<Rightarrow> instant \<Rightarrow> proto_con \<Rightarrow> proto_con \<times> proto_error option" where
  "poll_pings lib now con =
     (let due = next_ping (con_resender con) \<le> now;
          con = upd_resender forget_pings con
      in if \<not> due then (con, None)
         else if pings_unanswered (con_resender con)
         then (con, Some (Timeout ''Server did not respond to pings''))
         else (case new_with_dir (if is_client con then C2S else S2C) 0 Ping of
             None \<Rightarrow> (con, Some ProtoPanic)
           | Some p \<Rightarrow> (case send_packet lib now p con of
               (Inl e, con) \<Rightarrow> (con, Some e)
             | (Inr pid, con) \<Rightarrow> (upd_resender (remember_ping now (pk_part pid)) con, None))))"

definition poll_ping :: "proto_lib \<Rightarrow> instant \<Rightarrow> proto_con \<Rightarrow> proto_con \<times> proto_error option" where
  "poll_ping lib now con =
     (if rs_state (con_resender con) = Disconnecting
         \<and> rs_last_send (con_resender con) + get_timeout (con_resender con) \<le> now
      then (con, Some (Timeout ''No disconnect ack received''))
      else let con = poll_stats now con in
        if rs_state (con_resender con) = Connected \<and> is_empty (con_resender con)
        then poll_pings lib now con
        else (con, None))"

section \<open>Datagrams\<close>

definition con_handle_udp_packet :: "proto_lib \<Rightarrow> instant \<Rightarrow> bool \<Rightarrow> u8 list \<Rightarrow> proto_con \<Rightarrow> proto_con \<times> proto_error option" where
  "con_handle_udp_packet lib now known data con =
     (if \<not> known then (push_item (StreamError WrongAddress) con, None)
      else case in_packet_try_new (con_dir con) data of
        Inl e \<Rightarrow> (push_item (StreamError (PacketParse ''udp'' e)) con, None)
      | Inr p \<Rightarrow> codec_handle_udp_packet lib now data (upd_resender (received_packet now) con))"

fun poll_incoming_loop ::
    "proto_lib \<Rightarrow> instant \<Rightarrow> recv_answer list \<Rightarrow> proto_con \<Rightarrow> poll_result \<times> proto_con \<times> recv_answer list" where
  "poll_incoming_loop lib now [] con = (NotReady, con, [])"
| "poll_incoming_loop lib now (RecvFailed # rs) con = (ReadyError Network, con, rs)"
| "poll_incoming_loop lib now (Datagram known data # rs) con =
     (case con_handle_udp_packet lib now known (take MAX_UDP_PACKET_LENGTH data) con of
        (con, Some e) \<Rightarrow> (ReadyError e, con, rs)
      | (con, None) \<Rightarrow> (case stream_items con of
          it # its \<Rightarrow> (ReadyItem it, con\<lparr>stream_items := its\<rparr>, rs)
        | [] \<Rightarrow> poll_incoming_loop lib now rs con))"

definition poll_incoming_udp_packet ::
    "proto_lib \<Rightarrow> instant \<Rightarrow> recv_answer list \<Rightarrow> proto_con \<Rightarrow> poll_result \<times> proto_con \<times> recv_answer list" where
  "poll_incoming_udp_packet lib now rs con =
     (if UDP_SINK_CAPACITY \<le> length (acks_to_send con) then (NotReady, con, rs)
      else poll_incoming_loop lib now rs con)"

section \<open>The stream\<close>

text \<open>\<open>fuel\<close> bounds the resend loop.\<close>

definition poll_next ::
    "nat \<Rightarrow> proto_lib \<Rightarrow> instant \<Rightarrow> recv_answer list \<Rightarrow> proto_con
      \<Rightarrow> (poll_result \<times> proto_con \<times> recv_answer list) option" where
  "poll_next fuel lib now rs con = (case poll_send_acks con of
      (con, Some e) \<Rightarrow> Some (ReadyError e, con, rs)
    | (con, None) \<Rightarrow>
        if rs_state (con_resender con) = Disconnected \<and> acks_to_send con = []
        then Some (ReadyNone, con, rs)
        else (case poll_resend fuel lib now con of
            None \<Rightarrow> None
          | Some (con, Some e) \<Rightarrow> Some (ReadyError e, con, rs)
          | Some (con, None) \<Rightarrow> (case poll_ping lib now con of
              (con, Some e) \<Rightarrow> Some (ReadyError e, con, rs)
            | (con, None) \<Rightarrow> (case stream_items con of
                it # its \<Rightarrow> Some (ReadyItem it, con\<lparr>stream_items := its\<rparr>, rs)
              | [] \<Rightarrow> Some (poll_incoming_udp_packet lib now rs con)))))"

end
