(* ===== verification/CommandSyntax.thy ===== *)
theory CommandSyntax
  imports Packets
begin

text \<open>
  The text of commands: the parser of \<open>utils/tsproto-packets/src/commands.rs\<close> and the writer
  \<open>OutCommand\<close> of \<open>packets.rs\<close>. The parser holds the data and an index; the model holds the rest
  \<open>data[index..]\<close>, and a slice of the source is the list of the bytes passed over. The iterator ends
  because every item takes at least one byte. What was written is parsed back item by item.
\<close>

section \<open>Bytes of the syntax\<close>

abbreviation (input) BACKSLASH :: u8 where "BACKSLASH \<equiv> 0x5c"
abbreviation (input) PIPE :: u8 where "PIPE \<equiv> 0x7c"
abbreviation (input) SPACE :: u8 where "SPACE \<equiv> 0x20"
abbreviation (input) EQUALS :: u8 where "EQUALS \<equiv> 0x3d"

text \<open>\<open>\x0b\x0c\t\r\n\<close> and the space.\<close>

definition is_space :: "u8 \<Rightarrow> bool" where
  "is_space c \<longleftrightarrow> c \<in> {0x0b, 0x0c, 0x09, 0x0d, 0x0a, SPACE}"

definition ends_name :: "u8 \<Rightarrow> bool" where
  "ends_name c \<longleftrightarrow> c \<in> {SPACE, EQUALS, PIPE}"

definition ends_value :: "u8 \<Rightarrow> bool" where
  "ends_value c \<longleftrightarrow> c \<in> {0x0b, 0x0c, 0x09, 0x0d, 0x0a, PIPE, SPACE}"

definition byte_alphanumeric :: "u8 \<Rightarrow> bool" where
  "byte_alphanumeric c \<longleftrightarrow> (0x30 \<le> c \<and> c \<le> 0x39) \<or> (0x41 \<le> c \<and> c \<le> 0x5a) \<or> (0x61 \<le> c \<and> c \<le> 0x7a)"

section \<open>The parser\<close>

record arg_value =
  raw :: "u8 list"
  escapes :: nat

datatype command_item =
    Argument "u8 list" arg_value
  | NextCommand

text \<open>The loop of \<open>CommandParser::new\<close>: \<open>i\<close> is \<open>name_end\<close>.\<close>

fun name_end :: "u8 list \<Rightarrow> nat \<Rightarrow> nat" where
  "name_end [] i = i"
| "name_end (c # cs) i =
     (if byte_alphanumeric c then name_end cs (Suc i)
      else if c = SPACE then i
      else 0)"

definition command_parser_new :: "u8 list \<Rightarrow> u8 list \<times> u8 list" where
  "command_parser_new data = (let i = name_end data 0 in (take i data, drop i data))"

definition skip_space :: "u8 list \<Rightarrow> u8 list" where
  "skip_space rest = dropWhile is_space rest"

text \<open>The loop over a value: the bytes taken, the escapes counted and the rest.\<close>

fun scan_value :: "u8 list \<Rightarrow> u8 list \<times> nat \<times> u8 list" where
  "scan_value [] = ([], 0, [])"
| "scan_value (c # cs) =
     (if ends_value c then ([], 0, c # cs)
      else if c = BACKSLASH then (case cs of
          [] \<Rightarrow> ([c], 1, [])
        | e # ds \<Rightarrow> if ends_value e then ([c], 1, e # ds)
            else (let (v, n, r) = scan_value ds in (c # e # v, Suc n, r)))
      else (let (v, n, r) = scan_value cs in (c # v, n, r)))"

definition parser_next :: "u8 list \<Rightarrow> (command_item \<times> u8 list) option" where
  "parser_next rest = (case skip_space rest of
      [] \<Rightarrow> None
    | c # cs \<Rightarrow>
        if c = PIPE then Some (NextCommand, cs)
        else let
          name = takeWhile (\<lambda>b. \<not> ends_name b) (c # cs);
          rest = dropWhile (\<lambda>b. \<not> ends_name b) (c # cs)
        in case rest of
            [] \<Rightarrow> Some (Argument name \<lparr>raw = [], escapes = 0\<rparr>, [])
          | d # ds \<Rightarrow>
              if d \<noteq> EQUALS then Some (Argument name \<lparr>raw = [], escapes = 0\<rparr>, d # ds)
              else let (v, n, r) = scan_value ds in
                Some (Argument name \<lparr>raw = v, escapes = n\<rparr>, r))"

text \<open>The loop by its six cases, and the induction that follows them.\<close>

lemma not_ends_value_backslash [simp]: "\<not> ends_value BACKSLASH"
  by (simp add: ends_value_def)

lemma scan_value_step:
  "ends_value c \<Longrightarrow> scan_value (c # cs) = ([], 0, c # cs)"
  "scan_value [BACKSLASH] = ([BACKSLASH], 1, [])"
  "ends_value e \<Longrightarrow> scan_value (BACKSLASH # e # ds) = ([BACKSLASH], 1, e # ds)"
  "\<not> ends_value e \<Longrightarrow> scan_value ds = (v, n, r)
     \<Longrightarrow> scan_value (BACKSLASH # e # ds) = (BACKSLASH # e # v, Suc n, r)"
  "\<not> ends_value c \<Longrightarrow> c \<noteq> BACKSLASH \<Longrightarrow> scan_value cs = (v, n, r) \<Longrightarrow> scan_value (c # cs) = (c # v, n, r)"
  by simp_all

lemma scan_value_induct [case_names Nil stop lone cut escape plain]:
  assumes "P []" "\<And>c cs. ends_value c \<Longrightarrow> P (c # cs)" "P [BACKSLASH]"
    "\<And>e ds. ends_value e \<Longrightarrow> P (BACKSLASH # e # ds)"
    "\<And>e ds. \<not> ends_value e \<Longrightarrow> P ds \<Longrightarrow> P (BACKSLASH # e # ds)"
    "\<And>c cs. \<not> ends_value c \<Longrightarrow> c \<noteq> BACKSLASH \<Longrightarrow> P cs \<Longrightarrow> P (c # cs)"
  shows "P cs"
proof (induction cs rule: scan_value.induct)
  case (2 c cs)
  show ?case
  proof (cases "ends_value c \<or> c \<noteq> BACKSLASH")
    case True
    then show ?thesis using 2(2) assms(2,6) by blast
  next
    case False
    then show ?thesis using 2(1) assms(3-5) by (cases cs) auto
  qed
qed (rule assms(1))

lemma length_scan_value_ind:
  "let (v, n, r) = scan_value cs in v @ r = cs \<and> n \<le> length v"
  by (induction cs rule: scan_value_induct) (auto simp: scan_value_step simp del: scan_value.simps(2))

lemma scan_value_splits:
  "scan_value cs = (v, n, r) \<Longrightarrow> v @ r = cs \<and> n \<le> length v"
  using length_scan_value_ind [of cs] by simp

lemma scan_value_shorter:
  assumes "scan_value cs = (v, n, r)"
  shows "length r \<le> length cs"
  using arg_cong [OF conjunct1 [OF scan_value_splits [OF assms]], of length] by simp

lemma parser_next_argument:
  assumes "skip_space rest = c # cs" "c \<noteq> PIPE"
  obtains (bare) name r where "parser_next rest = Some (Argument name \<lparr>raw = [], escapes = 0\<rparr>, r)"
      "name = takeWhile (\<lambda>b. \<not> ends_name b) (c # cs)" "r = dropWhile (\<lambda>b. \<not> ends_name b) (c # cs)"
      "r = [] \<or> hd r \<noteq> EQUALS"
  | (valued) name ds v n r where "parser_next rest = Some (Argument name \<lparr>raw = v, escapes = n\<rparr>, r)"
      "name = takeWhile (\<lambda>b. \<not> ends_name b) (c # cs)"
      "dropWhile (\<lambda>b. \<not> ends_name b) (c # cs) = EQUALS # ds" "scan_value ds = (v, n, r)"
proof (cases "dropWhile (\<lambda>b. \<not> ends_name b) (c # cs)")
  case Nil
  show ?thesis
    by (rule bare [OF _ refl refl]) (use assms Nil in \<open>simp_all add: parser_next_def Let_def
      del: dropWhile.simps takeWhile.simps dropWhile_eq_Nil_conv\<close>)
next
  case (Cons d ds)
  obtain v n r where "scan_value ds = (v, n, r)" by (cases "scan_value ds")
  then show ?thesis using assms Cons bare valued
    by (cases "d = EQUALS") (simp_all add: parser_next_def Let_def)
qed

lemma parser_next_shorter:
  assumes "parser_next rest = Some (it, rest')"
  shows "length rest' < length rest"
proof -
  have d: "length (dropWhile P cs) \<le> length cs" for P and cs :: "u8 list"
    by (rule length_dropWhile_le)
  obtain c cs where c: "skip_space rest = c # cs"
    using assms by (auto simp: parser_next_def split: list.splits)
  have "length rest' \<le> length cs"
  proof (cases "c = PIPE")
    case True
    then show ?thesis using assms c by (simp add: parser_next_def)
  next
    case False
    have "\<not> is_space c" using c by (metis hd_dropWhile list.distinct(1) list.sel(1) skip_space_def)
    then have ends: "ends_name c \<Longrightarrow> c = EQUALS" using False by (auto simp: ends_name_def is_space_def)
    from c False show ?thesis
    proof (cases rule: parser_next_argument)
      case (bare name r)
      then have "\<not> ends_name c" using ends by auto
      then show ?thesis using bare assms d [of _ cs] by simp
    next
      case (valued name ds v n r)
      have "length (EQUALS # ds) \<le> length (c # cs)" unfolding valued(3) [symmetric] by (rule d)
      then show ?thesis using valued assms scan_value_shorter [OF valued(4)] by simp
    qed
  qed
  then show ?thesis using c d [of is_space rest] unfolding skip_space_def by simp
qed

text \<open>The iterator run to its end.\<close>

function parse_items :: "u8 list \<Rightarrow> command_item list" where
  "parse_items rest = (case parser_next rest of
      None \<Rightarrow> []
    | Some (it, rest') \<Rightarrow> it # parse_items rest')"
  by auto
termination
  by (relation "measure length") (auto dest: parser_next_shorter)

declare parse_items.simps [simp del]

text \<open>\<open>i\<close> counts in \<open>raw\<close>; a backslash at the end is dropped.\<close>

definition unescape_byte :: "u8 \<Rightarrow> u8" where
  "unescape_byte c =
     (if c = 0x76 then 0x0b else if c = 0x66 then 0x0c else if c = 0x74 then 0x09
      else if c = 0x72 then 0x0d else if c = 0x6e then 0x0a else if c = 0x70 then PIPE
      else if c = 0x73 then SPACE else c)"

fun unescape :: "u8 list \<Rightarrow> u8 list" where
  "unescape [] = []"
| "unescape (c # cs) =
     (if c = BACKSLASH then (case cs of [] \<Rightarrow> [] | e # ds \<Rightarrow> unescape_byte e # unescape ds)
      else c # unescape cs)"

definition arg_get :: "arg_value \<Rightarrow> u8 list" where
  "arg_get v = (if escapes v = 0 then raw v else unescape (raw v))"

section \<open>The writer\<close>

definition escape_byte :: "u8 \<Rightarrow> u8 list" where
  "escape_byte c =
     (if c = 0x0b then [BACKSLASH, 0x76] else if c = 0x0c then [BACKSLASH, 0x66]
      else if c = BACKSLASH then [BACKSLASH, BACKSLASH] else if c = 0x09 then [BACKSLASH, 0x74]
      else if c = 0x0d then [BACKSLASH, 0x72] else if c = 0x0a then [BACKSLASH, 0x6e]
      else if c = PIPE then [BACKSLASH, 0x70] else if c = SPACE then [BACKSLASH, 0x73]
      else if c = 0x2f then [BACKSLASH, 0x2f] else [c])"

definition escape :: "u8 list \<Rightarrow> u8 list" where
  "escape buf = concat (map escape_byte buf)"

definition out_command_new :: "direction \<Rightarrow> packet_flags \<Rightarrow> packet_type \<Rightarrow> u8 list \<Rightarrow> out_packet option" where
  "out_command_new d fs t name = do {
     p \<leftarrow> new_with_dir d 0 t;
     p \<leftarrow> set_flags fs p;
     Some (push_bytes name p)
   }"

definition separate :: "out_packet \<Rightarrow> out_packet" where
  "separate p = (if out_content p \<noteq> [] \<and> last (out_content p) \<noteq> PIPE
     then push_bytes [SPACE] p else p)"

definition write_bin_arg :: "u8 list \<Rightarrow> u8 list \<Rightarrow> out_packet \<Rightarrow> out_packet" where
  "write_bin_arg name val p =
     (let p = push_bytes name (separate p) in
      if val \<noteq> [] then push_bytes (escape val) (push_bytes [EQUALS] p) else p)"

text \<open>\<open>write_arg\<close> appends the equals sign first and pops it when the value printed nothing.\<close>

definition write_arg :: "u8 list \<Rightarrow> u8 list \<Rightarrow> out_packet \<Rightarrow> out_packet" where
  "write_arg name val p =
     (let p = push_bytes [EQUALS] (push_bytes name (separate p));
          q = push_bytes (escape val) p
      in if length (op_data q) = length (op_data p)
         then q\<lparr>op_data := butlast (op_data q)\<rparr> else q)"

definition start_new_part :: "out_packet \<Rightarrow> out_packet" where
  "start_new_part p = push_bytes [PIPE] p"

text \<open>A run of the writer.\<close>

datatype write_op = WriteArg "u8 list" "u8 list" | StartNewPart

fun write_step :: "write_op \<Rightarrow> out_packet \<Rightarrow> out_packet" where
  "write_step (WriteArg name val) p = write_arg name val p"
| "write_step StartNewPart p = start_new_part p"

definition write_command :: "direction \<Rightarrow> packet_flags \<Rightarrow> packet_type \<Rightarrow> u8 list \<Rightarrow> write_op list \<Rightarrow> out_packet option" where
  "write_command d fs t name ops = map_option (fold write_step ops) (out_command_new d fs t name)"

text \<open>The whole parser on a content, with the values unescaped.\<close>

fun item_op :: "command_item \<Rightarrow> write_op" where
  "item_op (Argument name v) = WriteArg name (arg_get v)"
| "item_op NextCommand = StartNewPart"

definition read_command :: "u8 list \<Rightarrow> u8 list \<times> write_op list" where
  "read_command content = (let (name, rest) = command_parser_new content in
     (name, map item_op (parse_items rest)))"

section \<open>Escaping\<close>

lemma escape_simps [simp]:
  "escape [] = []" "escape (c # cs) = escape_byte c @ escape cs" "escape (cs @ ds) = escape cs @ escape ds"
  by (simp_all add: escape_def)

lemma escape_byte_cases:
  obtains (plain) "escape_byte c = [c]" "c \<noteq> BACKSLASH" "\<not> ends_value c" "c \<noteq> 0x2f"
  | (escaped) e where "escape_byte c = [BACKSLASH, e]" "unescape_byte e = c" "\<not> ends_value e"
  by (cases "c \<in> {0x0b, 0x0c, BACKSLASH, 0x09, 0x0d, 0x0a, PIPE, SPACE, 0x2f}")
    (auto simp: escape_byte_def unescape_byte_def ends_value_def)

lemma unescape_escape: "unescape (escape cs) = cs"
proof (induction cs)
  case (Cons c cs)
  then show ?case by (cases c rule: escape_byte_cases) simp_all
qed simp

lemma escape_eq_Nil [simp]: "escape cs = [] \<longleftrightarrow> cs = []"
  by (cases cs) (auto simp: escape_byte_def)

text \<open>Escaped text contains no byte that ends a value, so it is one token.\<close>

lemma scan_value_escape:
  "scan_value (escape cs @ rest) =
    (let (v, n, r) = scan_value rest in (escape cs @ v, length (filter (\<lambda>c. length (escape_byte c) = 2) cs) + n, r))"
proof (induction cs)
  case Nil
  show ?case by (simp split: prod.split)
next
  case (Cons c cs)
  have "\<not> ends_value BACKSLASH" by (simp add: ends_value_def)
  with Cons show ?case by (cases c rule: escape_byte_cases) (simp_all split: prod.splits)
qed

lemma unescape_plain: "BACKSLASH \<notin> set cs \<Longrightarrow> unescape cs = cs"
  by (induction cs) auto

lemma scan_value_escapes_ind:
  "let (v, n, r) = scan_value cs in n = 0 \<longrightarrow> BACKSLASH \<notin> set v"
  by (induction cs rule: scan_value_induct) (auto simp: scan_value_step simp del: scan_value.simps(2))

text \<open>So \<open>get\<close> is always the unescaped text: it borrows only where there is nothing to unescape.\<close>

lemma arg_get_scanned:
  "scan_value cs = (v, n, r) \<Longrightarrow> arg_get \<lparr>raw = v, escapes = n\<rparr> = unescape v"
  using scan_value_escapes_ind [of cs] by (simp add: arg_get_def unescape_plain)

section \<open>Writing and reading a command\<close>

lemma write_arg_eq: "write_arg name val = write_bin_arg name val"
  by (rule ext) (simp add: write_arg_def write_bin_arg_def Let_def push_bytes_def butlast_append)

definition plain_name :: "u8 list \<Rightarrow> bool" where
  "plain_name name \<longleftrightarrow> name \<noteq> [] \<and> (\<forall>c\<in>set name. \<not> ends_name c \<and> \<not> is_space c)"

fun plain_op :: "write_op \<Rightarrow> bool" where
  "plain_op (WriteArg name _) \<longleftrightarrow> plain_name name"
| "plain_op StartNewPart \<longleftrightarrow> True"

text \<open>The text of a run; the flag says whether an argument needs a space before it.\<close>

fun render :: "bool \<Rightarrow> write_op list \<Rightarrow> u8 list" where
  "render b [] = []"
| "render b (WriteArg name val # ops) = (if b then [SPACE] else []) @ name
     @ (if val = [] then [] else EQUALS # escape val) @ render True ops"
| "render b (StartNewPart # ops) = PIPE # render False ops"

lemma last_escape: "val \<noteq> [] \<Longrightarrow> last (escape val) \<noteq> PIPE"
proof (induction val rule: rev_induct)
  case (snoc c cs)
  show ?case by (cases "c \<in> {0x0b, 0x0c, BACKSLASH, 0x09, 0x0d, 0x0a, PIPE, SPACE, 0x2f}")
    (auto simp: escape_byte_def)
qed simp

lemma plain_name_last: "plain_name name \<Longrightarrow> last name \<noteq> PIPE"
  using last_in_set [of name] by (auto simp: plain_name_def ends_name_def)

lemma out_content_push [simp]:
  "out_packet_ok p \<Longrightarrow> out_content (push_bytes bs p) = out_content p @ bs"
  "out_packet_ok p \<Longrightarrow> out_packet_ok (push_bytes bs p)"
  by (simp_all add: out_packet_ok_def out_content_def push_bytes_def)

lemma write_step_content:
  assumes "out_packet_ok p" "plain_op op"
  shows "out_packet_ok (write_step op p)"
    "\<exists>b. out_content (write_step op p)
        = out_content p @ render (out_content p \<noteq> [] \<and> last (out_content p) \<noteq> PIPE) [op]
      \<and> (out_content (write_step op p) \<noteq> [] \<and> last (out_content (write_step op p)) \<noteq> PIPE) = b
      \<and> (\<forall>c ops. render c (op # ops) = render c [op] @ render b ops)"
proof -
  show "out_packet_ok (write_step op p)"
    using assms by (cases op) (simp_all add: write_arg_eq write_bin_arg_def separate_def start_new_part_def Let_def)
  show "\<exists>b. out_content (write_step op p)
        = out_content p @ render (out_content p \<noteq> [] \<and> last (out_content p) \<noteq> PIPE) [op]
      \<and> (out_content (write_step op p) \<noteq> [] \<and> last (out_content (write_step op p)) \<noteq> PIPE) = b
      \<and> (\<forall>c ops. render c (op # ops) = render c [op] @ render b ops)"
  proof (cases op)
    case (WriteArg name val)
    then have "name \<noteq> []" "last name \<noteq> PIPE"
      using assms plain_name_last by (auto simp: plain_name_def)
    then show ?thesis using assms WriteArg last_escape [of "val"]
      by (intro exI [of _ True]) (auto simp: write_arg_eq write_bin_arg_def separate_def Let_def)
  next
    case StartNewPart
    then show ?thesis using assms by (intro exI [of _ False]) (simp add: start_new_part_def)
  qed
qed

lemma fold_write_step:
  "out_packet_ok p \<Longrightarrow> \<forall>op\<in>set ops. plain_op op \<Longrightarrow>
     out_content (fold write_step ops p)
       = out_content p @ render (out_content p \<noteq> [] \<and> last (out_content p) \<noteq> PIPE) ops"
proof (induction ops arbitrary: p)
  case (Cons op ops)
  then have ok: "out_packet_ok p" "plain_op op" by simp_all
  obtain b where b: "out_content (write_step op p)
        = out_content p @ render (out_content p \<noteq> [] \<and> last (out_content p) \<noteq> PIPE) [op]"
      "(out_content (write_step op p) \<noteq> [] \<and> last (out_content (write_step op p)) \<noteq> PIPE) = b"
      "\<And>c ops. render c (op # ops) = render c [op] @ render b ops"
    using write_step_content(2) [OF ok] by blast
  have "out_content (fold write_step (op # ops) p) = out_content (write_step op p) @ render b ops"
    using Cons.IH [OF write_step_content(1) [OF ok]] Cons.prems(2) b(2) by simp
  then show ?case using b(1) b(3) [of _ ops] by simp
qed simp

lemma render_True_head:
  "render True ops = [] \<or> (\<exists>c cs. render True ops = c # cs \<and> (c = SPACE \<or> c = PIPE))"
proof (cases ops)
  case (Cons op ops')
  then show ?thesis by (cases op) auto
qed simp

lemma scan_value_stop:
  assumes "render True ops = r"
  shows "scan_value r = ([], 0, r)"
  using render_True_head [of ops] assms by (auto simp: ends_value_def)

lemma while_stop:
  "\<forall>x\<in>set xs. P x \<Longrightarrow> ys = [] \<or> \<not> P (hd ys) \<Longrightarrow> takeWhile P (xs @ ys) = xs \<and> dropWhile P (xs @ ys) = ys"
  by (cases ys) auto

lemma parser_next_written:
  assumes "plain_name name"
  shows "\<exists>n. parser_next (render b (WriteArg name val # ops))
    = Some (Argument name \<lparr>raw = escape val, escapes = n\<rparr>, render True ops)
    \<and> arg_get \<lparr>raw = escape val, escapes = n\<rparr> = val"
proof -
  have sp: "is_space SPACE" by (simp add: is_space_def)
  obtain c cs where name: "name = c # cs" "\<not> is_space c" "\<not> ends_name c" "c \<noteq> PIPE"
    using assms by (cases name) (auto simp: plain_name_def ends_name_def)
  have plain: "\<forall>b\<in>set cs. \<not> ends_name b" using assms name(1) by (simp add: plain_name_def)
  define tl where "tl = (if val = [] then [] else EQUALS # escape val) @ render True ops"
  have skip: "skip_space (render b (WriteArg name val # ops)) = c # cs @ tl"
    using name sp by (simp add: skip_space_def tl_def)
  have "tl = [] \<or> \<not> \<not> ends_name (hd tl)"
    using render_True_head [of ops] by (auto simp: ends_name_def tl_def)
  moreover have "\<forall>b\<in>set name. \<not> ends_name b" using assms by (simp add: plain_name_def)
  ultimately have tw: "takeWhile (\<lambda>b. \<not> ends_name b) (c # cs @ tl) = name"
    "dropWhile (\<lambda>b. \<not> ends_name b) (c # cs @ tl) = tl"
    using while_stop [of name "\<lambda>b. \<not> ends_name b" tl] name(1) by simp_all
  have nxt: "parser_next (render b (WriteArg name val # ops)) = (case tl of
       [] \<Rightarrow> Some (Argument name \<lparr>raw = [], escapes = 0\<rparr>, [])
     | d # ds \<Rightarrow> if d \<noteq> EQUALS then Some (Argument name \<lparr>raw = [], escapes = 0\<rparr>, d # ds)
         else (let (v, n, r) = scan_value ds in Some (Argument name \<lparr>raw = v, escapes = n\<rparr>, r)))"
    unfolding parser_next_def skip by (simp only: list.case tw Let_def name(4) if_False)
  show ?thesis
  proof (cases "val = []")
    case True
    then show ?thesis using nxt tl_def render_True_head [of ops]
      by (auto simp: arg_get_def simp del: render.simps)
  next
    case False
    obtain n where sv: "scan_value (escape val @ render True ops) = (escape val, n, render True ops)"
      by (simp add: scan_value_escape scan_value_stop)
    have "arg_get \<lparr>raw = escape val, escapes = n\<rparr> = val"
      using arg_get_scanned [OF sv] by (simp add: unescape_escape)
    then show ?thesis using nxt sv False by (simp add: tl_def del: render.simps)
  qed
qed

lemma parser_next_new_part:
  "parser_next (render b (StartNewPart # ops)) = Some (NextCommand, render False ops)"
  by (simp add: parser_next_def skip_space_def is_space_def)

text \<open>The item that an operation is parsed as.\<close>

fun item_of :: "write_op \<Rightarrow> command_item \<Rightarrow> bool" where
  "item_of (WriteArg name val) it \<longleftrightarrow> (\<exists>v. it = Argument name v \<and> raw v = escape val \<and> arg_get v = val)"
| "item_of StartNewPart it \<longleftrightarrow> it = NextCommand"

lemma parse_items_written:
  "\<forall>op\<in>set ops. plain_op op \<Longrightarrow> list_all2 item_of ops (parse_items (render b ops))"
proof (induction ops arbitrary: b)
  case Nil
  show ?case by (subst parse_items.simps) (simp add: parser_next_def skip_space_def)
next
  case (Cons op ops)
  show ?case
  proof (cases op)
    case (WriteArg name val)
    then obtain n where "parser_next (render b (op # ops))
        = Some (Argument name \<lparr>raw = escape val, escapes = n\<rparr>, render True ops)"
      "arg_get \<lparr>raw = escape val, escapes = n\<rparr> = val"
      using parser_next_written [of name b "val" ops] Cons.prems by auto
    then show ?thesis using Cons WriteArg
      by (subst parse_items.simps) (simp del: render.simps)
  next
    case StartNewPart
    then show ?thesis using Cons
      by (subst parse_items.simps) (simp add: parser_next_new_part del: render.simps)
  qed
qed

lemma item_of_op: "item_of op it \<Longrightarrow> item_op it = op"
  by (cases op) auto

lemma parse_items_render:
  assumes "\<forall>op\<in>set ops. plain_op op"
  shows "map item_op (parse_items (render b ops)) = ops"
proof -
  have "list_all2 item_of ops its \<Longrightarrow> map item_op its = ops" for its
    by (induction ops its rule: list_all2_induct) (simp_all add: item_of_op)
  then show ?thesis using parse_items_written [OF assms] by blast
qed

lemma name_end_written:
  "\<forall>c\<in>set name. byte_alphanumeric c \<Longrightarrow> name_end (name @ rest) i = name_end rest (i + length name)"
  by (induction name arbitrary: i) simp_all

lemma out_command_new_ok:
  "fs AND 0xf = 0 \<Longrightarrow> \<exists>p. out_command_new d fs t name = Some p \<and> out_packet_ok p \<and> out_content p = name"
  by (cases d) (simp_all add: out_command_new_def new_with_dir_eq set_flags_def write_at_def type_off_def
    push_bytes_def out_packet_ok_def out_content_def)

lemma written_command_parses:
  assumes "fs AND 0xf = 0" "name \<noteq> []" "\<forall>c\<in>set name. byte_alphanumeric c"
    "\<forall>op\<in>set ops. plain_op op" "ops = [] \<or> hd ops \<noteq> StartNewPart"
  shows "\<exists>p. write_command d fs t name ops = Some p \<and> out_content p = name @ render True ops
    \<and> command_parser_new (out_content p) = (name, render True ops)"
proof -
  obtain p where p: "out_command_new d fs t name = Some p" "out_packet_ok p" "out_content p = name"
    using out_command_new_ok [OF assms(1)] by blast
  have "last name \<noteq> PIPE"
    using last_in_set [OF assms(2)] assms(3) by (auto simp: byte_alphanumeric_def)
  then have c: "out_content (fold write_step ops p) = name @ render True ops"
    using fold_write_step [OF p(2) assms(4)] p(3) assms(2) by simp
  have "name_end (render True ops) i = i" for i
  proof (cases ops)
    case (Cons op ops')
    then show ?thesis using assms(5) by (cases op) (simp_all add: byte_alphanumeric_def)
  qed simp
  then have "command_parser_new (name @ render True ops) = (name, render True ops)"
    by (simp add: command_parser_new_def name_end_written [OF assms(3)])
  then show ?thesis using p c by (simp add: write_command_def)
qed

text \<open>C33. What the writer writes is what the parser reads: the name and, in order, every argument with
  its value and every separator. The name has to be alphanumeric, the names of the arguments free of
  separators, and the command must not start with a separator.
\<close>

theorem command_round_trip:
  assumes "fs AND 0xf = 0" "name \<noteq> []" "\<forall>c\<in>set name. byte_alphanumeric c"
    "\<forall>op\<in>set ops. plain_op op" "ops = [] \<or> hd ops \<noteq> StartNewPart"
  shows "\<exists>p. write_command d fs t name ops = Some p \<and> read_command (out_content p) = (name, ops)"
  using written_command_parses [OF assms] parse_items_render [OF assms(4)]
  by (fastforce simp: read_command_def)

lemma command_round_trip_witness:
  "\<exists>p. write_command C2S 0 Command (ascii ''cmd'') [WriteArg (ascii ''a'') (ascii ''x y''), StartNewPart] = Some p
     \<and> read_command (out_content p) = (ascii ''cmd'', [WriteArg (ascii ''a'') (ascii ''x y''), StartNewPart])"
  by (rule command_round_trip)
    (simp_all add: ascii_def byte_alphanumeric_def plain_name_def ends_name_def is_space_def)

text \<open>Parsing any text ends: every item takes at least one byte, and no value counts more escapes
  than it has bytes, so the capacity \<open>raw.len() - escapes\<close> does not underflow.
\<close>

theorem parser_progress:
  assumes "parser_next rest = Some (it, rest')"
  shows "length rest' < length rest
    \<and> (\<forall>name v. it = Argument name v \<longrightarrow> escapes v \<le> length (raw v) \<and> arg_get v = unescape (raw v))"
proof -
  obtain c cs where c: "skip_space rest = c # cs"
    using assms by (auto simp: parser_next_def split: list.splits)
  have "escapes v \<le> length (raw v) \<and> arg_get v = unescape (raw v)" if "it = Argument name v" for name v
  proof -
    have "c \<noteq> PIPE" using assms c that by (auto simp: parser_next_def)
    with c show ?thesis
    proof (cases rule: parser_next_argument)
      case (valued name ds v' n r)
      then show ?thesis using assms that arg_get_scanned scan_value_splits by auto
    qed (use assms that in \<open>auto simp: arg_get_def\<close>)
  qed
  then show ?thesis using parser_next_shorter [OF assms] by blast
qed

lemma parser_progress_witness:
  "arg_get \<lparr>raw = [0x5c, 0x73], escapes = 1\<rparr> = unescape [0x5c, 0x73]"
proof -
  have "parser_next [0x61, 0x3d, 0x5c, 0x73] = Some (Argument [0x61] \<lparr>raw = [0x5c, 0x73], escapes = 1\<rparr>, [])"
    by (simp add: parser_next_def skip_space_def is_space_def ends_name_def ends_value_def)
  from parser_progress [OF this] show ?thesis by simp
qed

end
