(* ===== verification/Handshake.thy ===== *)
theory Handshake
  imports Keys ProtoConnection CommandSyntax IpAddr
begin

unbundle bit_operations_syntax

text \<open>
  The client side of the protocol: \<open>tsproto/src/client.rs\<close>. The handshake sends the five \<open>Init\<close>
  packets and \<open>clientek\<close>, and the stream of the client looks at the commands that pass through it.

  An asynchronous function is a function on the state \<open>hs\<close> with an \<open>outcome\<close>. \<open>hs_rounds\<close> is the
  future: one entry for each call of \<open>poll_next\<close>, with the time of the call and the datagrams that
  arrived before it. When there is none left the function still waits (\<open>Waiting\<close>). \<open>hs_now\<close> is the
  time of the last poll and \<open>hs_inbox\<close> holds datagrams that have arrived and were not read yet.
  \<open>OutOfFuel\<close> belongs to the resend loop of \<open>poll_next\<close>.

  \<open>hand_back_buffer\<close> only recycles memory, and tracing is left out.
\<close>

section \<open>State and results\<close>

datatype (plugins only: code size) handshake_error =
    ConnectionEnd
  | EarlyInitserver
  | InvalidBase64Arg string
  | InvalidBetaLength nat
  | InvalidClientId "u8 list"
  | InvalidInitivexpand2
  | InvalidOmegaKey key_error
  | InvalidOmegaString
  | InvalidRootKeyLength nat
  | InvalidSignature key_error
  | MultipleCommands string
  | NoClientId
  | OutdatedServer
  | ParseLicense license_error
  | RsaPuzzleTooHighLevel u32
  | TsProto proto_error
  | UnexpectedPacket string
  | ClientPanic

record hs =
  hs_con :: proto_con
  hs_now :: instant
  hs_inbox :: "recv_answer list"
  hs_rounds :: "(instant \<times> recv_answer list) list"

datatype (plugins only: code size) 'a outcome = Returned 'a | Raised handshake_error | Waiting | OutOfFuel

type_synonym 'a hs_run = "hs \<Rightarrow> 'a outcome \<times> hs"

definition hs_then :: "'a hs_run \<Rightarrow> ('a \<Rightarrow> 'b hs_run) \<Rightarrow> 'b hs_run" where
  "hs_then m f = (\<lambda>s. case m s of
      (Returned x, s) \<Rightarrow> f x s
    | (Raised e, s) \<Rightarrow> (Raised e, s)
    | (Waiting, s) \<Rightarrow> (Waiting, s)
    | (OutOfFuel, s) \<Rightarrow> (OutOfFuel, s))"

definition hs_return :: "'a \<Rightarrow> 'a hs_run" where
  "hs_return x = (\<lambda>s. (Returned x, s))"

definition hs_raise :: "handshake_error \<Rightarrow> 'a hs_run" where
  "hs_raise e = (\<lambda>s. (Raised e, s))"

definition hs_lift :: "handshake_error + 'a \<Rightarrow> 'a hs_run" where
  "hs_lift r = (case r of Inl e \<Rightarrow> hs_raise e | Inr x \<Rightarrow> hs_return x)"

abbreviation upd_con :: "(proto_con \<Rightarrow> proto_con) \<Rightarrow> hs \<Rightarrow> hs" where
  "upd_con f s \<equiv> s\<lparr>hs_con := f (hs_con s)\<rparr>"

text \<open>What the client gets from other crates and from its surroundings.\<close>

record ('q, 'w, 'p, 's) client_env =
  env_lib :: proto_lib
  env_keys :: "('q, 'w) key_crates"
  env_curve :: "('p, 's) dalek"
  env_fuel :: nat
  env_version :: "u8 list"
  env_unix_now :: int
  env_address :: ip_addr
  env_private_key :: 'w

section \<open>Sending\<close>

text \<open>\<open>Client::send_packet\<close>; the packet of a constructor that panicked is \<open>None\<close>.\<close>

definition leave_on_disconnect :: "instant \<Rightarrow> out_packet \<Rightarrow> proto_con \<Rightarrow> proto_con" where
  "leave_on_disconnect now p con =
     (if Option.bind (out_header p) hdr_packet_type = Some Command
         \<and> starts_with ''clientdisconnect'' (out_content p)
      then upd_resender (set_state now Disconnecting) con else con)"

definition client_send_packet ::
    "('q, 'w, 'p, 's) client_env \<Rightarrow> out_packet option \<Rightarrow> packet_id hs_run" where
  "client_send_packet env p s = (case p of
      None \<Rightarrow> (Raised ClientPanic, s)
    | Some p \<Rightarrow> (case send_packet (env_lib env) (hs_now s) p (leave_on_disconnect (hs_now s) p (hs_con s)) of
        (Inl ProtoPanic, con) \<Rightarrow> (Raised ClientPanic, s\<lparr>hs_con := con\<rparr>)
      | (Inl e, con) \<Rightarrow> (Raised (TsProto e), s\<lparr>hs_con := con\<rparr>)
      | (Inr pid, con) \<Rightarrow> (Returned pid, s\<lparr>hs_con := con\<rparr>)))"

section \<open>Commands that pass through\<close>

text \<open>\<open>get_parse::<Error, u16>\<close>\<close>

definition get_parse_u16 :: "arg_value \<Rightarrow> u16 option" where
  "get_parse_u16 v = (let s = arg_get v in
     if utf8_decode s = None then None else map_option of_nat (parse_unsigned (2 ^ 16) s))"

definition client_id_of :: "arg_value \<Rightarrow> handshake_error + u16" where
  "client_id_of v = (case get_parse_u16 v of None \<Rightarrow> Inl (InvalidClientId (raw v)) | Some c \<Rightarrow> Inr c)"

text \<open>\<open>initserver\<close>: the first \<open>aclid\<close> before the next command.\<close>

fun find_aclid :: "command_item list \<Rightarrow> handshake_error + u16 option" where
  "find_aclid [] = Inr None"
| "find_aclid (NextCommand # items) = Inl (MultipleCommands ''initserver'')"
| "find_aclid (Argument name v # items) =
     (if name = ascii ''aclid'' then map_sum id Some (client_id_of v) else find_aclid items)"

definition handle_initserver :: "instant \<Rightarrow> command_item list \<Rightarrow> proto_con \<Rightarrow> handshake_error option \<times> proto_con" where
  "handle_initserver now items con = (case con_params con of
      None \<Rightarrow> (Some EarlyInitserver, con)
    | Some params \<Rightarrow> (case find_aclid items of
        Inl e \<Rightarrow> (Some e, con)
      | Inr None \<Rightarrow> (Some NoClientId, con)
      | Inr (Some c) \<Rightarrow> (None, upd_resender (set_state now Connected)
          (con\<lparr>con_params := Some (params\<lparr>cp_c_id := c\<rparr>)\<rparr>))))"

text \<open>\<open>notifyclientleftview\<close>: whether one of the clients is the own one.\<close>

fun own_client_left :: "u16 \<Rightarrow> command_item list \<Rightarrow> bool \<Rightarrow> handshake_error + bool" where
  "own_client_left own [] found = Inr found"
| "own_client_left own (NextCommand # items) found = own_client_left own items found"
| "own_client_left own (Argument name v # items) found =
     (if name = ascii ''clid''
      then (case client_id_of v of
          Inl e \<Rightarrow> Inl e
        | Inr c \<Rightarrow> own_client_left own items (found \<or> c = own))
      else own_client_left own items found)"

definition handle_left_view :: "instant \<Rightarrow> command_item list \<Rightarrow> proto_con \<Rightarrow> handshake_error option \<times> proto_con" where
  "handle_left_view now items con = (case con_params con of
      None \<Rightarrow> (None, con)
    | Some params \<Rightarrow> (case own_client_left (cp_c_id params) items False of
        Inl e \<Rightarrow> (Some e, con)
      | Inr True \<Rightarrow> (None, upd_resender (set_state now Disconnected) con)
      | Inr False \<Rightarrow> (None, con)))"

text \<open>\<open>notifyplugincmd\<close>: the three variables of the loop are not reset between the commands.\<close>

record plugin_cmd =
  is_getversion :: bool
  is_request :: bool
  plugin_sender :: "u16 option"

definition plugin_arg :: "u8 list \<Rightarrow> arg_value \<Rightarrow> plugin_cmd \<Rightarrow> plugin_cmd" where
  "plugin_arg name v c =
     (if name = ascii ''name'' then c\<lparr>is_getversion := (raw v = ascii ''getversion'')\<rparr>
      else if name = ascii ''data'' then c\<lparr>is_request := (raw v = ascii ''request'')\<rparr>
      else if name = ascii ''invokerid''
        then (case get_parse_u16 v of None \<Rightarrow> c | Some i \<Rightarrow> c\<lparr>plugin_sender := Some i\<rparr>)
      else c)"

definition version_answer :: "u8 list \<Rightarrow> u16 \<Rightarrow> out_packet option" where
  "version_answer version sender = write_command C2S 0 Command (ascii ''plugincmd'')
     [WriteArg (ascii ''name'') (ascii ''getversion''), WriteArg (ascii ''data'') version,
      WriteArg (ascii ''targetmode'') (decimal 2), WriteArg (ascii ''target'') (decimal (unat sender))]"

definition answer_plugin :: "('q, 'w, 'p, 's) client_env \<Rightarrow> plugin_cmd \<Rightarrow> unit hs_run" where
  "answer_plugin env c = (case plugin_sender c of
      Some sender \<Rightarrow>
        if is_getversion c \<and> is_request c
        then hs_then (client_send_packet env (version_answer (env_version env) sender)) (\<lambda>_. hs_return ())
        else hs_return ()
    | None \<Rightarrow> hs_return ())"

fun handle_plugin :: "('q, 'w, 'p, 's) client_env \<Rightarrow> command_item list \<Rightarrow> plugin_cmd \<Rightarrow> unit hs_run" where
  "handle_plugin env [] c = hs_return ()"
| "handle_plugin env (Argument name v # items) c = handle_plugin env items (plugin_arg name v c)"
| "handle_plugin env (NextCommand # items) c =
     hs_then (answer_plugin env c) (\<lambda>_. handle_plugin env items c)"

definition plugin_cmd_new :: plugin_cmd where
  "plugin_cmd_new = \<lparr>is_getversion = False, is_request = False, plugin_sender = None\<rparr>"

definition on_con :: "(proto_con \<Rightarrow> handshake_error option \<times> proto_con) \<Rightarrow> unit hs_run" where
  "on_con f s = (case f (hs_con s) of
      (Some e, con) \<Rightarrow> (Raised e, s\<lparr>hs_con := con\<rparr>)
    | (None, con) \<Rightarrow> (Returned (), s\<lparr>hs_con := con\<rparr>))"

definition client_handle_command :: "('q, 'w, 'p, 's) client_env \<Rightarrow> u8 list \<Rightarrow> unit hs_run" where
  "client_handle_command env content s =
     (let (name, rest) = command_parser_new content; items = parse_items rest in
      if name = ascii ''initserver'' then on_con (handle_initserver (hs_now s) items) s
      else if name = ascii ''notifyclientleftview'' then on_con (handle_left_view (hs_now s) items) s
      else if name = ascii ''notifyplugincmd'' then handle_plugin env (items @ [NextCommand]) plugin_cmd_new s
      else (Returned (), s))"

section \<open>The stream\<close>

text \<open>One item of \<open>Client\<close>; \<open>Returned None\<close> is the end of the stream.\<close>

definition deliver :: "('q, 'w, 'p, 's) client_env \<Rightarrow> poll_result \<Rightarrow> stream_item option hs_run" where
  "deliver env r = (case r of
      ReadyItem (StreamCommand p) \<Rightarrow>
        hs_then (client_handle_command env (ip_content p)) (\<lambda>_. hs_return (Some (StreamCommand p)))
    | ReadyItem it \<Rightarrow> hs_return (Some it)
    | ReadyError ProtoPanic \<Rightarrow> hs_raise ClientPanic
    | ReadyError e \<Rightarrow> hs_raise (TsProto e)
    | ReadyNone \<Rightarrow> hs_return None
    | NotReady \<Rightarrow> (\<lambda>s. (Waiting, s)))"

fun next_loop ::
    "('q, 'w, 'p, 's) client_env \<Rightarrow> (instant \<times> recv_answer list) list \<Rightarrow> stream_item option hs_run" where
  "next_loop env [] s = (Waiting, s\<lparr>hs_rounds := []\<rparr>)"
| "next_loop env ((now, arrived) # rounds) s =
     (case poll_next (env_fuel env) (env_lib env) now (hs_inbox s @ arrived) (hs_con s) of
        None \<Rightarrow> (OutOfFuel, s)
      | Some (r, con, inbox) \<Rightarrow>
          (let s = \<lparr>hs_con = con, hs_now = now, hs_inbox = inbox, hs_rounds = rounds\<rparr> in
           if r = NotReady then next_loop env rounds s else deliver env r s))"

definition client_next :: "('q, 'w, 'p, 's) client_env \<Rightarrow> stream_item option hs_run" where
  "client_next env s = next_loop env (hs_rounds s) s"

text \<open>Every item takes a round, so the filter loops end.\<close>

lemma hs_then_Returned:
  "hs_then m f s = (Returned y, s2) \<longleftrightarrow> (\<exists>x s1. m s = (Returned x, s1) \<and> f x s1 = (Returned y, s2))"
  by (auto simp: hs_then_def split: prod.splits outcome.splits)

lemma hs_return_eq [simp]:
  "hs_return x s = (r, s') \<longleftrightarrow> r = Returned x \<and> s' = s" "hs_raise e s = (r', s') \<longleftrightarrow> r' = Raised e \<and> s' = s"
  by (auto simp: hs_return_def hs_raise_def)

lemma hs_then_simps [simp]:
  "hs_then (hs_return x) f = f x" "hs_then (hs_raise e) f = hs_raise e"
  by (simp_all add: hs_then_def hs_return_def hs_raise_def fun_eq_iff)

lemma hs_lift_simps [simp]: "hs_lift (Inl e) = hs_raise e" "hs_lift (Inr x) = hs_return x"
  by (simp_all add: hs_lift_def)

lemma client_send_packet_rounds: "hs_rounds (snd (client_send_packet env p s)) = hs_rounds s"
  by (auto simp: client_send_packet_def split: option.splits prod.splits sum.splits proto_error.splits)

lemma answer_plugin_rounds: "hs_rounds (snd (answer_plugin env c s)) = hs_rounds s"
  using client_send_packet_rounds [of env _ s]
  by (auto simp: answer_plugin_def hs_then_def hs_return_def split: option.splits prod.splits outcome.splits)
    (metis snd_conv)+

lemma handle_plugin_rounds: "hs_rounds (snd (handle_plugin env items c s)) = hs_rounds s"
proof (induction env items c arbitrary: s rule: handle_plugin.induct)
  case (3 env items c)
  have "hs_rounds (snd (answer_plugin env c s)) = hs_rounds s" by (rule answer_plugin_rounds)
  with 3 show ?case by (auto simp: hs_then_def split: prod.splits outcome.splits)
qed (simp_all add: hs_return_def)

lemma on_con_rounds: "hs_rounds (snd (on_con f s)) = hs_rounds s"
  by (auto simp: on_con_def split: prod.splits option.splits)

lemma client_handle_command_rounds: "hs_rounds (snd (client_handle_command env content s)) = hs_rounds s"
  by (simp add: client_handle_command_def handle_plugin_rounds on_con_rounds Let_def split: prod.split)

lemma deliver_rounds: "hs_rounds (snd (deliver env r s)) = hs_rounds s"
  using client_handle_command_rounds [of env _ s]
  by (auto simp: deliver_def hs_then_def hs_return_def hs_raise_def
    split: poll_result.splits stream_item.splits prod.splits outcome.splits proto_error.splits)
    (metis snd_conv)+

lemma next_loop_rounds:
  "next_loop env rounds s = (Returned x, s') \<Longrightarrow> length (hs_rounds s') < length rounds"
proof (induction env rounds s rule: next_loop.induct)
  case (2 env now arrived rounds s)
  obtain r con inbox where p: "poll_next (env_fuel env) (env_lib env) now (hs_inbox s @ arrived) (hs_con s)
      = Some (r, con, inbox)"
    using 2(2) by (cases "poll_next (env_fuel env) (env_lib env) now (hs_inbox s @ arrived) (hs_con s)")
      (auto split: prod.splits)
  define s1 where "s1 = \<lparr>hs_con = con, hs_now = now, hs_inbox = inbox, hs_rounds = rounds\<rparr>"
  show ?case
  proof (cases "r = NotReady")
    case True
    then show ?thesis using 2 p by (simp add: less_Suc_eq)
  next
    case False
    then have "deliver env r s1 = (Returned x, s')" using 2(2) p by (simp add: s1_def Let_def)
    then show ?thesis using deliver_rounds [of env r s1] by (simp add: s1_def)
  qed
qed simp

section \<open>Waiting for something\<close>

text \<open>\<open>filter_items\<close>: \<open>f\<close> sees every item until it yields a value.\<close>

function filter_items ::
    "('q, 'w, 'p, 's) client_env \<Rightarrow> (hs \<Rightarrow> stream_item \<Rightarrow> handshake_error + 'a option) \<Rightarrow> 'a hs_run" where
  "filter_items env f s = (case client_next env s of
      (Returned None, s) \<Rightarrow> (Raised ConnectionEnd, s)
    | (Returned (Some it), s) \<Rightarrow> (case f s it of
        Inl e \<Rightarrow> (Raised e, s)
      | Inr (Some x) \<Rightarrow> (Returned x, s)
      | Inr None \<Rightarrow> filter_items env f s)
    | (Raised e, s) \<Rightarrow> (Raised e, s)
    | (Waiting, s) \<Rightarrow> (Waiting, s)
    | (OutOfFuel, s) \<Rightarrow> (OutOfFuel, s))"
  by pat_completeness auto
termination
  by (relation "measure (\<lambda>(env, f, s). length (hs_rounds s))")
    (auto simp: client_next_def dest!: sym [of "(Returned _, _)"] next_loop_rounds)

declare filter_items.simps [simp del]

lemma filter_items_Returned:
  "filter_items env f s = (Returned x, s') \<longleftrightarrow> (\<exists>it s1. client_next env s = (Returned (Some it), s1)
    \<and> (f s1 it = Inr (Some x) \<and> s' = s1 \<or> f s1 it = Inr None \<and> filter_items env f s1 = (Returned x, s')))"
  by (subst filter_items.simps) (auto split: prod.splits outcome.splits option.splits sum.splits)

lemma client_next_rounds:
  "client_next env s = (Returned x, s') \<Longrightarrow> length (hs_rounds s') < length (hs_rounds s)"
  by (auto simp: client_next_def dest: next_loop_rounds)

text \<open>The state and the item that ended a wait.\<close>

lemma filter_items_last:
  assumes "filter_items env f s = (Returned x, s')"
  obtains it where "f s' it = Inr (Some x)" "length (hs_rounds s') < length (hs_rounds s)"
  using assms
proof (induction "length (hs_rounds s)" arbitrary: s rule: less_induct)
  case less
  from less(3) obtain it s1 where n: "client_next env s = (Returned (Some it), s1)"
    "f s1 it = Inr (Some x) \<and> s' = s1 \<or> f s1 it = Inr None \<and> filter_items env f s1 = (Returned x, s')"
    by (subst (asm) filter_items_Returned) auto
  from n(2) show ?case
    using less(1) [of s1] less(2) client_next_rounds [OF n(1)] less_trans by blast
qed

lemma filter_items_rounds:
  "filter_items env f s = (Returned x, s') \<Longrightarrow> length (hs_rounds s') < length (hs_rounds s)"
  by (erule filter_items_last)

definition want_init :: "u8 list \<Rightarrow> hs \<Rightarrow> stream_item \<Rightarrow> handshake_error + s2c_init option" where
  "want_init steps s it = Inr (case it of
      StreamS2CInit p i \<Rightarrow> if s2c_step i \<in> set steps then Some i else None
    | _ \<Rightarrow> None)"

definition get_init :: "('q, 'w, 'p, 's) client_env \<Rightarrow> u8 list \<Rightarrow> s2c_init hs_run" where
  "get_init env steps = filter_items env (want_init steps)"

definition want_command :: "hs \<Rightarrow> stream_item \<Rightarrow> handshake_error + in_packet option" where
  "want_command s it = Inr (case it of StreamCommand p \<Rightarrow> Some p | _ \<Rightarrow> None)"

definition get_command :: "('q, 'w, 'p, 's) client_env \<Rightarrow> in_packet hs_run" where
  "get_command env = filter_items env want_command"

text \<open>Packet identifiers of different types are not comparable.\<close>

definition packet_id_le :: "packet_id \<Rightarrow> packet_id \<Rightarrow> bool" where
  "packet_id_le a b \<longleftrightarrow> pk_type a = pk_type b \<and> pk_part a \<le> pk_part b"

definition want_ack :: "packet_id \<Rightarrow> hs \<Rightarrow> stream_item \<Rightarrow> handshake_error + unit option" where
  "want_ack pid s it = Inr (case it of
      AckPacket ack \<Rightarrow> if packet_id_le pid ack then Some () else None
    | _ \<Rightarrow> None)"

definition wait_for_ack :: "('q, 'w, 'p, 's) client_env \<Rightarrow> packet_id \<Rightarrow> unit hs_run" where
  "wait_for_ack env pid = filter_items env (want_ack pid)"

definition send_queue_full :: "('q, 'w, 'p, 's) client_env \<Rightarrow> hs \<Rightarrow> bool" where
  "send_queue_full env s \<longleftrightarrow> is_full (env_lib env) (hs_now s) (con_resender (hs_con s))"

definition want_room :: "('q, 'w, 'p, 's) client_env \<Rightarrow> hs \<Rightarrow> stream_item \<Rightarrow> handshake_error + unit option" where
  "want_room env s it = Inr (case it of
      AckPacket _ \<Rightarrow> if send_queue_full env s then None else Some ()
    | _ \<Rightarrow> None)"

definition wait_until_can_send :: "('q, 'w, 'p, 's) client_env \<Rightarrow> unit hs_run" where
  "wait_until_can_send env s =
     (if send_queue_full env s then filter_items env (want_room env) s else (Returned (), s))"

text \<open>\<open>filter_commands\<close> is the same loop for a function of commands.\<close>

definition only_commands :: "(hs \<Rightarrow> in_packet \<Rightarrow> handshake_error + 'a option) \<Rightarrow> hs \<Rightarrow> stream_item \<Rightarrow> handshake_error + 'a option" where
  "only_commands f s it = (case it of StreamCommand p \<Rightarrow> f s p | _ \<Rightarrow> Inr None)"

definition filter_commands ::
    "('q, 'w, 'p, 's) client_env \<Rightarrow> (hs \<Rightarrow> in_packet \<Rightarrow> handshake_error + 'a option) \<Rightarrow> 'a hs_run" where
  "filter_commands env f = filter_items env (only_commands f)"

text \<open>\<open>wait_disconnect\<close>: items are dropped until the stream ends.\<close>

function wait_disconnect :: "('q, 'w, 'p, 's) client_env \<Rightarrow> unit hs_run" where
  "wait_disconnect env s = (case client_next env s of
      (Returned None, s) \<Rightarrow> (Returned (), s)
    | (Returned (Some it), s) \<Rightarrow> wait_disconnect env s
    | (Raised e, s) \<Rightarrow> (Raised e, s)
    | (Waiting, s) \<Rightarrow> (Waiting, s)
    | (OutOfFuel, s) \<Rightarrow> (OutOfFuel, s))"
  by pat_completeness auto
termination
  by (relation "measure (\<lambda>(env, s). length (hs_rounds s))")
    (auto simp: client_next_def dest!: sym [of "(Returned _, _)"] next_loop_rounds)

declare wait_disconnect.simps [simp del]

end
