(* ===== verification/LicenseChain.thy ===== *)
theory LicenseChain
  imports License
begin

text \<open>
  What a parsed license (theory License) guarantees: its blocks fill the data, the time bounds of
  every block lie within those of the block before, parsing panics for no input but the empty one,
  and the private key derived along a chain belongs to the public key derived along it.
\<close>

section \<open>Parsing does not panic\<close>

lemma zero_position_less: "zero_position bs = Some n \<Longrightarrow> n < length bs"
  by (simp add: zero_position_def Let_def split: if_splits)

lemma ts5_properties_end:
  "ts5_properties len data n pos = Inr (ps, end) \<Longrightarrow> pos \<le> length data \<Longrightarrow> end \<le> length data"
proof (induction n arbitrary: pos ps)
  case (Suc n)
  define plen where "plen = unat (data ! pos)"
  have "\<not> length data \<le> pos + 1 + plen" using Suc.prems(1) by (auto simp: plen_def Let_def split: if_splits)
  moreover obtain qs where "ts5_properties len data n (pos + 1 + plen) = Inr (qs, end)"
    using Suc.prems(1) by (auto simp: plen_def Let_def and_then_eq_Inr split: if_splits)
  ultimately show ?case using Suc.IH [of "pos + 1 + plen" qs] by simp
qed simp

lemma ts5_properties_no_panic: "ts5_properties len data n pos \<noteq> Inl LicensePanic"
proof (induction n arbitrary: pos)
  case (Suc n)
  define r where "r = ts5_properties len data n (Suc (pos + unat (data ! pos)))"
  have "r \<noteq> Inl LicensePanic" unfolding r_def by (rule Suc.IH)
  then show ?case by (cases r) (auto simp: Let_def r_def [symmetric])
qed simp

lemma inner_license_end:
  assumes "inner_license len t b data = Inr (ps, n)"
  shows "n \<le> length data"
proof (cases t)
  case Ts5Server
  then obtain qs where "ts5_properties len data (unat (data ! 1)) 2 = Inr (qs, n)" "2 \<le> length data"
    using assms by (auto simp: inner_license_def and_then_eq_Inr split: if_splits)
  then show ?thesis by (rule ts5_properties_end)
qed (use assms zero_position_less [of "drop 4 data"] zero_position_less [of "drop 5 data"] in
  \<open>auto simp: inner_license_def and_then_eq_Inr ok_or_eq_Inr split: if_splits dest!: zero_position_less\<close>)

lemma inner_license_no_panic: "inner_license len t b data \<noteq> Inl LicensePanic"
proof (cases t)
  case Ts5Server
  then show ?thesis using ts5_properties_no_panic [of len data "unat (data ! 1)" 2]
    by (auto simp: inner_license_def and_then_def split: sum.splits)
qed (auto simp: inner_license_def and_then_def ok_or_def split: option.splits)

lemma license_parse_len:
  "license_parse data = Inr l \<Longrightarrow> BLOCK_MIN_LEN \<le> lic_len l \<and> lic_len l \<le> length data"
  by (auto simp: license_parse_def Let_def and_then_eq_Inr split: if_splits dest!: inner_license_end)

lemma license_parse_no_panic: "license_parse data \<noteq> Inl LicensePanic"
  using inner_license_no_panic
  by (auto simp: license_parse_def Let_def and_then_def ok_or_def split: sum.splits option.splits)

lemma get_timestamp_ok: "off + 4 \<le> length data \<Longrightarrow> \<exists>t. get_timestamp data off = Inr t"
  by (simp add: get_timestamp_def read_be32_def)

lemma timestamps_ok:
  assumes "42 \<le> length data"
  obtains since until where "get_not_valid_before data = Inr since" "get_not_valid_after data = Inr until"
  using get_timestamp_ok [of 34 data] get_timestamp_ok [of 38 data] assms that
  by (auto simp: get_not_valid_before_def get_not_valid_after_def block_offsets)

text \<open>The slice of a block that was parsed, with its times.\<close>

lemma parse_block_cases:
  obtains e where "parse_block check now bounds data = (Inl e :: ('s license \<times> time_bounds) lresult)" "e \<noteq> LicensePanic"
  | l :: "'s license" and since until where "license_parse data = Inr l" "42 \<le> lic_len l" "lic_len l \<le> length data"
      "get_not_valid_before (take (lic_len l) data) = Inr since"
      "get_not_valid_after (take (lic_len l) data) = Inr until"
      "parse_block check now bounds data =
        (if check \<and> (now < since \<or> until < now) then Inl (Expired since until)
         else (case bounds of None \<Rightarrow> Inr (l, (since, until))
           | Some (start, stop) \<Rightarrow> if since < start \<or> stop < until then Inl (OutOfBounds start stop since until)
               else Inr (l, (since, until))))"
proof (cases "license_parse data :: 's license lresult")
  case (Inl e)
  then have "parse_block check now bounds data = (Inl e :: ('s license \<times> time_bounds) lresult)" "e \<noteq> LicensePanic"
    using license_parse_no_panic [of data, where ?'a = 's] by (auto simp: parse_block_def)
  then show ?thesis by (rule that(1))
next
  case (Inr l)
  have len: "42 \<le> lic_len l" "lic_len l \<le> length data"
    using license_parse_len [OF Inr] by (simp_all add: block_offsets)
  then obtain since until where t: "get_not_valid_before (take (lic_len l) data) = Inr since"
    "get_not_valid_after (take (lic_len l) data) = Inr until"
    using timestamps_ok [of "take (lic_len l) data"] by auto
  have "parse_block check now bounds data =
        (if check \<and> (now < since \<or> until < now) then Inl (Expired since until)
         else (case bounds of None \<Rightarrow> Inr (l, (since, until))
           | Some (start, stop) \<Rightarrow> if since < start \<or> stop < until then Inl (OutOfBounds start stop since until)
               else Inr (l, (since, until))))"
    using Inr len t by (auto simp: parse_block_def data_slice_def slice_def split: option.split)
  then show ?thesis using that(2) Inr len t by blast
qed

lemma parse_blocks_no_panic: "parse_blocks check now bounds (blocks :: 's license list) rest \<noteq> Inl LicensePanic"
proof (induction check now bounds blocks rest rule: parse_blocks.induct)
  case (1 check now bounds blocks rest)
  show ?case
  proof (cases "rest = [] \<or> 8 \<le> length blocks")
    case True
    then show ?thesis by (subst parse_blocks.simps) auto
  next
    case False
    show ?thesis
    proof (cases rule: parse_block_cases [where 's = 's, of check now bounds rest])
      case (1 e)
      then show ?thesis using False by (subst parse_blocks.simps) simp
    next
      case (2 l since until)
      then show ?thesis using False "1.IH"
        by (subst parse_blocks.simps) (auto split: option.splits)
    qed
  qed
qed

text \<open>Whatever bytes are given as a license, only the empty list makes parsing panic.\<close>

theorem license_parsing_panics_iff_empty:
  "parse_internal data check_expired now = (Inl LicensePanic :: 's licenses lresult) \<longleftrightarrow> data = []"
proof (cases data)
  case (Cons version rest)
  have "parse_blocks check_expired now None [] rest \<noteq> (Inl LicensePanic :: 's license list lresult)"
    by (rule parse_blocks_no_panic)
  then show ?thesis using Cons by (auto simp: parse_internal_def and_then_def split: sum.split)
qed (simp add: parse_internal_def)

section \<open>Nested time bounds\<close>

fun cut_blocks :: "'s license list \<Rightarrow> u8 list \<Rightarrow> u8 list list" where
  "cut_blocks [] data = []"
| "cut_blocks (l # ls) data = take (lic_len l) data # cut_blocks ls (drop (lic_len l) data)"

definition block_bounds :: "u8 list \<Rightarrow> time_bounds \<Rightarrow> bool" where
  "block_bounds d b \<longleftrightarrow> get_not_valid_before d = Inr (fst b) \<and> get_not_valid_after d = Inr (snd b)"

definition within :: "time_bounds \<Rightarrow> time_bounds \<Rightarrow> bool" where
  "within outer inner \<longleftrightarrow> fst outer \<le> fst inner \<and> snd inner \<le> snd outer"

lemma parse_blocks_spec:
  "parse_blocks check now bounds (blocks :: 's license list) rest = Inr all \<Longrightarrow> length blocks \<le> 8
    \<Longrightarrow> \<exists>ls bs. all = blocks @ ls \<and> length all \<le> 8 \<and> sum_list (map lic_len ls) = length rest
      \<and> list_all2 block_bounds (cut_blocks ls rest) bs
      \<and> (\<forall>b\<in>set bs. case bounds of None \<Rightarrow> True | Some outer \<Rightarrow> within outer b)
      \<and> sorted_wrt within bs \<and> (check \<longrightarrow> (\<forall>b\<in>set bs. fst b \<le> now \<and> now \<le> snd b))"
proof (induction check now bounds blocks rest arbitrary: all rule: parse_blocks.induct)
  case (1 check now bounds blocks rest)
  show ?case
  proof (cases "rest = []")
    case True
    then have "all = blocks" using "1.prems" by (subst (asm) parse_blocks.simps) simp
    then show ?thesis using True "1.prems" by (intro exI [of _ "[]"]) simp
  next
    case False
    have few: "\<not> 8 \<le> length blocks" using "1.prems" False by (subst (asm) parse_blocks.simps) (auto split: if_splits)
    show ?thesis
    proof (cases rule: parse_block_cases [where 's = 's, of check now bounds rest])
      case (1 e)
      then show ?thesis using "1.prems" False few by (subst (asm) parse_blocks.simps) simp
    next
      case (2 l since until)
      have ok: "parse_block check now bounds rest = Inr (l, (since, until))"
        using "1.prems"(1) False few 2(6)
        by (subst (asm) (1) parse_blocks.simps) (auto split: option.splits if_splits)
      then have here: "check \<longrightarrow> since \<le> now \<and> now \<le> until"
        "case bounds of None \<Rightarrow> True | Some outer \<Rightarrow> within outer (since, until)"
        using 2(6) by (auto simp: within_def split: if_splits option.splits)
      have "parse_blocks check now (Some (since, until)) (blocks @ [l]) (drop (lic_len l) rest) = Inr all"
        using "1.prems"(1) False few ok by (subst (asm) parse_blocks.simps) simp
      then obtain ls bs where h: "all = (blocks @ [l]) @ ls" "length all \<le> 8"
        "sum_list (map lic_len ls) = length (drop (lic_len l) rest)"
        "list_all2 block_bounds (cut_blocks ls (drop (lic_len l) rest)) bs"
        "\<forall>b\<in>set bs. within (since, until) b" "sorted_wrt within bs"
        "check \<longrightarrow> (\<forall>b\<in>set bs. fst b \<le> now \<and> now \<le> snd b)"
        using "1.IH" [OF False few ok refl] few by auto
      have trans: "within outer b" if "within outer (since, until)" "within (since, until) b" for outer b
        using that by (auto simp: within_def)
      have first: "block_bounds (take (lic_len l) rest) (since, until)" using 2(4,5) by (simp add: block_bounds_def)
      show ?thesis
        by (rule exI [of _ "l # ls"], rule exI [of _ "(since, until) # bs"])
          (use h here 2(3) trans first in \<open>auto split: option.splits\<close>)
    qed
  qed
qed

text \<open>C30. A license that is accepted consists of at most eight blocks that fill its data, every block is valid
  only within the times of the blocks before it, and, unless expired licenses are allowed, each of
  them is valid now.
\<close>

theorem accepted_license_is_nested:
  assumes "parse_internal data check_expired now = Inr ls"
  shows "lics_data ls = data \<and> length (lics_blocks ls) \<le> 8
    \<and> sum_list (map lic_len (lics_blocks ls)) + 1 = length data
    \<and> (\<exists>bs. list_all2 block_bounds (cut_blocks (lics_blocks ls) (drop 1 data)) bs \<and> sorted_wrt within bs
      \<and> (check_expired \<longrightarrow> (\<forall>b\<in>set bs. fst b \<le> now \<and> now \<le> snd b)))"
proof -
  obtain version rest where data: "data = version # rest"
    using assms by (cases data) (simp_all add: parse_internal_def)
  then obtain blocks where b: "parse_blocks check_expired now None [] rest = Inr blocks"
    "ls = \<lparr>lics_data = data, lics_blocks = blocks\<rparr>"
    using assms by (auto simp: parse_internal_def and_then_eq_Inr split: if_splits)
  from parse_blocks_spec [OF b(1)] b(2) data show ?thesis by auto
qed

section \<open>The keys of a chain\<close>

text \<open>
  Documented behaviour of the curve: the scalars act on the group of points, and multiplication of the
  base point is a homomorphism.
\<close>

definition curve_ok :: "('p, 's) curve \<Rightarrow> bool" where
  "curve_ok cv \<longleftrightarrow> (\<forall>a b. base_mul cv (scalar_add cv a b) = point_add cv (base_mul cv a) (base_mul cv b))
     \<and> (\<forall>a b. base_mul cv (scalar_mul cv a b) = point_mul cv (base_mul cv a) b)"

text \<open>Every block holds the public key of its private key.\<close>

fun keys_match :: "('p, 's) curve \<Rightarrow> u8 list \<Rightarrow> nat \<Rightarrow> 's license list \<Rightarrow> bool" where
  "keys_match cv data offset [] = True"
| "keys_match cv data offset (l # ls) \<longleftrightarrow>
     (\<exists>k. lic_private_key l = Some k \<and> 33 \<le> lic_len l \<and> offset + lic_len l \<le> length data
       \<and> decompress_point cv (slice 1 33 (slice offset (offset + lic_len l) data)) = Some (base_mul cv k))
     \<and> keys_match cv data (offset + lic_len l) ls"

lemma key_loops_agree:
  assumes "curve_ok cv"
  shows "keys_match cv data offset ls \<Longrightarrow> \<exists>k. private_key_loop cv data 0 offset ls key = Inr k
    \<and> public_key_loop cv data offset ls (base_mul cv key) = Inr (base_mul cv k)"
proof (induction ls arbitrary: offset key)
  case (Cons l ls)
  define d where "d = slice offset (offset + lic_len l) data"
  obtain k where k: "lic_private_key l = Some k" "33 \<le> lic_len l" "offset + lic_len l \<le> length data"
    "decompress_point cv (slice 1 33 d) = Some (base_mul cv k)"
    using Cons.prems by (auto simp: d_def)
  have len: "length d = lic_len l" using k(3) by (simp add: d_def slice_def)
  have "d \<noteq> []" using k(2) len by auto
  then obtain h where h: "get_hash_key cv d = Inr h" by (simp add: get_hash_key_def)
  define key' where "key' = scalar_add cv (scalar_mul cv k h) key"
  have "block_private_key cv l d key = Inr key'" using k(1) h by (simp add: block_private_key_def key'_def)
  moreover have "block_public_key cv d (base_mul cv key) = Inr (base_mul cv key')"
    using assms k(2,4) h len
    by (simp add: block_public_key_def get_public_key_def data_slice_def key'_def curve_ok_def)
  moreover have "keys_match cv data (offset + lic_len l) ls" using Cons.prems by simp
  ultimately show ?case using Cons.IH [of "offset + lic_len l" key'] k(3)
    by (simp add: data_slice_def d_def [symmetric])
qed simp

text \<open>C31. The private key derived along a chain whose blocks hold private keys is the private key of the public
  key that everybody else derives from the root key.
\<close>

theorem derived_keys_belong_together:
  assumes "curve_ok cv" "decompress_point cv root = Some (base_mul cv root_key)"
    "keys_match cv (lics_data ls) 1 (lics_blocks ls)"
  shows "\<exists>k. derive_private_key cv ls 0 root_key = Inr k \<and> derive_public_key cv ls root = Inr (base_mul cv k)"
  using key_loops_agree [OF assms(1,3), of root_key] assms(2)
  by (auto simp: derive_private_key_def derive_public_key_def)

section \<open>Properties of \<open>Ts5Server\<close> blocks\<close>

text \<open>
  The length of a property counts its identifier and its type, but it is compared with the size of the
  value alone: an integer as the builder writes it, with length 6, is refused.
\<close>

lemma ts5_integers_are_refused:
  assumes "off = BLOCK_MIN_LEN + 2 + p" "off + 2 < length data" "data ! off = 6" "data ! (off + 2) = 1"
  shows "get_property data p = Inl (WrongPropertyLength (data ! (off + 1)) 1 4 6)"
  using assms by (simp add: get_property_def Let_def nth_opt_def check_property_def)

lemma max_clients_property:
  "get_property data p = Inr (MaxClients n) \<Longrightarrow> data ! (BLOCK_MIN_LEN + 2 + p) = 4 \<and> data ! (BLOCK_MIN_LEN + 2 + p + 1) = 3"
  by (auto simp: get_property_def Let_def nth_opt_def and_then_eq_Inr check_property_def split: if_splits)

lemma ts5_max_clients_is_never_found:
  assumes "\<forall>p\<in>set ps. let off = BLOCK_MIN_LEN + 2 + p in off + unat (data ! off) < length data \<and> 2 \<le> data ! off
      \<and> (data ! (off + 1) = 3 \<longrightarrow> data ! off = 6 \<and> data ! (off + 2) = 1)
      \<and> get_property data p \<noteq> Inl LicensePanic"
  shows "find_property max_clients_of w data ps = Inl (NoSuchProperty w)"
  using assms
proof (induction ps)
  case (Cons p ps)
  define off where "off = BLOCK_MIN_LEN + 2 + p"
  have p: "off + unat (data ! off) < length data" "2 \<le> data ! off"
    "data ! (off + 1) = 3 \<Longrightarrow> data ! off = 6 \<and> data ! (off + 2) = 1" "get_property data p \<noteq> Inl LicensePanic"
    using Cons.prems by (simp_all add: off_def Let_def)
  have "get_property data p = Inr v \<Longrightarrow> max_clients_of v = None" for v
    using p(3) max_clients_property [of data p] unfolding off_def [symmetric]
    by (auto simp: max_clients_of_def split: license_property.split)
  then show ?case using Cons p(4)
    by (cases "get_property data p") (auto split: license_error.split)
qed simp

text \<open>A property that ends with the data is taken for cut off, so such a block cannot be the last one.\<close>

lemma last_ts5_block_is_refused:
  assumes "2 \<le> length data" "data ! 1 = 1" "3 < length data" "length data = 3 + unat (data ! 2)"
  shows "inner_license n Ts5Server 8 data = Inl (TooShort n ''cut off TS5 license property'')"
  using assms by (simp add: inner_license_def Let_def eval_nat_numeral)

text \<open>A property shorter than its identifier and its type is accepted, and reading it panics.\<close>

lemma short_property_panics:
  assumes "off = BLOCK_MIN_LEN + 2 + p" "off + 2 < length data" "data ! off = 1" "data ! (off + 1) = 9"
    "data ! (off + 2) = 7"
  shows "get_property data p = Inl LicensePanic"
  using assms by (simp add: get_property_def Let_def nth_opt_def check_property_def data_slice_def)

section \<open>Building and parsing\<close>

lemma slice_parts: "slice a b (xs @ ys @ zs) = ys" if "a = length xs" "b = length xs + length ys"
  using that by (simp add: slice_def)

text \<open>A server block with its fields, in the order of the layout.\<close>

definition server_block :: "u8 list \<Rightarrow> u32 \<Rightarrow> u32 \<Rightarrow> u8 \<Rightarrow> u32 \<Rightarrow> u8 list \<Rightarrow> u8 list" where
  "server_block key t0 t1 lt n bs =
     0 # key @ 2 # be_bytes 4 t0 @ be_bytes 4 t1 @ lt # be_bytes 4 n @ bs @ [0]"

lemma server_block_parses:
  assumes "length key = 32" "0 \<notin> set bs"
  shows "license_parse (server_block key t0 t1 lt n bs @ rest)
      = Inr \<lparr>lic_len = length (server_block key t0 t1 lt n bs), lic_private_key = None, lic_properties = None\<rparr>"
proof -
  define d where "d = lt # be_bytes 4 n @ bs @ [0] @ rest"
  have split: "server_block key t0 t1 lt n bs @ rest = (0 # key @ 2 # be_bytes 4 t0 @ be_bytes 4 t1) @ d"
    by (simp add: server_block_def d_def)
  have pos: "zero_position (drop 5 d) = Some (length bs)"
  proof -
    have "drop 5 d = bs @ 0 # rest" by (simp add: d_def)
    moreover have "takeWhile (\<lambda>b. b \<noteq> 0) (bs @ 0 # rest) = bs"
      using assms(2) by (subst takeWhile_tail) (auto simp: takeWhile_eq_all_conv)
    ultimately show ?thesis by (simp add: zero_position_def Let_def)
  qed
  have "license_parse (server_block key t0 t1 lt n bs @ rest)
      = and_then (inner_license (length (server_block key t0 t1 lt n bs @ rest)) ServerBlock 2 d) (\<lambda>(ps, extra_len).
          Inr \<lparr>lic_len = 42 + extra_len, lic_private_key = None, lic_properties = ps\<rparr>)"
    unfolding split using assms(1)
    by (simp add: license_parse_def block_offsets nth_append block_type_from_u8_def)
  also have "inner_license (length (server_block key t0 t1 lt n bs @ rest)) ServerBlock 2 d = Inr (None, 6 + length bs)"
    using pos by (simp add: inner_license_def d_def)
  finally show ?thesis using assms(1) by (simp add: server_block_def)
qed

lemma copy_at:
  assumes "data = a @ ys @ c" "off = length a" "length ys = length bs"
  shows "copy_into off bs data = Some (a @ bs @ c)"
  using assms by (simp add: copy_into_def)

text \<open>A server block, written with the calls of the builder.\<close>

definition build_server ::
    "u8 list \<Rightarrow> int \<Rightarrow> int \<Rightarrow> u8 \<Rightarrow> u32 \<Rightarrow> rstr \<Rightarrow> u8 list \<Rightarrow> u8 list option" where
  "build_server key since until lt n s data = (let (data, b) = add_block ServerBlock data in do {
     data \<leftarrow> build_public_key key b data;
     data \<leftarrow> build_not_valid_before since b data;
     data \<leftarrow> build_not_valid_after until b data;
     data \<leftarrow> build_license_type lt b data;
     data \<leftarrow> build_max_clients n b data;
     build_issuer s b data
   })"

lemma build_server_layout:
  assumes "length key = 32" "0 \<notin> set s"
  shows "build_server key since until lt n s data = Some (data @ server_block key
    (word_of_int (since - TIMESTAMP_OFFSET)) (word_of_int (until - TIMESTAMP_OFFSET)) lt n (utf8_encode s))"
proof -
  define r0 :: "nat \<Rightarrow> u8 list" where "r0 k = replicate k 0" for k
  have r0 [simp]: "length (r0 k) = k" for k by (simp add: r0_def)
  have r0_app: "r0 j @ r0 k = r0 (j + k)" for j k by (simp add: r0_def replicate_add)
  define b where "b = \<lparr>bb_offset = length data, bb_typ = ServerBlock\<rparr>"
  define t0 where "t0 = be_bytes 4 (word_of_int (since - TIMESTAMP_OFFSET) :: u32)"
  define t1 where "t1 = be_bytes 4 (word_of_int (until - TIMESTAMP_OFFSET) :: u32)"
  have len [simp]: "length t0 = 4" "length t1 = 4" by (simp_all add: t0_def t1_def)
  have nb: "be_bytes 4 n = take 4 (be_bytes 4 n)" by simp
  have start: "add_block ServerBlock data
      = ((data @ [0]) @ r0 32 @ (2 # r0 4 @ r0 4 @ [0] @ r0 4 @ [0]), b)"
  proof -
    have "replicate 48 (0 :: u8) = (0 # r0 32) @ 0 # r0 14"
      unfolding r0_def by (simp add: replicate_app_Cons_same flip: replicate_Suc replicate_add)
    moreover have "r0 14 = r0 4 @ r0 4 @ [0] @ r0 4 @ [0]" by (simp add: r0_def eval_nat_numeral)
    ultimately show ?thesis
      by (simp add: add_block_def min_len_def block_offsets b_def list_update_append)
  qed
  have 1: "build_public_key key b ((data @ [0]) @ r0 32 @ (2 # r0 4 @ r0 4 @ [0] @ r0 4 @ [0]))
      = Some ((data @ [0] @ key @ [2]) @ r0 4 @ (r0 4 @ [0] @ r0 4 @ [0]))"
    unfolding build_public_key_def by (subst copy_at [OF refl]) (use assms in \<open>simp_all add: b_def\<close>)
  have 2: "build_not_valid_before since b ((data @ [0] @ key @ [2]) @ r0 4 @ (r0 4 @ [0] @ r0 4 @ [0]))
      = Some ((data @ [0] @ key @ [2] @ t0) @ r0 4 @ ([0] @ r0 4 @ [0]))"
    unfolding build_not_valid_before_def write_timestamp_def t0_def [symmetric]
    by (subst copy_at [OF refl]) (use assms in \<open>simp_all add: b_def block_offsets\<close>)
  have 3: "build_not_valid_after until b ((data @ [0] @ key @ [2] @ t0) @ r0 4 @ ([0] @ r0 4 @ [0]))
      = Some ((data @ [0] @ key @ [2] @ t0 @ t1) @ [0] @ (r0 4 @ [0]))"
    unfolding build_not_valid_after_def write_timestamp_def t1_def [symmetric]
    by (subst copy_at [OF refl]) (use assms in \<open>simp_all add: b_def block_offsets\<close>)
  have 4: "build_license_type lt b ((data @ [0] @ key @ [2] @ t0 @ t1) @ [0] @ (r0 4 @ [0]))
      = Some ((data @ [0] @ key @ [2] @ t0 @ t1 @ [lt]) @ r0 4 @ [0])"
    unfolding build_license_type_def by (subst copy_at [OF refl]) (use assms in \<open>simp_all add: b_def block_offsets\<close>)
  have 5: "build_max_clients n b ((data @ [0] @ key @ [2] @ t0 @ t1 @ [lt]) @ r0 4 @ [0])
      = Some ((data @ [0] @ key @ [2] @ t0 @ t1 @ [lt] @ be_bytes 4 n) @ [0])"
  proof -
    have "copy_into (43 + length data) (be_bytes 4 n) ((data @ [0] @ key @ [2] @ t0 @ t1 @ [lt]) @ r0 4 @ [0])
        = Some ((data @ [0] @ key @ [2] @ t0 @ t1 @ [lt]) @ be_bytes 4 n @ [0])"
      by (rule copy_at [OF refl]) (use assms in simp_all)
    then show ?thesis by (simp add: build_max_clients_def b_def block_offsets)
  qed
  have 6: "build_issuer s b ((data @ [0] @ key @ [2] @ t0 @ t1 @ [lt] @ be_bytes 4 n) @ [0])
      = Some ((data @ [0] @ key @ [2] @ t0 @ t1 @ [lt] @ be_bytes 4 n) @ utf8_encode s @ [0])"
  proof -
    define a where "a = data @ [0] @ key @ [2] @ t0 @ t1 @ [lt] @ be_bytes 4 n"
    have a: "length a = length data + 47" using assms(1) by (simp add: a_def)
    define bs where "bs = utf8_encode s"
    have "[0] @ replicate (length bs) 0 = replicate (length bs) (0 :: u8) @ [0]"
      by (simp add: replicate_append_same)
    then have "copy_into (length a) bs (a @ [0] @ replicate (length bs) 0) = Some (a @ bs @ [0])"
      by (intro copy_at [where ys = "replicate (length bs) 0"]) simp_all
    then have "build_issuer s b (a @ [0]) = Some (a @ bs @ [0])"
      using a assms(2)
      by (simp add: build_issuer_def Let_def b_def min_len_def block_offsets bs_def [symmetric] add.commute)
    then show ?thesis unfolding a_def bs_def .
  qed
  show ?thesis
    unfolding build_server_def start Let_def prod.case 1 bind.bind_lunit 2 3 4 5 6
    by (simp add: server_block_def t0_def t1_def)
qed

lemma timestamp_round_trip:
  assumes "TIMESTAMP_OFFSET \<le> t" "t < TIMESTAMP_OFFSET + 2 ^ 32" "off = length a"
  shows "get_timestamp (a @ be_bytes 4 (word_of_int (t - TIMESTAMP_OFFSET) :: u32) @ c) off = Inr t"
proof -
  define i where "i = t - TIMESTAMP_OFFSET"
  have i: "0 \<le> i" "i < 2 ^ 32" using assms(1,2) by (simp_all add: i_def)
  then have "uint (word_of_int i :: u32) = i" by (simp add: uint_word_of_int)
  then show ?thesis using assms(3) unfolding i_def [symmetric] by (simp add: get_timestamp_def) (simp add: i_def)
qed

lemma server_block_reads:
  assumes "length key = 32" "\<forall>c\<in>set s. scalar_value c" "blk = server_block key t0 t1 lt n (utf8_encode s)"
    "lic_len l = length blk"
  shows "get_type blk = Inr ServerBlock"
    "get_license_type known blk = (if known lt then Inr lt else Inl (UnknownLicenseType lt))"
    "get_max_clients l blk = Inr n" "get_issuer l blk = Inr s"
proof -
  have blk: "blk = (0 # key @ 2 # be_bytes 4 t0 @ be_bytes 4 t1) @ lt # be_bytes 4 n @ utf8_encode s @ [0]"
    using assms(3) by (simp add: server_block_def)
  have len: "length blk = 48 + length (utf8_encode s)" using assms(1) by (simp add: blk)
  show ty: "get_type blk = Inr ServerBlock"
    using assms(1) by (simp add: get_type_def blk nth_opt_def block_offsets nth_append block_type_from_u8_def)
  have lt: "nth_opt blk 42 = Some lt" using assms(1) by (simp add: blk nth_opt_def nth_append)
  then show "get_license_type known blk = (if known lt then Inr lt else Inl (UnknownLicenseType lt))"
    by (simp add: get_license_type_def ty block_offsets)
  have "slice 43 47 blk = be_bytes 4 n"
    using slice_parts [of 43 "0 # key @ 2 # be_bytes 4 t0 @ be_bytes 4 t1 @ [lt]" 47 "be_bytes 4 n" "utf8_encode s @ [0]"]
      assms(1) by (simp add: blk)
  then have "data_slice 43 47 blk = Inr (be_bytes 4 n)" using len by (simp add: data_slice_def)
  moreover have "read_be32 (be_bytes 4 n) = Some n" using read_be_append(2) [of n "[]"] by simp
  ultimately show "get_max_clients l blk = Inr n"
    by (simp add: get_max_clients_def ty block_offsets)
  have "slice 47 (47 + length (utf8_encode s)) blk = utf8_encode s"
    using slice_parts [of 47 "0 # key @ 2 # be_bytes 4 t0 @ be_bytes 4 t1 @ lt # be_bytes 4 n"
      "47 + length (utf8_encode s)" "utf8_encode s" "[0]"] assms(1) by (simp add: blk)
  then have "data_slice 47 (47 + length (utf8_encode s)) blk = Inr (utf8_encode s)"
    using len by (simp add: data_slice_def)
  then show "get_issuer l blk = Inr s"
    using assms(2,4) len utf8_decode_encode
    by (simp add: get_issuer_def ty issuer_offset_def block_offsets)
qed

text \<open>A server block written with the builder is parsed, whatever follows it, and gives back its times, its
  license type, its number of clients and its issuer.
\<close>

theorem server_license_round_trip:
  assumes "length key = 32" "\<forall>c\<in>set s. scalar_value c \<and> c \<noteq> 0"
    "TIMESTAMP_OFFSET \<le> since" "since < TIMESTAMP_OFFSET + 2 ^ 32"
    "TIMESTAMP_OFFSET \<le> until" "until < TIMESTAMP_OFFSET + 2 ^ 32"
  shows "\<exists>blk l. build_server key since until lt n s data = Some (data @ blk)
    \<and> license_parse (blk @ rest) = Inr l \<and> lic_len l = length blk
    \<and> get_not_valid_before blk = Inr since \<and> get_not_valid_after blk = Inr until
    \<and> get_license_type known blk = (if known lt then Inr lt else Inl (UnknownLicenseType lt))
    \<and> get_max_clients l blk = Inr n \<and> get_issuer l blk = Inr s"
proof -
  define blk where "blk = server_block key (word_of_int (since - TIMESTAMP_OFFSET))
    (word_of_int (until - TIMESTAMP_OFFSET)) lt n (utf8_encode s)"
  define l where "l = \<lparr>lic_len = length blk, lic_private_key = None :: 'a option, lic_properties = None\<rparr>"
  have s: "0 \<notin> set s" "\<forall>c\<in>set s. scalar_value c" using assms(2) by auto
  have "build_server key since until lt n s data = Some (data @ blk)"
    unfolding blk_def by (rule build_server_layout [OF assms(1) s(1)])
  moreover have "license_parse (blk @ rest) = Inr l"
    unfolding blk_def l_def by (rule server_block_parses [OF assms(1) zero_free_encode [OF assms(2)]])
  moreover have "get_not_valid_before blk = Inr since"
    using timestamp_round_trip [OF assms(3,4), of 34 "0 # key @ [2]"] assms(1)
    by (simp add: get_not_valid_before_def blk_def server_block_def block_offsets)
  moreover have "get_not_valid_after blk = Inr until"
    using timestamp_round_trip [OF assms(5,6), of 38
      "0 # key @ 2 # be_bytes 4 (word_of_int (since - TIMESTAMP_OFFSET) :: u32)"] assms(1)
    by (simp add: get_not_valid_after_def blk_def server_block_def block_offsets)
  moreover have "lic_len l = length blk" by (simp add: l_def)
  ultimately show ?thesis
    using server_block_reads [OF assms(1) s(2) blk_def, of l] by blast
qed

section \<open>Examples\<close>

text \<open>An ephemeral block, valid for one second.\<close>

definition sample_block :: "u8 list" where
  "sample_block = [0] @ replicate 32 1 @ [32] @ replicate 8 0"

lemma sample_block_parses:
  "license_parse sample_block = Inr \<lparr>lic_len = 42, lic_private_key = None, lic_properties = None\<rparr>"
  by (simp add: license_parse_def sample_block_def block_offsets nth_append block_type_from_u8_def inner_license_def)

lemma sample_block_times:
  "get_not_valid_before sample_block = Inr TIMESTAMP_OFFSET" "get_not_valid_after sample_block = Inr TIMESTAMP_OFFSET"
  by (simp_all add: get_not_valid_before_def get_not_valid_after_def get_timestamp_def sample_block_def block_offsets
    read_be32_def be_word_def numeral_nat)

lemma accepted_license_is_nested_witness:
  "\<exists>ls :: int licenses. parse_internal (1 # sample_block) True TIMESTAMP_OFFSET = Inr ls
    \<and> sum_list (map lic_len (lics_blocks ls)) + 1 = length (1 # sample_block)"
proof -
  have len: "length sample_block = 42" "sample_block \<noteq> []" by (simp_all add: sample_block_def)
  have "parse_block True TIMESTAMP_OFFSET None sample_block
      = Inr (\<lparr>lic_len = 42, lic_private_key = None :: int option, lic_properties = None\<rparr>,
          (TIMESTAMP_OFFSET, TIMESTAMP_OFFSET))"
    using len by (simp add: parse_block_def sample_block_parses data_slice_def slice_def sample_block_times)
  then have "parse_internal (1 # sample_block) True TIMESTAMP_OFFSET = Inr \<lparr>lics_data = 1 # sample_block,
      lics_blocks = [\<lparr>lic_len = 42, lic_private_key = None :: int option, lic_properties = None\<rparr>]\<rparr>"
    using len by (simp add: parse_internal_def parse_blocks.simps)
  then show ?thesis using accepted_license_is_nested by blast
qed

text \<open>The integers as a curve: a point is its own discrete logarithm.\<close>

definition int_curve :: "(int, int) curve" where
  "int_curve = \<lparr>decompress_point = (\<lambda>bs. Some 5), point_mul = (*), point_add = (+), scalar_mul = (*),
     scalar_add = (+), base_mul = (\<lambda>x. x), scalar_of = (\<lambda>bs. 7), sha512_of = (\<lambda>bs. replicate 64 0)\<rparr>"

definition sample_license :: "int licenses" where
  "sample_license = \<lparr>lics_data = 1 # sample_block,
     lics_blocks = [\<lparr>lic_len = 42, lic_private_key = Some 5, lic_properties = None\<rparr>]\<rparr>"

lemma derived_keys_belong_together_witness:
  "\<exists>k. derive_private_key int_curve sample_license 0 5 = Inr k
    \<and> derive_public_key int_curve sample_license [] = Inr (base_mul int_curve k)"
  by (rule derived_keys_belong_together)
    (simp_all add: curve_ok_def int_curve_def sample_license_def sample_block_def)

lemma server_license_round_trip_witness:
  "\<exists>blk l. build_server (replicate 32 1) 1400000000 1500000000 2 32 [84, 8364] [1] = Some ([1] @ blk)
    \<and> license_parse (blk @ []) = Inr (l :: int license) \<and> get_issuer l blk = Inr [84, 8364]"
  using server_license_round_trip [where 'a = int, of "replicate 32 1" "[84, 8364]" 1400000000 1500000000 2 32 "[1]" "[]"
    "\<lambda>_. True"]
  by (auto simp: scalar_value_def TIMESTAMP_OFFSET_def)

end
