(* ===== verification/Connect.thy ===== *)
theory Connect
  imports Handshake LicenseChain
begin

unbundle bit_operations_syntax

text \<open>
  \<open>Client::connect\<close> of \<open>tsproto/src/client.rs\<close> with \<open>utils.rs\<close> and the numbers of \<open>algorithms.rs\<close>: five
  \<open>Init\<close> packets, the puzzle of the server, the license of the server in \<open>initivexpand2\<close> and the
  answer \<open>clientek\<close>. The random values and the time are inputs.
\<close>

section \<open>Addresses\<close>

text \<open>\<open>is_global_ip\<close> of \<open>utils.rs\<close> with the tests of \<open>std::net\<close>.\<close>

fun is_global_ip :: "ip_addr \<Rightarrow> bool" where
  "is_global_ip (V4 a b c d) \<longleftrightarrow>
     \<not> (a = 0 \<and> b = 0 \<and> c = 0 \<and> d = 0) \<and> a \<noteq> 127 \<and> \<not> (224 \<le> a \<and> a \<le> 239)
     \<and> \<not> (a = 255 \<and> b = 255 \<and> c = 255 \<and> d = 255) \<and> \<not> (a = 169 \<and> b = 254)
     \<and> \<not> (a = 10 \<or> (a = 172 \<and> 16 \<le> b \<and> b \<le> 31) \<or> (a = 192 \<and> b = 168))"
| "is_global_ip (V6 gs) \<longleftrightarrow>
     gs \<noteq> replicate 8 0 \<and> gs \<noteq> replicate 7 0 @ [1] \<and> \<not> (gs \<noteq> [] \<and> hd gs AND 0xff00 = 0xff00)"

text \<open>\<open>Display\<close> of an address. The longest run of zero groups, the first one of several, is \<open>::\<close>.\<close>

definition hex_digit :: "nat \<Rightarrow> u8" where
  "hex_digit n = of_nat (if n < 10 then 48 + n else 87 + n)"

fun hex_text :: "nat \<Rightarrow> u8 list" where
  "hex_text n = (if n < 16 then [hex_digit n] else hex_text (n div 16) @ [hex_digit (n mod 16)])"

declare hex_text.simps [simp del]

fun join :: "u8 list \<Rightarrow> u8 list list \<Rightarrow> u8 list" where
  "join sep [] = []"
| "join sep [x] = x"
| "join sep (x # y # xs) = x @ sep @ join sep (y # xs)"

text \<open>The spans are pairs of start and length: the current and the longest one.\<close>

fun longest_zeros :: "nat \<Rightarrow> u16 list \<Rightarrow> nat \<times> nat \<Rightarrow> nat \<times> nat \<Rightarrow> nat \<times> nat" where
  "longest_zeros i [] cur best = best"
| "longest_zeros i (g # gs) (s, n) best =
     (if g = 0
      then (let cur = (if n = 0 then i else s, n + 1) in
        longest_zeros (i + 1) gs cur (if snd best < snd cur then cur else best))
      else longest_zeros (i + 1) gs (0, 0) best)"

definition groups_text :: "u16 list \<Rightarrow> u8 list" where
  "groups_text gs = join (ascii '':'') (map (\<lambda>g. hex_text (unat g)) gs)"

definition ipv4_text :: "u8 \<Rightarrow> u8 \<Rightarrow> u8 \<Rightarrow> u8 \<Rightarrow> u8 list" where
  "ipv4_text a b c d = join (ascii ''.'') (map (\<lambda>o1. decimal (unat o1)) [a, b, c, d])"

fun ip_text :: "ip_addr \<Rightarrow> u8 list" where
  "ip_text (V4 a b c d) = ipv4_text a b c d"
| "ip_text (V6 gs) =
     (if length gs = 8 \<and> take 6 gs = [0, 0, 0, 0, 0, 0xffff]
      then ascii ''::ffff:'' @ ipv4_text (ucast (drop_bit 8 (gs ! 6))) (ucast (gs ! 6))
        (ucast (drop_bit 8 (gs ! 7))) (ucast (gs ! 7))
      else (case longest_zeros 0 gs (0, 0) (0, 0) of (start, n) \<Rightarrow>
        if 1 < n then groups_text (take start gs) @ ascii ''::'' @ groups_text (drop (start + n) gs)
        else groups_text gs))"

section \<open>The puzzle\<close>

definition MAX_PUZZLE_LEVEL :: u32 where "MAX_PUZZLE_LEVEL = 10000000"

text \<open>
  \<open>y = x ^ (2 ^ level) % n\<close> in 64 bytes. \<open>None\<close> is the panic of \<open>modpow\<close> for the modulus zero; the
  length never exceeds 64.
\<close>

definition biguint_to_array :: "int \<Rightarrow> u8 list option" where
  "biguint_to_array i = (let v = big_bytes i in
     if 64 < length v then None else Some (replicate (64 - length v) 0 @ v))"

definition array_to_biguint :: "u8 list \<Rightarrow> int" where
  "array_to_biguint a = big_from a"

definition solve_puzzle :: "u8 list \<Rightarrow> u8 list \<Rightarrow> u32 \<Rightarrow> u8 list option" where
  "solve_puzzle x n level =
     (if big_from n = 0 then None
      else biguint_to_array (big_from x ^ (2 ^ unat level) mod big_from n))"

section \<open>The first five packets\<close>

record 's random_values =
  random0 :: "u8 list"
  alpha :: "u8 list"
  ephemeral :: 's

text \<open>The time is cut to 32 bits; the offset is subtracted with wrap-around.\<close>

definition client_timestamp :: "('q, 'w, 'p, 's) client_env \<Rightarrow> u32" where
  "client_timestamp env = word_of_int (env_unix_now env)"

definition client_version :: "('q, 'w, 'p, 's) client_env \<Rightarrow> u32" where
  "client_version env = client_timestamp env - 1356998400"

definition public_ip_text :: "('q, 'w, 'p, 's) client_env \<Rightarrow> u8 list" where
  "public_ip_text env = (if is_global_ip (env_address env) then ip_text (env_address env) else [])"

definition init2_step :: "('q, 'w, 'p, 's) client_env \<Rightarrow> s2c_init \<Rightarrow> unit hs_run" where
  "init2_step env i = (case i of
      Init1 random1 random0_r \<Rightarrow>
        hs_then (client_send_packet env (out_c2s_init2 (client_version env) random1 random0_r)) (\<lambda>_. hs_return ())
    | _ \<Rightarrow> hs_raise (UnexpectedPacket ''Init1''))"

definition init4_step :: "('q, 'w, 'p, 's) client_env \<Rightarrow> 's random_values \<Rightarrow> s2c_init \<Rightarrow> unit hs_run" where
  "init4_step env rv i = (case i of
      Init3 x n level random2 \<Rightarrow>
        if MAX_PUZZLE_LEVEL < level then hs_raise (RsaPuzzleTooHighLevel level)
        else (case solve_puzzle x n level of
            None \<Rightarrow> hs_raise ClientPanic
          | Some y \<Rightarrow> hs_then (client_send_packet env (out_c2s_init4 (b64_enc (env_keys env)) (client_version env)
                x n level random2 y (alpha rv)
                (pub_to_tomcrypt (env_keys env) (to_pub (env_keys env) (env_private_key env))) (public_ip_text env)))
              (\<lambda>_. hs_return ()))
    | _ \<Rightarrow> hs_raise (UnexpectedPacket ''Init3''))"

text \<open>The loop starts again when the third answer is a restart (127).\<close>

definition init_round :: "('q, 'w, 'p, 's) client_env \<Rightarrow> 's random_values \<Rightarrow> s2c_init hs_run" where
  "init_round env rv =
     hs_then (client_send_packet env (out_c2s_init0 (client_version env) (client_timestamp env) (random0 rv))) (\<lambda>_.
     hs_then (get_init env [1]) (\<lambda>init1.
     hs_then (init2_step env init1) (\<lambda>_. get_init env [3, 127])))"

lemma init_round_rounds:
  assumes "init_round env rv s = (Returned i, s')"
  shows "length (hs_rounds s') < length (hs_rounds s)"
proof -
  obtain pid s1 init1 s2 s3 where r: "client_send_packet env (out_c2s_init0 (client_version env)
        (client_timestamp env) (random0 rv)) s = (Returned pid, s1)"
      "get_init env [1] s1 = (Returned init1, s2)" "init2_step env init1 s2 = (Returned (), s3)"
      "get_init env [3, 127] s3 = (Returned i, s')"
    using assms by (auto simp: init_round_def hs_then_Returned)
  have "hs_rounds s1 = hs_rounds s" using client_send_packet_rounds [of env _ s] r(1) by (metis snd_conv)
  moreover have "hs_rounds s3 = hs_rounds s2"
    using r(3) client_send_packet_rounds [of env _ s2]
    by (auto simp: init2_step_def hs_then_Returned split: s2c_init.splits) (metis snd_conv)
  ultimately show ?thesis using filter_items_rounds r(2,4) unfolding get_init_def
    by (metis less_trans)
qed

function init_loop :: "('q, 'w, 'p, 's) client_env \<Rightarrow> 's random_values \<Rightarrow> unit hs_run" where
  "init_loop env rv s = (case init_round env rv s of
      (Returned i, s) \<Rightarrow> if s2c_step i = 127 then init_loop env rv s else init4_step env rv i s
    | (Raised e, s) \<Rightarrow> (Raised e, s)
    | (Waiting, s) \<Rightarrow> (Waiting, s)
    | (OutOfFuel, s) \<Rightarrow> (OutOfFuel, s))"
  by pat_completeness auto
termination
  by (relation "measure (\<lambda>(env, rv, s). length (hs_rounds s))")
    (auto dest!: sym [of "(Returned _, _)"] init_round_rounds)

declare init_loop.simps [simp del]

section \<open>The license of the server\<close>

record 'q expand2 =
  e_l :: "u8 list option"
  e_beta :: "u8 list option"
  e_omega :: "'q option"
  e_proof :: "u8 list option"
  e_ot :: bool
  e_root :: "u8 list option"

definition expand2_new :: "'q expand2" where
  "expand2_new = \<lparr>e_l = None, e_beta = None, e_omega = None, e_proof = None, e_ot = False, e_root = None\<rparr>"

definition base64_arg :: "('q, 'w) key_crates \<Rightarrow> string \<Rightarrow> arg_value \<Rightarrow> handshake_error + u8 list" where
  "base64_arg kc what v = (case b64_dec kc (arg_get v) of
      None \<Rightarrow> Inl (InvalidBase64Arg what) | Some d \<Rightarrow> Inr d)"

definition omega_arg :: "('q, 'w) key_crates \<Rightarrow> arg_value \<Rightarrow> handshake_error + 'q" where
  "omega_arg kc v =
     (if utf8_decode (arg_get v) = None then Inl InvalidOmegaString
      else case pub_from_ts kc (arg_get v) of
          Inl KeyPanic \<Rightarrow> Inl ClientPanic
        | Inl e \<Rightarrow> Inl (InvalidOmegaKey e)
        | Inr q \<Rightarrow> Inr q)"

definition root_arg :: "('q, 'w) key_crates \<Rightarrow> arg_value \<Rightarrow> handshake_error + u8 list" where
  "root_arg kc v = (case base64_arg kc ''root'' v of
      Inl e \<Rightarrow> Inl e
    | Inr d \<Rightarrow> if length d \<noteq> 32 then Inl (InvalidRootKeyLength (length d)) else Inr d)"

text \<open>\<open>l\<close> and \<open>beta\<close> report the name \<open>proof\<close> too.\<close>

definition expand2_arg :: "('q, 'w) key_crates \<Rightarrow> u8 list \<Rightarrow> arg_value \<Rightarrow> 'q expand2 \<Rightarrow> handshake_error + 'q expand2" where
  "expand2_arg kc name v e =
     (if name = ascii ''l'' then map_sum id (\<lambda>d. e\<lparr>e_l := Some d\<rparr>) (base64_arg kc ''proof'' v)
      else if name = ascii ''beta'' then map_sum id (\<lambda>d. e\<lparr>e_beta := Some d\<rparr>) (base64_arg kc ''proof'' v)
      else if name = ascii ''omega'' then map_sum id (\<lambda>q. e\<lparr>e_omega := Some q\<rparr>) (omega_arg kc v)
      else if name = ascii ''proof'' then map_sum id (\<lambda>d. e\<lparr>e_proof := Some d\<rparr>) (base64_arg kc ''proof'' v)
      else if name = ascii ''ot'' then Inr (e\<lparr>e_ot := (raw v = ascii ''1'')\<rparr>)
      else if name = ascii ''root'' then map_sum id (\<lambda>d. e\<lparr>e_root := Some d\<rparr>) (root_arg kc v)
      else Inr e)"

fun expand2_args :: "('q, 'w) key_crates \<Rightarrow> command_item list \<Rightarrow> 'q expand2 \<Rightarrow> handshake_error + 'q expand2" where
  "expand2_args kc [] e = Inr e"
| "expand2_args kc (NextCommand # items) e = Inl (MultipleCommands ''initivexpand2'')"
| "expand2_args kc (Argument name v # items) e = (case expand2_arg kc name v e of
      Inl er \<Rightarrow> Inl er
    | Inr e \<Rightarrow> expand2_args kc items e)"

definition ROOT_KEY :: "u8 list" where
  "ROOT_KEY = [0xcd, 0x0d, 0xe2, 0xae, 0xd4, 0x63, 0x45, 0x50, 0x9a, 0x7e, 0x3c, 0xfd, 0x8f, 0x68, 0xb3, 0xdc,
     0x75, 0x55, 0xb2, 0x9d, 0xcc, 0xec, 0x73, 0xcd, 0x18, 0x75, 0x0f, 0x99, 0x38, 0x12, 0x40, 0x8a]"

definition license_result :: "'a lresult \<Rightarrow> handshake_error + 'a" where
  "license_result r = (case r of
      Inl LicensePanic \<Rightarrow> Inl ClientPanic | Inl e \<Rightarrow> Inl (ParseLicense e) | Inr x \<Rightarrow> Inr x)"

text \<open>The checks after the loop: \<open>ot\<close>, completeness, the signature of \<open>l\<close>, the length of \<open>beta\<close>.\<close>

definition expand2_checked ::
    "('q, 'w) key_crates \<Rightarrow> 'q expand2 \<Rightarrow> handshake_error + (u8 list \<times> u8 list \<times> 'q \<times> u8 list)" where
  "expand2_checked kc e =
     (if \<not> e_ot e then Inl OutdatedServer
      else case (e_l e, e_beta e, e_omega e, e_proof e) of
          (Some l, Some beta, Some omega, Some proof) \<Rightarrow>
            (case pub_verify kc omega l proof of
                Inl er \<Rightarrow> Inl (InvalidSignature er)
              | Inr _ \<Rightarrow> if length beta \<noteq> 54 then Inl (InvalidBetaLength (length beta))
                  else Inr (l, beta, omega, case e_root e of Some r \<Rightarrow> r | None \<Rightarrow> ROOT_KEY))
        | _ \<Rightarrow> Inl InvalidInitivexpand2)"

text \<open>The key of the server: the whole of \<open>initivexpand2\<close>.\<close>

definition server_key ::
    "('q, 'w, 'p, 's) client_env \<Rightarrow> u8 list \<Rightarrow> u8 list \<Rightarrow> handshake_error + 'p" where
  "server_key env l root_key = (case license_result (licenses_parse l (env_unix_now env)) of
      Inl e \<Rightarrow> Inl e
    | Inr (ls :: 's licenses) \<Rightarrow> license_result (derive_public_key (curve.truncate (env_curve env)) ls root_key))"

definition read_expand2 ::
    "('q, 'w, 'p, 's) client_env \<Rightarrow> u8 list \<Rightarrow> handshake_error + (u8 list \<times> 'q \<times> 'p)" where
  "read_expand2 env content =
     (let (name, rest) = command_parser_new content in
      if name \<noteq> ascii ''initivexpand2'' then Inl (UnexpectedPacket ''initivexpand2'')
      else case expand2_args (env_keys env) (parse_items rest) expand2_new of
          Inl e \<Rightarrow> Inl e
        | Inr e \<Rightarrow> (case expand2_checked (env_keys env) e of
            Inl er \<Rightarrow> Inl er
          | Inr (l, beta, omega, root_key) \<Rightarrow> (case server_key env l root_key of
              Inl er \<Rightarrow> Inl er
            | Inr server_ek \<Rightarrow> Inr (beta, omega, server_ek))))"

section \<open>The answer\<close>

definition session_keys ::
    "('q, 'w, 'p, 's) client_env \<Rightarrow> 's random_values \<Rightarrow> u8 list \<Rightarrow> 'p \<Rightarrow> u8 list \<times> u8 list" where
  "session_keys env rv beta server_ek =
     compute_iv_mac (env_lib env) (alpha rv) beta (ed_shared_secret (env_curve env) (ephemeral rv) server_ek)"

definition clientek ::
    "('q, 'w, 'p, 's) client_env \<Rightarrow> 's random_values \<Rightarrow> u8 list \<Rightarrow> out_packet option" where
  "clientek env rv beta = (let ek = ed_to_pub (env_curve env) (ephemeral rv); kc = env_keys env in
     write_command C2S 0 Command (ascii ''clientek'')
       [WriteArg (ascii ''ek'') (b64_enc kc ek),
        WriteArg (ascii ''proof'') (b64_enc kc (priv_sign kc (env_private_key env) (ek @ beta)))])"

definition set_params :: "u8 list \<times> u8 list \<Rightarrow> unit hs_run" where
  "set_params ivm s = (Returned (), upd_con (\<lambda>con. con\<lparr>con_params := Some (connected_params_new (fst ivm) (snd ivm))\<rparr>) s)"

text \<open>The key of the server, which \<open>connect\<close> keeps in the parameters of the connection, is the result here.\<close>

definition connect_key :: "('q, 'w, 'p, 's) client_env \<Rightarrow> 's random_values \<Rightarrow> 'q hs_run" where
  "connect_key env rv =
     hs_then (init_loop env rv) (\<lambda>_.
     hs_then (get_command env) (\<lambda>command.
     hs_then (hs_lift (read_expand2 env (ip_content command))) (\<lambda>(beta, omega, server_ek).
     hs_then (set_params (session_keys env rv beta server_ek)) (\<lambda>_.
     hs_then (client_send_packet env (clientek env rv beta)) (\<lambda>clientek_id.
     hs_then (wait_for_ack env clientek_id) (\<lambda>_. hs_return omega))))))"

definition connect :: "('q, 'w, 'p, 's) client_env \<Rightarrow> 's random_values \<Rightarrow> unit hs_run" where
  "connect env rv = hs_then (connect_key env rv) (\<lambda>_. hs_return ())"

lemma hs_then_assoc: "hs_then (hs_then m f) g = hs_then m (\<lambda>x. hs_then (f x) g)"
  by (auto simp: hs_then_def fun_eq_iff split: prod.split outcome.split)

lemma hs_then_return: "hs_then m hs_return = m"
  by (auto simp: hs_then_def hs_return_def fun_eq_iff split: prod.split outcome.split)

lemma connect_steps:
  "connect env rv =
     hs_then (init_loop env rv) (\<lambda>_.
     hs_then (get_command env) (\<lambda>command.
     hs_then (hs_lift (read_expand2 env (ip_content command))) (\<lambda>(beta, omega, server_ek).
     hs_then (set_params (session_keys env rv beta server_ek)) (\<lambda>_.
     hs_then (client_send_packet env (clientek env rv beta)) (\<lambda>clientek_id.
     wait_for_ack env clientek_id)))))"
  by (simp add: connect_def connect_key_def hs_then_assoc case_prod_unfold hs_then_return)

end
