(* ===== verification/Resolve.thy ===== *)
theory Resolve
  imports Keys IpAddr "HOL-Library.Multiset"
begin

text \<open>
  The resolver of \<open>tsclientlib/src/resolver.rs\<close>: the address the user types is a literal address, a nickname, the
  name of a service or of a host. \<open>ToSocketAddrs\<close> of the standard library is written out up to the system's lookup of
  names, which is an input like the answers of the DNS, of the nickname service and of tsdns servers. Scopes of IPv6
  addresses are dropped.
\<close>

section \<open>Literal addresses\<close>

type_synonym socket_addr = "ip_addr \<times> u16"

definition DEFAULT_PORT :: u16 where
  "DEFAULT_PORT = 9987"

datatype resolver_error =
    CreateResolver
  | InvalidIp4Address
  | InvalidIp6Address
  | InvalidIpAddress
  | InvalidNickname
  | InvalidPort
  | TsdnsIo nat
  | NicknameParseUrl nat
  | NicknameResolve nat
  | ResolveHost
  | SrvLookup
  | TsdnsAddressInvalidResponse rstr
  | TsdnsAddressNotFound
  | TsdnsParseResponse

datatype parse_ip_result = Addr socket_addr | Other rstr "u16 option"

text \<open>The system's lookup of a host and a port.\<close>

type_synonym host_lookup = "rstr \<Rightarrow> u16 \<Rightarrow> socket_addr list option"

definition parse_port :: "rstr \<Rightarrow> u16 option" where
  "parse_port s = map_option of_nat (parse_unsigned (2 ^ 16) (utf8_encode s))"

text \<open>\<open>str::parse::<SocketAddr>()\<close>: the port has digits only; an IPv6 address may have a scope.\<close>

definition read_port :: "rstr \<Rightarrow> u16 option" where
  "read_port s = (if s \<noteq> [] \<and> list_all is_ascii_digit s then parse_port s else None)"

definition drop_scope :: "rstr \<Rightarrow> rstr option" where
  "drop_scope s = (case read_char 37 s of
      None \<Rightarrow> Some s
    | Some s \<Rightarrow> let ds = takeWhile is_ascii_digit s in
        if parse_unsigned (2 ^ 32) (utf8_encode ds) = None then None else Some (dropWhile is_ascii_digit s))"

definition parse_socket_addr :: "rstr \<Rightarrow> socket_addr option" where
  "parse_socket_addr s =
     (case Option.bind (read_ipv4 s) (\<lambda>((a, b, c, d), rest). Option.bind (read_char 58 rest) (\<lambda>rest.
          map_option (Pair (V4 a b c d)) (read_port rest))) of
        Some a \<Rightarrow> Some a
      | None \<Rightarrow>
          Option.bind (read_char 91 s) (\<lambda>s. Option.bind (read_ipv6 s) (\<lambda>(gs, rest).
          Option.bind (drop_scope rest) (\<lambda>rest. Option.bind (read_char 93 rest) (\<lambda>rest.
          Option.bind (read_char 58 rest) (\<lambda>rest. map_option (Pair (V6 gs)) (read_port rest)))))))"

text \<open>\<open>to_socket_addrs\<close> of a pair and of a text.\<close>

definition pair_addrs :: "host_lookup \<Rightarrow> rstr \<Rightarrow> u16 \<Rightarrow> socket_addr list option" where
  "pair_addrs lookup host port = (case parse_ip host of
      Some ip \<Rightarrow> Some [(ip, port)]
    | None \<Rightarrow> lookup host port)"

definition text_addrs :: "host_lookup \<Rightarrow> rstr \<Rightarrow> socket_addr list option" where
  "text_addrs lookup s = (case parse_socket_addr s of
      Some a \<Rightarrow> Some [a]
    | None \<Rightarrow> Option.bind (rsplit_once 58 s) (\<lambda>(host, port). Option.bind (parse_port port) (lookup host)))"

definition addr_or :: "resolver_error \<Rightarrow> socket_addr list option \<Rightarrow> resolver_error + parse_ip_result" where
  "addr_or e r = (case r of Some (a # _) \<Rightarrow> Inr (Addr a) | _ \<Rightarrow> Inl e)"

definition numeric :: "rstr \<Rightarrow> bool" where
  "numeric s \<longleftrightarrow> list_all (\<lambda>c. is_ascii_digit c \<or> c = 46) s"

text \<open>\<open>parse_ip\<close> of the resolver.\<close>

definition parse_address :: "host_lookup \<Rightarrow> rstr \<Rightarrow> resolver_error + parse_ip_result" where
  "parse_address lookup address = (case rsplit_once 58 address of
      None \<Rightarrow>
        if numeric address then addr_or InvalidIp4Address (pair_addrs lookup address DEFAULT_PORT)
        else Inr (Other address None)
    | Some (before, after) \<Rightarrow>
        if 58 \<notin> set before then
          (if numeric before then addr_or InvalidIp4Address (text_addrs lookup address)
           else (case parse_port after of
               None \<Rightarrow> Inl InvalidPort
             | Some port \<Rightarrow> Inr (Other before (Some port))))
        else if 93 \<in> set address then
          (if 93 \<notin> set after then addr_or InvalidIp6Address (text_addrs lookup address)
           else if last address = 93 \<and> hd address = 91
           then addr_or InvalidIp6Address (pair_addrs lookup (butlast (tl address)) DEFAULT_PORT)
           else Inl InvalidIpAddress)
        else addr_or InvalidIp6Address (pair_addrs lookup address DEFAULT_PORT))"

section \<open>Services\<close>

record srv_record =
  srv_priority :: u16
  srv_weight :: u16
  srv_port :: u16
  srv_target :: rstr

text \<open>Neighbours of the same priority form a group.\<close>

fun chunk_by_priority :: "srv_record list \<Rightarrow> (u16 \<times> srv_record list) list" where
  "chunk_by_priority [] = []"
| "chunk_by_priority (r # rs) = (case chunk_by_priority rs of
      (p, g) # gs \<Rightarrow> if srv_priority r = p then (p, r # g) # gs else (srv_priority r, [r]) # (p, g) # gs
    | [] \<Rightarrow> [(srv_priority r, [r])])"

text \<open>The entry on which the random number falls, and the others.\<close>

fun pick_by_weight :: "nat \<Rightarrow> srv_record list \<Rightarrow> srv_record option \<times> srv_record list" where
  "pick_by_weight w [] = (None, [])"
| "pick_by_weight w (e # es) =
     (if w \<le> unat (srv_weight e) then (Some e, es)
      else (case pick_by_weight (w - unat (srv_weight e)) es of (r, es) \<Rightarrow> (r, e # es)))"

lemma pick_by_weight_length: "pick_by_weight w es = (Some e, es') \<Longrightarrow> length es = Suc (length es')"
  by (induction w es arbitrary: es' rule: pick_by_weight.induct) (auto split: if_splits prod.splits)

text \<open>
  Entries of weight 0 have been taken out before, so none is found when the random number is 0. The \<open>k\<close>th number
  drawn is \<open>draw k\<close>, reduced to the range.
\<close>

function select_group :: "(nat \<Rightarrow> nat) \<Rightarrow> nat \<Rightarrow> srv_record list \<Rightarrow> srv_record list \<times> nat" where
  "select_group draw k es =
     (if es = [] then ([], k)
      else let w = draw k mod (sum_list (map (unat \<circ> srv_weight) es) + 1) in
        case pick_by_weight w es of
          (None, _) \<Rightarrow> ([], k)
        | (Some e, es) \<Rightarrow> (case select_group draw (Suc k) es of (rest, k) \<Rightarrow> (e # rest, k)))"
  by pat_completeness auto
termination
  by (relation "measure (\<lambda>(draw, k, es). length es)") (auto dest!: pick_by_weight_length [OF sym])

declare select_group.simps [simp del]

fun select_groups :: "(nat \<Rightarrow> nat) \<Rightarrow> nat \<Rightarrow> srv_record list list \<Rightarrow> srv_record list" where
  "select_groups draw k [] = []"
| "select_groups draw k (g # gs) = (case select_group draw k g of (es, k) \<Rightarrow> es @ select_groups draw k gs)"

definition select_srvs :: "(nat \<Rightarrow> nat) \<Rightarrow> srv_record list \<Rightarrow> srv_record list" where
  "select_srvs draw srvs = select_groups draw 0
     (map (\<lambda>(p, g). filter (\<lambda>e. srv_weight e \<noteq> 0) g) (sort_key fst (chunk_by_priority srvs)))"

section \<open>Resolving\<close>

text \<open>
  What is asked and answered: the system's lookup, the nickname service, whether a DNS resolver can be made, SRV
  records and random numbers for a name, and what a tsdns server sends.
\<close>

record resolve_world =
  rw_lookup :: host_lookup
  rw_nickname :: "rstr \<Rightarrow> resolver_error + rstr"
  rw_resolver :: bool
  rw_srv :: "rstr \<Rightarrow> srv_record list option"
  rw_draw :: "rstr \<Rightarrow> nat \<Rightarrow> nat"
  rw_tsdns :: "socket_addr \<Rightarrow> rstr \<Rightarrow> nat + u8 list"

type_synonym resolved = "resolver_error + socket_addr"

definition looked_up :: "socket_addr list option \<Rightarrow> resolved list" where
  "looked_up r = (case r of None \<Rightarrow> [Inl ResolveHost] | Some as \<Rightarrow> map Inr as)"

definition resolve_srv :: "resolve_world \<Rightarrow> rstr \<Rightarrow> resolved list" where
  "resolve_srv w name = (case rw_srv w name of
      None \<Rightarrow> [Inl SrvLookup]
    | Some srvs \<Rightarrow> concat (map (\<lambda>e. looked_up (pair_addrs (rw_lookup w) (srv_target e) (srv_port e)))
        (select_srvs (rw_draw w name) srvs)))"

definition resolve_tsdns :: "resolve_world \<Rightarrow> socket_addr \<Rightarrow> rstr \<Rightarrow> resolved" where
  "resolve_tsdns w server address = (case rw_tsdns w server address of
      Inl e \<Rightarrow> Inl (TsdnsIo e)
    | Inr response \<Rightarrow> (case utf8_decode response of
        None \<Rightarrow> Inl TsdnsParseResponse
      | Some t \<Rightarrow>
          if take 3 t = str ''404'' then Inl TsdnsAddressNotFound
          else (case parse_address (rw_lookup w) t of
              Inl e \<Rightarrow> Inl e
            | Inr (Addr a) \<Rightarrow> Inr a
            | Inr (Other _ _) \<Rightarrow> Inl (TsdnsAddressInvalidResponse t))))"

text \<open>The lines of the answer that are not empty.\<close>

fun answer_lines :: "rstr \<Rightarrow> rstr \<Rightarrow> rstr list" where
  "answer_lines line [] = (if line = [] then [] else [line])"
| "answer_lines line (c # cs) = (if c = 13 \<or> c = 10
     then (if line = [] then [] else [line]) @ answer_lines [] cs
     else answer_lines (line @ [c]) cs)"

definition or_default :: "u16 option \<Rightarrow> u16" where
  "or_default port = (case port of None \<Rightarrow> DEFAULT_PORT | Some p \<Rightarrow> p)"

definition resolve_line :: "resolve_world \<Rightarrow> rstr \<Rightarrow> resolved list" where
  "resolve_line w line = (case parse_address (rw_lookup w) line of
      Inl e \<Rightarrow> [Inl e]
    | Inr (Addr a) \<Rightarrow> [Inr a]
    | Inr (Other host port) \<Rightarrow> looked_up (pair_addrs (rw_lookup w) host (or_default port)))"

definition resolve_nickname :: "resolve_world \<Rightarrow> rstr \<Rightarrow> resolved list" where
  "resolve_nickname w nickname = (case rw_nickname w nickname of
      Inl e \<Rightarrow> [Inl e]
    | Inr body \<Rightarrow> concat (map (resolve_line w) (answer_lines [] body)))"

definition set_port :: "u16 option \<Rightarrow> socket_addr \<Rightarrow> socket_addr" where
  "set_port port a = (case port of None \<Rightarrow> a | Some p \<Rightarrow> (fst a, p))"

text \<open>The last two components of a name.\<close>

definition last_two :: "rstr \<Rightarrow> rstr" where
  "last_two name = (case rsplit_once 46 name of
      None \<Rightarrow> name
    | Some (before, after) \<Rightarrow> (case rsplit_once 46 before of
        None \<Rightarrow> name
      | Some (_, second) \<Rightarrow> second @ [46] @ after))"

definition tsdns_part :: "resolve_world \<Rightarrow> rstr \<Rightarrow> u16 option \<Rightarrow> rstr \<Rightarrow> resolved list" where
  "tsdns_part w address port host =
     (if rw_resolver w
      then map (\<lambda>r. case r of Inl e \<Rightarrow> Inl e | Inr server \<Rightarrow> map_sum id (set_port port) (resolve_tsdns w server address))
        (resolve_srv w (str ''_tsdns._tcp.'' @ last_two host @ str ''.''))
      else [Inl CreateResolver])"

definition nickname_part :: "resolve_world \<Rightarrow> rstr \<Rightarrow> u16 option \<Rightarrow> rstr \<Rightarrow> resolved list" where
  "nickname_part w address port host =
     (if 46 \<notin> set address \<and> host \<noteq> str ''localhost''
      then map (map_sum id (set_port port)) (resolve_nickname w address) else [Inl InvalidNickname])"

definition srv_part :: "resolve_world \<Rightarrow> rstr \<Rightarrow> resolved list" where
  "srv_part w host = (if rw_resolver w then resolve_srv w (str ''_ts3._udp.'' @ host @ str ''.'') else [Inl CreateResolver])"

text \<open>
  The steps in order; the errors of single steps are dropped. The timeout applies to each item and is dropped as well,
  so it does not end the stream.
\<close>

definition resolve :: "resolve_world \<Rightarrow> rstr \<Rightarrow> resolved list" where
  "resolve w address = (case parse_address (rw_lookup w) address of
      Inl e \<Rightarrow> [Inl e]
    | Inr (Addr a) \<Rightarrow> [Inr a]
    | Inr (Other host port) \<Rightarrow> filter (\<lambda>r. \<not> isl r)
        (nickname_part w address port host @ srv_part w host @ tsdns_part w address port host
         @ looked_up (pair_addrs (rw_lookup w) host (or_default port))))"

section \<open>The order of services\<close>

lemma pick_by_weight_picks:
  "w \<le> sum_list (map (unat \<circ> srv_weight) es) \<Longrightarrow> es \<noteq> [] \<Longrightarrow> \<exists>e es'. pick_by_weight w es = (Some e, es')"
proof (induction w es rule: pick_by_weight.induct)
  case (2 w e es)
  show ?case
  proof (cases "w \<le> unat (srv_weight e)")
    case False
    then have "w - unat (srv_weight e) \<le> sum_list (map (unat \<circ> srv_weight) es)" using 2(2) False by (simp add: comp_def)
    moreover have "es \<noteq> []" using False 2(2) by auto
    ultimately show ?thesis using 2(1) False by fastforce
  qed simp
qed simp

lemma pick_by_weight_mset: "pick_by_weight w es = (Some e, es') \<Longrightarrow> mset es = add_mset e (mset es')"
  by (induction w es arbitrary: es' rule: pick_by_weight.induct) (auto split: if_splits prod.splits)

lemma select_group_mset: "mset (fst (select_group draw k es)) = mset es"
proof (induction draw k es rule: select_group.induct)
  case (1 draw k es)
  show ?case
  proof (cases "es = []")
    case False
    let ?w = "draw k mod (sum_list (map (unat \<circ> srv_weight) es) + 1)"
    have "?w \<le> sum_list (map (unat \<circ> srv_weight) es)" by (metis Suc_eq_plus1 less_Suc_eq_le mod_less_divisor zero_less_Suc)
    then obtain e es' where p: "pick_by_weight ?w es = (Some e, es')" using pick_by_weight_picks False by blast
    have "mset (fst (select_group draw (Suc k) es')) = mset es'" using 1 False p by (metis p)
    then show ?thesis
      using pick_by_weight_mset [OF p] False p
      by (simp add: select_group.simps [of draw k es] split_def)
  qed (simp add: select_group.simps)
qed

lemma select_groups_parts:
  "\<exists>ss. select_groups draw k gs = concat ss \<and> list_all2 (\<lambda>s g. mset s = mset g) ss gs"
proof (induction draw k gs rule: select_groups.induct)
  case (2 draw k g gs)
  obtain es k' where 1: "select_group draw k g = (es, k')" by fastforce
  obtain ss where "select_groups draw k' gs = concat ss" "list_all2 (\<lambda>s g. mset s = mset g) ss gs"
    using 2 [OF 1 [symmetric]] by blast
  then show ?case using 1 select_group_mset [of draw k g] by (intro exI [of _ "es # ss"]) simp
qed simp

lemma chunk_by_priority_groups:
  "concat (map snd (chunk_by_priority rs)) = rs"
  "\<forall>(p, g)\<in>set (chunk_by_priority rs). \<forall>e\<in>set g. srv_priority e = p"
  by (induction rs) (auto split: list.splits prod.splits)

lemma mset_concat_map: "mset (concat (map f xs)) = (\<Sum>x\<in>#mset xs. mset (f x))"
  by (induction xs) auto

lemma list_all2_member: "list_all2 R xs ys \<Longrightarrow> x \<in> set xs \<Longrightarrow> \<exists>y\<in>set ys. R x y"
  by (induction rule: list_all2_induct) auto

lemma sorted_concat:
  "sorted (map fst gs) \<Longrightarrow> list_all2 (\<lambda>s (p, g). mset s = mset (filter P g)) ss gs
    \<Longrightarrow> \<forall>(p, g)\<in>set gs. \<forall>e\<in>set g. srv_priority e = p \<Longrightarrow> sorted (map srv_priority (concat ss))"
proof (induction gs arbitrary: ss)
  case (Cons pg gs)
  obtain p g where pg: "pg = (p, g)" by fastforce
  obtain s ss' where ss: "ss = s # ss'" "mset s = mset (filter P g)" "list_all2 (\<lambda>s (p, g). mset s = mset (filter P g)) ss' gs"
    using Cons.prems(2) by (auto simp: pg list_all2_Cons2)
  have "set s \<subseteq> set g" using mset_eq_setD [OF ss(2)] by auto
  then have p: "\<forall>e\<in>set s. srv_priority e = p" using Cons.prems(3) by (auto simp: pg)
  have "p \<le> srv_priority e" if e: "e \<in> set (concat ss')" for e
  proof -
    obtain s' where "s' \<in> set ss'" "e \<in> set s'" using e unfolding set_concat by blast
    then obtain q h where "(q, h) \<in> set gs" "mset s' = mset (filter P h)"
      using list_all2_member [OF ss(3)] by fastforce
    then have "srv_priority e = q" "p \<le> q"
      using \<open>e \<in> set s'\<close> mset_eq_setD [of s' "filter P h"] Cons.prems(1,3) by (fastforce simp: pg)+
    then show ?thesis by simp
  qed
  moreover have "sorted (map srv_priority (concat ss'))" using Cons ss by (auto simp: pg)
  moreover have "sorted (map srv_priority s)" using p by (induction s) auto
  ultimately show ?case using p by (auto simp: ss(1) sorted_append)
qed simp


end
