(* ===== verification/Options.thy ===== *)
theory Options
  imports Book Connect ConnectErrors Resolve
begin

text \<open>
  The options of a connection, \<open>ConnectOptions\<close> of \<open>tsclientlib/src/lib.rs\<close>, and \<open>Connection::connect\<close>: the
  addresses are tried one after the other; each attempt binds a socket, runs the handshake of theory \<open>Connect\<close>,
  sends \<open>clientinit\<close> and waits for \<open>initserver\<close>. The texts of a version and the contents of generated messages
  are inputs; so are what the resolver is told by the network, the answers of the socket and the clock.
\<close>

section \<open>Errors\<close>

text \<open>The error type is that of theory \<open>ConnectErrors\<close>; these are the errors it wraps.\<close>

datatype library_cause = CauseClient handshake_error | CauseIo nat | CauseParse nat | CauseResolve resolver_error

type_synonym library_error = "library_cause client_error"

section \<open>Options\<close>

datatype server_address = AddrSocket ip_addr u16 | AddrOther rstr

record lib_version =
  ver_string :: rstr
  ver_platform :: rstr
  ver_signature :: "u8 list"

record 'w library_options =
  opt_address :: server_address
  opt_local_address :: "socket_addr option"
  opt_identity :: "'w key_identity option"
  opt_server :: "u8 list option"
  opt_name :: rstr
  opt_version :: lib_version
  opt_hardware_id :: rstr
  opt_channel :: "rstr option"
  opt_channel_password :: "rstr option"
  opt_password :: "rstr option"
  opt_input_muted :: bool
  opt_output_muted :: bool
  opt_input_hardware_enabled :: bool
  opt_output_hardware_enabled :: bool
  opt_away :: "rstr option"
  opt_log_commands :: bool
  opt_log_packets :: bool
  opt_log_udp_packets :: bool

text \<open>\<open>version\<close> is \<open>Version::Windows_3_X_X__1\<close>.\<close>

definition connection_build :: "lib_version \<Rightarrow> server_address \<Rightarrow> 'w library_options" where
  "connection_build version address = \<lparr>opt_address = address, opt_local_address = None, opt_identity = None,
     opt_server = None, opt_name = str ''TeamSpeakUser'', opt_version = version,
     opt_hardware_id = str ''923f136fb1e22ae6ce95e60255529c00,d13231b1bc33edfecfb9169cc7a63bcc'',
     opt_channel = None, opt_channel_password = None, opt_password = None,
     opt_input_muted = False, opt_output_muted = False, opt_input_hardware_enabled = True,
     opt_output_hardware_enabled = True, opt_away = None, opt_log_commands = False, opt_log_packets = False,
     opt_log_udp_packets = False\<rparr>"

text \<open>The builder.\<close>

definition options_local_address :: "ip_addr \<times> u16 \<Rightarrow> 'w library_options \<Rightarrow> 'w library_options" where
  "options_local_address v opt = opt\<lparr>opt_local_address := Some v\<rparr>"

definition options_identity :: "'w key_identity \<Rightarrow> 'w library_options \<Rightarrow> 'w library_options" where
  "options_identity v opt = opt\<lparr>opt_identity := Some v\<rparr>"

definition options_server :: "u8 list \<Rightarrow> 'w library_options \<Rightarrow> 'w library_options" where
  "options_server v opt = opt\<lparr>opt_server := Some v\<rparr>"

definition options_name :: "rstr \<Rightarrow> 'w library_options \<Rightarrow> 'w library_options" where
  "options_name v opt = opt\<lparr>opt_name := v\<rparr>"

definition options_version :: "lib_version \<Rightarrow> 'w library_options \<Rightarrow> 'w library_options" where
  "options_version v opt = opt\<lparr>opt_version := v\<rparr>"

definition options_hardware_id :: "rstr \<Rightarrow> 'w library_options \<Rightarrow> 'w library_options" where
  "options_hardware_id v opt = opt\<lparr>opt_hardware_id := v\<rparr>"

definition options_channel :: "rstr \<Rightarrow> 'w library_options \<Rightarrow> 'w library_options" where
  "options_channel v opt = opt\<lparr>opt_channel := Some v\<rparr>"

definition options_channel_password :: "rstr \<Rightarrow> 'w library_options \<Rightarrow> 'w library_options" where
  "options_channel_password v opt = opt\<lparr>opt_channel_password := Some v\<rparr>"

definition options_password :: "rstr \<Rightarrow> 'w library_options \<Rightarrow> 'w library_options" where
  "options_password v opt = opt\<lparr>opt_password := Some v\<rparr>"

definition options_input_muted :: "bool \<Rightarrow> 'w library_options \<Rightarrow> 'w library_options" where
  "options_input_muted v opt = opt\<lparr>opt_input_muted := v\<rparr>"

definition options_output_muted :: "bool \<Rightarrow> 'w library_options \<Rightarrow> 'w library_options" where
  "options_output_muted v opt = opt\<lparr>opt_output_muted := v\<rparr>"

definition options_input_hardware_enabled :: "bool \<Rightarrow> 'w library_options \<Rightarrow> 'w library_options" where
  "options_input_hardware_enabled v opt = opt\<lparr>opt_input_hardware_enabled := v\<rparr>"

definition options_output_hardware_enabled :: "bool \<Rightarrow> 'w library_options \<Rightarrow> 'w library_options" where
  "options_output_hardware_enabled v opt = opt\<lparr>opt_output_hardware_enabled := v\<rparr>"

definition options_away :: "rstr \<Rightarrow> 'w library_options \<Rightarrow> 'w library_options" where
  "options_away v opt = opt\<lparr>opt_away := Some v\<rparr>"

definition options_log_commands :: "bool \<Rightarrow> 'w library_options \<Rightarrow> 'w library_options" where
  "options_log_commands v opt = opt\<lparr>opt_log_commands := v\<rparr>"

definition options_log_packets :: "bool \<Rightarrow> 'w library_options \<Rightarrow> 'w library_options" where
  "options_log_packets v opt = opt\<lparr>opt_log_packets := v\<rparr>"

definition options_log_udp_packets :: "bool \<Rightarrow> 'w library_options \<Rightarrow> 'w library_options" where
  "options_log_udp_packets v opt = opt\<lparr>opt_log_udp_packets := v\<rparr>"

definition channel_path :: "u64 \<Rightarrow> rstr" where
  "channel_path i = str ''/'' @ map uint (decimal (unat i))"

definition options_channel_id :: "u64 \<Rightarrow> 'w library_options \<Rightarrow> 'w library_options" where
  "options_channel_id i opt = opt\<lparr>opt_channel := Some (channel_path i)\<rparr>"

section \<open>Messages\<close>

text \<open>
  What the library itself sends. The fields of \<open>clientinit\<close> that are always empty are left out; the lists of
  the report on the connection are those for speech, keepalive and control packets.
\<close>

record client_init =
  ci_name :: rstr
  ci_version :: rstr
  ci_platform :: rstr
  ci_input_muted :: "bool option"
  ci_output_muted :: "bool option"
  ci_input_hardware_enabled :: bool
  ci_output_hardware_enabled :: bool
  ci_is_away :: "bool option"
  ci_away_message :: "rstr option"
  ci_default_channel :: rstr
  ci_default_channel_password :: "u8 list"
  ci_password :: "u8 list"
  ci_version_sign :: "u8 list"
  ci_client_key_offset :: u64
  ci_hardware_id :: rstr

record connection_report =
  cr_ping :: duration
  cr_ping_deviation :: duration
  cr_packets_sent :: "u64 list"
  cr_bytes_sent :: "u64 list"
  cr_packets_received :: "u64 list"
  cr_bytes_received :: "u64 list"
  cr_packetloss :: "f32 list"
    \<comment> \<open>speech, keepalive, control, total\<close>
  cr_sent_last_second :: "u64 list"
  cr_sent_last_minute :: "u64 list"
  cr_received_last_second :: "u64 list"
  cr_received_last_minute :: "u64 list"

datatype library_out =
    LoClientInit client_init
  | LoConnectionReport connection_report
  | LoChannelSubscribe "u64 list"
  | LoInitDownload u16 rstr u64 "u8 list" u64 u8
      \<comment> \<open>transfer, name, channel, password, seek position, protocol\<close>
  | LoInitUpload u16 rstr u64 "u8 list" bool bool u64 u8
      \<comment> \<open>transfer, name, channel, password, overwrite, resume, size, protocol\<close>
  | LoDisconnect "reason option" "rstr option"

text \<open>
  What the library looks at in the messages it receives, beside the rest \<open>'r\<close> that only the book reads.
  The message of theory \<open>Book\<close> is the whole message, \<open>InMessage\<close>.
\<close>

record file_part =
  fp_transfer :: u16
  fp_ip :: "ip_addr option"
  fp_port :: u16
  fp_key :: rstr
  fp_size :: u64
    \<comment> \<open>the size of a download, the seek position of an upload\<close>

datatype library_message =
    LmInitServer u16 encryption_mode
  | LmFileDownload "file_part list"
  | LmFileUpload "file_part list"
  | LmFiletransferStatus "(u16 \<times> ts_error) list"
  | LmConnectionInfoRequest
  | LmConnectionInfo "(u16 \<times> int option) list"
      \<comment> \<open>client, time connected\<close>
  | LmChannelCreated "u64 list"
  | LmClientLeftView "(u16 \<times> reason option) list"
  | LmClientMoved "(u16 \<times> u64) list"
      \<comment> \<open>client, target channel\<close>
  | LmClientUpdated "(u16 \<times> rstr option) list"
      \<comment> \<open>client, name\<close>
  | LmOther

type_synonym 'r lib_message = "(library_message \<times> 'r) book_message"

text \<open>
  The crates and the generated code: the writer and the parser of messages and the handler of the book. The
  address, the key and the time in \<open>ly_env\<close> are replaced for each attempt.
\<close>

record ('q, 'w, 'p, 's, 'x, 'r) library =
  ly_env :: "('q, 'w, 'p, 's) client_env"
  ly_write :: "library_out \<Rightarrow> out_packet option"
  ly_parse :: "in_packet \<Rightarrow> nat + 'r lib_message"
  ly_generated :: "'r lib_message \<Rightarrow> ('x, bool) book_run"

section \<open>One attempt\<close>

text \<open>How an asynchronous function or a poll ends.\<close>

datatype 'a polled = Ready 'a | Pending | Panicked | NoFuel

definition flagged :: "bool \<Rightarrow> bool option" where
  "flagged b = (if b then Some True else None)"

definition password_or_empty :: "('q, 'w) key_crates \<Rightarrow> rstr option \<Rightarrow> u8 list" where
  "password_or_empty kc p = (case p of None \<Rightarrow> [] | Some p \<Rightarrow> encode_password kc (utf8_encode p))"

definition client_init_of :: "('q, 'w) key_crates \<Rightarrow> u64 \<Rightarrow> 'w library_options \<Rightarrow> client_init" where
  "client_init_of kc counter opt = \<lparr>ci_name = opt_name opt,
     ci_version = ver_string (opt_version opt), ci_platform = ver_platform (opt_version opt),
     ci_input_muted = flagged (opt_input_muted opt), ci_output_muted = flagged (opt_output_muted opt),
     ci_input_hardware_enabled = opt_input_hardware_enabled opt,
     ci_output_hardware_enabled = opt_output_hardware_enabled opt,
     ci_is_away = flagged (opt_away opt \<noteq> None), ci_away_message = opt_away opt,
     ci_default_channel = (case opt_channel opt of None \<Rightarrow> [] | Some c \<Rightarrow> c),
     ci_default_channel_password = password_or_empty kc (opt_channel_password opt),
     ci_password = password_or_empty kc (opt_password opt),
     ci_version_sign = b64_enc kc (ver_signature (opt_version opt)),
     ci_client_key_offset = counter, ci_hardware_id = opt_hardware_id opt\<rparr>"

text \<open>
  \<open>wait_initserver\<close> looks at every command until one decides; \<open>extra_message\<close> may tell the level needed.
  A command that cannot be parsed and any other message are dropped.
\<close>

definition refused_by :: "error_report list \<Rightarrow> library_error" where
  "refused_by es = (let e = hd es in
     if er_id e = ClientCouldNotValidateIdentity
     then (case Option.bind (er_extra_message e) (\<lambda>m. parse_unsigned (2 ^ 8) (utf8_encode m)) of
         Some needed \<Rightarrow> IdentityLevel (of_nat needed)
       | None \<Rightarrow> ConnectTs (er_id e))
     else ConnectTs (er_id e))"

definition initserver_in ::
    "('q, 'w, 'p, 's, 'x, 'r) library \<Rightarrow> hs \<Rightarrow> in_packet \<Rightarrow> handshake_error + (library_error + 'x data_book) option" where
  "initserver_in ly s p = (case ly_parse ly p of
      Inr (BmCommandError es) \<Rightarrow> if es = [] then Inl ClientPanic else Inr (Some (Inl (refused_by es)))
    | Inr (BmOther (LmInitServer own mode, _)) \<Rightarrow>
        Inr (Some (if con_params (hs_con s) = None then Inl InitserverParamsMissing
          else Inr (data_connection_new own mode)))
    | _ \<Rightarrow> Inr None)"

definition wait_initserver ::
    "('q, 'w, 'p, 's, 'x, 'r) library \<Rightarrow> ('q, 'w, 'p, 's) client_env \<Rightarrow> (library_error + 'x data_book) hs_run" where
  "wait_initserver ly env = filter_commands env (initserver_in ly)"

text \<open>
  The inputs of an attempt: the error of the socket, the time, random values and what arrives. When the
  handshake uses them up, the attempt is still running; when the wait for \<open>initserver\<close> does, its five seconds
  are over.
\<close>

record 's attempt =
  at_bind :: "nat option"
  at_started :: instant
  at_unix_now :: int
  at_random :: "'s random_values"
  at_rounds :: "(instant \<times> recv_answer list) list"

definition attempt_env ::
    "('q, 'w, 'p, 's, 'x, 'r) library \<Rightarrow> ip_addr \<Rightarrow> 'w \<Rightarrow> 's attempt \<Rightarrow> ('q, 'w, 'p, 's) client_env" where
  "attempt_env ly address key att = (ly_env ly)\<lparr>env_unix_now := at_unix_now att, env_address := address,
     env_private_key := key\<rparr>"

definition attempt_start :: "'s attempt \<Rightarrow> hs" where
  "attempt_start att = \<lparr>hs_con = connection_new True (at_started att), hs_now = at_started att, hs_inbox = [],
     hs_rounds = at_rounds att\<rparr>"

definition client_error_or :: "(handshake_error \<Rightarrow> library_error) \<Rightarrow> handshake_error \<Rightarrow> (library_error + 'a) polled" where
  "client_error_or f e = (if e = ClientPanic then Panicked else Ready (Inl (f e)))"

type_synonym ('q, 'w, 'p, 's, 'x) established = "('q, 'w, 'p, 's) client_env \<times> hs \<times> 'x data_book"

definition finish_attempt ::
    "('q, 'w, 'p, 's, 'x, 'r) library \<Rightarrow> ('q, 'w, 'p, 's) client_env \<Rightarrow> hs
      \<Rightarrow> (library_error + ('q, 'w, 'p, 's, 'x) established) polled" where
  "finish_attempt ly env s = (case wait_initserver ly env s of
      (Returned (Inl e), _) \<Rightarrow> Ready (Inl e)
    | (Returned (Inr book), s) \<Rightarrow> Ready (Inr (env, s, book))
    | (Raised e, _) \<Rightarrow> client_error_or (\<lambda>e. InitserverWait (CauseClient e)) e
    | (Waiting, _) \<Rightarrow> Ready (Inl InitserverTimeout)
    | (OutOfFuel, _) \<Rightarrow> NoFuel)"

definition wrong_server :: "('q, 'w) key_crates \<Rightarrow> 'w library_options \<Rightarrow> 'q \<Rightarrow> hs \<Rightarrow> library_error option" where
  "wrong_server kc opt key s = (case opt_server opt of
      None \<Rightarrow> None
    | Some uid \<Rightarrow>
        if con_params (hs_con s) = None then Some InitserverParamsMissing
        else if get_uid_no_base64 kc key \<noteq> uid then Some (ServerUidMismatch (get_uid_no_base64 kc key))
        else None)"

definition connect_to ::
    "('q, 'w, 'p, 's, 'x, 'r) library \<Rightarrow> 'w library_options \<Rightarrow> ip_addr \<times> u16 \<Rightarrow> 's attempt
      \<Rightarrow> (library_error + ('q, 'w, 'p, 's, 'x) established) polled" where
  "connect_to ly opt addr att = (case opt_identity opt of
      None \<Rightarrow> Panicked
    | Some i \<Rightarrow> (case at_bind att of
        Some e \<Rightarrow> Ready (Inl (client_error.Io (CauseIo e)))
      | None \<Rightarrow>
          let env = attempt_env ly (fst addr) (id_key i) att; kc = env_keys env in
          (case connect_key env (at_random att) (attempt_start att) of
              (Raised e, _) \<Rightarrow> client_error_or (\<lambda>e. Connect (CauseClient e)) e
            | (Waiting, _) \<Rightarrow> Pending
            | (OutOfFuel, _) \<Rightarrow> NoFuel
            | (Returned key, s) \<Rightarrow> (case wrong_server kc opt key s of
                Some e \<Rightarrow> Ready (Inl e)
              | None \<Rightarrow> (case client_send_packet env
                    (ly_write ly (LoClientInit (client_init_of kc (id_counter i) opt))) s of
                    (Raised e, _) \<Rightarrow> client_error_or (\<lambda>e. SendClientinit (CauseClient e)) e
                  | (_, s) \<Rightarrow> finish_attempt ly env s)))))"

section \<open>All addresses\<close>

definition socket_text :: "ip_addr \<Rightarrow> u16 \<Rightarrow> rstr" where
  "socket_text ip port = map uint ((case ip of V4 _ _ _ _ \<Rightarrow> ip_text ip | V6 _ \<Rightarrow> ascii ''['' @ ip_text ip @ ascii '']'')
     @ ascii '':'' @ decimal (unat port))"

definition address_text :: "server_address \<Rightarrow> rstr" where
  "address_text a = (case a of AddrSocket ip port \<Rightarrow> socket_text ip port | AddrOther t \<Rightarrow> t)"

text \<open>What the resolver yields, an attempt for every address that is tried, and the error of each.\<close>

fun try_addresses ::
    "('q, 'w, 'p, 's, 'x, 'r) library \<Rightarrow> 'w library_options \<Rightarrow> library_error list
      \<Rightarrow> resolved list \<Rightarrow> 's attempt list
      \<Rightarrow> (library_error + ('q, 'w, 'p, 's, 'x) established) polled" where
  "try_addresses ly opt errors [] ats = Ready (Inl (ConnectFailed (address_text (opt_address opt)) errors))"
| "try_addresses ly opt errors (Inl e # rs) ats = Ready (Inl (ResolveAddress (CauseResolve e)))"
| "try_addresses ly opt errors (Inr addr # rs) [] = Pending"
| "try_addresses ly opt errors (Inr addr # rs) (att # ats) = (case connect_to ly opt addr att of
      Ready (Inl (IdentityLevel l)) \<Rightarrow> Ready (Inl (IdentityLevel l))
    | Ready (Inl (ConnectTs e)) \<Rightarrow> Ready (Inl (ConnectTs e))
    | Ready (Inl e) \<Rightarrow> try_addresses ly opt (errors @ [e]) rs ats
    | result \<Rightarrow> result)"

text \<open>The inputs of \<open>connect\<close>; a socket address is not resolved.\<close>

record 's connect_world =
  cw_resolver :: resolve_world
  cw_attempts :: "'s attempt list"

definition addresses_of :: "'w library_options \<Rightarrow> 's connect_world \<Rightarrow> resolved list" where
  "addresses_of opt w = (case opt_address opt of
       AddrSocket ip port \<Rightarrow> [Inr (ip, port)]
     | AddrOther address \<Rightarrow> resolve (cw_resolver w) address)"

definition library_connect ::
    "('q, 'w, 'p, 's, 'x, 'r) library \<Rightarrow> 'w library_options \<Rightarrow> 's connect_world
      \<Rightarrow> (library_error + ('q, 'w, 'p, 's, 'x) established) polled" where
  "library_connect ly opt w = try_addresses ly opt [] (addresses_of opt w) (cw_attempts w)"

end
