(* ===== verification/Library.thy ===== *)
theory Library
  imports Options
begin

text \<open>
  \<open>Connection\<close> of \<open>tsclientlib/src/lib.rs\<close>: the state machine that connects, improves the identity, yields items
  while it is connected and connects again after a timeout or a shutdown of the server. It runs on the client of
  theories \<open>Handshake\<close> and \<open>Connect\<close> and on the book of theory \<open>Book\<close>. What a poll finds ready is an input.
  Tracing and the recycling of buffers are left out.
\<close>

section \<open>Items\<close>

datatype temporary_reason = TimedOut string | ServerStopped

text \<open>The error of a command and the permission it lacks.\<close>

type_synonym command_error = "ts_error \<times> u32 option"

text \<open>\<open>AudioEvent\<close> is spread over the last two items. A stream is a number.\<close>

datatype ('x, 'r) library_item =
    LiBookEvents "'x event list"
  | LiMessageEvent "'r lib_message"
  | LiAudio in_packet audio_data
  | LiIdentityLevelIncreasing u8
  | LiIdentityLevelIncreased
  | LiDisconnectedTemporarily temporary_reason
  | LiMessageResult u16 "command_error option"
  | LiFileDownload u16 u64 nat
  | LiFileUpload u16 u64 nat
  | LiFiletransferFailed u16 library_error
  | LiNetworkStatsUpdated
  | LiCanSendAudio bool
  | LiCanReceiveAudio bool

type_synonym ('x, 'r) library_items = "(library_error + ('x, 'r) library_item) list"

section \<open>State\<close>

text \<open>A file transfer that waits for its stream.\<close>

record file_transfer =
  ft_id :: u16
  ft_upload :: bool
  ft_address :: "ip_addr \<times> u16"
  ft_key :: rstr
  ft_size :: u64

record ('q, 'w, 'p, 's) connected_connection =
  cn_env :: "('q, 'w, 'p, 's) client_env"
  cn_client :: hs
  cn_return_code :: u16
  cn_filetransfer_id :: u16
  cn_subscribed :: bool
  cn_filetransfers :: "file_transfer list"
  cn_connection_time :: int

text \<open>
  \<open>LcConnecting\<close> has the options its future has taken, whether to try again on a timeout, which is also whether
  the future waits ten seconds first, and whether it has ended. \<open>LcIncreasing\<close>: whether the computation was
  cancelled and whether the channel of the thread was found closed.
\<close>

datatype ('q, 'w, 'p, 's, 'x) connection_state =
    LcConnecting "'w library_options" bool bool
  | LcIncreasing bool bool
  | LcConnected "('q, 'w, 'p, 's) connected_connection" "'x data_book"

record ('q, 'w, 'p, 's, 'x, 'r) library_connection =
  lc_state :: "('q, 'w, 'p, 's, 'x) connection_state"
  lc_options :: "'w library_options"
  lc_items :: "('x, 'r) library_items"

text \<open>\<open>ConnectOptions::connect\<close>; \<open>key\<close> is the random key of a new identity.\<close>

definition connection_new_from ::
    "('q, 'w, 'p, 's, 'x, 'r) library \<Rightarrow> 'w \<Rightarrow> 'w library_options \<Rightarrow> ('q, 'w, 'p, 's, 'x, 'r) library_connection" where
  "connection_new_from ly key opt = (let env = ly_env ly; opt' = (case opt_identity opt of
        Some _ \<Rightarrow> opt
      | None \<Rightarrow> opt\<lparr>opt_identity := Some (identity_create (env_lib env) (env_keys env) key)\<rparr>)
     in \<lparr>lc_state = LcConnecting opt' False False, lc_options = opt',
         lc_items = (if opt_identity opt = None then [Inr LiIdentityLevelIncreased] else [])\<rparr>)"

section \<open>Muting\<close>

definition own_client :: "'x data_book \<Rightarrow> 'x data_client option" where
  "own_client b = tget (db_clients b) (db_own_client b)"

definition intern_can_send_audio :: "'x data_book \<Rightarrow> 'w library_options \<Rightarrow> bool" where
  "intern_can_send_audio b opt = (case own_client b of
      Some c \<Rightarrow>
        if dcl_input_muted c \<or> \<not> dcl_input_hardware_enabled c \<or> dcl_away_message c \<noteq> None
          \<or> dcl_output_muted c \<or> \<not> dcl_output_hardware_enabled c then False
        else (case Option.bind (tget (db_channels b) (dcl_channel c)) dch_needed_talk_power of
            Some needed \<Rightarrow> dcl_talk_power_granted c \<or> sint needed \<le> sint (dcl_talk_power c)
          | None \<Rightarrow> True)
    | None \<Rightarrow> \<not> opt_input_muted opt \<and> opt_input_hardware_enabled opt \<and> opt_away opt = None
        \<and> \<not> opt_output_muted opt \<and> opt_output_hardware_enabled opt)"

definition intern_can_receive_audio :: "'x data_book \<Rightarrow> 'w library_options \<Rightarrow> bool" where
  "intern_can_receive_audio b opt = (case own_client b of
      Some c \<Rightarrow> \<not> dcl_output_muted c \<and> \<not> dcl_output_only_muted c \<and> dcl_output_hardware_enabled c
    | None \<Rightarrow> \<not> opt_output_muted opt \<and> opt_output_hardware_enabled opt)"

definition intern_can_receive_unencrypted_audio :: "'x data_book \<Rightarrow> bool \<Rightarrow> bool" where
  "intern_can_receive_unencrypted_audio b whisper = (case dsv_codec_encryption_mode (db_server b) of
      ForcedOn \<Rightarrow> False
    | ForcedOff \<Rightarrow> True
    | PerChannel \<Rightarrow> whisper \<or>
        (case Option.bind (own_client b) (\<lambda>c. tget (db_channels b) (dcl_channel c)) of
            Some ch \<Rightarrow> (case dch_is_unencrypted ch of Some u \<Rightarrow> u | None \<Rightarrow> True)
          | None \<Rightarrow> True))"

definition can_send_audio :: "('q, 'w, 'p, 's, 'x, 'r) library_connection \<Rightarrow> bool" where
  "can_send_audio c = (case lc_state c of LcConnected _ b \<Rightarrow> intern_can_send_audio b (lc_options c) | _ \<Rightarrow> False)"

definition can_receive_audio :: "('q, 'w, 'p, 's, 'x, 'r) library_connection \<Rightarrow> bool" where
  "can_receive_audio c = (case lc_state c of LcConnected _ b \<Rightarrow> intern_can_receive_audio b (lc_options c) | _ \<Rightarrow> False)"

text \<open>The items for what has changed between two pairs of book and options.\<close>

definition audio_changes ::
    "'x data_book \<Rightarrow> 'w library_options \<Rightarrow> 'x data_book \<Rightarrow> 'w library_options \<Rightarrow> ('x, 'r) library_items" where
  "audio_changes b opt b' opt' = (let s = intern_can_send_audio b' opt'; r = intern_can_receive_audio b' opt' in
     (if s \<noteq> intern_can_send_audio b opt then [Inr (LiCanSendAudio s)] else [])
     @ (if r \<noteq> intern_can_receive_audio b opt then [Inr (LiCanReceiveAudio r)] else []))"

section \<open>Outgoing commands\<close>

text \<open>What the loop over the arguments of \<open>clientupdate\<close> changes.\<close>

record ('w, 'x) mute_update =
  mu_options :: "'w library_options"
  mu_own :: "'x data_client option"
  mu_has_away_message :: bool
  mu_has_is_away :: bool
  mu_events :: "'x event list"

definition set_prop ::
    "('w library_options \<Rightarrow> 'w library_options) \<Rightarrow> bool \<Rightarrow> ('x data_client \<Rightarrow> bool)
      \<Rightarrow> ('x data_client \<Rightarrow> 'x data_client) \<Rightarrow> (u16 \<Rightarrow> property_id) \<Rightarrow> ('w, 'x) mute_update \<Rightarrow> ('w, 'x) mute_update" where
  "set_prop store v get_own set_own event u =
     (let u = u\<lparr>mu_options := store (mu_options u)\<rparr> in
      case mu_own u of
        None \<Rightarrow> u
      | Some c \<Rightarrow>
          if get_own c \<noteq> v
          then u\<lparr>mu_own := Some (set_own c), mu_events := mu_events u @ [changed (event (dcl_id c)) (PvBool (get_own c))]\<rparr>
          else u)"

definition update_arg :: "u8 list \<Rightarrow> arg_value \<Rightarrow> ('w, 'x) mute_update \<Rightarrow> ('w, 'x) mute_update" where
  "update_arg name arg u = (let v = (raw arg = ascii ''1'') in
     if name = ascii ''client_input_muted'' then
       set_prop (\<lambda>opt. opt\<lparr>opt_input_muted := v\<rparr>) v dcl_input_muted (\<lambda>c. c\<lparr>dcl_input_muted := v\<rparr>) PidClientInputMuted u
     else if name = ascii ''client_output_muted'' then
       set_prop (\<lambda>opt. opt\<lparr>opt_output_muted := v\<rparr>) v dcl_output_muted (\<lambda>c. c\<lparr>dcl_output_muted := v\<rparr>) PidClientOutputMuted u
     else if name = ascii ''client_away'' then
       u\<lparr>mu_has_is_away := True, mu_options := (mu_options u)\<lparr>opt_away :=
         (if v then if mu_has_away_message u then opt_away (mu_options u) else Some [] else None)\<rparr>\<rparr>
     else if name = ascii ''client_away_message'' then
       (if mu_has_is_away u \<and> opt_away (mu_options u) \<noteq> None
        then u\<lparr>mu_has_away_message := True, mu_options := (mu_options u)\<lparr>opt_away :=
          (case utf8_decode (arg_get arg) of Some t \<Rightarrow> Some t | None \<Rightarrow> opt_away (mu_options u))\<rparr>\<rparr>
        else u)
     else if name = ascii ''client_input_hardware'' then
       set_prop (\<lambda>opt. opt\<lparr>opt_input_hardware_enabled := v\<rparr>) v dcl_input_hardware_enabled
         (\<lambda>c. c\<lparr>dcl_input_hardware_enabled := v\<rparr>) PidClientInputHardwareEnabled u
     else if name = ascii ''client_output_hardware'' then
       set_prop (\<lambda>opt. opt\<lparr>opt_output_hardware_enabled := v\<rparr>) v dcl_output_hardware_enabled
         (\<lambda>c. c\<lparr>dcl_output_hardware_enabled := v\<rparr>) PidClientOutputHardwareEnabled u
     else u)"

definition update_away :: "('w, 'x) mute_update \<Rightarrow> ('w, 'x) mute_update" where
  "update_away u = (case mu_own u of
      None \<Rightarrow> u
    | Some c \<Rightarrow>
        if dcl_away_message c \<noteq> opt_away (mu_options u)
        then u\<lparr>mu_own := Some (c\<lparr>dcl_away_message := opt_away (mu_options u)\<rparr>),
               mu_events := mu_events u @ [changed (PidClientAwayMessage (dcl_id c)) (PvOptionString (dcl_away_message c))]\<rparr>
        else u)"

fun update_item :: "command_item \<Rightarrow> ('w, 'x) mute_update \<Rightarrow> ('w, 'x) mute_update" where
  "update_item (Argument name arg) u = update_away (update_arg name arg u)"
| "update_item NextCommand u = u"

definition update_own :: "'x data_client option \<Rightarrow> 'x data_book \<Rightarrow> 'x data_book" where
  "update_own c b = (case c of None \<Rightarrow> b | Some c \<Rightarrow> set_client (db_own_client b) c b)"

definition mute_changes ::
    "command_item list \<Rightarrow> 'x data_book \<Rightarrow> 'w library_options \<Rightarrow> 'x data_book \<times> 'w library_options \<times> ('x, 'r) library_items" where
  "mute_changes args b opt =
     (let u = fold update_item args \<lparr>mu_options = opt, mu_own = own_client b, mu_has_away_message = False,
           mu_has_is_away = False, mu_events = []\<rparr>;
          b' = update_own (mu_own u) b
      in (b', mu_options u, (if mu_events u = [] then [] else [Inr (LiBookEvents (mu_events u))])
           @ audio_changes b opt b' (mu_options u)))"

definition update_on_outgoing_command ::
    "out_packet \<Rightarrow> ('q, 'w, 'p, 's, 'x, 'r) library_connection \<Rightarrow> ('q, 'w, 'p, 's, 'x, 'r) library_connection" where
  "update_on_outgoing_command p c = (case lc_state c of
      LcConnected con b \<Rightarrow> (case command_parser_new (out_content p) of (name, rest) \<Rightarrow>
        if name = ascii ''channelsubscribeall'' then c\<lparr>lc_state := LcConnected (con\<lparr>cn_subscribed := True\<rparr>) b\<rparr>
        else if name = ascii ''channelunsubscribeall'' then c\<lparr>lc_state := LcConnected (con\<lparr>cn_subscribed := False\<rparr>) b\<rparr>
        else if name = ascii ''clientupdate'' then
          (case mute_changes (parse_items rest) b (lc_options c) of (b, opt, new) \<Rightarrow>
            c\<lparr>lc_state := LcConnected con b, lc_options := opt, lc_items := lc_items c @ new\<rparr>)
        else c)
    | _ \<Rightarrow> c)"

section \<open>Sending\<close>

definition con_send ::
    "out_packet option \<Rightarrow> ('q, 'w, 'p, 's) connected_connection
      \<Rightarrow> handshake_error option \<times> ('q, 'w, 'p, 's) connected_connection" where
  "con_send p con = (case client_send_packet (cn_env con) p (cn_client con) of
      (Raised e, s) \<Rightarrow> (Some e, con\<lparr>cn_client := s\<rparr>)
    | (_, s) \<Rightarrow> (None, con\<lparr>cn_client := s\<rparr>))"

definition sent :: "handshake_error option \<Rightarrow> 'a \<Rightarrow> (library_error + 'a) polled" where
  "sent e x = (case e of
      None \<Rightarrow> Ready (Inr x)
    | Some ClientPanic \<Rightarrow> Panicked
    | Some e \<Rightarrow> Ready (Inl (SendPacket (CauseClient e))))"

definition con_send_command ::
    "out_packet \<Rightarrow> ('q, 'w, 'p, 's) connected_connection
      \<Rightarrow> (library_error + unit) polled \<times> ('q, 'w, 'p, 's) connected_connection" where
  "con_send_command p con = (case con_send (Some p) con of (e, con) \<Rightarrow> (sent e (), con))"

text \<open>The code of the answer is counted with wrap-around, as in a release build.\<close>

definition con_send_command_with_result ::
    "out_packet \<Rightarrow> ('q, 'w, 'p, 's) connected_connection
      \<Rightarrow> (library_error + u16) polled \<times> ('q, 'w, 'p, 's) connected_connection" where
  "con_send_command_with_result p con = (let code = cn_return_code con in
     case con_send (Some (write_arg (ascii ''return_code'') (decimal (unat code)) p))
        (con\<lparr>cn_return_code := code + 1\<rparr>) of (e, con) \<Rightarrow> (sent e code, con))"

definition handle_of :: "u16 \<Rightarrow> (library_error + u16) polled \<Rightarrow> (library_error + u16) polled" where
  "handle_of i r = (case r of Ready (Inr _) \<Rightarrow> Ready (Inr i) | _ \<Rightarrow> r)"

text \<open>A packet whose constructor panics is \<open>None\<close>.\<close>

definition con_start_transfer ::
    "('q, 'w, 'p, 's, 'x, 'r) library \<Rightarrow> (u16 \<Rightarrow> library_out) \<Rightarrow> ('q, 'w, 'p, 's) connected_connection
      \<Rightarrow> (library_error + u16) polled \<times> ('q, 'w, 'p, 's) connected_connection" where
  "con_start_transfer ly msg con =
     (let i = cn_filetransfer_id con; con = con\<lparr>cn_filetransfer_id := i + 1\<rparr> in
      case ly_write ly (msg i) of
        None \<Rightarrow> (Panicked, con)
      | Some p \<Rightarrow> (case con_send_command_with_result p con of (r, con) \<Rightarrow> (handle_of i r, con)))"

definition con_download_file ::
    "('q, 'w, 'p, 's, 'x, 'r) library \<Rightarrow> u64 \<Rightarrow> rstr \<Rightarrow> rstr option \<Rightarrow> u64 option \<Rightarrow> ('q, 'w, 'p, 's) connected_connection
      \<Rightarrow> (library_error + u16) polled \<times> ('q, 'w, 'p, 's) connected_connection" where
  "con_download_file ly channel path password seek con = con_start_transfer ly (\<lambda>i. LoInitDownload i path channel
     (password_or_empty (env_keys (cn_env con)) password) (case seek of None \<Rightarrow> 0 | Some n \<Rightarrow> n) 1) con"

definition con_upload_file ::
    "('q, 'w, 'p, 's, 'x, 'r) library \<Rightarrow> u64 \<Rightarrow> rstr \<Rightarrow> rstr option \<Rightarrow> u64 \<Rightarrow> bool \<Rightarrow> bool
      \<Rightarrow> ('q, 'w, 'p, 's) connected_connection
      \<Rightarrow> (library_error + u16) polled \<times> ('q, 'w, 'p, 's) connected_connection" where
  "con_upload_file ly channel path password bytes overwrite resume con = con_start_transfer ly (\<lambda>i. LoInitUpload i path channel
     (password_or_empty (env_keys (cn_env con)) password) overwrite resume bytes 1) con"

text \<open>The operations of the connection, which need it to be connected.\<close>

definition when_connected ::
    "(('q, 'w, 'p, 's) connected_connection \<Rightarrow> (library_error + 'a) polled \<times> ('q, 'w, 'p, 's) connected_connection)
      \<Rightarrow> ('q, 'w, 'p, 's, 'x, 'r) library_connection
      \<Rightarrow> (library_error + 'a) polled \<times> ('q, 'w, 'p, 's, 'x, 'r) library_connection" where
  "when_connected f c = (case lc_state c of
      LcConnected con b \<Rightarrow> (case f con of (r, con) \<Rightarrow> (r, c\<lparr>lc_state := LcConnected con b\<rparr>))
    | _ \<Rightarrow> (Ready (Inl NotConnected), c))"

definition library_send_command ::
    "out_packet \<Rightarrow> ('q, 'w, 'p, 's, 'x, 'r) library_connection
      \<Rightarrow> (library_error + unit) polled \<times> ('q, 'w, 'p, 's, 'x, 'r) library_connection" where
  "library_send_command p c = when_connected (con_send_command p) (update_on_outgoing_command p c)"

definition library_send_command_with_result ::
    "out_packet \<Rightarrow> ('q, 'w, 'p, 's, 'x, 'r) library_connection
      \<Rightarrow> (library_error + u16) polled \<times> ('q, 'w, 'p, 's, 'x, 'r) library_connection" where
  "library_send_command_with_result p c =
     when_connected (con_send_command_with_result p) (update_on_outgoing_command p c)"

definition library_download_file ::
    "('q, 'w, 'p, 's, 'x, 'r) library \<Rightarrow> u64 \<Rightarrow> rstr \<Rightarrow> rstr option \<Rightarrow> u64 option
      \<Rightarrow> ('q, 'w, 'p, 's, 'x, 'r) library_connection
      \<Rightarrow> (library_error + u16) polled \<times> ('q, 'w, 'p, 's, 'x, 'r) library_connection" where
  "library_download_file ly channel path password seek = when_connected (con_download_file ly channel path password seek)"

definition library_upload_file ::
    "('q, 'w, 'p, 's, 'x, 'r) library \<Rightarrow> u64 \<Rightarrow> rstr \<Rightarrow> rstr option \<Rightarrow> u64 \<Rightarrow> bool \<Rightarrow> bool
      \<Rightarrow> ('q, 'w, 'p, 's, 'x, 'r) library_connection
      \<Rightarrow> (library_error + u16) polled \<times> ('q, 'w, 'p, 's, 'x, 'r) library_connection" where
  "library_upload_file ly channel path password bytes overwrite resume =
     when_connected (con_upload_file ly channel path password bytes overwrite resume)"

text \<open>\<open>disconnect\<close> does nothing unless connected.\<close>

definition library_disconnect ::
    "('q, 'w, 'p, 's, 'x, 'r) library \<Rightarrow> reason option \<Rightarrow> rstr option \<Rightarrow> ('q, 'w, 'p, 's, 'x, 'r) library_connection
      \<Rightarrow> (library_error + unit) polled \<times> ('q, 'w, 'p, 's, 'x, 'r) library_connection" where
  "library_disconnect ly reason message c = (case lc_state c of
      LcConnected con b \<Rightarrow> (case con_send (ly_write ly (LoDisconnect reason message)) con of
        (e, con) \<Rightarrow> (sent e (), c\<lparr>lc_state := LcConnected con b\<rparr>))
    | _ \<Rightarrow> (Ready (Inr ()), c))"

text \<open>Only voice packets; the muted state is only logged.\<close>

definition library_send_audio ::
    "out_packet \<Rightarrow> ('q, 'w, 'p, 's, 'x, 'r) library_connection
      \<Rightarrow> (library_error + unit) polled \<times> ('q, 'w, 'p, 's, 'x, 'r) library_connection" where
  "library_send_audio p c =
     (if Option.bind (out_header p) hdr_packet_type \<notin> {Some Voice, Some VoiceWhisper} then (Panicked, c)
      else when_connected (con_send_command p) c)"

definition library_get_state :: "('q, 'w, 'p, 's, 'x, 'r) library_connection \<Rightarrow> library_error + 'x data_book" where
  "library_get_state c = (case lc_state c of LcConnected _ b \<Rightarrow> Inr b | _ \<Rightarrow> Inl NotConnected)"

definition get_network_stats :: "('q, 'w, 'p, 's, 'x, 'r) library_connection \<Rightarrow> library_error + connection_stats" where
  "get_network_stats c = (case lc_state c of
      LcConnected con _ \<Rightarrow> Inr (rs_stats (con_resender (hs_con (cn_client con)))) | _ \<Rightarrow> Inl NotConnected)"

definition cancel_identity_level_increase ::
    "('q, 'w, 'p, 's, 'x, 'r) library_connection \<Rightarrow> ('q, 'w, 'p, 's, 'x, 'r) library_connection" where
  "cancel_identity_level_increase c = (case lc_state c of
      LcIncreasing _ gone \<Rightarrow> c\<lparr>lc_state := LcIncreasing True gone\<rparr> | _ \<Rightarrow> c)"

section \<open>Incoming commands\<close>

record ('q, 'w, 'p, 's, 'x, 'r) session_parts =
  sp_con :: "('q, 'w, 'p, 's) connected_connection"
  sp_book :: "'x data_book"
  sp_options :: "'w library_options"
  sp_items :: "('x, 'r) library_items"

definition return_code_of :: "error_report \<Rightarrow> u16 option" where
  "return_code_of e = Option.bind (er_return_code e) (\<lambda>r. map_option of_nat (parse_unsigned (2 ^ 16) (utf8_encode r)))"

definition command_result :: "error_report \<Rightarrow> command_error option" where
  "command_result e = (if er_id e = TsOk then None else Some (er_id e, er_missing_permission e))"

fun error_results :: "error_report list \<Rightarrow> ('x, 'r) library_items \<times> bool" where
  "error_results [] = ([], True)"
| "error_results (e # es) = (case error_results es of (items, handled) \<Rightarrow>
     (case return_code_of e of
        Some code \<Rightarrow> (Inr (LiMessageResult code (command_result e)) # items, handled)
      | None \<Rightarrow> (items, False)))"

definition transfer_of :: "bool \<Rightarrow> ip_addr \<Rightarrow> file_part \<Rightarrow> file_transfer" where
  "transfer_of upload own_ip m = \<lparr>ft_id = fp_transfer m, ft_upload = upload,
     ft_address = (case fp_ip m of None \<Rightarrow> own_ip | Some ip \<Rightarrow> ip, fp_port m), ft_key = fp_key m, ft_size = fp_size m\<rparr>"

text \<open>The answer to \<open>ClientConnectionInfoUpdateRequest\<close>; a time of more than \<open>i64::MAX\<close> seconds becomes one second.\<close>

definition signed_duration :: "duration \<Rightarrow> duration" where
  "signed_duration d = (if d div nanos_per_sec < 2 ^ 63 then d else from_secs 1)"

definition connection_report_of :: "connection_stats \<Rightarrow> connection_report" where
  "connection_report_of st =
     (let out = [OutSpeech, OutKeepalive, OutControl]; inc = [InSpeech, InKeepalive, InControl];
          second = (\<lambda>k. ucast (get_last_second_bytes st k)); minute = (\<lambda>k. get_last_minute_bytes st k div 60) in
      \<lparr>cr_ping = signed_duration (st_rtt st), cr_ping_deviation = signed_duration (st_rtt_dev st),
       cr_packets_sent = map (st_total_packets st) out, cr_bytes_sent = map (st_total_bytes st) out,
       cr_packets_received = map (st_total_packets st) inc, cr_bytes_received = map (st_total_bytes st) inc,
       cr_packetloss = [get_packetloss_s2c_speech st, get_packetloss_s2c_keepalive st,
         get_packetloss_s2c_control st, get_packetloss_s2c_total st],
       cr_sent_last_second = map second out, cr_sent_last_minute = map minute out,
       cr_received_last_second = map second inc, cr_received_last_minute = map minute inc\<rparr>)"

text \<open>The time our own client has been connected, when the server does not tell.\<close>

definition set_connected_time :: "int \<Rightarrow> 'x data_book \<Rightarrow> 'x data_book" where
  "set_connected_time t b = (case own_client b of
      None \<Rightarrow> b
    | Some c \<Rightarrow> (case dcl_connection_data c of
        None \<Rightarrow> b
      | Some d \<Rightarrow> set_client (db_own_client b) (c\<lparr>dcl_connection_data := Some (d\<lparr>cc_connected_time := Some t\<rparr>)\<rparr>) b))"

definition connection_info :: "int \<Rightarrow> (u16 \<times> int option) list \<Rightarrow> 'x data_book \<Rightarrow> 'x data_book" where
  "connection_info t ms b = (if \<exists>m\<in>set ms. fst m = db_own_client b \<and> snd m = None then set_connected_time t b else b)"

text \<open>
  What the server says about the muted state of our own client is undone: \<open>Some\<close> is the client with the old
  value, and the event is dropped.
\<close>

definition reset_bool :: "('x data_client \<Rightarrow> bool \<Rightarrow> 'x data_client) \<Rightarrow> 'x property_value \<Rightarrow> 'x data_client \<Rightarrow> 'x data_client" where
  "reset_bool f old c = (case old of PvBool b \<Rightarrow> f c b | _ \<Rightarrow> c)"

fun mute_reset :: "u16 \<Rightarrow> 'x event \<Rightarrow> 'x data_client \<Rightarrow> 'x data_client option" where
  "mute_reset own (PropertyChanged p old _ _) c =
     (if p = PidClientInputMuted own then Some (reset_bool (\<lambda>c b. c\<lparr>dcl_input_muted := b\<rparr>) old c)
      else if p = PidClientOutputMuted own then Some (reset_bool (\<lambda>c b. c\<lparr>dcl_output_muted := b\<rparr>) old c)
      else if p = PidClientInputHardwareEnabled own
        then Some (reset_bool (\<lambda>c b. c\<lparr>dcl_input_hardware_enabled := b\<rparr>) old c)
      else if p = PidClientOutputHardwareEnabled own
        then Some (reset_bool (\<lambda>c b. c\<lparr>dcl_output_hardware_enabled := b\<rparr>) old c)
      else if p = PidClientOutputOnlyMuted own then Some (reset_bool (\<lambda>c b. c\<lparr>dcl_output_only_muted := b\<rparr>) old c)
      else if p = PidClientAwayMessage own
        then Some (case old of PvOptionString t \<Rightarrow> c\<lparr>dcl_away_message := t\<rparr> | _ \<Rightarrow> c)
      else None)"
| "mute_reset own _ c = None"

fun retain_events :: "u16 \<Rightarrow> 'x event list \<Rightarrow> 'x data_client \<Rightarrow> 'x event list \<times> 'x data_client" where
  "retain_events own [] c = ([], c)"
| "retain_events own (e # es) c = (case mute_reset own e c of
      Some c \<Rightarrow> retain_events own es c
    | None \<Rightarrow> (case retain_events own es c of (kept, c) \<Rightarrow> (e # kept, c)))"

definition ignore_own_mute :: "'x event list \<Rightarrow> 'x data_book \<Rightarrow> 'x event list \<times> 'x data_book" where
  "ignore_own_mute es b = (case own_client b of
      None \<Rightarrow> (es, b)
    | Some c \<Rightarrow> (case retain_events (db_own_client b) es c of
        (kept, c) \<Rightarrow> (kept, set_client (db_own_client b) c b)))"

text \<open>The message goes to the book. The last component is whether the book handled it.\<close>

definition book_part ::
    "('q, 'w, 'p, 's, 'x, 'r) library \<Rightarrow> int \<Rightarrow> 'r lib_message \<Rightarrow> ('q, 'w, 'p, 's, 'x, 'r) session_parts
      \<Rightarrow> ('q, 'w, 'p, 's, 'x, 'r) session_parts \<times> bool" where
  "book_part ly utc msg p = (case book_handle_command (ly_generated ly) msg (sp_book p) of (r, b) \<Rightarrow>
     let (es, handled) = (case r of Inl _ \<Rightarrow> ([], False) | Inr x \<Rightarrow> x);
         b = (case msg of
             BmOther (LmConnectionInfo ms, _) \<Rightarrow> connection_info (utc - cn_connection_time (sp_con p)) ms b
           | _ \<Rightarrow> b)
     in if es = [] then (p\<lparr>sp_book := b\<rparr>, handled)
        else (case ignore_own_mute es b of (kept, b) \<Rightarrow>
          (p\<lparr>sp_book := b, sp_items := sp_items p @ [Inr (LiBookEvents kept)]\<rparr>, handled)))"

definition add_items :: "('x, 'r) library_items \<Rightarrow> ('q, 'w, 'p, 's, 'x, 'r) session_parts \<Rightarrow> ('q, 'w, 'p, 's, 'x, 'r) session_parts" where
  "add_items new p = p\<lparr>sp_items := sp_items p @ new\<rparr>"

definition add_transfers ::
    "bool \<Rightarrow> file_part list \<Rightarrow> ('q, 'w, 'p, 's, 'x, 'r) session_parts \<Rightarrow> ('q, 'w, 'p, 's, 'x, 'r) session_parts" where
  "add_transfers upload ms p = (let con = sp_con p in
     p\<lparr>sp_con := con\<lparr>cn_filetransfers :=
       cn_filetransfers con @ map (transfer_of upload (env_address (cn_env con))) ms\<rparr>\<rparr>)"

definition answer_connection_info ::
    "('q, 'w, 'p, 's, 'x, 'r) library \<Rightarrow> ('q, 'w, 'p, 's, 'x, 'r) session_parts
      \<Rightarrow> ('q, 'w, 'p, 's, 'x, 'r) session_parts polled" where
  "answer_connection_info ly p =
     (let st = rs_stats (con_resender (hs_con (cn_client (sp_con p)))) in
      case con_send (ly_write ly (LoConnectionReport (connection_report_of st))) (sp_con p) of
        (None, con) \<Rightarrow> Ready (p\<lparr>sp_con := con\<rparr>)
      | (Some e, con) \<Rightarrow>
          if e = ClientPanic then Panicked
          else Ready (add_items [Inl (SendPacket (CauseClient e))] (p\<lparr>sp_con := con\<rparr>)))"

text \<open>The first half: who handles the message.\<close>

definition handle_message_part ::
    "('q, 'w, 'p, 's, 'x, 'r) library \<Rightarrow> int \<Rightarrow> 'r lib_message \<Rightarrow> ('q, 'w, 'p, 's, 'x, 'r) session_parts
      \<Rightarrow> (('q, 'w, 'p, 's, 'x, 'r) session_parts \<times> bool) polled" where
  "handle_message_part ly utc msg p = (case msg of
      BmCommandError es \<Rightarrow> (case error_results es of (new, handled) \<Rightarrow> Ready (add_items new p, handled))
    | BmOther (LmFileDownload ms, _) \<Rightarrow> Ready (add_transfers False ms p, True)
    | BmOther (LmFileUpload ms, _) \<Rightarrow> Ready (add_transfers True ms p, True)
    | BmOther (LmFiletransferStatus ms, _) \<Rightarrow>
        Ready (add_items (map (\<lambda>(i, status). Inr (LiFiletransferFailed i (CommandError status None))) ms) p, True)
    | BmOther (LmConnectionInfoRequest, _) \<Rightarrow> (case answer_connection_info ly p of
        Ready p \<Rightarrow> Ready (p, True) | Pending \<Rightarrow> Pending | Panicked \<Rightarrow> Panicked | NoFuel \<Rightarrow> NoFuel)
    | _ \<Rightarrow> Ready (book_part ly utc msg p))"

text \<open>The second half. \<open>Some\<close> is the reason why the server is gone.\<close>

definition server_stopped :: "u16 \<Rightarrow> (u16 \<times> reason option) list \<Rightarrow> bool" where
  "server_stopped own ms \<longleftrightarrow>
     (\<exists>(i, r)\<in>set ms. i = own \<and> r \<in> {Some Serverstop, Some ClientdisconnectServerShutdown})"

definition moved_channel :: "u16 \<Rightarrow> (u16 \<times> u64) list \<Rightarrow> 'w library_options \<Rightarrow> 'w library_options" where
  "moved_channel own ms opt = (case find (\<lambda>(i, target). i = own \<and> target \<noteq> 0) ms of
      None \<Rightarrow> opt
    | Some (_, target) \<Rightarrow> opt\<lparr>opt_channel := Some (channel_path target)\<rparr>)"

definition renamed :: "u16 \<Rightarrow> u16 \<times> rstr option \<Rightarrow> 'w library_options \<Rightarrow> 'w library_options" where
  "renamed own m opt = (case snd m of Some name \<Rightarrow> if fst m = own then opt\<lparr>opt_name := name\<rparr> else opt | None \<Rightarrow> opt)"

definition follow_up ::
    "('q, 'w, 'p, 's, 'x, 'r) library \<Rightarrow> 'r lib_message \<Rightarrow> ('q, 'w, 'p, 's, 'x, 'r) session_parts
      \<Rightarrow> (temporary_reason option \<times> ('q, 'w, 'p, 's, 'x, 'r) session_parts) polled" where
  "follow_up ly msg p = (let own = db_own_client (sp_book p) in case msg of
      BmOther (LmChannelCreated ids, _) \<Rightarrow>
        if cn_subscribed (sp_con p)
        then (case con_send (ly_write ly (LoChannelSubscribe ids)) (sp_con p) of
            (e, con) \<Rightarrow> if e = Some ClientPanic then Panicked else Ready (None, p\<lparr>sp_con := con\<rparr>))
        else Ready (None, p)
    | BmOther (LmClientLeftView ms, _) \<Rightarrow> Ready (if server_stopped own ms then Some ServerStopped else None, p)
    | BmOther (LmClientMoved ms, _) \<Rightarrow> Ready (None, p\<lparr>sp_options := moved_channel own ms (sp_options p)\<rparr>)
    | BmOther (LmClientUpdated ms, _) \<Rightarrow> Ready (None, p\<lparr>sp_options := fold (renamed own) ms (sp_options p)\<rparr>)
    | _ \<Rightarrow> Ready (None, p))"

definition library_handle_command ::
    "('q, 'w, 'p, 's, 'x, 'r) library \<Rightarrow> int \<Rightarrow> in_packet \<Rightarrow> ('q, 'w, 'p, 's, 'x, 'r) session_parts
      \<Rightarrow> (temporary_reason option \<times> ('q, 'w, 'p, 's, 'x, 'r) session_parts) polled" where
  "library_handle_command ly utc cmd p = (case ly_parse ly cmd of
      Inl _ \<Rightarrow> Ready (None, p)
    | Inr msg \<Rightarrow> (case handle_message_part ly utc msg p of
        Ready (p, handled) \<Rightarrow> (case follow_up ly msg p of
            Ready (None, p) \<Rightarrow> Ready (None, if handled then p else add_items [Inr (LiMessageEvent msg)] p)
          | r \<Rightarrow> r)
      | Pending \<Rightarrow> Pending | Panicked \<Rightarrow> Panicked | NoFuel \<Rightarrow> NoFuel))"

end
