(* ===== verification/LibraryPoll.thy ===== *)
theory LibraryPoll
  imports Library
begin

text \<open>
  Polling a connection, \<open>Connection::poll_next\<close> of \<open>tsclientlib/src/lib.rs\<close>: waiting for the attempt to connect,
  for a better identity, or for what the client of the protocol yields.
\<close>

section \<open>The rounds of the client\<close>

lemma con_send_rounds:
  "con_send x con = (r, con') \<Longrightarrow> hs_rounds (cn_client con') = hs_rounds (cn_client con)"
  using client_send_packet_rounds [of "cn_env con" x "cn_client con"]
  by (auto simp: con_send_def split: prod.splits outcome.splits)

abbreviation rounds_of :: "('q, 'w, 'p, 's, 'x, 'r) session_parts \<Rightarrow> (instant \<times> recv_answer list) list" where
  "rounds_of p \<equiv> hs_rounds (cn_client (sp_con p))"

lemma add_items_rounds [simp]: "rounds_of (add_items new p) = rounds_of p"
  by (simp add: add_items_def)

lemma handle_message_part_rounds:
  "handle_message_part ly utc msg p = Ready (p', handled) \<Longrightarrow> rounds_of p' = rounds_of p"
  by (auto simp: handle_message_part_def add_transfers_def answer_connection_info_def book_part_def Let_def
    split: book_message.splits prod.splits library_message.splits polled.splits option.splits if_splits
    dest: con_send_rounds)

lemma follow_up_rounds: "follow_up ly msg p = Ready (r, p') \<Longrightarrow> rounds_of p' = rounds_of p"
  by (auto simp: follow_up_def Let_def split: book_message.splits prod.splits library_message.splits if_splits
    dest: con_send_rounds)

lemma library_handle_command_rounds:
  "library_handle_command ly utc cmd p = Ready (r, p') \<Longrightarrow> rounds_of p' = rounds_of p"
  by (auto simp: library_handle_command_def split: sum.splits polled.splits prod.splits option.splits if_splits
    dest!: handle_message_part_rounds follow_up_rounds)

section \<open>Connected\<close>

definition whole :: "('q, 'w, 'p, 's, 'x, 'r) session_parts \<Rightarrow> ('q, 'w, 'p, 's, 'x, 'r) library_connection" where
  "whole p = \<lparr>lc_state = LcConnected (sp_con p) (sp_book p), lc_options = sp_options p, lc_items = sp_items p\<rparr>"

text \<open>The connection that connects again, with a copy of the options.\<close>

definition reconnecting ::
    "'w library_options \<Rightarrow> ('x, 'r) library_items \<Rightarrow> ('q, 'w, 'p, 's, 'x, 'r) library_connection" where
  "reconnecting opt items = \<lparr>lc_state = LcConnecting opt True False, lc_options = opt, lc_items = items\<rparr>"

type_synonym ('q, 'w, 'p, 's, 'x, 'r) poll_answer =
  "(library_error + ('x, 'r) library_item) option polled \<times> ('q, 'w, 'p, 's, 'x, 'r) library_connection"

text \<open>The stream yields an error.\<close>

definition client_failed ::
    "handshake_error \<Rightarrow> ('q, 'w, 'p, 's, 'x, 'r) session_parts \<Rightarrow> ('q, 'w, 'p, 's, 'x, 'r) poll_answer" where
  "client_failed e p =
     (if e = ClientPanic then (Panicked, whole p)
      else if rs_state (con_resender (hs_con (cn_client (sp_con p)))) \<in> {Disconnected, Disconnecting}
      then (Ready None, whole p)
      else (case e of
          TsProto (Timeout r) \<Rightarrow>
            (Ready (Some (Inr (LiDisconnectedTemporarily (TimedOut r)))), reconnecting (sp_options p) (sp_items p))
        | _ \<Rightarrow> (Ready (Some (Inl (ConnectionFailed (CauseClient e)))), whole p)))"

text \<open>Whether a voice packet is passed on.\<close>

definition audio_accepted :: "in_packet \<Rightarrow> ('q, 'w, 'p, 's, 'x, 'r) session_parts \<Rightarrow> bool" where
  "audio_accepted pkt p \<longleftrightarrow> intern_can_receive_audio (sp_book p) (sp_options p)
     \<and> (\<not> has_flag (hdr_flags (ip_header pkt)) UNENCRYPTED
        \<or> intern_can_receive_unencrypted_audio (sp_book p) (hdr_packet_type (ip_header pkt) = Some VoiceWhisper))"

text \<open>The items when the server has gone, the first of which is yielded.\<close>

definition stopped_items ::
    "'x data_book \<Rightarrow> 'w library_options \<Rightarrow> temporary_reason \<Rightarrow> ('x, 'r) library_items" where
  "stopped_items b opt reason = (if intern_can_send_audio b opt then [Inr (LiCanSendAudio False)] else [])
     @ (if intern_can_receive_audio b opt then [Inr (LiCanReceiveAudio False)] else [])
     @ [Inr (LiDisconnectedTemporarily reason)]"

definition yield_first ::
    "('q, 'w, 'p, 's, 'x, 'r) library_connection \<Rightarrow> ('q, 'w, 'p, 's, 'x, 'r) poll_answer" where
  "yield_first c = (case lc_items c of
      [] \<Rightarrow> (Panicked, c)
    | it # items \<Rightarrow> (Ready (Some it), c\<lparr>lc_items := items\<rparr>))"

text \<open>
  One round of the loop over what the client yields: \<open>Inl\<close> ends it. \<open>Pending\<close> leaves the file transfers to be
  looked at.
\<close>

definition audio_round ::
    "in_packet \<Rightarrow> audio_data \<Rightarrow> ('q, 'w, 'p, 's, 'x, 'r) session_parts
      \<Rightarrow> ('q, 'w, 'p, 's, 'x, 'r) poll_answer + ('q, 'w, 'p, 's, 'x, 'r) session_parts" where
  "audio_round pkt a p = (if audio_accepted pkt p then Inl (Ready (Some (Inr (LiAudio pkt a))), whole p) else Inr p)"

definition command_round ::
    "('q, 'w, 'p, 's, 'x, 'r) library \<Rightarrow> int \<Rightarrow> in_packet \<Rightarrow> ('q, 'w, 'p, 's, 'x, 'r) session_parts
      \<Rightarrow> ('q, 'w, 'p, 's, 'x, 'r) poll_answer + ('q, 'w, 'p, 's, 'x, 'r) session_parts" where
  "command_round ly utc cmd p = (case library_handle_command ly utc cmd p of
      Ready (Some reason, p') \<Rightarrow>
        Inl (yield_first (reconnecting (sp_options p') (sp_items p' @ stopped_items (sp_book p) (sp_options p) reason)))
    | Ready (None, p') \<Rightarrow>
        let p' = add_items (audio_changes (sp_book p) (sp_options p) (sp_book p') (sp_options p')) p' in
        if sp_items p' = [] then Inr p' else Inl (yield_first (whole p'))
    | Pending \<Rightarrow> Inl (Pending, whole p)
    | Panicked \<Rightarrow> Inl (Panicked, whole p)
    | NoFuel \<Rightarrow> Inl (NoFuel, whole p))"

definition loop_round ::
    "('q, 'w, 'p, 's, 'x, 'r) library \<Rightarrow> int \<Rightarrow> ('q, 'w, 'p, 's, 'x, 'r) session_parts
      \<Rightarrow> ('q, 'w, 'p, 's, 'x, 'r) poll_answer + ('q, 'w, 'p, 's, 'x, 'r) session_parts" where
  "loop_round ly utc p = (case client_next (cn_env (sp_con p)) (cn_client (sp_con p)) of (out, s) \<Rightarrow>
     let p = p\<lparr>sp_con := (sp_con p)\<lparr>cn_client := s\<rparr>\<rparr> in case out of
        Waiting \<Rightarrow> Inl (Pending, whole p)
      | OutOfFuel \<Rightarrow> Inl (NoFuel, whole p)
      | Raised e \<Rightarrow> Inl (client_failed e p)
      | Returned None \<Rightarrow> Inl (Ready None, whole p)
      | Returned (Some it) \<Rightarrow> (case it of
          StreamAudio pkt a \<Rightarrow> audio_round pkt a p
        | StreamCommand cmd \<Rightarrow> command_round ly utc cmd p
        | NetworkStatsUpdated \<Rightarrow> Inl (Ready (Some (Inr LiNetworkStatsUpdated)), whole p)
        | _ \<Rightarrow> Inr p))"

lemma command_round_rounds: "command_round ly utc cmd p = Inr p' \<Longrightarrow> rounds_of p' = rounds_of p"
  by (auto simp: command_round_def Let_def split: polled.splits prod.splits option.splits if_splits
    dest: library_handle_command_rounds)

lemma loop_round_rounds: "loop_round ly utc p = Inr p' \<Longrightarrow> length (rounds_of p') < length (rounds_of p)"
  by (auto simp: loop_round_def audio_round_def Let_def split: prod.splits outcome.splits option.splits stream_item.splits
    if_splits dest!: command_round_rounds client_next_rounds)

function connected_loop ::
    "('q, 'w, 'p, 's, 'x, 'r) library \<Rightarrow> int \<Rightarrow> ('q, 'w, 'p, 's, 'x, 'r) session_parts
      \<Rightarrow> ('q, 'w, 'p, 's, 'x, 'r) poll_answer" where
  "connected_loop ly utc p = (case loop_round ly utc p of
      Inl answer \<Rightarrow> answer
    | Inr p' \<Rightarrow> connected_loop ly utc p')"
  by pat_completeness auto
termination
  by (relation "measure (\<lambda>(ly, utc, p). length (rounds_of p))") (auto dest: loop_round_rounds)

declare connected_loop.simps [simp del]

text \<open>What every round keeps up to the end holds of the answer.\<close>

lemma connected_loop_rule:
  assumes "I p" "\<And>p p'. I p \<Longrightarrow> loop_round ly utc p = Inr p' \<Longrightarrow> I p'"
    "\<And>p answer. I p \<Longrightarrow> loop_round ly utc p = Inl answer \<Longrightarrow> Q answer"
  shows "Q (connected_loop ly utc p)"
  using assms(1)
proof (induction "length (rounds_of p)" arbitrary: p rule: less_induct)
  case less
  show ?case
  proof (cases "loop_round ly utc p")
    case (Inl answer)
    then show ?thesis using assms(3) less.prems by (simp add: connected_loop.simps [of ly utc p])
  next
    case (Inr p')
    then have "Q (connected_loop ly utc p')"
      using less.hyps loop_round_rounds assms(2) less.prems by blast
    then show ?thesis using Inr by (simp add: connected_loop.simps [of ly utc p])
  qed
qed

text \<open>
  The first transfer whose stream or error is there: \<open>answers\<close> has an entry for every transfer, \<open>Some\<close> the error
  or the stream.
\<close>

definition transfer_item :: "file_transfer \<Rightarrow> nat + nat \<Rightarrow> ('x, 'r) library_item" where
  "transfer_item t r = (case r of
      Inl e \<Rightarrow> LiFiletransferFailed (ft_id t) (FiletransferIo (CauseIo e))
    | Inr stream \<Rightarrow> (if ft_upload t then LiFileUpload else LiFileDownload) (ft_id t) (ft_size t) stream)"

fun ready_transfer ::
    "file_transfer list \<Rightarrow> (nat + nat) option list \<Rightarrow> (('x, 'r) library_item \<times> file_transfer list) option" where
  "ready_transfer (t # ts) (Some r # rs) = Some (transfer_item t r, ts)"
| "ready_transfer (t # ts) (None # rs) = map_option (\<lambda>(it, ts). (it, t # ts)) (ready_transfer ts rs)"
| "ready_transfer _ _ = None"

text \<open>What a poll finds: the inputs of \<open>connect\<close>, the answer of the thread, arrivals, the date, the streams.\<close>

record ('w, 's) poll_input =
  pi_connect :: "'s connect_world option"
  pi_identity :: "'w key_identity option option"
  pi_rounds :: "(instant \<times> recv_answer list) list"
  pi_utc :: int
  pi_streams :: "(nat + nat) option list"

definition check_transfers ::
    "(nat + nat) option list \<Rightarrow> ('q, 'w, 'p, 's, 'x, 'r) poll_answer \<Rightarrow> ('q, 'w, 'p, 's, 'x, 'r) poll_answer" where
  "check_transfers streams answer = (case answer of
      (Pending, c) \<Rightarrow> (case lc_state c of
          LcConnected con b \<Rightarrow> (case ready_transfer (cn_filetransfers con) streams of
              Some (it, ts) \<Rightarrow>
                (Ready (Some (Inr it)), c\<lparr>lc_state := LcConnected (con\<lparr>cn_filetransfers := ts\<rparr>) b\<rparr>)
            | None \<Rightarrow> answer)
        | _ \<Rightarrow> answer)
    | _ \<Rightarrow> answer)"

definition poll_connected ::
    "('q, 'w, 'p, 's, 'x, 'r) library \<Rightarrow> ('w, 's) poll_input \<Rightarrow> ('q, 'w, 'p, 's) connected_connection \<Rightarrow> 'x data_book
      \<Rightarrow> 'w library_options \<Rightarrow> ('q, 'w, 'p, 's, 'x, 'r) poll_answer" where
  "poll_connected ly i con b opt = check_transfers (pi_streams i) (connected_loop ly (pi_utc i)
     \<lparr>sp_con = con\<lparr>cn_client := (cn_client con)\<lparr>hs_rounds := pi_rounds i\<rparr>\<rparr>, sp_book = b, sp_options = opt, sp_items = []\<rparr>)"

section \<open>Connecting\<close>

text \<open>\<open>increase_identity_level\<close>: an error, or the thread is started.\<close>

definition increase_identity_level ::
    "('q, 'w, 'p, 's, 'x, 'r) library \<Rightarrow> u8 \<Rightarrow> 'w library_options \<Rightarrow> library_error option polled" where
  "increase_identity_level ly needed opt =
     (if 20 < needed then Ready (Some (IdentityLevel needed))
      else case opt_identity opt of
          None \<Rightarrow> Panicked
        | Some i \<Rightarrow> let level = identity_level (env_lib (ly_env ly)) i in
            Ready (if needed \<le> level then Some (IdentityLevelCorrupted needed level) else None))"

definition timed_out :: "library_error \<Rightarrow> bool" where
  "timed_out e = (case e of ConnectFailed _ errors \<Rightarrow>
       list_ex (\<lambda>e. case e of Connect (CauseClient (TsProto (Timeout _))) \<Rightarrow> True | _ \<Rightarrow> False) errors
     | _ \<Rightarrow> False)"

text \<open>
  A future that has ended must not be polled again. When it is replaced at once, the poll of the new one is
  pending, since it starts with a sleep.
\<close>

definition connect_failed ::
    "('q, 'w, 'p, 's, 'x, 'r) library \<Rightarrow> library_error \<Rightarrow> bool \<Rightarrow> ('q, 'w, 'p, 's, 'x, 'r) library_connection
      \<Rightarrow> ('q, 'w, 'p, 's, 'x, 'r) poll_answer" where
  "connect_failed ly e again c = (case e of
      IdentityLevel level \<Rightarrow> (case increase_identity_level ly level (lc_options c) of
          Ready (Some e) \<Rightarrow> (Ready (Some (Inl e)), c)
        | Ready None \<Rightarrow> (Ready (Some (Inr (LiIdentityLevelIncreasing level))), c\<lparr>lc_state := LcIncreasing False False\<rparr>)
        | _ \<Rightarrow> (Panicked, c))
    | _ \<Rightarrow>
        if again \<and> timed_out e then (Pending, reconnecting (lc_options c) (lc_items c))
        else (Ready (Some (Inl e)), c))"

definition now_connected ::
    "int \<Rightarrow> ('q, 'w, 'p, 's, 'x) established \<Rightarrow> ('q, 'w, 'p, 's, 'x, 'r) library_connection
      \<Rightarrow> ('q, 'w, 'p, 's, 'x, 'r) poll_answer" where
  "now_connected utc est c = (case est of (env, s, b) \<Rightarrow>
     let con = \<lparr>cn_env = env, cn_client = s, cn_return_code = 0, cn_filetransfer_id = 0, cn_subscribed = False,
       cn_filetransfers = [], cn_connection_time = utc\<rparr> in
     (Ready (Some (Inr (LiBookEvents [PropertyAdded PidServer None None]))),
      c\<lparr>lc_state := LcConnected con b,
        lc_items := lc_items c
          @ (if intern_can_send_audio b (lc_options c) then [Inr (LiCanSendAudio True)] else [])
          @ (if intern_can_receive_audio b (lc_options c) then [Inr (LiCanReceiveAudio True)] else [])\<rparr>))"

definition poll_connecting ::
    "('q, 'w, 'p, 's, 'x, 'r) library \<Rightarrow> ('w, 's) poll_input \<Rightarrow> 'w library_options \<Rightarrow> bool
      \<Rightarrow> ('q, 'w, 'p, 's, 'x, 'r) library_connection \<Rightarrow> ('q, 'w, 'p, 's, 'x, 'r) poll_answer" where
  "poll_connecting ly i opt again c = (case pi_connect i of
      None \<Rightarrow> (Pending, c)
    | Some w \<Rightarrow> (case library_connect ly opt w of
        Ready (Inr est) \<Rightarrow> now_connected (pi_utc i) est c
      | Ready (Inl e) \<Rightarrow> connect_failed ly e again (c\<lparr>lc_state := LcConnecting opt again True\<rparr>)
      | Pending \<Rightarrow> (Pending, c)
      | Panicked \<Rightarrow> (Panicked, c)
      | NoFuel \<Rightarrow> (NoFuel, c)))"

definition poll_increasing ::
    "('w, 's) poll_input \<Rightarrow> bool \<Rightarrow> ('q, 'w, 'p, 's, 'x, 'r) library_connection
      \<Rightarrow> ('q, 'w, 'p, 's, 'x, 'r) poll_answer" where
  "poll_increasing i cancelled c = (case pi_identity i of
      None \<Rightarrow> (Pending, c)
    | Some None \<Rightarrow> (Ready (Some (Inl IdentityLevelIncreaseFailedThread)), c\<lparr>lc_state := LcIncreasing cancelled True\<rparr>)
    | Some (Some identity) \<Rightarrow> let opt = (lc_options c)\<lparr>opt_identity := Some identity\<rparr> in
        (Ready (Some (Inr LiIdentityLevelIncreased)), c\<lparr>lc_options := opt, lc_state := LcConnecting opt False False\<rparr>))"

section \<open>A poll\<close>

definition library_poll_next ::
    "('q, 'w, 'p, 's, 'x, 'r) library \<Rightarrow> ('w, 's) poll_input \<Rightarrow> ('q, 'w, 'p, 's, 'x, 'r) library_connection
      \<Rightarrow> ('q, 'w, 'p, 's, 'x, 'r) poll_answer" where
  "library_poll_next ly i c =
     (if lc_items c \<noteq> [] then yield_first c
      else case lc_state c of
          LcConnecting opt again ended \<Rightarrow> if ended then (Panicked, c) else poll_connecting ly i opt again c
        | LcIncreasing cancelled gone \<Rightarrow> if gone then (Panicked, c) else poll_increasing i cancelled c
        | LcConnected con b \<Rightarrow> poll_connected ly i con b (lc_options c))"

end
