(* ===== verification/SessionKeys.thy ===== *)
theory SessionKeys
  imports Connect
begin

unbundle bit_operations_syntax

text \<open>
  The identity of a session, its client identifier, its shared keys and the state of the resender, is
  changed only by the client (\<open>Handshake\<close>): sending, receiving, resending and pinging keep it.
\<close>

named_theorems same_session

definition session_of :: "proto_con \<Rightarrow> (u16 \<times> bool \<times> u8 list \<times> u8 list) option \<times> resender_state \<times> bool" where
  "session_of con = (map_option (\<lambda>P. (cp_c_id P, cp_voice_encryption P, cp_shared_iv P, cp_shared_mac P))
     (con_params con), rs_state (con_resender con), is_client con)"

lemma session_of_cong:
  "con_params con' = con_params con \<Longrightarrow> rs_state (con_resender con') = rs_state (con_resender con)
    \<Longrightarrow> is_client con' = is_client con \<Longrightarrow> session_of con' = session_of con"
  by (simp add: session_of_def)

lemma session_of_update [same_session]:
  "session_of (con\<lparr>acks_to_send := a\<rparr>) = session_of con" "session_of (con\<lparr>stream_items := i\<rparr>) = session_of con"
  "session_of (con\<lparr>con_codec := c\<rparr>) = session_of con" "session_of (push_item it con) = session_of con"
  "rs_state r = rs_state (con_resender con) \<Longrightarrow> session_of (con\<lparr>con_resender := r\<rparr>) = session_of con"
  by (simp_all add: session_of_def push_item_def)

lemma session_of_cache [same_session]:
  "con_params con = Some P \<Longrightarrow> session_of (con\<lparr>con_params := Some (P\<lparr>cp_key_cache := k\<rparr>)\<rparr>) = session_of con"
  by (simp add: session_of_def)

section \<open>The resender\<close>

lemma fill_loop_state [simp]: "rs_state (fst (fill_loop n iters r)) = rs_state r"
  by (induction n arbitrary: iters r) (simp_all add: Let_def split: option.split)

lemma fill_up_state [simp]: "rs_state (fill_up_send_queue lib now r) = rs_state r"
proof -
  define n where "n = unat (get_window lib now r) - length (rs_send_queue r)"
  obtain r' b where f: "fill_loop n (unsent r) r = (r', b)" by (metis surj_pair)
  then have "rs_state r' = rs_state r" using fill_loop_state [of n "unsent r" r] by simp
  with f show ?thesis by (simp add: fill_up_send_queue_def n_def split: option.split)
qed

lemma resender_states [simp]:
  "rs_state (rebuild_send_queue lib now r) = rs_state r" "rs_state (packet_lost lib now d r) = rs_state r"
  "rs_state (handle_loss_outgoing t u r) = rs_state r" "rs_state (handle_loss_incoming t p b i r) = rs_state r"
  "rs_state (handle_loss_resend_command r) = rs_state r" "rs_state (handle_loss_resend_ack r) = rs_state r"
  "rs_state (received_packet now r) = rs_state r" "rs_state (update_srtt d r) = rs_state r"
  "rs_state (add_record qi rec r) = rs_state r" "rs_state (take_stats now r) = rs_state r"
  "rs_state (forget_pings r) = rs_state r" "rs_state (remember_ping now pid r) = rs_state r"
  by (simp_all add: rebuild_send_queue_def packet_lost_def handle_loss_outgoing_def handle_loss_incoming_def
    handle_loss_resend_command_def handle_loss_resend_ack_def received_packet_def update_srtt_def
    add_record_def take_stats_def forget_pings_def remember_ping_def Let_def)

lemma ack_states [simp]:
  "rs_state (ack_ping now i r) = rs_state r" "rs_state (remove_acked now qi pid r) = rs_state r"
  by (auto simp: ack_ping_def remove_acked_def Let_def split: option.splits)

lemma record_sent_state [simp]: "rs_state (record_sent lib now d qi e others rec r) = rs_state r"
  by (simp add: record_sent_def Let_def split: option.splits)

lemma resender_send_session [same_session]:
  "resender_send_packet lib now u con = Some con' \<Longrightarrow> session_of con' = session_of con"
  by (auto simp: resender_send_packet_def Let_def same_session split: bind_splits)

lemma resender_ack_session [same_session]:
  "resender_ack_packet now t i con = Some con' \<Longrightarrow> session_of con' = session_of con"
  by (auto simp: resender_ack_packet_def Let_def same_session push_item_def
    split: if_splits option.splits list.splits intro!: session_of_cong)

lemma sock_send_session [same_session]: "sock_send u con = (a, con') \<Longrightarrow> session_of con' = session_of con"
  by (auto simp: sock_send_def split: list.splits send_answer.splits intro!: session_of_cong)

lemma resend_step_session:
  "resend_step lib now con = Again con' \<Longrightarrow> session_of con' = session_of con"
  "resend_step lib now con = Stopped con' \<Longrightarrow> session_of con' = session_of con"
  "resend_step lib now con = Failed con' e \<Longrightarrow> session_of con' = session_of con"
  by (auto simp: resend_step_def Let_def same_session dest!: sock_send_session
    split: option.splits prod.splits if_splits send_answer.splits)

lemma poll_resend_session [same_session]:
  "poll_resend n lib now con = Some (con', e) \<Longrightarrow> session_of con' = session_of con"
proof (induction n arbitrary: con)
  case (Suc n)
  then show ?case
    by (cases "resend_step lib now con") (auto dest: resend_step_session)
qed simp

section \<open>Sending\<close>

lemma encrypt_packet_session [same_session]:
  "encrypt_packet lib fake should gen p con = (r, con') \<Longrightarrow> session_of con' = session_of con"
  by (auto simp: encrypt_packet_def same_session split: if_splits option.splits prod.splits)

lemma encode_pieces_session [same_session]:
  "encode_pieces lib t fake should ps con = (r, con') \<Longrightarrow> session_of con' = session_of con"
proof (induction ps arbitrary: con r con')
  case (Cons p ps)
  then show ?case
    by (auto simp: Let_def same_session split: option.splits prod.splits sum.splits if_splits
      dest!: encrypt_packet_session)
qed simp

lemma encode_packet_session [same_session]:
  "encode_packet lib p con = (r, con') \<Longrightarrow> session_of con' = session_of con"
  by (auto simp: encode_packet_def Let_def split: option.splits prod.splits dest: encode_pieces_session)

lemma send_udp_packets_session [same_session]:
  "send_udp_packets lib now us con = Some con' \<Longrightarrow> session_of con' = session_of con"
proof (induction us arbitrary: con)
  case (Cons u us)
  from Cons.prems obtain c where c: "send_udp_packet lib now u con = Some c" "send_udp_packets lib now us c = Some con'"
    by (auto split: bind_splits)
  have "session_of c = session_of con"
    using c(1) by (auto simp: send_udp_packet_def same_session split: option.splits if_splits)
  with Cons.IH [OF c(2)] show ?case by simp
qed simp

lemma send_packet_session [same_session]:
  "send_packet lib now p con = (r, con') \<Longrightarrow> session_of con' = session_of con"
  by (auto simp: send_packet_def split: prod.splits sum.splits option.splits if_splits
    dest!: encode_packet_session send_udp_packets_session)

lemma handle_loss_outgoing_udp_session [same_session]: "session_of (handle_loss_outgoing_udp u con) = session_of con"
  by (simp add: handle_loss_outgoing_udp_def same_session split: option.split)

lemma send_ack_packet_session [same_session]:
  "send_ack_packet lib p con = (con', e) \<Longrightarrow> session_of con' = session_of con"
  by (auto simp: send_ack_packet_def same_session split: prod.splits sum.splits list.splits send_answer.splits
    dest!: encode_packet_session sock_send_session)

lemma poll_send_acks_session [same_session]:
  "poll_send_acks con = (con', e) \<Longrightarrow> session_of con' = session_of con"
proof -
  have "poll_send_acks_loop us con = (con', e) \<Longrightarrow> session_of con' = session_of con" for us con
    by (induction us con rule: poll_send_acks_loop.induct)
      (auto simp: same_session split: prod.splits send_answer.splits dest!: sock_send_session)
  then show "poll_send_acks con = (con', e) \<Longrightarrow> session_of con' = session_of con"
    by (simp add: poll_send_acks_def)
qed

lemma poll_ping_session [same_session]:
  "poll_ping lib now con = (con', e) \<Longrightarrow> session_of con' = session_of con"
  by (auto simp: poll_ping_def poll_stats_def poll_pings_def Let_def same_session
    split: if_splits option.splits prod.splits sum.splits dest!: send_packet_session)

section \<open>Receiving\<close>

lemma decrypt_packet_session [same_session]:
  "decrypt_packet lib p t gen i con = (r, con') \<Longrightarrow> session_of con' = session_of con"
  by (auto simp: decrypt_packet_def decrypt_with_params_def same_session
    split: if_splits sum.splits option.splits prod.splits)

lemma handle_command_packet_session [same_session]:
  "handle_command_packet lib d t data con = (r, con') \<Longrightarrow> session_of con' = session_of con"
  by (auto simp: handle_command_packet_def same_session split: prod.splits)

lemma deliver_commands_session [same_session]:
  "deliver_commands now cs con = Some con' \<Longrightarrow> session_of con' = session_of con"
proof (induction cs arbitrary: con)
  case (Cons c cs)
  from Cons.prems obtain p c1 where c: "session_of c1 = session_of con"
    "deliver_commands now cs (push_item (StreamCommand p) c1) = Some con'"
    by (auto split: option.splits prod.splits bind_splits dest: resender_ack_session)
  with Cons.IH [OF c(2)] show ?case by (simp add: same_session)
qed simp

lemma handle_other_session [same_session]:
  "handle_other now t i gen p con = Some (b, con') \<Longrightarrow> session_of con' = session_of con"
  by (auto simp: handle_other_def Let_def same_session split: sum.splits option.splits dest!: resender_ack_session)

lemma ack_answer_session [same_session]:
  "ack_answer lib t i con = (con', e) \<Longrightarrow> session_of con' = session_of con"
  by (auto simp: ack_answer_def split: option.splits dest: send_ack_packet_session)

lemma handle_plain_packet_session [same_session]:
  "handle_plain_packet lib now t i gen data con = (con', e) \<Longrightarrow> session_of con' = session_of con"
  by (auto simp: handle_plain_packet_def split: if_splits prod.splits sum.splits option.splits
    dest!: handle_command_packet_session deliver_commands_session handle_other_session ack_answer_session)

lemma codec_handle_session [same_session]:
  assumes "codec_handle_udp_packet lib now data con = (con', e)"
  shows "session_of con' = session_of con"
proof (cases "Option.bind (in_packet_new (con_dir con) data) (\<lambda>p. map_option (\<lambda>t. (p, t)) (hdr_packet_type (ip_header p)))")
  case None
  then show ?thesis using assms by (auto simp: codec_handle_udp_packet_def split: option.splits)
next
  case (Some pt)
  then obtain p t where p: "in_packet_new (con_dir con) data = Some p" "hdr_packet_type (ip_header p) = Some t"
    by (auto split: bind_splits)
  obtain w gen nxt limit where w: "in_receive_window (con_codec con) t (hdr_packet_id (ip_header p)) = (w, gen, nxt, limit)"
    by (metis prod_cases4)
  define c1 where "c1 = upd_resender (handle_loss_incoming t p w nxt) con"
  have c1: "session_of c1 = session_of con" by (simp add: c1_def same_session)
  have eq: "codec_handle_udp_packet lib now data con =
      (case refused c1 t gen (hdr_packet_id (ip_header p)) (hdr_client_id (ip_header p)) of
        Some ProtoPanic \<Rightarrow> (c1, Some ProtoPanic)
      | Some e \<Rightarrow> (push_item (StreamError e) c1, None)
      | None \<Rightarrow>
          if ignores_window t \<or> w then
            if \<not> has_flag (hdr_flags (ip_header p)) UNENCRYPTED then
              if t = Ack \<and> hdr_packet_id (ip_header p) = 1 \<and> is_client c1 then (c1, None)
              else (case decrypt_packet lib p t gen (hdr_packet_id (ip_header p)) c1 of
                  (Inl e, con) \<Rightarrow> (push_item (StreamError e) con, None)
                | (Inr c, con) \<Rightarrow>
                    if length c \<noteq> length (ip_content p) then (con, Some ProtoPanic)
                    else handle_plain_packet lib now t (hdr_packet_id (ip_header p)) gen (ih_data (ip_header p) @ c) con)
            else if must_encrypt t
              then (push_item (StreamError UnallowedUnencryptedPacket) c1, None)
              else handle_plain_packet lib now t (hdr_packet_id (ip_header p)) gen data c1
          else
            let con = (if is_command t then upd_resender handle_loss_resend_ack c1 else c1);
                con = push_item (StreamError (NotInReceiveWindow (hdr_packet_id (ip_header p)) nxt limit t)) con
            in if is_command t then ack_answer lib t (hdr_packet_id (ip_header p)) con else (con, None))"
    by (simp only: codec_handle_udp_packet_def p option.case w prod.case Let_def c1_def)
  have "session_of con' = session_of c1"
    using assms unfolding eq
    by (auto simp: Let_def same_session
      split: option.splits proto_error.splits if_splits prod.splits sum.splits
      dest!: decrypt_packet_session handle_plain_packet_session ack_answer_session)
  with c1 show ?thesis by simp
qed

lemma con_handle_session [same_session]:
  "con_handle_udp_packet lib now known data con = (con', e) \<Longrightarrow> session_of con' = session_of con"
  by (auto simp: con_handle_udp_packet_def same_session split: if_splits sum.splits dest!: codec_handle_session)

lemma poll_incoming_session [same_session]:
  "poll_incoming_udp_packet lib now rs con = (r, con', rs') \<Longrightarrow> session_of con' = session_of con"
proof -
  have "poll_incoming_loop lib now rs con = (r, con', rs') \<Longrightarrow> session_of con' = session_of con" for con
    by (induction lib now rs con rule: poll_incoming_loop.induct)
      (auto simp: same_session split: prod.splits option.splits list.splits dest!: con_handle_session)
  then show "poll_incoming_udp_packet lib now rs con = (r, con', rs') \<Longrightarrow> session_of con' = session_of con"
    by (auto simp: poll_incoming_udp_packet_def split: if_splits)
qed

lemma poll_next_session:
  assumes "poll_next fuel lib now rs con = Some (r, con', rs')"
  shows "session_of con' = session_of con"
  using assms
  by (auto simp: poll_next_def same_session split: prod.splits option.splits if_splits list.splits
    dest!: poll_send_acks_session poll_resend_session poll_ping_session poll_incoming_session)

end
