(* ===== verification/KeyFacts.thy ===== *)
theory KeyFacts
  imports Keys
begin

unbundle bit_operations_syntax

text \<open>
  What holds of the encodings of \<open>Keys\<close>: which keys survive their own encodings, that importing ends,
  and the levels of identities.
\<close>

section \<open>Numbers as bytes\<close>

lemma big_from_snoc [simp]: "big_from [] = 0" "big_from (bs @ [b]) = big_from bs * 256 + uint b"
  by (simp_all add: big_from_def)

lemma big_from_ge0 [simp]: "0 \<le> big_from bs"
  by (induction bs rule: rev_induct) simp_all

lemma big_from_eq0: "big_from bs = 0 \<longleftrightarrow> (\<forall>b\<in>set bs. b = 0)"
proof (induction bs rule: rev_induct)
  case (snoc b bs)
  have "big_from bs * 256 + uint b = 0 \<longleftrightarrow> big_from bs = 0 \<and> uint b = 0"
    using big_from_ge0 [of bs] uint_ge_0 [of b] by linarith
  with snoc show ?case by (auto simp: uint_0_iff)
qed simp

lemma big_from_less: "big_from bs < 256 ^ length bs"
proof (induction bs rule: rev_induct)
  case (snoc b bs)
  have "uint b < 256" using unsigned_less [of b, where ?'a = int] by simp
  then show ?case using snoc by simp
qed simp

lemma big_bytes_push:
  fixes b :: u8
  assumes "0 \<le> n"
  shows "big_bytes (n * 256 + uint b) = (if n = 0 then [b] else big_bytes n @ [b])"
proof -
  have u: "unat b < 256" using unsigned_less [of b, where ?'a = nat] by simp
  have n: "nat \<bar>n * 256 + uint b\<bar> = nat n * 256 + unat b"
    using assms uint_ge_0 [of b] by (simp add: nat_add_distrib nat_mult_distrib)
  show ?thesis
  proof (cases "n = 0")
    case True
    then show ?thesis using u n by (simp add: big_bytes_def big_digits.simps [of "unat b"])
  next
    case False
    then have "\<not> nat n * 256 + unat b < 256" using assms by simp
    then have "big_digits (nat n * 256 + unat b) = big_digits (nat n) @ [b]"
      using u by (subst big_digits.simps) simp
    then show ?thesis using False assms n by (simp add: big_bytes_def)
  qed
qed

text \<open>A number written and read as bytes loses its leading zeros.\<close>

lemma big_bytes_big_from:
  "bs \<noteq> [] \<Longrightarrow> big_bytes (big_from bs) = (if \<forall>b\<in>set bs. b = 0 then [0] else dropWhile (\<lambda>b. b = 0) bs)"
proof (induction bs rule: rev_induct)
  case (snoc b bs)
  show ?case
  proof (cases "\<forall>x\<in>set bs. x = 0")
    case True
    then have "big_from bs = 0" by (simp add: big_from_eq0)
    moreover have "dropWhile (\<lambda>x. x = 0) (bs @ [b]) = dropWhile (\<lambda>x. x = 0) [b]"
      using True by (simp add: dropWhile_append2)
    ultimately show ?thesis using True big_bytes_push [of 0 b] by auto
  next
    case False
    then have "big_from bs \<noteq> 0" "bs \<noteq> []" by (auto simp: big_from_eq0)
    moreover have "dropWhile (\<lambda>x. x = 0) (bs @ [b]) = dropWhile (\<lambda>x. x = 0) bs @ [b]"
      using False by (auto simp: dropWhile_append1)
    ultimately show ?thesis using False snoc.IH big_bytes_push [of "big_from bs" b] by auto
  qed
qed simp

lemma length_big_bytes:
  assumes "bs \<noteq> []"
  shows "length (big_bytes (big_from bs)) = length bs \<longleftrightarrow> hd bs \<noteq> 0 \<or> length bs = 1"
    and "length (big_bytes (big_from bs)) \<le> length bs"
    and "hd bs \<noteq> 0 \<Longrightarrow> big_bytes (big_from bs) = bs"
proof -
  obtain c cs where bs: "bs = c # cs" using assms by (cases bs) auto
  have d: "length (dropWhile (\<lambda>b. b = 0) cs) \<le> length cs" by (rule length_dropWhile_le)
  show "length (big_bytes (big_from bs)) = length bs \<longleftrightarrow> hd bs \<noteq> 0 \<or> length bs = 1"
    "length (big_bytes (big_from bs)) \<le> length bs"
    "hd bs \<noteq> 0 \<Longrightarrow> big_bytes (big_from bs) = bs"
    unfolding big_bytes_big_from [OF assms] using d bs by auto
qed

section \<open>Which keys survive their encodings\<close>

lemma crates_ok:
  assumes "key_crates_ok kc"
  shows "b64_dec kc (b64_enc kc d) = Some d"
    "\<forall>n\<in>set ns. 0 \<le> n \<and> n < 2 ^ 256 \<Longrightarrow> from_der kc (to_der kc (key_block c ns)) = Some [key_block c ns]"
    "length (sha1_digest kc d) = 20" "length (point_x kc q) = 32" "length (point_y kc q) = 32"
    "point_from kc (point_x kc q) (point_y kc q) = Some q" "length (secret_bytes kc w) = 32"
    "secret_from kc (secret_bytes kc w) = Some w" "sec1_decode kc (sec1_encode kc q) = Some q"
    "point_x kc q \<noteq> []" "point_y kc q \<noteq> []" "secret_bytes kc w \<noteq> []"
    "\<forall>c\<in>set (b64_enc kc d). c < 0x80"
    "big_from (point_x kc q) < 2 ^ 256" "big_from (point_y kc q) < 2 ^ 256" "big_from (secret_bytes kc w) < 2 ^ 256"
    "b64_dec kc s = Some d' \<Longrightarrow> d' \<noteq> [] \<Longrightarrow> length d' < length s"
proof -
  show xyz: "length (point_x kc q) = 32" "length (point_y kc q) = 32" "length (secret_bytes kc w) = 32"
    using assms by (simp_all add: key_crates_ok_def)
  then show "big_from (point_x kc q) < 2 ^ 256" "big_from (point_y kc q) < 2 ^ 256" "big_from (secret_bytes kc w) < 2 ^ 256"
    using big_from_less [of "point_x kc q"] big_from_less [of "point_y kc q"] big_from_less [of "secret_bytes kc w"]
    by simp_all
  from xyz show "point_x kc q \<noteq> []" "point_y kc q \<noteq> []" "secret_bytes kc w \<noteq> []"
    by (metis length_0_conv zero_neq_numeral)+
qed (use assms in \<open>auto simp: key_crates_ok_def\<close>)

lemma integer_at_Cons [simp]:
  "integer_at 0 (Asn1Integer i # bs) = Some i" "integer_at (Suc n) (b # bs) = integer_at n bs"
  by (simp_all add: integer_at_def nth_opt_def)

lemma private_bits [simp]: "private_bit [0] = Inr False" "private_bit [0x80] = Inr True"
  by (simp_all add: private_bit_def)

lemma key_sequence_block [simp]:
  "key_sequence [key_block c ns] = Inr (1, [c], Asn1BitString 1 [c] # Asn1Integer 32 # map Asn1Integer ns)"
  by (simp add: key_sequence_def key_block_def)

lemma pub_reads_written:
  assumes "key_crates_ok kc"
  shows "pub_from_ts kc (pub_to_ts kc q) =
    (if hd (point_x kc q) = 0 then Inl (WrongPublicKeyLength 32 (length (big_bytes (big_from (point_x kc q)))))
     else if hd (point_y kc q) = 0 then Inl (WrongPublicKeyLength 32 (length (big_bytes (big_from (point_y kc q)))))
     else Inr q)"
proof -
  note c = crates_ok [OF assms]
  note l = length_big_bytes [OF c(10) [of q]] length_big_bytes [OF c(11) [of q]]
  have at: "integer_at 2 [a, b, Asn1Integer x, d] = Some x" "integer_at 3 [a, b, d, Asn1Integer x] = Some x" for a b d x
    by (simp_all add: numeral_2_eq_2 numeral_3_eq_3)
  have d: "from_der kc (to_der kc (key_block 0 [big_from (point_x kc q), big_from (point_y kc q)]))
      = Some [key_block 0 [big_from (point_x kc q), big_from (point_y kc q)]]"
    by (rule c(2)) (use c(14) [of q] c(15) [of q] in simp)
  show ?thesis using c(4,5) [of q] l
    by (simp add: pub_from_ts_def pub_to_ts_def pub_from_tomcrypt_def pub_to_tomcrypt_def Let_def c(1,6) d at)
qed

lemma priv_reads_written:
  assumes "key_crates_ok kc"
  shows "priv_from_ts kc (priv_to_ts kc w) = (if hd (secret_bytes kc w) = 0 then Inl NoShortKey else Inr w)"
proof -
  note c = crates_ok [OF assms]
  note l = length_big_bytes [OF c(12) [of w]]
  have at: "integer_at 4 [a, b, d, e, Asn1Integer x] = Some x" for a b d e x
    by (simp add: numeral_eq_Suc)
  define ns where "ns = [big_from (point_x kc (public_of kc w)), big_from (point_y kc (public_of kc w)),
    big_from (secret_bytes kc w)]"
  have d: "from_der kc (to_der kc (key_block 0x80 ns)) = Some [key_block 0x80 ns]"
    by (rule c(2)) (use c(14,15) [of "public_of kc w"] c(16) [of w] in \<open>simp add: ns_def\<close>)
  show ?thesis using c(7) [of w] l
    by (simp add: priv_from_ts_def priv_to_ts_def priv_from_tomcrypt_def priv_to_tomcrypt_def
      priv_from_short_def Let_def c(1,8) d [unfolded ns_def] at)
qed

section \<open>Obfuscation\<close>

lemma length_xor_prefix [simp]: "length (xor_prefix ms ds) = length ds"
  by (induction ms ds rule: xor_prefix.induct) simp_all

lemma xor_prefix_twice [simp]: "xor_prefix ms (xor_prefix ms ds) = ds"
  by (induction ms ds rule: xor_prefix.induct) (simp_all add: xor.assoc)

lemma drop_xor_prefix: "length ms \<le> n \<Longrightarrow> drop n (xor_prefix ms ds) = drop n ds"
proof (induction ms ds arbitrary: n rule: xor_prefix.induct)
  case (1 m ms d ds)
  then show ?case by (cases n) simp_all
qed simp_all

lemma xor_hash_twice [simp]: "xor_hash kc (xor_hash kc data) = data"
  by (simp add: xor_hash_def obfuscation_hash_def drop_xor_prefix)

lemma xor_static_twice [simp]: "xor_static (xor_static data) = data"
  by (simp add: xor_static_def)

lemma length_xor [simp]: "length (xor_hash kc data) = length data" "length (xor_static data) = length data"
  by (simp_all add: xor_hash_def xor_static_def)

lemma length_IDENTITY_OBFUSCATION: "length IDENTITY_OBFUSCATION = 128"
  by (simp add: IDENTITY_OBFUSCATION_def ascii_def)

lemma utf8_decode_ascii: "\<forall>c\<in>set s. c < 0x80 \<Longrightarrow> utf8_decode s \<noteq> None"
proof (induction s)
  case (Cons c s)
  then have "uint c < 128" by (simp add: word_less_def)
  with Cons show ?case by (simp add: utf8_head_def)
qed simp

lemma reads_obfuscated:
  assumes "key_crates_ok kc" "to_ts_obfuscated kc w = Some s"
  shows "from_ts_obfuscated kc s = priv_from_ts kc (priv_to_ts kc w)"
proof -
  note c = crates_ok [OF assms(1)]
  have s: "s = b64_enc kc (xor_hash kc (xor_static (priv_to_ts kc w)))" "20 \<le> length (priv_to_ts kc w)"
    using assms(2) by (simp_all add: to_ts_obfuscated_def Let_def split: if_splits)
  have "utf8_decode (priv_to_ts kc w) \<noteq> None"
    unfolding priv_to_ts_def by (rule utf8_decode_ascii [OF c(13)])
  with s c(1) show ?thesis by (auto simp: from_ts_obfuscated_def Let_def)
qed

section \<open>Importing\<close>

lemma import_data_cong: "text data = text' data \<Longrightarrow> import_data kc text data = import_data kc text' data"
  by (simp add: import_data_def)

lemma import_data_total: "(utf8_decode data \<noteq> None \<Longrightarrow> data \<noteq> [] \<Longrightarrow> text data \<noteq> None) \<Longrightarrow> import_data kc text data \<noteq> None"
  by (auto simp: import_data_def)

lemma import_str_total:
  "key_crates_ok kc \<Longrightarrow> length s < fuel \<Longrightarrow> import_str fuel kc s \<noteq> None"
proof (induction fuel kc s rule: import_str.induct)
  case (2 fuel kc s)
  have "import_data kc (import_str fuel kc) d \<noteq> None" if d: "b64_dec kc s = Some d" for d
  proof (rule import_data_total)
    assume "d \<noteq> []"
    then have "length d < length s" by (rule crates_ok(17) [OF 2(2) d])
    then show "import_str fuel kc d \<noteq> None" using 2(1) [OF d] 2(2,3) by simp
  qed
  then show ?case by (auto split: option.splits)
qed simp

text \<open>More fuel changes nothing.\<close>

lemma import_str_more: "import_str fuel kc s = Some r \<Longrightarrow> fuel \<le> fuel' \<Longrightarrow> import_str fuel' kc s = Some r"
proof (induction fuel kc s arbitrary: r fuel' rule: import_str.induct)
  case (2 fuel kc s)
  obtain f where f: "fuel' = Suc f" "fuel \<le> f" using 2(3) by (cases fuel') auto
  have "import_data kc (import_str f kc) d = import_data kc (import_str fuel kc) d"
    if d: "b64_dec kc s = Some d" "import_data kc (import_str fuel kc) d \<noteq> None" for d
  proof (cases "d \<noteq> [] \<and> utf8_decode d \<noteq> None")
    case True
    then obtain q where "import_str fuel kc d = Some q" using d(2) by (cases "import_str fuel kc d") (auto simp: import_data_def)
    then show ?thesis using 2(1) [OF d(1) _ f(2)] by (auto intro: import_data_cong)
  qed (auto simp: import_data_def)
  then show ?case using 2(2) f by (auto split: option.splits bind_splits)
qed simp

text \<open>What an import yields was decoded from one of the formats.\<close>

inductive decodes_to :: "('q, 'w) key_crates \<Rightarrow> u8 list \<Rightarrow> 'w \<Rightarrow> bool" for kc where
  tomcrypt: "priv_from_tomcrypt kc d = Inr k \<Longrightarrow> decodes_to kc d k"
| short: "priv_from_short kc d = Inr k \<Longrightarrow> decodes_to kc d k"
| obfuscated: "from_ts_obfuscated kc d = Inr k \<Longrightarrow> decodes_to kc d k"
| base64: "b64_dec kc s = Some d \<Longrightarrow> decodes_to kc d k \<Longrightarrow> decodes_to kc s k"

lemma or_try_Inr: "or_try r s = Inr k \<Longrightarrow> r = Inr k \<or> s = Inr k"
  by (auto simp: or_try_def split: sum.splits if_splits)

lemma import_data_sound:
  assumes "import_data kc text d = Some (Inr k)" "\<And>r. text d = Some r \<Longrightarrow> r = Inr k \<Longrightarrow> decodes_to kc d k"
  shows "decodes_to kc d k"
  using assms by (auto simp: import_data_def split: if_splits bind_splits
    dest!: or_try_Inr intro: decodes_to.intros)

lemma import_str_sound: "import_str fuel kc s = Some (Inr k) \<Longrightarrow> decodes_to kc s k"
proof (induction fuel kc s rule: import_str.induct)
  case (2 fuel kc s)
  have "decodes_to kc s k" if "b64_dec kc s = Some d" "import_data kc (import_str fuel kc) d = Some (Inr k)" for d
    using that by (metis 2(1) base64 import_data_sound)
  with 2(2) show ?case
    by (auto split: option.splits bind_splits dest!: or_try_Inr intro: obfuscated)
qed simp

lemma import_sound: "import kc data = Some (Inr k) \<Longrightarrow> decodes_to kc data k"
  unfolding import_def by (rule import_data_sound) (auto intro: import_str_sound)

section \<open>Levels of identities\<close>

lemma search_level_spec:
  "offset \<le> search_level lib omega target offset
    \<and> (\<forall>o1. offset \<le> o1 \<and> o1 < search_level lib omega target offset \<longrightarrow> get_hash_cash_level lib omega o1 < target)
    \<and> (search_level lib omega target offset = - 1
      \<or> target \<le> get_hash_cash_level lib omega (search_level lib omega target offset))"
proof (induction lib omega target offset rule: search_level.induct)
  case (1 lib omega target offset)
  show ?case
  proof (cases "offset < - 1 \<and> get_hash_cash_level lib omega offset < target")
    case True
    then have less: "unat offset < unat (- 1 :: u64)" by (simp add: word_less_nat_alt)
    then have n: "unat (offset + 1) = unat offset + 1" by (simp add: unat_word_ariths unat_max_u64)
    have step: "o1 = offset \<or> offset + 1 \<le> o1" if "offset \<le> o1" for o1
      using that n by (auto simp: word_le_nat_alt word_unat_eq_iff)
    have le: "offset \<le> offset + 1" using n by (simp add: word_le_nat_alt)
    have eq: "search_level lib omega target offset = search_level lib omega target (offset + 1)"
      using True by (subst search_level.simps) simp
    have low: "get_hash_cash_level lib omega o1 < target"
      if "offset \<le> o1" "o1 < search_level lib omega target (offset + 1)" for o1
      using step [OF that(1)] that(2) 1 [OF True] True by auto
    show ?thesis unfolding eq using 1 [OF True] low le by (meson order.trans)
  next
    case False
    then have "search_level lib omega target offset = offset" by (subst search_level.simps) auto
    moreover have "offset = - 1 \<or> target \<le> get_hash_cash_level lib omega offset"
      using False by (metis linorder_not_less word_order.not_eq_extremum)
    ultimately show ?thesis by auto
  qed
qed

section \<open>Avatars\<close>

fun avatar_bytes :: "u8 list \<Rightarrow> u8 list" where
  "avatar_bytes (h # l # cs) = (push_bit 4 (h - 0x61) OR (l - 0x61)) # avatar_bytes cs"
| "avatar_bytes _ = []"

lemma avatar_bytes_as_avatar: "avatar_bytes (as_avatar uid) = uid"
proof (induction uid)
  case (Cons b uid)
  have "push_bit 4 (drop_bit 4 b) OR (b AND 0xf) = b"
  proof -
    have "b AND 0xf = take_bit 4 b" by (simp add: take_bit_eq_mask mask_eq_exp_minus_1)
    then show ?thesis by (simp only:) (rule bit_word_eqI, auto simp: bit_simps)
  qed
  with Cons show ?case by (simp add: as_avatar_def)
qed (simp add: as_avatar_def)

section \<open>Crates for the witnesses\<close>

text \<open>
  Keys of one byte, text in the letters a to p, and numbers of 32 bytes one after the other.
\<close>

definition pad_bytes :: "int \<Rightarrow> u8 list" where
  "pad_bytes n = (let bs = big_bytes n in replicate (32 - length bs) 0 @ bs)"

fun chunk_numbers :: "nat \<Rightarrow> u8 list \<Rightarrow> int list" where
  "chunk_numbers 0 bs = []"
| "chunk_numbers (Suc n) bs = big_from (take 32 bs) # chunk_numbers n (drop 32 bs)"

fun sample_to_der :: "asn1 \<Rightarrow> u8 list" where
  "sample_to_der (Asn1Sequence (Asn1BitString _ cs # _ # bs)) =
     hd cs # concat (map (\<lambda>b. case b of Asn1Integer n \<Rightarrow> pad_bytes n | _ \<Rightarrow> []) bs)"
| "sample_to_der _ = []"

fun sample_from_der :: "u8 list \<Rightarrow> asn1 list option" where
  "sample_from_der [] = None"
| "sample_from_der (c # bs) = Some [key_block c (chunk_numbers (length bs div 32) bs)]"

definition sample_crates :: "(u8, u8) key_crates" where
  "sample_crates = \<lparr>b64_enc = as_avatar,
     b64_dec = (\<lambda>s. let d = avatar_bytes s in if as_avatar d = s then Some d else None),
     from_der = sample_from_der, to_der = sample_to_der,
     sha1_digest = (\<lambda>d. replicate 20 (of_nat (length d))),
     sec1_decode = (\<lambda>d. if d = [] then None else Some (hd d)), sec1_encode = (\<lambda>q. [q]),
     point_x = (\<lambda>q. q # replicate 31 2), point_y = (\<lambda>q. (if q = 7 then 0 else 3) # replicate 31 q),
     point_from = (\<lambda>x y. if x = [] then None else Some (hd x)),
     secret_from = (\<lambda>d. if d = [] then None else Some (hd d)), secret_bytes = (\<lambda>w. w # replicate 31 1),
     public_of = (\<lambda>w. w),
     signature_from_der = (\<lambda>d. if d = [] then None else Some (tl d)),
     ecdsa_verify = (\<lambda>q d s. s = q # d), ecdsa_sign = (\<lambda>w d. 0 # w # d),
     diffie_hellman = (\<lambda>w q. [w, q])\<rparr>"

lemma big_from_zeros: "big_from (replicate k 0 @ bs) = big_from bs"
  by (induction bs rule: rev_induct) (simp_all add: append_assoc [symmetric] big_from_eq0 del: append_assoc)

lemma big_from_digits: "big_from (big_digits n) = int n"
proof (induction n rule: big_digits.induct)
  case (1 n)
  show ?case
  proof (cases "n < 256")
    case True
    then show ?thesis by (subst big_digits.simps) (simp add: big_from_def unsigned_of_nat take_bit_nat_eq_self)
  next
    case False
    have "uint (of_nat (n mod 256) :: u8) = int (n mod 256)"
      by (simp add: unsigned_of_nat take_bit_nat_eq_self)
    moreover have "int (n div 256) * 256 + int (n mod 256) = int n"
      by (metis div_mult_mod_eq of_nat_add of_nat_mult of_nat_numeral)
    ultimately show ?thesis using False 1 by (subst big_digits.simps) simp
  qed
qed

lemma length_big_digits: "n < 256 ^ Suc k \<Longrightarrow> length (big_digits n) \<le> Suc k"
proof (induction k arbitrary: n)
  case 0
  then show ?case by (subst big_digits.simps) simp
next
  case (Suc k)
  then have "n div 256 < 256 ^ Suc k" by (simp add: less_mult_imp_div_less)
  with Suc.IH [of "n div 256"] show ?case by (subst big_digits.simps) simp
qed

lemma pad_bytes_spec:
  assumes "0 \<le> n" "n < 2 ^ 256"
  shows "length (pad_bytes n) = 32" "big_from (pad_bytes n) = n"
proof -
  have "nat n < 256 ^ Suc 31" using assms by (simp add: nat_less_iff)
  then have "length (big_bytes n) \<le> 32" using length_big_digits [of "nat n" 31] assms by (simp add: big_bytes_def)
  then show "length (pad_bytes n) = 32" by (simp add: pad_bytes_def Let_def)
  show "big_from (pad_bytes n) = n"
    using assms by (simp add: pad_bytes_def Let_def big_from_zeros big_bytes_def big_from_digits)
qed

lemma chunk_numbers_pad:
  "\<forall>n\<in>set ns. 0 \<le> n \<and> n < 2 ^ 256 \<Longrightarrow>
     chunk_numbers (length ns) (concat (map pad_bytes ns)) = ns \<and> length (concat (map pad_bytes ns)) = 32 * length ns"
  by (induction ns) (auto simp: pad_bytes_spec)

lemma length_as_avatar: "length (as_avatar d) = 2 * length d"
  by (induction d) (simp_all add: as_avatar_def)

lemma avatar_ascii: "\<forall>c\<in>set (as_avatar d). c < 0x80"
proof -
  have "drop_bit 4 b < 16" "b AND 0xf < 16" for b :: u8
  proof -
    have "unat (drop_bit 4 b) = unat b div 16" by (simp add: drop_bit_eq_div unat_div_distrib)
    then show "drop_bit 4 b < 16"
      using unsigned_less [of b, where ?'a = nat] by (simp only: word_less_nat_alt) simp
    have "b AND 0xf \<le> 0xf" by (rule word_and_le1)
    then show "b AND 0xf < 16" by (simp add: word_less_nat_alt word_le_nat_alt)
  qed
  moreover have "0x61 + x < 0x80" if "x < 16" for x :: u8
    using that by (simp add: word_less_nat_alt unat_word_ariths)
  ultimately show ?thesis by (auto simp: as_avatar_def)
qed

lemma sample_crates_ok: "key_crates_ok sample_crates"
  unfolding key_crates_ok_def
proof (intro conjI allI impI)
  fix s d
  assume "b64_dec sample_crates s = Some d"
  then have "as_avatar d = s" by (auto simp: sample_crates_def Let_def split: if_splits)
  then show "d = [] \<or> length d < length s" using length_as_avatar [of d] by (cases d) auto
next
  fix c and ns :: "int list"
  assume "\<forall>n\<in>set ns. 0 \<le> n \<and> n < 2 ^ 256"
  from chunk_numbers_pad [OF this]
  show "from_der sample_crates (to_der sample_crates (key_block c ns)) = Some [key_block c ns]"
    by (simp add: sample_crates_def key_block_def comp_def)
qed (simp_all add: sample_crates_def avatar_bytes_as_avatar Let_def avatar_ascii)

section \<open>Properties\<close>

text \<open>C22. A key written as text is read back as the same key unless a number of it starts with a zero byte:
  such a private key is refused, and so is a public key with such a coordinate.
\<close>

theorem keys_survive_their_text:
  assumes "key_crates_ok kc"
  shows "priv_from_ts kc (priv_to_ts kc w) = (if hd (priv_to_short kc w) = 0 then Inl NoShortKey else Inr w)
    \<and> (if hd (point_x kc q) = 0 \<or> hd (point_y kc q) = 0
       then \<exists>n<32. pub_from_ts kc (pub_to_ts kc q) = Inl (WrongPublicKeyLength 32 n)
       else pub_from_ts kc (pub_to_ts kc q) = Inr q)"
proof -
  note c = crates_ok [OF assms]
  have "length (big_bytes (big_from (point_x kc q))) < 32" if "hd (point_x kc q) = 0"
    using length_big_bytes(1,2) [OF c(10) [of q]] that c(4) [of q] by simp
  moreover have "length (big_bytes (big_from (point_y kc q))) < 32" if "hd (point_y kc q) = 0"
    using length_big_bytes(1,2) [OF c(11) [of q]] that c(5) [of q] by simp
  ultimately show ?thesis
    by (simp add: pub_reads_written [OF assms] priv_reads_written [OF assms] priv_to_short_def)
qed

theorem keys_survive_their_text_witness:
  "priv_from_ts sample_crates (priv_to_ts sample_crates 5) = Inr 5
   \<and> priv_from_ts sample_crates (priv_to_ts sample_crates 0) = Inl NoShortKey
   \<and> pub_from_ts sample_crates (pub_to_ts sample_crates 5) = Inr 5
   \<and> (\<exists>n<32. pub_from_ts sample_crates (pub_to_ts sample_crates 7) = Inl (WrongPublicKeyLength 32 n))"
  using keys_survive_their_text [OF sample_crates_ok, of 5 5] keys_survive_their_text [OF sample_crates_ok, of 0 7]
  by (simp add: priv_to_short_def sample_crates_def)

text \<open>
  The obfuscated form of an identity is undone byte for byte, so reading it is reading the plain text.
\<close>

theorem obfuscation_is_undone:
  assumes "key_crates_ok kc" "to_ts_obfuscated kc w = Some s"
  shows "from_ts_obfuscated kc s = (if hd (priv_to_short kc w) = 0 then Inl NoShortKey else Inr w)"
  by (simp add: reads_obfuscated [OF assms] priv_reads_written [OF assms(1)] priv_to_short_def)

theorem obfuscation_is_undone_witness:
  "\<exists>s. to_ts_obfuscated sample_crates 5 = Some s \<and> from_ts_obfuscated sample_crates s = Inr 5"
proof -
  have "length (pad_bytes (big_from bs)) = 32" if "length bs = 32" for bs
    using that big_from_less [of bs] by (simp add: pad_bytes_spec)
  then have "to_ts_obfuscated sample_crates 5 \<noteq> None"
    by (simp add: to_ts_obfuscated_def priv_to_ts_def priv_to_tomcrypt_def sample_crates_def key_block_def
      Let_def length_as_avatar)
  then obtain s where s: "to_ts_obfuscated sample_crates 5 = Some s" by blast
  with obfuscation_is_undone [OF sample_crates_ok s] show ?thesis
    by (simp add: priv_to_short_def sample_crates_def)
qed

text \<open>Importing ends for every input, and a key it yields was decoded from one of the four formats, through
  any number of layers of base64; more fuel would not change the answer.
\<close>

theorem importing_ends:
  assumes "key_crates_ok kc"
  shows "\<exists>r. import kc data = Some r \<and> (\<forall>k. r = Inr k \<longrightarrow> decodes_to kc data k)
    \<and> (\<forall>fuel. import_fuel data \<le> fuel \<longrightarrow> import_data kc (import_str fuel kc) data = Some r)"
proof -
  have t: "import_str (import_fuel data) kc data \<noteq> None"
    by (rule import_str_total [OF assms]) (simp add: import_fuel_def)
  then obtain r where r: "import kc data = Some r"
    unfolding import_def using import_data_total [of data "import_str (import_fuel data) kc" kc] by blast
  moreover have "decodes_to kc data k" if "r = Inr k" for k
    using r that by (simp add: import_sound)
  moreover have "import_data kc (import_str fuel kc) data = Some r" if "import_fuel data \<le> fuel" for fuel
    using r t import_str_more [OF _ that] unfolding import_def by (metis import_data_cong option.exhaust)
  ultimately show ?thesis by blast
qed

theorem importing_ends_witness: "\<exists>r. import sample_crates (5 # replicate 31 1) = Some r"
  using importing_ends [OF sample_crates_ok] by blast


definition hash_lib :: proto_lib where
  "hash_lib = \<lparr>sha1 = (\<lambda>d. [if last d = 0x32 then 0 else 4]), sha256 = (\<lambda>_. []), sha512 = (\<lambda>_. []),
     eax_encrypt = (\<lambda>_ _ _ _. None), eax_decrypt = (\<lambda>_ _ _ _ _. None), compress = (\<lambda>d. d),
     decompress = (\<lambda>_ _. None), powf = (\<lambda>x _. x)\<rparr>"

lemma sample_import: "import sample_crates (5 # replicate 31 1) = Some (Inr 5)"
  by code_simp


text \<open>The name of an avatar determines the identifier it was made from.\<close>

theorem avatar_names_differ: "as_avatar a = as_avatar b \<longleftrightarrow> a = b"
  by (metis avatar_bytes_as_avatar)

end
