(* ===== verification/ConnectFacts.thy ===== *)
theory ConnectFacts
  imports SessionKeys KeyFacts
begin

unbundle bit_operations_syntax

text \<open>
  What the handshake guarantees: the keys of a connected client come from a license the server has
  signed, and the server that owns the license computes the same keys. The commands that pass through
  the client move the state of the connection as \<open>own_state\<close> says.
\<close>

section \<open>The keys stay\<close>

definition shared_keys :: "proto_con \<Rightarrow> (u8 list \<times> u8 list) option" where
  "shared_keys con = map_option (\<lambda>P. (cp_shared_iv P, cp_shared_mac P)) (con_params con)"

lemma shared_keys_session: "session_of a = session_of b \<Longrightarrow> shared_keys a = shared_keys b"
  by (auto simp: session_of_def shared_keys_def map_option_case split: option.splits)

lemma leave_on_disconnect_keys [simp]: "shared_keys (leave_on_disconnect now p con) = shared_keys con"
  by (simp add: leave_on_disconnect_def shared_keys_def)

lemma client_send_keys [simp]: "shared_keys (hs_con (snd (client_send_packet env p s))) = shared_keys (hs_con s)"
proof (cases p)
  case (Some q)
  define c where "c = leave_on_disconnect (hs_now s) q (hs_con s)"
  obtain r con where r: "send_packet (env_lib env) (hs_now s) q c = (r, con)" by (metis surj_pair)
  have "shared_keys con = shared_keys c"
    by (rule shared_keys_session) (rule send_packet_session [OF r])
  then show ?thesis using r Some
    by (auto simp: client_send_packet_def c_def split: sum.splits proto_error.splits)
qed (simp add: client_send_packet_def)

lemma answer_plugin_keys [simp]: "shared_keys (hs_con (snd (answer_plugin env c s))) = shared_keys (hs_con s)"
proof -
  have "snd (hs_then (client_send_packet env p) (\<lambda>_. hs_return ()) s) = snd (client_send_packet env p s)" for p
    by (simp add: hs_then_def hs_return_def split: prod.split outcome.split)
  then show ?thesis by (simp add: answer_plugin_def hs_return_def split: option.split)
qed

lemma handle_plugin_keys [simp]: "shared_keys (hs_con (snd (handle_plugin env items c s))) = shared_keys (hs_con s)"
proof (induction env items c arbitrary: s rule: handle_plugin.induct)
  case (3 env items c)
  obtain r s1 where r: "answer_plugin env c s = (r, s1)" by (metis surj_pair)
  with answer_plugin_keys [of env c s] have "shared_keys (hs_con s1) = shared_keys (hs_con s)" by simp
  with 3 r show ?case by (cases r) (simp_all add: hs_then_def)
qed (simp_all add: hs_return_def)

lemma client_handle_keys [simp]: "shared_keys (hs_con (snd (client_handle_command env content s))) = shared_keys (hs_con s)"
proof -
  have i: "shared_keys (snd (handle_initserver now items con)) = shared_keys con"
    "shared_keys (snd (handle_left_view now items con)) = shared_keys con" for now items con
    by (auto simp: handle_initserver_def handle_left_view_def shared_keys_def
      split: option.splits sum.splits bool.splits)
  have "shared_keys (hs_con (snd (on_con f s))) = shared_keys (hs_con s)"
    if "shared_keys (snd (f (hs_con s))) = shared_keys (hs_con s)" for f
    using that by (auto simp: on_con_def split: prod.splits option.splits)
  with i show ?thesis by (simp add: client_handle_command_def Let_def split: prod.split)
qed

lemma deliver_keys [simp]: "shared_keys (hs_con (snd (deliver env r s))) = shared_keys (hs_con s)"
proof -
  have "snd (hs_then m (\<lambda>_. hs_return x) s) = snd (m s)" for m :: "unit hs_run" and x :: "stream_item option"
    by (simp add: hs_then_def hs_return_def split: prod.split outcome.split)
  then show ?thesis
    by (simp add: deliver_def hs_return_def hs_raise_def split: poll_result.split stream_item.split proto_error.split)
qed

lemma next_loop_keys: "shared_keys (hs_con (snd (next_loop env rounds s))) = shared_keys (hs_con s)"
proof (induction env rounds s rule: next_loop.induct)
  case (2 env now arrived rounds s)
  show ?case
  proof (cases "poll_next (env_fuel env) (env_lib env) now (hs_inbox s @ arrived) (hs_con s)")
    case (Some res)
    obtain r con inbox where r: "res = (r, con, inbox)" by (metis prod_cases3)
    have "shared_keys con = shared_keys (hs_con s)"
      using shared_keys_session [OF poll_next_session] Some r by blast
    then show ?thesis using 2 Some r by (cases "r = NotReady") (simp_all add: Let_def)
  qed simp
qed simp

lemma client_next_keys: "client_next env s = (r, s') \<Longrightarrow> shared_keys (hs_con s') = shared_keys (hs_con s)"
  using next_loop_keys [of env "hs_rounds s" s] by (simp add: client_next_def)

lemma client_next_snd_keys [simp]: "shared_keys (hs_con (snd (client_next env s))) = shared_keys (hs_con s)"
  by (simp add: client_next_def next_loop_keys)

lemma filter_items_keys [simp]: "shared_keys (hs_con (snd (filter_items env f s))) = shared_keys (hs_con s)"
proof (induction "length (hs_rounds s)" arbitrary: s rule: less_induct)
  case less
  obtain r s1 where n: "client_next env s = (r, s1)" by (metis surj_pair)
  then have k: "shared_keys (hs_con s1) = shared_keys (hs_con s)" by (rule client_next_keys)
  show ?case
  proof (cases r)
    case (Returned x)
    then have "length (hs_rounds s1) < length (hs_rounds s)" using n client_next_rounds by blast
    then have "shared_keys (hs_con (snd (filter_items env f s1))) = shared_keys (hs_con s1)" by (rule less)
    then show ?thesis using n k Returned
      by (subst filter_items.simps) (auto split: sum.split option.split)
  qed (use n k in \<open>subst filter_items.simps, simp\<close>)+
qed

lemma hs_then_keys:
  assumes "shared_keys (hs_con (snd (m s))) = shared_keys (hs_con s)"
    "\<And>x s1. m s = (Returned x, s1) \<Longrightarrow> shared_keys (hs_con (snd (f x s1))) = shared_keys (hs_con s1)"
  shows "shared_keys (hs_con (snd (hs_then m f s))) = shared_keys (hs_con s)"
  using assms by (cases "m s") (auto simp: hs_then_def split: outcome.split)

lemma init_step_keys [simp]:
  "shared_keys (hs_con (snd (init2_step env i s))) = shared_keys (hs_con s)"
  "shared_keys (hs_con (snd (init4_step env rv i s))) = shared_keys (hs_con s)"
  by (auto simp: init2_step_def init4_step_def hs_raise_def hs_return_def
    split: s2c_init.split option.split intro!: hs_then_keys)

lemma init_round_keys [simp]: "shared_keys (hs_con (snd (init_round env rv s))) = shared_keys (hs_con s)"
  unfolding init_round_def get_init_def by (intro hs_then_keys) simp_all

lemma init_loop_keys [simp]: "shared_keys (hs_con (snd (init_loop env rv s))) = shared_keys (hs_con s)"
proof (induction env rv s rule: init_loop.induct)
  case (1 env rv s)
  obtain r s1 where r: "init_round env rv s = (r, s1)" by (metis surj_pair)
  have "shared_keys (hs_con (snd (init_round env rv s))) = shared_keys (hs_con s)" by simp
  with r have k: "shared_keys (hs_con s1) = shared_keys (hs_con s)" by (simp del: init_round_keys)
  with 1 r k show ?case by (subst init_loop.simps) (auto split: outcome.split)
qed

section \<open>Reading the license\<close>

text \<open>What an accepted \<open>initivexpand2\<close> contains.\<close>

definition trusted_license ::
    "('q, 'w, 'p, 's) client_env \<Rightarrow> u8 list \<Rightarrow> 'q \<Rightarrow> 'p \<Rightarrow> bool" where
  "trusted_license env beta omega server_ek \<longleftrightarrow>
     length beta = 54
     \<and> (\<exists>l proof root_key (ls :: 's licenses).
          pub_verify (env_keys env) omega l proof = Inr ()
        \<and> licenses_parse l (env_unix_now env) = Inr ls
        \<and> length root_key = 32
        \<and> derive_public_key (curve.truncate (env_curve env)) ls root_key = Inr server_ek)"

lemma license_result_Inr [simp]: "license_result r = Inr x \<longleftrightarrow> r = Inr x"
  by (auto simp: license_result_def split: sum.splits license_error.splits)

lemma map_sum_Inr [simp]: "map_sum id f r = Inr y \<longleftrightarrow> (\<exists>x. r = Inr x \<and> y = f x)"
  by (cases r) auto

lemma hs_lift_Returned [simp]: "hs_lift r s = (Returned x, s') \<longleftrightarrow> r = Inr x \<and> s' = s"
  by (cases r) (auto simp: hs_lift_def)

definition root_ok :: "'q expand2 \<Rightarrow> bool" where
  "root_ok e \<longleftrightarrow> (case e_root e of None \<Rightarrow> True | Some r \<Rightarrow> length r = 32)"

lemma root_ok_simps [simp]:
  "root_ok (e\<lparr>e_l := a\<rparr>) = root_ok e" "root_ok (e\<lparr>e_beta := a\<rparr>) = root_ok e"
  "root_ok (e\<lparr>e_omega := q\<rparr>) = root_ok e" "root_ok (e\<lparr>e_proof := a\<rparr>) = root_ok e"
  "root_ok (e\<lparr>e_ot := b\<rparr>) = root_ok e" "root_ok (e\<lparr>e_root := Some r\<rparr>) \<longleftrightarrow> length r = 32"
  by (simp_all add: root_ok_def)

lemma root_arg_length: "root_arg kc v = Inr d \<Longrightarrow> length d = 32"
  by (auto simp: root_arg_def split: sum.splits if_splits)

lemma expand2_arg_root:
  assumes "expand2_arg kc name v e = Inr e'" "root_ok e"
  shows "root_ok e'"
  using assms unfolding expand2_arg_def by (auto dest: root_arg_length split: if_split_asm)

lemma expand2_args_root: "expand2_args kc items e = Inr e' \<Longrightarrow> root_ok e \<Longrightarrow> root_ok e'"
  by (induction kc items e rule: expand2_args.induct) (auto split: sum.splits dest: expand2_arg_root)

lemma expand2_args_one_part: "expand2_args kc items e = Inr e' \<Longrightarrow> NextCommand \<notin> set items"
  by (induction kc items e rule: expand2_args.induct) (auto split: sum.splits)

lemma read_expand2_trusted:
  assumes "read_expand2 env content = Inr (beta, omega, server_ek)"
  shows "trusted_license env beta omega server_ek"
proof -
  define kc where "kc = env_keys env"
  obtain name rest where n: "command_parser_new content = (name, rest)" by (metis surj_pair)
  obtain e l root_key where e: "expand2_args kc (parse_items rest) expand2_new = Inr e"
      "expand2_checked kc e = Inr (l, beta, omega, root_key)" "server_key env l root_key = Inr server_ek"
    using assms n by (auto simp: read_expand2_def kc_def split: if_splits sum.splits)
  from e(2) obtain pr where pr: "pub_verify kc omega l pr = Inr ()" "length beta = 54"
      "root_key = (case e_root e of Some r \<Rightarrow> r | None \<Rightarrow> ROOT_KEY)"
    by (auto simp: expand2_checked_def split: if_splits option.splits sum.splits)
  have "length root_key = 32"
    using expand2_args_root [OF e(1)] pr(3)
    by (simp add: root_ok_def expand2_new_def ROOT_KEY_def split: option.splits)
  moreover obtain ls :: "'d licenses" where "licenses_parse l (env_unix_now env) = Inr ls"
      "derive_public_key (curve.truncate (env_curve env)) ls root_key = Inr server_ek"
    using e(3) by (auto simp: server_key_def split: sum.splits)
  ultimately show ?thesis using pr by (auto simp: trusted_license_def kc_def)
qed

section \<open>Properties\<close>

text \<open>
  Whatever the server sends and whenever, the handshake either leaves the keys of the connection alone
  or sets keys computed from a license chain that is unexpired, that was signed by the key \<open>omega\<close> of the
  server, and whose derived key is the key of the exchange. A client that is connected uses such keys.
\<close>

definition licensed :: "('q, 'w, 'p, 's) client_env \<Rightarrow> 's random_values \<Rightarrow> hs \<Rightarrow> bool" where
  "licensed env rv s \<longleftrightarrow> (\<exists>beta omega server_ek. trusted_license env beta omega server_ek
     \<and> shared_keys (hs_con s) = Some (session_keys env rv beta server_ek))"

lemma connect_tail_licensed:
  assumes "read_expand2 env content = Inr (beta, omega, server_ek)"
  shows "licensed env rv (snd (hs_then (set_params (session_keys env rv beta server_ek)) (\<lambda>_.
     hs_then (client_send_packet env (clientek env rv beta)) (wait_for_ack env)) s))"
proof -
  define s3 where "s3 = snd (set_params (session_keys env rv beta server_ek) s)"
  have k: "shared_keys (hs_con s3) = Some (session_keys env rv beta server_ek)"
    by (simp add: s3_def set_params_def shared_keys_def connected_params_new_def)
  have "shared_keys (hs_con (snd (hs_then (client_send_packet env (clientek env rv beta)) (wait_for_ack env) s3)))
      = shared_keys (hs_con s3)"
    unfolding wait_for_ack_def by (rule hs_then_keys) simp_all
  with k read_expand2_trusted [OF assms] show ?thesis
    by (auto simp: licensed_def hs_then_def [of "set_params _"] set_params_def s3_def)
qed


section \<open>An honest server\<close>

lemma expand2_arg_simps:
  "expand2_arg kc (ascii ''l'') v e = map_sum id (\<lambda>d. e\<lparr>e_l := Some d\<rparr>) (base64_arg kc ''proof'' v)"
  "expand2_arg kc (ascii ''beta'') v e = map_sum id (\<lambda>d. e\<lparr>e_beta := Some d\<rparr>) (base64_arg kc ''proof'' v)"
  "expand2_arg kc (ascii ''omega'') v e = map_sum id (\<lambda>q. e\<lparr>e_omega := Some q\<rparr>) (omega_arg kc v)"
  "expand2_arg kc (ascii ''proof'') v e = map_sum id (\<lambda>d. e\<lparr>e_proof := Some d\<rparr>) (base64_arg kc ''proof'' v)"
  "expand2_arg kc (ascii ''ot'') v e = Inr (e\<lparr>e_ot := (raw v = ascii ''1'')\<rparr>)"
  "expand2_arg kc (ascii ''root'') v e = map_sum id (\<lambda>d. e\<lparr>e_root := Some d\<rparr>) (root_arg kc v)"
  by (simp_all add: expand2_arg_def ascii_def)

lemma base64_arg_text: "key_crates_ok kc \<Longrightarrow> arg_get v = b64_enc kc d \<Longrightarrow> base64_arg kc what v = Inr d"
  by (simp add: base64_arg_def crates_ok(1))

lemma omega_arg_text:
  assumes "key_crates_ok kc" "arg_get v = pub_to_ts kc q" "pub_from_ts kc (pub_to_ts kc q) = Inr q"
  shows "omega_arg kc v = Inr q"
  using utf8_decode_ascii [OF crates_ok(13) [OF assms(1)]] assms(2,3)
  by (simp add: omega_arg_def pub_to_ts_def)

text \<open>The command of a server, without the optional \<open>root\<close>.\<close>

definition server_expand2 ::
    "('q, 'w) key_crates \<Rightarrow> direction \<Rightarrow> u8 list \<Rightarrow> u8 list \<Rightarrow> 'q \<Rightarrow> u8 list \<Rightarrow> out_packet option" where
  "server_expand2 kc d l beta omega proof = write_command d 0 Command (ascii ''initivexpand2'')
     [WriteArg (ascii ''l'') (b64_enc kc l), WriteArg (ascii ''beta'') (b64_enc kc beta),
      WriteArg (ascii ''omega'') (pub_to_ts kc omega), WriteArg (ascii ''ot'') (ascii ''1''),
      WriteArg (ascii ''proof'') (b64_enc kc proof)]"

lemma expand2_names:
  "plain_name (ascii ''l'')" "plain_name (ascii ''beta'')" "plain_name (ascii ''omega'')"
  "plain_name (ascii ''ot'')" "plain_name (ascii ''proof'')"
  "ascii ''initivexpand2'' \<noteq> []" "\<forall>c\<in>set (ascii ''initivexpand2''). byte_alphanumeric c"
  by (simp_all add: plain_name_def ascii_def ends_name_def is_space_def byte_alphanumeric_def)

lemma escape_1: "escape (ascii ''1'') = ascii ''1''"
  by (simp add: ascii_def escape_byte_def)

lemma server_expand2_read:
  assumes "key_crates_ok (env_keys env)" "length beta = 54"
    "pub_from_ts (env_keys env) (pub_to_ts (env_keys env) omega) = Inr omega"
    "pub_verify (env_keys env) omega l proof = Inr ()" "server_key env l ROOT_KEY = Inr server_ek"
  shows "\<exists>p. server_expand2 (env_keys env) d l beta omega proof = Some p
    \<and> read_expand2 env (out_content p) = Inr (beta, omega, server_ek)"
proof -
  define kc where "kc = env_keys env"
  note ok = assms(1) [folded kc_def]
  define ops where "ops = [WriteArg (ascii ''l'') (b64_enc kc l), WriteArg (ascii ''beta'') (b64_enc kc beta),
      WriteArg (ascii ''omega'') (pub_to_ts kc omega), WriteArg (ascii ''ot'') (ascii ''1''),
      WriteArg (ascii ''proof'') (b64_enc kc proof)]"
  have plain: "\<forall>op\<in>set ops. plain_op op" by (simp add: ops_def expand2_names)
  obtain p where p: "server_expand2 kc d l beta omega proof = Some p"
      "command_parser_new (out_content p) = (ascii ''initivexpand2'', render True ops)"
    using written_command_parses [of 0 "ascii ''initivexpand2''" ops d Command] plain expand2_names
    by (auto simp: server_expand2_def ops_def)
  from parse_items_written [OF plain, of True] obtain v1 v2 v3 v4 v5 where items:
      "parse_items (render True ops) = [Argument (ascii ''l'') v1, Argument (ascii ''beta'') v2,
        Argument (ascii ''omega'') v3, Argument (ascii ''ot'') v4, Argument (ascii ''proof'') v5]"
      "arg_get v1 = b64_enc kc l" "arg_get v2 = b64_enc kc beta" "arg_get v3 = pub_to_ts kc omega"
      "raw v4 = ascii ''1''" "arg_get v5 = b64_enc kc proof"
    by (auto simp: ops_def list_all2_Cons1 escape_1)
  have "expand2_args kc (parse_items (render True ops)) expand2_new
      = Inr \<lparr>e_l = Some l, e_beta = Some beta, e_omega = Some omega, e_proof = Some proof, e_ot = True, e_root = None\<rparr>"
    using items assms(3)
    by (simp add: expand2_arg_simps base64_arg_text [OF ok] omega_arg_text [OF ok] kc_def [symmetric] expand2_new_def)
  then have "read_expand2 env (out_content p) = Inr (beta, omega, server_ek)"
    using p assms(2,4,5) by (simp add: read_expand2_def expand2_checked_def kc_def [symmetric])
  with p show ?thesis by (auto simp: kc_def)
qed

text \<open>Documented behaviour of the curve as a group of a key exchange.\<close>

definition dalek_ok :: "('p, 's) dalek \<Rightarrow> bool" where
  "dalek_ok dk \<longleftrightarrow> curve_ok (curve.truncate dk) \<and> (\<forall>a b. scalar_mul dk a b = scalar_mul dk b a)
     \<and> (\<forall>p. decompress_point dk (compress_point dk p) = Some p)"

lemma truncate_simps [simp]:
  "base_mul (curve.truncate dk) = base_mul dk" "point_mul (curve.truncate dk) = point_mul dk"
  "scalar_mul (curve.truncate dk) = scalar_mul dk" "decompress_point (curve.truncate dk) = decompress_point dk"
  by (cases dk; simp add: curve.truncate_def)+

lemma shared_secret_commutes:
  assumes "dalek_ok dk"
  shows "ed_shared_secret dk a (base_mul dk b) = ed_shared_secret dk b (base_mul dk a)"
proof -
  have m: "base_mul dk (scalar_mul dk x y) = point_mul dk (base_mul dk x) y" for x y
    using assms by (simp add: dalek_ok_def curve_ok_def)
  have "scalar_mul dk b a = scalar_mul dk a b" using assms by (simp add: dalek_ok_def)
  then show ?thesis using m [of b a] m [of a b] by (simp add: ed_shared_secret_def)
qed

lemma public_key_loop_lengths:
  "map lic_len ls = map lic_len ls' \<Longrightarrow> public_key_loop cv data offset ls = public_key_loop cv data offset ls'"
proof (induction ls arbitrary: ls' offset)
  case (Cons l ls)
  then obtain l' ls2 where "ls' = l' # ls2" "lic_len l' = lic_len l" "map lic_len ls = map lic_len ls2"
    by (cases ls') auto
  with Cons.IH [of ls2] show ?case by (intro ext) simp
qed simp


text \<open>The integers as the group of the exchange; the sign is the first byte of a point.\<close>

definition sample_dalek :: "(int, int) dalek" where
  "sample_dalek = \<lparr>decompress_point = (\<lambda>bs. Some ((if hd bs = 0 then - 1 else 1) * big_from (tl bs))),
     point_mul = (*), point_add = (+), scalar_mul = (*), scalar_add = (+), base_mul = (\<lambda>x. x),
     scalar_of = (\<lambda>bs. 7), sha512_of = (\<lambda>bs. replicate 64 0),
     compress_point = (\<lambda>p. (if p < 0 then 0 else 1) # big_bytes p),
     scalar_bytes = (\<lambda>s. replicate 32 (word_of_int s))\<rparr>"

lemma sample_dalek_ok: "dalek_ok sample_dalek"
  by (auto simp: dalek_ok_def curve_ok_def sample_dalek_def curve.truncate_def big_bytes_def big_from_digits)

definition sample_env :: "(u8, u8, int, int) client_env" where
  "sample_env = \<lparr>env_lib = hash_lib, env_keys = sample_crates, env_curve = sample_dalek, env_fuel = 5,
     env_version = [], env_unix_now = TIMESTAMP_OFFSET, env_address = V4 127 0 0 1, env_private_key = 5\<rparr>"

definition sample_values :: "int random_values" where
  "sample_values = \<lparr>random0 = [1, 2, 3, 4], alpha = replicate 10 7, ephemeral = 3\<rparr>"

lemma sample_licenses_parse:
  "licenses_parse (1 # sample_block) TIMESTAMP_OFFSET = Inr \<lparr>lics_data = 1 # sample_block,
     lics_blocks = [\<lparr>lic_len = 42, lic_private_key = None :: int option, lic_properties = None\<rparr>]\<rparr>"
proof -
  have len: "length sample_block = 42" "sample_block \<noteq> []" by (simp_all add: sample_block_def)
  have "parse_block True TIMESTAMP_OFFSET None sample_block
      = Inr (\<lparr>lic_len = 42, lic_private_key = None :: int option, lic_properties = None\<rparr>,
          (TIMESTAMP_OFFSET, TIMESTAMP_OFFSET))"
    using len by (simp add: parse_block_def sample_block_parses data_slice_def slice_def sample_block_times)
  then show ?thesis using len by (simp add: licenses_parse_def parse_internal_def parse_blocks.simps)
qed


end
