(* ===== verification/LibraryFacts.thy ===== *)
theory LibraryFacts
  imports LibraryPoll ConnectFacts
begin

text \<open>
  What holds of a connection of the client library whatever is called on it and whatever arrives: the items about
  audio tell whether voice can be sent and received, and the keys of an established connection come from a
  licensed server, the one the options ask for.
\<close>

section \<open>Histories\<close>

datatype ('w, 's) library_call =
    CallPoll "('w, 's) poll_input"
  | CallSend out_packet
  | CallSendWithResult out_packet
  | CallSendAudio out_packet
  | CallDownload u64 rstr "rstr option" "u64 option"
  | CallUpload u64 rstr "rstr option" u64 bool bool
  | CallDisconnect "reason option" "rstr option"
  | CallCancel

definition yielded :: "'a option polled \<Rightarrow> 'a list" where
  "yielded r = (case r of Ready (Some it) \<Rightarrow> [it] | _ \<Rightarrow> [])"

text \<open>The items a call yields and the connection after it.\<close>

fun perform ::
    "('q, 'w, 'p, 's, 'x, 'r) library \<Rightarrow> ('w, 's) library_call \<Rightarrow> ('q, 'w, 'p, 's, 'x, 'r) library_connection
      \<Rightarrow> ('x, 'r) library_items \<times> ('q, 'w, 'p, 's, 'x, 'r) library_connection" where
  "perform ly (CallPoll i) c = map_prod yielded id (library_poll_next ly i c)"
| "perform ly (CallSend p) c = ([], snd (library_send_command p c))"
| "perform ly (CallSendWithResult p) c = ([], snd (library_send_command_with_result p c))"
| "perform ly (CallSendAudio p) c = ([], snd (library_send_audio p c))"
| "perform ly (CallDownload ch path pw seek) c = ([], snd (library_download_file ly ch path pw seek c))"
| "perform ly (CallUpload ch path pw n over resume) c = ([], snd (library_upload_file ly ch path pw n over resume c))"
| "perform ly (CallDisconnect reason message) c = ([], snd (library_disconnect ly reason message c))"
| "perform ly CallCancel c = ([], cancel_identity_level_increase c)"

fun library_run ::
    "('q, 'w, 'p, 's, 'x, 'r) library \<Rightarrow> ('w, 's) library_call list \<Rightarrow> ('q, 'w, 'p, 's, 'x, 'r) library_connection
      \<Rightarrow> ('x, 'r) library_items \<times> ('q, 'w, 'p, 's, 'x, 'r) library_connection" where
  "library_run ly [] c = ([], c)"
| "library_run ly (call # calls) c = (case perform ly call c of
     (its, c) \<Rightarrow> map_prod ((@) its) id (library_run ly calls c))"

section \<open>Listening to the items\<close>

text \<open>What a listener believes: whether voice can be sent and received. A temporary disconnect mutes both.\<close>

fun hear :: "library_error + ('x, 'r) library_item \<Rightarrow> bool \<times> bool \<Rightarrow> bool \<times> bool" where
  "hear (Inr (LiCanSendAudio v)) st = (v, snd st)"
| "hear (Inr (LiCanReceiveAudio v)) st = (fst st, v)"
| "hear (Inr (LiDisconnectedTemporarily reason)) st = (False, False)"
| "hear _ st = st"

definition audible :: "('q, 'w, 'p, 's, 'x, 'r) library_connection \<Rightarrow> bool \<times> bool" where
  "audible c = (can_send_audio c, can_receive_audio c)"

definition audible_in :: "'x data_book \<Rightarrow> 'w library_options \<Rightarrow> bool \<times> bool" where
  "audible_in b opt = (intern_can_send_audio b opt, intern_can_receive_audio b opt)"

lemma audible_simps [simp]:
  "audible \<lparr>lc_state = LcConnected con b, lc_options = opt, lc_items = items\<rparr> = audible_in b opt"
  "audible \<lparr>lc_state = LcConnecting opt' again ended, lc_options = opt, lc_items = items\<rparr> = (False, False)"
  "audible \<lparr>lc_state = LcIncreasing cancelled gone, lc_options = opt, lc_items = items\<rparr> = (False, False)"
  by (simp_all add: audible_def audible_in_def can_send_audio_def can_receive_audio_def)

lemma audible_state:
  "lc_state c = LcConnected con b \<Longrightarrow> audible c = audible_in b (lc_options c)"
  "lc_state c = LcConnecting opt again ended \<Longrightarrow> audible c = (False, False)"
  "lc_state c = LcIncreasing cancelled gone \<Longrightarrow> audible c = (False, False)"
  by (simp_all add: audible_def audible_in_def can_send_audio_def can_receive_audio_def)

lemma audible_items [simp]: "audible (c\<lparr>lc_items := items\<rparr>) = audible c"
  by (cases "lc_state c") (simp_all add: audible_def can_send_audio_def can_receive_audio_def)

lemma audible_set_state [simp]:
  "audible (c\<lparr>lc_state := LcConnected con b\<rparr>) = audible_in b (lc_options c)"
  "audible (c\<lparr>lc_state := LcConnecting opt again ended\<rparr>) = (False, False)"
  "audible (c\<lparr>lc_state := LcIncreasing cancelled gone\<rparr>) = (False, False)"
  by (simp_all add: audible_state)

text \<open>Items that say nothing about audio.\<close>

definition quiet :: "('x, 'r) library_items \<Rightarrow> bool" where
  "quiet items \<longleftrightarrow> (\<forall>it\<in>set items. \<forall>st. hear it st = st)"

lemma quiet_hear [simp]: "quiet items \<Longrightarrow> fold hear items st = st"
  by (induction items arbitrary: st) (auto simp: quiet_def)

lemma quiet_simps [simp]: "quiet []" "quiet (it # items) \<longleftrightarrow> (\<forall>st. hear it st = st) \<and> quiet items"
    "quiet (items @ others) \<longleftrightarrow> quiet items \<and> quiet others"
  by (auto simp: quiet_def)

lemma hear_audio_changes [simp]: "fold hear (audio_changes b opt b' opt') (audible_in b opt) = audible_in b' opt'"
  by (auto simp: audio_changes_def audible_in_def Let_def)

lemma hear_stopped_items [simp]: "fold hear (stopped_items b opt reason) st = (False, False)"
  by (simp add: stopped_items_def)

section \<open>Commands from the server are quiet\<close>

definition adds_quietly :: "('q, 'w, 'p, 's, 'x, 'r) session_parts \<Rightarrow> ('q, 'w, 'p, 's, 'x, 'r) session_parts \<Rightarrow> bool" where
  "adds_quietly p p' \<longleftrightarrow> (\<exists>new. sp_items p' = sp_items p @ new \<and> quiet new)"

lemma adds_quietly_refl [simp, intro]: "sp_items p' = sp_items p \<Longrightarrow> adds_quietly p p'"
  by (simp add: adds_quietly_def)

lemma adds_quietly_trans: "adds_quietly p p' \<Longrightarrow> adds_quietly p' p'' \<Longrightarrow> adds_quietly p p''"
  by (auto simp: adds_quietly_def)

lemma adds_quietly_items: "sp_items p'' = sp_items p \<Longrightarrow> quiet new \<Longrightarrow> adds_quietly p (add_items new p'')"
  by (auto simp: adds_quietly_def add_items_def)

lemma quiet_error_results: "error_results es = (new, handled) \<Longrightarrow> quiet new"
  by (induction es arbitrary: new handled) (auto split: prod.splits option.splits)

lemma book_part_quiet: "adds_quietly p (fst (book_part ly utc msg p))"
  by (auto simp: book_part_def adds_quietly_def Let_def split: prod.split)

lemma answer_connection_info_quiet: "answer_connection_info ly p = Ready p' \<Longrightarrow> adds_quietly p p'"
  by (auto simp: answer_connection_info_def Let_def split: prod.splits option.splits if_splits intro: adds_quietly_items)

lemma handle_message_part_quiet:
  assumes "handle_message_part ly utc msg p = Ready (p', handled)"
  shows "adds_quietly p p'"
proof -
  have "adds_quietly p p'" if "book_part ly utc msg p = (p', handled)"
    using book_part_quiet [of p ly utc msg] that by simp
  moreover have "hear it st = st" if "error_results es = (new, h)" "it \<in> set new" for es new h it st
    using quiet_error_results [OF that(1)] that(2) by (cases st) (simp add: quiet_def)
  ultimately show ?thesis
    using assms
    by (auto simp: handle_message_part_def add_transfers_def Let_def quiet_def
      split: book_message.splits prod.splits library_message.splits polled.splits
      intro!: adds_quietly_items dest: answer_connection_info_quiet)
qed

lemma follow_up_quiet: "follow_up ly msg p = Ready (r, p') \<Longrightarrow> sp_items p' = sp_items p"
  by (auto simp: follow_up_def Let_def split: book_message.splits prod.splits library_message.splits if_splits)

lemma library_handle_command_quiet:
  assumes "library_handle_command ly utc cmd p = Ready (r, p')"
  shows "adds_quietly p p'"
proof (cases "ly_parse ly cmd")
  case (Inr msg)
  obtain p1 handled where 1: "handle_message_part ly utc msg p = Ready (p1, handled)"
    using assms Inr by (auto simp: library_handle_command_def split: polled.splits)
  obtain r2 p2 where 2: "follow_up ly msg p1 = Ready (r2, p2)"
    using assms Inr 1 by (auto simp: library_handle_command_def split: polled.splits)
  have "p' = p2 \<or> p' = add_items [Inr (LiMessageEvent msg)] p2"
    using assms Inr 1 2 by (auto simp: library_handle_command_def split: option.splits if_splits)
  moreover have "adds_quietly p p2"
    using handle_message_part_quiet [OF 1] follow_up_quiet [OF 2] by (auto simp: adds_quietly_def)
  moreover have "adds_quietly p2 (add_items [Inr (LiMessageEvent msg)] p2)" by (rule adds_quietly_items) simp_all
  ultimately show ?thesis using adds_quietly_trans by blast
qed (use assms in \<open>simp add: library_handle_command_def\<close>)

section \<open>Polls\<close>

lemma audible_whole [simp]: "audible (whole p) = audible_in (sp_book p) (sp_options p)"
  by (simp add: whole_def)

lemma audible_reconnecting [simp]: "audible (reconnecting opt items) = (False, False)"
  by (simp add: reconnecting_def)

lemma items_simps [simp]: "lc_items (whole p) = sp_items p" "lc_items (reconnecting opt items) = items"
  by (simp_all add: whole_def reconnecting_def)

text \<open>The loop starts with an empty queue and goes on only while nothing audible has changed.\<close>

definition unheard :: "bool \<times> bool \<Rightarrow> ('q, 'w, 'p, 's, 'x, 'r) session_parts \<Rightarrow> bool" where
  "unheard st p \<longleftrightarrow> sp_items p = [] \<and> audible_in (sp_book p) (sp_options p) = st"

definition heard :: "bool \<times> bool \<Rightarrow> ('q, 'w, 'p, 's, 'x, 'r) poll_answer \<Rightarrow> bool" where
  "heard st answer \<longleftrightarrow> fold hear (yielded (fst answer) @ lc_items (snd answer)) st = audible (snd answer)"

lemma heard_simps [simp]:
  "heard st (Pending, c) = (fold hear (lc_items c) st = audible c)"
  "heard st (Panicked, c) = (fold hear (lc_items c) st = audible c)"
  "heard st (NoFuel, c) = (fold hear (lc_items c) st = audible c)"
  "heard st (Ready None, c) = (fold hear (lc_items c) st = audible c)"
  "heard st (Ready (Some it), c) = (fold hear (lc_items c) (hear it st) = audible c)"
  by (simp_all add: heard_def yielded_def)

lemma heard_yield_first: "heard st (yield_first c) = (fold hear (lc_items c) st = audible c)"
  by (simp add: yield_first_def split: list.split)

lemma heard_client_failed: "unheard st p \<Longrightarrow> heard st (client_failed e p)"
  by (auto simp: client_failed_def unheard_def split: handshake_error.split proto_error.split)

lemma command_round_heard:
  assumes "unheard st p"
  shows "case command_round ly utc cmd p of Inl answer \<Rightarrow> heard st answer | Inr p' \<Rightarrow> unheard st p'"
proof (cases "library_handle_command ly utc cmd p")
  case (Ready res)
  obtain r p' where res: "res = (r, p')" by (metis surj_pair)
  have "adds_quietly p p'" using library_handle_command_quiet Ready res by blast
  then have new: "quiet (sp_items p')" using assms by (auto simp: adds_quietly_def unheard_def)
  let ?ch = "audio_changes (sp_book p) (sp_options p) (sp_book p') (sp_options p')"
  have ch: "fold hear ?ch st = audible_in (sp_book p') (sp_options p')"
    using hear_audio_changes assms by (auto simp: unheard_def)
  then show ?thesis
    using Ready res new assms
    by (cases r) (auto simp: command_round_def heard_yield_first add_items_def unheard_def Let_def)
qed (use assms in \<open>simp_all add: command_round_def unheard_def\<close>)

lemma loop_round_heard:
  assumes "unheard st p"
  shows "case loop_round ly utc p of Inl answer \<Rightarrow> heard st answer | Inr p' \<Rightarrow> unheard st p'"
proof -
  obtain out s where out: "client_next (cn_env (sp_con p)) (cn_client (sp_con p)) = (out, s)" by (metis surj_pair)
  have u: "unheard st (p\<lparr>sp_con := con\<rparr>)" for con using assms by (simp add: unheard_def)
  show ?thesis
    using out u command_round_heard [OF u] heard_client_failed [OF u]
    by (auto simp: loop_round_def audio_round_def Let_def unheard_def split: outcome.split option.split stream_item.split)
qed

lemma loop_round_goes_on: "unheard st p \<Longrightarrow> loop_round ly utc p = Inr p' \<Longrightarrow> unheard st p'"
  using loop_round_heard [of st p ly utc] by simp

lemma loop_round_ends: "unheard st p \<Longrightarrow> loop_round ly utc p = Inl answer \<Longrightarrow> heard st answer"
  using loop_round_heard [of st p ly utc] by simp

lemma connected_loop_heard: "unheard st p \<Longrightarrow> heard st (connected_loop ly utc p)"
  by (erule connected_loop_rule) (fact loop_round_goes_on, fact loop_round_ends)

lemma ready_transfer_item: "ready_transfer ts rs = Some (it, ts') \<Longrightarrow> \<exists>t x. it = transfer_item t x"
  by (induction ts rs arbitrary: it ts' rule: ready_transfer.induct) auto

lemma hear_transfer_item [simp]: "hear (Inr (transfer_item t x)) st = st"
  by (simp add: transfer_item_def split: sum.split)

lemma check_transfers_heard: "heard st answer \<Longrightarrow> heard st (check_transfers streams answer)"
  by (auto simp: check_transfers_def audible_state split: prod.split polled.split connection_state.split option.split
    dest!: ready_transfer_item)

lemma poll_connected_heard: "heard (audible_in b opt) (poll_connected ly i con b opt)"
  unfolding poll_connected_def by (intro check_transfers_heard connected_loop_heard) (simp add: unheard_def)

lemma now_connected_heard:
  "lc_items c = [] \<Longrightarrow> heard (False, False) (now_connected utc est c)"
  by (cases est) (simp add: now_connected_def audible_state audible_in_def)

lemma connect_failed_heard:
  assumes "lc_items c = []" "lc_state c = LcConnecting opt again ended"
  shows "heard (False, False) (connect_failed ly e again' c)"
  using assms
  by (auto simp: connect_failed_def audible_state split: client_error.split polled.split option.split)

lemma library_poll_heard:
  assumes "fold hear (lc_items c) st = audible c"
  shows "heard st (library_poll_next ly i c)"
proof (cases "lc_items c = []")
  case True
  then have st: "st = audible c" using assms by simp
  show ?thesis
  proof (cases "lc_state c")
    case (LcConnecting opt again ended)
    then show ?thesis
      using True st now_connected_heard [of c] connect_failed_heard [of "c\<lparr>lc_state := LcConnecting opt again True\<rparr>"]
      by (auto simp: library_poll_next_def poll_connecting_def audible_state
        split: option.split polled.split sum.split)
  next
    case (LcIncreasing cancelled gone)
    then show ?thesis using True st
      by (auto simp: library_poll_next_def poll_increasing_def audible_state Let_def split: option.split)
  next
    case (LcConnected con b)
    then show ?thesis using True st poll_connected_heard by (auto simp: library_poll_next_def audible_state)
  qed
qed (use assms in \<open>simp add: library_poll_next_def heard_yield_first\<close>)

section \<open>Calls\<close>

definition attuned :: "bool \<times> bool \<Rightarrow> ('q, 'w, 'p, 's, 'x, 'r) library_connection \<Rightarrow> bool" where
  "attuned st c \<longleftrightarrow> fold hear (lc_items c) st = audible c"

lemma when_connected_attuned: "attuned st (snd (when_connected f c)) = attuned st c"
  by (cases "lc_state c") (auto simp: when_connected_def attuned_def audible_state split: prod.split)

lemma mute_changes_heard:
  "mute_changes args b opt = (b', opt', new) \<Longrightarrow> fold hear new (audible_in b opt) = audible_in b' opt'"
  by (auto simp: mute_changes_def Let_def)

lemma update_on_outgoing_command_attuned:
  assumes "attuned st c"
  shows "attuned st (update_on_outgoing_command p c)"
proof (cases "lc_state c")
  case (LcConnected con b)
  then show ?thesis
    using assms by (auto simp: update_on_outgoing_command_def attuned_def audible_state mute_changes_heard split: prod.split)
qed (use assms in \<open>simp_all add: update_on_outgoing_command_def\<close>)

lemma perform_attuned:
  assumes "attuned st c" "perform ly call c = (its, c')"
  shows "attuned (fold hear its st) c'"
proof (cases call)
  case (CallPoll i)
  then show ?thesis
    using assms library_poll_heard [of c st ly i] by (cases "library_poll_next ly i c") (auto simp: attuned_def heard_def)
next
  case (CallDisconnect r m)
  then show ?thesis
    using assms by (cases "lc_state c") (auto simp: library_disconnect_def attuned_def audible_state split: prod.splits)
next
  case CallCancel
  then show ?thesis
    using assms by (cases "lc_state c") (auto simp: cancel_identity_level_increase_def attuned_def audible_state)
qed (use assms in \<open>auto simp: when_connected_attuned update_on_outgoing_command_attuned library_send_command_def library_send_command_with_result_def library_send_audio_def
    library_download_file_def library_upload_file_def split: if_splits\<close>)

lemma library_run_attuned:
  "attuned st c \<Longrightarrow> library_run ly calls c = (its, c') \<Longrightarrow> attuned (fold hear its st) c'"
proof (induction calls arbitrary: st c its c')
  case (Cons call calls)
  obtain its1 c1 where 1: "perform ly call c = (its1, c1)" by (metis surj_pair)
  obtain its2 c2 where 2: "library_run ly calls c1 = (its2, c2)" by (metis surj_pair)
  have "attuned (fold hear its1 st) c1" using perform_attuned [OF Cons.prems(1) 1] .
  then have "attuned (fold hear its2 (fold hear its1 st)) c2" using Cons.IH 2 by blast
  then show ?case using Cons.prems(2) 1 2 by auto
qed simp


section \<open>Licensed servers\<close>

lemma client_send_packet_keys:
  "client_send_packet env p s = (r, s') \<Longrightarrow> shared_keys (hs_con s') = shared_keys (hs_con s)"
  by (metis client_send_keys snd_conv)

lemma filter_items_run_keys: "filter_items env f s = (r, s') \<Longrightarrow> shared_keys (hs_con s') = shared_keys (hs_con s)"
  by (metis filter_items_keys snd_conv)

lemma connect_key_licensed:
  assumes "connect_key env rv s = (Returned omega, s')"
  obtains beta server_ek where "trusted_license env beta omega server_ek"
    "shared_keys (hs_con s') = Some (session_keys env rv beta server_ek)"
proof -
  obtain s1 s2 s3 s4 beta server_ek pid and command :: in_packet where
    r: "read_expand2 env (ip_content command) = Inr (beta, omega, server_ek)" and
    set: "set_params (session_keys env rv beta server_ek) s2 = (Returned (), s3)" and
    send: "client_send_packet env (clientek env rv beta) s3 = (Returned pid, s4)" and
    ack: "wait_for_ack env pid s4 = (Returned (), s')"
    using assms by (auto simp: connect_key_def hs_then_Returned)
  have "shared_keys (hs_con s3) = Some (session_keys env rv beta server_ek)"
    using set by (auto simp: set_params_def shared_keys_def connected_params_new_def)
  moreover have "shared_keys (hs_con s') = shared_keys (hs_con s3)"
    using client_send_packet_keys [OF send] filter_items_run_keys [OF ack [unfolded wait_for_ack_def]] by simp
  ultimately show ?thesis using that read_expand2_trusted [OF r] by simp
qed

text \<open>
  \<open>genuine ly opt env con\<close>: the session keys come from a license signed by the key of the server, and its
  identifier is the one the options ask for, if they do.
\<close>

definition genuine :: "'w library_options \<Rightarrow> ('q, 'w, 'p, 's) client_env \<Rightarrow> hs \<Rightarrow> bool" where
  "genuine opt env s \<longleftrightarrow> (\<exists>rv beta omega server_ek. trusted_license env beta omega server_ek
     \<and> shared_keys (hs_con s) = Some (session_keys env rv beta server_ek)
     \<and> opt_server opt \<in> {None, Some (get_uid_no_base64 (env_keys env) omega)})"

lemma genuine_cong:
  "shared_keys (hs_con s') = shared_keys (hs_con s) \<Longrightarrow> opt_server opt' = opt_server opt
    \<Longrightarrow> genuine opt' env s' = genuine opt env s"
  by (simp add: genuine_def)

lemma finish_attempt_keys:
  assumes "finish_attempt ly env s = Ready (Inr (env', s', b))"
  shows "env' = env" "shared_keys (hs_con s') = shared_keys (hs_con s)"
proof -
  obtain out s1 where w: "wait_initserver ly env s = (out, s1)" by (metis surj_pair)
  then have k: "shared_keys (hs_con s1) = shared_keys (hs_con s)"
    unfolding wait_initserver_def filter_commands_def by (rule filter_items_run_keys)
  have "env' = env \<and> s' = s1"
    using assms w by (auto simp: finish_attempt_def client_error_or_def split: outcome.splits sum.splits if_splits)
  then show "env' = env" "shared_keys (hs_con s') = shared_keys (hs_con s)" using k by simp_all
qed

lemma connect_to_genuine:
  assumes "connect_to ly opt addr att = Ready (Inr (env, s, b))"
  shows "genuine opt env s"
proof -
  obtain i where i: "opt_identity opt = Some i" "at_bind att = None"
    using assms by (auto simp: connect_to_def split: option.splits)
  define env' where "env' = attempt_env ly (fst addr) (id_key i) att"
  obtain out s1 where c: "connect_key env' (at_random att) (attempt_start att) = (out, s1)" by (metis surj_pair)
  note run = assms [unfolded connect_to_def, simplified i option.case Let_def, folded env'_def, unfolded c prod.case]
  obtain omega where omega: "out = Returned omega"
    using run by (cases out) (auto simp: client_error_or_def split: if_splits)
  have w: "wrong_server (env_keys env') opt omega s1 = None"
    using run omega by (cases "wrong_server (env_keys env') opt omega s1") simp_all
  obtain out2 s2 where s2: "client_send_packet env'
      (ly_write ly (LoClientInit (client_init_of (env_keys env') (id_counter i) opt))) s1 = (out2, s2)"
    by (metis surj_pair)
  have "finish_attempt ly env' s2 = Ready (Inr (env, s, b))"
    using run omega w s2 by (cases out2) (simp_all add: client_error_or_def split: if_splits)
  note k = finish_attempt_keys [OF this] client_send_packet_keys [OF s2]
  obtain beta server_ek where l: "trusted_license env' beta omega server_ek"
      "shared_keys (hs_con s1) = Some (session_keys env' (at_random att) beta server_ek)"
    by (rule connect_key_licensed [OF c [unfolded omega]])
  have "opt_server opt \<in> {None, Some (get_uid_no_base64 (env_keys env') omega)}"
    using w by (auto simp: wrong_server_def split: option.splits if_splits)
  then show ?thesis unfolding genuine_def using k l by auto
qed

lemma try_addresses_genuine:
  "try_addresses ly opt errors rs ats = Ready (Inr (env, s, b)) \<Longrightarrow> genuine opt env s"
proof (induction ly opt errors rs ats rule: try_addresses.induct)
  case (4 ly opt errors addr rs att ats)
  show ?case
  proof (cases "connect_to ly opt addr att")
    case (Ready r)
    show ?thesis
    proof (cases r)
      case (Inl e)
      then show ?thesis using 4 Ready by (cases e) simp_all
    next
      case (Inr est)
      then show ?thesis using 4(20) Ready connect_to_genuine by fastforce
    qed
  qed (use 4(20) in simp_all)
qed simp_all

lemma library_connect_genuine: "library_connect ly opt w = Ready (Inr (env, s, b)) \<Longrightarrow> genuine opt env s"
  unfolding library_connect_def by (rule try_addresses_genuine)

section \<open>The keys stay\<close>

definition trusts :: "'w library_options \<Rightarrow> ('q, 'w, 'p, 's, 'x, 'r) library_connection \<Rightarrow> bool" where
  "trusts opt c \<longleftrightarrow> opt_server (lc_options c) = opt_server opt \<and> (case lc_state c of
      LcConnecting o1 _ _ \<Rightarrow> opt_server o1 = opt_server opt
    | LcIncreasing _ _ \<Rightarrow> True
    | LcConnected con _ \<Rightarrow> genuine opt (cn_env con) (cn_client con))"

definition parts_trust :: "'w library_options \<Rightarrow> ('q, 'w, 'p, 's, 'x, 'r) session_parts \<Rightarrow> bool" where
  "parts_trust opt p \<longleftrightarrow> opt_server (sp_options p) = opt_server opt \<and> genuine opt (cn_env (sp_con p)) (cn_client (sp_con p))"

lemma trusts_simps [simp]:
  "trusts opt (c\<lparr>lc_items := items\<rparr>) = trusts opt c"
  "trusts opt (whole p) = parts_trust opt p"
  "trusts opt (reconnecting o1 items) = (opt_server o1 = opt_server opt)"
  by (simp_all add: trusts_def parts_trust_def whole_def reconnecting_def)

lemma con_send_genuine:
  "con_send x con = (r, con') \<Longrightarrow> genuine opt (cn_env con') (cn_client con') = genuine opt (cn_env con) (cn_client con)"
proof -
  assume c: "con_send x con = (r, con')"
  obtain out s where s: "client_send_packet (cn_env con) x (cn_client con) = (out, s)" by (metis surj_pair)
  then have "con' = con\<lparr>cn_client := s\<rparr>" using c by (auto simp: con_send_def split: outcome.splits)
  then show ?thesis using client_send_packet_keys [OF s] by (simp add: genuine_def)
qed

lemma parts_trust_cong: "sp_con p' = sp_con p \<Longrightarrow> sp_options p' = sp_options p \<Longrightarrow> parts_trust opt p' = parts_trust opt p"
  by (simp add: parts_trust_def)

lemma book_part_parts [simp]:
  "sp_con (fst (book_part ly utc msg p)) = sp_con p" "sp_options (fst (book_part ly utc msg p)) = sp_options p"
  by (simp_all add: book_part_def Let_def split: prod.split)

lemma book_part_trust: "book_part ly utc msg p = (p', handled) \<Longrightarrow> parts_trust opt p' = parts_trust opt p"
  using book_part_parts [of ly utc msg p] by (intro parts_trust_cong) simp_all

lemma add_items_trust [simp]: "parts_trust opt (add_items new p) = parts_trust opt p"
  by (simp add: parts_trust_def add_items_def)

lemma add_transfers_trust [simp]: "parts_trust opt (add_transfers upload ms p) = parts_trust opt p"
  by (simp add: parts_trust_def add_transfers_def Let_def)

lemma sp_con_trust:
  "con_send x (sp_con p) = (r, con) \<Longrightarrow> parts_trust opt (p\<lparr>sp_con := con\<rparr>) = parts_trust opt p"
  by (simp add: parts_trust_def con_send_genuine)

lemma answer_connection_info_trust:
  "answer_connection_info ly p = Ready p' \<Longrightarrow> parts_trust opt p' = parts_trust opt p"
  by (auto simp: answer_connection_info_def Let_def sp_con_trust split: prod.splits option.splits if_splits)

lemma handle_message_part_trust:
  "handle_message_part ly utc msg p = Ready (p', handled) \<Longrightarrow> parts_trust opt p' = parts_trust opt p"
  by (auto simp: handle_message_part_def
    split: book_message.splits prod.splits library_message.splits polled.splits
    dest: book_part_trust answer_connection_info_trust)

lemma renamed_server: "opt_server (fold (renamed own) ms opt) = opt_server opt"
  by (induction ms arbitrary: opt) (auto simp: renamed_def split: option.splits)

lemma moved_channel_server: "opt_server (moved_channel own ms opt) = opt_server opt"
  by (simp add: moved_channel_def split: option.split)

lemma follow_up_trust:
  assumes "follow_up ly msg p = Ready (r, p')"
  shows "parts_trust opt p' = parts_trust opt p"
proof -
  have o: "parts_trust opt (p\<lparr>sp_options := o1\<rparr>) = parts_trust opt p" if "opt_server o1 = opt_server (sp_options p)" for o1
    using that by (simp add: parts_trust_def)
  show ?thesis using assms
    by (auto simp: follow_up_def Let_def o renamed_server moved_channel_server sp_con_trust
      split: book_message.splits prod.splits library_message.splits if_splits)
qed

lemma library_handle_command_trust:
  assumes "library_handle_command ly utc cmd p = Ready (r, p')"
  shows "parts_trust opt p' = parts_trust opt p"
proof (cases "ly_parse ly cmd")
  case (Inr msg)
  obtain p1 handled where 1: "handle_message_part ly utc msg p = Ready (p1, handled)"
    using assms Inr by (auto simp: library_handle_command_def split: polled.splits)
  obtain r2 p2 where 2: "follow_up ly msg p1 = Ready (r2, p2)"
    using assms Inr 1 by (auto simp: library_handle_command_def split: polled.splits)
  have "p' = p2 \<or> p' = add_items [Inr (LiMessageEvent msg)] p2"
    using assms Inr 1 2 by (auto simp: library_handle_command_def split: option.splits if_splits)
  then show ?thesis using handle_message_part_trust [OF 1] follow_up_trust [OF 2] by auto
qed (use assms in \<open>simp add: library_handle_command_def\<close>)

lemma client_failed_trust: "parts_trust opt p \<Longrightarrow> trusts opt (snd (client_failed e p))"
  by (auto simp: client_failed_def parts_trust_def split: handshake_error.split proto_error.split)

lemma yield_first_trust [simp]: "trusts opt (snd (yield_first c)) = trusts opt c"
  by (simp add: yield_first_def split: list.split)

lemma command_round_trust:
  assumes "parts_trust opt p"
  shows "case command_round ly utc cmd p of Inl answer \<Rightarrow> trusts opt (snd answer) | Inr p' \<Rightarrow> parts_trust opt p'"
proof (cases "library_handle_command ly utc cmd p")
  case (Ready res)
  obtain r p' where res: "res = (r, p')" by (metis surj_pair)
  have "parts_trust opt p'" using library_handle_command_trust Ready res assms by blast
  then show ?thesis
    using Ready res by (cases r) (auto simp: command_round_def Let_def, auto simp: parts_trust_def)
qed (use assms in \<open>simp_all add: command_round_def\<close>)

lemma loop_round_trust:
  assumes "parts_trust opt p"
  shows "case loop_round ly utc p of Inl answer \<Rightarrow> trusts opt (snd answer) | Inr p' \<Rightarrow> parts_trust opt p'"
proof -
  obtain out s where out: "client_next (cn_env (sp_con p)) (cn_client (sp_con p)) = (out, s)" by (metis surj_pair)
  have "parts_trust opt (p\<lparr>sp_con := (sp_con p)\<lparr>cn_client := s\<rparr>\<rparr>)"
    using assms client_next_keys [OF out] by (simp add: parts_trust_def genuine_def)
  then show ?thesis
    using out command_round_trust client_failed_trust
    by (auto simp: loop_round_def audio_round_def Let_def split: outcome.split option.split stream_item.split)
qed

lemma connected_loop_trust: "parts_trust opt p \<Longrightarrow> trusts opt (snd (connected_loop ly utc p))"
proof (erule connected_loop_rule)
  show "loop_round ly utc p = Inr p' \<Longrightarrow> parts_trust opt p'" if "parts_trust opt p" for p p'
    using loop_round_trust [OF that, of ly utc] by simp
  show "loop_round ly utc p = Inl answer \<Longrightarrow> trusts opt (snd answer)" if "parts_trust opt p" for p answer
    using loop_round_trust [OF that, of ly utc] by simp
qed

lemma check_transfers_trust: "trusts opt (snd answer) \<Longrightarrow> trusts opt (snd (check_transfers streams answer))"
  by (auto simp: check_transfers_def trusts_def split: prod.split polled.split connection_state.split option.split)

lemma poll_connected_trust:
  assumes "opt_server o1 = opt_server opt" "genuine opt (cn_env con) (cn_client con)"
  shows "trusts opt (snd (poll_connected ly i con b o1))"
  unfolding poll_connected_def
  using assms by (intro check_transfers_trust connected_loop_trust) (simp add: parts_trust_def genuine_def)

lemma connect_failed_trust:
  assumes "trusts opt c"
  shows "trusts opt (snd (connect_failed ly e again c))"
proof (cases "\<exists>level. e = IdentityLevel level")
  case True
  then obtain level where e: "e = IdentityLevel level" by blast
  show ?thesis
  proof (cases "increase_identity_level ly level (lc_options c)")
    case (Ready r)
    then show ?thesis using assms e by (cases r) (simp_all add: connect_failed_def trusts_def)
  qed (use assms e in \<open>simp_all add: connect_failed_def\<close>)
next
  case False
  then have "connect_failed ly e again c = (if again \<and> timed_out e then (Pending, reconnecting (lc_options c) (lc_items c))
      else (Ready (Some (Inl e)), c))"
    by (cases e) (simp_all add: connect_failed_def)
  then show ?thesis using assms by (simp add: trusts_def reconnecting_def)
qed

lemma now_connected_trust:
  assumes "library_connect ly o1 w = Ready (Inr est)" "opt_server o1 = opt_server opt"
    "opt_server (lc_options c) = opt_server opt"
  shows "trusts opt (snd (now_connected utc est c))"
proof (cases est)
  case (fields env s b)
  then have "genuine o1 env s" using library_connect_genuine assms(1) by blast
  then show ?thesis using fields assms by (simp add: now_connected_def trusts_def genuine_def)
qed

lemma poll_connecting_trust:
  assumes "trusts opt c" "lc_state c = LcConnecting o1 again ended"
  shows "trusts opt (snd (poll_connecting ly i o1 again c))"
proof (cases "pi_connect i")
  case (Some w)
  have o1: "opt_server o1 = opt_server opt" "opt_server (lc_options c) = opt_server opt"
    using assms by (simp_all add: trusts_def)
  show ?thesis
  proof (cases "library_connect ly o1 w")
    case (Ready r)
    have f: "trusts opt (snd (connect_failed ly e again (c\<lparr>lc_state := LcConnecting o1 again True\<rparr>)))" for e
      by (rule connect_failed_trust) (simp add: trusts_def o1)
    show ?thesis
      using Ready Some f now_connected_trust [OF _ o1] by (cases r) (simp_all add: poll_connecting_def)
  qed (use Some assms(1) in \<open>simp_all add: poll_connecting_def\<close>)
qed (use assms(1) in \<open>simp add: poll_connecting_def\<close>)

lemma poll_increasing_trust: "trusts opt c \<Longrightarrow> trusts opt (snd (poll_increasing i cancelled c))"
  by (cases "pi_identity i") (auto simp: poll_increasing_def Let_def trusts_def split: option.split)

lemma library_poll_trust:
  assumes "trusts opt c"
  shows "trusts opt (snd (library_poll_next ly i c))"
proof (cases "lc_items c = []")
  case True
  show ?thesis
  proof (cases "lc_state c")
    case (LcConnecting o1 again ended)
    then show ?thesis
      using True assms poll_connecting_trust [OF assms LcConnecting] by (simp add: library_poll_next_def)
  next
    case (LcIncreasing cancelled gone)
    then show ?thesis
      using True assms poll_increasing_trust [OF assms] by (simp add: library_poll_next_def)
  next
    case (LcConnected con b)
    then show ?thesis
      using True assms poll_connected_trust [of "lc_options c" opt con ly i b]
      by (simp add: library_poll_next_def trusts_def)
  qed
qed (use assms in \<open>simp add: library_poll_next_def\<close>)

lemma con_send_command_genuine:
  assumes "con_send_command p con = (r, con')"
  shows "genuine opt (cn_env con') (cn_client con') = genuine opt (cn_env con) (cn_client con)"
proof -
  obtain e con2 where 1: "con_send (Some p) con = (e, con2)" by (metis surj_pair)
  then have "con' = con2" using assms by (simp add: con_send_command_def)
  then show ?thesis using con_send_genuine [OF 1] by simp
qed

lemma con_send_command_with_result_genuine:
  assumes "con_send_command_with_result p con = (r, con')"
  shows "genuine opt (cn_env con') (cn_client con') = genuine opt (cn_env con) (cn_client con)"
proof -
  let ?con = "con\<lparr>cn_return_code := cn_return_code con + 1\<rparr>"
  obtain e con2 where 1: "con_send (Some (write_arg (ascii ''return_code'') (decimal (unat (cn_return_code con))) p)) ?con
      = (e, con2)" by (metis surj_pair)
  then have "con' = con2" using assms by (simp add: con_send_command_with_result_def Let_def)
  then show ?thesis using con_send_genuine [OF 1] by simp
qed

lemma con_start_transfer_genuine:
  assumes "con_start_transfer ly msg con = (r, con')"
  shows "genuine opt (cn_env con') (cn_client con') = genuine opt (cn_env con) (cn_client con)"
proof (cases "ly_write ly (msg (cn_filetransfer_id con))")
  case (Some p)
  let ?con = "con\<lparr>cn_filetransfer_id := cn_filetransfer_id con + 1\<rparr>"
  obtain q con2 where 1: "con_send_command_with_result p ?con = (q, con2)" by (metis surj_pair)
  then have "con' = con2" using assms Some by (simp add: con_start_transfer_def Let_def)
  then show ?thesis using con_send_command_with_result_genuine [OF 1] by simp
qed (use assms in \<open>auto simp: con_start_transfer_def Let_def\<close>)

lemma when_connected_trust:
  assumes "\<And>con r con'. f con = (r, con')
    \<Longrightarrow> genuine opt (cn_env con') (cn_client con') = genuine opt (cn_env con) (cn_client con)"
  shows "trusts opt (snd (when_connected f c)) = trusts opt c"
proof (cases "lc_state c")
  case (LcConnected con b)
  obtain r con' where 1: "f con = (r, con')" by (metis surj_pair)
  show ?thesis using assms [OF 1] 1 LcConnected by (simp add: when_connected_def trusts_def)
qed (simp_all add: when_connected_def)

lemmas calls_trust =
  when_connected_trust [OF con_send_command_genuine]
  when_connected_trust [OF con_send_command_with_result_genuine]
  when_connected_trust [OF con_start_transfer_genuine]

lemma update_item_server: "opt_server (mu_options (update_item it u)) = opt_server (mu_options u)"
proof (cases it)
  case (Argument name arg)
  have away: "mu_options (update_away u) = mu_options u" for u :: "('a, 'b) mute_update"
    by (simp add: update_away_def split: option.split)
  show ?thesis
    by (simp add: Argument away update_arg_def set_prop_def Let_def split: option.split)
qed simp

lemma update_items_server: "opt_server (mu_options (fold update_item args u)) = opt_server (mu_options u)"
  by (induction args arbitrary: u) (simp_all add: update_item_server)

lemma update_on_outgoing_command_trust: "trusts opt (update_on_outgoing_command p c) = trusts opt c"
proof (cases "lc_state c")
  case (LcConnected con b)
  then show ?thesis
    by (auto simp: update_on_outgoing_command_def trusts_def mute_changes_def Let_def update_items_server split: prod.split)
qed (simp_all add: update_on_outgoing_command_def)

lemma library_disconnect_trust: "trusts opt (snd (library_disconnect ly reason message c)) = trusts opt c"
proof (cases "lc_state c")
  case (LcConnected con b)
  obtain e con' where 1: "con_send (ly_write ly (LoDisconnect reason message)) con = (e, con')" by (metis surj_pair)
  show ?thesis using con_send_genuine [OF 1] 1 LcConnected by (simp add: library_disconnect_def trusts_def)
qed (simp_all add: library_disconnect_def)

lemma transfers_trust:
  "trusts opt (snd (library_download_file ly ch path pw seek c)) = trusts opt c"
  "trusts opt (snd (library_upload_file ly ch path pw n over resume c)) = trusts opt c"
  unfolding library_download_file_def library_upload_file_def
  by (rule when_connected_trust, simp only: con_download_file_def con_upload_file_def, erule con_start_transfer_genuine)+

lemma perform_trust:
  assumes "trusts opt c"
  shows "trusts opt (snd (perform ly call c))"
proof (cases call)
  case (CallPoll i)
  then show ?thesis using library_poll_trust [OF assms] by simp
next
  case CallCancel
  then show ?thesis using assms by (cases "lc_state c") (simp_all add: cancel_identity_level_increase_def trusts_def)
qed (use assms in \<open>simp_all add: library_send_command_def library_send_command_with_result_def library_send_audio_def
    library_disconnect_trust transfers_trust calls_trust update_on_outgoing_command_trust\<close>)

lemma library_run_trust: "trusts opt c \<Longrightarrow> trusts opt (snd (library_run ly calls c))"
proof (induction calls arbitrary: c)
  case (Cons call calls)
  obtain its c' where 1: "perform ly call c = (its, c')" by (metis surj_pair)
  have "trusts opt c'" using perform_trust [OF Cons.prems, of ly call] 1 by simp
  then show ?case using Cons.IH 1 by (simp add: map_prod_def split_beta)
qed simp

text \<open>C17. A connection only ever talks to the server it was told to: whatever is called and whatever arrives, while it is
  connected its session keys are derived from an ephemeral key that a license chain leads to, the license is signed
  by a server key, and when the options name a server, it is the one with that key.
\<close>

theorem connections_are_genuine:
  "case lc_state (snd (library_run ly calls (connection_new_from ly key opt))) of
     LcConnected con b \<Rightarrow> genuine opt (cn_env con) (cn_client con)
   | _ \<Rightarrow> True"
proof -
  have "trusts opt (connection_new_from ly key opt)"
    by (simp add: trusts_def connection_new_from_def Let_def split: option.split)
  then have "trusts opt (snd (library_run ly calls (connection_new_from ly key opt)))" by (rule library_run_trust)
  then show ?thesis by (simp add: trusts_def split: connection_state.splits)
qed

end
