(* ===== verification/ResolveFacts.thy ===== *)
theory ResolveFacts
  imports Options
begin

text \<open>
  Literal addresses: what \<open>Display\<close> prints of a socket address is an address that \<open>resolve\<close> of
  \<open>tsclientlib/src/resolver.rs\<close> reads back, without a query.
\<close>

section \<open>Digits\<close>

lemma uint_byte: "m < 256 \<Longrightarrow> uint (word_of_nat m :: u8) = int m"
  by (simp add: unsigned_of_nat take_bit_nat_eq_self uint_nat)

lemma decimal_digit: "m < 10 \<Longrightarrow> uint (48 + word_of_nat m :: u8) = 48 + int m"
  using uint_byte [of "48 + m"] by simp

lemma decimal_steps:
  "n < 10 \<Longrightarrow> map uint (decimal n) = [48 + int n]"
  "\<not> n < 10 \<Longrightarrow> map uint (decimal n) = map uint (decimal (n div 10)) @ [48 + int n mod 10]"
  using decimal_digit [of n] decimal_digit [of "n mod 10"] by (simp_all add: decimal.simps [of n] zmod_int)

lemma decimal_chars: "c \<in> set (map uint (decimal n)) \<Longrightarrow> 48 \<le> c \<and> c \<le> 57"
proof (induction n rule: decimal.induct)
  case (1 n)
  show ?case
  proof (cases "n < 10")
    case True
    then show ?thesis using 1(2) unfolding decimal_steps(1) [OF True] by auto
  next
    case False
    then show ?thesis using 1 unfolding decimal_steps(2) [OF False] by auto
  qed
qed

lemma decimal_value: "foldl (\<lambda>v c. v * 10 + (c - 48)) 0 (map uint (decimal n)) = int n"
proof (induction n rule: decimal.induct)
  case (1 n)
  show ?case
  proof (cases "n < 10")
    case False
    have "int (n div 10) * 10 + int n mod 10 = int n" by (simp add: zdiv_int)
    then show ?thesis using 1 [OF False] unfolding decimal_steps(2) [OF False] by simp
  qed (simp add: decimal_steps(1))
qed

lemma decimal_length: "n < 10 ^ Suc k \<Longrightarrow> length (decimal n) \<le> Suc k"
proof (induction k arbitrary: n)
  case (Suc k)
  have "n div 10 < 10 ^ Suc k" using Suc(2) by (simp add: less_mult_imp_div_less)
  from Suc(1) [OF this] show ?case by (subst decimal.simps) simp
qed (subst decimal.simps, simp)

lemma decimal_not_empty [simp]: "decimal n \<noteq> []"
  by (subst decimal.simps) simp

lemma decimal_leading: "0 < n \<Longrightarrow> hd (map uint (decimal n)) \<noteq> 48"
proof (induction n rule: decimal.induct)
  case (1 n)
  show ?case
  proof (cases "n < 10")
    case True
    then show ?thesis using 1(2) unfolding decimal_steps(1) [OF True] by simp
  next
    case False
    then show ?thesis using 1(1) [OF False] unfolding decimal_steps(2) [OF False] by (simp add: hd_append)
  qed
qed

lemma decimal_single: "n < 10 \<longleftrightarrow> length (decimal n) = 1"
proof (cases "n < 10")
  case False
  then show ?thesis by (simp add: decimal.simps [of n])
qed (simp add: decimal.simps)

definition hex_value :: "rchar \<Rightarrow> int" where
  "hex_value c = (if c \<le> 57 then c - 48 else c - 87)"

lemma uint_hex_digit: "m < 16 \<Longrightarrow> uint (hex_digit m) = int (if m < 10 then 48 + m else 87 + m)"
  unfolding hex_digit_def by (rule uint_byte) simp

lemma hex_digit_value: "m < 16 \<Longrightarrow> hex_value (uint (hex_digit m)) = int m"
  using uint_hex_digit [of m] by (simp add: hex_value_def)

lemma hex_chars: "c \<in> set (map uint (hex_text n)) \<Longrightarrow> 48 \<le> c \<and> c \<le> 57 \<or> 97 \<le> c \<and> c \<le> 102"
proof (induction n rule: hex_text.induct)
  case (1 n)
  show ?case
    using 1 uint_hex_digit [of n] uint_hex_digit [of "n mod 16"]
    by (cases "n < 16") (auto simp: hex_text.simps [of n] split: if_splits)
qed

lemma hex_text_value: "foldl (\<lambda>v c. v * 16 + hex_value c) 0 (map uint (hex_text n)) = int n"
proof (induction n rule: hex_text.induct)
  case (1 n)
  have "int (n div 16) * 16 + int (n mod 16) = int n" by (simp add: zdiv_int zmod_int)
  then show ?case
    using 1 hex_digit_value [of n] hex_digit_value [of "n mod 16"]
    by (cases "n < 16") (simp_all add: hex_text.simps [of n])
qed

lemma hex_text_length: "n < 16 ^ Suc k \<Longrightarrow> length (hex_text n) \<le> Suc k"
proof (induction k arbitrary: n)
  case (Suc k)
  have "n div 16 < 16 ^ Suc k" using Suc(2) by (simp add: less_mult_imp_div_less)
  from Suc(1) [OF this] show ?case by (subst hex_text.simps) simp
qed (subst hex_text.simps, simp)

lemma hex_text_not_empty [simp]: "hex_text n \<noteq> []"
  by (subst hex_text.simps) simp

section \<open>Numbers in an address\<close>

lemma read_digits_text:
  "\<forall>c\<in>set s. digit_value radix c = Some (f c) \<Longrightarrow> length s \<le> fuel \<Longrightarrow> \<not> digit_follows radix rest
    \<Longrightarrow> read_digits radix fuel (s @ rest) v n = (foldl (\<lambda>v c. v * radix + f c) v s, n + length s, rest)"
proof (induction s arbitrary: fuel v n)
  case Nil
  then show ?case by (cases fuel; cases rest) (auto simp: digit_follows_def split: option.splits)
next
  case (Cons c s)
  then show ?case by (cases fuel) auto
qed

lemma read_octet_text:
  assumes "\<not> digit_follows 10 rest"
  shows "read_octet (map uint (decimal (unat a)) @ rest) = Some (a, rest)"
proof -
  let ?s = "map uint (decimal (unat a))"
  have d: "\<forall>c\<in>set ?s. digit_value 10 c = Some (c - 48)"
    using decimal_chars by (fastforce simp: digit_value_def is_ascii_digit_def)
  have a: "unat a < 256" using unsigned_less [of a, where 'a = nat] by simp
  then have "length ?s \<le> 3" using decimal_length [of "unat a" 2] by simp
  from read_digits_text [OF d this assms, of 0 0]
  have r: "read_digits 10 3 (?s @ rest) 0 0 = (int (unat a), length ?s, rest)"
    using decimal_value [of "unat a"] by simp
  have "hd (?s @ rest) \<noteq> 48" if "1 < length ?s"
    using that decimal_single [of "unat a"] decimal_leading [of "unat a"] by (simp add: hd_append)
  moreover have "uint a \<le> 255" using unsigned_less [of a, where 'a = int] by simp
  ultimately show ?thesis using r assms by (simp add: read_octet_def)
qed

lemma read_group_text:
  assumes "\<not> digit_follows 16 rest"
  shows "read_group (map uint (hex_text (unat g)) @ rest) = Some (g, rest)"
proof -
  let ?s = "map uint (hex_text (unat g))"
  have d: "\<forall>c\<in>set ?s. digit_value 16 c = Some (hex_value c)"
    using hex_chars by (fastforce simp: digit_value_def is_ascii_digit_def hex_value_def)
  have "unat g < 16 ^ Suc 3" using unsigned_less [of g, where 'a = nat] by simp
  then have "length ?s \<le> 4" using hex_text_length [of "unat g" 3] by simp
  from read_digits_text [OF d this assms, of 0 0]
  have "read_digits 16 4 (?s @ rest) 0 0 = (int (unat g), length ?s, rest)"
    using hex_text_value [of "unat g"] by simp
  then show ?thesis using assms by (auto simp: read_group_def)
qed

lemma read_ipv4_text:
  assumes "\<not> digit_follows 10 rest"
  shows "read_ipv4 (map uint (ipv4_text a b c d) @ rest) = Some ((a, b, c, d), rest)"
proof -
  have dot: "\<not> digit_follows 10 (46 # s)" for s by (simp add: digit_follows_def digit_value_def is_ascii_digit_def is_ascii_upper_def)
  have "map uint (ipv4_text a b c d) @ rest
      = map uint (decimal (unat a)) @ 46 # map uint (decimal (unat b)) @ 46 # map uint (decimal (unat c))
        @ 46 # map uint (decimal (unat d)) @ rest"
    by (simp add: ipv4_text_def ascii_def)
  then show ?thesis using dot assms by (simp add: read_ipv4_def read_octet_text read_char_def)
qed

section \<open>Groups\<close>

lemma read_digits_rest: "read_digits radix fuel s v n = (v', n', rest) \<Longrightarrow> set rest \<subseteq> set s"
  by (induction radix fuel s v n rule: read_digits.induct) (auto split: option.splits)

lemma read_ipv4_needs_dots: "46 \<notin> set s \<Longrightarrow> read_ipv4 s = None"
proof (rule ccontr)
  assume s: "46 \<notin> set s" and "read_ipv4 s \<noteq> None"
  then obtain a rest where r: "read_octet s = Some (a, rest)" "read_char 46 rest \<noteq> None"
    by (auto simp: read_ipv4_def bind_eq_Some_conv)
  obtain v n rest' where "read_digits 10 3 s 0 0 = (v, n, rest')" by (metis prod_cases3)
  then have "set rest \<subseteq> set s" using r(1) read_digits_rest by (fastforce simp: read_octet_def split: if_splits)
  then show False using r(2) s by (auto simp: read_char_def split: list.splits if_splits)
qed

definition group_texts :: "u16 list \<Rightarrow> rstr" where
  "group_texts gs = concat (map (\<lambda>g. 58 # map uint (hex_text (unat g))) gs)"

lemma groups_text_Cons: "map uint (groups_text (g # gs)) = map uint (hex_text (unat g)) @ group_texts gs"
proof (induction gs arbitrary: g)
  case (Cons h gs)
  then show ?case by (simp add: groups_text_def group_texts_def ascii_def)
qed (simp add: groups_text_def group_texts_def)

lemma hex_no_dot: "46 \<notin> set (map uint (hex_text n))"
  using hex_chars by fastforce

lemma group_texts_no_dot: "46 \<notin> set (group_texts gs)"
  using hex_no_dot by (auto simp: group_texts_def)

text \<open>Nothing more can be read.\<close>

definition ends_groups :: "rstr \<Rightarrow> bool" where
  "ends_groups s \<longleftrightarrow> 46 \<notin> set s \<and> \<not> digit_follows 16 s \<and> (\<forall>i>0. separated i read_group s = None)"

lemma ends_after_groups: "ends_groups rest \<Longrightarrow> \<not> digit_follows 16 (group_texts gs @ rest)"
  by (cases gs) (auto simp: ends_groups_def group_texts_def digit_follows_def digit_value_def is_ascii_digit_def is_ascii_upper_def)

lemma read_more_groups:
  "0 < i \<Longrightarrow> i + length gs \<le> limit \<Longrightarrow> ends_groups rest
    \<Longrightarrow> read_groups limit i acc (group_texts gs @ rest) = (acc @ gs, False, rest)"
proof (induction gs arbitrary: i acc)
  case Nil
  then show ?case
    by (subst read_groups.simps)
      (auto simp: group_texts_def ends_groups_def separated_def read_ipv4_needs_dots read_char_def split: list.splits)
next
  case (Cons g gs)
  have "46 \<notin> set (map uint (hex_text (unat g)) @ group_texts gs @ rest)"
    using Cons.prems(3) group_texts_no_dot [of gs] hex_no_dot [of "unat g"] by (auto simp: ends_groups_def)
  then have 4: "separated i read_ipv4 (group_texts (g # gs) @ rest) = None"
    using Cons.prems(1) by (simp add: separated_def group_texts_def read_char_def read_ipv4_needs_dots)
  have "separated i read_group (group_texts (g # gs) @ rest) = Some (g, group_texts gs @ rest)"
    using Cons.prems read_group_text [OF ends_after_groups [OF Cons.prems(3)]]
    by (simp add: separated_def group_texts_def read_char_def)
  then show ?case using Cons 4 by (subst read_groups.simps) simp
qed

lemma read_all_groups:
  assumes "length gs \<le> limit" "0 < limit" "ends_groups rest"
    and "gs = [] \<Longrightarrow> read_group rest = None"
  shows "read_groups limit 0 [] (map uint (groups_text gs) @ rest) = (gs, False, rest)"
proof (cases gs)
  case Nil
  then show ?thesis
    using assms by (subst read_groups.simps) (simp add: groups_text_def separated_def read_ipv4_needs_dots ends_groups_def)
next
  case (Cons g hs)
  have "46 \<notin> set (map uint (hex_text (unat g)) @ group_texts hs @ rest)"
    using assms(3) group_texts_no_dot [of hs] hex_no_dot [of "unat g"] by (auto simp: ends_groups_def)
  then have "separated 0 read_ipv4 (map uint (groups_text gs) @ rest) = None"
    unfolding separated_def Cons groups_text_Cons append_assoc using read_ipv4_needs_dots by simp
  moreover have "separated 0 read_group (map uint (groups_text gs) @ rest) = Some (g, group_texts hs @ rest)"
    using read_group_text [OF ends_after_groups [OF assms(3)]] 
    unfolding separated_def Cons groups_text_Cons append_assoc by simp
  ultimately show ?thesis
    using assms(1,2) read_more_groups [of 1 hs limit rest "[g]"] assms(3) Cons by (subst read_groups.simps) simp
qed

section \<open>Runs of zeros\<close>

definition zero_run :: "u16 list \<Rightarrow> nat \<times> nat \<Rightarrow> bool" where
  "zero_run gs r \<longleftrightarrow> fst r + snd r \<le> length gs \<and> (\<forall>j. j < snd r \<longrightarrow> gs ! (fst r + j) = 0)"

lemma drop_step: "g # gs = drop i full \<Longrightarrow> i < length full \<and> full ! i = g \<and> gs = drop (Suc i) full"
proof -
  assume d: "g # gs = drop i full"
  then have i: "i < length full" by (rule contrapos_pp) simp
  then show ?thesis using d Cons_nth_drop_Suc [OF i] i by (metis list.inject)
qed

lemma longest_zeros_run:
  "zero_run full cur \<Longrightarrow> zero_run full best \<Longrightarrow> snd cur = 0 \<or> fst cur + snd cur = i \<Longrightarrow> i + length gs = length full
    \<Longrightarrow> gs = drop i full \<Longrightarrow> zero_run full (longest_zeros i gs cur best)"
proof (induction i gs cur best rule: longest_zeros.induct)
  case (2 i g gs s n best)
  have g: "full ! i = g" "gs = drop (i + 1) full" "i < length full"
    using drop_step [OF 2(7)] by simp_all
  show ?case
  proof (cases "g = 0")
    case True
    let ?c = "(if n = 0 then i else s, n + 1)"
    have c: "zero_run full ?c" "fst ?c + snd ?c = i + 1"
      using 2(3,5) g True by (auto simp: zero_run_def less_Suc_eq)
    have b: "zero_run full (if snd best < snd ?c then ?c else best)" using c(1) 2(4) by simp
    have l: "i + 1 + length gs = length full" using 2(6) by simp
    have "zero_run full (longest_zeros (i + 1) gs ?c (if snd best < snd ?c then ?c else best))"
      by (rule 2(1) [OF True refl c(1) b disjI2 [OF c(2)] l g(2)])
    then show ?thesis unfolding longest_zeros.simps Let_def if_P [OF True] .
  next
    case False
    have "zero_run full (0, 0)" by (simp add: zero_run_def)
    then show ?thesis using 2(2) [OF False _ 2(4)] 2(6) g(2) False by simp
  qed
qed simp

lemma zero_run_split:
  "zero_run gs (s, n) \<Longrightarrow> gs = take s gs @ replicate n 0 @ drop (s + n) gs"
proof (rule nth_equalityI)
  assume "zero_run gs (s, n)"
  then have r: "s + n \<le> length gs" "\<And>j. j < n \<Longrightarrow> gs ! (s + j) = 0" by (auto simp: zero_run_def)
  then show "length gs = length (take s gs @ replicate n 0 @ drop (s + n) gs)" by simp
  fix i assume i: "i < length gs"
  have mid: "gs ! i = 0" if "s \<le> i" "i < s + n" using r(2) [of "i - s"] that by simp
  from i show "gs ! i = (take s gs @ replicate n 0 @ drop (s + n) gs) ! i"
    using r mid by (auto simp: nth_append)
qed

section \<open>IPv6 addresses\<close>

lemma ends_colons: "46 \<notin> set s \<Longrightarrow> ends_groups (58 # 58 # s)"
  by (auto simp: ends_groups_def separated_def read_char_def read_group_def digit_follows_def digit_value_def
      is_ascii_digit_def is_ascii_upper_def numeral_eq_Suc)

lemma ends_bracket: "46 \<notin> set s \<Longrightarrow> ends_groups (93 # s)" "read_group (93 # s) = None"
  by (auto simp: ends_groups_def separated_def read_char_def read_group_def digit_follows_def digit_value_def
      is_ascii_digit_def is_ascii_upper_def numeral_eq_Suc)

lemma read_group_colon: "read_group (58 # s) = None"
  by (simp add: read_group_def digit_value_def is_ascii_digit_def is_ascii_upper_def numeral_eq_Suc)

lemma groups_text_no_dot: "46 \<notin> set (map uint (groups_text gs))"
  using group_texts_no_dot hex_no_dot by (cases gs) (auto simp only: groups_text_Cons set_append Un_iff, simp add: groups_text_def)

lemma read_compressed:
  assumes gs: "length gs = 8" and z: "zero_run gs (s, n)" "1 < n" and rest: "46 \<notin> set rest"
  shows "read_ipv6 (map uint (groups_text (take s gs)) @ 58 # 58 # map uint (groups_text (drop (s + n) gs)) @ 93 # rest)
    = Some (gs, 93 # rest)"
proof -
  let ?tail = "map uint (groups_text (drop (s + n) gs)) @ 93 # rest"
  have s: "s + n \<le> 8" using z gs by (simp add: zero_run_def)
  have "46 \<notin> set ?tail" using groups_text_no_dot rest by auto
  from ends_colons [OF this]
  have 1: "read_groups 8 0 [] (map uint (groups_text (take s gs)) @ 58 # 58 # ?tail) = (take s gs, False, 58 # 58 # ?tail)"
    using read_all_groups [of "take s gs" 8] gs read_group_colon by simp
  have 2: "read_groups (8 - (s + 1)) 0 [] ?tail = (drop (s + n) gs, False, 93 # rest)"
    using s z(2) gs rest ends_bracket by (intro read_all_groups) auto
  have "length (take s gs) = s" "8 - s - length (drop (s + n) gs) = n" "s \<noteq> 8" using s gs z(2) by auto
  then show ?thesis
    using 1 2 zero_run_split [OF z(1)] by (simp add: read_ipv6_def read_char_def)
qed

lemma bytes_of_group: "word_cat (ucast (drop_bit 8 g) :: u8) (ucast g :: u8) = (g :: u16)"
  by (rule bit_word_eqI) (auto simp: bit_word_cat_iff bit_ucast_iff bit_drop_bit_eq)

lemma read_embedded:
  assumes rest: "46 \<notin> set rest"
  shows "read_ipv6 (map uint (ascii ''::ffff:'' @ ipv4_text a b c d) @ 93 # rest)
    = Some ([0, 0, 0, 0, 0, 0xffff, word_cat a b, word_cat c d], 93 # rest)"
proof -
  let ?v4 = "map uint (ipv4_text a b c d) @ 93 # rest"
  have h: "map uint (hex_text 65535) = [102, 102, 102, 102]" by (simp add: hex_text.simps hex_digit_def)
  have t: "map uint (ascii ''::ffff:'' @ ipv4_text a b c d) @ 93 # rest = 58 # 58 # 102 # 102 # 102 # 102 # 58 # ?v4"
    by (simp add: ascii_def)
  have 1: "read_groups 8 0 [] (58 # s) = ([], False, 58 # s)" for s
    by (subst read_groups.simps)
      (simp add: separated_def read_group_colon read_ipv4_def read_octet_def digit_value_def is_ascii_digit_def is_ascii_upper_def numeral_eq_Suc)
  have 4: "separated 0 read_ipv4 (102 # s) = None" for s
    by (simp add: separated_def read_ipv4_def read_octet_def digit_value_def is_ascii_digit_def is_ascii_upper_def numeral_eq_Suc)
  have g: "separated 0 read_group (102 # 102 # 102 # 102 # 58 # s) = Some (0xffff, 58 # s)" for s
    using read_group_text [of "58 # s" "0xffff"]
    by (simp add: h separated_def digit_follows_def digit_value_def is_ascii_digit_def is_ascii_upper_def)
  have v: "separated 1 read_ipv4 (58 # ?v4) = Some ((a, b, c, d), 93 # rest)"
    using read_ipv4_text [of "93 # rest"]
    by (simp add: separated_def read_char_def digit_follows_def digit_value_def is_ascii_digit_def is_ascii_upper_def)
  have "read_groups 7 1 [0xffff] (58 # ?v4) = ([0xffff, word_cat a b, word_cat c d], True, 93 # rest)"
    by (subst read_groups.simps) (simp add: v [simplified])
  then have "read_groups 7 0 [] (102 # 102 # 102 # 102 # 58 # ?v4) = ([0xffff, word_cat a b, word_cat c d], True, 93 # rest)"
    by (subst read_groups.simps) (simp add: 4 g)
  moreover have "replicate 5 (0 :: u16) = [0, 0, 0, 0, 0]" by (simp add: numeral_eq_Suc)
  ultimately show ?thesis unfolding t by (simp add: read_ipv6_def 1 read_char_def)
qed

lemma read_ipv6_text:
  assumes "length gs = 8" "46 \<notin> set rest"
  shows "read_ipv6 (map uint (ip_text (V6 gs)) @ 93 # rest) = Some (gs, 93 # rest)"
proof (cases "take 6 gs = [0, 0, 0, 0, 0, 0xffff]")
  case True
  then have "gs = [0, 0, 0, 0, 0, 0xffff] @ drop 6 gs" by (metis append_take_drop_id)
  moreover have "drop 6 gs = [gs ! 6, gs ! 7]" using assms(1) by (simp add: Cons_nth_drop_Suc [symmetric])
  ultimately have "gs = [0, 0, 0, 0, 0, 0xffff, gs ! 6, gs ! 7]" by simp
  then show ?thesis using read_embedded [OF assms(2)] bytes_of_group True assms(1) by simp
next
  case False
  obtain s n where l: "longest_zeros 0 gs (0, 0) (0, 0) = (s, n)" by fastforce
  have "zero_run gs (s, n)" using longest_zeros_run [of gs "(0, 0)" "(0, 0)" 0 gs] l by (simp add: zero_run_def)
  from read_compressed [OF assms(1) this _ assms(2)] show ?thesis
  proof (cases "1 < n")
    case False
    have "ends_groups (93 # rest)" using ends_bracket assms(2) by simp
    from read_all_groups [of gs 8, OF _ _ this]
    have "read_groups 8 0 [] (map uint (groups_text gs) @ 93 # rest) = (gs, False, 93 # rest)" using assms(1) ends_bracket(2) by simp
    then show ?thesis using l False \<open>take 6 gs \<noteq> _\<close> assms(1) by (simp add: read_ipv6_def)
  qed (use l \<open>take 6 gs \<noteq> _\<close> in \<open>simp add: ascii_def\<close>)
qed

section \<open>Addresses as text\<close>

lemma utf8_encode_ascii: "\<forall>b\<in>set bs. uint b < 128 \<Longrightarrow> utf8_encode (map uint bs) = bs"
  by (induction bs) (auto simp: utf8_char_def byte_of_def)

lemma digits_value_uint: "\<forall>c\<in>set bs. byte_digit c \<Longrightarrow> int (foldl (\<lambda>n c. n * 10 + (unat c - 48)) v bs) = foldl (\<lambda>v c. v * 10 + (c - 48)) (int v) (map uint bs)"
proof (induction bs arbitrary: v)
  case (Cons b bs)
  have "48 \<le> unat b" using Cons.prems by (simp add: byte_digit_def word_le_nat_alt)
  then have "int (v * 10 + (unat b - 48)) = int v * 10 + (uint b - 48)" by (simp add: of_nat_diff)
  then show ?case using Cons.IH [of "v * 10 + (unat b - 48)"] Cons.prems by simp
qed simp

lemma decimal_bytes: "c \<in> set (decimal n) \<Longrightarrow> byte_digit c \<and> uint c < 128"
  using decimal_chars [of "uint c" n] by (auto simp: byte_digit_def word_le_def)

lemma digits_value_decimal: "digits_value (decimal n) = n"
  using digits_value_uint [of "decimal n" 0] decimal_bytes decimal_value [of n] by (simp add: digits_value_def)

lemma parse_unsigned_decimal: "n < limit \<Longrightarrow> parse_unsigned limit (decimal n) = Some n"
proof -
  assume n: "n < limit"
  obtain c cs where d: "decimal n = c # cs" by (cases "decimal n") auto
  then have "c \<noteq> 0x2b" using decimal_bytes [of c n] by (auto simp: byte_digit_def)
  then have "(case decimal n of c # cs \<Rightarrow> if c = 0x2b then cs else decimal n | [] \<Rightarrow> []) = decimal n" by (simp add: d)
  then show ?thesis using n decimal_bytes digits_value_decimal by (simp add: parse_unsigned_def)
qed

lemma read_port_text: "read_port (map uint (decimal (unat p))) = Some p"
proof -
  have "utf8_encode (map uint (decimal (unat p))) = decimal (unat p)"
    using decimal_bytes by (intro utf8_encode_ascii) blast
  moreover have "list_all is_ascii_digit (map uint (decimal (unat p)))"
    using decimal_chars unfolding list_all_iff is_ascii_digit_def by blast
  moreover have "unat p < 2 ^ 16" using unsigned_less [of p, where 'a = nat] by simp
  ultimately show ?thesis by (simp add: read_port_def parse_port_def parse_unsigned_decimal)
qed

lemma rsplit_once_append: "c \<notin> set t \<Longrightarrow> rsplit_once c (s @ c # t) = Some (s, t)"
  by (simp add: rsplit_once_def takeWhile_append dropWhile_append)

lemma port_no_colon: "58 \<notin> set (map uint (decimal n))" "93 \<notin> set (map uint (decimal n))" "46 \<notin> set (map uint (decimal n))"
  using decimal_chars [of 58 n] decimal_chars [of 93 n] decimal_chars [of 46 n] by auto

lemma ipv4_chars: "c \<in> set (map uint (ipv4_text a b c' d)) \<Longrightarrow> c = 46 \<or> 48 \<le> c \<and> c \<le> 57"
proof -
  assume "c \<in> set (map uint (ipv4_text a b c' d))"
  then have "c = 46 \<or> (\<exists>n. c \<in> set (map uint (decimal n)))" by (auto simp: ipv4_text_def ascii_def)
  then show ?thesis using decimal_chars by blast
qed

lemma group_texts_colon: "gs \<noteq> [] \<Longrightarrow> 58 \<in> set (group_texts gs)"
  by (cases gs) (simp_all add: group_texts_def)

lemma ipv6_colon: "length gs = 8 \<Longrightarrow> 58 \<in> set (map uint (ip_text (V6 gs)))"
proof (cases "take 6 gs = [0, 0, 0, 0, 0, 0xffff]")
  case False
  assume gs: "length gs = 8"
  obtain s n where l: "longest_zeros 0 gs (0, 0) (0, 0) = (s, n)" by fastforce
  obtain g hs where c: "gs = g # hs" using gs by (cases gs) auto
  then have "hs \<noteq> []" using gs by auto
  from group_texts_colon [OF this] have "58 \<in> set (map uint (groups_text gs))" unfolding c groups_text_Cons by simp
  then show ?thesis using False l by (simp add: ascii_def)
qed (simp add: ascii_def)

lemma parse_socket_text_v4:
  "parse_socket_addr (map uint (ipv4_text a b c d) @ 58 # map uint (decimal (unat port))) = Some (V4 a b c d, port)"
proof -
  have "\<not> digit_follows 10 (58 # s)" for s by (simp add: digit_follows_def digit_value_def is_ascii_digit_def is_ascii_upper_def)
  then show ?thesis by (simp add: parse_socket_addr_def read_ipv4_text read_char_def read_port_text)
qed

lemma parse_socket_text_v6:
  assumes "length gs = 8"
  shows "parse_socket_addr (91 # map uint (ip_text (V6 gs)) @ 93 # 58 # map uint (decimal (unat port))) = Some (V6 gs, port)"
proof -
  have "read_ipv4 (91 # s) = None" for s
    by (simp add: read_ipv4_def read_octet_def digit_value_def is_ascii_digit_def is_ascii_upper_def numeral_eq_Suc)
  moreover have "46 \<notin> set (58 # map uint (decimal (unat port)))" using port_no_colon(3) by simp
  ultimately show ?thesis
    by (simp add: parse_socket_addr_def read_ipv6_text [OF assms] read_char_def drop_scope_def read_port_text del: ip_text.simps)
qed

definition ip_ok :: "ip_addr \<Rightarrow> bool" where
  "ip_ok ip \<longleftrightarrow> (case ip of V4 _ _ _ _ \<Rightarrow> True | V6 gs \<Rightarrow> length gs = 8)"

lemma socket_text_eq:
  "socket_text ip port = (case ip of V4 _ _ _ _ \<Rightarrow> map uint (ip_text ip) | V6 _ \<Rightarrow> 91 # map uint (ip_text ip) @ [93])
     @ 58 # map uint (decimal (unat port))"
  by (simp add: socket_text_def ascii_def split: ip_addr.split)

lemma parse_socket_text: "ip_ok ip \<Longrightarrow> parse_address lookup (socket_text ip port) = Inr (Addr (ip, port))"
proof (cases ip)
  case (V4 a b c d)
  let ?t = "map uint (ipv4_text a b c d)"
  have "58 \<notin> set ?t" "numeric ?t" using ipv4_chars by (fastforce simp: numeric_def list_all_iff is_ascii_digit_def)+
  moreover have "rsplit_once 58 (socket_text ip port) = Some (?t, map uint (decimal (unat port)))"
    using rsplit_once_append [OF port_no_colon(1)] by (simp add: socket_text_eq V4)
  moreover have "socket_text ip port = ?t @ 58 # map uint (decimal (unat port))" by (simp add: socket_text_eq V4)
  ultimately show ?thesis
    using parse_socket_text_v4 [of a b c d port] by (simp add: parse_address_def addr_or_def text_addrs_def V4)
next
  case (V6 gs)
  assume "ip_ok ip"
  then have gs: "length gs = 8" by (simp add: ip_ok_def V6)
  let ?t = "91 # map uint (ip_text (V6 gs)) @ [93]"
  have l: "socket_text ip port = ?t @ 58 # map uint (decimal (unat port))" by (simp add: socket_text_eq V6)
  have "rsplit_once 58 (socket_text ip port) = Some (?t, map uint (decimal (unat port)))"
    unfolding l using rsplit_once_append [OF port_no_colon(1)] by blast
  moreover have "58 \<in> set ?t" using ipv6_colon [OF gs] by simp
  moreover have "93 \<in> set (socket_text ip port)" unfolding l by simp
  moreover have "parse_socket_addr (socket_text ip port) = Some (ip, port)"
    using parse_socket_text_v6 [OF gs] unfolding l by (simp add: V6 del: ip_text.simps)
  ultimately show ?thesis
    using port_no_colon(2) by (simp add: parse_address_def addr_or_def text_addrs_def del: ip_text.simps)
qed

lemma resolve_socket_text: "ip_ok ip \<Longrightarrow> resolve rw (socket_text ip port) = [Inr (ip, port)]"
  by (simp add: resolve_def parse_socket_text)

section \<open>Connecting\<close>

lemma wrong_server_address: "wrong_server kc (opt\<lparr>opt_address := a\<rparr>) key s = wrong_server kc opt key s"
  by (simp add: wrong_server_def)

lemma client_init_of_address: "client_init_of kc i (opt\<lparr>opt_address := a\<rparr>) = client_init_of kc i opt"
  by (simp add: client_init_of_def)

lemma connect_to_address [simp]: "connect_to ly (opt\<lparr>opt_address := a\<rparr>) addr att = connect_to ly opt addr att"
  unfolding connect_to_def wrong_server_address client_init_of_address by simp

lemma try_addresses_address:
  "address_text (opt_address opt) = address_text a
    \<Longrightarrow> try_addresses ly (opt\<lparr>opt_address := a\<rparr>) errors rs ats = try_addresses ly opt errors rs ats"
  by (induction ly opt errors rs ats rule: try_addresses.induct)
    (simp_all split: polled.split sum.split client_error.split)

text \<open>C14. A socket address printed as text, also a compressed IPv6 address, is resolved to itself without a query, and
  connecting to the text is the same as connecting to the address.
\<close>

theorem typed_address_is_the_address:
  assumes "ip_ok ip"
  shows "resolve rw (socket_text ip port) = [Inr (ip, port)]
    \<and> library_connect ly (opt\<lparr>opt_address := AddrOther (socket_text ip port)\<rparr>) w
      = library_connect ly (opt\<lparr>opt_address := AddrSocket ip port\<rparr>) w"
proof
  let ?s = "opt\<lparr>opt_address := AddrSocket ip port\<rparr>"
  have "try_addresses ly (?s\<lparr>opt_address := AddrOther (socket_text ip port)\<rparr>) [] [Inr (ip, port)] (cw_attempts w)
      = try_addresses ly ?s [] [Inr (ip, port)] (cw_attempts w)"
    by (rule try_addresses_address) (simp add: address_text_def)
  then show "library_connect ly (opt\<lparr>opt_address := AddrOther (socket_text ip port)\<rparr>) w = library_connect ly ?s w"
    using resolve_socket_text [OF assms] by (simp add: library_connect_def addresses_of_def)
qed (rule resolve_socket_text [OF assms])

theorem typed_address_is_the_address_witness:
  "ip_ok (V6 [0xfe80, 0, 0, 0, 0, 0, 0, 1]) \<and> socket_text (V6 [0xfe80, 0, 0, 0, 0, 0, 0, 1]) 9987 = str ''[fe80::1]:9987''
    \<and> (\<forall>rw. resolve rw (str ''[fe80::1]:9987'') = [Inr (V6 [0xfe80, 0, 0, 0, 0, 0, 0, 1], 9987)])"
proof -
  have ok: "ip_ok (V6 [0xfe80, 0, 0, 0, 0, 0, 0, 1])" by (simp add: ip_ok_def)
  have t: "socket_text (V6 [0xfe80, 0, 0, 0, 0, 0, 0, 1]) 9987 = str ''[fe80::1]:9987''"
    by (simp add: socket_text_def str_def ascii_def groups_text_def hex_text.simps hex_digit_def decimal.simps)
  show ?thesis using ok t typed_address_is_the_address [OF ok, of _ 9987, THEN conjunct1, unfolded t] by blast
qed

section \<open>Failures of resolving\<close>

definition attempt_error :: "library_error \<Rightarrow> bool" where
  "attempt_error e = (case e of ResolveAddress _ \<Rightarrow> False | ConnectFailed _ _ \<Rightarrow> False | _ \<Rightarrow> True)"

lemma initserver_in_error: "initserver_in ly s p = Inr (Some (Inl e)) \<Longrightarrow> attempt_error e"
  by (auto simp: initserver_in_def refused_by_def attempt_error_def data_connection_new_def Let_def
      split: sum.splits book_message.splits library_message.splits prod.splits option.splits if_splits)

lemma finish_attempt_error: "finish_attempt ly env s = Ready (Inl e) \<Longrightarrow> attempt_error e"
proof -
  assume f: "finish_attempt ly env s = Ready (Inl e)"
  obtain out s1 where w: "wait_initserver ly env s = (out, s1)" by (metis surj_pair)
  show ?thesis
  proof (cases "out = Returned (Inl e)")
    case True
    then obtain s0 it where "only_commands (initserver_in ly) s0 it = Inr (Some (Inl e))"
      using w filter_items_last unfolding wait_initserver_def filter_commands_def by metis
    then show ?thesis using initserver_in_error by (auto simp: only_commands_def split: stream_item.splits)
  qed (use f w in \<open>auto simp: finish_attempt_def client_error_or_def attempt_error_def split: outcome.splits sum.splits if_splits\<close>)
qed

lemma connect_to_error:
  assumes "connect_to ly opt addr att = Ready (Inl e)"
  shows "attempt_error e"
proof -
  obtain i where i: "opt_identity opt = Some i"
    using assms by (auto simp: connect_to_def split: option.splits)
  show ?thesis
  proof (cases "at_bind att")
    case None
    define env' where "env' = attempt_env ly (fst addr) (id_key i) att"
    obtain out s1 where c: "connect_key env' (at_random att) (attempt_start att) = (out, s1)" by (metis surj_pair)
    note run = assms [unfolded connect_to_def, simplified i None option.case Let_def, folded env'_def, unfolded c prod.case]
    show ?thesis
    proof (cases "\<exists>omega. out = Returned omega \<and> wrong_server (env_keys env') opt omega s1 = None")
      case True
      then obtain omega where o: "out = Returned omega" "wrong_server (env_keys env') opt omega s1 = None" by blast
      obtain out2 s2 where s2: "client_send_packet env' (ly_write ly (LoClientInit (client_init_of (env_keys env') (id_counter i) opt))) s1 = (out2, s2)"
        by (metis surj_pair)
      show ?thesis
        using run o s2 finish_attempt_error [of ly env' s2 e]
        by (cases out2) (auto simp: client_error_or_def attempt_error_def split: if_splits)
    qed (use run in \<open>auto simp: client_error_or_def attempt_error_def wrong_server_def split: outcome.splits option.splits if_splits\<close>)
  qed (use assms i in \<open>auto simp: connect_to_def attempt_error_def\<close>)
qed

lemma try_addresses_error:
  "list_all (\<lambda>r. \<not> isl r) rs \<Longrightarrow> try_addresses ly opt errors rs ats \<noteq> Ready (Inl (ResolveAddress e))"
proof (induction ly opt errors rs ats rule: try_addresses.induct)
  case (4 ly opt errors addr rs att ats)
  show ?case
  proof (cases "connect_to ly opt addr att")
    case (Ready r)
    then show ?thesis
      using 4 connect_to_error [of ly opt addr att] by (cases r) (auto simp: attempt_error_def split: client_error.splits)
  qed simp_all
qed simp_all

text \<open>C15. Connecting fails with an error of the resolver exactly when the address is text that is malformed as it
  stands; a name that nothing resolves fails without one.
\<close>

theorem only_malformed_addresses_fail_to_resolve:
  "(\<exists>e. library_connect ly opt w = Ready (Inl (ResolveAddress e)))
    \<longleftrightarrow> (\<exists>t e. opt_address opt = AddrOther t \<and> parse_address (rw_lookup (cw_resolver w)) t = Inl e)"
proof (cases "opt_address opt")
  case (AddrOther t)
  show ?thesis
  proof (cases "parse_address (rw_lookup (cw_resolver w)) t")
    case (Inr r)
    then have "list_all (\<lambda>r. \<not> isl r) (resolve (cw_resolver w) t)"
      by (cases r) (auto simp: resolve_def list_all_iff)
    note no_error = try_addresses_error [OF this]
    show ?thesis using Inr by (simp add: no_error library_connect_def addresses_of_def AddrOther)
  qed (simp add: library_connect_def addresses_of_def AddrOther resolve_def)
qed (simp add: library_connect_def addresses_of_def try_addresses_error)

text \<open>The engine reports such a name as a failure of the network.\<close>

lemma unresolved_name_is_network_error:
  "opt_address opt = AddrOther t \<Longrightarrow> resolve (cw_resolver w) t = []
    \<Longrightarrow> library_connect ly opt w = Ready (Inl (ConnectFailed t []))
      \<and> classify_connect_error (ConnectFailed t [] :: library_error) = (str ''network'', True)"
  by (simp add: library_connect_def addresses_of_def address_text_def)

end
