(* ===== verification/Sync.thy ===== *)
theory Sync
  imports LibraryPoll "HOL-Library.Multiset"
begin

text \<open>
  \<open>SyncConnection\<close> and its handle, \<open>tsclientlib/src/sync.rs\<close>: calls from other threads arrive as messages with the
  sending half of a channel for their answer; the connection keeps those that wait for an event of the connection of
  theory \<open>LibraryPoll\<close>. The half of a channel is a number; what is sent on it is recorded. A half that is dropped
  shows at the other end as well.
\<close>

section \<open>Messages and answers\<close>

text \<open>
  The function of \<open>RunFn\<close> can reach the connection only, since the fields of \<open>SyncConnection\<close> are private; \<open>None\<close>
  is a panic. Its result is not modelled.
\<close>

datatype 'c sync_message =
    RunFn "'c \<Rightarrow> 'c option" nat
  | SendCommand out_packet nat
  | WaitConnected nat
  | Disconnect "reason option" "rstr option" nat
  | DownloadFile u64 rstr "rstr option" "u64 option" nat
  | UploadFile u64 rstr "rstr option" u64 bool bool nat

fun waiter_of :: "'c sync_message \<Rightarrow> nat" where
  "waiter_of (RunFn _ w) = w"
| "waiter_of (SendCommand _ w) = w"
| "waiter_of (WaitConnected w) = w"
| "waiter_of (Disconnect _ _ w) = w"
| "waiter_of (DownloadFile _ _ _ _ w) = w"
| "waiter_of (UploadFile _ _ _ _ _ _ w) = w"

datatype sync_answer =
    Ran
  | Done "library_error + unit"
  | Transferred "library_error + u64 \<times> nat"
  | Dropped

datatype ('x, 'r) sync_item =
    SiBookEvents "'x event list"
  | SiMessageEvent "'r lib_message"
  | SiAudio in_packet audio_data
  | SiIdentityLevelIncreasing u8
  | SiIdentityLevelIncreased
  | SiDisconnectedTemporarily temporary_reason
  | SiNetworkStatsUpdated
  | SiCanSendAudio bool
  | SiCanReceiveAudio bool

record ('q, 'w, 'p, 's, 'x, 'r) sync_connection =
  sy_con :: "('q, 'w, 'p, 's, 'x, 'r) library_connection"
  sy_commands :: "(u16, nat) table"
  sy_connects :: "nat list"
  sy_disconnects :: "nat list"
  sy_downloads :: "(u16, nat) table"
  sy_uploads :: "(u16, nat) table"
  sy_answers :: "(nat \<times> sync_answer) list"

definition sync_new ::
    "('q, 'w, 'p, 's, 'x, 'r) library_connection \<Rightarrow> ('q, 'w, 'p, 's, 'x, 'r) sync_connection" where
  "sync_new c = \<lparr>sy_con = c, sy_commands = [], sy_connects = [], sy_disconnects = [], sy_downloads = [],
     sy_uploads = [], sy_answers = []\<rparr>"

definition answer_with ::
    "sync_answer \<Rightarrow> nat \<Rightarrow> ('q, 'w, 'p, 's, 'x, 'r) sync_connection \<Rightarrow> ('q, 'w, 'p, 's, 'x, 'r) sync_connection" where
  "answer_with a w s = s\<lparr>sy_answers := sy_answers s @ [(w, a)]\<rparr>"

text \<open>\<open>HashMap::insert\<close> drops the half that waited under the handle before.\<close>

definition displaced :: "u16 \<Rightarrow> (u16, nat) table \<Rightarrow> (nat \<times> sync_answer) list" where
  "displaced h t = (case tget t h of None \<Rightarrow> [] | Some w \<Rightarrow> [(w, Dropped)])"

definition keep_command ::
    "nat \<Rightarrow> u16 \<Rightarrow> ('q, 'w, 'p, 's, 'x, 'r) sync_connection \<Rightarrow> ('q, 'w, 'p, 's, 'x, 'r) sync_connection" where
  "keep_command w h s = s\<lparr>sy_commands := tput h w (sy_commands s), sy_answers := sy_answers s @ displaced h (sy_commands s)\<rparr>"

definition keep_download ::
    "nat \<Rightarrow> u16 \<Rightarrow> ('q, 'w, 'p, 's, 'x, 'r) sync_connection \<Rightarrow> ('q, 'w, 'p, 's, 'x, 'r) sync_connection" where
  "keep_download w h s = s\<lparr>sy_downloads := tput h w (sy_downloads s), sy_answers := sy_answers s @ displaced h (sy_downloads s)\<rparr>"

definition keep_upload ::
    "nat \<Rightarrow> u16 \<Rightarrow> ('q, 'w, 'p, 's, 'x, 'r) sync_connection \<Rightarrow> ('q, 'w, 'p, 's, 'x, 'r) sync_connection" where
  "keep_upload w h s = s\<lparr>sy_uploads := tput h w (sy_uploads s), sy_answers := sy_answers s @ displaced h (sy_uploads s)\<rparr>"

section \<open>Taking messages\<close>

text \<open>An operation of the connection fails at once or the half waits.\<close>

definition started ::
    "(library_error + 'h) polled \<times> ('q, 'w, 'p, 's, 'x, 'r) library_connection \<Rightarrow> (library_error \<Rightarrow> sync_answer) \<Rightarrow> nat
      \<Rightarrow> ('h \<Rightarrow> ('q, 'w, 'p, 's, 'x, 'r) sync_connection \<Rightarrow> ('q, 'w, 'p, 's, 'x, 'r) sync_connection)
      \<Rightarrow> ('q, 'w, 'p, 's, 'x, 'r) sync_connection \<Rightarrow> ('q, 'w, 'p, 's, 'x, 'r) sync_connection polled" where
  "started r failed w keep s = (case r of
      (Ready (Inr h), c) \<Rightarrow> Ready (keep h (s\<lparr>sy_con := c\<rparr>))
    | (Ready (Inl e), c) \<Rightarrow> Ready (answer_with (failed e) w (s\<lparr>sy_con := c\<rparr>))
    | (Pending, _) \<Rightarrow> Pending
    | (Panicked, _) \<Rightarrow> Panicked
    | (NoFuel, _) \<Rightarrow> NoFuel)"

fun take_message ::
    "('q, 'w, 'p, 's, 'x, 'r) library \<Rightarrow> ('q, 'w, 'p, 's, 'x, 'r) library_connection sync_message
      \<Rightarrow> ('q, 'w, 'p, 's, 'x, 'r) sync_connection \<Rightarrow> ('q, 'w, 'p, 's, 'x, 'r) sync_connection polled" where
  "take_message ly (RunFn f w) s = (case f (sy_con s) of
      None \<Rightarrow> Panicked
    | Some c \<Rightarrow> Ready (answer_with Ran w (s\<lparr>sy_con := c\<rparr>)))"
| "take_message ly (SendCommand p w) s =
     started (library_send_command_with_result p (sy_con s)) (Done \<circ> Inl) w (keep_command w) s"
| "take_message ly (WaitConnected w) s = Ready (case library_get_state (sy_con s) of
      Inr _ \<Rightarrow> answer_with (Done (Inr ())) w s
    | Inl _ \<Rightarrow> s\<lparr>sy_connects := sy_connects s @ [w]\<rparr>)"
| "take_message ly (Disconnect reason message w) s =
     started (library_disconnect ly reason message (sy_con s)) (Done \<circ> Inl) w
       (\<lambda>_ s. s\<lparr>sy_disconnects := sy_disconnects s @ [w]\<rparr>) s"
| "take_message ly (DownloadFile channel path password seek w) s =
     started (library_download_file ly channel path password seek (sy_con s)) (Transferred \<circ> Inl) w (keep_download w) s"
| "take_message ly (UploadFile channel path password bytes overwrite resume w) s =
     started (library_upload_file ly channel path password bytes overwrite resume (sy_con s)) (Transferred \<circ> Inl) w
       (keep_upload w) s"

fun take_messages ::
    "('q, 'w, 'p, 's, 'x, 'r) library \<Rightarrow> ('q, 'w, 'p, 's, 'x, 'r) library_connection sync_message list
      \<Rightarrow> ('q, 'w, 'p, 's, 'x, 'r) sync_connection \<Rightarrow> ('q, 'w, 'p, 's, 'x, 'r) sync_connection polled" where
  "take_messages ly [] s = Ready s"
| "take_messages ly (m # ms) s = (case take_message ly m s of
      Ready s \<Rightarrow> take_messages ly ms s
    | stopped \<Rightarrow> stopped)"

section \<open>Routing items\<close>

definition answer_all ::
    "nat list \<Rightarrow> ('q, 'w, 'p, 's, 'x, 'r) sync_connection \<Rightarrow> ('q, 'w, 'p, 's, 'x, 'r) sync_connection" where
  "answer_all ws s = s\<lparr>sy_answers := sy_answers s @ map (\<lambda>w. (w, Done (Inr ()))) ws\<rparr>"

definition answer_command ::
    "u16 \<Rightarrow> sync_answer \<Rightarrow> ('q, 'w, 'p, 's, 'x, 'r) sync_connection \<Rightarrow> ('q, 'w, 'p, 's, 'x, 'r) sync_connection" where
  "answer_command h a s = (case tget (sy_commands s) h of
      None \<Rightarrow> s
    | Some w \<Rightarrow> answer_with a w (s\<lparr>sy_commands := tdel h (sy_commands s)\<rparr>))"

definition answer_download ::
    "u16 \<Rightarrow> sync_answer \<Rightarrow> ('q, 'w, 'p, 's, 'x, 'r) sync_connection \<Rightarrow> ('q, 'w, 'p, 's, 'x, 'r) sync_connection" where
  "answer_download h a s = (case tget (sy_downloads s) h of
      None \<Rightarrow> s
    | Some w \<Rightarrow> answer_with a w (s\<lparr>sy_downloads := tdel h (sy_downloads s)\<rparr>))"

definition answer_upload ::
    "u16 \<Rightarrow> sync_answer \<Rightarrow> ('q, 'w, 'p, 's, 'x, 'r) sync_connection \<Rightarrow> ('q, 'w, 'p, 's, 'x, 'r) sync_connection" where
  "answer_upload h a s = (case tget (sy_uploads s) h of
      None \<Rightarrow> s
    | Some w \<Rightarrow> answer_with a w (s\<lparr>sy_uploads := tdel h (sy_uploads s)\<rparr>))"

definition command_answer :: "command_error option \<Rightarrow> library_error + unit" where
  "command_answer r = (case r of None \<Rightarrow> Inr () | Some (e, permission) \<Rightarrow> Inl (CommandError e permission))"

text \<open>\<open>None\<close>: the loop goes on.\<close>

fun route_item ::
    "('x, 'r) library_item \<Rightarrow> ('q, 'w, 'p, 's, 'x, 'r) sync_connection
      \<Rightarrow> ('x, 'r) sync_item option \<times> ('q, 'w, 'p, 's, 'x, 'r) sync_connection" where
  "route_item (LiBookEvents es) s = (Some (SiBookEvents es), answer_all (sy_connects s) (s\<lparr>sy_connects := []\<rparr>))"
| "route_item (LiMessageEvent m) s = (Some (SiMessageEvent m), s)"
| "route_item (LiAudio p a) s = (Some (SiAudio p a), s)"
| "route_item (LiIdentityLevelIncreasing l) s = (Some (SiIdentityLevelIncreasing l), s)"
| "route_item LiIdentityLevelIncreased s = (Some SiIdentityLevelIncreased, s)"
| "route_item (LiDisconnectedTemporarily r) s = (Some (SiDisconnectedTemporarily r), s)"
| "route_item (LiMessageResult h r) s = (None, answer_command h (Done (command_answer r)) s)"
| "route_item (LiFileDownload h n stream) s = (None, answer_download h (Transferred (Inr (n, stream))) s)"
| "route_item (LiFileUpload h n stream) s = (None, answer_upload h (Transferred (Inr (n, stream))) s)"
| "route_item (LiFiletransferFailed h e) s =
     (None, if tget (sy_downloads s) h \<noteq> None then answer_download h (Transferred (Inl e)) s
            else answer_upload h (Transferred (Inl e)) s)"
| "route_item LiNetworkStatsUpdated s = (Some SiNetworkStatsUpdated, s)"
| "route_item (LiCanSendAudio b) s = (Some (SiCanSendAudio b), s)"
| "route_item (LiCanReceiveAudio b) s = (Some (SiCanReceiveAudio b), s)"

text \<open>One poll of the connection for every item that is not passed on; there is an input for each.\<close>

fun next_item ::
    "('q, 'w, 'p, 's, 'x, 'r) library \<Rightarrow> ('w, 's) poll_input list \<Rightarrow> ('q, 'w, 'p, 's, 'x, 'r) sync_connection
      \<Rightarrow> (library_error + ('x, 'r) sync_item) option polled \<times> ('q, 'w, 'p, 's, 'x, 'r) sync_connection" where
  "next_item ly [] s = (Pending, s)"
| "next_item ly (i # is) s = (case library_poll_next ly i (sy_con s) of (out, c) \<Rightarrow> let s = s\<lparr>sy_con := c\<rparr> in
     case out of
       Ready (Some (Inr it)) \<Rightarrow> (case route_item it s of
           (Some it, s) \<Rightarrow> (Ready (Some (Inr it)), s)
         | (None, s) \<Rightarrow> next_item ly is s)
     | Ready (Some (Inl e)) \<Rightarrow> (Ready (Some (Inl e)), s)
     | Ready None \<Rightarrow> (Ready None, answer_all (sy_disconnects s) (s\<lparr>sy_disconnects := []\<rparr>))
     | Pending \<Rightarrow> (Pending, s)
     | Panicked \<Rightarrow> (Panicked, s)
     | NoFuel \<Rightarrow> (NoFuel, s))"

definition sync_poll ::
    "('q, 'w, 'p, 's, 'x, 'r) library \<Rightarrow> ('q, 'w, 'p, 's, 'x, 'r) library_connection sync_message list
      \<Rightarrow> ('w, 's) poll_input list \<Rightarrow> ('q, 'w, 'p, 's, 'x, 'r) sync_connection
      \<Rightarrow> (library_error + ('x, 'r) sync_item) option polled \<times> ('q, 'w, 'p, 's, 'x, 'r) sync_connection" where
  "sync_poll ly ms is s = (case take_messages ly ms s of
      Ready s \<Rightarrow> next_item ly is s
    | Pending \<Rightarrow> (Pending, s)
    | Panicked \<Rightarrow> (Panicked, s)
    | NoFuel \<Rightarrow> (NoFuel, s))"

section \<open>The handle\<close>

text \<open>What a method of the handle sends, and what it makes of the answer.\<close>

definition with_connection :: "('c \<Rightarrow> 'c option) \<Rightarrow> nat \<Rightarrow> 'c sync_message" where
  "with_connection f w = RunFn f w"

definition handle_send_command :: "out_packet \<Rightarrow> nat \<Rightarrow> 'c sync_message" where
  "handle_send_command arg w = SendCommand arg w"

definition wait_until_connected :: "nat \<Rightarrow> 'c sync_message" where
  "wait_until_connected w = WaitConnected w"

definition handle_disconnect :: "reason option \<Rightarrow> rstr option \<Rightarrow> nat \<Rightarrow> 'c sync_message" where
  "handle_disconnect reason message w = Disconnect reason message w"

definition handle_download_file :: "u64 \<Rightarrow> rstr \<Rightarrow> rstr option \<Rightarrow> u64 option \<Rightarrow> nat \<Rightarrow> 'c sync_message" where
  "handle_download_file channel path password seek w = DownloadFile channel path password seek w"

definition handle_upload_file :: "u64 \<Rightarrow> rstr \<Rightarrow> rstr option \<Rightarrow> u64 \<Rightarrow> bool \<Rightarrow> bool \<Rightarrow> nat \<Rightarrow> 'c sync_message" where
  "handle_upload_file channel path password bytes overwrite resume w =
     UploadFile channel path password bytes overwrite resume w"

definition unit_result :: "sync_answer \<Rightarrow> library_error + unit" where
  "unit_result a = (case a of Done r \<Rightarrow> r | Ran \<Rightarrow> Inr () | _ \<Rightarrow> Inl ConnectionGone)"

definition transfer_result :: "sync_answer \<Rightarrow> library_error + u64 \<times> nat" where
  "transfer_result a = (case a of Transferred r \<Rightarrow> r | _ \<Rightarrow> Inl ConnectionGone)"

text \<open>
  Disconnecting a connection that is not connected succeeds without doing anything, so the call waits for the end of
  a stream that goes on.
\<close>

lemma early_disconnect_waits:
  "(\<forall>con b. lc_state (sy_con s) \<noteq> LcConnected con b)
    \<Longrightarrow> take_message ly (Disconnect reason message w) s = Ready (s\<lparr>sy_disconnects := sy_disconnects s @ [w]\<rparr>)"
  by (auto simp: library_disconnect_def started_def split: connection_state.splits)

text \<open>A connection that is established again counts its handles from 0, while the old ones are kept.\<close>

lemma handles_start_again:
  "now_connected utc est c = (r, c') \<Longrightarrow> \<exists>con b. lc_state c' = LcConnected con b \<and> cn_return_code con = 0 \<and> cn_filetransfer_id con = 0"
  by (auto simp: now_connected_def Let_def split: prod.splits)

section \<open>Every call is accounted for\<close>

definition waiting :: "('q, 'w, 'p, 's, 'x, 'r) sync_connection \<Rightarrow> nat multiset" where
  "waiting s = mset (map snd (sy_commands s)) + mset (sy_connects s) + mset (sy_disconnects s)
     + mset (map snd (sy_downloads s)) + mset (map snd (sy_uploads s))"

definition accounted :: "('q, 'w, 'p, 's, 'x, 'r) sync_connection \<Rightarrow> nat multiset" where
  "accounted s = waiting s + mset (map fst (sy_answers s))"

text \<open>No handle is kept twice.\<close>

definition handles_ok :: "('q, 'w, 'p, 's, 'x, 'r) sync_connection \<Rightarrow> bool" where
  "handles_ok s \<longleftrightarrow> distinct (tkeys (sy_commands s)) \<and> distinct (tkeys (sy_downloads s)) \<and> distinct (tkeys (sy_uploads s))"

lemma mset_tput: "mset (map snd (tput h w t)) + mset (map fst (displaced h t)) = add_mset w (mset (map snd t))"
  by (induction t) (auto simp: displaced_def split: option.splits)

lemma mset_tdel:
  "distinct (tkeys t) \<Longrightarrow> tget t h = Some w \<Longrightarrow> mset (map snd t) = add_mset w (mset (map snd (tdel h t)))"
proof (induction t)
  case (Cons p t)
  have "tdel h t = t" if "h \<notin> set (tkeys t)"
    using that by (induction t) auto
  then show ?case using Cons by (cases "fst p = h") auto
qed simp

lemma answer_with_accounted [simp]:
  "accounted (answer_with a w s) = add_mset w (accounted s)" "handles_ok (answer_with a w s) = handles_ok s"
  by (simp_all add: accounted_def waiting_def answer_with_def handles_ok_def)

lemma keep_accounted [simp]:
  "accounted (keep_command w h s) = add_mset w (accounted s)"
  "accounted (keep_download w h s) = add_mset w (accounted s)"
  "accounted (keep_upload w h s) = add_mset w (accounted s)"
  using mset_tput [of h w "sy_commands s"] mset_tput [of h w "sy_downloads s"] mset_tput [of h w "sy_uploads s"]
  by (simp_all add: accounted_def waiting_def keep_command_def keep_download_def keep_upload_def ac_simps)

lemma keep_handles [simp]:
  "handles_ok s \<Longrightarrow> handles_ok (keep_command w h s)"
  "handles_ok s \<Longrightarrow> handles_ok (keep_download w h s)"
  "handles_ok s \<Longrightarrow> handles_ok (keep_upload w h s)"
  by (simp_all add: handles_ok_def keep_command_def keep_download_def keep_upload_def)

lemma con_changes_nothing [simp]: "accounted (s\<lparr>sy_con := c\<rparr>) = accounted s" "handles_ok (s\<lparr>sy_con := c\<rparr>) = handles_ok s"
  by (simp_all add: accounted_def waiting_def handles_ok_def)

lemma started_accounted:
  assumes "started r failed w keep s = Ready s'" "handles_ok s"
    and "\<And>h s. accounted (keep h s) = add_mset w (accounted s)" "\<And>h s. handles_ok s \<Longrightarrow> handles_ok (keep h s)"
  shows "accounted s' = add_mset w (accounted s) \<and> handles_ok s'"
  using assms by (auto simp: started_def split: prod.splits polled.splits sum.splits)

lemma take_message_accounted:
  "take_message ly m s = Ready s' \<Longrightarrow> handles_ok s \<Longrightarrow> accounted s' = add_mset (waiter_of m) (accounted s) \<and> handles_ok s'"
proof (induction ly m s rule: take_message.induct)
  case (1 ly f w s)
  then show ?case by (auto split: option.splits)
next
  case (3 ly w s)
  then show ?case by (auto simp: accounted_def waiting_def handles_ok_def answer_with_def split: sum.splits)
next
  case (4 ly reason message w s)
  then show ?case by (auto dest!: started_accounted simp: accounted_def waiting_def handles_ok_def)
qed (auto dest: started_accounted)

lemma take_messages_accounted:
  "take_messages ly ms s = Ready s' \<Longrightarrow> handles_ok s \<Longrightarrow> accounted s' = mset (map waiter_of ms) + accounted s \<and> handles_ok s'"
  by (induction ly ms s rule: take_messages.induct) (auto split: polled.splits dest!: take_message_accounted)

lemma answer_accounted:
  assumes "handles_ok s"
  shows "accounted (answer_command h a s) = accounted s \<and> handles_ok (answer_command h a s)"
    "accounted (answer_download h a s) = accounted s \<and> handles_ok (answer_download h a s)"
    "accounted (answer_upload h a s) = accounted s \<and> handles_ok (answer_upload h a s)"
  using assms mset_tdel [of "sy_commands s" h] mset_tdel [of "sy_downloads s" h] mset_tdel [of "sy_uploads s" h]
  by (auto simp: answer_command_def answer_download_def answer_upload_def answer_with_def accounted_def waiting_def
      handles_ok_def split: option.splits)

lemma answer_all_accounted:
  "accounted (answer_all ws s) = mset ws + accounted s" "handles_ok (answer_all ws s) = handles_ok s"
  by (simp_all add: answer_all_def accounted_def waiting_def handles_ok_def comp_def)

lemma emptied_accounted:
  "mset (sy_connects s) + accounted (s\<lparr>sy_connects := []\<rparr>) = accounted s"
  "mset (sy_disconnects s) + accounted (s\<lparr>sy_disconnects := []\<rparr>) = accounted s"
  "handles_ok (s\<lparr>sy_connects := []\<rparr>) = handles_ok s" "handles_ok (s\<lparr>sy_disconnects := []\<rparr>) = handles_ok s"
  by (simp_all add: accounted_def waiting_def handles_ok_def)

lemma route_item_accounted:
  "route_item it s = (r, s') \<Longrightarrow> handles_ok s \<Longrightarrow> accounted s' = accounted s \<and> handles_ok s'"
  by (cases it) (auto simp: answer_accounted answer_all_accounted emptied_accounted split: if_splits)

lemma next_item_accounted:
  "next_item ly is s = (r, s') \<Longrightarrow> handles_ok s \<Longrightarrow> accounted s' = accounted s \<and> handles_ok s'"
proof (induction "is" arbitrary: s)
  case (Cons i "is")
  obtain out c where p: "library_poll_next ly i (sy_con s) = (out, c)" by fastforce
  obtain s1 where s1: "s1 = s\<lparr>sy_con := c\<rparr>" by simp
  have ok: "handles_ok s1" "accounted s1 = accounted s" using Cons.prems(2) s1 by simp_all
  note run = Cons.prems(1) [unfolded next_item.simps p prod.case Let_def, folded s1]
  show ?case
  proof (cases "\<exists>it. out = Ready (Some (Inr it))")
    case True
    then obtain it r2 s2 where it: "out = Ready (Some (Inr it))" "route_item it s1 = (r2, s2)" by fastforce
    then show ?thesis using run Cons.IH [of s2] route_item_accounted [OF it(2) ok(1)] ok(2) by (cases r2) auto
  qed (use run ok in \<open>auto simp: answer_all_accounted emptied_accounted split: polled.splits option.splits sum.splits\<close>)
qed simp

text \<open>Taking messages never has to wait.\<close>

lemma sent_settles [simp]: "sent e x \<noteq> Pending"
  by (auto simp: sent_def split: option.splits handshake_error.splits)

lemma send_settles [simp]: "fst (con_send_command_with_result p con) \<noteq> Pending"
  by (simp add: con_send_command_with_result_def Let_def split: prod.splits)

lemma transfer_settles [simp]: "fst (con_start_transfer ly msg con) \<noteq> Pending"
  by (auto simp: con_start_transfer_def Let_def handle_of_def split: option.splits prod.splits polled.splits sum.splits)
    (metis fst_conv send_settles)+

lemma when_connected_settles: "(\<And>con. fst (f con) \<noteq> Pending) \<Longrightarrow> fst (when_connected f c) \<noteq> Pending"
  by (auto simp: when_connected_def split: connection_state.splits prod.splits) (metis fst_conv)

lemma started_settles: "fst r \<noteq> Pending \<Longrightarrow> started r failed w keep s \<noteq> Pending"
  by (auto simp: started_def split: prod.splits polled.splits sum.splits)

lemma take_message_settles: "take_message ly m s \<noteq> Pending"
proof (cases m)
  case (Disconnect reason message w)
  have "fst (library_disconnect ly reason message (sy_con s)) \<noteq> Pending"
    by (simp add: library_disconnect_def split: connection_state.splits prod.splits)
  then show ?thesis by (simp add: Disconnect started_settles)
qed (auto intro!: started_settles when_connected_settles split: option.splits
    simp: library_send_command_with_result_def library_download_file_def library_upload_file_def
      con_download_file_def con_upload_file_def)

lemma take_messages_settles: "take_messages ly ms s \<noteq> Pending"
  by (induction ly ms s rule: take_messages.induct) (auto simp: take_message_settles split: polled.splits)

lemma sync_poll_accounted:
  assumes "sync_poll ly ms is s = (out, s')" "out \<noteq> Panicked" "out \<noteq> NoFuel" "handles_ok s"
  shows "accounted s' = mset (map waiter_of ms) + accounted s \<and> handles_ok s'"
proof -
  obtain s1 where s1: "take_messages ly ms s = Ready s1"
    using assms(1-3) take_messages_settles [of ly ms s] by (auto simp: sync_poll_def split: polled.splits)
  then have "next_item ly is s1 = (out, s')" using assms(1) by (simp add: sync_poll_def)
  then show ?thesis using next_item_accounted take_messages_accounted [OF s1 assms(4)] by fastforce
qed

text \<open>A connection that is polled again and again, until a panic.\<close>

fun sync_run ::
    "('q, 'w, 'p, 's, 'x, 'r) library
      \<Rightarrow> (('q, 'w, 'p, 's, 'x, 'r) library_connection sync_message list \<times> ('w, 's) poll_input list) list
      \<Rightarrow> ('q, 'w, 'p, 's, 'x, 'r) sync_connection \<Rightarrow> ('q, 'w, 'p, 's, 'x, 'r) sync_connection option" where
  "sync_run ly [] s = Some s"
| "sync_run ly ((ms, is) # turns) s = (case sync_poll ly ms is s of
      (Panicked, _) \<Rightarrow> None
    | (NoFuel, _) \<Rightarrow> None
    | (_, s) \<Rightarrow> sync_run ly turns s)"

lemma sync_run_accounted:
  "sync_run ly turns s = Some s' \<Longrightarrow> handles_ok s
    \<Longrightarrow> accounted s' = mset (map waiter_of (concat (map fst turns))) + accounted s \<and> handles_ok s'"
proof (induction ly turns s rule: sync_run.induct)
  case (2 ly ms "is" turns s)
  obtain out s1 where p: "sync_poll ly ms is s = (out, s1)" by fastforce
  have o: "out \<noteq> Panicked" "out \<noteq> NoFuel" using "2.prems"(1) p by auto
  then have "sync_run ly turns s1 = Some s'" using "2.prems"(1) p by (auto split: polled.splits)
  then show ?case using "2.IH" p o sync_poll_accounted [OF p o "2.prems"(2)] by (cases out) auto
qed simp


end
