(* ===== verification/Redact.thy ===== *)
theory Redact
  imports Prelude
begin

text \<open>
  \<open>redact\<close> of \<open>native/src/lib.rs\<close>: what the log macros apply to every message. The function cuts
  the message into words, peels punctuation off each word and replaces addresses, identity blobs and
  the values of secret keys. A slice past a character boundary is Rust's panic, the value \<open>None\<close>.
\<close>

section \<open>The function\<close>

definition placeholder :: rstr where
  "placeholder = str ''<redacted>''"

definition secret_keys :: "rstr list" where
  "secret_keys = map str [''password'', ''passwd'', ''pwd'', ''token'', ''secret'', ''identity'',
     ''client_identity'', ''uid'', ''nickname'']"

definition looks_sensitive :: "rstr \<Rightarrow> bool" where
  "looks_sensitive value \<longleftrightarrow>
     (let host = 46 \<in> set value \<and> 3 < byte_len value
        \<and> (\<forall>c\<in>set value. is_ascii_alphanumeric c \<or> c \<in> set (str ''.:-_''))
        \<and> (\<exists>c\<in>set value. is_ascii_alphabetic c \<or> c = 58);
      blob = 24 \<le> byte_len value
        \<and> (\<forall>c\<in>set value. is_ascii_alphanumeric c \<or> c = 43 \<or> c = 47 \<or> c = 61)
      in host \<or> blob)"

text \<open>\<open>str::split_inclusive\<close>: words, each with the whitespace character that ends it.\<close>

fun split_inclusive :: "(rchar \<Rightarrow> bool) \<Rightarrow> rstr \<Rightarrow> rstr list" where
  "split_inclusive p [] = []"
| "split_inclusive p (c # cs) =
     (if p c then [c] # split_inclusive p cs
      else (case split_inclusive p cs of [] \<Rightarrow> [[c]] | t # ts \<Rightarrow> (c # t) # ts))"

definition core_punct :: "rchar \<Rightarrow> bool" where
  "core_punct c \<longleftrightarrow> c \<in> {34, 39, 44, 59, 40, 41, 91, 93, 123, 125}"
  \<comment> \<open>the characters of \<open>"',;()[]{}\<close>\<close>

definition lead_punct :: "rchar \<Rightarrow> bool" where
  "lead_punct c \<longleftrightarrow> c \<in> {34, 39, 40, 91, 123}"
  \<comment> \<open>the characters of \<open>"'([{\<close>\<close>

definition is_separator :: "rchar \<Rightarrow> bool" where
  "is_separator c \<longleftrightarrow> c = 61 \<or> c = 58"

definition key_char :: "rchar \<Rightarrow> bool" where
  "key_char c \<longleftrightarrow> is_ascii_alphanumeric c \<or> c = 95"

text \<open>The replacement of a word without its punctuation, if it gets one.\<close>

definition replacement :: "rstr \<Rightarrow> rstr option" where
  "replacement core =
     (let key = takeWhile (\<lambda>c. \<not> is_separator c) core; rest = dropWhile (\<lambda>c. \<not> is_separator c) core in
      if rest \<noteq> [] \<and> key \<noteq> [] \<and> (\<forall>c\<in>set key. key_char c)
      then if to_ascii_lowercase key \<in> set secret_keys \<or> looks_sensitive (tl rest)
        then Some (key @ str ''='' @ placeholder) else None
      else if looks_sensitive core then Some placeholder else None)"

definition redact_token :: "rstr \<Rightarrow> rstr option" where
  "redact_token token =
     (let trimmed = trim_end_matches is_whitespace token;
          whitespace = drop (length trimmed) token;
          core = trim_matches core_punct trimmed;
          lead = takeWhile lead_punct trimmed;
          tail = trim_start_matches lead_punct trimmed
      in case slice_from (byte_len core) tail of
        None \<Rightarrow> None
      | Some trail \<Rightarrow> Some (lead @ (case replacement core of Some v \<Rightarrow> v | None \<Rightarrow> core) @ trail @ whitespace))"

fun concat_options :: "'a list option list \<Rightarrow> 'a list option" where
  "concat_options [] = Some []"
| "concat_options (None # _) = None"
| "concat_options (Some xs # rs) = map_option ((@) xs) (concat_options rs)"

definition redact :: "rstr \<Rightarrow> rstr option" where
  "redact message = concat_options (map redact_token (split_inclusive is_whitespace message))"

section \<open>Words and punctuation\<close>

lemma concat_split_inclusive: "concat (split_inclusive p s) = s"
  by (induction p s rule: split_inclusive.induct) (auto split: list.splits)

text \<open>
  A word is well punctuated when the punctuation it starts with is opening punctuation: then the
  part cut off in front is the part that was measured.
\<close>

definition well_punctuated :: "rstr \<Rightarrow> bool" where
  "well_punctuated token \<longleftrightarrow> (let trimmed = trim_end_matches is_whitespace token in
     takeWhile core_punct trimmed = takeWhile lead_punct trimmed)"

lemma lead_core: "lead_punct c \<Longrightarrow> core_punct c"
  by (auto simp: lead_punct_def core_punct_def)

lemma trim_end_split: "token = trim_end_matches p token @ drop (length (trim_end_matches p token)) token"
  using trim_end_matches_prefix [of token p] by (metis append_eq_conv_conj)

lemma well_punctuated_tail:
  assumes "well_punctuated token"
  defines "trimmed \<equiv> trim_end_matches is_whitespace token"
  shows "\<exists>v. trim_start_matches lead_punct trimmed = trim_matches core_punct trimmed @ v
    \<and> (\<forall>c\<in>set v. core_punct c)"
proof -
  have "trim_start_matches core_punct trimmed = trim_start_matches lead_punct trimmed"
    using assms unfolding well_punctuated_def Let_def trim_start_matches_def
    by (metis append_same_eq takeWhile_dropWhile_id same_append_eq)
  then show ?thesis
    using trim_end_matches_prefix [of "trim_start_matches core_punct trimmed" core_punct]
    by (auto simp: trim_matches_def)
qed

lemma redact_token_well_punctuated:
  assumes "well_punctuated token"
  defines "trimmed \<equiv> trim_end_matches is_whitespace token"
  obtains v where
    "token = takeWhile lead_punct trimmed @ trim_matches core_punct trimmed @ v
       @ drop (length trimmed) token"
    "\<forall>c\<in>set v. core_punct c"
    "redact_token token = Some (takeWhile lead_punct trimmed
       @ (case replacement (trim_matches core_punct trimmed) of Some r \<Rightarrow> r | None \<Rightarrow> trim_matches core_punct trimmed)
       @ v @ drop (length trimmed) token)"
proof -
  obtain v where v: "trim_start_matches lead_punct trimmed = trim_matches core_punct trimmed @ v"
    "\<forall>c\<in>set v. core_punct c"
    using well_punctuated_tail [OF assms(1)] unfolding trimmed_def by blast
  have "trimmed = takeWhile lead_punct trimmed @ trim_start_matches lead_punct trimmed"
    by (simp add: trim_start_matches_def)
  then have "token = takeWhile lead_punct trimmed @ trim_matches core_punct trimmed @ v
       @ drop (length trimmed) token"
    using trim_end_split [of token is_whitespace] v(1) unfolding trimmed_def
    by (metis append.assoc)
  moreover have "redact_token token = Some (takeWhile lead_punct trimmed
       @ (case replacement (trim_matches core_punct trimmed) of Some r \<Rightarrow> r | None \<Rightarrow> trim_matches core_punct trimmed)
       @ v @ drop (length trimmed) token)"
    using v(1) by (simp add: redact_token_def Let_def flip: trimmed_def)
  ultimately show ?thesis using v(2) that by blast
qed

lemma concat_options_Some: "concat_options (map Some xss) = Some (concat xss)"
  by (induction xss) simp_all

section \<open>Properties\<close>

text \<open>A message whose words are well punctuated and need no replacement is logged unchanged.\<close>

theorem redact_keeps_ordinary_messages:
  assumes "\<forall>t\<in>set (split_inclusive is_whitespace message). well_punctuated t
    \<and> replacement (trim_matches core_punct (trim_end_matches is_whitespace t)) = None"
  shows "redact message = Some message"
proof -
  have "redact_token t = Some t" if "t \<in> set (split_inclusive is_whitespace message)" for t
    using redact_token_well_punctuated [of t] assms that by (metis option.simps(4))
  then have "map redact_token (split_inclusive is_whitespace message)
      = map Some (split_inclusive is_whitespace message)" by simp
  then show ?thesis by (simp only: redact_def concat_options_Some concat_split_inclusive)
qed

theorem redact_keeps_ordinary_messages_witness:
  "redact (str ''event_loop: send_audio error: queue full (gen=3)'')
     = Some (str ''event_loop: send_audio error: queue full (gen=3)'')"
  by (rule redact_keeps_ordinary_messages) code_simp



text \<open>The hypothesis of the two properties is needed: after closing punctuation in front of a
  word, the end of the word is logged a second time, so the last characters of a password leak, and a
  message with a character beyond ASCII there makes the logging call panic.\<close>

theorem redact_leaks_after_closing_punctuation:
  "redact (str '',password=hunter2'') = Some (str ''password=<redacted>2'')"
  "redact (str '',,,,password=hunter2'') = Some (str ''password=<redacted>ter2'')"
  "redact (str '','' @ [233]) = None"
  by code_simp+

end
