(* ===== verification/FileRequests.thy ===== *)
theory FileRequests
  imports Requests
begin

text \<open>
  The exported functions of \<open>native/src/api.rs\<close> that start, cancel and correlate file transfers:
  downloads, uploads, directory listings and file metadata. They return an identifier the answer
  event carries, 0 when the request is rejected locally. The size of a local file
  (\<open>std::fs::metadata\<close>) is the argument \<open>file_size\<close>, \<open>None\<close> when the file cannot be examined.
\<close>

section \<open>Operations\<close>

definition TRANSFER_HARD_LIMIT :: u64 where
  "TRANSFER_HARD_LIMIT = 8 * 1024 * 1024"

fun contains_str :: "rstr \<Rightarrow> rstr \<Rightarrow> bool" where
  "contains_str pat [] = (pat = [])"
| "contains_str pat (c # s) = (take (length pat) (c # s) = pat \<or> contains_str pat s)"

definition starts_with :: "rchar \<Rightarrow> rstr \<Rightarrow> bool" where
  "starts_with c s = (case s of [] \<Rightarrow> False | d # _ \<Rightarrow> d = c)"

text \<open>\<open>(counter % (u16::MAX as u32)).max(1) as u16\<close>\<close>

definition transfer_id_of :: "u32 \<Rightarrow> u16" where
  "transfer_id_of counter = ucast (max (counter mod 65535) 1)"

definition ts_download_file ::
  "connection_id \<Rightarrow> u64 \<Rightarrow> c_str \<Rightarrow> c_str \<Rightarrow> c_str \<Rightarrow> u64 \<Rightarrow> engine \<Rightarrow> engine \<times> u32" where
  "ts_download_file cid channel_id remote_path channel_password target_path max_bytes e =
     (case (remote_path, target_path) of
        (Some remote, Some target) \<Rightarrow>
          if \<not> is_connected cid e then (e, 0)
          else if remote = [] \<or> target = [] then (e, 0)
          else if contains_str (str ''..'') target \<or> \<not> starts_with 47 target then (e, 0)
          else if max_bytes = 0 \<or> max_bytes > TRANSFER_HARD_LIMIT then (e, 0)
          else (case tget (SESSIONS e) cid of
              None \<Rightarrow> (e, 0)
            | Some s \<Rightarrow>
                let transfer_id = transfer_id_of (next_transfer_id s);
                    e = upd_session cid (\<lambda>s. s\<lparr>next_transfer_id := next_transfer_id s + 1,
                      pending_transfers := (pending_transfers s)(transfer_id \<mapsto>
                        \<lparr>pt_target_path = target, pt_max_bytes = max_bytes, pt_remote_path = remote\<rparr>)\<rparr>) e
                in (case queue_command cid
                      (DownloadFile transfer_id channel_id (password_arg channel_password) remote) e of
                    (e, True) \<Rightarrow> (e, ucast transfer_id)
                  | (e, False) \<Rightarrow> (upd_session cid (\<lambda>s. s\<lparr>pending_transfers :=
                      (pending_transfers s)(transfer_id := None)\<rparr>) e, 0)))
      | _ \<Rightarrow> (e, 0))"

definition ts_cancel_file_transfer :: "connection_id \<Rightarrow> u32 \<Rightarrow> engine \<Rightarrow> engine \<times> bool" where
  "ts_cancel_file_transfer cid transfer_id e =
     (if transfer_id = 0 \<or> transfer_id > 65535 then (e, False)
      else (case tget (SESSIONS e) cid of
          None \<Rightarrow> (e, False)
        | Some s \<Rightarrow>
            if pending_transfers s (ucast transfer_id) \<noteq> None
            then (upd_session cid (\<lambda>s. s\<lparr>pending_transfers :=
              (pending_transfers s)(ucast transfer_id := None)\<rparr>) e, True)
            else if upload_jobs s (ucast transfer_id) \<noteq> None
            then (upd_session cid (\<lambda>s. s\<lparr>upload_jobs :=
              (upload_jobs s)(ucast transfer_id := None)\<rparr>) e, True)
            else (e, False)))"

definition ts_upload_file ::
  "(rstr \<Rightarrow> u64 option) \<Rightarrow> connection_id \<Rightarrow> u64 \<Rightarrow> c_str \<Rightarrow> c_str \<Rightarrow> c_str \<Rightarrow> u8 \<Rightarrow> engine \<Rightarrow> engine \<times> u32" where
  "ts_upload_file file_size cid channel_id remote_path channel_password source_path overwrite e =
     (case (remote_path, source_path) of
        (Some remote, Some source) \<Rightarrow>
          if \<not> is_connected cid e then (e, 0)
          else if remote = [] \<or> source = [] \<or> \<not> starts_with 47 remote then (e, 0)
          else (case file_size source of
              None \<Rightarrow> (e, 0)
            | Some sz \<Rightarrow>
                if sz = 0 \<or> sz > TRANSFER_HARD_LIMIT then (e, 0)
                else (case tget (SESSIONS e) cid of
                    None \<Rightarrow> (e, 0)
                  | Some s \<Rightarrow>
                      let transfer_id = transfer_id_of (next_transfer_id s);
                          e = upd_session cid (\<lambda>s. s\<lparr>next_transfer_id := next_transfer_id s + 1\<rparr>) e
                      in (case queue_command cid (UploadFile transfer_id channel_id
                            (password_arg channel_password) remote source sz (overwrite \<noteq> 0)) e of
                          (e, True) \<Rightarrow> (e, ucast transfer_id)
                        | (e, False) \<Rightarrow> (e, 0))))
      | _ \<Rightarrow> (e, 0))"

text \<open>\<open>next_request_id.fetch_add(1)\<close>, once more when it yields 0.\<close>

definition fresh_request_id :: "session_rec \<Rightarrow> u32 \<times> session_rec" where
  "fresh_request_id s = (let r = next_request_id s; s = s\<lparr>next_request_id := r + 1\<rparr> in
     if r = 0 then (next_request_id s, s\<lparr>next_request_id := next_request_id s + 1\<rparr>) else (r, s))"

definition ts_list_files :: "connection_id \<Rightarrow> u64 \<Rightarrow> c_str \<Rightarrow> c_str \<Rightarrow> engine \<Rightarrow> engine \<times> u32" where
  "ts_list_files cid channel_id path channel_password e = (case path of
      None \<Rightarrow> (e, 0)
    | Some p \<Rightarrow>
        if \<not> is_connected cid e then (e, 0)
        else let p = trim p in if p = [] then (e, 0)
        else (case tget (SESSIONS e) cid of
            None \<Rightarrow> (e, 0)
          | Some s \<Rightarrow>
              let request_id = fst (fresh_request_id s);
                  e = upd_session cid (\<lambda>s. let s = snd (fresh_request_id s) in
                    s\<lparr>pending_file_requests := (pending_file_requests s)((channel_id, p) \<mapsto> request_id)\<rparr>) e
              in (case queue_command cid
                    (RequestFileList request_id channel_id (password_arg channel_password) p) e of
                  (e, True) \<Rightarrow> (e, request_id)
                | (e, False) \<Rightarrow> (upd_session cid (\<lambda>s. s\<lparr>pending_file_requests :=
                    (pending_file_requests s)((channel_id, p) := None)\<rparr>) e, 0))))"

definition ts_file_info :: "connection_id \<Rightarrow> u64 \<Rightarrow> c_str \<Rightarrow> c_str \<Rightarrow> engine \<Rightarrow> engine \<times> u32" where
  "ts_file_info cid channel_id name channel_password e = (case name of
      None \<Rightarrow> (e, 0)
    | Some n \<Rightarrow>
        if \<not> is_connected cid e then (e, 0)
        else let n = trim n in if n = [] then (e, 0)
        else (case tget (SESSIONS e) cid of
            None \<Rightarrow> (e, 0)
          | Some s \<Rightarrow>
              let request_id = fst (fresh_request_id s);
                  e = upd_session cid (\<lambda>s. let s = snd (fresh_request_id s) in
                    s\<lparr>pending_file_info_requests :=
                      (pending_file_info_requests s)((channel_id, n) \<mapsto> request_id)\<rparr>) e
              in (case queue_command cid
                    (FileInfoRequest request_id channel_id (password_arg channel_password) n) e of
                  (e, True) \<Rightarrow> (e, request_id)
                | (e, False) \<Rightarrow> (upd_session cid (\<lambda>s. s\<lparr>pending_file_info_requests :=
                    (pending_file_info_requests s)((channel_id, n) := None)\<rparr>) e, 0))))"

section \<open>Lemmas\<close>

lemma transfer_id_range: "1 \<le> transfer_id_of n \<and> transfer_id_of n \<le> 65534"
proof -
  have "uint (n mod 65535) < 65535" by (simp add: uint_mod)
  then have "uint (max (n mod 65535) 1) < 65535" "1 \<le> uint (max (n mod 65535) 1)"
    by (auto simp: max_def word_le_def)
  then show ?thesis by (simp add: transfer_id_of_def word_le_def unsigned_ucast_eq take_bit_int_eq_self)
qed

lemma transfer_id_nonzero [simp]: "transfer_id_of n \<noteq> 0" "(ucast (transfer_id_of n) :: u32) \<noteq> 0"
  using transfer_id_range [of n] 
  by (auto simp: word_le_nat_alt word_unat_eq_iff unsigned_ucast_eq take_bit_nat_eq_self)

lemma fresh_request_id_nonzero [simp]: "fst (fresh_request_id s) \<noteq> 0"
  by (simp add: fresh_request_id_def Let_def)

lemma fresh_request_id_frame:
  "snd (fresh_request_id s) = s\<lparr>next_request_id := fst (fresh_request_id s) + 1\<rparr>"
  by (simp add: fresh_request_id_def Let_def)

lemma cmd_rx_upd_session [simp]: "cmd_rx (upd_session cid f e) = cmd_rx e"
  by (simp add: upd_session_def split: option.split)

lemma queue_command_result:
  "tget (SESSIONS e) cid = Some s \<Longrightarrow> queue_command cid c e =
     (if command_tx s \<and> cmd_rx e cid \<noteq> None
      then (e\<lparr>cmd_rx := (cmd_rx e)(cid \<mapsto> the (cmd_rx e cid) @ [c])\<rparr>, True) else (e, False))"
  by (cases "cmd_rx e cid") (simp_all add: queue_command_def)

section \<open>Properties\<close>

text \<open>The pending entries of \<open>s'\<close> are entries of \<open>s\<close>.\<close>

definition no_new_entries :: "('k \<rightharpoonup> 'v) \<Rightarrow> ('k \<rightharpoonup> 'v) \<Rightarrow> bool" where
  "no_new_entries m m' \<longleftrightarrow> m' \<subseteq>\<^sub>m m"

lemma no_new_entries_intros [simp]:
  "no_new_entries m m" "no_new_entries m (m(k := None))" "no_new_entries m ((m(k \<mapsto> v))(k := None))"
  by (auto simp: no_new_entries_def map_le_def)

text \<open>A download request is accepted only for an absolute local path without \<open>..\<close> and a limit
  between 1 byte and 8 MiB; then the transfer is pending under the identifier returned (1 to 65534),
  with exactly this target and limit, and one download command is queued. A rejected request queues
  nothing and leaves no pending transfer behind.\<close>

theorem ts_download_file_spec:
  "case ts_download_file cid ch remote pw target max_bytes e of (e', r) \<Rightarrow>
     if r = 0 then cmd_rx e' = cmd_rx e \<and>
       rel_option (\<lambda>s s'. no_new_entries (pending_transfers s) (pending_transfers s'))
         (tget (SESSIONS e) cid) (tget (SESSIONS e') cid)
     else \<exists>s t rp tp cs. remote = Some rp \<and> target = Some tp
       \<and> tget (SESSIONS e) cid = Some s \<and> connected (sess_state s)
       \<and> starts_with 47 tp \<and> \<not> contains_str (str ''..'') tp \<and> 1 \<le> max_bytes \<and> max_bytes \<le> 8388608
       \<and> r = ucast t \<and> 1 \<le> t \<and> t \<le> 65534
       \<and> tget (SESSIONS e') cid = Some (s\<lparr>next_transfer_id := next_transfer_id s + 1,
           pending_transfers := (pending_transfers s)(t \<mapsto>
             \<lparr>pt_target_path = tp, pt_max_bytes = max_bytes, pt_remote_path = rp\<rparr>)\<rparr>)
       \<and> cmd_rx e cid = Some cs
       \<and> cmd_rx e' = (cmd_rx e)(cid \<mapsto> cs @ [DownloadFile t ch (password_arg pw) rp])"
proof -
  have refl: "rel_option (\<lambda>s s'. no_new_entries (pending_transfers s) (pending_transfers s'))
      (tget (SESSIONS e) cid) (tget (SESSIONS e) cid)"
    by (cases "tget (SESSIONS e) cid") simp_all
  show ?thesis
  proof (cases "snd (ts_download_file cid ch remote pw target max_bytes e) = 0
      \<and> fst (ts_download_file cid ch remote pw target max_bytes e) = e")
    case True
    then show ?thesis using refl by (auto simp: case_prod_beta)
  next
    case False
    then obtain rp tp s where args: "remote = Some rp" "target = Some tp"
      and g: "is_connected cid e" "rp \<noteq> []" "tp \<noteq> []" "\<not> contains_str (str ''..'') tp" "starts_with 47 tp"
        "max_bytes \<noteq> 0" "\<not> max_bytes > TRANSFER_HARD_LIMIT"
      and s: "tget (SESSIONS e) cid = Some s"
      by (auto simp: ts_download_file_def split: option.splits if_splits)
    have c: "connected (sess_state s)" using g(1) s by (simp add: is_connected_def session_def)
    have m: "1 \<le> max_bytes" "max_bytes \<le> 8388608"
      using g(6,7)
      by (simp_all add: TRANSFER_HARD_LIMIT_def word_le_nat_alt word_less_nat_alt word_unat_eq_iff)
    show ?thesis
      using g c m s transfer_id_range [of "next_transfer_id s"]
      by (cases "cmd_rx e cid") (auto simp: ts_download_file_def args queue_command_result Let_def)
  qed
qed

text \<open>A listing or metadata request is accepted with a fresh identifier that is never 0, under
  which the answer for this channel and (trimmed) path is recognised; a newer request for the same
  directory takes over the entry. A rejected request queues nothing and leaves no entry behind.\<close>

theorem ts_list_files_spec:
  "case ts_list_files cid ch path pw e of (e', r) \<Rightarrow>
     if r = 0 then cmd_rx e' = cmd_rx e \<and>
       rel_option (\<lambda>s s'. no_new_entries (pending_file_requests s) (pending_file_requests s'))
         (tget (SESSIONS e) cid) (tget (SESSIONS e') cid)
     else \<exists>s p cs. path = Some p \<and> trim p \<noteq> [] \<and> tget (SESSIONS e) cid = Some s
       \<and> connected (sess_state s)
       \<and> r = (if next_request_id s = 0 then 1 else next_request_id s)
       \<and> tget (SESSIONS e') cid = Some (s\<lparr>next_request_id := r + 1,
           pending_file_requests := (pending_file_requests s)((ch, trim p) \<mapsto> r)\<rparr>)
       \<and> cmd_rx e cid = Some cs
       \<and> cmd_rx e' = (cmd_rx e)(cid \<mapsto> cs @ [RequestFileList r ch (password_arg pw) (trim p)])"
proof (cases "snd (ts_list_files cid ch path pw e) = 0 \<and> fst (ts_list_files cid ch path pw e) = e")
  case True
  then show ?thesis by (cases "tget (SESSIONS e) cid") (auto simp: case_prod_beta)
next
  case False
  then obtain p s where args: "path = Some p" and g: "is_connected cid e" "trim p \<noteq> []"
    and s: "tget (SESSIONS e) cid = Some s"
    by (auto simp: ts_list_files_def Let_def split: option.splits if_splits)
  have c: "connected (sess_state s)" using g(1) s by (simp add: is_connected_def session_def)
  have id: "fst (fresh_request_id s) = (if next_request_id s = 0 then 1 else next_request_id s)"
    by (simp add: fresh_request_id_def Let_def)
  show ?thesis
    using g c s
    by (cases "cmd_rx e cid")
      (auto simp: ts_list_files_def args queue_command_result Let_def fresh_request_id_frame id)
qed

text \<open>The counter of transfers gives neighbouring requests different identifiers except around the
  multiples of 65535, where two downloads in a row get the same one and the second replaces the
  pending entry of the first.\<close>

theorem transfer_ids_of_neighbours:
  assumes "n \<noteq> - 1"
  shows "transfer_id_of n = transfer_id_of (n + 1) \<longleftrightarrow> n mod 65535 = 0"
proof -
  have "n < - 1" using assms by (simp add: word_order.not_eq_extremum)
  then have b: "uint n < 4294967295"
    by (simp add: word_less_def unsigned_minus_1_eq_mask mask_eq_exp_minus_1)
  then have n1: "uint (n + 1) = uint n + 1" by (simp add: uint_word_ariths)
  have u: "uint (transfer_id_of k) = max (uint k mod 65535) 1" for k
  proof -
    have "uint (max (k mod 65535) 1) = max (uint k mod 65535) 1"
      by (simp add: max_def word_le_def uint_mod)
    moreover have "max (uint k mod 65535) 1 < 65536" by simp
    ultimately show ?thesis
      by (simp add: transfer_id_of_def unsigned_ucast_eq take_bit_int_eq_self)
  qed
  define q where "q = uint n mod 65535"
  have q: "0 \<le> q" "q < 65535" by (simp_all add: q_def)
  have "(uint n + 1) mod 65535 = (q + 1) mod 65535" by (simp add: q_def mod_simps)
  also have "\<dots> = (if q = 65534 then 0 else q + 1)" using q by simp
  finally have succ: "uint (transfer_id_of (n + 1)) = max (if q = 65534 then 0 else q + 1) 1"
    by (simp only: u n1)
  have "uint (transfer_id_of n) = max q 1" by (simp only: u q_def)
  moreover have "n mod 65535 = 0 \<longleftrightarrow> q = 0" by (simp add: word_uint_eq_iff uint_mod q_def)
  ultimately show ?thesis
    unfolding word_uint_eq_iff [of "transfer_id_of n"] succ using q by auto
qed

theorem transfer_ids_of_neighbours_witness:
  "transfer_id_of 65535 = transfer_id_of (65535 + 1)"
  by (subst transfer_ids_of_neighbours) simp_all

text \<open>Cancelling looks an upload up by the identifier of the interface, although the running
  uploads are kept under the handle of the client library: it misses the upload meant and cancels
  another one whose handle happens to be that number.\<close>

theorem cancel_takes_handles_for_transfer_ids:
  assumes "tget (SESSIONS e) cid = Some s" "pending_transfers s = Map.empty"
    "upload_jobs s = [1 \<mapsto> job1, 2 \<mapsto> job2]" "uj_transfer_id job1 = 2" "uj_transfer_id job2 = 3"
  shows "ts_cancel_file_transfer cid (ucast (uj_transfer_id job2)) e = (e, False)"
    and "ts_cancel_file_transfer cid (ucast (uj_transfer_id job1)) e
      = (upd_session cid (\<lambda>s. s\<lparr>upload_jobs := (upload_jobs s)(2 := None)\<rparr>) e, True)"
  using assms by (simp_all add: ts_cancel_file_transfer_def)

theorem cancel_takes_handles_for_transfer_ids_witness:
  "\<exists>e s. tget (SESSIONS e) 1 = Some s \<and> snd (ts_cancel_file_transfer 1 3 e) = False"
proof -
  define j :: "u16 \<Rightarrow> upload_job" where "j t = \<lparr>uj_transfer_id = t, uj_source_path = [], uj_remote_path = []\<rparr>" for t
  define s where "s = (session_new 0 1 ts_connection_new)\<lparr>upload_jobs := [1 \<mapsto> j 2, 2 \<mapsto> j 3]\<rparr>"
  define e where "e = (engine_new 0)\<lparr>SESSIONS := [(1, s)]\<rparr>"
  have "ts_cancel_file_transfer 1 (ucast (uj_transfer_id (j 3))) e = (e, False)"
    by (rule cancel_takes_handles_for_transfer_ids(1) [of e 1 s "j 2" "j 3"])
      (simp_all add: e_def s_def session_new_def j_def)
  then have "snd (ts_cancel_file_transfer 1 3 e) = False" by (simp add: j_def)
  moreover have "tget (SESSIONS e) 1 = Some s" by (simp add: e_def)
  ultimately show ?thesis by blast
qed

end
