(* ===== verification/Sqrt.thy ===== *)
theory Sqrt
  imports F32
begin

text \<open>
  The square root on \<open>f32\<close>, correctly rounded as IEEE 754 demands: an integer root with more than
  enough bits, a sticky half unit when it is not exact, and one rounding.
\<close>

function isqrt :: "int \<Rightarrow> int" where
  "isqrt n = (if n \<le> 0 then 0
     else let r = 2 * isqrt (n div 4) in if (r + 1) * (r + 1) \<le> n then r + 1 else r)"
  by pat_completeness auto
termination by (relation "measure nat") auto

declare isqrt.simps [simp del]

lemma isqrt_bounds: "0 \<le> n \<Longrightarrow> 0 \<le> isqrt n \<and> isqrt n * isqrt n \<le> n \<and> n < (isqrt n + 1) * (isqrt n + 1)"
proof (induction n rule: isqrt.induct)
  case (1 n)
  show ?case
  proof (cases "n = 0")
    case True
    then show ?thesis by (simp add: isqrt.simps)
  next
    case False
    define q where "q = isqrt (n div 4)"
    define r where "r = isqrt n"
    have ih: "0 \<le> q" "q * q \<le> n div 4" "n div 4 < (q + 1) * (q + 1)"
      using "1.IH" "1.prems" False by (simp_all add: q_def)
    have "4 * (q * q) \<le> n" using ih(2) by linarith
    moreover have "n < 4 * ((q + 1) * (q + 1))" using ih(3) by linarith
    moreover have "r = (if (2 * q + 1) * (2 * q + 1) \<le> n then 2 * q + 1 else 2 * q)"
      using False "1.prems" unfolding r_def by (subst isqrt.simps) (simp add: Let_def q_def)
    ultimately have "0 \<le> r \<and> r * r \<le> n \<and> n < (r + 1) * (r + 1)"
      using ih(1) by (auto simp: algebra_simps)
    then show ?thesis by (simp only: r_def)
  qed
qed

text \<open>The exponent 110 leaves at least 35 bits for the root of the smallest positive value.\<close>

definition rat_sqrt_sticky :: "rat \<Rightarrow> rat" where
  "rat_sqrt_sticky q = (let m = q * 4 ^ 110; s = isqrt \<lfloor>m\<rfloor> in
     if of_int (s * s) = m then of_int s / 2 ^ 110 else of_int (2 * s + 1) / 2 ^ 111)"

definition f32_sqrt :: "f32 \<Rightarrow> f32" where
  "f32_sqrt x = (case x of
      Fin q \<Rightarrow> if q < 0 then NaN else f32_of_rat (rat_sqrt_sticky q)
    | PInf \<Rightarrow> PInf
    | NInf \<Rightarrow> NaN
    | NaN \<Rightarrow> NaN)"

lemma isqrt_unique:
  assumes "0 \<le> s" "s * s \<le> n" "n < (s + 1) * (s + 1)"
  shows "isqrt n = s"
proof -
  have n: "0 \<le> n" using assms(1,2) by (metis mult_nonneg_nonneg order_trans)
  have r: "0 \<le> isqrt n" "isqrt n * isqrt n \<le> n" "n < (isqrt n + 1) * (isqrt n + 1)"
    using isqrt_bounds [OF n] by simp_all
  have "s \<le> isqrt n"
  proof (rule ccontr)
    assume "\<not> s \<le> isqrt n"
    then have "(isqrt n + 1) * (isqrt n + 1) \<le> s * s" using r(1) by (intro mult_mono) simp_all
    then show False using assms(2) r(3) by linarith
  qed
  moreover have "isqrt n \<le> s"
  proof (rule ccontr)
    assume "\<not> isqrt n \<le> s"
    then have "(s + 1) * (s + 1) \<le> isqrt n * isqrt n" using assms(1) by (intro mult_mono) simp_all
    then show False using assms(3) r(2) by linarith
  qed
  ultimately show ?thesis by simp
qed

lemma rat_sqrt_sticky_square:
  assumes "0 \<le> (k :: int)"
  shows "rat_sqrt_sticky (of_int (k * k)) = of_int k"
proof -
  have f: "\<lfloor>(of_int (k * k) * 4 ^ 110 :: rat)\<rfloor> = (k * 2 ^ 110) * (k * 2 ^ 110)"
  proof -
    have "(of_int (k * k) * 4 ^ 110 :: rat) = of_int ((k * 2 ^ 110) * (k * 2 ^ 110))"
      by simp
    then show ?thesis by (simp only: floor_of_int)
  qed
  have "isqrt ((k * 2 ^ 110) * (k * 2 ^ 110)) = k * 2 ^ 110"
    using assms by (intro isqrt_unique) (simp_all add: algebra_simps)
  then show ?thesis unfolding rat_sqrt_sticky_def f Let_def by simp
qed

lemma rat_sqrt_sticky_0 [simp]: "rat_sqrt_sticky 0 = 0"
  using rat_sqrt_sticky_square [of 0] by simp

lemma rat_sqrt_sticky_1 [simp]: "rat_sqrt_sticky 1 = 1"
  using rat_sqrt_sticky_square [of 1] by simp

lemma rat_sqrt_sticky_nonneg: "0 \<le> q \<Longrightarrow> 0 \<le> rat_sqrt_sticky q"
  using isqrt_bounds [of "\<lfloor>q * 4 ^ 110\<rfloor>"]
  by (auto simp: rat_sqrt_sticky_def Let_def)

end
