(* ===== verification/Voice.thy ===== *)
theory Voice
  imports Whisper Sqrt
begin

text \<open>
  The outgoing voice path of \<open>native/src/api.rs\<close>: the voice activity gate, and the part of the event
  loop that handles \<open>Command::SendAudio\<close>: it cuts the samples into frames of 20 ms, gates, amplifies
  and encodes them, numbers the packets and ends a talk burst when whispering is switched.

  The Opus encoder is a parameter: a function of the frames it has encoded and the new one. Whether
  the library accepts a packet is a parameter too, a function of the number of the send.
\<close>

section \<open>The gate\<close>

definition f32_lit :: "int \<Rightarrow> int \<Rightarrow> f32" where
  "f32_lit n d = f32_of_rat (of_int n / of_int d)"

definition clean_sample :: "f32 \<Rightarrow> f32" where
  "clean_sample s = (if is_finite s then fclamp (Fin (-1)) (Fin 1) s else Fin 0)"

text \<open>One sample of the scan: sum of squares, peak, zero crossings and the previous sample.\<close>

definition scan_sample :: "f32 \<Rightarrow> f32 \<times> f32 \<times> nat \<times> f32 \<Rightarrow> f32 \<times> f32 \<times> nat \<times> f32" where
  "scan_sample sample acc = (case acc of (sum_sq, peak, zero_crossings, previous) \<Rightarrow>
     (let clean = clean_sample sample in
       (fadd sum_sq (fmul clean clean), fmax peak (fabs clean),
        (if fle (Fin 0) clean \<noteq> fle (Fin 0) previous then zero_crossings + 1 else zero_crossings), clean)))"

definition scan_frame :: "f32 list \<Rightarrow> f32 \<times> f32 \<times> nat \<times> f32" where
  "scan_frame frame = fold scan_sample frame (Fin 0, Fin 0, 0, hd frame)"

definition frame_rms :: "f32 list \<Rightarrow> f32" where
  "frame_rms frame = f32_sqrt (fdiv (fst (scan_frame frame)) (f32_of_rat (of_nat (length frame))))"

definition configured_gate :: "ts_connection \<Rightarrow> f32" where
  "configured_gate st = fmax (vad_threshold st) (f32_lit 5 10000)"

definition learn_noise_floor :: "f32 \<Rightarrow> ts_connection \<Rightarrow> ts_connection" where
  "learn_noise_floor rms st = (if flt rms (fmul (configured_gate st) (f32_lit 8 10))
     then st\<lparr>vad_noise_floor := (if fle (vad_noise_floor st) (Fin 0) then fmax rms (f32_lit 1 10000)
       else fadd (fmul (vad_noise_floor st) (f32_lit 98 100)) (fmul rms (f32_lit 2 100)))\<rparr>
     else st)"

definition adaptive_gate :: "ts_connection \<Rightarrow> f32" where
  "adaptive_gate st = fmin (fmax (fmul (vad_noise_floor st) (f32_lit 25 10))
     (fmul (configured_gate st) (f32_lit 55 100))) (configured_gate st)"

definition speech_shape :: "f32 list \<Rightarrow> bool" where
  "speech_shape frame = (case scan_frame frame of (sum_sq, peak, zero_crossings, previous) \<Rightarrow>
     (let zcr = fdiv (f32_of_rat (of_nat zero_crossings)) (f32_of_rat (of_nat (length frame)));
          crest = fdiv peak (fmax (frame_rms frame) (f32_lit 1 1000000))
      in fle (f32_lit 8 1000) zcr \<and> fle zcr (f32_lit 35 100) \<and> fle (f32_lit 12 10) crest \<and> fle crest (Fin 14)))"

definition hybrid_vad_should_transmit :: "ts_connection \<Rightarrow> f32 list \<Rightarrow> ts_connection \<times> bool" where
  "hybrid_vad_should_transmit st frame = (if frame = [] then (st, False)
     else let rms = frame_rms frame; st = learn_noise_floor rms st in
       (st, fle (configured_gate st) rms \<or> (fle (adaptive_gate st) rms \<and> speech_shape frame)))"

section \<open>One frame\<close>

definition FRAME :: nat where "FRAME = 960"
definition HOLD_FRAMES :: u32 where "HOLD_FRAMES = 10"

record lib_env =
  le_encode :: "f32 list list \<Rightarrow> f32 list \<Rightarrow> u8 list option"
  le_send :: "nat \<Rightarrow> rstr option"
    \<comment> \<open>the error of the send with that number, if it fails\<close>
  le_upload :: "nat \<Rightarrow> rstr + u16"
    \<comment> \<open>error or handle of an upload request\<close>

text \<open>Whether the gate drops the frame.\<close>

definition vad_drop :: "ts_connection \<Rightarrow> f32 list \<Rightarrow> ts_connection \<times> bool" where
  "vad_drop st frame = (if vad_enabled st then
     (case hybrid_vad_should_transmit st frame of (st, opened) \<Rightarrow>
        if opened then (st\<lparr>vad_hold := HOLD_FRAMES\<rparr>, False)
        else if 0 < vad_hold st then (st\<lparr>vad_hold := vad_hold st - 1\<rparr>, False)
        else (st, True))
     else (st, False))"

definition apply_gain :: "f32 \<Rightarrow> f32 list \<Rightarrow> f32 list" where
  "apply_gain gain frame = (if flt (f32_lit 1 1000) (fabs (fsub gain (Fin 1)))
     then map (\<lambda>s. fclamp (Fin (-1)) (Fin 1) (fmul s gain)) frame else frame)"

definition take_seq :: "bool \<Rightarrow> ts_connection \<Rightarrow> ts_connection \<times> u16" where
  "take_seq whisper st = (if whisper then (st\<lparr>whisper_seq := whisper_seq st + 1\<rparr>, whisper_seq st)
     else (st\<lparr>audio_seq := audio_seq st + 1\<rparr>, audio_seq st))"

definition encode_frame ::
  "lib_env \<Rightarrow> bool \<Rightarrow> f32 list \<Rightarrow> ts_connection \<Rightarrow> ts_connection \<times> (u16 \<times> u8 list) option" where
  "encode_frame env whisper_on gained st =
     (case take_seq whisper_on st of (st, seq) \<Rightarrow>
       (case audio_encoder st of
          None \<Rightarrow> (st\<lparr>pcm_in := []\<rparr>, None)
        | Some history \<Rightarrow> (st\<lparr>audio_encoder := Some (history @ [gained])\<rparr>,
            map_option (Pair seq) (le_encode env history gained))))"

text \<open>One turn of the loop after the test for a whole frame.\<close>

definition next_frame ::
  "lib_env \<Rightarrow> bool \<Rightarrow> ts_connection \<Rightarrow> ts_connection \<times> (u16 \<times> u8 list) option" where
  "next_frame env whisper_on st =
     (let frame = take FRAME (pcm_in st); st = st\<lparr>pcm_in := drop FRAME (pcm_in st)\<rparr> in
       (case vad_drop st frame of (st, skip) \<Rightarrow>
          if skip then (st, None)
          else encode_frame env whisper_on (apply_gain (mic_gain st) frame) st))"

definition voice_packet :: "bool \<Rightarrow> u64 list \<Rightarrow> u16 list \<Rightarrow> u16 \<Rightarrow> u8 list \<Rightarrow> out_message" where
  "voice_packet whisper_on chs cls seq opus =
     (if whisper_on then OutWhisper seq chs cls opus else OutVoice seq opus)"

section \<open>The loop over the frames\<close>

lemma pcm_in_vad_drop [simp]: "pcm_in (fst (vad_drop st frame)) = pcm_in st"
  by (simp add: vad_drop_def hybrid_vad_should_transmit_def learn_noise_floor_def Let_def)

lemma pcm_in_next_frame: "length (pcm_in (fst (next_frame env w st))) \<le> length (pcm_in st) - FRAME"
  using pcm_in_vad_drop [of "st\<lparr>pcm_in := drop FRAME (pcm_in st)\<rparr>" "take FRAME (pcm_in st)"]
  by (auto simp: next_frame_def encode_frame_def take_seq_def Let_def simp del: pcm_in_vad_drop
    split: prod.split option.split if_splits)

text \<open>\<open>n\<close> is the number of the next send. The result has the packets handed to the library.\<close>

function send_frames ::
  "lib_env \<Rightarrow> bool \<Rightarrow> u64 list \<Rightarrow> u16 list \<Rightarrow> nat \<Rightarrow> ts_connection \<Rightarrow> ts_connection \<times> out_message list" where
  "send_frames env whisper_on chs cls n st =
     (if length (pcm_in st) < FRAME then (st, [])
      else (case next_frame env whisper_on st of
          (st, None) \<Rightarrow> send_frames env whisper_on chs cls n st
        | (st, Some (seq, opus)) \<Rightarrow>
            (let st = (case le_send env n of None \<Rightarrow> st\<lparr>voice_active := True\<rparr> | Some err \<Rightarrow> st) in
              (case send_frames env whisper_on chs cls (n + 1) st of
                 (st, packets) \<Rightarrow> (st, voice_packet whisper_on chs cls seq opus # packets)))))"
  by pat_completeness auto
termination
proof (relation "measure (\<lambda>(env, w, ch, cl, n, st). length (pcm_in st))", goal_cases)
  case (2 env w ch cl n st p st')
  with pcm_in_next_frame [of env w st] show ?case by (cases "next_frame env w st") (auto simp: FRAME_def)
next
  case (3 env w ch cl n st p st' q seq opus st'')
  with pcm_in_next_frame [of env w st] show ?case
    by (cases "next_frame env w st") (auto simp: FRAME_def split: option.splits)
qed simp

declare send_frames.simps [simp del]

section \<open>The command\<close>

definition whisper_on_of :: "ts_connection \<Rightarrow> bool" where
  "whisper_on_of st \<longleftrightarrow> whisper_active st \<and> has_whisper_target st"

text \<open>A change between talking and whispering ends the previous burst with an empty packet.\<close>

definition whisper_switch :: "ts_connection \<Rightarrow> ts_connection \<times> out_message list" where
  "whisper_switch st = (let whisper_on = whisper_on_of st in
     if whisper_was_active st \<noteq> whisper_on then
       (let was_whisper = whisper_was_active st in
         (case take_seq was_whisper st of (st, seq) \<Rightarrow>
           (st\<lparr>whisper_was_active := whisper_on\<rparr>,
            [voice_packet was_whisper (whisper_target_channels st) (whisper_target_clients st) seq []])))
     else (st, []))"

definition send_audio_command :: "lib_env \<Rightarrow> connection_id \<Rightarrow> f32 list \<Rightarrow> engine \<Rightarrow> engine" where
  "send_audio_command env cid samples e = (case session cid e of
      None \<Rightarrow> e
    | Some st \<Rightarrow>
        let whisper_on = whisper_on_of st; cls = whisper_target_clients st;
            chs = whisper_target_channels st
        in (case whisper_switch st of (st, terminators) \<Rightarrow>
             let st = st\<lparr>pcm_in := pcm_in st @ samples\<rparr>;
                 sent = length (outbox e) + length terminators
             in (case send_frames env whisper_on chs cls sent st of (st, packets) \<Rightarrow>
                  fold (send_to cid) (terminators @ packets) (upd_state cid (\<lambda>_. st) e))))"

section \<open>Silence\<close>

definition fpos :: "f32 \<Rightarrow> bool" where
  "fpos a \<longleftrightarrow> flt (Fin 0) a"

lemma fpos_simps [simp]: "fpos (Fin q) \<longleftrightarrow> 0 < q" "fpos PInf" "\<not> fpos NInf" "\<not> fpos NaN"
  by (simp_all add: fpos_def)

lemma fpos_fmax: "fpos b \<Longrightarrow> fpos (fmax a b)"
  by (cases a; cases b) (auto simp: fmax_def)

lemma fpos_fmin: "fpos a \<Longrightarrow> fpos b \<Longrightarrow> fpos (fmin a b)"
  by (cases a; cases b) (auto simp: fmin_def)

lemma fpos_not_fle: "fpos a \<Longrightarrow> \<not> fle a (Fin 0)"
  by (cases a) simp_all

lemma gate_constants: "f32_lit 5 10000 = Fin (8589935 / 17179869184)" "f32_lit 55 100 = Fin (9227469 / 16777216)"
  by (simp_all only: f32_lit_def) code_simp+

lemma configured_gate_cases:
  obtains "configured_gate st = PInf" | g where "configured_gate st = Fin g" "8589935 / 17179869184 \<le> g"
  by (cases "configured_gate st"; cases "vad_threshold st")
    (auto simp: configured_gate_def gate_constants fmax_def split: if_splits)

lemma fpos_configured_gate: "fpos (configured_gate st)"
  by (cases st rule: configured_gate_cases) auto

lemma fpos_of_rat: "2 powi (- 12) \<le> x \<Longrightarrow> fpos (f32_of_rat x)"
proof -
  assume x: "2 powi (- 12) \<le> x"
  have "f32_rep (2 powi (- 12))" by code_simp
  then have "2 powi (- 12) \<le> f32_rnd x" using x by (intro f32_rnd_ge) simp_all
  then have "0 < f32_rnd x" by (rule less_le_trans [rotated]) simp
  then show ?thesis by (simp add: f32_of_rat_def Let_def)
qed

lemma fpos_adaptive_gate: "fpos (adaptive_gate st)"
proof -
  have "fpos (fmul (configured_gate st) (f32_lit 55 100))"
  proof -
    show ?thesis
    proof (cases st rule: configured_gate_cases)
      case 1
      then show ?thesis by (simp add: gate_constants f32_inf_def f32_sgn_def)
    next
      case (2 g)
      have "2 powi (- 12) \<le> (8589935 / 17179869184 :: rat) * (9227469 / 16777216)" by simp
      also have "\<dots> \<le> g * (9227469 / 16777216)" using 2(2) by (intro mult_right_mono) simp_all
      finally show ?thesis using 2(1) by (simp add: gate_constants fpos_of_rat)
    qed
  qed
  then show ?thesis
    unfolding adaptive_gate_def by (intro fpos_fmin fpos_fmax fpos_configured_gate)
qed

lemma f32_of_rat_0 [simp]: "f32_of_rat 0 = Fin 0"
  by (simp add: f32_of_rat_def)

lemma silent_scan:
  assumes "\<forall>x\<in>set frame. clean_sample x = Fin 0" and "fst acc = Fin 0"
  shows "fst (fold scan_sample frame acc) = Fin 0"
  using assms
proof (induction frame arbitrary: acc)
  case (Cons x xs)
  have "fst (scan_sample x acc) = Fin 0"
    using Cons.prems by (cases acc) (simp add: scan_sample_def Let_def)
  then show ?case using Cons by simp
qed simp

lemma silent_rms:
  assumes "\<forall>x\<in>set frame. clean_sample x = Fin 0" and "frame \<noteq> []"
  shows "frame_rms frame = Fin 0"
proof -
  have "f32_rep 1" by code_simp
  then have "1 \<le> f32_rnd (of_nat (length frame))"
    using assms(2) by (intro f32_rnd_ge) (simp_all add: Suc_le_eq)
  then have "fdiv (Fin 0) (f32_of_rat (of_nat (length frame))) = Fin 0"
    by (simp add: f32_of_rat_def Let_def)
  then show ?thesis
    using silent_scan [OF assms(1)] by (simp add: frame_rms_def scan_frame_def f32_sqrt_def)
qed

text \<open>Silence never opens the gate, whatever threshold the user has set and whatever noise floor
  has been learned, even infinite or not a number: a frame whose samples are zero, infinite or not a
  number is not transmitted on its own account.\<close>
theorem silence_never_opens_the_gate:
  assumes "\<forall>x\<in>set frame. clean_sample x = Fin 0"
  shows "\<not> snd (hybrid_vad_should_transmit st frame)"
proof (cases "frame = []")
  case False
  have "\<not> fle (configured_gate st') (Fin 0)" "\<not> fle (adaptive_gate st') (Fin 0)" for st' :: ts_connection
    using fpos_not_fle fpos_configured_gate fpos_adaptive_gate by blast+
  then show ?thesis
    using False by (simp add: hybrid_vad_should_transmit_def Let_def silent_rms [OF assms])
qed (simp add: hybrid_vad_should_transmit_def)

theorem silence_never_opens_the_gate_witness:
  "\<not> snd (hybrid_vad_should_transmit ts_connection_new [Fin 0, NaN, PInf])"
  by (rule silence_never_opens_the_gate) (simp add: clean_sample_def is_finite_def fclamp_def)

section \<open>The release delay of the gate\<close>

text \<open>What the gate decides frame by frame, and what is transmitted.\<close>

primrec gate_opens :: "ts_connection \<Rightarrow> f32 list list \<Rightarrow> bool list" where
  "gate_opens st [] = []"
| "gate_opens st (f # fs) = snd (hybrid_vad_should_transmit st f) # gate_opens (fst (hybrid_vad_should_transmit st f)) fs"

primrec transmitted :: "ts_connection \<Rightarrow> f32 list list \<Rightarrow> bool list" where
  "transmitted st [] = []"
| "transmitted st (f # fs) = (\<not> snd (vad_drop st f)) # transmitted (fst (vad_drop st f)) fs"

lemma hybrid_vad_hold [simp]:
  "hybrid_vad_should_transmit (st\<lparr>vad_hold := h\<rparr>) f =
     (case hybrid_vad_should_transmit st f of (st, b) \<Rightarrow> (st\<lparr>vad_hold := h\<rparr>, b))"
  by (simp add: hybrid_vad_should_transmit_def learn_noise_floor_def configured_gate_def adaptive_gate_def Let_def)

lemma gate_opens_hold [simp]: "gate_opens (st\<lparr>vad_hold := h\<rparr>) fs = gate_opens st fs"
  by (induction fs arbitrary: st) (auto split: prod.split)

lemma hybrid_vad_frame [simp]:
  "vad_enabled (fst (hybrid_vad_should_transmit st f)) = vad_enabled st"
  "vad_hold (fst (hybrid_vad_should_transmit st f)) = vad_hold st"
  by (simp_all add: hybrid_vad_should_transmit_def learn_noise_floor_def Let_def)

lemma length_gate [simp]: "length (gate_opens st fs) = length fs" "length (transmitted st fs) = length fs"
  by (induction fs arbitrary: st) simp_all

lemma transmitted_hold:
  assumes "vad_enabled st" and "i < length fs"
  shows "transmitted st fs ! i
    \<longleftrightarrow> i < unat (vad_hold st) \<and> (\<forall>j<i. \<not> gate_opens st fs ! j)
      \<or> (\<exists>j\<le>i. i \<le> j + 10 \<and> gate_opens st fs ! j)"
  using assms
proof (induction fs arbitrary: st i)
  case (Cons f fs)
  obtain st0 b where o: "hybrid_vad_should_transmit st f = (st0, b)" by fastforce
  have st0: "vad_enabled st0" "vad_hold st0 = vad_hold st"
    using hybrid_vad_frame [of st f] Cons.prems(1) o by simp_all
  let ?h = "if b then 10 else unat (vad_hold st) - 1"
  let ?os = "gate_opens st0 fs"
  define st1 where "st1 = fst (vad_drop st f)"
  have v: "vad_drop st f = (if b then (st0\<lparr>vad_hold := 10\<rparr>, False)
      else if 0 < vad_hold st then (st0\<lparr>vad_hold := vad_hold st - 1\<rparr>, False) else (st0, True))"
    using o st0 Cons.prems(1) by (simp add: vad_drop_def HOLD_FRAMES_def)
  have d: "vad_drop st f = (st1, \<not> (b \<or> 0 < unat (vad_hold st)))"
    by (simp add: st1_def v word_less_nat_alt)
  have "0 < vad_hold st \<Longrightarrow> unat (vad_hold st - 1) = unat (vad_hold st) - 1"
    by (simp add: unat_sub word_le_nat_alt Suc_le_eq word_less_nat_alt)
  then have st1: "vad_enabled st1" "unat (vad_hold st1) = ?h" "gate_opens st1 fs = ?os"
    using st0 by (simp_all add: st1_def v word_less_nat_alt)
  show ?case
  proof (cases i)
    case 0
    then show ?thesis using o d by auto
  next
    case (Suc k)
    have all: "(\<forall>j<Suc k. \<not> (b # ?os) ! j) \<longleftrightarrow> \<not> b \<and> (\<forall>j<k. \<not> ?os ! j)"
      by (simp add: All_less_Suc2)
    have "(\<exists>j<Suc (Suc k). Suc k \<le> j + 10 \<and> (b # ?os) ! j) \<longleftrightarrow> (k < 10 \<and> b) \<or> (\<exists>j<Suc k. k \<le> j + 10 \<and> ?os ! j)"
      by (subst Ex_less_Suc2) (auto simp: less_Suc_eq_le add.commute)
    then have ex: "(\<exists>j\<le>Suc k. Suc k \<le> j + 10 \<and> (b # ?os) ! j) \<longleftrightarrow> (k < 10 \<and> b) \<or> (\<exists>j\<le>k. k \<le> j + 10 \<and> ?os ! j)"
      by (simp only: less_Suc_eq_le)
    have ih: "transmitted st1 fs ! k \<longleftrightarrow> k < ?h \<and> (\<forall>j<k. \<not> ?os ! j) \<or> (\<exists>j\<le>k. k \<le> j + 10 \<and> ?os ! j)"
      using Cons.IH [OF st1(1), of k] Cons.prems(2) Suc st1 by simp
    define A where "A = (\<forall>j<k. \<not> ?os ! j)"
    define E where "E = (\<exists>j\<le>k. k \<le> j + 10 \<and> ?os ! j)"
    have "k < 10 \<Longrightarrow> \<not> A \<Longrightarrow> E" unfolding A_def E_def by force
    moreover have "Suc k < unat (vad_hold st) \<longleftrightarrow> k < unat (vad_hold st) - 1" by linarith
    moreover have g: "gate_opens st (f # fs) = b # ?os" "transmitted st (f # fs) ! Suc k = transmitted st1 fs ! k"
      by (simp_all add: o d)
    ultimately have "(k < ?h \<and> A \<or> E) \<longleftrightarrow> (Suc k < unat (vad_hold st) \<and> (\<not> b \<and> A) \<or> (k < 10 \<and> b \<or> E))"
      by (cases b) auto
    then show ?thesis unfolding Suc g ih all ex A_def E_def .
  qed
qed simp

text \<open>With the gate on and closed, a frame is transmitted exactly when the gate opened for it or for
  one of the ten frames before it: word endings get 200 ms, and nothing more.\<close>
theorem transmitted_iff_recently_open:
  assumes "vad_enabled st" and "vad_hold st = 0" and "i < length frames"
  shows "transmitted st frames ! i \<longleftrightarrow> (\<exists>j\<le>i. i \<le> j + 10 \<and> gate_opens st frames ! j)"
  using transmitted_hold [OF assms(1,3)] assms(2) by simp

theorem transmitted_iff_recently_open_witness:
  "transmitted (ts_connection_new\<lparr>vad_enabled := True\<rparr>) [[]] ! 0
    \<longleftrightarrow> (\<exists>j\<le>0. 0 \<le> j + 10 \<and> gate_opens (ts_connection_new\<lparr>vad_enabled := True\<rparr>) [[]] ! j)"
  by (rule transmitted_iff_recently_open) (simp_all add: ts_connection_new_def)

section \<open>The pipeline\<close>

function chunks :: "'a list \<Rightarrow> 'a list list" where
  "chunks xs = (if length xs < FRAME then [] else take FRAME xs # chunks (drop FRAME xs))"
  by pat_completeness auto
termination by (relation "measure length") (auto simp: FRAME_def)

declare chunks.simps [simp del]

text \<open>The frames that pass the gate, amplified.\<close>

definition gated_frames :: "ts_connection \<Rightarrow> f32 list \<Rightarrow> f32 list list" where
  "gated_frames st pcm = map (apply_gain (mic_gain st) \<circ> snd)
     (filter fst (zip (transmitted st (chunks pcm)) (chunks pcm)))"

definition stream_seq :: "bool \<Rightarrow> ts_connection \<Rightarrow> u16" where
  "stream_seq whisper_on st = (if whisper_on then whisper_seq st else audio_seq st)"

text \<open>The packets of a list of frames: encoded one after the other and numbered from \<open>seq\<close>.\<close>

primrec encoded :: "lib_env \<Rightarrow> (u16 \<Rightarrow> u8 list \<Rightarrow> out_message) \<Rightarrow> u16 \<Rightarrow> f32 list list \<Rightarrow> f32 list list \<Rightarrow> out_message list" where
  "encoded env pk seq history [] = []"
| "encoded env pk seq history (f # fs) =
     pk seq (the (le_encode env history f)) # encoded env pk (seq + 1) (history @ [f]) fs"

text \<open>The gate sees neither the samples that wait nor the counters of the streams.\<close>

lemma vad_drop_other_fields:
  "vad_drop (st\<lparr>pcm_in := a\<rparr>) f = (case vad_drop st f of (s, b) \<Rightarrow> (s\<lparr>pcm_in := a\<rparr>, b))"
  "vad_drop (st\<lparr>audio_seq := q\<rparr>) f = (case vad_drop st f of (s, b) \<Rightarrow> (s\<lparr>audio_seq := q\<rparr>, b))"
  "vad_drop (st\<lparr>whisper_seq := q\<rparr>) f = (case vad_drop st f of (s, b) \<Rightarrow> (s\<lparr>whisper_seq := q\<rparr>, b))"
  "vad_drop (st\<lparr>audio_encoder := h\<rparr>) f = (case vad_drop st f of (s, b) \<Rightarrow> (s\<lparr>audio_encoder := h\<rparr>, b))"
  "vad_drop (st\<lparr>voice_active := v\<rparr>) f = (case vad_drop st f of (s, b) \<Rightarrow> (s\<lparr>voice_active := v\<rparr>, b))"
  by (simp_all add: vad_drop_def hybrid_vad_should_transmit_def learn_noise_floor_def configured_gate_def
    adaptive_gate_def Let_def)

lemma transmitted_other_fields [simp]:
  "transmitted (st\<lparr>pcm_in := a\<rparr>) fs = transmitted st fs"
  "transmitted (st\<lparr>audio_seq := q\<rparr>) fs = transmitted st fs"
  "transmitted (st\<lparr>whisper_seq := q\<rparr>) fs = transmitted st fs"
  "transmitted (st\<lparr>audio_encoder := h\<rparr>) fs = transmitted st fs"
  "transmitted (st\<lparr>voice_active := v\<rparr>) fs = transmitted st fs"
  by (induction fs arbitrary: st) (simp_all add: vad_drop_other_fields split_def)

lemma vad_drop_frame [simp]:
  "mic_gain (fst (vad_drop st f)) = mic_gain st" "audio_seq (fst (vad_drop st f)) = audio_seq st"
  "whisper_seq (fst (vad_drop st f)) = whisper_seq st" "audio_encoder (fst (vad_drop st f)) = audio_encoder st"
  by (simp_all add: vad_drop_def hybrid_vad_should_transmit_def learn_noise_floor_def Let_def)

lemma send_frames_pipeline:
  assumes "audio_encoder st = Some history" and "\<forall>h f. le_encode env h f \<noteq> None"
  shows "snd (send_frames env w chs cls n st)
      = encoded env (voice_packet w chs cls) (stream_seq w st) history (gated_frames st (pcm_in st))
    \<and> pcm_in (fst (send_frames env w chs cls n st)) = drop (FRAME * (length (pcm_in st) div FRAME)) (pcm_in st)"
  using assms
proof (induction env w chs cls n st arbitrary: history rule: send_frames.induct)
  case (1 env w chs cls n st)
  show ?case
  proof (cases "length (pcm_in st) < FRAME")
    case True
    then show ?thesis
      by (simp add: send_frames.simps [of _ _ _ _ _ st] gated_frames_def chunks.simps [of "pcm_in st"])
  next
    case False
    let ?p = "pcm_in st" and ?pk = "voice_packet w chs cls"
    let ?frame = "take FRAME ?p" and ?st = "st\<lparr>pcm_in := drop FRAME ?p\<rparr>"
    have ch: "chunks ?p = ?frame # chunks (drop FRAME ?p)" using False by (subst chunks.simps) simp
    have drop: "drop (FRAME * ((length ?p - FRAME) div FRAME)) (drop FRAME ?p)
        = drop (FRAME * (length ?p div FRAME)) ?p"
    proof -
      have "length ?p div FRAME = Suc ((length ?p - FRAME) div FRAME)"
        using False by (subst le_div_geq) (simp_all add: FRAME_def)
      then show ?thesis by (simp add: add.commute)
    qed
    obtain st1 skip where v: "vad_drop ?st ?frame = (st1, skip)" by fastforce
    have v': "fst (vad_drop st ?frame) = st1\<lparr>pcm_in := ?p\<rparr>" "snd (vad_drop st ?frame) = skip"
      using v vad_drop_other_fields(1) [of "drop FRAME ?p" st ?frame] pcm_in_vad_drop [of st ?frame]
      by (auto simp: split_def)
    have f1: "pcm_in st1 = drop FRAME ?p" "audio_encoder st1 = Some history" "mic_gain st1 = mic_gain st"
        "stream_seq w st1 = stream_seq w st"
      using v "1.prems" pcm_in_vad_drop [of ?st ?frame] vad_drop_frame [of ?st ?frame] by (auto simp: stream_seq_def)
    have tr: "transmitted st (chunks ?p) = (\<not> skip) # transmitted st1 (chunks (drop FRAME ?p))"
      by (simp add: ch v')
    have z: "zip (transmitted st (chunks ?p)) (chunks ?p)
        = (\<not> skip, ?frame) # zip (transmitted st1 (chunks (drop FRAME ?p))) (chunks (drop FRAME ?p))"
      by (simp only: tr) (simp add: ch)
    show ?thesis
    proof (cases skip)
      case True
      then have nf: "next_frame env w st = (st1, None)" by (simp add: next_frame_def v)
      then have "send_frames env w chs cls n st = send_frames env w chs cls n st1"
        using False by (simp add: send_frames.simps [of _ _ _ _ _ st])
      moreover have "gated_frames st ?p = gated_frames st1 (drop FRAME ?p)"
        by (simp add: gated_frames_def z True f1)
      ultimately show ?thesis
        using "1.IH"(1) [OF False nf [symmetric] refl f1(2) "1.prems"(2)] drop f1 by simp
    next
      case skip: False
      let ?g = "apply_gain (mic_gain st) ?frame"
      let ?st2 = "fst (take_seq w st1)\<lparr>audio_encoder := Some (history @ [?g])\<rparr>"
      obtain opus where op: "le_encode env history ?g = Some opus"
        using spec [OF spec [OF "1.prems"(2), of history], of ?g] by blast
      have nf: "next_frame env w st = (?st2, Some (stream_seq w st, opus))"
        using f1 op skip
        by (cases w) (simp_all add: next_frame_def v encode_frame_def take_seq_def stream_seq_def)
      define st3 where "st3 = (case le_send env n of None \<Rightarrow> ?st2\<lparr>voice_active := True\<rparr> | Some err \<Rightarrow> ?st2)"
      have f3: "audio_encoder st3 = Some (history @ [?g])" "pcm_in st3 = drop FRAME ?p" "mic_gain st3 = mic_gain st"
          "stream_seq w st3 = stream_seq w st + 1" "transmitted st3 fs = transmitted st1 fs" for fs
        using f1 by (cases w; simp add: st3_def take_seq_def stream_seq_def split: option.split)+
      have sf: "send_frames env w chs cls n st = (fst (send_frames env w chs cls (n + 1) st3),
          ?pk (stream_seq w st) opus # snd (send_frames env w chs cls (n + 1) st3))"
        by (subst send_frames.simps)
          (simp only: nf False if_False prod.case option.case Let_def st3_def [symmetric], simp only: split_def)
      have "gated_frames st ?p = ?g # gated_frames st3 (drop FRAME ?p)"
        using skip by (simp add: gated_frames_def z f3)
      then show ?thesis
        using "1.IH"(2) [OF False nf [symmetric] refl refl refl, folded st3_def, OF f3(1) "1.prems"(2)] drop f3 op
        by (simp add: sf)
    qed
  qed
qed

lemma outbox_fold_send_to [simp]:
  "outbox (fold (send_to cid) ms e) = outbox e @ map (Pair cid) ms"
  "SESSIONS (fold (send_to cid) ms e) = SESSIONS e"
  "EVENT_QUEUE (fold (send_to cid) ms e) = EVENT_QUEUE e"
  "cmd_rx (fold (send_to cid) ms e) = cmd_rx e"
  by (induction ms arbitrary: e) (simp_all add: send_to_def)

lemma session_fold_send_to [simp]: "session j (fold (send_to cid) ms e) = session j e"
  by (simp add: session_def)

lemma whisper_switch_frame [simp]:
  "audio_encoder (fst (whisper_switch st)) = audio_encoder st" "pcm_in (fst (whisper_switch st)) = pcm_in st"
  by (simp_all add: whisper_switch_def take_seq_def Let_def)

lemma stream_seq_pcm [simp]: "stream_seq w (st\<lparr>pcm_in := a\<rparr>) = stream_seq w st"
  by (simp add: stream_seq_def)

lemma gated_frames_pcm [simp]: "gated_frames (st\<lparr>pcm_in := a\<rparr>) pcm = gated_frames st pcm"
  by (simp add: gated_frames_def)



text \<open>The packet that ends a whisper goes to the targets of the moment: once the user has cleared
  the targets, it is addressed to nobody, so those who heard the whisper never learn that it ended.\<close>
theorem whisper_end_reaches_only_the_current_targets:
  assumes "whisper_was_active st" and "\<not> has_whisper_target st"
  shows "snd (whisper_switch st) = [OutWhisper (whisper_seq st) [] [] []]"
  using assms by (simp add: whisper_switch_def whisper_on_of_def take_seq_def voice_packet_def has_whisper_target_def)

theorem whisper_end_reaches_only_the_current_targets_witness:
  "snd (whisper_switch (ts_connection_new\<lparr>whisper_was_active := True\<rparr>)) = [OutWhisper 0 [] [] []]"
  using whisper_end_reaches_only_the_current_targets [of "ts_connection_new\<lparr>whisper_was_active := True\<rparr>"]
  by (simp add: has_whisper_target_def ts_connection_new_def)

end
