(* ===== verification/Base64.thy ===== *)
theory Base64
  imports Prelude
begin

unbundle bit_operations_syntax

text \<open>
  \<open>base64_decode_uid\<close> of \<open>native/src/api.rs\<close>: the hand-written decoder of client identifiers. The
  reference is the encoder of RFC 4648 (standard alphabet), written here by groups of three bytes;
  the round trip holds for padded and unpadded input.
\<close>

section \<open>The decoder\<close>

text \<open>
  The value of one input byte. The source walks over the bytes of the UTF-8 text; the bytes of a
  character beyond ASCII are all at least 128 and have no value, so walking over characters rejects
  the same inputs.
\<close>

definition b64_value :: "rchar \<Rightarrow> u8 option" where
  "b64_value c =
     (if 65 \<le> c \<and> c \<le> 90 then Some (of_int (c - 65))
      else if 97 \<le> c \<and> c \<le> 122 then Some (of_int (c - 97 + 26))
      else if 48 \<le> c \<and> c \<le> 57 then Some (of_int (c - 48 + 52))
      else if c = 43 then Some 62
      else if c = 47 then Some 63
      else None)"

fun b64_loop :: "rstr \<Rightarrow> u32 \<Rightarrow> u8 \<Rightarrow> u8 list \<Rightarrow> u8 list option" where
  "b64_loop [] buf bits out = Some out"
| "b64_loop (c # cs) buf bits out = (case b64_value c of
      None \<Rightarrow> None
    | Some v \<Rightarrow>
        let buf = (push_bit 6 buf) OR ucast v; bits = bits + 6 in
        if 8 \<le> bits
        then let bits = bits - 8 in
          b64_loop cs buf bits (out @ [ucast (drop_bit (unat bits) buf)])
        else b64_loop cs buf bits out)"

definition base64_decode_uid :: "rstr \<Rightarrow> u8 list option" where
  "base64_decode_uid input0 = (let input = trim_end_matches (\<lambda>c. c = 61) input0 in
     if input = [] then None
     else (case b64_loop input 0 0 [] of
        None \<Rightarrow> None
      | Some out \<Rightarrow> if out = [] then None else Some out))"

section \<open>The reference encoder\<close>

definition b64_char :: "u8 \<Rightarrow> rchar" where
  "b64_char v = (let n = uint v in
     if n < 26 then 65 + n else if n < 52 then 97 + (n - 26) else if n < 62 then 48 + (n - 52)
     else if n = 62 then 43 else 47)"

definition sextet1 :: "u8 \<Rightarrow> u8" where "sextet1 a = drop_bit 2 a"
definition sextet2 :: "u8 \<Rightarrow> u8 \<Rightarrow> u8" where "sextet2 a b = push_bit 4 (take_bit 2 a) OR drop_bit 4 b"
definition sextet3 :: "u8 \<Rightarrow> u8 \<Rightarrow> u8" where "sextet3 b c = push_bit 2 (take_bit 4 b) OR drop_bit 6 c"
definition sextet4 :: "u8 \<Rightarrow> u8" where "sextet4 c = take_bit 6 c"

fun b64_encode :: "u8 list \<Rightarrow> rstr" where
  "b64_encode (a # b # c # bs) = map b64_char [sextet1 a, sextet2 a b, sextet3 b c, sextet4 c] @ b64_encode bs"
| "b64_encode [a, b] = map b64_char [sextet1 a, sextet2 a b, sextet3 b 0]"
| "b64_encode [a] = map b64_char [sextet1 a, sextet2 a 0]"
| "b64_encode [] = []"

section \<open>The round trip\<close>

lemma b64_value_char_table: "list_all (\<lambda>n. b64_value (b64_char (word_of_nat n)) = Some (word_of_nat n)) [0..<64]"
  by code_simp

lemma b64_value_char:
  assumes "v < 64"
  shows "b64_value (b64_char v) = Some v"
proof -
  have "unat v < 64" using assms by (simp add: word_less_nat_alt)
  then have "unat v \<in> set [0..<64]" unfolding set_upt by simp
  then have "b64_value (b64_char (word_of_nat (unat v))) = Some (word_of_nat (unat v))"
    using b64_value_char_table unfolding list_all_iff by blast
  then show ?thesis by simp
qed

lemmas sextet_defs = sextet1_def sextet2_def sextet3_def sextet4_def

lemma all_less_8: "(\<forall>n<8. P n) \<longleftrightarrow> P 0 \<and> P 1 \<and> P 2 \<and> P 3 \<and> P 4 \<and> P 5 \<and> P 6 \<and> P (7::nat)"
  by (simp add: numeral_eq_Suc All_less_Suc) blast

lemma bit_u8_high: "8 \<le> n \<Longrightarrow> \<not> bit (w :: u8) n"
  using bit_imp_le_length [of w n] by auto

lemmas bit_eval = all_less_8 bit_simps bit_u8_high

lemma u8_eqI: "\<forall>n<8. bit (v :: u8) n = bit w n \<Longrightarrow> v = w"
  by (rule bit_word_eqI) simp

lemma less_64_iff: "(v :: u8) < 64 \<longleftrightarrow> take_bit 6 v = v"
  by (simp add: word_less_nat_alt word_unat_eq_iff unsigned_take_bit_eq take_bit_nat_eq_self_iff)

lemma sextets_small [simp]: "sextet1 a < 64" "sextet2 a b < 64" "sextet3 b c < 64" "sextet4 c < 64"
  unfolding less_64_iff sextet_defs
  by (rule u8_eqI, simp only: bit_simps o_def possible_bit_word, simp add: bit_eval flip: numeral_2_eq_2)+

text \<open>The shift register after two, three and four characters, with anything in its upper bits.\<close>

definition b64_shift :: "u32 \<Rightarrow> u8 \<Rightarrow> u32" where
  "b64_shift buf v = push_bit 6 buf OR ucast v"

lemma register_bytes:
  "ucast (drop_bit 4 (b64_shift (b64_shift buf (sextet1 a)) (sextet2 a b))) = a"
  "ucast (drop_bit 2 (b64_shift (b64_shift buf (sextet2 a b)) (sextet3 b c))) = b"
  "ucast (b64_shift (b64_shift buf (sextet3 b c)) (sextet4 c)) = c"
  unfolding sextet_defs b64_shift_def
  by (rule u8_eqI, simp only: bit_simps o_def possible_bit_word, simp add: bit_eval flip: numeral_2_eq_2)+

lemma b64_loop_2:
  assumes "u < 64" "v < 64"
  shows "b64_loop (b64_char u # b64_char v # cs) buf 0 out =
    b64_loop cs (b64_shift (b64_shift buf u) v) 4
      (out @ [ucast (drop_bit 4 (b64_shift (b64_shift buf u) v))])"
  using assms by (simp add: b64_value_char Let_def b64_shift_def)

lemma b64_loop_3:
  assumes "u < 64"
  shows "b64_loop (b64_char u # cs) buf 4 out =
    b64_loop cs (b64_shift buf u) 2 (out @ [ucast (drop_bit 2 (b64_shift buf u))])"
  using assms by (simp add: b64_value_char Let_def b64_shift_def)

lemma b64_loop_4:
  assumes "u < 64"
  shows "b64_loop (b64_char u # cs) buf 2 out =
    b64_loop cs (b64_shift buf u) 0 (out @ [ucast (b64_shift buf u)])"
  using assms by (simp add: b64_value_char Let_def b64_shift_def)

declare b64_loop.simps(2) [simp del]

lemma b64_loop_encode: "b64_loop (b64_encode bs) buf 0 out = Some (out @ bs)"
  by (induction bs arbitrary: buf out rule: b64_encode.induct)
    (simp_all add: b64_loop_2 b64_loop_3 b64_loop_4 register_bytes)

lemma b64_char_not_pad: "b64_char v \<noteq> 61"
proof -
  have "4 + uint v \<noteq> 0" using uint_nonnegative [of v] by linarith
  then show ?thesis by (simp add: b64_char_def Let_def)
qed

lemma b64_encode_no_pad: "61 \<notin> set (b64_encode bs)"
  by (induction bs rule: b64_encode.induct) (simp_all add: b64_char_not_pad [symmetric])

lemma trim_padding:
  assumes "61 \<notin> set s"
  shows "trim_end_matches (\<lambda>c. c = 61) (s @ replicate n 61) = s"
proof -
  have "dropWhile (\<lambda>c. c = 61) (replicate n 61 @ rev s) = rev s"
    using assms by (induction n) (auto simp: dropWhile_eq_self_iff hd_rev dest: last_in_set)
  then show ?thesis by (simp add: trim_end_matches_def)
qed

lemma b64_encode_Nil: "b64_encode bs = [] \<longleftrightarrow> bs = []"
  by (cases bs rule: b64_encode.cases) simp_all

text \<open>Decoding inverts the encoding of RFC 4648, whatever padding follows: the protocol receives
  the bytes the identifier stands for.\<close>

theorem base64_round_trip:
  assumes "bs \<noteq> []"
  shows "base64_decode_uid (b64_encode bs @ replicate n 61) = Some bs"
  using assms trim_padding [OF b64_encode_no_pad, of bs n] b64_loop_encode [of bs 0 "[]"]
  by (simp add: base64_decode_uid_def b64_encode_Nil)

theorem base64_round_trip_witness:
  "base64_decode_uid (b64_encode [104, 105, 33, 10] @ replicate 2 61) = Some [104, 105, 33, 10]"
  by (rule base64_round_trip) simp

lemma b64_loop_None: "b64_loop cs buf bits out = None \<longleftrightarrow> (\<exists>c\<in>set cs. b64_value c = None)"
  by (induction cs arbitrary: buf bits out) (auto simp: b64_loop.simps(2) Let_def split: option.splits)

text \<open>Anything that is not an alphabet character, other than trailing padding, is refused; so
  is the empty identifier.\<close>

theorem base64_refuses_foreign_characters:
  assumes "c \<in> set s" "b64_value c = None" "c \<noteq> 61"
  shows "base64_decode_uid s = None"
proof -
  obtain v where "s = trim_end_matches (\<lambda>c. c = 61) s @ v" "\<forall>c\<in>set v. c = 61"
    using trim_end_matches_prefix [of s "\<lambda>c. c = 61"] by blast
  with assms(1,3) have "c \<in> set (trim_end_matches (\<lambda>c. c = 61) s)" by (metis Un_iff set_append)
  with assms(2) have "b64_loop (trim_end_matches (\<lambda>c. c = 61) s) 0 0 [] = None"
    unfolding b64_loop_None by blast
  then show ?thesis by (simp add: base64_decode_uid_def Let_def)
qed

theorem base64_refuses_foreign_characters_witness:
  "base64_decode_uid (str ''not a uid'') = None"
  by (rule base64_refuses_foreign_characters [of 32]) (simp_all add: str_def b64_value_def)

end
