(* ===== verification/Dispatch.thy ===== *)
theory Dispatch
  imports Voice Lifecycle Base64
begin

text \<open>
  What the event loop of \<open>native/src/api.rs\<close> does with one command: the messages it builds, the events
  it pushes when the library refuses one, and the two commands that are not messages,
  \<open>Command::Disconnect\<close> and \<open>Command::SendAudio\<close>.
\<close>

section \<open>Messages\<close>

text \<open>A number of seconds as \<open>time::Duration::seconds(seconds as i64)\<close> reads it; zero is no duration.\<close>

definition ban_time :: "u64 \<Rightarrow> int option" where
  "ban_time seconds = (if 0 < seconds then Some (sint seconds) else None)"

definition text_target_of :: "u8 \<Rightarrow> u64 \<Rightarrow> text_target \<times> u16 option" where
  "text_target_of target_mode target_cid =
     (if target_mode = 1 then (TargetClient, Some (ucast target_cid))
      else if target_mode = 3 then (TargetServer, None)
      else (TargetChannel, None))"

text \<open>The messages of the commands, group by group; a command of another group has none.\<close>

definition session_message :: "command \<Rightarrow> out_message option" where
  "session_message c = (case c of
      SendMessage target_mode target_cid message \<Rightarrow>
        (case text_target_of target_mode target_cid of (target, client) \<Rightarrow>
           Some (OutSendTextMessage target client message))
    | MoveChannel client_id channel_id channel_password \<Rightarrow>
        Some (OutClientMove client_id channel_id channel_password)
    | SetMuted muted_in muted_out \<Rightarrow>
        Some (OutClientUpdate (no_update\<lparr>cu_input_muted := Some muted_in, cu_output_muted := Some muted_out\<rparr>))
    | SetAway away message \<Rightarrow>
        Some (OutClientUpdate (no_update\<lparr>cu_is_away := Some away,
          cu_away_message := Some (if away then unwrap_or message [] else [])\<rparr>))
    | SetNickname name \<Rightarrow> Some (OutClientUpdate (no_update\<lparr>cu_name := Some name\<rparr>))
    | SetChannelCommander enabled \<Rightarrow>
        Some (OutClientUpdate (no_update\<lparr>cu_is_channel_commander := Some enabled\<rparr>))
    | _ \<Rightarrow> None)"

text \<open>Commands about other clients, bans and subscriptions.\<close>

definition server_message :: "command \<Rightarrow> out_message option" where
  "server_message c = (case c of
      KickClient client_id from_server reason \<Rightarrow>
        Some (OutClientKick client_id (if from_server then KickServer else KickChannel) reason)
    | BanClient client_id seconds reason \<Rightarrow> Some (OutBanClient client_id (ban_time seconds) reason)
    | BanUid uid seconds reason \<Rightarrow>
        Some (OutBanAdd None None (base64_decode_uid uid) (ban_time seconds) reason)
    | BanAddress ip name seconds reason \<Rightarrow>
        Some (OutBanAdd (Option.bind ip parse_ip) name None (ban_time seconds) reason)
    | BanDelete ban_id \<Rightarrow> Some (OutBanDel ban_id)
    | ListBans \<Rightarrow> Some OutBanListRequest
    | SubscribeChannel channel_id unsubscribe \<Rightarrow>
        Some (if unsubscribe then OutChannelUnsubscribe channel_id else OutChannelSubscribe channel_id)
    | ChannelDescription channel_id \<Rightarrow> Some (OutChannelDescriptionRequest channel_id)
    | AddClientToGroup db_id group_id \<Rightarrow> Some (OutServerGroupAddClient group_id db_id)
    | RemoveClientFromGroup db_id group_id \<Rightarrow> Some (OutServerGroupDelClient group_id db_id)
    | ComplainAdd db_id message \<Rightarrow> Some (OutComplainAdd db_id message)
    | SetTalker client_id talk_power_granted \<Rightarrow> Some (OutClientEdit client_id talk_power_granted)
    | PokeClient client_id message \<Rightarrow> Some (OutClientPoke client_id message)
    | _ \<Rightarrow> None)"

text \<open>Commands for files of a channel and permission keys.\<close>

definition file_message :: "command \<Rightarrow> out_message option" where
  "file_message c = (case c of
      DownloadFile transfer_id channel_id channel_password remote_path \<Rightarrow>
        Some (OutInitDownload transfer_id remote_path channel_id channel_password 0 0)
    | UploadFile transfer_id channel_id channel_password remote_path source_path sz overwrite \<Rightarrow>
        Some (OutUploadFile channel_id remote_path (if channel_password = [] then None else Some channel_password)
          sz overwrite False)
    | RequestFileList request_id channel_id channel_password path \<Rightarrow>
        Some (OutFileListRequest channel_id channel_password path)
    | DeleteFile channel_id channel_password path \<Rightarrow> Some (OutDeleteFile channel_id channel_password path)
    | CreateDirectory channel_id channel_password path \<Rightarrow>
        Some (OutCreateDirectory channel_id channel_password path)
    | RenameFile channel_id channel_password target_channel_id target_channel_password old_name new_name \<Rightarrow>
        Some (OutRenameFile channel_id channel_password target_channel_id target_channel_password old_name new_name)
    | FileInfoRequest request_id channel_id channel_password name \<Rightarrow>
        Some (OutFileInfoRequest channel_id channel_password name)
    | UseToken token \<Rightarrow> Some (OutPrivilegeKeyUse token)
    | _ \<Rightarrow> None)"

text \<open>Commands for channels.\<close>

definition channel_message :: "command \<Rightarrow> out_message option" where
  "channel_message c = (case c of
      CreateChannel parent_id name topic description password max_cl permanent semi_permanent \<Rightarrow>
        Some (OutChannelCreate (if parent_id \<noteq> 0 then Some parent_id else None) name topic description password
          max_cl (password \<noteq> None) permanent semi_permanent)
    | EditChannel channel_id name topic description password has_password max_cl permanent semi_permanent \<Rightarrow>
        Some (OutChannelEdit channel_id name topic has_password password permanent semi_permanent max_cl description)
    | DeleteChannel channel_id force \<Rightarrow> Some (OutChannelDelete channel_id force)
    | MoveChannelTree channel_id parent_id order \<Rightarrow> Some (OutChannelMove channel_id parent_id order)
    | _ \<Rightarrow> None)"

text \<open>The commands handled otherwise have no message.\<close>

definition message_of :: "command \<Rightarrow> out_message option" where
  "message_of c = (case session_message c of
      Some m \<Rightarrow> Some m
    | None \<Rightarrow> (case server_message c of
          Some m \<Rightarrow> Some m
        | None \<Rightarrow> (case file_message c of Some m \<Rightarrow> Some m | None \<Rightarrow> channel_message c)))"

lemmas message_of_defs = message_of_def session_message_def server_message_def file_message_def channel_message_def

text \<open>The event pushed when the library refuses to send a command's message, if there is one.\<close>

definition failure_event :: "command \<Rightarrow> rstr \<Rightarrow> ts_event option" where
  "failure_event c error = (case c of
      SendMessage target_mode target_cid message \<Rightarrow>
        Some (EvError (str ''Failed to send text message: '' @ error))
    | UploadFile transfer_id channel_id channel_password remote_path source_path sz overwrite \<Rightarrow>
        Some (EvFileTransfer (ucast transfer_id) remote_path [] 0 False (Some (str ''refused'')))
    | RequestFileList request_id channel_id channel_password path \<Rightarrow>
        Some (EvServerFileList request_id (ucast channel_id) [] False
          (Some (str ''list request failed: '' @ error)) [])
    | FileInfoRequest request_id channel_id channel_password name \<Rightarrow>
        Some (EvServerFileInfo request_id (ucast channel_id) [] [] 0 0 False)
    | UseToken token \<Rightarrow> Some (EvError (str ''Failed to use permission key''))
    | _ \<Rightarrow> None)"

section \<open>One command\<close>

definition push_opt :: "connection_id \<Rightarrow> ts_event option \<Rightarrow> engine \<Rightarrow> engine" where
  "push_opt cid ev e = (case ev of None \<Rightarrow> e | Some ev \<Rightarrow> push_event cid ev e)"

definition register_upload :: "connection_id \<Rightarrow> command \<Rightarrow> u16 \<Rightarrow> engine \<Rightarrow> engine" where
  "register_upload cid c handle e = (case c of
      UploadFile transfer_id channel_id channel_password remote_path source_path sz overwrite \<Rightarrow>
        upd_session cid (\<lambda>s. s\<lparr>upload_jobs := (upload_jobs s)(handle \<mapsto> \<lparr>uj_transfer_id = transfer_id,
          uj_source_path = source_path, uj_remote_path = remote_path\<rparr>)\<rparr>) e
    | _ \<Rightarrow> e)"

definition is_upload :: "command \<Rightarrow> bool" where
  "is_upload c = (case c of UploadFile _ _ _ _ _ _ _ \<Rightarrow> True | _ \<Rightarrow> False)"

text \<open>Handing a message to the library: the number of the send is the length of the outbox.\<close>

definition send_command :: "lib_env \<Rightarrow> connection_id \<Rightarrow> command \<Rightarrow> out_message \<Rightarrow> engine \<Rightarrow> engine" where
  "send_command env cid c msg e =
     (let n = length (outbox e); e = send_to cid msg e in
       if is_upload c then
         (case le_upload env n of
            Inr handle \<Rightarrow> register_upload cid c handle e
          | Inl error \<Rightarrow> push_opt cid (failure_event c error) e)
       else
         (case le_send env n of
            None \<Rightarrow> e
          | Some error \<Rightarrow> push_opt cid (failure_event c error) e))"

text \<open>The flag tells whether the loop goes on with the next command.\<close>

definition dispatch :: "lib_env \<Rightarrow> connection_id \<Rightarrow> command \<Rightarrow> engine \<Rightarrow> engine \<times> bool" where
  "dispatch env cid c e = (case session cid e of
      None \<Rightarrow> (e, False)
    | Some st \<Rightarrow>
        (case c of
           Disconnect \<Rightarrow> (finalize_disconnect cid (str ''User disconnected'') True
             (send_to cid OutDisconnect e), False)
         | SendAudio samples \<Rightarrow> (send_audio_command env cid samples e, True)
         | _ \<Rightarrow> (case message_of c of
               None \<Rightarrow> (e, True)
             | Some msg \<Rightarrow> (send_command env cid c msg e, True))))"

fun dispatch_all :: "lib_env \<Rightarrow> connection_id \<Rightarrow> command list \<Rightarrow> engine \<Rightarrow> engine \<times> bool" where
  "dispatch_all env cid [] e = (e, True)"
| "dispatch_all env cid (c # cs) e = (case dispatch env cid c e of
      (e, True) \<Rightarrow> dispatch_all env cid cs e
    | (e, False) \<Rightarrow> (e, False))"

section \<open>Lemmas\<close>

lemma push_opt_frame [simp]:
  "SESSIONS (push_opt cid ev e) = SESSIONS e" "outbox (push_opt cid ev e) = outbox e"
  "cmd_rx (push_opt cid ev e) = cmd_rx e" "session j (push_opt cid ev e) = session j e"
  "EVENT_QUEUE (push_opt cid ev e) = EVENT_QUEUE e
     @ (case ev of None \<Rightarrow> [] | Some ev \<Rightarrow> [\<lparr>ev_connection_id = cid, ev_event = ev\<rparr>])"
  by (auto simp: push_opt_def push_event_def session_def split: option.split)

lemma register_upload_frame [simp]:
  "session j (register_upload cid c h e) = session j e" "outbox (register_upload cid c h e) = outbox e"
  "cmd_rx (register_upload cid c h e) = cmd_rx e" "EVENT_QUEUE (register_upload cid c h e) = EVENT_QUEUE e"
  by (cases c; simp add: register_upload_def)+

lemma session_send_to [simp]: "session j (send_to cid m e) = session j e"
  by (simp add: session_def)

lemma cmd_rx_send_to [simp]: "cmd_rx (send_to cid m e) = cmd_rx e"
  by (simp add: send_to_def)

lemma send_command_frame [simp]:
  "session j (send_command env cid c msg e) = session j e"
  "outbox (send_command env cid c msg e) = outbox e @ [(cid, msg)]"
  "cmd_rx (send_command env cid c msg e) = cmd_rx e"
  by (simp_all add: send_command_def Let_def split: option.split sum.split)

lemma dispatch_message:
  assumes "session cid e = Some st" and "message_of c = Some msg"
  shows "dispatch env cid c e = (send_command env cid c msg e, True)"
  using assms by (cases c) (simp_all add: dispatch_def message_of_defs)

text \<open>The error of the send with number \<open>n\<close>, for the kind of call the command makes.\<close>

definition refusal :: "lib_env \<Rightarrow> nat \<Rightarrow> command \<Rightarrow> rstr option" where
  "refusal env n c = (if is_upload c
     then (case le_upload env n of Inl error \<Rightarrow> Some error | Inr handle \<Rightarrow> None) else le_send env n)"

lemma send_command_events:
  "EVENT_QUEUE (send_command env cid c msg e) = EVENT_QUEUE e
    @ (case Option.bind (refusal env (length (outbox e)) c) (failure_event c) of
        None \<Rightarrow> [] | Some ev \<Rightarrow> [\<lparr>ev_connection_id = cid, ev_event = ev\<rparr>])"
  by (simp add: send_command_def refusal_def Let_def split: option.split sum.split)

lemma dispatch_batch:
  assumes "session cid e \<noteq> None" and "\<forall>c\<in>set cs. message_of c \<noteq> None"
  shows "snd (dispatch_all env cid cs e)
    \<and> outbox (fst (dispatch_all env cid cs e)) = outbox e @ map (\<lambda>c. (cid, the (message_of c))) cs
    \<and> EVENT_QUEUE (fst (dispatch_all env cid cs e)) = EVENT_QUEUE e
        @ map (\<lambda>ev. \<lparr>ev_connection_id = cid, ev_event = ev\<rparr>) (List.map_filter
            (\<lambda>(n, c). Option.bind (refusal env n c) (failure_event c)) (enumerate (length (outbox e)) cs))"
  using assms
proof (induction cs arbitrary: e)
  case Nil
  then show ?case by (simp add: List.map_filter_simps)
next
  case (Cons c cs)
  obtain st where st: "session cid e = Some st" using Cons.prems(1) by blast
  obtain msg where msg: "message_of c = Some msg" using Cons.prems(2) by auto
  let ?e = "send_command env cid c msg e"
  have "session cid ?e \<noteq> None" "\<forall>c\<in>set cs. message_of c \<noteq> None" using st Cons.prems(2) by simp_all
  from Cons.IH [OF this] show ?case
    by (simp add: dispatch_message [OF st msg] msg send_command_events List.map_filter_simps split: option.split)
qed

text \<open>A batch of message commands on a live session reaches the library completely and in order,
  one message per command, whatever the library refuses; the events it leaves are exactly the failure
  notices of the refused commands, in order.\<close>
theorem batch_is_sent_in_order:
  assumes "session cid e \<noteq> None" and "\<forall>c\<in>set cs. message_of c \<noteq> None"
  shows "snd (dispatch_all env cid cs e)
    \<and> outbox (fst (dispatch_all env cid cs e)) = outbox e @ map (\<lambda>c. (cid, the (message_of c))) cs
    \<and> EVENT_QUEUE (fst (dispatch_all env cid cs e)) = EVENT_QUEUE e
        @ map (\<lambda>ev. \<lparr>ev_connection_id = cid, ev_event = ev\<rparr>) (List.map_filter
            (\<lambda>(n, c). Option.bind (refusal env n c) (failure_event c)) (enumerate (length (outbox e)) cs))"
  by (rule dispatch_batch [OF assms])

theorem batch_is_sent_in_order_witness:
  "outbox (fst (dispatch_all \<lparr>le_encode = \<lambda>h f. None, le_send = \<lambda>n. None, le_upload = \<lambda>n. Inr 0\<rparr> 1
     [ListBans, BanDelete 3] ((engine_new 1)\<lparr>SESSIONS := [(1, session_new 0 1 ts_connection_new)]\<rparr>)))
   = [(1, OutBanListRequest), (1, OutBanDel 3)]"
proof -
  let ?e = "(engine_new 1)\<lparr>SESSIONS := [(1, session_new 0 1 ts_connection_new)]\<rparr>"
  have "session 1 ?e \<noteq> None" "\<forall>c\<in>set [ListBans, BanDelete 3]. message_of c \<noteq> None"
    by (simp_all add: session_def message_of_defs)
  from batch_is_sent_in_order [OF this] show ?thesis by (simp add: message_of_defs engine_new_def)
qed

lemma sint_u64: "sint (d :: u64) = (if uint d < 2 ^ 63 then uint d else uint d - 2 ^ 64)"
proof -
  have u: "0 \<le> uint d" "uint d < 2 ^ 64" using uint_lt2p [of d] by simp_all
  have "sint d = (uint d + 2 ^ 63) mod 2 ^ 64 - 2 ^ 63"
    unfolding sint_uint signed_take_bit_eq_take_bit_shift take_bit_eq_mod by simp
  also have "(uint d + 2 ^ 63) mod 2 ^ 64 = (if uint d < 2 ^ 63 then uint d + 2 ^ 63 else uint d - 2 ^ 63)"
  proof (cases "uint d < 2 ^ 63")
    case False
    have "(uint d + 2 ^ 63) mod 2 ^ 64 = (uint d - 2 ^ 63 + 2 ^ 64) mod 2 ^ 64"
      by (rule arg_cong [of _ _ "\<lambda>x. x mod 2 ^ 64"]) simp
    also have "\<dots> = (uint d - 2 ^ 63) mod 2 ^ 64" by (rule mod_add_self2)
    finally show ?thesis using False u by simp
  qed (use u in simp)
  finally show ?thesis by simp
qed

lemma ban_time_negative: "(\<exists>t<0. ban_time seconds = Some t) \<longleftrightarrow> 2 ^ 63 \<le> uint seconds"
proof -
  have "uint seconds < 2 ^ 64" using uint_lt2p [of seconds] by simp
  moreover have "2 ^ 63 \<le> uint seconds \<Longrightarrow> 0 < seconds" by (simp add: word_less_alt)
  ultimately show ?thesis by (auto simp: ban_time_def sint_u64)
qed

text \<open>A ban by identity is accepted for any text, but it has a target only when the identity
  decodes: otherwise the rule that goes out names no address, no name and no identity. And a ban of
  \<open>2 ^ 63\<close> seconds or more goes out with a negative duration.\<close>
theorem ban_by_identity_on_the_wire:
  assumes "text_arg uid = Some u"
  shows "\<exists>c. request_command (ReqBanUid uid seconds reason) st = Some c
    \<and> (\<exists>uid' t r. message_of c = Some (OutBanAdd None None uid' t r)
        \<and> (uid' = None \<longleftrightarrow> base64_decode_uid u = None)
        \<and> (t = None \<longleftrightarrow> seconds = 0)
        \<and> ((\<exists>d<0. t = Some d) \<longleftrightarrow> 2 ^ 63 \<le> uint seconds))"
  using assms ban_time_negative [of seconds]
  by (auto simp: message_of_defs ban_time_def word_greater_zero_iff)

theorem ban_by_identity_on_the_wire_witness:
  "\<exists>c t r. request_command (ReqBanUid (Some (str ''!'')) 5 None) st = Some c
     \<and> message_of c = Some (OutBanAdd None None None t r)"
proof -
  have t: "text_arg (Some (str ''!'')) = Some (str ''!'')" and d: "base64_decode_uid (str ''!'') = None"
    by code_simp+
  from ban_by_identity_on_the_wire [OF t, of 5 None st] d show ?thesis by blast
qed

end
