(* ===== verification/Jitter.thy ===== *)
theory Jitter
  imports Lifecycle Sqrt
begin

text \<open>
  Incoming audio in \<open>native/src/api.rs\<close>: unwrapping packet numbers, the jitter buffer of each speaker
  (written by \<open>decode_to_client_buffer\<close>, read by the output callback of \<open>build_output_stream\<close>) and the
  periodic clean-up. The Opus decoder is a library: \<open>mono_decode\<close> and \<open>stereo_decode\<close> map the packets a
  decoder has seen and the new packet to its result. Diagnostic counters of the callback are left
  out.
\<close>

section \<open>Packet numbers\<close>

definition unwrap_seq :: "u16 \<Rightarrow> u16 \<Rightarrow> u32" where
  "unwrap_seq seq base =
     (let base_u32 = ucast base; delta = (scast (seq - base) :: i32) in
       if 0 \<le>s delta then base_u32 + delta
       else if - 32768 <s delta then base_u32 + (65536 + delta)
       else base_u32 + delta)"

text \<open>One line for the three cases: the forward distance modulo \<open>2 ^ 16\<close>, except at half the range.\<close>

lemma sint_u16: "sint (d :: u16) = (if uint d < 32768 then uint d else uint d - 65536)"
proof -
  have u: "0 \<le> uint d" "uint d < 65536" using uint_lt2p [of d] by simp_all
  have "sint d = (uint d + 32768) mod 65536 - 32768"
    unfolding sint_uint signed_take_bit_eq_take_bit_shift take_bit_eq_mod by simp
  also have "(uint d + 32768) mod 65536 = (if uint d < 32768 then uint d + 32768 else uint d - 32768)"
  proof (cases "uint d < 32768")
    case False
    have "(uint d + 32768) mod 65536 = (uint d - 32768 + 65536) mod 65536"
      by (rule arg_cong [of _ _ "\<lambda>x. x mod 65536"]) simp
    also have "\<dots> = (uint d - 32768) mod 65536" by (rule mod_add_self2)
    finally show ?thesis using False u by simp
  qed (use u in simp)
  finally show ?thesis by simp
qed

lemma sint_scast_u16: "sint (scast (d :: u16) :: i32) = sint d"
proof -
  have "- 32768 \<le> sint d" "sint d < 32768"
    using uint_lt2p [of d] by (simp_all add: sint_u16 order_trans [of "- 32768" 0 "uint d"])
  then have "signed_take_bit 31 (sint d) = sint d" by (intro signed_take_bit_int_eq_self) simp_all
  then show ?thesis by (simp add: signed_scast_eq)
qed

text \<open>Unwrapping adds to the base the distance from the base to the packet, counted forwards
  modulo 65536, also for a packet that is older than the base: one that is a single frame late
  comes out 65535 frames ahead. Only a packet exactly 32768 away comes out below the base.\<close>

theorem unwrap_seq_counts_forward:
  "unwrap_seq seq base = (if seq - base = 32768 then ucast base - 32768 else ucast base + ucast (seq - base))"
proof -
  define d where "d = seq - base"
  define s where "s = (scast d :: i32)"
  have d: "0 \<le> uint d" "uint d < 65536" using uint_lt2p [of d] by simp_all
  have si: "sint s = (if uint d < 32768 then uint d else uint d - 65536)"
    unfolding s_def sint_scast_u16 by (rule sint_u16)
  have w: "word_of_int (if uint d < 32768 then uint d else uint d - 65536) = s"
    unfolding si [symmetric] by simp
  have e: "d = 32768 \<longleftrightarrow> uint d = 32768" by (simp add: word_uint_eq_iff)
  have def: "unwrap_seq seq base = (if 0 \<le> sint s then ucast base + s
      else if - 32768 < sint s then ucast base + (65536 + s) else ucast base + s)"
    by (simp add: unwrap_seq_def Let_def s_def d_def word_sle_eq word_sless_alt)
  consider "uint d < 32768" | "uint d = 32768" | "32768 < uint d" by linarith
  then show ?thesis
  proof cases
    case 1
    then have "s = ucast d" using w by simp
    then show ?thesis unfolding def d_def [symmetric] e using 1 d(1) si by simp
  next
    case 2
    then have "s = - 32768" using w by simp
    then show ?thesis unfolding def d_def [symmetric] e using 2 si by simp
  next
    case 3
    then have "65536 + s = ucast d" using w by (simp add: algebra_simps)
    then show ?thesis unfolding def d_def [symmetric] e using 3 si d by simp
  qed
qed

section \<open>The buffer\<close>

definition BASE_DELAY_FRAMES :: u64 where "BASE_DELAY_FRAMES = 2"
definition JITTER_TO_FRAMES_DIVISOR :: u64 where "JITTER_TO_FRAMES_DIVISOR = 20"
definition MAX_DELAY_FRAMES :: u64 where "MAX_DELAY_FRAMES = 8"
definition FRAME_SIZE :: u64 where "FRAME_SIZE = 960"

definition adaptive_delay_frames :: "connection_id \<Rightarrow> engine \<Rightarrow> u64" where
  "adaptive_delay_frames cid e =
     (let jitter = (case session cid e of None \<Rightarrow> 0 | Some st \<Rightarrow> jitter_ms st);
          extra = jitter div JITTER_TO_FRAMES_DIVISOR
      in min (BASE_DELAY_FRAMES + extra) MAX_DELAY_FRAMES)"

text \<open>The frames in the slots, which go back to the pool when the slots are cleared.\<close>

definition buffered_frames :: "jitter_buffer \<Rightarrow> frame list" where
  "buffered_frames b = List.map_filter (\<lambda>s. s) (slots b)"

text \<open>The first packet fixes the base, at once or when the base is still 0.\<close>

definition jitter_init :: "u64 \<Rightarrow> u64 \<Rightarrow> u16 \<Rightarrow> jitter_buffer \<Rightarrow> jitter_buffer" where
  "jitter_init current_slot delay seq b = (if base_seq b = 0
     then b\<lparr>base_seq := unwrap_seq seq 0, base_slot := current_slot + delay\<rparr> else b)"

definition jitter_stale :: "u32 \<Rightarrow> u32 \<Rightarrow> bool" where
  "jitter_stale global_seq write_seq_before \<longleftrightarrow> write_seq_before \<noteq> 0
     \<and> min (global_seq - write_seq_before) (write_seq_before - global_seq) > 1000"

text \<open>When the reader has run past the packet's play position, the mapping starts anew.\<close>

definition jitter_rebase :: "u64 \<Rightarrow> u64 \<Rightarrow> u32 \<Rightarrow> jitter_buffer \<Rightarrow> jitter_buffer" where
  "jitter_rebase current_slot delay global_seq b =
     (let reader_expected = current_slot - base_slot b + ucast (base_seq b) in
       if write_seq b \<noteq> 0 \<and> global_seq > write_seq b \<and> ucast global_seq < reader_expected
       then b\<lparr>base_seq := global_seq, base_slot := current_slot + delay,
         slots := replicate 32 None, frame_pool := frame_pool b @ buffered_frames b\<rparr>
       else b)"

text \<open>Storing a frame: evict what is in its slot, take a frame buffer from the pool or a new one, copy.\<close>

definition slot_index :: "u32 \<Rightarrow> jitter_buffer \<Rightarrow> nat" where
  "slot_index global_seq b = unat (global_seq - base_seq b) mod 32"

definition jitter_store :: "instant \<Rightarrow> u32 \<Rightarrow> frame \<Rightarrow> jitter_buffer \<Rightarrow> jitter_buffer" where
  "jitter_store now global_seq fr b =
     (let i = slot_index global_seq b;
          pool = (case slots b ! i of None \<Rightarrow> frame_pool b | Some old \<Rightarrow> frame_pool b @ [old])
      in b\<lparr>slots := (slots b)[i := Some fr], frame_pool := tl pool, write_seq := global_seq,
           last_packet := Some now\<rparr>)"

definition jitter_write ::
  "instant \<Rightarrow> u64 \<Rightarrow> u64 \<Rightarrow> u16 \<Rightarrow> frame \<Rightarrow> jitter_buffer \<Rightarrow> jitter_buffer \<times> bool" where
  "jitter_write now current_slot delay seq fr b0 =
     (let b = jitter_init current_slot delay seq b0;
          global_seq = unwrap_seq seq (ucast (base_seq b))
      in if jitter_stale global_seq (write_seq b) then (b, False)
         else (jitter_store now global_seq fr (jitter_rebase current_slot delay global_seq b), True))"

section \<open>Decoding\<close>

datatype in_audio = S2C u16 u16 "u8 list" | S2CWhisper u16 u16 "u8 list" | OtherAudio
  \<comment> \<open>packet id, sender, Opus data\<close>

record opus_decoder =
  mono_decode :: "u8 list list \<Rightarrow> u8 list \<Rightarrow> bool \<times> f32 list"
    \<comment> \<open>success, and the content of the 960-sample output\<close>
  stereo_decode :: "u8 list list \<Rightarrow> u8 list \<Rightarrow> (nat \<times> f32 list) option"
    \<comment> \<open>samples per channel and the content of the 1920-sample output\<close>

text \<open>\<open>x as i16\<close>: truncation, saturating, 0 for NaN.\<close>

definition f32_as_i16 :: "f32 \<Rightarrow> i16" where
  "f32_as_i16 x = (case x of
      Fin q \<Rightarrow> word_of_int (max (- 32768) (min 32767 (if 0 \<le> q then \<lfloor>q\<rfloor> else \<lceil>q\<rceil>)))
    | PInf \<Rightarrow> 32767
    | NInf \<Rightarrow> - 32768
    | NaN \<Rightarrow> 0)"

definition to_sample :: "f32 \<Rightarrow> i16" where
  "to_sample s = f32_as_i16 (fclamp (Fin (- 32768)) (Fin 32767)
     (fmul (fclamp (Fin (- 1)) (Fin 1) s) (Fin 32767)))"

text \<open>The first \<open>n\<close> samples are the mean of the channels, the rest stay what the mono decoder left.\<close>

definition downmix :: "nat \<Rightarrow> f32 list \<Rightarrow> f32 list \<Rightarrow> f32 list" where
  "downmix n stereo pcm = map (\<lambda>i. if i < n
     then fmul (fadd (stereo ! (i * 2)) (stereo ! (i * 2 + 1))) (Fin (1/2)) else pcm ! i) [0..<length pcm]"

text \<open>The decoder of a speaker, created on first use; the packet becomes part of its history.\<close>

definition decode_packet ::
  "opus_decoder \<Rightarrow> audio_key \<Rightarrow> u8 list \<Rightarrow> engine \<Rightarrow> engine \<times> f32 list option" where
  "decode_packet dec key data e =
     (let history = unwrap_or (tget (AUDIO_DECODERS e) key) [];
          e = e\<lparr>AUDIO_DECODERS := tput key (history @ [data]) (AUDIO_DECODERS e)\<rparr>
      in (case mono_decode dec history data of
            (True, pcm) \<Rightarrow> (e, Some pcm)
          | (False, pcm) \<Rightarrow>
              let history = unwrap_or (tget (AUDIO_DECODERS_STEREO e) key) [];
                  e = e\<lparr>AUDIO_DECODERS_STEREO := tput key (history @ [data]) (AUDIO_DECODERS_STEREO e)\<rparr>
              in (case stereo_decode dec history data of
                    Some (decoded, stereo) \<Rightarrow> (e, Some (downmix (min decoded 960) stereo pcm))
                  | None \<Rightarrow> (e, None))))"

text \<open>A new buffer inherits the stored volume of the speaker's user.\<close>

definition new_buffer :: "(f32 \<Rightarrow> f32 \<Rightarrow> f32) \<Rightarrow> audio_key \<Rightarrow> engine \<Rightarrow> jitter_buffer" where
  "new_buffer powf key e =
     (case Option.bind (Option.bind (session (fst key) e) (\<lambda>st. find_uid st (snd key))) (CLIENT_VOLUMES e) of
        None \<Rightarrow> jitter_new
      | Some db \<Rightarrow> jitter_new\<lparr>volume := db_to_gain powf db\<rparr>)"

definition accept_frame ::
  "(f32 \<Rightarrow> f32 \<Rightarrow> f32) \<Rightarrow> instant \<Rightarrow> connection_id \<Rightarrow> u16 \<Rightarrow> u16 \<Rightarrow> frame \<Rightarrow> bool \<Rightarrow> engine \<Rightarrow> engine" where
  "accept_frame powf now cid from_id seq fr is_whisper e =
     (let key = (cid, from_id);
          buf = (case tget (CLIENT_BUFFERS e) key of Some b \<Rightarrow> b | None \<Rightarrow> new_buffer powf key e);
          current_slot = PLAYED_SAMPLES e div FRAME_SIZE
      in (case jitter_write now current_slot (adaptive_delay_frames cid e) seq fr buf of
            (buf, accepted) \<Rightarrow>
              let e = e\<lparr>CLIENT_BUFFERS := tput key buf (CLIENT_BUFFERS e)\<rparr> in
              if \<not> accepted then e
              else upd_state cid (\<lambda>st. st\<lparr>talking_clients := tput from_id now (talking_clients st),
                whispering_clients := (if is_whisper then tput from_id now (whispering_clients st)
                  else whispering_clients st)\<rparr>) e))"

definition decode_to_client_buffer ::
  "opus_decoder \<Rightarrow> (f32 \<Rightarrow> f32 \<Rightarrow> f32) \<Rightarrow> instant \<Rightarrow> connection_id \<Rightarrow> in_audio \<Rightarrow> engine \<Rightarrow> engine" where
  "decode_to_client_buffer dec powf now cid pkt e =
     (case (case pkt of S2C seq from_id data \<Rightarrow> Some (seq, from_id, data, False)
            | S2CWhisper seq from_id data \<Rightarrow> Some (seq, from_id, data, True) | OtherAudio \<Rightarrow> None) of
        None \<Rightarrow> e
      | Some (seq, from_id, data, is_whisper) \<Rightarrow>
          (case (if is_whisper then whisper_is_allowed cid from_id e else (e, True)) of
             (e, False) \<Rightarrow> e
           | (e, True) \<Rightarrow> (case decode_packet dec (cid, from_id) data e of
                 (e, None) \<Rightarrow> e
               | (e, Some pcm) \<Rightarrow>
                   accept_frame powf now cid from_id seq (map to_sample pcm) is_whisper e)))"

section \<open>Reading\<close>

text \<open>What the callback takes from one buffer for the logical frame \<open>slot\<close>.\<close>

definition jitter_read :: "u64 \<Rightarrow> jitter_buffer \<Rightarrow> jitter_buffer \<times> frame option" where
  "jitter_read slot b =
     (if base_seq b = 0 then (b, None)
      else let expected_seq = slot - base_slot b + ucast (base_seq b) in
        if expected_seq \<le> ucast (write_seq b)
        then let idx = unat (expected_seq - ucast (base_seq b)) mod 32 in
          (case slots b ! idx of
             None \<Rightarrow> (b, None)
           | Some fr \<Rightarrow> (b\<lparr>slots := (slots b)[idx := None], frame_pool := frame_pool b @ [fr]\<rparr>, Some fr))
        else (b, None))"

section \<open>Properties of the buffer\<close>

text \<open>The shape of a buffer: always 32 slots.\<close>

definition jitter_ok :: "jitter_buffer \<Rightarrow> bool" where
  "jitter_ok b \<longleftrightarrow> length (slots b) = 32"

lemma jitter_ok_new [simp]: "jitter_ok jitter_new"
  by (simp add: jitter_ok_def jitter_new_def)

lemma jitter_init_frame [simp]: "slots (jitter_init cs d seq b) = slots b" "write_seq (jitter_init cs d seq b) = write_seq b"
  by (simp_all add: jitter_init_def)

lemma jitter_ok_rebase: "jitter_ok b \<Longrightarrow> jitter_ok (jitter_rebase cs d g b)"
  by (simp add: jitter_ok_def jitter_rebase_def Let_def)

lemma jitter_ok_write: "jitter_ok b \<Longrightarrow> jitter_ok (fst (jitter_write now cs d seq fr b))"
  using jitter_ok_rebase [of "jitter_init cs d seq b"]
  by (auto simp: jitter_write_def Let_def jitter_store_def jitter_ok_def)

lemma jitter_ok_read: "jitter_ok b \<Longrightarrow> jitter_ok (fst (jitter_read slot b))"
  by (auto simp: jitter_read_def jitter_ok_def Let_def split: option.split)

lemma jitter_write_accepted:
  assumes "jitter_write now cs d seq fr b = (b', True)"
  obtains b1 where "b' = jitter_store now (write_seq b') fr b1" "jitter_ok b \<Longrightarrow> jitter_ok b1"
    "base_seq b' = base_seq b1" "base_slot b' = base_slot b1"
proof -
  let ?b = "jitter_init cs d seq b"
  let ?g = "unwrap_seq seq (ucast (base_seq ?b))"
  let ?r = "jitter_rebase cs d ?g ?b"
  have e: "b' = jitter_store now ?g fr ?r"
    using assms by (simp add: jitter_write_def Let_def split: if_splits)
  show ?thesis
  proof (rule that [of ?r])
    show "b' = jitter_store now (write_seq b') fr ?r" by (simp add: e jitter_store_def Let_def)
    show "jitter_ok ?r" if "jitter_ok b"
      using that by (intro jitter_ok_rebase) (simp add: jitter_ok_def)
  qed (simp_all add: e jitter_store_def Let_def)
qed

lemma unat_u32_less: "unat (w :: u32) < 4294967296"
proof -
  have "unat w < 2 ^ LENGTH(32)" by (rule unsigned_less)
  then show ?thesis by simp
qed

lemma unat_ucast_u32 [simp]: "unat (ucast (w :: u32) :: u64) = unat w"
proof -
  have "unat w < 2 ^ 64" using unat_u32_less [of w] by simp
  then show ?thesis by (simp add: unsigned_ucast_eq take_bit_nat_eq_self)
qed

lemma jitter_store_slots: "slots (jitter_store now g fr b) = (slots b)[slot_index g b := Some fr]"
  by (simp add: jitter_store_def Let_def)

lemma accepted_frame_is_played_once_facts:
  assumes "jitter_ok b" "jitter_write now cs d seq fr b = (b', True)"
    "base_seq b' \<noteq> 0" "base_seq b' \<le> write_seq b'"
    "position = base_slot b' + ucast (write_seq b' - base_seq b')"
  shows "snd (jitter_read position b') = Some fr"
    and "snd (jitter_read position (fst (jitter_read position b'))) = None"
proof -
  obtain b1 where b1: "b' = jitter_store now (write_seq b') fr b1" "jitter_ok b1"
    "base_seq b' = base_seq b1" "base_slot b' = base_slot b1"
    using jitter_write_accepted [OF assms(2)] assms(1) by metis
  let ?i = "unat (write_seq b' - base_seq b') mod 32"
  have i: "?i < 32" by simp
  have "slots b' = (slots b1)[?i := Some fr]"
    using jitter_store_slots [of now "write_seq b'" fr b1] b1(1,3) by (simp add: slot_index_def)
  then have fr: "slots b' ! ?i = Some fr" "length (slots b') = 32"
    using b1(2) i by (simp_all add: jitter_ok_def)
  have sub: "unat (write_seq b' - base_seq b') = unat (write_seq b') - unat (base_seq b')"
    using assms(4) by (simp add: unat_sub)
  have e: "position - base_slot b' + ucast (base_seq b') = ucast (write_seq b')"
  proof -
    have "unat (write_seq b' - base_seq b') + unat (base_seq b') = unat (write_seq b')"
      using sub assms(4) by (simp add: word_le_nat_alt)
    moreover have "unat (write_seq b') < 2 ^ 64" using unat_u32_less [of "write_seq b'"] by simp
    ultimately have "(ucast (write_seq b' - base_seq b') + ucast (base_seq b') :: u64) = ucast (write_seq b')"
      by (simp add: word_unat_eq_iff unat_word_ariths)
    then show ?thesis by (simp add: assms(5))
  qed
  have idx: "unat (ucast (write_seq b') - ucast (base_seq b') :: u64) mod 32 = ?i"
    using assms(4) by (simp add: unat_sub sub word_le_nat_alt)
  show "snd (jitter_read position b') = Some fr"
    using assms(3) fr by (simp add: jitter_read_def e idx Let_def)
  have "fst (jitter_read position b') = b'\<lparr>slots := (slots b')[?i := None], frame_pool := frame_pool b' @ [fr]\<rparr>"
    using assms(3) fr by (simp add: jitter_read_def e idx Let_def)
  then show "snd (jitter_read position (fst (jitter_read position b'))) = None"
    using assms(3) fr by (simp add: jitter_read_def e idx Let_def)
qed

text \<open>What is written is what is played: an accepted frame is the one the callback gets at its
  play position, the base position plus the frame's distance from the base, and it gets it once.\<close>

theorem accepted_frame_is_played_once:
  assumes "jitter_ok b" "jitter_write now cs d seq fr b = (b', True)"
    "base_seq b' \<noteq> 0" "base_seq b' \<le> write_seq b'"
    "position = base_slot b' + ucast (write_seq b' - base_seq b')"
  shows "(snd (jitter_read position b') = Some fr)
    \<and> (snd (jitter_read position (fst (jitter_read position b'))) = None)"
  by (intro conjI impI accepted_frame_is_played_once_facts [OF assms])

theorem accepted_frame_is_played_once_witness:
  "snd (jitter_read 12 (fst (jitter_write 5 10 2 7 [1, 2] jitter_new))) = Some [1, 2]"
proof -
  define b' where "b' = fst (jitter_write 5 10 2 7 [1, 2] jitter_new)"
  have w: "jitter_write 5 10 2 7 [1, 2] jitter_new = (b', True)" and
    f: "base_seq b' = 7" "write_seq b' = 7" "base_slot b' = 12"
    by (simp_all add: b'_def jitter_write_def Let_def jitter_init_def jitter_stale_def jitter_rebase_def
      jitter_store_def jitter_new_def unwrap_seq_counts_forward)
  show ?thesis unfolding b'_def [symmetric]
    by (rule accepted_frame_is_played_once [OF jitter_ok_new w, THEN conjunct1]) (simp_all add: f)
qed

text \<open>The base is kept in 32 bits but packets are unwrapped from its low 16 bits: once the mapping
  has restarted at a position \<open>g\<close> of 65536 or more (a speaker whose packet numbers wrapped and who then
  paused), none of the next 30000 packets is accepted.\<close>

theorem rebase_after_wrap_rejects_the_speaker:
  assumes "write_seq b = g" "base_seq b = g" "65536 \<le> g" "g < 131072" "1 \<le> k" "k \<le> 30000"
    "seq = ucast g + ucast (k :: u32)"
  shows "jitter_write now cs d seq fr b = (b, False)"
proof -
  have G: "65536 \<le> unat g" "unat g < 131072" and K: "1 \<le> unat k" "unat k \<le> 30000"
    using assms(3-6) by (simp_all add: word_le_nat_alt word_less_nat_alt)
  have b: "jitter_init cs d seq b = b"
    using assms(2,3) by (auto simp: jitter_init_def)
  have diff: "seq - ucast (base_seq b) = ucast k" by (simp add: assms(2,7))
  have low: "unat (ucast (ucast g :: u16) :: u32) = unat g - 65536"
    using G by (simp add: unsigned_ucast_eq unsigned_take_bit_eq take_bit_eq_mod unat_mod le_mod_geq)
  have small: "unat (ucast k :: u16) = unat k" "unat (ucast (ucast k :: u16) :: u32) = unat k"
    using K by (simp_all add: unsigned_ucast_eq unsigned_take_bit_eq take_bit_nat_eq_self)
  have "(ucast k :: u16) \<noteq> 32768" using K small(1) by (auto simp: word_unat_eq_iff)
  then have g': "unwrap_seq seq (ucast (base_seq b)) = ucast (ucast g :: u16) + ucast (ucast k :: u16)"
    (is "_ = ?h") unfolding unwrap_seq_counts_forward diff by (simp add: assms(2))
  have h: "unat ?h = unat g - 65536 + unat k"
    using G K by (simp add: unat_word_ariths low small)
  have bwd: "unat (g - ?h) = 65536 - unat k"
    using G K h by (simp add: unat_sub_if')
  have fwd: "unat (?h - g) = 4294967296 - (65536 - unat k)"
    using G K h by (simp add: unat_sub_if')
  have "jitter_stale ?h (write_seq b)"
    using assms(1,3) bwd fwd K by (auto simp: jitter_stale_def min_def word_less_nat_alt)
  then show ?thesis by (simp add: jitter_write_def Let_def b g')
qed

text \<open>Such a state arises: packet 65500, packet 100 two hundred frames later, then packet 101.\<close>

definition wrapped_buffer :: jitter_buffer where
  "wrapped_buffer = fst (jitter_write 0 212 2 100 [] (fst (jitter_write 0 10 2 65500 [] jitter_new)))"

lemma wrapped_buffer_state: "write_seq wrapped_buffer = 65636" "base_seq wrapped_buffer = 65636"
  by (simp_all add: wrapped_buffer_def jitter_write_def Let_def jitter_init_def jitter_stale_def
    jitter_rebase_def jitter_store_def jitter_new_def unwrap_seq_counts_forward)

theorem rebase_after_wrap_rejects_the_speaker_witness:
  "jitter_write now 213 2 101 fr wrapped_buffer = (wrapped_buffer, False)"
  by (rule rebase_after_wrap_rejects_the_speaker [where g = 65636 and k = 1])
    (simp_all add: wrapped_buffer_state)

text \<open>The depth of a new buffer: two frames plus one per 20 ms of measured jitter, never more than
  eight.\<close>

theorem adaptive_delay_formula:
  "unat (adaptive_delay_frames cid e)
    = min (2 + unat (case session cid e of None \<Rightarrow> 0 | Some st \<Rightarrow> jitter_ms st) div 20) 8"
proof -
  define j where "j = (case session cid e of None \<Rightarrow> 0 | Some st \<Rightarrow> jitter_ms st)"
  have j: "unat j < 2 ^ 64"
  proof -
    have "unat j < 2 ^ LENGTH(64)" by (rule unsigned_less)
    then show ?thesis by simp
  qed
  have "unat j div 20 + 2 < 2 ^ 64"
  proof -
    have "unat j div 20 \<le> 2 ^ 64 div 20" using j by (intro div_le_mono) simp
    then show ?thesis by simp
  qed
  then have "unat (2 + j div 20) = 2 + unat j div 20"
    by (simp add: unat_word_ariths unat_div)
  then show ?thesis
    unfolding adaptive_delay_frames_def Let_def j_def [symmetric]
    by (simp add: BASE_DELAY_FRAMES_def JITTER_TO_FRAMES_DIVISOR_def MAX_DELAY_FRAMES_def
      min_def word_le_nat_alt)
qed

section \<open>The output callback\<close>

text \<open>One source: its frame, if it has one for this slot, is added to the mix with its volume.\<close>

definition mix_source :: "u64 \<Rightarrow> audio_key \<Rightarrow> engine \<times> f32 list \<times> nat \<Rightarrow> engine \<times> f32 list \<times> nat" where
  "mix_source slot key acc = (case acc of (e, mix, active) \<Rightarrow>
     (case tget (CLIENT_BUFFERS e) key of
        None \<Rightarrow> acc
      | Some b \<Rightarrow> (case jitter_read slot b of
            (b, None) \<Rightarrow> acc
          | (b, Some fr) \<Rightarrow>
              (e\<lparr>CLIENT_BUFFERS := tput key b (CLIENT_BUFFERS e)\<rparr>,
               map (\<lambda>i. fadd (mix ! i) (fmul (Fin (of_int (sint (fr ! i)))) (volume b))) [0..<960],
               active + 1))))"

definition mix_level :: "f32 \<Rightarrow> f32 \<Rightarrow> f32 \<Rightarrow> f32" where
  "mix_level atten master s =
     fdiv (fclamp (Fin (- 32768)) (Fin 32767) (fmul (fmul s atten) master)) (Fin 32768)"

definition mix_frame :: "u64 \<Rightarrow> engine \<Rightarrow> engine \<times> f32 list" where
  "mix_frame slot e =
     (case fold (mix_source slot) (ACTIVE_CLIENT_IDS e) (e, replicate 960 (Fin 0), 0) of
        (e, mix, active) \<Rightarrow>
          let atten = (if 0 < active then fdiv (Fin 1) (f32_sqrt (f32_of_rat (of_nat active))) else Fin 1)
          in (e, map (mix_level atten (master_volume_gain e)) mix))"

text \<open>The cached mix is made anew when a new logical frame is entered.\<close>

definition refresh_mix :: "u64 \<Rightarrow> u64 \<times> f32 list \<Rightarrow> engine \<Rightarrow> engine \<times> u64 \<times> f32 list" where
  "refresh_mix slot cached e =
     (if slot \<noteq> fst cached then (case mix_frame slot e of (e, mix) \<Rightarrow> (e, slot, mix)) else (e, cached))"

text \<open>The loop that fills the output. Every round copies at least one sample since the offset inside a
  frame is below 960.\<close>

function fill_output ::
  "nat \<Rightarrow> u64 \<Rightarrow> nat \<Rightarrow> u64 \<times> f32 list \<Rightarrow> engine \<Rightarrow> engine \<times> (u64 \<times> f32 list) \<times> f32 list" where
  "fill_output remaining slot offset cached e =
     (if remaining = 0 \<or> 960 \<le> offset then (e, cached, [])
      else (case refresh_mix slot cached e of
          (e, cached) \<Rightarrow>
            let copy = min remaining (960 - offset);
                part = take copy (drop offset (snd cached));
                (slot, offset) = (if 960 \<le> offset + copy then (slot + 1, 0) else (slot, offset + copy))
            in (case fill_output (remaining - copy) slot offset cached e of
                (e, cached, rest) \<Rightarrow> (e, cached, part @ rest))))"
  by pat_completeness auto
termination by (relation "measure (\<lambda>(remaining, slot, offset, cached, e). remaining)") auto

declare fill_output.simps [simp del]

definition output_callback ::
  "nat \<Rightarrow> u64 \<times> f32 list \<Rightarrow> engine \<Rightarrow> engine \<times> (u64 \<times> f32 list) \<times> f32 list" where
  "output_callback len cached e =
     (let played = PLAYED_SAMPLES e in
       (case fill_output len (played div FRAME_SIZE) (unat (played mod FRAME_SIZE)) cached e of
          (e, cached, data) \<Rightarrow> (e\<lparr>PLAYED_SAMPLES := PLAYED_SAMPLES e + of_nat len\<rparr>, cached, data)))"

section \<open>Clean-up\<close>

definition is_idle :: "instant \<Rightarrow> jitter_buffer \<Rightarrow> bool" where
  "is_idle now b = (case last_packet b of None \<Rightarrow> False | Some seen \<Rightarrow> from_secs 10 < now - seen)"

definition cleanup_tick :: "instant \<Rightarrow> engine \<Rightarrow> engine" where
  "cleanup_tick now e =
     (let candidates = map fst (filter (\<lambda>(_, b). is_idle now b) (CLIENT_BUFFERS e)) in
       fold (\<lambda>key e. case tget (CLIENT_BUFFERS e) key of
           Some b \<Rightarrow> if is_idle now b then remove_client_audio key e else e
         | None \<Rightarrow> e) candidates e)"

definition snapshot_tick :: "bool \<Rightarrow> engine \<Rightarrow> engine" where
  "snapshot_tick output_ok e =
     (let e = refresh_active_client_snapshot e in
       if OUTPUT_RESTART_REQUESTED e \<and> any_session_listening e
       then (restart_output_stream output_ok e)\<lparr>OUTPUT_RESTART_REQUESTED := False\<rparr>
       else e)"

section \<open>Properties of the output\<close>

text \<open>A level the device accepts: below full scale, or the NaN a NaN volume produces.\<close>

definition in_range :: "f32 \<Rightarrow> bool" where
  "in_range s \<longleftrightarrow> (case s of Fin x \<Rightarrow> - 1 \<le> x \<and> x < 1 | NaN \<Rightarrow> True | _ \<Rightarrow> False)"

lemma fclamp_cases: "fclamp (Fin lo) (Fin hi) s = NaN
    \<or> (\<exists>y. fclamp (Fin lo) (Fin hi) s = Fin y \<and> lo \<le> y \<and> y \<le> hi)" if "lo \<le> hi"
  using that by (cases s) (auto simp: fclamp_def)

lemma mix_level_in_range: "in_range (mix_level atten master s)"
proof -
  let ?v = "fmul (fmul s atten) master"
  consider "fclamp (Fin (- 32768)) (Fin 32767) ?v = NaN"
    | y where "fclamp (Fin (- 32768)) (Fin 32767) ?v = Fin y" "- 32768 \<le> y" "y \<le> 32767"
    using fclamp_cases [of "- 32768" 32767 ?v] by auto
  then show ?thesis
  proof cases
    case 1
    then show ?thesis by (simp add: mix_level_def in_range_def)
  next
    case 2
    have rep: "f32_rep 1" "f32_rep (32767 / 32768)"
      using f32_rep_of_int [of 1] by (simp, intro f32_repI [of _ 32767 "- 15"])
        (simp_all add: power_int_minus)
    have b: "- 1 \<le> f32_rnd (y / 32768)" "f32_rnd (y / 32768) \<le> 32767 / 32768"
      using f32_rnd_between [OF rep, of "y / 32768"] 2(2,3) by (simp_all add: field_simps)
    have "mix_level atten master s = f32_of_rat (y / 32768)"
      by (simp add: mix_level_def 2(1))
    also have "\<dots> = Fin (f32_rnd (y / 32768))"
      using b by (simp add: f32_of_rat_def Let_def)
    finally show ?thesis using b by (simp add: in_range_def)
  qed
qed

lemma mix_source_length: "length (fst (snd acc)) = 960 \<Longrightarrow> length (fst (snd (mix_source slot key acc))) = 960"
  by (auto simp: mix_source_def split: prod.split option.split)

lemma fold_mix_source_length:
  "length (fst (snd acc)) = 960 \<Longrightarrow> length (fst (snd (fold (mix_source slot) ks acc))) = 960"
  by (induction ks arbitrary: acc) (simp_all add: mix_source_length)

definition mix_ok :: "f32 list \<Rightarrow> bool" where
  "mix_ok mix \<longleftrightarrow> length mix = 960 \<and> (\<forall>s\<in>set mix. in_range s)"

lemma mix_frame_ok: "mix_ok (snd (mix_frame slot e))"
proof -
  have "length (fst (snd (fold (mix_source slot) (ACTIVE_CLIENT_IDS e) (e, replicate 960 (Fin 0), 0)))) = 960"
    by (rule fold_mix_source_length) simp
  then show ?thesis
    by (auto simp: mix_frame_def mix_ok_def Let_def mix_level_in_range split: prod.split)
qed

lemma mix_source_PLAYED: "PLAYED_SAMPLES (fst (mix_source slot key acc)) = PLAYED_SAMPLES (fst acc)"
  by (auto simp: mix_source_def split: prod.split option.split)

lemma mix_frame_PLAYED: "PLAYED_SAMPLES (fst (mix_frame slot e)) = PLAYED_SAMPLES e"
proof -
  have "PLAYED_SAMPLES (fst (fold (mix_source slot) ks acc)) = PLAYED_SAMPLES (fst acc)" for ks acc
    by (induction ks arbitrary: acc) (simp_all add: mix_source_PLAYED)
  from this [of "ACTIVE_CLIENT_IDS e" "(e, replicate 960 (Fin 0), 0)"]
  show ?thesis by (simp add: mix_frame_def Let_def case_prod_beta)
qed

lemma fill_output_ok:
  assumes "mix_ok (snd cached)" "offset < 960" "fill_output n slot offset cached e = (e', cached', data)"
  shows "length data = n \<and> (\<forall>s\<in>set data. in_range s) \<and> mix_ok (snd cached')
    \<and> PLAYED_SAMPLES e' = PLAYED_SAMPLES e"
  using assms
proof (induction n arbitrary: slot offset cached e e' cached' data rule: less_induct)
  case (less n)
  show ?case
  proof (cases "n = 0")
    case True
    with less.prems show ?thesis by (simp add: fill_output.simps)
  next
    case False
    obtain e1 slot1 mix where r: "refresh_mix slot cached e = (e1, (slot1, mix))"
      by (cases "refresh_mix slot cached e") auto
    have mix: "mix_ok mix" "PLAYED_SAMPLES e1 = PLAYED_SAMPLES e"
      using r mix_frame_ok [of slot e] mix_frame_PLAYED [of slot e] less.prems(1)
      by (auto simp: refresh_mix_def case_prod_beta split: if_splits)
    define copy where "copy = min n (960 - offset)"
    define slot2 where "slot2 = (if 960 \<le> offset + copy then slot + 1 else slot)"
    define offset2 where "offset2 = (if 960 \<le> offset + copy then 0 else offset + copy)"
    have "fill_output n slot offset cached e
        = (case fill_output (n - copy) slot2 offset2 (slot1, mix) e1 of
             (e, cached, rest) \<Rightarrow> (e, cached, take copy (drop offset mix) @ rest))"
      using False less.prems(2)
      by (subst fill_output.simps)
        (simp add: r Let_def copy_def [symmetric] slot2_def offset2_def)
    then obtain rest where rec: "fill_output (n - copy) slot2 offset2 (slot1, mix) e1 = (e', cached', rest)"
      and data: "data = take copy (drop offset mix) @ rest"
      using less.prems(3) by (auto split: prod.splits)
    have c: "0 < copy" "copy \<le> n" "offset2 < 960" using False less.prems(2)
      by (auto simp: copy_def offset2_def)
    have "length rest = n - copy \<and> (\<forall>s\<in>set rest. in_range s) \<and> mix_ok (snd cached')
        \<and> PLAYED_SAMPLES e' = PLAYED_SAMPLES e1"
      using less.IH [OF _ _ c(3) rec] c mix(1) by simp
    moreover have "length (take copy (drop offset mix)) = copy"
      using mix(1) less.prems(2) by (simp add: mix_ok_def copy_def)
    moreover have "\<forall>s\<in>set (take copy (drop offset mix)). in_range s"
      using mix(1) by (auto simp: mix_ok_def dest: in_set_takeD in_set_dropD)
    ultimately show ?thesis using data mix(2) c by auto
  qed
qed

lemma output_callback_spec_facts:
  assumes "mix_ok (snd cached)" "output_callback len cached e = (e', cached', data)"
  shows "length data = len" "\<forall>s\<in>set data. in_range s" "mix_ok (snd cached')"
    "PLAYED_SAMPLES e' = PLAYED_SAMPLES e + of_nat len"
proof -
  obtain e1 where f: "fill_output len (PLAYED_SAMPLES e div FRAME_SIZE)
      (unat (PLAYED_SAMPLES e mod FRAME_SIZE)) cached e = (e1, cached', data)"
    "e' = e1\<lparr>PLAYED_SAMPLES := PLAYED_SAMPLES e1 + of_nat len\<rparr>"
    using assms(2) by (auto simp: output_callback_def Let_def split: prod.splits)
  have "unat (PLAYED_SAMPLES e mod FRAME_SIZE) < 960"
    by (simp add: FRAME_SIZE_def unat_mod)
  from fill_output_ok [OF assms(1) this f(1)] f(2)
  show "length data = len" "\<forall>s\<in>set data. in_range s" "mix_ok (snd cached')"
    "PLAYED_SAMPLES e' = PLAYED_SAMPLES e + of_nat len" by simp_all
qed

text \<open>Whatever the device asks for, the callback delivers exactly that many samples, each in the
  range from -1 (included) to 1 (excluded) or NaN, and the play position advances by their number.\<close>

theorem output_callback_spec:
  assumes "mix_ok (snd cached)" "output_callback len cached e = (e', cached', data)"
  shows "(length data = len)
    \<and> (\<forall>s\<in>set data. in_range s)
    \<and> (mix_ok (snd cached'))
    \<and> (PLAYED_SAMPLES e' = PLAYED_SAMPLES e + of_nat len)"
  by (intro conjI impI output_callback_spec_facts [OF assms])

theorem output_callback_spec_witness:
  "\<exists>e' cached' data. output_callback 1000 (- 1, replicate 960 (Fin 0)) (engine_new 2) = (e', cached', data)
     \<and> length data = 1000"
proof -
  obtain e' cached' data where "output_callback 1000 (- 1, replicate 960 (Fin 0)) (engine_new 2) = (e', cached', data)"
    by (cases "output_callback 1000 (- 1, replicate 960 (Fin 0)) (engine_new 2)")
  moreover from output_callback_spec [OF _ this] have "length data = 1000"
    by (simp add: mix_ok_def in_range_def)
  ultimately show ?thesis by blast
qed

end
