(* ===== verification/EventLoop.thy ===== *)
theory EventLoop
  imports Dispatch Control Jitter
begin

text \<open>
  The event loop of a session, \<open>event_loop\<close> of \<open>native/src/api.rs\<close>, one turn at a time. What a turn
  meets is a record \<open>turn_env\<close>: the time, the behaviour of the library, and what polling the
  connection yields. A list of polled results ends where the next poll would time out.
\<close>

section \<open>What a turn meets\<close>

datatype (plugins only: code size) polled =
    PolledAudio in_audio
  | PolledItem stream_item
  | PolledError rstr
  | PolledEnd

record turn_env =
  te_now :: instant
  te_lib :: lib_env
  te_dec :: opus_decoder
  te_pow :: "f32 \<Rightarrow> f32 \<Rightarrow> f32"
  te_view :: con_view
  te_first :: "polled option"
    \<comment> \<open>\<open>None\<close>: nothing within 20 ms\<close>
  te_rest :: "polled list"

section \<open>The steps of a turn\<close>

definition recent :: "instant \<Rightarrow> (u16, instant) table \<Rightarrow> (u16, instant) table" where
  "recent now = filter (\<lambda>(client, t). elapsed_millis now t < 2000)"

definition clean_indicators :: "instant \<Rightarrow> connection_id \<Rightarrow> engine \<Rightarrow> engine" where
  "clean_indicators now cid = upd_state cid (\<lambda>st. st\<lparr>talking_clients := recent now (talking_clients st),
     whispering_clients := recent now (whispering_clients st)\<rparr>)"

definition user_disconnects :: "connection_id \<Rightarrow> engine \<Rightarrow> bool" where
  "user_disconnects cid e = (case session cid e of None \<Rightarrow> False | Some st \<Rightarrow> disconnect_requested st)"

text \<open>Commands that skip the budget.\<close>

definition unpaced :: "command \<Rightarrow> bool" where
  "unpaced c = (case c of SendAudio _ \<Rightarrow> True | Disconnect \<Rightarrow> True | _ \<Rightarrow> False)"

text \<open>\<open>cmd_rx.try_recv\<close> until it is empty.\<close>

definition receive_commands :: "connection_id \<Rightarrow> engine \<Rightarrow> engine \<times> command list" where
  "receive_commands cid e = (let cs = unwrap_or (cmd_rx e cid) [] in
     (upd_session cid (\<lambda>s. s\<lparr>sess_budget := fold enqueue (filter (\<lambda>c. \<not> unpaced c) cs) (sess_budget s)\<rparr>)
        (e\<lparr>cmd_rx := (cmd_rx e)(cid \<mapsto> [])\<rparr>),
      filter unpaced cs))"

definition release_commands :: "instant \<Rightarrow> connection_id \<Rightarrow> engine \<Rightarrow> engine \<times> command list \<times> nat \<times> bool" where
  "release_commands now cid e = (case tget (SESSIONS e) cid of
      None \<Rightarrow> (e, [], 0, False)
    | Some s \<Rightarrow> (case drain_ready now (sess_budget s) of
        (b, cs) \<Rightarrow> (upd_session cid (\<lambda>s. s\<lparr>sess_budget := b\<rparr>) e, cs, pending b, is_degraded b)))"

definition throttle_notice ::
  "instant \<Rightarrow> connection_id \<Rightarrow> nat \<Rightarrow> bool \<Rightarrow> instant \<Rightarrow> engine \<Rightarrow> engine \<times> instant" where
  "throttle_notice now cid waiting degraded last_notice e =
     (if 0 < waiting \<and> from_secs 1 \<le> now - last_notice
      then (push_event cid (EvCommandThrottled (of_nat waiting) degraded) e, now)
      else (e, last_notice))"

definition decode_audio :: "turn_env \<Rightarrow> connection_id \<Rightarrow> in_audio \<Rightarrow> engine \<Rightarrow> engine" where
  "decode_audio t cid pkt = decode_to_client_buffer (te_dec t) (te_pow t) (te_now t) cid pkt"

text \<open>The first poll: the deferred item, and whether the loop is left.\<close>

definition poll_first :: "turn_env \<Rightarrow> connection_id \<Rightarrow> engine \<Rightarrow> engine \<times> stream_item list \<times> bool" where
  "poll_first t cid e = (case te_first t of
      None \<Rightarrow> (e, [], False)
    | Some p \<Rightarrow> (case p of
        PolledAudio pkt \<Rightarrow> (decode_audio t cid pkt e, [], False)
      | PolledItem item \<Rightarrow> (e, [item], False)
      | PolledError msg \<Rightarrow> (push_event cid (EvError msg) e, [], True)
      | PolledEnd \<Rightarrow> (e, [], True)))"

fun poll_rest :: "turn_env \<Rightarrow> connection_id \<Rightarrow> polled list \<Rightarrow> engine \<Rightarrow> engine \<times> stream_item list" where
  "poll_rest t cid [] e = (e, [])"
| "poll_rest t cid (PolledAudio pkt # ps) e = poll_rest t cid ps (decode_audio t cid pkt e)"
| "poll_rest t cid (PolledItem item # ps) e =
     (case poll_rest t cid ps e of (e, items) \<Rightarrow> (e, item # items))"
| "poll_rest t cid (PolledError msg # ps) e = (push_event cid (EvError msg) e, [])"
| "poll_rest t cid (PolledEnd # ps) e = (e, [])"

fun handle_items ::
  "con_view \<Rightarrow> connection_id \<Rightarrow> stream_item list \<Rightarrow> engine \<Rightarrow> engine \<times> spawned list" where
  "handle_items v cid [] e = (e, [])"
| "handle_items v cid (item # items) e = (case handle_control_item v cid item e of
      (e, ts) \<Rightarrow> (case handle_items v cid items e of (e, ts') \<Rightarrow> (e, ts @ ts')))"

section \<open>A turn\<close>

datatype turn_end = GoOn | Returned | Left
  \<comment> \<open>next turn; the task is over; the loop is left for the final clean-up\<close>

definition run_commands ::
  "turn_env \<Rightarrow> connection_id \<Rightarrow> instant \<Rightarrow> engine \<Rightarrow> engine \<times> instant \<times> bool" where
  "run_commands t cid last_notice e =
     (case receive_commands cid e of (e, unpaced_cs) \<Rightarrow>
       (case release_commands (te_now t) cid e of (e, cs, waiting, degraded) \<Rightarrow>
         (case throttle_notice (te_now t) cid waiting degraded last_notice e of (e, last_notice) \<Rightarrow>
           (case dispatch_all (te_lib t) cid (unpaced_cs @ cs) e of (e, go_on) \<Rightarrow> (e, last_notice, go_on)))))"

definition poll_events :: "turn_env \<Rightarrow> connection_id \<Rightarrow> engine \<Rightarrow> engine \<times> spawned list \<times> turn_end" where
  "poll_events t cid e = (case poll_first t cid e of (e, deferred, leave) \<Rightarrow>
     if leave then (e, [], Left)
     else (case poll_rest t cid (te_rest t) e of (e, items) \<Rightarrow>
       (case handle_items (te_view t) cid (items @ deferred) e of (e, ts) \<Rightarrow> (e, ts, GoOn))))"

definition loop_turn ::
  "turn_env \<Rightarrow> connection_id \<Rightarrow> instant \<Rightarrow> engine \<Rightarrow> engine \<times> instant \<times> spawned list \<times> turn_end" where
  "loop_turn t cid last_notice e =
     (let e = clean_indicators (te_now t) cid e in
       if user_disconnects cid e
       then (finalize_disconnect cid (str ''User disconnected'') True (send_to cid OutDisconnect e),
             last_notice, [], Returned)
       else (case run_commands t cid last_notice e of (e, last_notice, go_on) \<Rightarrow>
         if \<not> go_on then (e, last_notice, [], Returned)
         else (case poll_events t cid e of (e, ts, r) \<Rightarrow> (e, last_notice, ts, r))))"

text \<open>The end of the task: the receiver goes with it.\<close>

definition drop_receiver :: "connection_id \<Rightarrow> engine \<Rightarrow> engine" where
  "drop_receiver cid e = e\<lparr>cmd_rx := (cmd_rx e)(cid := None)\<rparr>"

definition server_closed :: "connection_id \<Rightarrow> engine \<Rightarrow> engine" where
  "server_closed cid e =
     finalize_disconnect cid (str ''Connection closed by server'') (user_disconnects cid e) e"

text \<open>
  The loop over the turns it meets; between two turns the rest of the program acts on the engine, as
  the function that comes with each turn.
\<close>

fun run_turns ::
  "(turn_env \<times> (engine \<Rightarrow> engine)) list \<Rightarrow> connection_id \<Rightarrow> instant \<Rightarrow> engine \<Rightarrow> engine \<times> bool" where
  "run_turns [] cid last_notice e = (e, True)"
| "run_turns ((t, others) # ts) cid last_notice e = (case loop_turn t cid last_notice e of
      (e, last_notice, spawned_ts, GoOn) \<Rightarrow> run_turns ts cid last_notice (others e)
    | (e, last_notice, spawned_ts, Returned) \<Rightarrow> (drop_receiver cid e, False)
    | (e, last_notice, spawned_ts, Left) \<Rightarrow> (drop_receiver cid (server_closed cid e), False))"

definition event_loop ::
  "(turn_env \<times> (engine \<Rightarrow> engine)) list \<Rightarrow> instant \<Rightarrow> connection_id \<Rightarrow> engine \<Rightarrow> engine \<times> bool" where
  "event_loop ts now cid e =
     run_turns ts cid (now - from_secs 2) (push_diag cid (str ''event_loop: started'') e)"

text \<open>The task that \<open>do_connect\<close> spawns for the loop. \<open>True\<close>: the loop is still running.\<close>

definition loop_task ::
  "(turn_env \<times> (engine \<Rightarrow> engine)) list \<Rightarrow> instant \<Rightarrow> connection_id \<Rightarrow> engine \<Rightarrow> engine \<times> bool" where
  "loop_task ts now cid e = (case start_event_loop cid e of
      (e, False) \<Rightarrow> (e, False)
    | (e, True) \<Rightarrow> (case event_loop ts now cid e of
          (e, True) \<Rightarrow> (e, True)
        | (e, False) \<Rightarrow> (upd_session cid (\<lambda>s. s\<lparr>event_loop_alive := False\<rparr>)
            (push_diag cid (str ''event_loop: exited normally'') e), False)))"

end
