(* ===== verification/SessionContract.thy ===== *)
theory SessionContract
  imports EventLoop
begin

text \<open>
  What a turn of the event loop is made of. The locale \<open>session_contract\<close> is the interface between the event loop
  and what one wants to know of it: a relation between an engine and the engine after an operation of a session
  \<open>cid\<close>, which the few primitive updates satisfy. Inside it, every step of a turn and the turn itself satisfy it.
\<close>

section \<open>The contract\<close>

locale session_contract =
  fixes R :: "connection_id \<Rightarrow> engine \<Rightarrow> engine \<Rightarrow> bool"
  assumes same: "R cid e e"
    and trans: "R cid e1 e2 \<Longrightarrow> R cid e2 e3 \<Longrightarrow> R cid e1 e3"
    and upd_session: "(\<And>s. pending_transfers (f s) \<subseteq>\<^sub>m pending_transfers s) \<Longrightarrow> R cid e (upd_session cid f e)"
    and event: "R cid e (push_event cid ev e)"
    and send: "R cid e (send_to cid m e)"
    and inbox: "R cid e (e\<lparr>cmd_rx := (cmd_rx e)(cid \<mapsto> cs)\<rparr>)"
    and buffer: "R cid e (e\<lparr>CLIENT_BUFFERS := tput (cid, i) b (CLIENT_BUFFERS e)\<rparr>)"
    and decoder: "R cid e (e\<lparr>AUDIO_DECODERS := tput (cid, i) h (AUDIO_DECODERS e)\<rparr>)"
    and stereo: "R cid e (e\<lparr>AUDIO_DECODERS_STEREO := tput (cid, i) h (AUDIO_DECODERS_STEREO e)\<rparr>)"
    and silence: "R cid e (e\<lparr>AUDIO_STREAM := False\<rparr>)"
    and drop_audio: "R cid e (drop_session_audio cid e)"
    and close: "R cid e (e\<lparr>SESSIONS := tdel cid (SESSIONS e)\<rparr>)"
begin

lemma upd: "(\<And>s. pending_transfers (f s) = pending_transfers s) \<Longrightarrow> R cid e (upd_session cid f e)"
  by (rule upd_session) simp

lemma state: "R cid e (upd_state cid f e)"
  unfolding upd_state_def by (rule upd) simp

lemma opt_event: "R cid e (push_opt cid ev e)"
  by (simp add: push_opt_def event same split: option.split)

lemmas after = trans [OF _ upd] trans [OF _ state] trans [OF _ event] trans [OF _ send] trans [OF _ opt_event]

lemma run: "(\<And>i e. R cid e (f i e)) \<Longrightarrow> R cid e (fold f is e)"
  by (induction "is" arbitrary: e) (auto intro: same trans)

lemma events: "R cid e (fold (\<lambda>p. push_event cid (f p)) ps e)"
  by (rule run, rule event)

lemma sends: "R cid e (fold (send_to cid) ms e)"
  by (rule run, rule send)

section \<open>Items\<close>

lemma refresh: "R cid e (refresh_roster v cid e)"
  by (auto simp: refresh_roster_def Let_def intro!: after same split: option.split prod.split)

lemma book_event: "R cid e (handle_book_event v cid ev e)"
  by (cases ev) (simp_all add: event refresh)

lemma file_entry: "R cid e (handle_file_entry cid p e)"
  by (simp add: handle_file_entry_def state)

lemma list_finished: "R cid e (handle_list_finished cid k e)"
  by (auto simp: handle_list_finished_def Let_def intro!: after same)

lemma file_info: "R cid e (handle_file_info cid p e)"
  by (auto simp: handle_file_info_def Let_def intro!: after same)

lemma command_error: "R cid e (handle_command_error v cid p e)"
  by (auto simp: handle_command_error_def Let_def intro!: after same)

lemma file_download: "R cid (fst acc) (fst (handle_file_download cid d acc))"
  by (cases acc) (auto simp: handle_file_download_def same map_le_def intro: upd_session split: option.split)

lemma file_downloads: "R cid (fst acc) (fst (fold (handle_file_download cid) ds acc))"
proof (induction ds arbitrary: acc)
  case (Cons d ds)
  show ?case using trans [OF file_download Cons] by simp
qed (simp add: same)

lemma message: "R cid e (fst (handle_message v cid msg e))"
  using file_downloads [of cid "(e, [])"]
  by (cases msg) (simp_all add: handle_message_def same events state run [OF file_entry] run [OF list_finished]
    run [OF file_info] run [OF command_error])

lemma network_stats: "R cid e (network_stats_updated v cid e)"
  by (auto simp: network_stats_updated_def Let_def intro!: after same split: option.split)

lemma control_item: "R cid e (fst (handle_control_item v cid item e))"
proof (cases item)
  case (SiFileDownload h)
  then show ?thesis
    by (auto simp: handle_control_item_def same map_le_def intro: upd_session split: option.split)
qed (auto simp: handle_control_item_def same message network_stats run [OF book_event] event
  intro!: after same split: option.split)

lemma items: "R cid e (fst (handle_items v cid its e))"
  by (induction its arbitrary: e) (auto simp: same split_def intro: trans [OF control_item])

section \<open>Audio\<close>

lemma whisper: "R cid e (fst (whisper_is_allowed cid from_id e))"
  by (auto simp: whisper_is_allowed_def Let_def same intro: state split: option.split)

lemma decode: "R cid e (fst (decode_packet dec (cid, i) data e))"
proof -
  have "R cid e (e\<lparr>AUDIO_DECODERS := tput (cid, i) h (AUDIO_DECODERS e),
      AUDIO_DECODERS_STEREO := tput (cid, i) h' (AUDIO_DECODERS_STEREO e)\<rparr>)" for h h'
    using trans [OF decoder [of cid e i h] stereo [of cid _ i h']] by simp
  then show ?thesis
    by (auto simp: decode_packet_def Let_def decoder split: prod.split bool.split option.split)
qed

lemma accept: "R cid e (accept_frame powf now cid from_id seq fr w e)"
  by (auto simp: accept_frame_def Let_def intro!: after buffer split: prod.split option.split)

lemma voice: "R cid e (decode_to_client_buffer dec powf now cid pkt e)"
proof -
  have play: "R cid e (case decode_packet dec (cid, i) data e of (e, None) \<Rightarrow> e
      | (e, Some pcm) \<Rightarrow> accept_frame powf now cid i sq (map to_sample pcm) w e)" for e i data sq w
    using decode [of cid e dec i data] accept trans by (auto split: prod.split option.split)
  have "R cid e (case whisper_is_allowed cid i e of (e, False) \<Rightarrow> e
      | (e, True) \<Rightarrow> (case decode_packet dec (cid, i) data e of (e, None) \<Rightarrow> e
      | (e, Some pcm) \<Rightarrow> accept_frame powf now cid i sq (map to_sample pcm) w e))" for i data sq w
  proof -
    obtain e1 ok where a: "whisper_is_allowed cid i e = (e1, ok)" by fastforce
    then have "R cid e e1" using whisper [of cid e i] by simp
    then show ?thesis
      using trans [OF _ play [where e = e1 and i = i and data = data and sq = sq and w = w]] a by (cases ok) simp_all
  qed
  with play show ?thesis by (cases pkt) (simp_all add: decode_to_client_buffer_def same)
qed

section \<open>Commands\<close>

lemma send_audio: "R cid e (send_audio_command env cid samples e)"
  by (auto simp: send_audio_command_def Let_def same intro: trans [OF trans [OF state sends] sends]
    trans [OF state sends] split: option.split prod.split)

lemma finalize: "R cid e (finalize_disconnect cid reason expected e)"
proof -
  have stop: "R cid e (if any_session_listening e then e else e\<lparr>AUDIO_STREAM := False\<rparr>)" for e
    by (simp add: same silence)
  show ?thesis
    unfolding finalize_disconnect_def Let_def
    by (rule trans [OF _ close], rule trans [OF _ stop], rule trans [OF _ drop_audio]) (intro after same, simp)
qed

lemma send_one: "R cid e (send_command env cid c msg e)"
proof -
  have "R cid e (register_upload cid c h e)" for e h
    by (cases c; simp add: register_upload_def upd same)
  then show ?thesis
    by (auto simp: send_command_def Let_def split: option.split sum.split intro: send trans [OF send] opt_event)
qed

lemma dispatch_one: "R cid e (fst (dispatch env cid c e))"
proof (cases "session cid e")
  case (Some st)
  show ?thesis
  proof (cases "message_of c")
    case None
    then have "c = Disconnect \<or> (\<exists>samples. c = SendAudio samples)"
      by (cases c) (simp_all add: message_of_defs split: prod.splits)
    then show ?thesis using Some by (auto simp: dispatch_def send_audio intro: trans [OF send finalize])
  qed (use Some in \<open>simp add: dispatch_message send_one\<close>)
qed (simp add: dispatch_def same)

lemma dispatch_many: "R cid e (fst (dispatch_all env cid cs e))"
proof (induction cs arbitrary: e)
  case (Cons c cs)
  show ?case
    using dispatch_one [of cid e env c] Cons trans by (auto split: prod.split bool.split)
qed (simp add: same)

section \<open>A turn\<close>

lemma receive: "R cid e (fst (receive_commands cid e))"
  by (auto simp: receive_commands_def Let_def intro: trans [OF inbox upd])

lemma release: "R cid e (fst (release_commands now cid e))"
  by (simp add: release_commands_def upd same split: option.split prod.split)

lemma notice: "R cid e (fst (throttle_notice now cid waiting degraded last_notice e))"
  by (simp add: throttle_notice_def event same)

lemma commands: "R cid e (fst (run_commands t cid last_notice e))"
proof -
  obtain e1 us where 1: "receive_commands cid e = (e1, us)" by fastforce
  obtain e2 cs w d where 2: "release_commands (te_now t) cid e1 = (e2, cs, w, d)" by (metis prod_cases4)
  obtain e3 l where 3: "throttle_notice (te_now t) cid w d last_notice e2 = (e3, l)" by fastforce
  have "R cid e e1" "R cid e1 e2" "R cid e2 e3"
    using receive [of cid e] release [of cid e1 "te_now t"] notice [of cid e2 "te_now t" w d last_notice] 1 2 3 by simp_all
  then have "R cid e e3" using trans by blast
  then show ?thesis using trans [OF _ dispatch_many] by (simp add: run_commands_def 1 2 3 split_def)
qed

lemma first_poll: "R cid e (fst (poll_first t cid e))"
  by (auto simp: poll_first_def decode_audio_def voice event same split: option.split polled.split)

lemma other_polls: "R cid e (fst (poll_rest t cid ps e))"
proof (induction t cid ps e rule: poll_rest.induct)
  case (2 t cid pkt ps e)
  then show ?case using trans [OF voice] by (simp add: decode_audio_def)
qed (simp_all add: event same split_def)

lemma polls: "R cid e (fst (poll_events t cid e))"
proof -
  obtain e1 ds lv where 1: "poll_first t cid e = (e1, ds, lv)" by (metis prod_cases3)
  obtain e2 its where 2: "poll_rest t cid (te_rest t) e1 = (e2, its)" by fastforce
  have 3: "R cid e e1" "R cid e1 e2"
    using first_poll [of cid e t] other_polls [of cid e1 t "te_rest t"] 1 2 by simp_all
  then have "R cid e (fst (handle_items (te_view t) cid (its @ ds) e2))" using items trans by blast
  then show ?thesis using 3 by (simp add: poll_events_def 1 2 split_def)
qed

lemma turn: "R cid e (fst (loop_turn t cid last_notice e))"
proof -
  let ?e = "clean_indicators (te_now t) cid e"
  have c: "R cid e ?e" by (simp add: clean_indicators_def state)
  have f: "R cid ?e (finalize_disconnect cid r x (send_to cid OutDisconnect ?e))" for r x
    by (rule trans [OF send finalize])
  obtain e1 l g where 1: "run_commands t cid last_notice ?e = (e1, l, g)" by (metis prod_cases3)
  have r: "R cid ?e e1" using commands [of cid ?e t last_notice] 1 by simp
  obtain e2 ts x where 2: "poll_events t cid e1 = (e2, ts, x)" by (metis prod_cases3)
  have "R cid e e1" "R cid e1 e2" using trans [OF c r] polls [of cid e1 t] 2 by simp_all
  then have "R cid e e2" "R cid e e1" by (blast intro: trans)+
  then show ?thesis
    using trans [OF c f] by (simp add: loop_turn_def Let_def 1 2)
qed

end

end
