(* ===== verification/Isolation.thy ===== *)
theory Isolation
  imports SessionContract
begin

text \<open>
  Several servers at once: what a session's event loop does is confined to its session. \<open>local_to\<close> lists what an
  operation for one session leaves alone; it is a \<open>session_contract\<close>, so a whole turn satisfies it.
\<close>

section \<open>Confinement\<close>

definition local_to :: "connection_id \<Rightarrow> engine \<Rightarrow> engine \<Rightarrow> bool" where
  "local_to cid e e' \<longleftrightarrow>
     (\<forall>j. j \<noteq> cid \<longrightarrow> tget (SESSIONS e') j = tget (SESSIONS e) j \<and> cmd_rx e' j = cmd_rx e j)
     \<and> (\<exists>evs. EVENT_QUEUE e' = EVENT_QUEUE e @ evs \<and> (\<forall>ev\<in>set evs. ev_connection_id ev = cid))
     \<and> (\<exists>ms. outbox e' = outbox e @ ms \<and> (\<forall>m\<in>set ms. fst m = cid))
     \<and> (\<forall>k. fst k \<noteq> cid \<longrightarrow> tget (CLIENT_BUFFERS e') k = tget (CLIENT_BUFFERS e) k
          \<and> tget (AUDIO_DECODERS e') k = tget (AUDIO_DECODERS e) k
          \<and> tget (AUDIO_DECODERS_STEREO e') k = tget (AUDIO_DECODERS_STEREO e) k)
     \<and> PLAYED_SAMPLES e' = PLAYED_SAMPLES e \<and> MASTER_VOLUME e' = MASTER_VOLUME e
     \<and> CLIENT_VOLUMES e' = CLIENT_VOLUMES e \<and> IDENTITY_STASH e' = IDENTITY_STASH e"

lemma local_to_refl [simp]: "local_to cid e e"
  by (simp add: local_to_def)

lemma local_to_trans:
  assumes "local_to cid e1 e2" and "local_to cid e2 e3"
  shows "local_to cid e1 e3"
proof -
  obtain v1 v2 where v: "EVENT_QUEUE e2 = EVENT_QUEUE e1 @ v1" "EVENT_QUEUE e3 = EVENT_QUEUE e2 @ v2"
      "\<forall>ev\<in>set v1 \<union> set v2. ev_connection_id ev = cid"
    using assms unfolding local_to_def by fastforce
  obtain m1 m2 where m: "outbox e2 = outbox e1 @ m1" "outbox e3 = outbox e2 @ m2"
      "\<forall>m\<in>set m1 \<union> set m2. fst m = cid"
    using assms unfolding local_to_def by fastforce
  have "EVENT_QUEUE e3 = EVENT_QUEUE e1 @ (v1 @ v2)" "outbox e3 = outbox e1 @ (m1 @ m2)"
    using v m by simp_all
  moreover have "\<forall>ev\<in>set (v1 @ v2). ev_connection_id ev = cid" "\<forall>m\<in>set (m1 @ m2). fst m = cid"
    using v m by auto
  ultimately show ?thesis
    using assms unfolding local_to_def by (intro conjI exI) (assumption | simp)+
qed

lemma fold_remove_frame [simp]:
  "outbox (fold remove_client_audio ks e) = outbox e" "PLAYED_SAMPLES (fold remove_client_audio ks e) = PLAYED_SAMPLES e"
  "MASTER_VOLUME (fold remove_client_audio ks e) = MASTER_VOLUME e"
  "CLIENT_VOLUMES (fold remove_client_audio ks e) = CLIENT_VOLUMES e"
  "IDENTITY_STASH (fold remove_client_audio ks e) = IDENTITY_STASH e"
  by (induction ks arbitrary: e) (simp_all add: remove_client_audio_def)

lemma fold_remove_stereo:
  "tget (AUDIO_DECODERS_STEREO (fold remove_client_audio ks e)) k
    = (if k \<in> set ks then None else tget (AUDIO_DECODERS_STEREO e) k)"
  by (induction ks arbitrary: e) (auto simp: remove_client_audio_def)

lemma local_drop_session_audio: "local_to cid e (drop_session_audio cid e)"
proof -
  have "local_to cid e (refresh_active_client_snapshot (fold remove_client_audio ks e))"
    if "\<forall>k\<in>set ks. fst k = cid" for ks
    using that by (auto simp: local_to_def refresh_active_client_snapshot_def fold_remove_buffers
      fold_remove_decoders fold_remove_stereo)
  then show ?thesis by (simp add: drop_session_audio_def Let_def)
qed

interpretation local: session_contract local_to
proof
  show "local_to cid e1 e3" if "local_to cid e1 e2" "local_to cid e2 e3" for cid e1 e2 e3
    using that by (rule local_to_trans)
qed (auto simp: local_to_def upd_session_def push_event_def send_to_def local_drop_session_audio [unfolded local_to_def]
  split: option.split)

text \<open>C3. Sessions do not interfere: whatever a turn of one session's event loop meets, every other
  session keeps its state, its budget, its transfers and its waiting commands, the jitter buffers and
  decoders of its speakers stay as they are, and all new events and all messages handed to the
  library belong to the session whose turn it is.\<close>
theorem turn_touches_only_its_session:
  "local_to cid e (fst (loop_turn t cid last_notice e))"
  by (rule local.turn)

end
