(* ===== verification/Transfers.thy ===== *)
theory Transfers
  imports SessionContract FileRequests
begin

text \<open>
  The tasks of \<open>native/src/api.rs\<close> that move files, \<open>spawn_file_download\<close>, \<open>spawn_download_stream\<close> and
  \<open>spawn_file_upload\<close>: what they read, what they leave on the disk and what they report. The disk is a table of
  files; what the socket, the resolver and the disk answer is an input. A task whose inputs are used up still waits.
\<close>

section \<open>Downloads\<close>

type_synonym disk = "rstr \<rightharpoonup> u8 list"

text \<open>
  A read yields what is there (nothing at the end of the stream), or fails or takes more than thirty seconds
  (\<open>None\<close>). A write that fails (\<open>Some\<close>) may have left the file as it was or kept a prefix.
\<close>

record download_world =
  dw_lookup :: "rstr \<Rightarrow> (ip_addr \<times> u16) list option"
  dw_connect :: "ip_addr \<times> u16 \<Rightarrow> bool"
  dw_key_sent :: "rstr \<Rightarrow> bool"
  dw_reads :: "u8 list option list"
  dw_write_error :: "nat option option"
  dw_removed :: bool

text \<open>The errors are \<open>network\<close>, \<open>too_large\<close> and \<open>io\<close>.\<close>

type_synonym 'a task_result = "(rstr + 'a) option"

fun receive_payload :: "nat \<Rightarrow> nat \<Rightarrow> u8 list \<Rightarrow> u8 list option list \<Rightarrow> u8 list task_result" where
  "receive_payload limit announced payload [] = None"
| "receive_payload limit announced payload (None # reads) = Some (Inl (str ''network''))"
| "receive_payload limit announced payload (Some part # reads) =
     (if part = [] then Some (Inr payload)
      else if limit < length payload + length part then Some (Inl (str ''too_large''))
      else let payload = payload @ part in
        if 0 < announced \<and> announced \<le> length payload then Some (Inr payload)
        else receive_payload limit announced payload reads)"

definition download_address ::
    "download_world \<Rightarrow> connection_id \<Rightarrow> ip_addr option \<Rightarrow> u16 \<Rightarrow> engine \<Rightarrow> (ip_addr \<times> u16) option" where
  "download_address w cid ip port e = (case ip of
      Some ip \<Rightarrow> Some (ip, port)
    | None \<Rightarrow>
        let host = (case tget (SESSIONS e) cid of None \<Rightarrow> [] | Some s \<Rightarrow> server_host s) in
        if host = [] then None
        else (case dw_lookup w (host @ str '':'' @ decimal (unat port)) of
            Some (a # _) \<Rightarrow> Some a
          | _ \<Rightarrow> None))"


text \<open>\<open>std::fs::write\<close> and what becomes of the payload.\<close>

definition store_payload :: "download_world \<Rightarrow> rstr \<Rightarrow> u8 list \<Rightarrow> disk \<Rightarrow> u64 task_result \<times> disk" where
  "store_payload w path payload disk = (case dw_write_error w of
      None \<Rightarrow> (Some (Inr (of_nat (length payload))), disk(path \<mapsto> payload))
    | Some None \<Rightarrow> (Some (Inl (str ''io'')), disk)
    | Some (Some n) \<Rightarrow> (Some (Inl (str ''io'')), disk(path \<mapsto> take n payload)))"

definition run_file_download ::
    "download_world \<Rightarrow> connection_id \<Rightarrow> rstr \<Rightarrow> ip_addr option \<Rightarrow> u16 \<Rightarrow> u64 \<Rightarrow> pending_transfer \<Rightarrow> engine \<Rightarrow> disk
      \<Rightarrow> u64 task_result \<times> disk" where
  "run_file_download w cid key ip port announced job e disk =
     (let limit = min (pt_max_bytes job) TRANSFER_HARD_LIMIT in
      if limit < announced then (Some (Inl (str ''too_large'')), disk)
      else case download_address w cid ip port e of
          None \<Rightarrow> (Some (Inl (str ''network'')), disk)
        | Some a \<Rightarrow>
            if \<not> dw_connect w a \<or> \<not> dw_key_sent w key then (Some (Inl (str ''network'')), disk)
            else (case receive_payload (unat limit) (unat announced) [] (dw_reads w) of
                None \<Rightarrow> (None, disk)
              | Some (Inl reason) \<Rightarrow> (Some (Inl reason), disk)
              | Some (Inr payload) \<Rightarrow>
                  if 0 < announced \<and> length payload < unat announced then (Some (Inl (str ''network'')), disk)
                  else store_payload w (pt_target_path job) payload disk))"

text \<open>\<open>spawn_download_stream\<close> has the socket already and no announced size; its reads do not time out.\<close>

definition run_download_stream :: "download_world \<Rightarrow> pending_transfer \<Rightarrow> disk \<Rightarrow> u64 task_result \<times> disk" where
  "run_download_stream w job disk = (case receive_payload (unat (pt_max_bytes job)) 0 [] (dw_reads w) of
      None \<Rightarrow> (None, disk)
    | Some (Inl reason) \<Rightarrow> (Some (Inl reason), disk)
    | Some (Inr payload) \<Rightarrow> store_payload w (pt_target_path job) payload disk)"

definition transfer_event :: "u16 \<Rightarrow> rstr \<Rightarrow> rstr \<Rightarrow> rstr + u64 \<Rightarrow> ts_event" where
  "transfer_event transfer_id remote path r = (case r of
      Inr bytes \<Rightarrow> EvFileTransfer (ucast transfer_id) remote path bytes True None
    | Inl reason \<Rightarrow> EvFileTransfer (ucast transfer_id) remote [] 0 False (Some reason))"

text \<open>The end of both: a failed download is removed, and the result reported.\<close>

definition finish_download ::
    "download_world \<Rightarrow> connection_id \<Rightarrow> u16 \<Rightarrow> pending_transfer \<Rightarrow> engine \<Rightarrow> u64 task_result \<times> disk \<Rightarrow> engine \<times> disk" where
  "finish_download w cid transfer_id job e outcome = (case outcome of
      (None, disk) \<Rightarrow> (e, disk)
    | (Some r, disk) \<Rightarrow>
        (push_event cid (transfer_event transfer_id (pt_remote_path job) (pt_target_path job) r) e,
         if isl r \<and> dw_removed w then disk(pt_target_path job := None) else disk))"

definition spawn_file_download ::
    "download_world \<Rightarrow> connection_id \<Rightarrow> u16 \<Rightarrow> rstr \<Rightarrow> ip_addr option \<Rightarrow> u16 \<Rightarrow> u64 \<Rightarrow> pending_transfer
      \<Rightarrow> engine \<times> disk \<Rightarrow> engine \<times> disk" where
  "spawn_file_download w cid transfer_id key ip port announced job s = (case s of (e, disk) \<Rightarrow>
     finish_download w cid transfer_id job e (run_file_download w cid key ip port announced job e disk))"

definition spawn_download_stream ::
    "download_world \<Rightarrow> connection_id \<Rightarrow> u16 \<Rightarrow> pending_transfer \<Rightarrow> engine \<times> disk \<Rightarrow> engine \<times> disk" where
  "spawn_download_stream w cid transfer_id job s = (case s of (e, disk) \<Rightarrow>
     finish_download w cid transfer_id job e (run_download_stream w job disk))"

section \<open>Uploads\<close>

text \<open>A part is what a read of the file yields, \<open>None\<close> when it fails, and whether the socket takes it.\<close>

record upload_world =
  uw_open :: "rstr \<Rightarrow> bool"
  uw_size :: "rstr \<Rightarrow> u64 option"
  uw_chunks :: "(u8 list option \<times> bool) list"

text \<open>The result, the numbers of bytes reported on the way, and the bytes sent.\<close>

fun upload_chunks :: "u64 \<Rightarrow> u64 \<Rightarrow> (u8 list option \<times> bool) list \<Rightarrow> u64 task_result \<times> u64 list \<times> u8 list" where
  "upload_chunks file_size written [] = (None, [], [])"
| "upload_chunks file_size written ((None, _) # parts) = (Some (Inl (str ''io'')), [], [])"
| "upload_chunks file_size written ((Some part, taken) # parts) =
     (if part = [] then (Some (Inr written), [], [])
      else if \<not> taken then (Some (Inl (str ''network'')), [], [])
      else let n = of_nat (length part); written = written + n in
        case upload_chunks file_size written parts of (r, reports, sent) \<Rightarrow>
          (r, (if (written - n) div 65536 < written div 65536 \<or> written = file_size then written # reports else reports),
           part @ sent))"

definition spawn_file_upload ::
    "upload_world \<Rightarrow> connection_id \<Rightarrow> u16 \<Rightarrow> rstr \<Rightarrow> rstr \<Rightarrow> engine \<Rightarrow> engine" where
  "spawn_file_upload w cid transfer_id remote source e =
     (let file_size = (case uw_size w source of None \<Rightarrow> 0 | Some n \<Rightarrow> n);
          (r, reports, sent) = (if uw_open w source then upload_chunks file_size 0 (uw_chunks w)
             else (Some (Inl (str ''io'')), [], []));
          e = fold (\<lambda>n. push_event cid (EvFileTransferProgress (ucast transfer_id) remote n file_size)) reports e
      in case r of
          None \<Rightarrow> e
        | Some r \<Rightarrow> push_event cid (transfer_event transfer_id remote source r) e)"

section \<open>What a task leaves\<close>

lemma receive_payload_Inr:
  "receive_payload limit announced payload (Some part # reads) = Some (Inr p) \<longleftrightarrow>
     (if part = [] then p = payload
      else length payload + length part \<le> limit
        \<and> (if 0 < announced \<and> announced \<le> length payload + length part then p = payload @ part
           else receive_payload limit announced (payload @ part) reads = Some (Inr p)))"
  by (auto simp: Let_def)

declare receive_payload.simps(3) [simp del]

lemma receive_payload_limit:
  "receive_payload limit announced payload reads = Some (Inr p) \<Longrightarrow> length payload \<le> limit \<Longrightarrow> length p \<le> limit"
proof (induction limit announced payload reads rule: receive_payload.induct)
  case (3 limit announced payload part reads)
  then show ?case by (auto simp: receive_payload_Inr split: if_splits)
qed simp_all

lemma receive_payload_start:
  "receive_payload limit announced [] reads = Some (Inr p) \<Longrightarrow> length p \<le> limit"
  using receive_payload_limit [of limit announced "[]"] by simp

lemma receive_payload_parts:
  "receive_payload limit announced payload reads = Some (Inr p)
    \<Longrightarrow> \<exists>parts rest. reads = map Some parts @ rest \<and> p = payload @ concat parts"
proof (induction limit announced payload reads rule: receive_payload.induct)
  case (3 limit announced payload part reads)
  consider "part = []" "p = payload" | "p = payload @ part"
    | "receive_payload limit announced (payload @ part) reads = Some (Inr p)" "part \<noteq> []"
      "length payload + length part \<le> limit" "\<not> (0 < announced \<and> announced \<le> length payload + length part)"
    using 3(2) by (auto simp: receive_payload_Inr split: if_splits)
  then show ?case
  proof cases
    case 1
    then show ?thesis by - (rule exI [of _ "[]"], simp)
  next
    case 2
    then show ?thesis by - (rule exI [of _ "[part]"], simp)
  next
    case 3
    then obtain parts rest where "reads = map Some parts @ rest" "p = (payload @ part) @ concat parts"
      using "3.IH" by force
    then show ?thesis by - (rule exI [of _ "part # parts"], simp)
  qed
qed simp_all

text \<open>What \<open>store_payload\<close> and the end of a task make of the disk.\<close>

definition only_changes :: "rstr \<Rightarrow> nat \<Rightarrow> disk \<Rightarrow> disk \<Rightarrow> bool" where
  "only_changes path limit disk disk' \<longleftrightarrow> disk'(path := None) = disk(path := None)
     \<and> (disk' path = disk path \<or> (case disk' path of None \<Rightarrow> True | Some c \<Rightarrow> length c \<le> limit))"

lemma only_changes_refl [simp]: "only_changes path limit disk disk"
  by (simp add: only_changes_def)

lemma store_payload_changes:
  "length payload \<le> limit \<Longrightarrow> only_changes path limit disk (snd (store_payload w path payload disk))"
  by (auto simp: store_payload_def only_changes_def split: option.split)

lemma finish_download_changes:
  "only_changes (pt_target_path job) limit disk disk'
    \<Longrightarrow> only_changes (pt_target_path job) limit disk (snd (finish_download w cid i job e (r, disk')))"
  by (auto simp: finish_download_def only_changes_def split: option.split)

lemma unat_min: "unat (min a b) = min (unat a) (unat (b :: 'a::len word))"
  by (simp add: min_def word_le_nat_alt)

lemma transfer_limit: "unat (min m TRANSFER_HARD_LIMIT) = min (unat m) 8388608"
  by (simp add: unat_min TRANSFER_HARD_LIMIT_def)

lemma run_file_download_changes:
  "only_changes (pt_target_path job) (min (unat (pt_max_bytes job)) 8388608) disk
     (snd (run_file_download w cid key ip port announced job e disk))"
  by (auto simp: run_file_download_def Let_def transfer_limit intro!: store_payload_changes dest: receive_payload_start
    split: option.split sum.split)

lemma run_download_stream_changes:
  "only_changes (pt_target_path job) (unat (pt_max_bytes job)) disk (snd (run_download_stream w job disk))"
  by (auto simp: run_download_stream_def intro!: store_payload_changes dest: receive_payload_start
    split: option.split sum.split)

lemma spawned_download_changes:
  "only_changes (pt_target_path job) (min (unat (pt_max_bytes job)) 8388608) disk
     (snd (spawn_file_download w cid i key ip port announced job (e, disk)))"
  "only_changes (pt_target_path job) (unat (pt_max_bytes job)) disk (snd (spawn_download_stream w cid i job (e, disk)))"
  using run_file_download_changes [of job disk w cid key ip port announced e]
    run_download_stream_changes [of job disk w]
  by (simp_all add: spawn_file_download_def spawn_download_stream_def, metis finish_download_changes prod.collapse,
      metis finish_download_changes prod.collapse)

lemma announced_limit: "\<not> min m TRANSFER_HARD_LIMIT < announced \<Longrightarrow> unat announced \<le> min (unat m) 8388608"
  unfolding word_less_nat_alt transfer_limit by linarith


text \<open>What comes with the last bytes is kept, so a file may be longer than the server announced.\<close>

lemma download_keeps_surplus: "receive_payload 10 2 [] [Some [1, 2, 3]] = Some (Inr [1, 2, 3])"
  by (simp add: receive_payload_Inr)

section \<open>Progress of uploads\<close>

definition read_bytes :: "(u8 list option \<times> bool) list \<Rightarrow> u8 list" where
  "read_bytes parts = concat (map (\<lambda>(part, taken). case part of None \<Rightarrow> [] | Some b \<Rightarrow> b) parts)"

lemma read_bytes_simps [simp]:
  "read_bytes [] = []"
  "read_bytes ((None, taken) # parts) = read_bytes parts"
  "read_bytes ((Some part, taken) # parts) = part @ read_bytes parts"
  by (simp_all add: read_bytes_def)

text \<open>A run of the loop from \<open>written\<close> bytes on.\<close>

definition reports_ok :: "u64 \<Rightarrow> u64 \<Rightarrow> u64 task_result \<times> u64 list \<times> u8 list \<Rightarrow> bool" where
  "reports_ok file_size written out \<longleftrightarrow> (case out of (r, reports, sent) \<Rightarrow>
     (let final = unat written + length sent in
      sorted_wrt (<) (written # reports) \<and> (\<forall>n\<in>set reports. unat n \<le> final)
      \<and> length reports \<le> (final div 65536 - unat written div 65536)
          + (if unat written < unat file_size \<and> unat file_size \<le> final then 1 else 0)
      \<and> (\<forall>n. r = Some (Inr n) \<longrightarrow> unat n = final)
      \<and> (unat written < unat file_size \<and> unat file_size \<le> final \<longrightarrow> unat file_size = final \<longrightarrow> file_size \<in> set reports)))"

lemma unat_add_bytes:
  assumes "unat written + n < 2 ^ 64"
  shows "unat ((written :: u64) + of_nat n) = unat written + n"
  using assms by (simp add: unat_word_ariths unat_of_nat take_bit_nat_eq_self)

lemma report_count:
  fixes n w f :: nat
  assumes "a \<le> b" "b \<le> c" "w < w'" "w' \<le> final" "n \<le> (c - b) + (if w' < f \<and> f \<le> final then 1 else 0)"
  shows "(if a < b \<or> w' = f then Suc n else n) \<le> (c - a) + (if w < f \<and> f \<le> final then 1 else 0)"
  using assms by (cases "a < b"; cases "w' = f"; cases "w' < f"; cases "f \<le> final"; cases "w < f"; simp; linarith?)

lemma upload_parts_reports:
  assumes "unat written + length (read_bytes parts) < 2 ^ 64"
  shows "reports_ok file_size written (upload_chunks file_size written parts)"
  using assms
proof (induction file_size written parts rule: upload_chunks.induct)
  case (3 file_size written part taken parts)
  let ?w = "written + of_nat (length part)"
  show ?case
  proof (cases "part = [] \<or> \<not> taken")
    case False
    have w: "unat ?w = unat written + length part" using 3(2) by (intro unat_add_bytes) simp
    then have undo: "?w - of_nat (length part) = written" and less: "written < ?w"
      using False by (simp_all add: word_less_nat_alt)
    obtain r reports sent where out: "upload_chunks file_size ?w parts = (r, reports, sent)" by (metis surj_pair)
    have ih: "reports_ok file_size ?w (r, reports, sent)"
      using "3.IH" [of "of_nat (length part)" ?w] False 3(2) w out by (simp add: add.assoc)
    define final where "final = unat written + length part + length sent"
    have crossed: "(written div 65536 < ?w div 65536) = (unat written div 65536 < unat ?w div 65536)"
      by (simp add: word_less_nat_alt unat_div)
    define report where "report = (unat written div 65536 < unat ?w div 65536 \<or> ?w = file_size)"
    define all where "all = (if report then ?w # reports else reports)"
    have up: "upload_chunks file_size written ((Some part, taken) # parts) = (r, all, part @ sent)"
      using False out undo crossed by (simp add: all_def report_def Let_def)
    have 1: "sorted_wrt (<) (?w # reports)" "\<forall>n\<in>set reports. unat n \<le> final" "\<forall>n. r = Some (Inr n) \<longrightarrow> unat n = final"
        "length reports \<le> (final div 65536 - unat ?w div 65536)
          + (if unat ?w < unat file_size \<and> unat file_size \<le> final then 1 else 0)"
        "unat ?w < unat file_size \<Longrightarrow> unat file_size = final \<Longrightarrow> file_size \<in> set reports"
      using ih w by (simp_all add: reports_ok_def Let_def final_def)
    have le: "unat written div 65536 \<le> unat ?w div 65536" "unat ?w div 65536 \<le> final div 65536"
      using w by (simp_all add: final_def div_le_mono)
    have eq: "?w = file_size \<longleftrightarrow> unat ?w = unat file_size" by (simp add: word_unat_eq_iff)
    have len: "length all = (if unat written div 65536 < unat ?w div 65536 \<or> unat ?w = unat file_size
        then Suc (length reports) else length reports)"
      by (simp add: all_def report_def word_unat_eq_iff)
    have "sorted_wrt (<) (written # all)" "\<forall>n\<in>set all. unat n \<le> final"
      using 1(1,2) less w by (auto simp: all_def final_def)
    moreover have "length all \<le> (final div 65536 - unat written div 65536)
        + (if unat written < unat file_size \<and> unat file_size \<le> final then 1 else 0)"
      unfolding len using w False by (intro report_count [OF le _ _ 1(4)]) (simp_all add: final_def)
    moreover have "unat written < unat file_size \<Longrightarrow> unat file_size = final \<Longrightarrow> file_size \<in> set all"
      using 1(5) w eq by (cases "unat ?w < unat file_size") (auto simp: all_def report_def final_def)
    moreover have "unat written + length (part @ sent) = final" by (simp add: final_def)
    ultimately show ?thesis
      unfolding reports_ok_def up using 1(3) by (simp only: prod.case Let_def) blast
  qed (auto simp: reports_ok_def)
qed (auto simp: reports_ok_def)


text \<open>C8. The progress of an upload: the numbers reported rise, none exceeds what was sent, there is at most one for every
  64 KiB and one more, an upload that ends reports all it sent as its result, and reaching the size the file had is
  reported on the way.
\<close>

theorem uploads_report_progress:
  assumes "length (read_bytes parts) < 2 ^ 64"
  shows "case upload_chunks file_size 0 parts of (r, reports, sent) \<Rightarrow>
    sorted_wrt (<) reports \<and> (\<forall>n\<in>set reports. unat n \<le> length sent) \<and> length reports \<le> length sent div 65536 + 1
    \<and> (\<forall>n. r = Some (Inr n) \<longrightarrow> unat n = length sent \<and> (n = file_size \<and> n \<noteq> 0 \<longrightarrow> n \<in> set reports))"
proof -
  obtain r reports sent where out: "upload_chunks file_size 0 parts = (r, reports, sent)" by (metis surj_pair)
  have ok: "reports_ok file_size 0 (r, reports, sent)"
    using upload_parts_reports [of 0 parts file_size] assms out by simp
  then have 1: "sorted_wrt (<) reports" "\<forall>n\<in>set reports. unat n \<le> length sent"
      "length reports \<le> length sent div 65536 + (if 0 < unat file_size \<and> unat file_size \<le> length sent then 1 else 0)"
      "\<forall>n. r = Some (Inr n) \<longrightarrow> unat n = length sent"
    and 2: "0 < unat file_size \<Longrightarrow> unat file_size = length sent \<Longrightarrow> file_size \<in> set reports"
    by (simp_all add: reports_ok_def Let_def)
  have "length reports \<le> length sent div 65536 + 1" using 1(3) by (auto split: if_splits)
  moreover have "n \<in> set reports" if "r = Some (Inr n)" "n = file_size" "n \<noteq> 0" for n
    proof -
    have "unat file_size = length sent" using that 1(4) by simp
    moreover have "0 < unat file_size" using that(2,3) unat_eq_zero [of file_size] by blast
    ultimately have "unat file_size = length sent" "0 < unat file_size" by simp_all
    then show ?thesis using 2 that by simp
  qed
  ultimately show ?thesis using 1 by (simp add: out)
qed

theorem uploads_report_progress_witness:
  "case upload_chunks 3 0 [(Some [1, 2, 3], True), (Some [], True)] of (r, reports, sent) \<Rightarrow> length reports \<le> 1 \<and> length sent = 3"
  using uploads_report_progress [of "[(Some [1, 2, 3], True), (Some [], True)]" 3] by simp

section \<open>Downloads that are waited for\<close>

definition pending_of :: "connection_id \<Rightarrow> engine \<Rightarrow> u16 \<rightharpoonup> pending_transfer" where
  "pending_of cid e = (case tget (SESSIONS e) cid of None \<Rightarrow> Map.empty | Some s \<Rightarrow> pending_transfers s)"

definition fewer :: "connection_id \<Rightarrow> engine \<Rightarrow> engine \<Rightarrow> bool" where
  "fewer cid e e' \<longleftrightarrow> (\<forall>j. pending_of j e' \<subseteq>\<^sub>m pending_of j e)"

lemma fewer_same: "SESSIONS e' = SESSIONS e \<Longrightarrow> fewer cid e e'"
  by (simp add: fewer_def pending_of_def)

lemma fewer_upd_session: "(\<And>s. pending_transfers (f s) \<subseteq>\<^sub>m pending_transfers s) \<Longrightarrow> fewer cid e (upd_session j f e)"
  by (auto simp: fewer_def pending_of_def split: option.split)

interpretation fewer: session_contract fewer
proof
  show "fewer cid e1 e3" if "fewer cid e1 e2" "fewer cid e2 e3" for cid e1 e2 e3
    using that map_le_trans unfolding fewer_def by blast
  show "fewer cid e (e\<lparr>SESSIONS := tdel cid (SESSIONS e)\<rparr>)" for cid e
    by (simp add: fewer_def pending_of_def)
qed (auto intro: fewer_upd_session fewer_same)

lemma ran_fewer: "job \<in> ran (pending_of cid e') \<Longrightarrow> fewer cid e e' \<Longrightarrow> job \<in> ran (pending_of cid e)"
proof -
  assume "job \<in> ran (pending_of cid e')" and f: "fewer cid e e'"
  then obtain i where i: "pending_of cid e' i = Some job" by (auto simp: ran_def)
  then have "pending_of cid e i = pending_of cid e' i"
    using f unfolding fewer_def map_le_def by (metis domI)
  then show ?thesis using i by (simp add: ranI)
qed

text \<open>The downloads that items start were pending in their session.\<close>

definition were_pending :: "connection_id \<Rightarrow> engine \<Rightarrow> spawned list \<Rightarrow> bool" where
  "were_pending cid e ts \<longleftrightarrow> (\<forall>d\<in>set (downloads ts). snd d \<in> ran (pending_of cid e))"

lemma were_pending_simps [simp]:
  "were_pending cid e []" "were_pending cid e (ts @ ts') = (were_pending cid e ts \<and> were_pending cid e ts')"
  by (auto simp: were_pending_def List.map_filter_simps)

lemma were_pending_fewer: "were_pending cid e' ts \<Longrightarrow> fewer cid e e' \<Longrightarrow> were_pending cid e ts"
  unfolding were_pending_def using ran_fewer by blast

lemma file_downloads_pending:
  "fold (handle_file_download cid) ds (e, ts) = (e', ts') \<Longrightarrow> were_pending cid e0 ts \<Longrightarrow> fewer cid e0 e
    \<Longrightarrow> were_pending cid e0 ts'"
proof (induction ds arbitrary: e ts)
  case (Cons d ds)
  obtain e1 ts1 where 1: "handle_file_download cid d (e, ts) = (e1, ts1)" by fastforce
  have "fewer cid e e1" using fewer.file_download [of cid "(e, ts)" d] 1 by simp
  then have "fewer cid e0 e1" using Cons.prems(3) fewer.trans by blast
  moreover have "were_pending cid e0 ts1"
  proof (cases "Option.bind (tget (SESSIONS e) cid) (\<lambda>s. pending_transfers s (dp_client_filetransfer_id d))")
    case (Some job)
    then have "job \<in> ran (pending_of cid e)"
      by (auto simp: pending_of_def ran_def split: Option.bind_splits)
    then have "job \<in> ran (pending_of cid e0)"
      using Cons.prems(3) ran_fewer by blast
    then show ?thesis
      using Some 1 Cons.prems(2)
      by (auto simp: handle_file_download_def were_pending_def download_of_def List.map_filter_simps)
  qed (use 1 Cons.prems(2) in \<open>simp add: handle_file_download_def\<close>)
  ultimately show ?case using Cons.IH [of e1 ts1] Cons.prems(1) 1 by simp
qed simp

lemma item_pending: "were_pending cid e (snd (handle_control_item v cid item e))"
proof (cases item)
  case (SiMessageEvent msg)
  have "were_pending cid e (snd (handle_message v cid msg e))"
  proof (cases msg)
    case (ImFileDownload ds)
    obtain e' ts where "fold (handle_file_download cid) ds (e, []) = (e', ts)" by fastforce
    then show ?thesis using file_downloads_pending fewer.same ImFileDownload by (fastforce simp: handle_message_def)
  qed (simp_all add: handle_message_def)
  then show ?thesis by (simp add: SiMessageEvent handle_control_item_def)
next
  case (SiFileDownload h)
  then show ?thesis
    by (auto simp: handle_control_item_def were_pending_def download_of_def List.map_filter_simps pending_of_def ran_def
      split: option.split Option.bind_splits)
next
  case (SiFileUpload h)
  then show ?thesis
    by (auto simp: handle_control_item_def were_pending_def download_of_def List.map_filter_simps split: option.split)
qed (auto simp: handle_control_item_def split: option.split)

lemma items_pending: "were_pending cid e (snd (handle_items v cid its e))"
proof (induction its arbitrary: e)
  case (Cons item its)
  obtain e1 ts where 1: "handle_control_item v cid item e = (e1, ts)" by fastforce
  have "were_pending cid e ts" "fewer cid e e1"
    using item_pending [of cid e v item] fewer.control_item [of cid e v item] 1 by simp_all
  then show ?case using Cons [of e1] 1 were_pending_fewer by (simp add: split_def)
qed simp

lemma turn_pending: "were_pending cid e (fst (snd (snd (loop_turn t cid last_notice e))))"
proof -
  let ?e = "clean_indicators (te_now t) cid e"
  obtain e1 l g where 1: "run_commands t cid last_notice ?e = (e1, l, g)" by (metis prod_cases3)
  obtain e2 ds lv where 2: "poll_first t cid e1 = (e2, ds, lv)" by (metis prod_cases3)
  obtain e3 its where 3: "poll_rest t cid (te_rest t) e2 = (e3, its)" by fastforce
  obtain e4 ts where 4: "handle_items (te_view t) cid (its @ ds) e3 = (e4, ts)" by fastforce
  have "fewer cid e ?e" by (simp add: clean_indicators_def fewer.state)
  moreover have "fewer cid ?e e1" "fewer cid e1 e2" "fewer cid e2 e3"
    using fewer.commands [of cid ?e t last_notice] fewer.first_poll [of cid e1 t] fewer.other_polls [of cid e2 t "te_rest t"]
      1 2 3 by simp_all
  ultimately have "fewer cid e e3" by (blast intro: fewer.trans)
  moreover have "were_pending cid e3 ts" using items_pending [of cid e3 "te_view t" "its @ ds"] 4 by simp
  ultimately have "were_pending cid e ts" by (rule were_pending_fewer [rotated])
  then show ?thesis by (simp add: loop_turn_def Let_def poll_events_def 1 2 3 4)
qed

section \<open>Histories\<close>

datatype 'e transfer_step =
    DoConnect instant connect_args
  | DoConnectTask "'e connect_env" connection_id connect_args
  | DoDownload connection_id u64 c_str c_str c_str u64
  | DoUpload "rstr \<Rightarrow> u64 option" connection_id u64 c_str c_str c_str u8
  | DoCancel connection_id u32
  | DoTurn turn_env connection_id instant
  | RunDownload nat download_world
  | RunUpload nat upload_world

text \<open>The engine, the tasks that have been started and not run yet, each with its session, and the disk.\<close>

type_synonym transfer_state = "engine \<times> (connection_id \<times> spawned) list \<times> disk"

definition end_turn :: "connection_id \<Rightarrow> turn_end \<Rightarrow> engine \<Rightarrow> engine" where
  "end_turn cid r e = (case r of
      GoOn \<Rightarrow> e
    | Returned \<Rightarrow> drop_receiver cid e
    | Left \<Rightarrow> drop_receiver cid (server_closed cid e))"

definition run_download_task ::
    "download_world \<Rightarrow> connection_id \<Rightarrow> spawned \<Rightarrow> engine \<times> disk \<Rightarrow> engine \<times> disk" where
  "run_download_task w cid t s = (case t of
      SpawnFileDownload i key ip port announced job \<Rightarrow> spawn_file_download w cid i key ip port announced job s
    | SpawnDownloadStream i job \<Rightarrow> spawn_download_stream w cid i job s
    | SpawnFileUpload _ _ _ \<Rightarrow> s)"

definition run_upload_task :: "upload_world \<Rightarrow> connection_id \<Rightarrow> spawned \<Rightarrow> engine \<Rightarrow> engine" where
  "run_upload_task w cid t e = (case t of
      SpawnFileUpload i remote source \<Rightarrow> spawn_file_upload w cid i remote source e | _ \<Rightarrow> e)"

definition remove_nth :: "nat \<Rightarrow> 'a list \<Rightarrow> 'a list" where
  "remove_nth n xs = take n xs @ drop (Suc n) xs"

fun transfer_do :: "'e transfer_step \<Rightarrow> transfer_state \<Rightarrow> transfer_state" where
  "transfer_do (DoConnect now args) (e, ts, disk) = (fst (ts_connect now args e), ts, disk)"
| "transfer_do (DoConnectTask env cid args) (e, ts, disk) = (run_connect_task env cid args e, ts, disk)"
| "transfer_do (DoDownload cid channel remote password target max_bytes) (e, ts, disk) =
     (fst (ts_download_file cid channel remote password target max_bytes e), ts, disk)"
| "transfer_do (DoUpload sizes cid channel remote password source over) (e, ts, disk) =
     (fst (ts_upload_file sizes cid channel remote password source over e), ts, disk)"
| "transfer_do (DoCancel cid i) (e, ts, disk) = (fst (ts_cancel_file_transfer cid i e), ts, disk)"
| "transfer_do (DoTurn t cid last_notice) (e, ts, disk) = (case loop_turn t cid last_notice e of
     (e, _, new, r) \<Rightarrow> (end_turn cid r e, ts @ map (Pair cid) new, disk))"
| "transfer_do (RunDownload n w) (e, ts, disk) =
     (if n < length ts then case run_download_task w (fst (ts ! n)) (snd (ts ! n)) (e, disk) of
        (e, disk) \<Rightarrow> (e, remove_nth n ts, disk) else (e, ts, disk))"
| "transfer_do (RunUpload n w) (e, ts, disk) =
     (if n < length ts then (run_upload_task w (fst (ts ! n)) (snd (ts ! n)) e, remove_nth n ts, disk) else (e, ts, disk))"

text \<open>An absolute path that does not climb, and the most a file may hold.\<close>

definition safe_path :: "rstr \<Rightarrow> bool" where
  "safe_path path \<longleftrightarrow> starts_with 47 path \<and> \<not> contains_str (str ''..'') path"

definition safe_job :: "pending_transfer \<Rightarrow> bool" where
  "safe_job job \<longleftrightarrow> safe_path (pt_target_path job) \<and> unat (pt_max_bytes job) \<le> 8388608"

definition engine_safe :: "engine \<Rightarrow> bool" where
  "engine_safe e \<longleftrightarrow> (\<forall>cid. \<forall>job\<in>ran (pending_of cid e). safe_job job)"

definition bounded_change :: "disk \<Rightarrow> disk \<Rightarrow> bool" where
  "bounded_change disk0 disk \<longleftrightarrow> (\<forall>path. disk path = disk0 path
     \<or> safe_path path \<and> (case disk path of None \<Rightarrow> True | Some c \<Rightarrow> length c \<le> 8388608))"

definition transfers_safe :: "disk \<Rightarrow> transfer_state \<Rightarrow> bool" where
  "transfers_safe disk0 s \<longleftrightarrow> (case s of (e, ts, disk) \<Rightarrow>
     engine_safe e \<and> (\<forall>t\<in>set ts. \<forall>d\<in>set (downloads [snd t]). safe_job (snd d)) \<and> bounded_change disk0 disk)"

lemma engine_safe_fewer: "engine_safe e \<Longrightarrow> fewer cid e e' \<Longrightarrow> engine_safe e'"
  unfolding engine_safe_def using ran_fewer unfolding fewer_def by blast

lemma fewer_keeps:
  "fewer cid e e' \<Longrightarrow> fewer cid e (e'\<lparr>IDENTITY_STASH := x\<rparr>)"
  "fewer cid e e' \<Longrightarrow> fewer cid e (e'\<lparr>MAINTENANCE_STARTED := y\<rparr>)"
  "fewer cid e e' \<Longrightarrow> fewer cid e (e'\<lparr>cmd_rx := z\<rparr>)"
  "fewer cid e e' \<Longrightarrow> fewer cid e (ensure_output_stream_running ok e')"
  by (rule fewer.trans, assumption, rule fewer_same, simp add: ensure_output_stream_running_def)+

lemma fewer_connect: "fewer cid e (fst (ts_connect now args e))"
proof -
  have "fewer cid e (e\<lparr>NEXT_CONNECTION_ID := n, SESSIONS := tput i (session_new now i st\<lparr>server_host := h\<rparr>) (SESSIONS e)\<rparr>)"
    for n i st h
    by (simp add: fewer_def pending_of_def session_new_def)
  then show ?thesis by (simp add: ts_connect_def Let_def fewer.trans [OF _ fewer_upd_session])
qed

lemma fewer_handshake: "fewer cid e (fst (handshake render cid announced its fin e))"
proof (induction render cid announced its fin e rule: handshake.induct)
  case (3 render cid announced level items fin e)
  show ?case
    using fewer.trans [OF _ 3] fewer.trans [OF fewer.event fewer.event] fewer.event by (simp add: push_phase_def Let_def)
next
  case (4 render cid announced items fin e)
  then show ?case using fewer.trans [OF fewer.event] by (cases announced) (simp_all add: push_phase_def)
qed (simp_all add: fewer.same)

lemma fewer_established: "fewer cid e (fst (connect_established env cid bk e))"
  by (auto simp: connect_established_def Let_def fewer.same
    intro!: fewer_keeps fewer.after fewer.same split: option.split)

lemma fewer_do_connect: "fewer cid e (fst (do_connect env cid args e))"
proof -
  let ?e = "push_phase cid Connecting ((push_phase cid Resolving e)\<lparr>IDENTITY_STASH := None\<rparr>)"
  have p: "fewer cid e ?e" "fewer cid e ((push_phase cid Resolving e)\<lparr>IDENTITY_STASH := None\<rparr>)"
    unfolding push_phase_def by (intro fewer.after fewer_keeps fewer.event)+
  obtain e1 h where 1: "handshake (ce_error_text env) cid False (ce_items env) (ce_end env) ?e = (e1, h)" by fastforce
  have e1: "fewer cid e e1" using fewer.trans [OF p(1) fewer_handshake] 1 by (metis fst_conv)
  then have e2: "fewer cid e (send_to cid OutChannelSubscribeAll e1)" by (rule fewer.after)
  have "fewer cid e (fst (connect_established env cid bk (send_to cid OutChannelSubscribeAll e1)))" for bk
    using fewer.trans [OF e2 fewer_established] .
  then show ?thesis
    using p e1 e2 1
    by (auto simp: do_connect_def Let_def push_phase_def split: option.split sum.split handshake_outcome.split)
qed

lemma fewer_connect_task: "fewer cid e (run_connect_task env cid args e)"
proof -
  obtain e1 r where 1: "do_connect env cid args e = (e1, r)" by fastforce
  have "fewer cid e e1" using fewer_do_connect [of cid e env args] 1 by simp
  then show ?thesis
    by (auto simp: run_connect_task_def 1 Let_def intro!: fewer.after split: connect_result.split)
qed

lemma fewer_queue: "fewer cid e (fst (queue_command cid c e))"
  by (auto simp: queue_command_def fewer.same intro: fewer_same split: option.split)

lemma fst_answer: "fst (case q of (e, True) \<Rightarrow> (e, a) | (e, False) \<Rightarrow> (e, b)) = fst q"
  by (cases q; cases "snd q") simp_all

lemma fewer_upload: "fewer cid e (fst (ts_upload_file sizes cid ch remote pw source over e))"
proof -
  have q: "fewer cid e (fst (queue_command cid c (upd_session cid (\<lambda>s. s\<lparr>next_transfer_id := next_transfer_id s + 1\<rparr>) e)))"
    for c
    by (rule fewer.trans [OF _ fewer_queue]) (simp add: fewer.upd)
  show ?thesis
    by (simp add: ts_upload_file_def Let_def fewer.same fst_answer q split: option.split)
qed

lemma fewer_cancel: "fewer cid e (fst (ts_cancel_file_transfer cid i e))"
  by (auto simp: ts_cancel_file_transfer_def fewer.same map_le_def intro!: fewer_upd_session split: option.split)

lemma download_safe:
  assumes "engine_safe e"
  shows "engine_safe (fst (ts_download_file cid ch remote pw target max_bytes e))"
proof -
  obtain e' r where 1: "ts_download_file cid ch remote pw target max_bytes e = (e', r)" by fastforce
  have other: "tget (SESSIONS e') j = tget (SESSIONS e) j" if "j \<noteq> cid" for j
    using 1 that by (auto simp: ts_download_file_def queue_command_def Let_def split: option.splits if_splits prod.splits)
  have spec: "if r = 0 then rel_option (\<lambda>s s'. no_new_entries (pending_transfers s) (pending_transfers s'))
         (tget (SESSIONS e) cid) (tget (SESSIONS e') cid)
     else \<exists>s t rp tp. starts_with 47 tp \<and> \<not> contains_str (str ''..'') tp \<and> max_bytes \<le> 8388608
       \<and> tget (SESSIONS e) cid = Some s
       \<and> tget (SESSIONS e') cid = Some (s\<lparr>next_transfer_id := next_transfer_id s + 1,
           pending_transfers := (pending_transfers s)(t \<mapsto>
             \<lparr>pt_target_path = tp, pt_max_bytes = max_bytes, pt_remote_path = rp\<rparr>)\<rparr>)"
    using ts_download_file_spec [where cid = cid and ch = ch and remote = remote and pw = pw and target = target
      and max_bytes = max_bytes and e = e] 1 by (auto split: if_splits)
  have "safe_job job" if "pending_of j e' i = Some job" for j i job
  proof (cases "pending_of j e i = Some job")
    case True
    then show ?thesis using assms by (auto simp: engine_safe_def ran_def)
  next
    case False
    then have "j = cid" using that other unfolding pending_of_def by metis
    show ?thesis
    proof (cases "r = 0")
      case True
      obtain s' where s': "tget (SESSIONS e') cid = Some s'" "pending_transfers s' i = Some job"
        using \<open>pending_of j e' i = Some job\<close> \<open>j = cid\<close> by (auto simp: pending_of_def split: option.splits)
      then obtain s where "tget (SESSIONS e) cid = Some s" "pending_transfers s' \<subseteq>\<^sub>m pending_transfers s"
        using spec True by (auto simp: no_new_entries_def option_rel_Some2)
      then have "pending_of j e i = Some job"
        using \<open>j = cid\<close> s' by (auto simp: pending_of_def map_le_def dom_def)
      then show ?thesis using False by simp
    next
      case False
      then show ?thesis
        using that \<open>pending_of j e i \<noteq> Some job\<close> \<open>j = cid\<close> spec
        by (auto simp: pending_of_def safe_job_def safe_path_def word_le_nat_alt split: if_splits)
    qed
  qed
  then show ?thesis by (auto simp: 1 engine_safe_def ran_def)
qed

lemma only_changes_safe:
  assumes "bounded_change disk0 disk" "only_changes path limit disk disk'" "limit \<le> 8388608" "safe_path path"
  shows "bounded_change disk0 disk'"
proof -
  have "disk' p = disk0 p \<or> safe_path p \<and> (case disk' p of None \<Rightarrow> True | Some c \<Rightarrow> length c \<le> 8388608)" for p
  proof (cases "p = path \<and> disk' path \<noteq> disk path")
    case True
    then show ?thesis using assms(2-4) by (auto simp: only_changes_def split: option.splits)
  next
    case False
    then have "disk' p = disk p" using assms(2) unfolding only_changes_def by (metis fun_upd_other)
    then show ?thesis using assms(1) by (simp add: bounded_change_def)
  qed
  then show ?thesis by (simp add: bounded_change_def)
qed

lemma pushed_events:
  "fewer cid e (fst (finish_download w j i job e out))"
  "fewer cid e (spawn_file_upload w' j i remote source e)"
  by (auto simp: finish_download_def spawn_file_upload_def Let_def fewer_same split: prod.split option.split)

lemma run_task_safe:
  assumes "engine_safe e" "bounded_change disk0 disk" "\<forall>d\<in>set (downloads [t]). safe_job (snd d)"
  shows "case run_download_task w cid t (e, disk) of (e', disk') \<Rightarrow> engine_safe e' \<and> bounded_change disk0 disk'"
proof (cases t)
  case (SpawnFileDownload i key ip port announced job)
  then have "safe_job job" using assms(3) by (simp add: download_of_def List.map_filter_simps)
  then have "bounded_change disk0 (snd (spawn_file_download w cid i key ip port announced job (e, disk)))"
    using only_changes_safe [OF assms(2) spawned_download_changes(1)] by (simp add: safe_job_def)
  moreover have "engine_safe (fst (spawn_file_download w cid i key ip port announced job (e, disk)))"
    using engine_safe_fewer [OF assms(1) pushed_events(1)] by (simp add: spawn_file_download_def)
  ultimately show ?thesis by (simp add: run_download_task_def SpawnFileDownload split_def)
next
  case (SpawnDownloadStream i job)
  then have "safe_job job" using assms(3) by (simp add: download_of_def List.map_filter_simps)
  then have "bounded_change disk0 (snd (spawn_download_stream w cid i job (e, disk)))"
    using only_changes_safe [OF assms(2) spawned_download_changes(2)] by (simp add: safe_job_def)
  moreover have "engine_safe (fst (spawn_download_stream w cid i job (e, disk)))"
    using engine_safe_fewer [OF assms(1) pushed_events(1)] by (simp add: spawn_download_stream_def)
  ultimately show ?thesis by (simp add: run_download_task_def SpawnDownloadStream split_def)
qed (use assms in \<open>simp add: run_download_task_def\<close>)

lemma set_remove_nth: "set (remove_nth n xs) \<subseteq> set xs"
  by (auto simp: remove_nth_def dest: in_set_takeD in_set_dropD)

lemma end_turn_fewer: "fewer cid e (end_turn cid r e)"
proof -
  have "fewer cid e (drop_receiver cid e)" for e by (simp add: drop_receiver_def fewer_same)
  then show ?thesis
    by (auto simp: end_turn_def server_closed_def fewer.same intro: fewer.trans [OF fewer.finalize] split: turn_end.split)
qed

lemma downloads_single: "d \<in> set (downloads [x]) \<Longrightarrow> x \<in> set xs \<Longrightarrow> d \<in> set (downloads xs)"
  by (induction xs) (auto simp: List.map_filter_simps split: option.splits)

lemma transfer_do_safe:
  assumes "transfers_safe disk0 (e, ts, disk)"
  shows "transfers_safe disk0 (transfer_do step (e, ts, disk))"
proof -
  have e: "engine_safe e" and ts: "\<forall>t\<in>set ts. \<forall>d\<in>set (downloads [snd t]). safe_job (snd d)"
      and disk: "bounded_change disk0 disk"
    using assms by (simp_all add: transfers_safe_def)
  have rest: "\<forall>t\<in>set (remove_nth n ts). \<forall>d\<in>set (downloads [snd t]). safe_job (snd d)" for n
    using ts set_remove_nth by fast
  have keep: "transfers_safe disk0 (e', ts, disk)" if "fewer cid e e'" for cid e'
    using engine_safe_fewer [OF e that] ts disk by (simp add: transfers_safe_def)
  have down: "transfers_safe disk0 (fst (ts_download_file cid ch remote pw target n e), ts, disk)" for cid ch remote pw target n
    using download_safe [OF e] ts disk by (simp add: transfers_safe_def)
  show ?thesis
  proof (cases step)
    case (DoTurn t cid last_notice)
    obtain e' l new r where 1: "loop_turn t cid last_notice e = (e', l, new, r)" by (metis prod_cases4)
    have "fewer cid e e'" using fewer.turn [of cid e t last_notice] 1 by simp
    then have "engine_safe (end_turn cid r e')" using engine_safe_fewer e end_turn_fewer by blast
    moreover have "safe_job (snd d)" if "d \<in> set (downloads [x])" "x \<in> set new" for d x
    proof -
      have "d \<in> set (downloads new)" by (rule downloads_single [OF that])
      then have "snd d \<in> ran (pending_of cid e)"
        using turn_pending [of cid e t last_notice] 1 by (simp add: were_pending_def)
      then show ?thesis using e by (simp add: engine_safe_def)
    qed
    ultimately show ?thesis using ts disk by (auto simp: DoTurn 1 transfers_safe_def)
  next
    case (RunDownload n w)
    show ?thesis
    proof (cases "n < length ts")
      case True
      then have "\<forall>d\<in>set (downloads [snd (ts ! n)]). safe_job (snd d)" using ts nth_mem by blast
      then show ?thesis
        using run_task_safe [OF e disk, of "snd (ts ! n)" w "fst (ts ! n)"] rest True
        by (auto simp: RunDownload transfers_safe_def split: prod.splits)
    qed (use assms RunDownload in simp)
  next
    case (RunUpload n w)
    have "engine_safe (run_upload_task w cid t e)" for cid t
      by (cases t) (simp_all add: run_upload_task_def e engine_safe_fewer [OF e pushed_events(2)])
    then show ?thesis using assms rest by (simp add: RunUpload transfers_safe_def)
  qed (simp_all add: keep [OF fewer_connect] keep [OF fewer_connect_task] keep [OF fewer_upload] keep [OF fewer_cancel] down)
qed

text \<open>C6. Whatever is connected, asked for and cancelled, whatever the servers send and however the tasks end: a file
  of the disk only changes at an absolute path that does not climb, and then it is gone or holds at most 8 MiB.
\<close>

theorem downloads_stay_in_bounds:
  "case fold transfer_do steps (engine_new level, [], disk0) of (e, ts, disk) \<Rightarrow>
     disk path = disk0 path \<or> starts_with 47 path \<and> \<not> contains_str (str ''..'') path
       \<and> (case disk path of None \<Rightarrow> True | Some c \<Rightarrow> length c \<le> 8388608)"
proof -
  have "transfers_safe disk0 (fold transfer_do steps s)" if "transfers_safe disk0 s" for s
    using that
  proof (induction steps arbitrary: s)
    case (Cons step steps)
    obtain e ts disk where s: "s = (e, ts, disk)" by (metis surj_pair)
    then have "transfers_safe disk0 (transfer_do step s)" using Cons.prems by (simp add: transfer_do_safe)
    then show ?case using Cons.IH by simp
  qed simp
  moreover have "transfers_safe disk0 (engine_new level, [], disk0)"
    by (simp add: transfers_safe_def engine_safe_def pending_of_def engine_new_def bounded_change_def)
  ultimately have "transfers_safe disk0 (fold transfer_do steps (engine_new level, [], disk0))" by blast
  then show ?thesis by (auto simp: transfers_safe_def bounded_change_def safe_path_def split: prod.split)
qed

end
