(* ===== verification/Delivery.thy ===== *)
theory Delivery
  imports EventLoop
begin

text \<open>
  What the layers do together: how an accepted request becomes a message of the event loop's turn, in
  which order a turn handles what it polled, and how a turn ends the session.
\<close>

section \<open>The commands of a turn\<close>

text \<open>Only commands that count against the budget ever wait in it.\<close>

definition paced_queue :: "command_budget \<Rightarrow> bool" where
  "paced_queue b \<longleftrightarrow> (\<forall>c\<in>set (queue b). \<not> unpaced c)"

lemma message_of_paced: "message_of c \<noteq> None \<longleftrightarrow> \<not> unpaced c"
  by (cases c) (simp_all add: message_of_defs unpaced_def split: prod.split)

lemma replace_superseded_set: "replace_superseded c qs = Some q \<Longrightarrow> set q \<subseteq> insert c (set qs)"
  by (induction qs arbitrary: q) (auto split: if_splits)

lemma paced_enqueue: "paced_queue b \<Longrightarrow> \<not> unpaced c \<Longrightarrow> paced_queue (enqueue c b)"
  by (auto simp: paced_queue_def enqueue_def Let_def dest!: replace_superseded_set dest: list.set_sel(2)
    split: option.split)
    (metis list.sel(2) list.set_sel(2))

lemma paced_enqueue_all: "paced_queue b \<Longrightarrow> \<forall>c\<in>set cs. \<not> unpaced c \<Longrightarrow> paced_queue (fold enqueue cs b)"
  by (induction cs arbitrary: b) (auto intro: paced_enqueue)

lemma drain_ready_queue: "drain_ready now b = (b', cs) \<Longrightarrow> queue b = cs @ queue b'"
proof (induction now b arbitrary: b' cs rule: drain_ready.induct)
  case (1 now b)
  show ?case
  proof (cases "take_ready now b")
    case (Pair b1 r)
    show ?thesis
    proof (cases r)
      case None
      then have "drain_ready now b = (b1, [])" by (subst drain_ready.simps) (simp add: Pair)
      then show ?thesis using "1.prems" take_ready_None_queue [of now b b1] Pair None by simp
    next
      case (Some c)
      obtain b2 cs2 where 2: "drain_ready now b1 = (b2, cs2)" by fastforce
      have "drain_ready now b = (b2, c # cs2)"
        by (subst drain_ready.simps) (simp add: Pair Some 2)
      then have "b' = b2" "cs = c # cs2" using "1.prems" by simp_all
      then show ?thesis
        using "1.IH" [OF Pair [symmetric] Some 2] take_ready_Some_queue [of now b b1 c] Pair Some by simp
    qed
  qed
qed

lemma send_command_budget [simp]:
  "map_option sess_budget (tget (SESSIONS (send_command env cid c msg e)) j) = map_option sess_budget (tget (SESSIONS e) j)"
proof -
  have "map_option sess_budget (tget (SESSIONS (register_upload cid c h e)) j) = map_option sess_budget (tget (SESSIONS e) j)" for h e
    by (cases c; simp add: register_upload_def option.map_comp comp_def)
  then show ?thesis by (simp add: send_command_def Let_def split: option.split sum.split)
qed

lemma dispatch_all_budget:
  assumes "session cid e \<noteq> None" and "\<forall>c\<in>set cs. message_of c \<noteq> None"
  shows "map_option sess_budget (tget (SESSIONS (fst (dispatch_all env cid cs e))) cid)
      = map_option sess_budget (tget (SESSIONS e) cid)
    \<and> cmd_rx (fst (dispatch_all env cid cs e)) = cmd_rx e"
  using assms
proof (induction cs arbitrary: e)
  case (Cons c cs)
  obtain st where st: "session cid e = Some st" using Cons.prems(1) by blast
  obtain msg where msg: "message_of c = Some msg" using Cons.prems(2) by auto
  let ?e = "send_command env cid c msg e"
  have "session cid ?e \<noteq> None" "\<forall>c\<in>set cs. message_of c \<noteq> None" using st Cons.prems(2) by simp_all
  from Cons.IH [OF this] show ?case by (simp add: dispatch_message [OF st msg])
qed simp

lemma turn_batch:
  assumes "tget (SESSIONS e) cid = Some s" and "cmd_rx e cid = Some cs" and "\<forall>c\<in>set cs. \<not> unpaced c"
    and "\<forall>c\<in>set (queue (sess_budget s)). \<not> unpaced c"
    and "drain_ready (te_now t) (fold enqueue cs (sess_budget s)) = (b, released)"
    and "run_commands t cid last_notice e = (e', last_notice', go_on)"
  shows "go_on
    \<and> outbox e' = outbox e @ map (\<lambda>c. (cid, the (message_of c))) released
    \<and> queue (fold enqueue cs (sess_budget s)) = released @ queue b
    \<and> map_option sess_budget (tget (SESSIONS e') cid) = Some b \<and> cmd_rx e' cid = Some []"
proof -
  have none: "filter unpaced cs = []" and all: "filter (\<lambda>c. \<not> unpaced c) cs = cs"
    using assms(3) by (simp_all add: filter_empty_conv)
  let ?e1 = "upd_session cid (\<lambda>s. s\<lparr>sess_budget := fold enqueue cs (sess_budget s)\<rparr>)
    (e\<lparr>cmd_rx := (cmd_rx e)(cid \<mapsto> [])\<rparr>)"
  let ?e2 = "upd_session cid (\<lambda>s. s\<lparr>sess_budget := b\<rparr>) ?e1"
  have q: "queue (fold enqueue cs (sess_budget s)) = released @ queue b"
    using drain_ready_queue [OF assms(5)] .
  have "paced_queue (fold enqueue cs (sess_budget s))"
    by (rule paced_enqueue_all [OF _ assms(3)]) (unfold paced_queue_def, rule assms(4))
  then have rel: "\<forall>c\<in>set released. message_of c \<noteq> None"
    unfolding message_of_paced paced_queue_def q by simp
  obtain e3 l where 3: "throttle_notice (te_now t) cid (pending b) (is_degraded b) last_notice ?e2 = (e3, l)" by fastforce
  have f3: "SESSIONS e3 = SESSIONS ?e2" "outbox e3 = outbox e" "cmd_rx e3 cid = Some []" "session cid e3 = session cid ?e2"
    using 3 by (auto simp: throttle_notice_def split: if_splits)
  have s3: "session cid e3 \<noteq> None" using assms(1) by (simp add: session_def f3(1))
  have r: "run_commands t cid last_notice e = (fst (dispatch_all (te_lib t) cid released e3), l,
      snd (dispatch_all (te_lib t) cid released e3))"
  proof -
    have "receive_commands cid e = (?e1, [])"
      using assms(2) by (simp only: receive_commands_def unwrap_or_def option.case all none Let_def)
    moreover have "release_commands (te_now t) cid ?e1 = (?e2, released, pending b, is_degraded b)"
      using assms(1,5) by (simp add: release_commands_def)
    ultimately show ?thesis
      by (simp only: run_commands_def prod.case 3 append_Nil) (simp only: split_def)
  qed
  show ?thesis
    using dispatch_batch [OF s3 rel, of "te_lib t"] dispatch_all_budget [OF s3 rel, of "te_lib t"]
      assms(1,6) r f3 q by simp
qed

definition quiet_env :: turn_env where
  "quiet_env = \<lparr>te_now = 0, te_lib = \<lparr>le_encode = \<lambda>h f. None, le_send = \<lambda>n. None, le_upload = \<lambda>n. Inr 0\<rparr>,
     te_dec = \<lparr>mono_decode = \<lambda>h d. (False, []), stereo_decode = \<lambda>h d. None\<rparr>, te_pow = \<lambda>a b. a,
     te_view = \<lparr>cv_now = 0, cv_book = None, cv_stats = None, cv_log10 = \<lambda>x. x\<rparr>, te_first = None, te_rest = []\<rparr>"

text \<open>A connected session with a live command channel that holds \<open>cs\<close>.\<close>

definition connected_engine :: "command list \<Rightarrow> engine" where
  "connected_engine cs = (engine_new 1)\<lparr>cmd_rx := [1 \<mapsto> cs],
     SESSIONS := [(1, (session_new 0 1 (ts_connection_new\<lparr>connected := True\<rparr>))\<lparr>command_tx := True\<rparr>)]\<rparr>"

abbreviation connected_session :: session_rec where
  "connected_session \<equiv> (session_new 0 1 (ts_connection_new\<lparr>connected := True\<rparr>))\<lparr>command_tx := True\<rparr>"

lemma connected_engine_simps [simp]:
  "tget (SESSIONS (connected_engine cs)) 1 = Some connected_session"
  "cmd_rx (connected_engine cs) 1 = Some cs" "outbox (connected_engine cs) = []"
  "sess_budget connected_session = budget_new 0" "queue (budget_new 0) = []"
  "EVENT_QUEUE (connected_engine cs) = []"
  by (simp_all add: connected_engine_def engine_new_def session_new_def budget_new_def)

text \<open>The commands of a turn: what waited in the channel is queued behind the budget, the budget
  releases a batch, and exactly that batch reaches the library, one message per command and in the
  order of the queue, while the rest stays queued and nothing stays in the channel.\<close>
theorem turn_sends_what_the_budget_releases:
  assumes "tget (SESSIONS e) cid = Some s" and "cmd_rx e cid = Some cs" and "\<forall>c\<in>set cs. \<not> unpaced c"
    and "\<forall>c\<in>set (queue (sess_budget s)). \<not> unpaced c"
    and "drain_ready (te_now t) (fold enqueue cs (sess_budget s)) = (b, released)"
    and "run_commands t cid last_notice e = (e', last_notice', go_on)"
  shows "go_on
    \<and> outbox e' = outbox e @ map (\<lambda>c. (cid, the (message_of c))) released
    \<and> queue (fold enqueue cs (sess_budget s)) = released @ queue b
    \<and> map_option sess_budget (tget (SESSIONS e') cid) = Some b \<and> cmd_rx e' cid = Some []"
  by (rule turn_batch [OF assms])

theorem turn_sends_what_the_budget_releases_witness:
  "\<exists>e' l g. run_commands quiet_env 1 0 (connected_engine [ListBans]) = (e', l, g) \<and> g \<and> length (outbox e') \<le> 1"
proof -
  obtain e' l g where r: "run_commands quiet_env 1 0 (connected_engine [ListBans]) = (e', l, g)" by (metis prod_cases3)
  obtain b released where d: "drain_ready (te_now quiet_env) (fold enqueue [ListBans] (budget_new 0)) = (b, released)" by fastforce
  have q: "queue (fold enqueue [ListBans] (budget_new 0)) = [ListBans]"
    by (simp add: enqueue_def budget_new_def MAX_QUEUE_def)
  have "g \<and> outbox e' = map (\<lambda>c. (1, the (message_of c))) released \<and> [ListBans] = released @ queue b"
    using turn_sends_what_the_budget_releases [OF connected_engine_simps(1,2) _ _ _ r, of b released] d q
    by (simp add: unpaced_def)
  moreover have "length released \<le> 1" if "[ListBans] = released @ queue b"
    using arg_cong [OF that, of length] by simp
  ultimately show ?thesis using r by auto
qed

text \<open>One affordable command on an idle budget.\<close>

lemma drain_one:
  assumes "queue b = []" and "\<not> flt (tokens (refill now b)) (flood_cost c)"
  shows "snd (drain_ready now (enqueue c b)) = [c]"
proof -
  have e: "enqueue c b = b\<lparr>queue := [c]\<rparr>" using assms(1) by (simp add: enqueue_def MAX_QUEUE_def)
  have r: "refill now (b\<lparr>queue := q\<rparr>) = (refill now b)\<lparr>queue := q\<rparr>" for q
    by (simp add: refill_def recover_def Let_def split: option.split)
  obtain b1 where t: "take_ready now (b\<lparr>queue := [c]\<rparr>) = (b1, Some c)"
    using assms(2) by (simp add: take_ready_def r Let_def)
  have "queue b1 = []" using take_ready_Some_queue [OF t] by simp
  then have "take_ready now b1 = (refill now b1, None)" by (simp add: take_ready_def Let_def)
  then have "drain_ready now b1 = (refill now b1, [])" by (subst drain_ready.simps) simp
  then show ?thesis unfolding e by (subst drain_ready.simps) (simp add: t)
qed



section \<open>The order of a turn\<close>

text \<open>The first item a turn polls is handled after all the items it polls later. So when the entries
  of a directory arrive first and the end of the listing in the same turn, the listing is reported
  empty, and its entries stay behind to be added to the next listing of that directory.\<close>
theorem listing_within_one_turn_is_lost:
  assumes "tget (SESSIONS e) cid = Some s" and "file_list_buffers (sess_state s) key = None"
    and "te_first t = Some (PolledItem (SiMessageEvent (ImFileList parts)))"
    and "te_rest t = [PolledItem (SiMessageEvent (ImFileListFinished [key]))]"
    and "\<forall>p\<in>set parts. (fp_channel_id p, fp_path p) = key"
    and "e' = fst (poll_events t cid e)"
  shows "EVENT_QUEUE e' = EVENT_QUEUE e @ [\<lparr>ev_connection_id = cid, ev_event =
      EvServerFileList (unwrap_or (pending_file_requests s key) 0) (ucast (fst key)) (snd key) True None []\<rparr>]
    \<and> map_option (\<lambda>s. unwrap_or (file_list_buffers (sess_state s) key) []) (tget (SESSIONS e') cid)
      = Some (map file_of_part parts)"
proof -
  let ?e1 = "handle_list_finished cid key e"
  have e': "e' = fold (handle_file_entry cid) parts ?e1"
    using assms(3,4,6) by (simp add: poll_events_def poll_first_def handle_control_item_def handle_message_def)
  obtain s1 where s1: "tget (SESSIONS ?e1) cid = Some s1" "file_list_buffers (sess_state s1) key = None"
    using assms(1) by (auto simp: handle_list_finished_def Let_def)
  have "parts_of key parts = parts" using assms(5) by (simp add: parts_of_def)
  then obtain s2 where "tget (SESSIONS e') cid = Some s2"
      "unwrap_or (file_list_buffers (sess_state s2) key) [] = map file_of_part parts"
    using file_entries_session [OF s1(1), of parts key] s1(2) e' by (auto simp: unwrap_or_def)
  moreover have "EVENT_QUEUE ?e1 = EVENT_QUEUE e @ [\<lparr>ev_connection_id = cid, ev_event =
      EvServerFileList (unwrap_or (pending_file_requests s key) 0) (ucast (fst key)) (snd key) True None []\<rparr>]"
    using assms(1,2) by (simp add: handle_list_finished_def Let_def session_def unwrap_or_def)
  ultimately show ?thesis by (simp add: e')
qed

theorem listing_within_one_turn_is_lost_witness:
  "EVENT_QUEUE (fst (poll_events (quiet_env\<lparr>te_first := Some (PolledItem (SiMessageEvent (ImFileList [hd sample_parts]))),
     te_rest := [PolledItem (SiMessageEvent (ImFileListFinished [(5, str ''/'')]))]\<rparr>) 1 (connected_engine [])))
   = [\<lparr>ev_connection_id = 1, ev_event = EvServerFileList 0 5 (str ''/'') True None []\<rparr>]"
proof -
  have n: "file_list_buffers (sess_state connected_session) (5, str ''/'') = None"
      "pending_file_requests connected_session (5, str ''/'') = None"
    by (simp_all add: session_new_def ts_connection_new_def)
  have k: "\<forall>p\<in>set [hd sample_parts]. (fp_channel_id p, fp_path p) = (5, str ''/'')"
    by (simp add: sample_parts_def)
  show ?thesis
    using listing_within_one_turn_is_lost [OF connected_engine_simps(1) n(1) _ _ k refl, where t =
      "quiet_env\<lparr>te_first := Some (PolledItem (SiMessageEvent (ImFileList [hd sample_parts]))),
       te_rest := [PolledItem (SiMessageEvent (ImFileListFinished [(5, str ''/'')]))]\<rparr>"] n(2)
    by (simp add: unwrap_or_def)
qed

section \<open>The end of a turn\<close>

lemma dispatch_all_end:
  assumes "session cid e \<noteq> None" and "dispatch_all env cid cs e = (e', False)"
  shows "\<exists>e0. e' = finalize_disconnect cid (str ''User disconnected'') True e0"
  using assms
proof (induction cs arbitrary: e)
  case (Cons c cs)
  obtain st where st: "session cid e = Some st" using Cons.prems(1) by blast
  show ?case
  proof (cases "message_of c")
    case (Some msg)
    then have "dispatch_all env cid cs (send_command env cid c msg e) = (e', False)"
      using Cons.prems(2) by (simp add: dispatch_message [OF st Some])
    moreover have "session cid (send_command env cid c msg e) \<noteq> None" using st by simp
    ultimately show ?thesis by (rule Cons.IH [rotated])
  next
    case None
    then consider "c = Disconnect" | samples where "c = SendAudio samples"
      by (cases c) (simp_all add: message_of_defs split: prod.splits)
    then show ?thesis
    proof cases
      case 1
      then show ?thesis using Cons.prems(2) st by (auto simp: dispatch_def)
    next
      case 2
      have "session cid (send_audio_command env cid samples e) \<noteq> None"
        using st by (simp add: send_audio_command_def Let_def split_def)
      then show ?thesis using Cons 2 st by (simp add: dispatch_def)
    qed
  qed
qed simp

lemma finalize_ends:
  "tget (SESSIONS (finalize_disconnect cid reason expected e)) cid = None"
  "EVENT_QUEUE (finalize_disconnect cid reason expected e)
    = EVENT_QUEUE e @ [\<lparr>ev_connection_id = cid, ev_event = EvDisconnected reason expected\<rparr>]"
  by (simp_all add: finalize_disconnect_def Let_def)

lemma run_commands_end:
  assumes "session cid e \<noteq> None" and "run_commands t cid last_notice e = (e', l, False)"
  shows "\<exists>e0. e' = finalize_disconnect cid (str ''User disconnected'') True e0"
proof -
  obtain e1 us where 1: "receive_commands cid e = (e1, us)" by fastforce
  obtain e2 cs w d where 2: "release_commands (te_now t) cid e1 = (e2, cs, w, d)" by (metis prod_cases4)
  obtain e3 l3 where 3: "throttle_notice (te_now t) cid w d last_notice e2 = (e3, l3)" by fastforce
  have "session cid e1 = session cid e"
    using 1 by (auto simp: receive_commands_def Let_def) (simp add: session_def)
  moreover have "session cid e2 = session cid e1"
    using 2 by (auto simp: release_commands_def split: option.splits prod.splits)
  moreover have "session cid e3 = session cid e2"
    using 3 by (auto simp: throttle_notice_def split: if_splits)
  ultimately have s: "session cid e3 \<noteq> None" using assms(1) by simp
  have "dispatch_all (te_lib t) cid (us @ cs) e3 = (e', False)"
    using assms(2) by (simp add: run_commands_def 1 2 3 split_def prod_eq_iff)
  from dispatch_all_end [OF s this] show ?thesis .
qed



end
