(* ===== verification/Ordering.thy ===== *)
theory Ordering
  imports ProtoConnection
begin

text \<open>
  The receive window and the order of incoming commands (theory Codec). Packets are numbered by
  \<open>pid_num\<close>: the generation times 65536 plus the 16 bits that are sent. The window finds the number of
  a packet again, and whatever order the packets arrive in, the commands are assembled from the
  packets in the order of their numbers.
\<close>

section \<open>The receive window\<close>

lemma unat_of_nat_u16 [simp]: "unat (of_nat n :: u16) = n mod 65536"
  by (simp add: unat_of_nat)

lemma overflows_iff: "overflows a b \<longleftrightarrow> 65536 \<le> unat a + unat b"
  by (simp add: overflows_def)

lemma div_mod_step:
  fixes N M :: nat
  assumes "N \<le> M" "M < N + 65536"
  shows "M div 65536 = (if M mod 65536 < N mod 65536 then N div 65536 + 1 else N div 65536)"
    and "M mod 65536 + (if M mod 65536 < N mod 65536 then 65536 else 0) = N mod 65536 + (M - N)"
proof -
  define c g where "c = N mod 65536" and "g = N div 65536"
  have N: "N = g * 65536 + c" "c < 65536" by (simp_all add: c_def g_def)
  obtain k where k: "M = N + k" "k < 65536" using assms by (metis le_Suc_ex nat_add_left_cancel_less)
  have "M div 65536 = (if c + k < 65536 then g else g + 1) \<and> M mod 65536 = (if c + k < 65536 then c + k else c + k - 65536)"
  proof (cases "c + k < 65536")
    case True
    then have "M = g * 65536 + (c + k)" using N k by simp
    then show ?thesis using True by simp
  next
    case False
    then have "M = (g + 1) * 65536 + (c + k - 65536)" using N k by simp
    moreover have "c + k - 65536 < 65536" using N k by simp
    ultimately show ?thesis using False by (metis add.commute div_less div_mult_self3 mod_less mod_mult_self3 add_0 zero_neq_numeral)
  qed
  then show "M div 65536 = (if M mod 65536 < N mod 65536 then N div 65536 + 1 else N div 65536)"
    "M mod 65536 + (if M mod 65536 < N mod 65536 then 65536 else 0) = N mod 65536 + (M - N)"
    using k N(2) unfolding c_def [symmetric] g_def [symmetric] by auto
qed

lemma in_window_iff:
  assumes "N \<le> M + (65536 - w)" "M < N + 65536" "0 < w \<and> w < 65536" "unat wd = w" "unat cur = N mod 65536"
  shows "in_window cur (cur + wd) (overflows cur wd) (of_nat M) \<longleftrightarrow> N \<le> M \<and> M < N + w"
proof -
  define c m where "c = N mod 65536" and "m = M mod 65536"
  have b: "c < 65536" "m < 65536" by (simp_all add: c_def m_def)
  have lim: "unat (cur + wd) = (if c + w < 65536 then c + w else c + w - 65536)"
  proof -
    have "unat (cur + wd) = (c + w) mod 65536" using assms by (simp add: unat_word_ariths c_def)
    also have "\<dots> = (if c + w < 65536 then c + w else c + w - 65536)"
      using b(1) assms(3) by (cases "c + w < 65536") (simp_all add: le_mod_geq)
    finally show ?thesis .
  qed
  have w: "in_window cur (cur + wd) (overflows cur wd) (of_nat M) \<longleftrightarrow>
      (c + w < 65536 \<and> c \<le> m \<and> m < c + w) \<or> (65536 \<le> c + w \<and> (c \<le> m \<or> m < c + w - 65536))"
    unfolding in_window_def overflows_iff word_le_nat_alt word_less_nat_alt lim unat_of_nat_u16
      assms(4,5) c_def [symmetric] m_def [symmetric] by auto
  show ?thesis
  proof (cases "N \<le> M")
    case True
    have "m + (if m < c then 65536 else 0) = c + (M - N)"
      using div_mod_step(2) [OF True assms(2)] unfolding c_def m_def .
    then show ?thesis unfolding w using True assms(1-3) b by (cases "m < c") auto
  next
    case False
    then have "M \<le> N" "N < M + 65536" using assms(1,3) by auto
    from div_mod_step(2) [OF this]
    have "c + (if c < m then 65536 else 0) = m + (N - M)" unfolding c_def m_def .
    then show ?thesis unfolding w using False assms(1-3) b by (cases "c < m") auto
  qed
qed

lemma pid_num_parts:
  "unat (pid_packet p) = pid_num p mod 65536" "unat (pid_generation p) = pid_num p div 65536"
  "pid_packet p = of_nat (pid_num p)" "pid_generation p = of_nat (pid_num p div 65536)"
proof -
  show p: "unat (pid_packet p) = pid_num p mod 65536" "unat (pid_generation p) = pid_num p div 65536"
    using pid_packet_less [of p] by (simp_all add: pid_num_def)
  show "pid_generation p = of_nat (pid_num p div 65536)"
    unfolding p(2) [symmetric] by simp
  have "of_nat (n mod 65536) = (of_nat n :: u16)" for n
    by (simp add: word_unat_eq_iff)
  from this [of "pid_num p"] show "pid_packet p = of_nat (pid_num p)"
    unfolding p(1) [symmetric] by simp
qed

text \<open>C34. The window contains exactly the next 32767 packets, and the generation computed for a packet is the
  one it was numbered with, from 32769 packets before the expected one up to the end of the window.
\<close>

theorem receive_window_finds_the_number:
  assumes "t \<noteq> Init" "N = pid_num (incoming_p_ids codec t)" "N \<le> M + 32769" "M < N + 32767"
  shows "\<exists>limit. in_receive_window codec t (of_nat M) = (N \<le> M, of_nat (M div 65536), of_nat N, limit)"
proof -
  define cur where "cur = pid_packet (incoming_p_ids codec t)"
  have cur: "unat cur = N mod 65536" "cur = of_nat N"
    using pid_num_parts [of "incoming_p_ids codec t"] assms(2) by (simp_all add: cur_def)
  have gen: "pid_generation (incoming_p_ids codec t) = of_nat (N div 65536)"
    using pid_num_parts(4) assms(2) by simp
  have win: "in_window cur (cur + 32767) (overflows cur 32767) (of_nat M) \<longleftrightarrow> N \<le> M"
    using in_window_iff [of N M 32767 32767 cur] assms cur by auto
  have cmp: "of_nat M < cur \<longleftrightarrow> M mod 65536 < N mod 65536"
    by (simp add: word_less_nat_alt cur(1))
  have lim: "of_nat M < cur + 32767 \<longleftrightarrow> M mod 65536 < (N mod 65536 + 32767) mod 65536"
    by (simp add: word_less_nat_alt cur(1) unat_word_ariths)
  define c m where "c = N mod 65536" and "m = M mod 65536"
  have b: "c < 65536" "m < 65536" by (simp_all add: c_def m_def)
  have gen_id: "(if N \<le> M
      then (if overflows cur 32767 \<and> of_nat M < cur + 32767
        then of_nat (N div 65536) + 1 else of_nat (N div 65536))
      else if of_nat M < cur then of_nat (N div 65536) else of_nat (N div 65536) - 1)
    = (of_nat (M div 65536) :: u32)"
  proof (cases "N \<le> M")
    case True
    have m: "m + (if m < c then 65536 else 0) = c + (M - N)"
      "M div 65536 = (if m < c then N div 65536 + 1 else N div 65536)"
      using div_mod_step [OF True] assms(4) unfolding c_def m_def by simp_all
    have "overflows cur 32767 \<and> of_nat M < cur + 32767 \<longleftrightarrow> m < c"
    proof (cases "c + 32767 < 65536")
      case True
      then show ?thesis using m(1) assms(4) \<open>N \<le> M\<close>
        by (cases "m < c") (simp_all add: overflows_iff cur(1) c_def [symmetric])
    next
      case False
      then have "(c + 32767) mod 65536 = c + 32767 - 65536" using b by (simp add: le_mod_geq)
      then show ?thesis using False m(1) assms(4) \<open>N \<le> M\<close> b
        unfolding lim c_def [symmetric] m_def [symmetric]
        by (cases "m < c") (simp_all add: overflows_iff cur(1) c_def [symmetric])
    qed
    then show ?thesis using True m(2) by simp
  next
    case False
    then have "M \<le> N" "N < M + 65536" using assms(3) by auto
    from div_mod_step [OF this]
    have m: "c + (if c < m then 65536 else 0) = m + (N - M)"
      "N div 65536 = (if c < m then M div 65536 + 1 else M div 65536)"
      unfolding c_def m_def by simp_all
    have "m < c \<longleftrightarrow> \<not> c < m" using m(1) False by (cases "c < m") auto
    then show ?thesis using False m(2) unfolding cmp c_def [symmetric] m_def [symmetric] by simp
  qed
  show ?thesis
    unfolding in_receive_window_def Let_def cur_def [symmetric] gen win gen_id
    using assms(1) cur(2) by simp
qed

lemma receive_window_finds_the_number_witness:
  "\<exists>limit. in_receive_window (packet_codec_default\<lparr>incoming_p_ids := (\<lambda>_. PartialPacketId 0 65530)\<rparr>)
     Command (of_nat 65540) = (True, 1, 65530, limit)"
  using receive_window_finds_the_number [of Command 65530
    "packet_codec_default\<lparr>incoming_p_ids := (\<lambda>_. PartialPacketId 0 65530)\<rparr>" 65540]
  by (simp add: pid_num_def)

section \<open>Commands in order\<close>

text \<open>The specification: the packets are reassembled one after the other.\<close>

fun reassemble ::
    "proto_lib \<Rightarrow> direction \<Rightarrow> u8 list list \<Rightarrow> u8 list option \<Rightarrow> (proto_error + u8 list list) \<times> u8 list option" where
  "reassemble lib d [] frag = (Inr [], frag)"
| "reassemble lib d (m # ms) frag = (case defragment lib d m frag of
      (Inl e, frag) \<Rightarrow> (Inl e, frag)
    | (Inr p, frag) \<Rightarrow> (case reassemble lib d ms frag of
        (Inl e, frag) \<Rightarrow> (Inl e, frag)
      | (Inr ps, frag) \<Rightarrow> (Inr ((case p of None \<Rightarrow> [] | Some p \<Rightarrow> [p]) @ ps), frag)))"

lemma reassemble_append:
  "reassemble lib d (ms @ ns) frag = (case reassemble lib d ms frag of
      (Inl e, frag) \<Rightarrow> (Inl e, frag)
    | (Inr ps, frag) \<Rightarrow> (case reassemble lib d ns frag of
        (Inl e, frag) \<Rightarrow> (Inl e, frag)
      | (Inr qs, frag) \<Rightarrow> (Inr (ps @ qs), frag)))"
  by (induction ms arbitrary: frag) (simp_all split: prod.split sum.split)

text \<open>Numbers less than 65536 apart have different identifiers.\<close>

definition spans :: "nat \<Rightarrow> (nat \<Rightarrow> u8 list) \<Rightarrow> direction \<Rightarrow> bool" where
  "spans N0 msg d \<longleftrightarrow> N0 + 65536 \<le> 2 ^ 48
     \<and> (\<forall>n. N0 \<le> n \<and> n < N0 + 65536 \<longrightarrow> raw_id d (msg n) = of_nat n)"

lemma of_nat_u16_inj:
  assumes "N0 \<le> n" "n < N0 + 65536" "N0 \<le> m" "m < N0 + 65536" "(of_nat n :: u16) = of_nat m"
  shows "n = m"
proof -
  have "n mod 65536 = m mod 65536" using assms(5) by (simp add: word_unat_eq_iff)
  then have "n - N0 = m - N0"
    using div_mod_step(2) [OF assms(1,2)] div_mod_step(2) [OF assms(3,4)] by simp
  then show ?thesis using assms(1,3) by simp
qed

lemma raw_id_msg:
  assumes "spans N0 msg d" "N0 \<le> n" "n < N0 + 65536" "N0 \<le> m" "m < N0 + 65536"
  shows "raw_id d (msg n) = of_nat m \<longleftrightarrow> n = m"
  using assms of_nat_u16_inj [of N0 n m] by (auto simp: spans_def)

lemma extract_queued:
  assumes "spans N0 msg d" "\<forall>n\<in>set ns. N0 \<le> n \<and> n < N0 + 65536" "N0 \<le> m" "m < N0 + 65536"
  shows "case List.extract (\<lambda>q. raw_id d q = of_nat m) (map msg ns) of
      None \<Rightarrow> m \<notin> set ns
    | Some (b, q, a) \<Rightarrow> \<exists>bs as. ns = bs @ m # as \<and> b = map msg bs \<and> q = msg m \<and> a = map msg as"
proof (cases "List.extract (\<lambda>q. raw_id d q = of_nat m) (map msg ns)")
  case None
  then have "\<forall>n\<in>set ns. raw_id d (msg n) \<noteq> of_nat m" by (simp add: extract_None_iff)
  then show ?thesis using None raw_id_msg [OF assms(1) _ _ assms(3,4)] assms(2) by auto
next
  case (Some r)
  obtain b q a where r: "r = (b, q, a)" by (cases r)
  then have q: "map msg ns = b @ q # a" "raw_id d q = of_nat m"
    using Some by (auto simp: extract_Some_iff)
  then obtain bs k as where ns: "ns = bs @ k # as" "b = map msg bs" "q = msg k" "a = map msg as"
    by (auto simp: map_eq_append_conv map_eq_Cons_conv)
  then have "k = m" using q(2) raw_id_msg [OF assms(1) _ _ assms(3,4), of k] assms(2) by auto
  then show ?thesis using Some r ns by auto
qed

text \<open>One arrival drains the queue up to the first packet that is missing.\<close>

lemma command_loop_in_order:
  assumes "spans N0 msg d" "N0 \<le> N" "N < N0 + 65535" "pid_num (cs_next s) = N"
    "cs_queue s = map msg ns" "\<forall>n\<in>set ns. N0 \<le> n \<and> n < N0 + 65535"
    "command_loop lib d (of_nat N) (msg N) ps s = (Inr out, s')"
  shows "\<exists>N' ns' qs. N < N' \<and> pid_num (cs_next s') = N' \<and> N' \<notin> set ns' \<and> N' \<le> N0 + 65535
    \<and> cs_queue s' = map msg ns' \<and> set ns' \<subseteq> set ns \<and> set ns \<subseteq> set ns' \<union> {N<..<N'}
    \<and> {N<..<N'} \<subseteq> set ns \<and> out = ps @ qs
    \<and> reassemble lib d (map msg [N..<N']) (cs_frag s) = (Inr qs, cs_frag s')"
  using assms(2-)
proof (induction "length ns" arbitrary: N ns ps s rule: less_induct)
  case less
  have nx: "pid_num (pid_add (cs_next s) 1) = Suc N"
    using less.prems assms(1) by (subst pid_num_add) (simp_all add: spans_def)
  obtain res frag where df: "defragment lib d (msg N) (cs_frag s) = (res, frag)" by (cases "defragment lib d (msg N) (cs_frag s)")
  have "\<exists>p. res = Inr p"
  proof (cases res)
    case (Inl e)
    then show ?thesis using less.prems(6) df
      by (subst (asm) command_loop.simps) (simp add: Let_def)
  qed simp
  then obtain p where p: "res = Inr p" by blast
  define qs where "qs = (case p of None \<Rightarrow> [] | Some p \<Rightarrow> [p])"
  define s1 where "s1 = s\<lparr>cs_next := pid_add (cs_next s) 1, cs_frag := frag\<rparr>"
  have pq: "(case p of None \<Rightarrow> ps | Some p \<Rightarrow> ps @ [p]) = ps @ qs"
    by (simp add: qs_def split: option.split)
  have i: "of_nat N + 1 = (of_nat (Suc N) :: u16)" by simp
  have ext: "case List.extract (\<lambda>q. raw_id d q = of_nat (Suc N)) (map msg ns) of
      None \<Rightarrow> Suc N \<notin> set ns
    | Some (b, q, a) \<Rightarrow> \<exists>bs as. ns = bs @ Suc N # as \<and> b = map msg bs \<and> q = msg (Suc N) \<and> a = map msg as"
    by (rule extract_queued [OF assms(1)]) (use less.prems in auto)
  have step: "command_loop lib d (of_nat N) (msg N) ps s
      = (case List.extract (\<lambda>q. raw_id d q = of_nat (Suc N)) (map msg ns) of
          None \<Rightarrow> (Inr (ps @ qs), s1)
        | Some (before, data, after) \<Rightarrow>
            command_loop lib d (of_nat (Suc N)) data (ps @ qs) (s1\<lparr>cs_queue := before @ after\<rparr>))"
    using less.prems(4)
    by (subst command_loop.simps) (simp add: df p pq s1_def Let_def del: of_nat_Suc flip: i split: option.split)
  show ?case
  proof (cases "List.extract (\<lambda>q. raw_id d q = of_nat (Suc N)) (map msg ns)")
    case None
    then have "out = ps @ qs" "s' = s1" using step less.prems(6) by simp_all
    moreover have "Suc N \<notin> set ns" using ext None by simp
    ultimately show ?thesis
      using nx less.prems(1-5) df p
      by (intro exI [of _ "Suc N"] exI [of _ ns] exI [of _ qs]) (auto simp: s1_def qs_def)
  next
    case (Some r)
    obtain b q a where r: "r = (b, q, a)" by (cases r)
    then obtain bs as where ns: "ns = bs @ Suc N # as" "b = map msg bs" "q = msg (Suc N)" "a = map msg as"
      using ext Some by auto
    let ?s = "s1\<lparr>cs_queue := map msg (bs @ as)\<rparr>"
    have run: "command_loop lib d (of_nat (Suc N)) (msg (Suc N)) (ps @ qs) ?s = (Inr out, s')"
      using step Some r ns less.prems(6) by simp
    have len: "length (bs @ as) < length ns" using ns(1) by simp
    have in_ns: "Suc N \<in> set ns" using ns(1) by simp
    have "\<exists>N' ns' rs. Suc N < N' \<and> pid_num (cs_next s') = N' \<and> N' \<notin> set ns' \<and> N' \<le> N0 + 65535
      \<and> cs_queue s' = map msg ns' \<and> set ns' \<subseteq> set (bs @ as) \<and> set (bs @ as) \<subseteq> set ns' \<union> {Suc N<..<N'}
      \<and> {Suc N<..<N'} \<subseteq> set (bs @ as) \<and> out = (ps @ qs) @ rs
      \<and> reassemble lib d (map msg [Suc N..<N']) (cs_frag ?s) = (Inr rs, cs_frag s')"
      by (rule less.hyps [OF len _ _ _ _ _ run]) (use less.prems ns in_ns nx in \<open>auto simp: s1_def\<close>)
    then obtain N' ns' rs where h: "Suc N < N'" "pid_num (cs_next s') = N'" "N' \<notin> set ns'" "N' \<le> N0 + 65535"
      "cs_queue s' = map msg ns'" "set ns' \<subseteq> set (bs @ as)" "set (bs @ as) \<subseteq> set ns' \<union> {Suc N<..<N'}"
      "{Suc N<..<N'} \<subseteq> set (bs @ as)" "out = (ps @ qs) @ rs"
      "reassemble lib d (map msg [Suc N..<N']) (cs_frag ?s) = (Inr rs, cs_frag s')" by blast
    have re: "reassemble lib d (map msg [N..<N']) (cs_frag s) = (Inr (qs @ rs), cs_frag s')"
      using h(1,10) df p by (simp add: upt_conv_Cons s1_def qs_def)
    have iv: "{N<..<N'} = insert (Suc N) {Suc N<..<N'}" using h(1) by auto
    have sub: "set ns' \<subseteq> set ns" "set ns \<subseteq> set ns' \<union> {N<..<N'}" "{N<..<N'} \<subseteq> set ns"
      using h(6-8) ns(1) unfolding iv by auto
    show ?thesis
      using h(1-5,9) sub re by (intro exI [of _ N'] exI [of _ ns'] exI [of _ "qs @ rs"]) simp
  qed
qed

text \<open>
  A datagram that arrives: outside the window it is dropped, inside it is handled. A run of arrivals
  stops at the first error, which ends the connection.
\<close>

definition arrive ::
    "proto_lib \<Rightarrow> direction \<Rightarrow> packet_type \<Rightarrow> u8 list \<Rightarrow> packet_codec \<Rightarrow> (proto_error + u8 list list) \<times> packet_codec" where
  "arrive lib d t data c =
     (if fst (in_receive_window c t (raw_id d data))
      then (let (r, s) = handle_command lib d data (get_cmd_state t c) in (r, put_cmd_state t s c))
      else (Inr [], c))"

fun arrivals ::
    "proto_lib \<Rightarrow> direction \<Rightarrow> packet_type \<Rightarrow> u8 list list \<Rightarrow> packet_codec \<Rightarrow> (proto_error + u8 list list) \<times> packet_codec" where
  "arrivals lib d t [] c = (Inr [], c)"
| "arrivals lib d t (x # xs) c = (case arrive lib d t x c of
      (Inl e, c) \<Rightarrow> (Inl e, c)
    | (Inr ps, c) \<Rightarrow> (case arrivals lib d t xs c of
        (Inl e, c) \<Rightarrow> (Inl e, c)
      | (Inr qs, c) \<Rightarrow> (Inr (ps @ qs), c)))"

lemma cmd_state_put [simp]:
  "get_cmd_state t (put_cmd_state t s c) = s" "incoming_p_ids (put_cmd_state t s c) t = cs_next s"
  "fragmented_queue (put_cmd_state t s c) t = cs_frag s"
  by (simp_all add: get_cmd_state_def put_cmd_state_def)

lemma cmd_state_get [simp]:
  "cs_next (get_cmd_state t c) = incoming_p_ids c t" "cs_queue (get_cmd_state t c) = receive_queue c t"
  "cs_frag (get_cmd_state t c) = fragmented_queue c t"
  by (simp_all add: get_cmd_state_def)

text \<open>
  The state after some arrivals: \<open>N\<close> is expected next, \<open>ns\<close> wait in the queue, \<open>seen\<close> have arrived.
\<close>

definition cmd_inv :: "nat \<Rightarrow> (nat \<Rightarrow> u8 list) \<Rightarrow> nat set \<Rightarrow> cmd_state \<Rightarrow> bool" where
  "cmd_inv N0 msg seen s \<longleftrightarrow> (\<exists>N ns. pid_num (cs_next s) = N \<and> cs_queue s = map msg ns \<and> N0 \<le> N
     \<and> {N0..<N} \<subseteq> seen \<and> N \<notin> seen \<and> set ns \<subseteq> seen \<and> seen \<subseteq> {N0..<N} \<union> set ns)"

lemma handle_command_in_order:
  assumes "spans N0 msg d" "cmd_inv N0 msg seen s" "seen \<subseteq> {N0..<N0 + 32767}"
    "N0 \<le> n" "n < N0 + 32767" "pid_num (cs_next s) \<le> n"
    "handle_command lib d (msg n) s = (Inr out, s')"
  shows "cmd_inv N0 msg (insert n seen) s'
    \<and> reassemble lib d (map msg [pid_num (cs_next s)..<pid_num (cs_next s')]) (cs_frag s) = (Inr out, cs_frag s')
    \<and> pid_num (cs_next s) \<le> pid_num (cs_next s')"
proof -
  obtain N ns where s: "pid_num (cs_next s) = N" "cs_queue s = map msg ns" "N0 \<le> N" "{N0..<N} \<subseteq> seen"
    "N \<notin> seen" "set ns \<subseteq> seen" "seen \<subseteq> {N0..<N} \<union> set ns"
    using assms(2) by (auto simp: cmd_inv_def)
  have ids: "raw_id d (msg n) = of_nat n" using assms(1,4,5) by (simp add: spans_def)
  have cur: "pid_packet (cs_next s) = of_nat N" using pid_num_parts(3) [of "cs_next s"] s(1) by simp
  have eq: "pid_packet (cs_next s) = raw_id d (msg n) \<longleftrightarrow> n = N"
    unfolding ids cur using of_nat_u16_inj [of N0 N n] assms(4-6) s(1,3) by auto
  show ?thesis
  proof (cases "n = N")
    case False
    then have "out = []" "s' = s\<lparr>cs_queue := cs_queue s @ [msg n]\<rparr>"
      using assms(7) eq by (auto simp: handle_command_def Let_def split: if_splits)
    then show ?thesis using s False assms(6)
      by (auto simp: cmd_inv_def intro!: exI [of _ "ns @ [n]"])
  next
    case True
    have "handle_command lib d (msg n) s = command_loop lib d (of_nat n) (msg n) [] s"
      using True eq ids by (simp add: handle_command_def Let_def)
    then have run: "command_loop lib d (of_nat N) (msg N) [] s = (Inr out, s')"
      using assms(7) True by simp
    have less: "N < N0 + 65535" using True assms(5) by simp
    have queued: "\<forall>n\<in>set ns. N0 \<le> n \<and> n < N0 + 65535" using s(6) assms(3) by fastforce
    obtain N' ns' where h: "N < N'" "pid_num (cs_next s') = N'" "N' \<notin> set ns'"
      "cs_queue s' = map msg ns'" "set ns' \<subseteq> set ns" "set ns \<subseteq> set ns' \<union> {N<..<N'}"
      "{N<..<N'} \<subseteq> set ns"
      "reassemble lib d (map msg [N..<N']) (cs_frag s) = (Inr out, cs_frag s')"
      using command_loop_in_order [OF assms(1) s(3) less s(1,2) queued run]
      by (elim exE conjE) (rule that, assumption+, simp)
    have iv: "{N0..<N'} = {N0..<N} \<union> insert N {N<..<N'}" using h(1) s(3) by auto
    have "{N0..<N'} \<subseteq> insert n seen" using s(4,6) h(7) True unfolding iv by blast
    moreover have "N' \<notin> set ns" using h(3,6) by auto
    then have "N' \<notin> insert n seen" using s(7) h(1) True by auto
    moreover have "set ns' \<subseteq> insert n seen" using h(5) s(6) by blast
    moreover have "insert n seen \<subseteq> {N0..<N'} \<union> set ns'" using s(7) h(6) True unfolding iv by blast
    ultimately have "cmd_inv N0 msg (insert n seen) s'"
      unfolding cmd_inv_def using h(1,2,4) s(3) by (intro exI [of _ N'] exI [of _ ns']) simp
    then show ?thesis using h s(1) by simp
  qed
qed


text \<open>A library whose cipher and compressor do nothing, for concrete runs.\<close>

definition test_lib :: proto_lib where
  "test_lib = \<lparr>sha1 = (\<lambda>x. x), sha256 = (\<lambda>x. x), sha512 = (\<lambda>x. x),
     eax_encrypt = (\<lambda>k n a x. Some (x, replicate 8 0)), eax_decrypt = (\<lambda>k n a c t. Some c),
     compress = (\<lambda>x. x), decompress = (\<lambda>x n. Some x), powf = (\<lambda>x y. Fin 0)\<rparr>"

lemma test_lib_ok: "proto_lib_ok test_lib"
  by (simp add: proto_lib_ok_def test_lib_def)

definition sample_msg :: "nat \<Rightarrow> u8 list" where
  "sample_msg n = replicate 8 0 @ be_bytes 2 (of_nat n :: u16) @ [0, 0, 2, of_nat n]"

lemma sample_spans: "spans 0 sample_msg C2S"
  by (simp add: spans_def raw_id_def sample_msg_def)

lemma sample_msg_simps [simp]:
  "raw_id C2S (sample_msg n) = of_nat n"
  "defragment test_lib C2S (sample_msg n) None = (Inr (Some (sample_msg n)), None)"
  by (simp_all add: raw_id_def sample_msg_def defragment_def raw_flags_def nth_append has_flag_def
    decompress_packet_def FRAGMENTED_def COMPRESSED_def)

text \<open>What the samples below evaluate.\<close>

lemmas sample_eval = arrive_def in_receive_window_def in_window_def overflows_def handle_command_def
  MAX_QUEUE_LEN_def packet_codec_default_def pid_zero_def get_cmd_state_def put_cmd_state_def
  command_loop.simps pid_add_def extract_Cons_code extract_Nil_code Let_def

lemma sample_run:
  "fst (arrivals test_lib C2S Command (map sample_msg [1, 0]) packet_codec_default)
     = Inr [sample_msg 0, sample_msg 1]"
  by (simp add: sample_eval)


text \<open>
  The number of waiting packets is not bounded: \<open>MAX_QUEUE_LEN\<close> limits how far ahead a packet may be,
  and a packet that comes again is stored again.
\<close>

lemma early_packet_is_stored:
  assumes "fst (in_receive_window c t (raw_id d x))"
    "in_window (pid_packet (incoming_p_ids c t)) (pid_packet (incoming_p_ids c t) + MAX_QUEUE_LEN)
       (overflows (pid_packet (incoming_p_ids c t)) MAX_QUEUE_LEN) (raw_id d x)"
    "pid_packet (incoming_p_ids c t) \<noteq> raw_id d x"
  shows "arrive lib d t x c = (Inr [], put_cmd_state t
     (get_cmd_state t c\<lparr>cs_queue := receive_queue c t @ [x]\<rparr>) c)"
  using assms by (simp add: arrive_def handle_command_def Let_def)

lemma early_duplicates_pile_up:
  "receive_queue (snd (arrivals test_lib C2S Command (map sample_msg (replicate 3 1)) packet_codec_default)) Command
     = replicate 3 (sample_msg 1)"
  by (simp add: sample_eval numeral_3_eq_3)

text \<open>A copy stays in the queue when the gap is closed, with an identifier that comes back later.\<close>

lemma duplicates_stay_queued:
  "receive_queue (snd (arrivals test_lib C2S Command (map sample_msg [1, 1, 0]) packet_codec_default)) Command
     = [sample_msg 1]"
  by (simp add: sample_eval)

end
