(* ===== verification/Transport.thy ===== *)
theory Transport
  imports Ordering
begin

unbundle bit_operations_syntax

text \<open>
  A command on its way: compressed, split, numbered and encrypted by one side, decrypted, reassembled
  and decompressed by the other (theories Crypto and Codec). A packet with a full header is written
  \<open>mk d pre b c\<close>: everything before the byte with flags and type, that byte, and the content.
\<close>

section \<open>Packets by their parts\<close>

definition mk :: "direction \<Rightarrow> u8 list \<Rightarrow> u8 \<Rightarrow> u8 list \<Rightarrow> out_packet" where
  "mk d pre b c = \<lparr>op_dir = d, op_data = pre @ b # c\<rparr>"

definition pre_ok :: "direction \<Rightarrow> u8 list \<Rightarrow> bool" where
  "pre_ok d pre \<longleftrightarrow> length pre = header_len d - 1"

lemma pre_ok_length [simp]:
  "pre_ok S2C pre \<longleftrightarrow> length pre = 10" "pre_ok C2S pre \<longleftrightarrow> length pre = 12"
  by (simp_all add: pre_ok_def)

lemma out_packet_ok_mk:
  assumes "out_packet_ok p"
  obtains pre b c where "p = mk (op_dir p) pre b c" "pre_ok (op_dir p) pre"
proof -
  let ?n = "header_len (op_dir p) - 1"
  have n: "?n < length (op_data p)" "Suc ?n = header_len (op_dir p)"
    using assms header_len_pos [of "op_dir p"] by (simp_all add: out_packet_ok_def)
  have "op_data p = take ?n (op_data p) @ op_data p ! ?n # drop (Suc ?n) (op_data p)"
    by (rule id_take_nth_drop [OF n(1)])
  then have "p = mk (op_dir p) (take ?n (op_data p)) (op_data p ! ?n) (drop (Suc ?n) (op_data p))"
    by (simp add: mk_def)
  then show ?thesis using that n by (simp add: pre_ok_def)
qed

lemma mk_simps [simp]:
  assumes "pre_ok d pre"
  shows "op_dir (mk d pre b c) = d" "op_data (mk d pre b c) = pre @ b # c"
    "out_content (mk d pre b c) = c" "out_packet_ok (mk d pre b c)"
    "out_header (mk d pre b c) = Some \<lparr>ih_direction = d, ih_data = pre @ [b]\<rparr>"
    "push_bytes x (mk d pre b c) = mk d pre b (c @ x)"
  using assms by (cases d; simp add: mk_def out_content_def out_packet_ok_def out_header_def
    in_header_new_def push_bytes_def)+

lemma header_mk [simp]:
  assumes "pre_ok d pre"
  shows "hdr_flags \<lparr>ih_direction = d, ih_data = pre @ [b]\<rparr> = b AND 0xf0"
    "hdr_packet_type \<lparr>ih_direction = d, ih_data = pre @ [b]\<rparr> = packet_type_from_u8 (b AND 0xf)"
    "hdr_mac \<lparr>ih_direction = d, ih_data = pre @ [b]\<rparr> = take 8 pre"
    "hdr_packet_id \<lparr>ih_direction = d, ih_data = pre @ [b]\<rparr> = be_word (take 2 (drop 8 pre))"
    "get_meta \<lparr>ih_direction = d, ih_data = pre @ [b]\<rparr> = drop 8 pre @ [b]"
    "hdr_client_id \<lparr>ih_direction = d, ih_data = pre @ [b]\<rparr>
       = (if d = S2C then None else Some (be_word (take 2 (drop 10 pre))))"
  using assms by (cases d; simp add: hdr_flags_def hdr_packet_type_def hdr_mac_def
    hdr_packet_id_def get_meta_def hdr_client_id_def get_off_def nth_append)+

lemma nibble_join: "(b AND 0xf) OR ((b AND 0xf0) OR f) = b OR (f :: u8)"
proof -
  have "(b AND 0xf) OR (b AND 0xf0) = b"
  proof -
    have m: "(0xf :: u8) = mask 4" "(0xf0 :: u8) = NOT (mask 4)"
      by (simp_all add: mask_eq_exp_minus_1)
    show ?thesis unfolding m by (rule bit_word_eqI) (auto simp: bit_simps)
  qed
  then show ?thesis by (simp add: or.assoc [symmetric])
qed

lemma setters_mk:
  assumes "pre_ok d pre"
  shows "add_flag f (mk d pre b c) = Some (mk d pre (b OR f) c)"
    "set_packet_id i (mk d pre b c) = Some (mk d (take 8 pre @ be_bytes 2 i @ drop 10 pre) b c)"
    "d = C2S \<Longrightarrow> set_client_id cid (mk d pre b c) = Some (mk d (take 10 pre @ be_bytes 2 cid) b c)"
  using assms by (cases d; simp add: add_flag_def set_flags_def set_packet_id_def set_client_id_def
    write_at_def type_off_def nth_append nibble_join; simp add: mk_def numeral_nat)+

lemma encrypt_mk:
  assumes "proto_lib_ok lib" "pre_ok d pre"
  obtains c' mac where "encrypt_key_nonce lib (mk d pre b c) kn = Inr (mk d (mac @ drop 8 pre) b c')"
    "length mac = 8" "length c' = length c"
    "eax_decrypt lib (fst kn) (snd kn) (drop 8 pre @ [b]) c' mac = Some c"
proof -
  have t: "take (header_len d) (pre @ b # c) = pre @ [b]" "8 \<le> length pre"
    using assms(2) by (cases d; simp)+
  note h = mk_simps [OF assms(2), where b = b and c = c]
  show ?thesis
  proof (rule encrypt_key_nonce_ok [OF assms(1) h(4), of kn])
    fix c' mac
    assume "encrypt_key_nonce lib (mk d pre b c) kn = Inr (mk d pre b c\<lparr>op_data :=
        mac @ drop 8 (take (header_len (op_dir (mk d pre b c))) (op_data (mk d pre b c))) @ c'\<rparr>)"
      "length mac = 8" "length c' = length (out_content (mk d pre b c))"
      "eax_decrypt lib (fst kn) (snd kn) (drop 8 (take (header_len (op_dir (mk d pre b c)))
        (op_data (mk d pre b c)))) c' mac = Some (out_content (mk d pre b c))"
    then show thesis
      unfolding h(1-3) t(1) using that [of mac c'] t(2) by (simp add: mk_def)
  qed
qed

lemma in_packet_new_mk [simp]:
  assumes "pre_ok d pre"
  shows "in_packet_new d (pre @ b # c) =
    Some \<lparr>ip_header = \<lparr>ih_direction = d, ih_data = pre @ [b]\<rparr>, ip_content = c\<rparr>"
    and "raw_id d (pre @ b # c) = be_word (take 2 (drop 8 pre))"
    and "raw_flags d (pre @ b # c) = b AND 0xf0"
    and "raw_content d (pre @ b # c) = c"
  using assms by (cases d; simp add: in_packet_new_Some raw_id_def raw_flags_def raw_content_def nth_append)+

section \<open>Compressing, splitting and putting together again\<close>

text \<open>The flag byte and the content of the pieces.\<close>

definition piece_byte :: "u8 \<Rightarrow> bool \<Rightarrow> nat \<Rightarrow> nat \<Rightarrow> u8" where
  "piece_byte b compressed n i = (let b = (if i = 0 \<and> compressed then b OR COMPRESSED else b) in
     (if 1 < n \<and> (i = 0 \<or> i = n - 1) then b OR FRAGMENTED else b))"

definition pieces_of :: "proto_lib \<Rightarrow> nat \<Rightarrow> u8 \<Rightarrow> u8 list \<Rightarrow> (u8 \<times> u8 list) list" where
  "pieces_of lib m b data =
     (if length data \<le> m then [(b, data)]
      else let compressed = (length (compress lib data) \<le> length data);
               datas = split_data m (if compressed then compress lib data else data)
           in map (\<lambda>(i, d). (piece_byte b compressed (length datas) i, d)) (zip [0..<length datas] datas))"

lemma piece_packet_mk:
  assumes "pre_ok d pre"
  shows "piece_packet (mk d pre b c) compressed n i x = Some (mk d pre (piece_byte b compressed n i) x)"
proof -
  have "new_from_data d (take (header_len d) (pre @ b # c) @ x) = mk d pre b x"
    using assms by (cases d) (simp_all add: new_from_data_def mk_def)
  then show ?thesis
    using assms by (simp add: piece_packet_def piece_byte_def setters_mk Let_def del: take_append)
qed

lemma those_map_Some: "those (map (\<lambda>x. Some (f x)) xs) = Some (map f xs)"
  by (induction xs) simp_all

lemma split_data_single: "length x \<le> m \<Longrightarrow> split_data m x = [x]"
  by (simp add: split_data.simps)

lemma compress_and_split_mk:
  assumes "pre_ok d pre" "d = (if client then C2S else S2C)"
    "packet_type_from_u8 (b AND 0xf) \<noteq> Some VoiceWhisper"
  shows "compress_and_split lib client (mk d pre b c)
    = Some (map (\<lambda>(b, x). mk d pre b x) (pieces_of lib (max_content client) b c))"
proof -
  have h: "header_len d = (if client then C2S_HEADER_LEN else S2C_HEADER_LEN)"
    using assms(2) by (simp add: header_len_def)
  show ?thesis
  proof (cases "length c \<le> max_content client")
    case True
    then show ?thesis using assms(1) by (simp add: compress_and_split_def pieces_of_def)
  next
    case False
    define compressed where "compressed = (length (compress lib c) \<le> length c)"
    define data where "data = (if compressed then compress lib c else c)"
    show ?thesis
      using False h assms(1,3) split_data_single [of data "max_content client"]
      by (cases "length data \<le> max_content client")
        (simp_all add: compress_and_split_def pieces_of_def Let_def compressed_def [symmetric]
        data_def [symmetric] piece_packet_mk case_prod_unfold those_map_Some comp_def)
  qed
qed

lemma concat_split_data: "0 < m \<Longrightarrow> concat (split_data m x) = x"
  by (induction m x rule: split_data.induct) (subst split_data.simps, auto)

lemma split_data_not_Nil: "split_data m x \<noteq> []"
  by (subst split_data.simps) simp

text \<open>What the receiver sees of a piece: a packet with the same byte and content.\<close>

definition carries :: "direction \<Rightarrow> u8 list \<Rightarrow> u8 \<times> u8 list \<Rightarrow> bool" where
  "carries d raw bx \<longleftrightarrow> (\<exists>pre. pre_ok d pre \<and> raw = pre @ fst bx # snd bx)"

lemma carries_raw:
  assumes "carries d raw (b, x)"
  shows "raw_flags d raw = b AND 0xf0" "raw_content d raw = x" "length raw = header_len d + length x"
    "take (header_len d) raw = take (header_len d - 1) raw @ [b]"
proof -
  obtain pre where p: "pre_ok d pre" "raw = pre @ b # x"
    using assms by (auto simp: carries_def)
  show "raw_flags d raw = b AND 0xf0" "raw_content d raw = x" "length raw = header_len d + length x"
    "take (header_len d) raw = take (header_len d - 1) raw @ [b]"
    using p by (cases d; simp)+
qed

text \<open>The flags of a base byte without \<open>COMPRESSED\<close> and \<open>FRAGMENTED\<close>, and of the pieces.\<close>

definition base_byte :: "u8 \<Rightarrow> bool" where
  "base_byte b \<longleftrightarrow> b AND 0x50 = 0"

lemma piece_byte_flags:
  assumes "base_byte b"
  shows "has_flag (piece_byte b z n i AND 0xf0) FRAGMENTED \<longleftrightarrow> 1 < n \<and> (i = 0 \<or> i = n - 1)"
    "has_flag (piece_byte b z n i AND 0xf0) COMPRESSED \<longleftrightarrow> i = 0 \<and> z"
    "piece_byte b z n i AND 0xf = b AND 0xf"
    "has_flag (piece_byte b z n i AND 0xf0) UNENCRYPTED \<longleftrightarrow> has_flag (b AND 0xf0) UNENCRYPTED"
proof -
  have bits: "\<not> bit b 4" "\<not> bit b 6"
  proof -
    have "bit (b AND 0x50) k = False" for k using assms by (simp add: base_byte_def)
    from this [of 4] this [of 6] show "\<not> bit b 4" "\<not> bit b 6" by (simp_all add: bit_simps)
  qed
  have flag: "has_flag x FRAGMENTED \<longleftrightarrow> bit x 4" "has_flag x COMPRESSED \<longleftrightarrow> bit x 6" for x
  proof -
    have b: "bit (16 :: u8) n \<longleftrightarrow> n = 4" "bit (64 :: u8) n \<longleftrightarrow> n = 6" for n
      using bit_exp_iff [of 4 n, where ?'a = u8] bit_exp_iff [of 6 n, where ?'a = u8] by auto
    have "bit x 4" if "x AND 16 = 16"
      using b(1) [of 4] bit_and_iff [of x 16 4] that by simp
    moreover have "bit x 6" if "x AND 64 = 64"
      using b(2) [of 6] bit_and_iff [of x 64 6] that by simp
    moreover have "x AND 16 = 16" if "bit x 4"
      by (rule bit_word_eqI) (use b that in \<open>auto simp only: bit_and_iff\<close>)
    moreover have "x AND 64 = 64" if "bit x 6"
      by (rule bit_word_eqI) (use b that in \<open>auto simp only: bit_and_iff\<close>)
    ultimately show "has_flag x FRAGMENTED \<longleftrightarrow> bit x 4" "has_flag x COMPRESSED \<longleftrightarrow> bit x 6"
      unfolding has_flag_def FRAGMENTED_def COMPRESSED_def by blast+
  qed
  show "has_flag (piece_byte b z n i AND 0xf0) FRAGMENTED \<longleftrightarrow> 1 < n \<and> (i = 0 \<or> i = n - 1)"
    "has_flag (piece_byte b z n i AND 0xf0) COMPRESSED \<longleftrightarrow> i = 0 \<and> z"
    unfolding flag using bits
    by (auto simp: piece_byte_def Let_def bit_simps FRAGMENTED_def COMPRESSED_def)
  show "piece_byte b z n i AND 0xf = b AND 0xf"
    "has_flag (piece_byte b z n i AND 0xf0) UNENCRYPTED \<longleftrightarrow> has_flag (b AND 0xf0) UNENCRYPTED"
    by (auto simp: piece_byte_def Let_def has_flag_def UNENCRYPTED_def FRAGMENTED_def
      COMPRESSED_def and.assoc bit.conj_disj_distrib2)
qed

lemma reassemble_rest:
  assumes "list_all2 (\<lambda>r x. carries d r (bm, x)) rs xs" "\<not> has_flag (bm AND 0xf0) FRAGMENTED"
    "carries d l (bl, x)" "has_flag (bl AND 0xf0) FRAGMENTED"
    "length q + length (concat xs) \<le> MAX_FRAGMENTS_LENGTH" "\<forall>x\<in>set xs. x \<noteq> []"
  shows "reassemble lib d (rs @ [l]) (Some q) = (case decompress_packet lib d (q @ concat xs @ x) of
      None \<Rightarrow> (Inl DecompressPacket, None) | Some p \<Rightarrow> (Inr [p], None))"
  using assms(1,5,6)
proof (induction rs xs arbitrary: q rule: list_all2_induct)
  case Nil
  then show ?case using carries_raw [OF assms(3)] assms(4)
    by (simp add: defragment_def split: option.split)
next
  case (Cons r rs y ys)
  have "length q < MAX_FRAGMENTS_LENGTH" using Cons.prems by (cases y) auto
  then have "defragment lib d r (Some q) = (Inr None, Some (q @ y))"
    using carries_raw [OF Cons.hyps(1)] assms(2) by (simp add: defragment_def)
  then show ?case using Cons.IH [of "q @ y"] Cons.prems by (simp split: option.split)
qed

definition payload :: "proto_lib \<Rightarrow> u8 list \<Rightarrow> u8 list" where
  "payload lib data = (if length (compress lib data) \<le> length data then compress lib data else data)"

lemma split_data_parts: "0 < m \<Longrightarrow> x \<noteq> [] \<Longrightarrow> \<forall>y\<in>set (split_data m x). y \<noteq> []"
proof (induction m x rule: split_data.induct)
  case (1 m x)
  show ?case
    by (subst split_data.simps) (use 1 in \<open>auto simp del: set_drop_subset\<close>)
qed

lemma reassemble_pieces:
  assumes lib: "proto_lib_ok lib" and b: "base_byte b" and m: "0 < m"
    and car: "list_all2 (carries d) rs (pieces_of lib m b data)"
    and len: "length data \<le> MAX_DECOMPRESSED_SIZE"
      "header_len d + length (payload lib data) \<le> MAX_FRAGMENTS_LENGTH"
  shows "reassemble lib d rs None = (Inr [take (header_len d) (hd rs) @ data], None)"
proof -
  have b0: "piece_byte b False 1 0 = b" by (simp add: piece_byte_def)
  have one: "reassemble lib d [r] None = (Inr [take (header_len d) r @ data], None)"
    if r: "carries d r (piece_byte b z 1 0, x)" and z: "if z then x = compress lib data else x = data" for r z x
  proof -
    have f: "\<not> has_flag (piece_byte b z 1 0 AND 0xf0) FRAGMENTED"
      "has_flag (piece_byte b z 1 0 AND 0xf0) COMPRESSED \<longleftrightarrow> z"
      using piece_byte_flags [OF b, of z 1 0] by simp_all
    have "decompress lib (compress lib data) MAX_DECOMPRESSED_SIZE = Some data"
      using lib len(1) by (simp add: proto_lib_ok_def)
    moreover have "r = take (header_len d) r @ x"
      using carries_raw [OF r] unfolding raw_content_def by (metis append_take_drop_id)
    ultimately show ?thesis using carries_raw [OF r] f z
      by (cases z) (simp_all add: defragment_def decompress_packet_def)
  qed
  show ?thesis
  proof (cases "length data \<le> m")
    case True
    then obtain r where "rs = [r]" "carries d r (b, data)"
      using car by (auto simp: pieces_of_def list_all2_Cons2)
    then show ?thesis using one [of r False data] b0 by simp
  next
    case False
    define z where "z = (length (compress lib data) \<le> length data)"
    define ds where "ds = split_data m (payload lib data)"
    define n where "n = length ds"
    have "pieces_of lib m b data = map (\<lambda>(i, x). (piece_byte b z n i, x)) (zip [0..<n] ds)"
      using False by (simp add: pieces_of_def payload_def z_def ds_def n_def Let_def)
    then have nth: "length rs = n" "\<And>i. i < n \<Longrightarrow> carries d (rs ! i) (piece_byte b z n i, ds ! i)"
      using car by (auto simp: list_all2_conv_all_nth n_def)
    have ds: "concat ds = payload lib data" "ds \<noteq> []" by (simp_all add: ds_def concat_split_data m split_data_not_Nil)
    show ?thesis
    proof (cases "n = 1")
      case True
      then obtain x r where "ds = [x]" "rs = [r]" using nth(1)
        by (metis One_nat_def length_0_conv length_Suc_conv n_def)
      then show ?thesis using one [of r z x] nth(2) [of 0] True ds(1) by (simp add: payload_def z_def)
    next
      case False
      then have n2: "1 < n" using ds(2) n_def by (cases n) auto
      have flags: "has_flag (piece_byte b z n i AND 0xf0) FRAGMENTED \<longleftrightarrow> i = 0 \<or> i = n - 1"
        "has_flag (piece_byte b z n i AND 0xf0) COMPRESSED \<longleftrightarrow> i = 0 \<and> z" for i
        using piece_byte_flags [OF b, of z n i] n2 by auto
      define xs where "xs = map (\<lambda>i. ds ! i) [1..<n - 1]"
      define ms where "ms = map (\<lambda>i. rs ! i) [1..<n - 1]"
      have idx: "[0..<n] = 0 # [1..<n - 1] @ [n - 1]"
        using n2 by (metis Suc_diff_1 upt_Suc_append upt_conv_Cons One_nat_def less_imp_le_nat gr_implies_not_zero
          neq0_conv less_Suc_eq_le)
      have split: "rs = rs ! 0 # ms @ [rs ! (n - 1)]" "ds = ds ! 0 # xs @ [ds ! (n - 1)]"
        using arg_cong [OF idx, of "map ((!) rs)"] arg_cong [OF idx, of "map ((!) ds)"]
          map_nth [of rs] map_nth [of ds] unfolding nth(1) n_def [symmetric]
        by (simp_all add: ms_def xs_def)
      have mid: "list_all2 (\<lambda>r x. carries d r (b, x)) ms xs"
      proof -
        have "carries d (rs ! Suc i) (b, ds ! Suc i)" if "i < n - Suc (Suc 0)" for i
        proof -
          have "Suc i < n" "Suc i \<noteq> n - 1" using that by simp_all
          then show ?thesis using nth(2) [of "Suc i"] by (simp add: piece_byte_def Let_def)
        qed
        then show ?thesis by (simp add: ms_def xs_def list_all2_conv_all_nth)
      qed
      have notfrag: "\<not> has_flag (b AND 0xf0) FRAGMENTED"
        using piece_byte_flags(1) [OF b, of False 1 0] by (simp add: piece_byte_def)
      have r0: "carries d (rs ! 0) (piece_byte b z n 0, ds ! 0)" using nth(2) n2 by simp
      have rl: "carries d (rs ! (n - 1)) (piece_byte b z n (n - 1), ds ! (n - 1))" using nth(2) n2 by simp
      have tot: "ds ! 0 @ concat xs @ ds ! (n - 1) = payload lib data"
        using ds(1) arg_cong [OF split(2), of concat] by simp
      have "payload lib data \<noteq> []"
      proof
        assume "payload lib data = []"
        then have "n = 1" using m by (simp add: n_def ds_def split_data_single)
        then show False using False by simp
      qed
      then have "\<forall>x\<in>set ds. x \<noteq> []" unfolding ds_def by (rule split_data_parts [OF m])
      then have ne: "\<forall>x\<in>set xs. x \<noteq> []" using split(2) by (metis Un_iff list.set_intros(2) set_append)
      have fits: "length (rs ! 0) + length (concat xs) \<le> MAX_FRAGMENTS_LENGTH"
        using len(2) arg_cong [OF tot, of length] carries_raw(3) [OF r0] by simp
      have rest: "reassemble lib d (ms @ [rs ! (n - 1)]) (Some (rs ! 0))
          = (case decompress_packet lib d (rs ! 0 @ concat xs @ ds ! (n - 1)) of
              None \<Rightarrow> (Inl DecompressPacket, None) | Some p \<Rightarrow> (Inr [p], None))"
        by (rule reassemble_rest [OF mid notfrag rl _ fits ne]) (simp add: flags)
      obtain pre where pre: "pre_ok d pre" "rs ! 0 = pre @ piece_byte b z n 0 # ds ! 0"
        using r0 by (auto simp: carries_def)
      have all: "rs ! 0 @ concat xs @ ds ! (n - 1) = pre @ piece_byte b z n 0 # payload lib data"
        using pre(2) tot by simp
      have hdr: "take (header_len d) (pre @ piece_byte b z n 0 # y) = pre @ [piece_byte b z n 0]" for y
        using pre(1) by (cases d) simp_all
      have dec: "decompress_packet lib d (pre @ piece_byte b z n 0 # payload lib data)
          = Some (pre @ piece_byte b z n 0 # data)"
        using lib len(1) pre(1) flags(2) [of 0] hdr
        by (cases z) (simp_all add: decompress_packet_def payload_def z_def proto_lib_ok_def del: take_append)
      have "defragment lib d (rs ! 0) None = (Inr None, Some (rs ! 0))"
        using carries_raw [OF r0] flags(1) [of 0] by (simp add: defragment_def)
      moreover have "reassemble lib d (ms @ [rs ! (n - 1)]) (Some (rs ! 0))
          = (Inr [pre @ piece_byte b z n 0 # data], None)"
        using rest unfolding all dec by simp
      ultimately have "reassemble lib d rs None = (Inr [pre @ piece_byte b z n 0 # data], None)"
        by (subst split(1)) simp
      moreover have "take (header_len d) (hd rs) = pre @ [piece_byte b z n 0]"
        using split(1) pre(2) hdr by (metis list.sel(1))
      ultimately show ?thesis by simp
    qed
  qed
qed

section \<open>The sender\<close>

text \<open>
  A datagram that carries the piece \<open>(b, x)\<close> as packet number \<open>n\<close>, encrypted under the key of that
  number.
\<close>

definition encrypted_as ::
    "proto_lib \<Rightarrow> u8 list \<Rightarrow> direction \<Rightarrow> packet_type \<Rightarrow> u16 \<Rightarrow> nat \<Rightarrow> u8 \<times> u8 list \<Rightarrow> u8 list \<Rightarrow> bool" where
  "encrypted_as lib iv d t cid n bx raw \<longleftrightarrow> (\<exists>pre c. pre_ok d pre \<and> raw = pre @ fst bx # c
     \<and> be_word (take 2 (drop 8 pre)) = (of_nat n :: u16)
     \<and> (d = C2S \<longrightarrow> be_word (take 2 (drop 10 pre)) = cid)
     \<and> length c = length (snd bx)
     \<and> (let kn = fresh_key_nonce lib t (if d = S2C then None else Some cid) (of_nat n) (of_nat (n div 65536)) iv
        in eax_decrypt lib (fst kn) (snd kn) (drop 8 pre @ [fst bx]) c (take 8 pre) = Some (snd bx)))"

text \<open>Parameters that use the initialisation vector \<open>iv\<close> and the client identifier \<open>cid\<close>.\<close>

definition params_ok :: "proto_lib \<Rightarrow> u8 list \<Rightarrow> u16 \<Rightarrow> proto_con \<Rightarrow> bool" where
  "params_ok lib iv cid con \<longleftrightarrow> (\<exists>P. con_params con = Some P \<and> cp_shared_iv P = iv \<and> cp_c_id P = cid
     \<and> cache_ok lib iv (cp_key_cache P))"

lemma generation_of_nat:
  assumes "n < 65536 * (2 ^ 32 - 1)"
  shows "(of_nat (n div 65536) :: u32) \<noteq> - 1"
proof -
  have "n div 65536 < 2 ^ 32 - 1" using assms by (simp add: less_mult_imp_div_less mult.commute)
  then have "unat (of_nat (n div 65536) :: u32) \<noteq> 2 ^ 32 - 1" by (simp add: unat_of_nat)
  moreover have "unat (- 1 :: u32) = 2 ^ 32 - 1"
    by (simp add: unsigned_minus_1_eq_mask mask_eq_exp_minus_1)
  ultimately show ?thesis by metis
qed

lemma encrypt_packet_mk:
  assumes "proto_lib_ok lib" "params_ok lib iv cid con" "pre_ok d pre"
    "packet_type_from_u8 (b AND 0xf) = Some t"
  obtains con' c mac where
    "encrypt_packet lib False True gen (mk d pre b x) con = (Inr (mk d (mac @ drop 8 pre) b c), con')"
    "params_ok lib iv cid con'" "con_codec con' = con_codec con" "is_client con' = is_client con"
    "length mac = 8" "length c = length x"
    "gen \<noteq> - 1 \<Longrightarrow> let kn = fresh_key_nonce lib t (hdr_client_id \<lparr>ih_direction = d, ih_data = pre @ [b]\<rparr>)
        (be_word (take 2 (drop 8 pre))) gen iv
      in eax_decrypt lib (fst kn) (snd kn) (drop 8 pre @ [b]) c mac = Some x"
    "stream_items con' = stream_items con" "sock_answers con' = sock_answers con"
    "acks_to_send con' = acks_to_send con" "con_resender con' = con_resender con"
proof -
  obtain P where P: "con_params con = Some P" "cp_shared_iv P = iv" "cp_c_id P = cid"
    "cache_ok lib iv (cp_key_cache P)" using assms(2) by (auto simp: params_ok_def)
  define cc where "cc = hdr_client_id \<lparr>ih_direction = d, ih_data = pre @ [b]\<rparr>"
  define ckn where "ckn = create_key_nonce lib t cc (be_word (take 2 (drop 8 pre))) gen iv (cp_key_cache P)"
  obtain c mac where e: "encrypt_key_nonce lib (mk d pre b x) (fst ckn) = Inr (mk d (mac @ drop 8 pre) b c)"
    "length mac = 8" "length c = length x"
    "eax_decrypt lib (fst (fst ckn)) (snd (fst ckn)) (drop 8 pre @ [b]) c mac = Some x"
    using encrypt_mk [OF assms(1,3), where kn = "fst ckn"] by metis
  have "encrypt lib (mk d pre b x) gen iv (cp_key_cache P) = (Inr (mk d (mac @ drop 8 pre) b c), snd ckn)"
    using assms(3,4) e(1) unfolding ckn_def cc_def by (simp add: encrypt_def case_prod_unfold)
  then have "encrypt_packet lib False True gen (mk d pre b x) con
      = (Inr (mk d (mac @ drop 8 pre) b c), con\<lparr>con_params := Some (P\<lparr>cp_key_cache := snd ckn\<rparr>)\<rparr>)"
    using P by (simp add: encrypt_packet_def)
  moreover have "params_ok lib iv cid (con\<lparr>con_params := Some (P\<lparr>cp_key_cache := snd ckn\<rparr>)\<rparr>)"
    using P create_key_nonce_fresh(2) [OF P(4)] by (simp add: params_ok_def ckn_def)
  moreover have "fst ckn = fresh_key_nonce lib t cc (be_word (take 2 (drop 8 pre))) gen iv" if "gen \<noteq> - 1"
    using create_key_nonce_fresh(1) [OF P(4) that] by (simp add: ckn_def)
  ultimately show ?thesis
    by (intro that [where con' = "con\<lparr>con_params := Some (P\<lparr>cp_key_cache := snd ckn\<rparr>)\<rparr>"
        and mac = mac and c = c]) (use e in \<open>simp_all add: cc_def Let_def\<close>)
qed

lemma encode_pieces_mk:
  assumes "proto_lib_ok lib" "pre_ok d pre" "t \<noteq> Init" "d = C2S \<longrightarrow> be_word (take 2 (drop 10 pre)) = cid"
  shows "params_ok lib iv cid con \<Longrightarrow> \<forall>(b, x)\<in>set bxs. packet_type_from_u8 (b AND 0xf) = Some t
    \<Longrightarrow> pid_num (outgoing_p_ids (con_codec con) t) = N \<Longrightarrow> N + length bxs < 65536 * (2 ^ 32 - 1)
    \<Longrightarrow> \<exists>us con'. encode_pieces lib t False True (map (\<lambda>(b, x). mk d pre b x) bxs) con = (Inr us, con')
      \<and> length us = length bxs
      \<and> (\<forall>k<length bxs. encrypted_as lib iv d t cid (N + k) (bxs ! k) (op_data (udp_data (us ! k))))"
proof (induction bxs arbitrary: con N)
  case Nil
  then show ?case by simp
next
  case (Cons bx bxs)
  obtain b x where bx: "bx = (b, x)" by (cases bx)
  let ?p_id = "outgoing_p_ids (con_codec con) t"
  define pre' where "pre' = take 8 pre @ be_bytes 2 (pid_packet ?p_id) @ drop 10 pre"
  have pre': "pre_ok d pre'" "drop 10 pre' = drop 10 pre" "be_word (take 2 (drop 8 pre')) = pid_packet ?p_id"
    using assms(2) by (cases d; simp add: pre'_def)+
  have ids: "pid_packet ?p_id = of_nat N" "pid_generation ?p_id = of_nat (N div 65536)"
    using pid_num_parts(3,4) [of ?p_id] Cons.prems(3) by simp_all
  have gen: "pid_generation ?p_id \<noteq> - 1"
    unfolding ids(2) using Cons.prems(4) by (intro generation_of_nat) simp
  have ty: "packet_type_from_u8 (b AND 0xf) = Some t" using Cons.prems(2) bx by simp
  obtain con1 c mac where e:
    "encrypt_packet lib False True (pid_generation ?p_id) (mk d pre' b x) con = (Inr (mk d (mac @ drop 8 pre') b c), con1)"
    "params_ok lib iv cid con1" "con_codec con1 = con_codec con" "length mac = 8" "length c = length x"
    "let kn = fresh_key_nonce lib t (hdr_client_id \<lparr>ih_direction = d, ih_data = pre' @ [b]\<rparr>)
        (be_word (take 2 (drop 8 pre'))) (pid_generation ?p_id) iv
      in eax_decrypt lib (fst kn) (snd kn) (drop 8 pre' @ [b]) c mac = Some x"
    using encrypt_packet_mk [OF assms(1) Cons.prems(1) pre'(1) ty] gen by metis
  define con2 where "con2 = upd_codec (\<lambda>c. c\<lparr>outgoing_p_ids := (outgoing_p_ids c)(t := pid_add ?p_id 1)\<rparr>) con1"
  have n2: "pid_num (outgoing_p_ids (con_codec con2) t) = Suc N"
    using Cons.prems(3,4) by (simp add: con2_def pid_num_add)
  have "params_ok lib iv cid con2" using e(2) by (simp add: con2_def params_ok_def)
  from Cons.IH [OF this _ n2] Cons.prems(2,4)
  obtain us con3 where us: "encode_pieces lib t False True (map (\<lambda>(b, x). mk d pre b x) bxs) con2 = (Inr us, con3)"
    "length us = length bxs"
    "\<forall>k<length bxs. encrypted_as lib iv d t cid (Suc N + k) (bxs ! k) (op_data (udp_data (us ! k)))"
    by auto
  define q where "q = mac @ drop 8 pre'"
  have q: "drop 8 q = drop 8 pre'" "drop 10 q = drop 10 pre" "take 8 q = mac" "pre_ok d q"
    using e(4) pre'(1,2) by (cases d; simp add: q_def add.commute)+
  let ?u = "\<lparr>generation_id = pid_generation (pid_add ?p_id 1), udp_data = mk d q b c\<rparr>"
  have run: "encode_pieces lib t False True (map (\<lambda>(b, x). mk d pre b x) (bx # bxs)) con = (Inr (?u # us), con3)"
    using us(1) e(1,3) assms(2,3) bx
    by (simp add: next_out_id_def setters_mk pre'_def con2_def Let_def q_def)
  have cid: "hdr_client_id \<lparr>ih_direction = d, ih_data = pre' @ [b]\<rparr> = (if d = S2C then None else Some cid)"
    using pre'(1,2) assms(4) by (cases d) simp_all
  have "encrypted_as lib iv d t cid N (b, x) (q @ b # c)"
    unfolding encrypted_as_def
    by (rule exI [of _ q], rule exI [of _ c])
      (use q pre'(3) e(5,6) ids assms(4) in \<open>simp add: cid\<close>)
  then have first: "encrypted_as lib iv d t cid N (b, x) (op_data (udp_data ?u))" using q(4) by simp
  show ?case
    using run us(2,3) first bx by (intro exI [of _ "?u # us"] exI [of _ con3]) (auto simp: nth_Cons' less_Suc_eq_0_disj)
qed

lemma length_split_data: "0 < m \<Longrightarrow> length (split_data m x) \<le> Suc (length x)"
proof (induction m x rule: split_data.induct)
  case (1 m x)
  then show ?case by (subst split_data.simps) auto
qed

lemma length_pieces: "0 < m \<Longrightarrow> length (pieces_of lib m b x) \<le> Suc (length (payload lib x))"
  using length_split_data [of m "payload lib x"] by (simp add: pieces_of_def payload_def Let_def)

lemma pieces_type:
  assumes "base_byte b" "(b', y) \<in> set (pieces_of lib m b x)"
  shows "b' AND 0xf = b AND 0xf" "has_flag (b' AND 0xf0) UNENCRYPTED \<longleftrightarrow> has_flag (b AND 0xf0) UNENCRYPTED"
  using assms(2) piece_byte_flags(3,4) [OF assms(1)]
  by (auto simp: pieces_of_def Let_def split: if_splits)

lemma newprotocol_byte:
  assumes "base_byte b"
  shows "base_byte (b OR NEWPROTOCOL)" "(b OR NEWPROTOCOL) AND 0xf = b AND 0xf"
    "has_flag ((b OR NEWPROTOCOL) AND 0xf0) UNENCRYPTED \<longleftrightarrow> has_flag (b AND 0xf0) UNENCRYPTED"
  using assms by (simp_all add: base_byte_def NEWPROTOCOL_def has_flag_def UNENCRYPTED_def
    and.assoc bit.conj_disj_distrib2)

lemma is_command_cases: "is_command t \<longleftrightarrow> t = Command \<or> t = CommandLow"
  by (simp add: is_command_def)

lemma encode_command:
  assumes "proto_lib_ok lib" "params_ok lib iv cid a" "pre_ok d pre" "d = (if is_client a then C2S else S2C)"
    "base_byte b" "packet_type_from_u8 (b AND 0xf) = Some t" "is_command t"
    "\<not> fake_encrypted (is_client a) t (outgoing_p_ids (con_codec a) t) c"
    "pid_num (outgoing_p_ids (con_codec a) t) = N" "N + length (payload lib c) + 1 < 65536 * (2 ^ 32 - 1)"
  obtains us a' b' where "encode_packet lib (mk d pre b c) a = (Inr us, a')"
    "base_byte b'" "b' AND 0xf = b AND 0xf"
    "has_flag (b' AND 0xf0) UNENCRYPTED \<longleftrightarrow> has_flag (b AND 0xf0) UNENCRYPTED"
    "length us = length (pieces_of lib (max_content (is_client a)) b' c)"
    "\<forall>k<length us. encrypted_as lib iv d t cid (N + k)
       (pieces_of lib (max_content (is_client a)) b' c ! k) (op_data (udp_data (us ! k)))"
proof -
  obtain P where P: "con_params a = Some P" "cp_c_id P = cid" using assms(2) by (auto simp: params_ok_def)
  define b' where "b' = (if is_client a then b OR NEWPROTOCOL else b)"
  define pre' where "pre' = (if is_client a then take 10 pre @ be_bytes 2 cid else pre)"
  define bxs where "bxs = pieces_of lib (max_content (is_client a)) b' c"
  have b': "base_byte b'" "b' AND 0xf = b AND 0xf"
    "has_flag (b' AND 0xf0) UNENCRYPTED \<longleftrightarrow> has_flag (b AND 0xf0) UNENCRYPTED"
    using assms(5) newprotocol_byte [OF assms(5)] by (simp_all add: b'_def)
  have pre': "pre_ok d pre'" "d = C2S \<longrightarrow> be_word (take 2 (drop 10 pre')) = cid"
    using assms(3,4) by (auto simp: pre'_def split: if_splits)
  have m: "0 < max_content (is_client a)" by (simp add: max_content_def C2S_HEADER_LEN_def S2C_HEADER_LEN_def)
  have enc: "should_encrypt t v" "t \<noteq> Init" for v
    using assms(7) by (auto simp: should_encrypt_def is_command_def)
  have split: "compress_and_split lib (is_client a) (mk d pre' b' c) = Some (map (\<lambda>(b, x). mk d pre' b x) bxs)"
    unfolding bxs_def
    by (rule compress_and_split_mk [OF pre'(1) assms(4)]) (use assms(6,7) b'(2) in \<open>auto simp: is_command_def\<close>)
  have prep: "prepare_header (is_client a) t cid False mac (mk d pre b' c) = Some (mk d pre' b' c)" for mac
    using assms(3,4) by (auto simp: prepare_header_def setters_mk b'_def pre'_def)
  have "add_flag NEWPROTOCOL (mk d pre b c) = Some (mk d pre (b OR NEWPROTOCOL) c)"
    by (rule setters_mk(1) [OF assms(3)])
  then have flag: "(if is_command t \<and> is_client a then add_flag NEWPROTOCOL (mk d pre b c) else Some (mk d pre b c))
      = Some (mk d pre b' c)"
    using assms(7) by (simp add: b'_def)
  have run: "encode_packet lib (mk d pre b c) a
      = encode_pieces lib t False True (map (\<lambda>(b, x). mk d pre' b x) bxs) a"
    using flag prep split P assms(3,6,7,8) enc
    by (simp add: encode_packet_def Let_def next_out_id_def)
  have "\<forall>(b, x)\<in>set bxs. packet_type_from_u8 (b AND 0xf) = Some t"
    using pieces_type(1) [OF b'(1)] b'(2) assms(6) by (auto simp: bxs_def)
  moreover have "N + length bxs < 65536 * (2 ^ 32 - 1)"
    using assms(10) length_pieces [OF m, of lib b' c] by (simp add: bxs_def)
  ultimately obtain us a' where us:
    "encode_pieces lib t False True (map (\<lambda>(b, x). mk d pre' b x) bxs) a = (Inr us, a')" "length us = length bxs"
    "\<forall>k<length bxs. encrypted_as lib iv d t cid (N + k) (bxs ! k) (op_data (udp_data (us ! k)))"
    using encode_pieces_mk [OF assms(1) pre'(1) enc(2) pre'(2) assms(2) _ assms(9)] by blast
  then show ?thesis using that [of us a' b'] run b' unfolding bxs_def by simp
qed

end
