(* ===== verification/Receiver.thy ===== *)
theory Receiver
  imports Transport
begin

unbundle bit_operations_syntax

text \<open>
  What arrives of a command sent by the other side (theory Transport): the datagrams of its pieces,
  received in order, are decrypted, acknowledged, reassembled and delivered as the one command.
\<close>

section \<open>The receiver\<close>

text \<open>What does not change on the receiver's side while it handles packets of one command.\<close>

definition rx_ok :: "proto_lib \<Rightarrow> u8 list \<Rightarrow> u16 \<Rightarrow> bool \<Rightarrow> proto_con \<Rightarrow> bool" where
  "rx_ok lib iv cid client con \<longleftrightarrow> params_ok lib iv cid con \<and> is_client con = client
     \<and> SendFailed \<notin> set (sock_answers con)"

definition commands_of :: "proto_con \<Rightarrow> in_packet list" where
  "commands_of con = concat (map (\<lambda>it. case it of StreamCommand p \<Rightarrow> [p] | _ \<Rightarrow> []) (stream_items con))"

lemma commands_of_push [simp]:
  "commands_of (push_item it con) = commands_of con @ (case it of StreamCommand p \<Rightarrow> [p] | _ \<Rightarrow> [])"
  by (simp add: commands_of_def push_item_def)

lemma commands_of_cong: "stream_items con = stream_items con' \<Longrightarrow> commands_of con = commands_of con'"
  by (simp add: commands_of_def)

lemma rx_ok_cong:
  "con_params con' = con_params con \<Longrightarrow> is_client con' = is_client con \<Longrightarrow> sock_answers con' = sock_answers con
     \<Longrightarrow> rx_ok lib iv cid client con' = rx_ok lib iv cid client con"
  by (simp add: rx_ok_def params_ok_def)

lemma handle_loss_frame [simp]:
  "con_params (handle_loss_outgoing_udp u con) = con_params con"
  "is_client (handle_loss_outgoing_udp u con) = is_client con"
  "sock_answers (handle_loss_outgoing_udp u con) = sock_answers con"
  "stream_items (handle_loss_outgoing_udp u con) = stream_items con"
  "con_codec (handle_loss_outgoing_udp u con) = con_codec con"
  by (simp_all add: handle_loss_outgoing_udp_def split: option.split)

lemma sock_send_ok:
  assumes "SendFailed \<notin> set (sock_answers con)"
  obtains r as w where "sock_send u con = (r, con\<lparr>sock_answers := as, wire := w\<rparr>)"
    "r \<noteq> SendFailed" "SendFailed \<notin> set as"
proof (cases "sock_answers con")
  case Nil
  then have "sock_send u con = (SendPending, con\<lparr>sock_answers := [], wire := wire con\<rparr>)"
    by (simp add: sock_send_def)
  from that [OF this] show ?thesis by simp
next
  case (Cons a as)
  then show ?thesis
    using assms that [where r = a and as = as and w = "if a = SendOk then wire con @ [u] else wire con"]
    by (cases a) (simp_all add: sock_send_def)
qed

text \<open>Acknowledging a command always works, and changes neither the items nor what is received.\<close>

lemma send_ack_ok:
  assumes "proto_lib_ok lib" "rx_ok lib iv cid client con" "is_command t"
  obtains con' where "ack_answer lib t i con = (con', None)" "rx_ok lib iv cid client con'"
    "stream_items con' = stream_items con" "get_cmd_state t (con_codec con') = get_cmd_state t (con_codec con)"
proof -
  obtain P where P: "con_params con = Some P" "cp_c_id P = cid" "params_ok lib iv cid con"
    "is_client con = client" "SendFailed \<notin> set (sock_answers con)"
    using assms(2) by (auto simp: rx_ok_def params_ok_def)
  define d where "d = (if client then C2S else S2C)"
  obtain ak where ak: "ack_type t = Some ak" "ak = Ack \<or> ak = AckLow"
    using assms(3) by (auto simp: is_command_def)
  have akt: "\<not> is_command ak" "\<not> is_voice ak" "ak \<noteq> Init" "should_encrypt ak v" for v
    using ak(2) by (auto simp: is_command_def is_voice_def should_encrypt_def)
  define pre where "pre = (replicate (header_len d - 1) 0 :: u8 list)"
  have pre: "pre_ok d pre" by (simp add: pre_def pre_ok_def)
  have out: "out_ack (direction_reverse (con_dir con)) t i = Some (mk d pre (packet_type_to_u8 ak) (be_bytes 2 i))"
    using out_ack_eq [OF ak(1)] P(4) by (simp add: con_dir_def d_def mk_def pre_def)
  define pre1 where "pre1 = (if client then take 10 pre @ be_bytes 2 cid else pre)"
  have pre1: "pre_ok d pre1" using pre by (cases client) (simp_all add: pre1_def d_def)
  define pid where "pid = outgoing_p_ids (con_codec con) ak"
  define pre2 where "pre2 = take 8 pre1 @ be_bytes 2 (pid_packet pid) @ drop 10 pre1"
  have pre2: "pre_ok d pre2" using pre1 by (cases d) (simp_all add: pre2_def)
  define fake where "fake = fake_encrypted client ak pid (be_bytes 2 i)"
  have pt: "packet_type_from_u8 (packet_type_to_u8 ak AND 0xf) = Some ak" by simp
  have "\<exists>q con1. encrypt_packet lib fake True (pid_generation pid) (mk d pre2 (packet_type_to_u8 ak) (be_bytes 2 i)) con
      = (Inr q, con1) \<and> params_ok lib iv cid con1 \<and> con_codec con1 = con_codec con \<and> is_client con1 = is_client con
      \<and> stream_items con1 = stream_items con \<and> sock_answers con1 = sock_answers con"
  proof (cases fake)
    case True
    obtain c mac where "encrypt_key_nonce lib (mk d pre2 (packet_type_to_u8 ak) (be_bytes 2 i)) (FAKE_KEY, FAKE_NONCE)
        = Inr (mk d (mac @ drop 8 pre2) (packet_type_to_u8 ak) c)"
      using encrypt_mk [OF assms(1) pre2] by metis
    then show ?thesis using True P(3) by (simp add: encrypt_packet_def encrypt_fake_def)
  next
    case False
    show ?thesis
      using encrypt_packet_mk [OF assms(1) P(3) pre2 pt, of "pid_generation pid" "be_bytes 2 i"] False by metis
  qed
  then obtain q con1 where q: "encrypt_packet lib fake True (pid_generation pid)
        (mk d pre2 (packet_type_to_u8 ak) (be_bytes 2 i)) con = (Inr q, con1)"
    "params_ok lib iv cid con1" "con_codec con1 = con_codec con" "is_client con1 = is_client con"
    "stream_items con1 = stream_items con" "sock_answers con1 = sock_answers con" by blast
  define con2 where "con2 = upd_codec (\<lambda>c. c\<lparr>outgoing_p_ids := (outgoing_p_ids c)(ak := pid_add pid 1)\<rparr>) con1"
  let ?u = "\<lparr>generation_id = pid_generation (pid_add pid 1), udp_data = q\<rparr>"
  have prep: "prepare_header client ak cid False mac (mk d pre (packet_type_to_u8 ak) (be_bytes 2 i))
      = Some (mk d pre1 (packet_type_to_u8 ak) (be_bytes 2 i))" for mac
    using pre by (auto simp: prepare_header_def setters_mk pre1_def d_def)
  have "encode_packet lib (mk d pre (packet_type_to_u8 ak) (be_bytes 2 i)) con
      = encode_pieces lib ak fake True [mk d pre1 (packet_type_to_u8 ak) (be_bytes 2 i)] con"
    using prep P(1,2,4) pre akt
    by (simp add: encode_packet_def Let_def next_out_id_def fake_def pid_def del: encode_pieces.simps)
  also have "\<dots> = (Inr [?u], con2)"
    using q(1) pre1 akt(3) by (simp add: next_out_id_def pid_def [symmetric] setters_mk pre2_def [symmetric] con2_def Let_def)
  finally have enc: "encode_packet lib (mk d pre (packet_type_to_u8 ak) (be_bytes 2 i)) con = (Inr [?u], con2)" .
  have c2: "params_ok lib iv cid con2" "is_client con2 = client" "stream_items con2 = stream_items con"
    "sock_answers con2 = sock_answers con" "get_cmd_state t (con_codec con2) = get_cmd_state t (con_codec con)"
    using q P(4) by (simp_all add: con2_def params_ok_def get_cmd_state_def)
  have ans: "ack_answer lib t i con = (case sock_send ?u con2 of
        (SendOk, con) \<Rightarrow> (handle_loss_outgoing_udp ?u con, None)
      | (SendFailed, con) \<Rightarrow> (con, Some Network)
      | (SendPending, con) \<Rightarrow> (con\<lparr>acks_to_send := acks_to_send con @ [?u]\<rparr>, None))"
    unfolding ack_answer_def out using enc by (simp add: send_ack_packet_def)
  obtain r as w where s: "sock_send ?u con2 = (r, con2\<lparr>sock_answers := as, wire := w\<rparr>)"
    "r \<noteq> SendFailed" "SendFailed \<notin> set as"
    using sock_send_ok [of con2 ?u] P(5) c2(4) by metis
  define con3 where "con3 = con2\<lparr>sock_answers := as, wire := w\<rparr>"
  have c3: "params_ok lib iv cid con3" "is_client con3 = client" "stream_items con3 = stream_items con"
    "SendFailed \<notin> set (sock_answers con3)" "get_cmd_state t (con_codec con3) = get_cmd_state t (con_codec con)"
    using c2 s(3) by (simp_all add: con3_def params_ok_def)
  show ?thesis
  proof (cases r)
    case SendOk
    then show ?thesis
      using that [of "handle_loss_outgoing_udp ?u con3"] ans s(1) c3
      by (simp add: con3_def [symmetric] rx_ok_def params_ok_def)
  next
    case SendPending
    then show ?thesis
      using that [of "con3\<lparr>acks_to_send := acks_to_send con3 @ [?u]\<rparr>"] ans s(1) c3
      by (simp add: con3_def [symmetric] rx_ok_def params_ok_def)
  qed (use s(2) in simp)
qed

section \<open>One packet\<close>

lemma ack_keeps_commands:
  assumes "resender_ack_packet now t i con = Some con'"
  shows "con_params con' = con_params con" "is_client con' = is_client con"
    "sock_answers con' = sock_answers con" "commands_of con' = commands_of con" "con_codec con' = con_codec con"
  using assms
  by (auto simp: resender_ack_packet_def Let_def push_item_def commands_of_def
    split: if_splits option.splits list.splits)

lemma ack_total: "packet_type_to_index t = Some qi \<Longrightarrow> \<exists>con'. resender_ack_packet now t i con = Some con'"
  by (cases "rs_full (con_resender con) qi") (auto simp: resender_ack_packet_def Let_def)

lemma deliver_one:
  assumes "in_packet_new (con_dir con) q = Some p"
  obtains con' where "deliver_commands now [q] con = Some con'"
    "con_params con' = con_params con" "is_client con' = is_client con" "sock_answers con' = sock_answers con"
    "commands_of con' = commands_of con @ [p]" "con_codec con' = con_codec con"
proof (cases "implied_ack (is_client con) (ip_content p)")
  case None
  then show ?thesis
    using assms that [of "push_item (StreamCommand p) con"] by (simp add: push_item_def commands_of_def)
next
  case (Some ti)
  obtain t i where ti: "ti = (t, i)" by (cases ti)
  have "t = Init \<or> t = Command" using Some ti by (auto simp: implied_ack_def split: if_splits)
  then obtain con1 where c: "resender_ack_packet now t i con = Some con1"
    using ack_total [of t _ now i con] by force
  show ?thesis
    using that [of "push_item (StreamCommand p) con1"] assms Some ti c ack_keeps_commands [OF c]
    by (simp add: push_item_def commands_of_def)
qed

lemma extract_Nil: "List.extract P [] = None"
  by (simp add: extract_None_iff)

lemma handle_one_command:
  assumes "pid_packet (cs_next s) = raw_id d data" "cs_queue s = []"
    "defragment lib d data (cs_frag s) = (Inr res, frag')"
  shows "handle_command lib d data s = (Inr (case res of None \<Rightarrow> [] | Some q \<Rightarrow> [q]),
    s\<lparr>cs_next := pid_add (cs_next s) 1, cs_frag := frag'\<rparr>)"
  using assms
  by (subst handle_command_def, subst command_loop.simps) (simp add: Let_def extract_Nil split: option.split)

text \<open>Whatever the command state becomes, the complete command is delivered and acknowledged.\<close>

lemma handle_plain_command:
  assumes "proto_lib_ok lib" "rx_ok lib iv cid client con" "is_command t" "d = con_dir con"
    "s = get_cmd_state t (con_codec con)" "pid_packet (cs_next s) = raw_id d data" "cs_queue s = []"
    "defragment lib d data (cs_frag s) = (Inr res, frag')" "\<forall>q. res = Some q \<longrightarrow> in_packet_new d q \<noteq> None"
  obtains con' where "handle_plain_packet lib now t i gen data con = (con', None)" "rx_ok lib iv cid client con'"
    "get_cmd_state t (con_codec con') = s\<lparr>cs_next := pid_add (cs_next s) 1, cs_frag := frag'\<rparr>"
    "commands_of con' = commands_of con @ (case res of None \<Rightarrow> [] | Some q \<Rightarrow> [the (in_packet_new d q)])"
proof -
  define s' where "s' = s\<lparr>cs_next := pid_add (cs_next s) 1, cs_frag := frag'\<rparr>"
  define con1 where "con1 = upd_codec (put_cmd_state t s') con"
  define qs where "qs = (case res of None \<Rightarrow> [] | Some q \<Rightarrow> [q])"
  have h: "handle_command_packet lib (con_dir con) t data con = (Inr qs, con1)"
    using handle_one_command [OF assms(6-8)] assms(4,5)
    by (simp add: handle_command_packet_def con1_def s'_def qs_def)
  have c1: "rx_ok lib iv cid client con1" "con_dir con1 = d" "commands_of con1 = commands_of con"
    "get_cmd_state t (con_codec con1) = s'"
    using assms(2,4) by (simp_all add: con1_def rx_ok_def params_ok_def con_dir_def commands_of_def)
  obtain con2 where c2: "deliver_commands now qs con1 = Some con2" "rx_ok lib iv cid client con2"
    "commands_of con2 = commands_of con @ map (\<lambda>q. the (in_packet_new d q)) qs" "con_codec con2 = con_codec con1"
  proof (cases res)
    case None
    then show ?thesis using that [of con1] c1 by (simp add: qs_def)
  next
    case (Some q)
    then obtain p where p: "in_packet_new (con_dir con1) q = Some p" using assms(9) c1(2) by auto
    have qs: "qs = [q]" using Some by (simp add: qs_def)
    show ?thesis
    proof (rule deliver_one [OF p, of now])
      fix con2
      assume a: "deliver_commands now [q] con1 = Some con2" "con_params con2 = con_params con1"
        "is_client con2 = is_client con1" "sock_answers con2 = sock_answers con1"
        "commands_of con2 = commands_of con1 @ [p]" "con_codec con2 = con_codec con1"
      have ok: "rx_ok lib iv cid client con2" using rx_ok_cong [OF a(2-4)] c1(1) by (rule iffD2)
      have "the (in_packet_new d q) = p" using p c1(2) by simp
      then have cs: "commands_of con2 = commands_of con @ map (\<lambda>q. the (in_packet_new d q)) qs"
        unfolding qs a(5) c1(3) by simp
      show ?thesis by (rule that [OF _ ok cs a(6)]) (unfold qs, rule a(1))
    qed
  qed
  obtain con3 where c3: "ack_answer lib t i con2 = (con3, None)" "rx_ok lib iv cid client con3"
    "stream_items con3 = stream_items con2" "get_cmd_state t (con_codec con3) = get_cmd_state t (con_codec con2)"
    using send_ack_ok [OF assms(1) c2(2) assms(3)] by metis
  have "handle_plain_packet lib now t i gen data con = (con3, None)"
    using h c2(1) c3(1) assms(3) by (simp add: handle_plain_packet_def)
  then show ?thesis
    using that c3 c2 c1(4) commands_of_cong [OF c3(3)]
    by (simp add: s'_def qs_def split: option.splits)
qed

text \<open>The next packet of a command, as it arrives: what it is once its content is decrypted to \<open>x\<close>.\<close>

definition plain_of :: "direction \<Rightarrow> u8 \<times> u8 list \<Rightarrow> u8 list \<Rightarrow> u8 list" where
  "plain_of d bx raw = take (header_len d) raw @ snd bx"

lemma decrypt_piece:
  assumes "params_ok lib iv cid con" "pre_ok d pre" "packet_type_from_u8 (b AND 0xf) = Some t"
    "be_word (take 2 (drop 8 pre)) = i" "d = C2S \<longrightarrow> be_word (take 2 (drop 10 pre)) = cid" "gen \<noteq> - 1"
    "let kn = fresh_key_nonce lib t (if d = S2C then None else Some cid) i gen iv
     in eax_decrypt lib (fst kn) (snd kn) (drop 8 pre @ [b]) c (take 8 pre) = Some x"
    "p = \<lparr>ip_header = \<lparr>ih_direction = d, ih_data = pre @ [b]\<rparr>, ip_content = c\<rparr>" "t \<noteq> Ack"
  obtains con' where "decrypt_packet lib p t gen i con = (Inr x, con')" "params_ok lib iv cid con'"
    "is_client con' = is_client con" "sock_answers con' = sock_answers con" "con_codec con' = con_codec con"
    "stream_items con' = stream_items con"
proof -
  obtain P where P: "con_params con = Some P" "cp_shared_iv P = iv" "cp_c_id P = cid"
    "cache_ok lib iv (cp_key_cache P)" using assms(1) by (auto simp: params_ok_def)
  define ckn where "ckn = create_key_nonce lib t (if d = S2C then None else Some cid) i gen iv (cp_key_cache P)"
  have kn: "fst ckn = fresh_key_nonce lib t (if d = S2C then None else Some cid) i gen iv"
    unfolding ckn_def by (rule create_key_nonce_fresh(1) [OF P(4) assms(6)])
  have h: "hdr_client_id (ip_header p) = (if d = S2C then None else Some cid)" "hdr_packet_id (ip_header p) = i"
    "get_meta (ip_header p) = drop 8 pre @ [b]" "hdr_mac (ip_header p) = take 8 pre"
    "ip_content p = c"
    using assms(2,4,5) header_mk [OF assms(2), of b] by (cases d; simp add: assms(8))+
  have "decrypt_key_nonce lib p t (fst ckn) = Inr x"
    using assms(7) unfolding decrypt_key_nonce_def h kn by (simp add: Let_def)
  then have "decrypt lib p t gen iv (cp_key_cache P) = (Inr x, snd ckn)"
    unfolding decrypt_def h(1,2) ckn_def [symmetric] by (simp add: case_prod_unfold)
  then have "decrypt_packet lib p t gen i con = (Inr x, con\<lparr>con_params := Some (P\<lparr>cp_key_cache := snd ckn\<rparr>)\<rparr>)"
    using P assms(9) by (simp add: decrypt_packet_def decrypt_with_params_def)
  moreover have "params_ok lib iv cid (con\<lparr>con_params := Some (P\<lparr>cp_key_cache := snd ckn\<rparr>)\<rparr>)"
    using P create_key_nonce_fresh(2) [OF P(4)] by (simp add: params_ok_def ckn_def)
  ultimately show ?thesis by (rule that) simp_all
qed

lemma receive_piece:
  assumes "proto_lib_ok lib" "rx_ok lib iv cid client con" "is_command t" "d = (if client then S2C else C2S)"
    "packet_type_from_u8 (b AND 0xf) = Some t" "\<not> has_flag (b AND 0xf0) UNENCRYPTED"
    "encrypted_as lib iv d t cid N (b, x) raw" "s = get_cmd_state t (con_codec con)" "pid_num (cs_next s) = N"
    "cs_queue s = []" "N < 65536 * (2 ^ 32 - 1)"
    "defragment lib d (plain_of d (b, x) raw) (cs_frag s) = (Inr res, frag')"
    "\<forall>q. res = Some q \<longrightarrow> in_packet_new d q \<noteq> None"
  obtains con' where "codec_handle_udp_packet lib now raw con = (con', None)" "rx_ok lib iv cid client con'"
    "get_cmd_state t (con_codec con') = s\<lparr>cs_next := pid_add (cs_next s) 1, cs_frag := frag'\<rparr>"
    "commands_of con' = commands_of con @ (case res of None \<Rightarrow> [] | Some q \<Rightarrow> [the (in_packet_new d q)])"
proof -
  obtain pre c where e: "pre_ok d pre" "raw = pre @ b # c" "be_word (take 2 (drop 8 pre)) = (of_nat N :: u16)"
    "d = C2S \<longrightarrow> be_word (take 2 (drop 10 pre)) = cid" "length c = length x"
    "let kn = fresh_key_nonce lib t (if d = S2C then None else Some cid) (of_nat N) (of_nat (N div 65536)) iv
     in eax_decrypt lib (fst kn) (snd kn) (drop 8 pre @ [b]) c (take 8 pre) = Some x"
    using assms(7) by (auto simp: encrypted_as_def)
  define p where "p = \<lparr>ip_header = \<lparr>ih_direction = d, ih_data = pre @ [b]\<rparr>, ip_content = c\<rparr>"
  have dir: "con_dir con = d" using assms(2,4) by (simp add: con_dir_def rx_ok_def)
  have new: "in_packet_new (con_dir con) raw = Some p"
    using e(1,2) unfolding dir p_def by (cases d) (simp_all add: in_packet_new_def in_header_new_def)
  have h: "hdr_packet_type (ip_header p) = Some t" "hdr_packet_id (ip_header p) = of_nat N"
    "hdr_flags (ip_header p) = b AND 0xf0" "hdr_client_id (ip_header p) = (if d = S2C then None else Some cid)"
    using e(1,3,4) assms(5) by (cases d; simp add: p_def)+
  have t: "t \<noteq> Init" "t \<noteq> Ack" using assms(3) by (auto simp: is_command_def)
  obtain limit where win: "in_receive_window (con_codec con) t (of_nat N) = (True, of_nat (N div 65536), of_nat N, limit)"
    using receive_window_finds_the_number [OF t(1), of N "con_codec con" N] assms(8,9) by auto
  define con1 where "con1 = upd_resender (handle_loss_incoming t p True (of_nat N)) con"
  have P: "params_ok lib iv cid con1" "rx_ok lib iv cid client con1"
    using assms(2) by (simp_all add: con1_def rx_ok_def params_ok_def)
  have "refused con1 t (of_nat (N div 65536)) (of_nat N) (hdr_client_id (ip_header p)) = None"
    using P assms(4) t unfolding h(4) by (auto simp: refused_def params_ok_def rx_ok_def)
  moreover obtain con2 where con2: "decrypt_packet lib p t (of_nat (N div 65536)) (of_nat N) con1 = (Inr x, con2)"
    "params_ok lib iv cid con2" "is_client con2 = is_client con1" "sock_answers con2 = sock_answers con1"
    "con_codec con2 = con_codec con1" "stream_items con2 = stream_items con1"
    by (rule decrypt_piece [OF P(1) e(1) assms(5) e(3,4) generation_of_nat [OF assms(11)] e(6) p_def t(2)])
  ultimately have run: "codec_handle_udp_packet lib now raw con
      = handle_plain_packet lib now t (of_nat N) (of_nat (N div 65536)) (pre @ b # x) con2"
    using new h win e(5) t(2) assms(6)
    by (simp add: codec_handle_udp_packet_def con1_def [symmetric] Let_def) (simp add: p_def)
  have c2: "rx_ok lib iv cid client con2" "con_dir con2 = d" "s = get_cmd_state t (con_codec con2)"
    "commands_of con2 = commands_of con"
    using con2 P(2) dir assms(8) by (simp_all add: rx_ok_def con_dir_def con1_def commands_of_def)
  have rid: "pid_packet (cs_next s) = raw_id d (pre @ b # x)"
    using pid_num_parts(3) [of "cs_next s"] assms(9) e(1,3) by (cases d) (simp_all add: raw_id_def)
  have a: "defragment lib d (pre @ b # x) (cs_frag s) = (Inr res, frag')"
    using assms(12) e(1,2) by (cases d) (simp_all add: plain_of_def)
  show ?thesis
    using handle_plain_command [OF assms(1) c2(1) assms(3) c2(2) [symmetric] c2(3) rid assms(10) a assms(13)]
      that unfolding run c2(4) by metis
qed

section \<open>A whole command\<close>

fun receive_all :: "proto_lib \<Rightarrow> instant \<Rightarrow> u8 list list \<Rightarrow> proto_con \<Rightarrow> proto_con \<times> proto_error option" where
  "receive_all lib now [] con = (con, None)"
| "receive_all lib now (r # rs) con = (case codec_handle_udp_packet lib now r con of
      (con, Some e) \<Rightarrow> (con, Some e)
    | (con, None) \<Rightarrow> receive_all lib now rs con)"

lemma plain_of_carries: "encrypted_as lib iv d t cid n bx raw \<Longrightarrow> carries d (plain_of d bx raw) bx"
  by (cases d) (auto simp: encrypted_as_def carries_def plain_of_def)

lemma receive_pieces:
  assumes "proto_lib_ok lib" "is_command t" "d = (if client then S2C else C2S)"
    "\<forall>(b, x)\<in>set bxs. packet_type_from_u8 (b AND 0xf) = Some t \<and> \<not> has_flag (b AND 0xf0) UNENCRYPTED"
  shows "rx_ok lib iv cid client con \<Longrightarrow> length raws = length bxs
    \<Longrightarrow> \<forall>k<length bxs. encrypted_as lib iv d t cid (N + k) (bxs ! k) (raws ! k)
    \<Longrightarrow> pid_num (cs_next (get_cmd_state t (con_codec con))) = N \<Longrightarrow> cs_queue (get_cmd_state t (con_codec con)) = []
    \<Longrightarrow> N + length bxs < 65536 * (2 ^ 32 - 1)
    \<Longrightarrow> reassemble lib d (map2 (plain_of d) bxs raws) (cs_frag (get_cmd_state t (con_codec con))) = (Inr out, frag')
    \<Longrightarrow> \<forall>q\<in>set out. in_packet_new d q \<noteq> None
    \<Longrightarrow> \<exists>con'. receive_all lib now raws con = (con', None)
      \<and> commands_of con' = commands_of con @ map (\<lambda>q. the (in_packet_new d q)) out
      \<and> pid_num (incoming_p_ids (con_codec con') t) = N + length bxs"
  using assms(4)
proof (induction bxs arbitrary: con raws N out)
  case Nil
  then show ?case by simp
next
  case (Cons bx bxs)
  obtain b x raw rs where bx: "bx = (b, x)" and rs: "raws = raw # rs" using Cons.prems(2) by (cases bx, cases raws) auto
  let ?s = "get_cmd_state t (con_codec con)"
  obtain res frag1 outs where df: "defragment lib d (plain_of d bx raw) (cs_frag ?s) = (Inr res, frag1)"
    and re: "reassemble lib d (map2 (plain_of d) bxs rs) frag1 = (Inr outs, frag')"
    and out: "out = (case res of None \<Rightarrow> [] | Some p \<Rightarrow> [p]) @ outs"
    using Cons.prems(7) rs by (auto split: prod.splits sum.splits)
  have e0: "encrypted_as lib iv d t cid N (b, x) raw" using Cons.prems(3) rs bx by force
  have es: "\<forall>k<length bxs. encrypted_as lib iv d t cid (Suc N + k) (bxs ! k) (rs ! k)"
    using Cons.prems(3) rs by force
  have ty: "packet_type_from_u8 (b AND 0xf) = Some t" "\<not> has_flag (b AND 0xf0) UNENCRYPTED"
    using Cons.prems(9) bx by auto
  have N: "N < 65536 * (2 ^ 32 - 1)" using Cons.prems(6) by simp
  have ne: "\<forall>q. res = Some q \<longrightarrow> in_packet_new d q \<noteq> None" using Cons.prems(8) out by auto
  obtain con1 where c1: "codec_handle_udp_packet lib now raw con = (con1, None)" "rx_ok lib iv cid client con1"
    "get_cmd_state t (con_codec con1) = ?s\<lparr>cs_next := pid_add (cs_next ?s) 1, cs_frag := frag1\<rparr>"
    "commands_of con1 = commands_of con @ (case res of None \<Rightarrow> [] | Some q \<Rightarrow> [the (in_packet_new d q)])"
    by (rule receive_piece [OF assms(1) Cons.prems(1) assms(2,3) ty e0 refl Cons.prems(4,5) N df [unfolded bx] ne])
  have n1: "pid_num (cs_next (get_cmd_state t (con_codec con1))) = Suc N"
    unfolding c1(3) using Cons.prems(4,6) by (simp add: pid_num_add)
  have "\<exists>con'. receive_all lib now rs con1 = (con', None)
      \<and> commands_of con' = commands_of con1 @ map (\<lambda>q. the (in_packet_new d q)) outs
      \<and> pid_num (incoming_p_ids (con_codec con') t) = Suc N + length bxs"
    by (rule Cons.IH [OF c1(2) _ es n1])
      (use Cons.prems rs c1(3) re out in \<open>simp_all\<close>)
  then show ?case using c1(1,4) rs out by (auto split: option.split)
qed

lemma pieces_not_Nil: "pieces_of lib m b c \<noteq> []"
  by (simp add: pieces_of_def Let_def split_data_not_Nil)

lemma carried_packet:
  assumes "carries d r (b, x)" "packet_type_from_u8 (b AND 0xf) = Some t"
  obtains p where "in_packet_new d (take (header_len d) r @ c) = Some p" "ip_content p = c"
    "hdr_packet_type (ip_header p) = Some t"
proof -
  obtain pre where pre: "pre_ok d pre" "r = pre @ b # x" using assms(1) by (auto simp: carries_def)
  then have "in_packet_new d (take (header_len d) r @ c)
      = Some \<lparr>ip_header = \<lparr>ih_direction = d, ih_data = pre @ [b]\<rparr>, ip_content = c\<rparr>"
    by (cases d) (simp_all add: in_packet_new_def in_header_new_def)
  then show ?thesis using that pre(1) assms(2) by simp
qed

lemma no_flags_byte:
  assumes "b AND 0xf0 = (0 :: u8)"
  shows "base_byte b" "\<not> has_flag (b AND 0xf0) UNENCRYPTED"
proof -
  have "b AND 0x50 = (b AND 0xf0) AND 0x50" by (simp add: and.assoc)
  then show "base_byte b" using assms by (simp add: base_byte_def)
  show "\<not> has_flag (b AND 0xf0) UNENCRYPTED" using assms by (simp add: has_flag_def UNENCRYPTED_def)
qed

text \<open>C2. A command that one side sends is delivered on the other side exactly once, with its content and its
  type, and without an error, whatever its length (up to what the receiver accepts): it is compressed
  and split if it is long, its packets are numbered and encrypted, and the receiver decrypts,
  acknowledges, reassembles and decompresses them.
\<close>

theorem command_survives:
  assumes "proto_lib_ok lib" "params_ok lib iv cid a" "rx_ok lib iv cid (\<not> is_client a) b"
    "out_packet_ok p" "op_dir p = (if is_client a then C2S else S2C)" "out_header p = Some h"
    "hdr_packet_type h = Some t" "is_command t" "hdr_flags h = 0"
    "\<not> fake_encrypted (is_client a) t (outgoing_p_ids (con_codec a) t) (out_content p)"
    "pid_num (outgoing_p_ids (con_codec a) t) = N" "pid_num (incoming_p_ids (con_codec b) t) = N"
    "receive_queue (con_codec b) t = []" "fragmented_queue (con_codec b) t = None"
    "N + length (payload lib (out_content p)) + 1 < 65536 * (2 ^ 32 - 1)"
    "length (out_content p) \<le> MAX_DECOMPRESSED_SIZE"
    "header_len (op_dir p) + length (payload lib (out_content p)) \<le> MAX_FRAGMENTS_LENGTH"
  shows "\<exists>us a' b' r. encode_packet lib p a = (Inr us, a')
    \<and> receive_all lib now (map (op_data \<circ> udp_data) us) b = (b', None)
    \<and> commands_of b' = commands_of b @ [r] \<and> ip_content r = out_content p
    \<and> hdr_packet_type (ip_header r) = Some t \<and> pid_num (incoming_p_ids (con_codec b') t) = N + length us"
proof -
  define d where "d = op_dir p"
  obtain pre c0 c where p: "p = mk d pre c0 c" "pre_ok d pre"
    using out_packet_ok_mk [OF assms(4)] unfolding d_def by metis
  have dir: "d = (if is_client a then C2S else S2C)" "d = (if \<not> is_client a then S2C else C2S)"
    using assms(5) by (simp_all add: d_def)
  have c: "out_content p = c" "packet_type_from_u8 (c0 AND 0xf) = Some t" "c0 AND 0xf0 = 0"
    using assms(6,7,9) p by (auto simp: mk_simps(3,5) [OF p(2)])
  note fl = no_flags_byte [OF c(3)]
  note asm = assms(10,15-17) [unfolded c(1)]
  obtain us a' b1 where us: "encode_packet lib p a = (Inr us, a')" "base_byte b1" "b1 AND 0xf = c0 AND 0xf"
    "has_flag (b1 AND 0xf0) UNENCRYPTED \<longleftrightarrow> has_flag (c0 AND 0xf0) UNENCRYPTED"
    "length us = length (pieces_of lib (max_content (is_client a)) b1 c)"
    "\<forall>k<length us. encrypted_as lib iv d t cid (N + k)
       (pieces_of lib (max_content (is_client a)) b1 c ! k) (op_data (udp_data (us ! k)))"
    unfolding p(1) using encode_command [OF assms(1,2) p(2) dir(1) fl(1) c(2) assms(8) asm(1) assms(11) asm(2)]
    by metis
  define bxs where "bxs = pieces_of lib (max_content (is_client a)) b1 c"
  define raws where "raws = map (op_data \<circ> udp_data) us"
  have raws: "length raws = length bxs" using us(5) by (simp add: raws_def bxs_def)
  have enc: "\<forall>k<length bxs. encrypted_as lib iv d t cid (N + k) (bxs ! k) (raws ! k)"
    using us(5,6) by (simp add: raws_def bxs_def)
  have m: "0 < max_content (is_client a)" by (simp add: max_content_def C2S_HEADER_LEN_def S2C_HEADER_LEN_def)
  have ty: "\<forall>(b, x)\<in>set bxs. packet_type_from_u8 (b AND 0xf) = Some t \<and> \<not> has_flag (b AND 0xf0) UNENCRYPTED"
    using pieces_type [OF us(2)] us(3,4) c(2) fl(2) by (auto simp: bxs_def)
  have car: "list_all2 (carries d) (map2 (plain_of d) bxs raws) bxs"
    using raws enc plain_of_carries by (simp add: list_all2_conv_all_nth) blast
  have re: "reassemble lib d (map2 (plain_of d) bxs raws) None
      = (Inr [take (header_len d) (hd (map2 (plain_of d) bxs raws)) @ c], None)"
    by (rule reassemble_pieces [OF assms(1) us(2) m]) (use car asm d_def in \<open>simp_all add: bxs_def\<close>)
  obtain bx bys where bxs: "bxs = bx # bys" using pieces_not_Nil unfolding bxs_def by (meson list.exhaust)
  then have "carries d (hd (map2 (plain_of d) bxs raws)) (fst bx, snd bx)"
    using car raws by (cases raws) auto
  then obtain r where r: "in_packet_new d (take (header_len d) (hd (map2 (plain_of d) bxs raws)) @ c) = Some r"
    "ip_content r = c" "hdr_packet_type (ip_header r) = Some t"
    using carried_packet [of d _ "fst bx" "snd bx" t c] ty bxs by (auto simp: case_prod_unfold)
  have bound: "N + length bxs < 65536 * (2 ^ 32 - 1)"
    using asm(2) length_pieces [OF m, of lib b1 c] by (simp add: bxs_def)
  define q where "q = take (header_len d) (hd (map2 (plain_of d) bxs raws)) @ c"
  have st: "pid_num (cs_next (get_cmd_state t (con_codec b))) = N" "cs_queue (get_cmd_state t (con_codec b)) = []"
    "cs_frag (get_cmd_state t (con_codec b)) = None"
    using assms(12-14) by simp_all
  have q: "reassemble lib d (map2 (plain_of d) bxs raws) (cs_frag (get_cmd_state t (con_codec b))) = (Inr [q], None)"
    "\<forall>x\<in>set [q]. in_packet_new d x \<noteq> None" "map (\<lambda>x. the (in_packet_new d x)) [q] = [r]"
    using re r(1) unfolding q_def st(3) by simp_all
  obtain b' where "receive_all lib now raws b = (b', None)" "commands_of b' = commands_of b @ [r]"
    "pid_num (incoming_p_ids (con_codec b') t) = N + length bxs"
    using receive_pieces [OF assms(1,8) dir(2) ty assms(3) raws enc st(1,2) bound q(1,2)] unfolding q(3) by blast
  then show ?thesis using us(1,5) r c(1) unfolding raws_def bxs_def by auto
qed

text \<open>A command of 600 bytes, which takes two packets.\<close>

definition sample_side :: "bool \<Rightarrow> proto_con" where
  "sample_side client = (connection_new client 0)\<lparr>con_params := Some (connected_params_new [] [])\<rparr>"

definition sample_command :: out_packet where
  "sample_command = mk C2S (replicate 12 0) 3 (replicate 600 97)"

lemma command_survives_witness:
  "\<exists>us a' b' r. encode_packet test_lib sample_command (sample_side True) = (Inr us, a')
    \<and> receive_all test_lib 0 (map (op_data \<circ> udp_data) us) (sample_side False) = (b', None)
    \<and> commands_of b' = commands_of (sample_side False) @ [r] \<and> ip_content r = replicate 600 97
    \<and> hdr_packet_type (ip_header r) = Some CommandLow
    \<and> pid_num (incoming_p_ids (con_codec b') CommandLow) = 0 + length us"
proof -
  have pre: "pre_ok C2S (replicate 12 0)" by simp
  have content: "out_content sample_command = replicate 600 97" "op_dir sample_command = C2S"
    by (simp_all add: sample_command_def mk_simps [OF pre])
  have p: "params_ok test_lib [] 0 (sample_side c)" for c
    using cache_ok_default by (simp add: params_ok_def sample_side_def connected_params_new_def)
  have client: "is_client (sample_side c) = c" for c by (simp add: sample_side_def connection_new_def)
  have rx: "rx_ok test_lib [] 0 (\<not> is_client (sample_side True)) (sample_side False)"
    using p by (simp add: rx_ok_def client) (simp add: sample_side_def connection_new_def)
  have ids: "pid_num (outgoing_p_ids (con_codec (sample_side True)) CommandLow) = 0"
    "pid_num (incoming_p_ids (con_codec (sample_side False)) CommandLow) = 0"
    "receive_queue (con_codec (sample_side False)) CommandLow = []"
    "fragmented_queue (con_codec (sample_side False)) CommandLow = None"
    by (simp_all add: sample_side_def connection_new_def packet_codec_default_def pid_zero_def pid_num_def)
  have len: "length (payload test_lib (replicate 600 97)) = 600" by (simp add: payload_def test_lib_def)
  have hdr: "out_header sample_command = Some \<lparr>ih_direction = C2S, ih_data = replicate 12 0 @ [3]\<rparr>"
    by (simp add: sample_command_def mk_simps [OF pre])
  show ?thesis
    by (rule command_survives [OF test_lib_ok p rx _ _ hdr _ _ _ _ ids, unfolded content(1)])
      (simp_all add: content client len fake_encrypted_def is_command_def header_mk [OF pre]
        MAX_DECOMPRESSED_SIZE_def MAX_FRAGMENTS_LENGTH_def packet_type_from_u8_def, simp add: sample_command_def mk_simps [OF pre])
qed

end
