(* ===== verification/Retransmit.thy ===== *)
theory Retransmit
  imports Transport
begin

text \<open>
  What the resender (theory Resend) promises: the packets that were sent and not acknowledged are a
  map from queue and identifier to packet. Sending adds an entry, an acknowledgement removes one, and
  the loop that resends packets leaves the map as it is, sends nothing else, and comes to an end.
\<close>

section \<open>The invariant\<close>

text \<open>A record is stored under its own identifier, in the queue of its type.\<close>

definition records_ok :: "queue_index \<Rightarrow> (partial_packet_id \<times> send_record) list \<Rightarrow> bool" where
  "records_ok qi t \<longleftrightarrow> bt_ok t
     \<and> (\<forall>(k, v)\<in>set t. pk_part (sr_id (rec_id v)) = k \<and> packet_type_to_index (pk_type (sr_id (rec_id v))) = Some qi)"

definition queue_ok :: "resender \<Rightarrow> bool" where
  "queue_ok r \<longleftrightarrow> (\<forall>e\<in>set (rs_send_queue r). packet_type_to_index (pk_type (sr_id e)) \<noteq> None)"

definition resender_ok :: "resender \<Rightarrow> bool" where
  "resender_ok r \<longleftrightarrow> (\<forall>qi. records_ok qi (rs_full r qi)) \<and> queue_ok r"

text \<open>The specification: which packets wait for an acknowledgement.\<close>

definition unacked :: "resender \<Rightarrow> queue_index \<Rightarrow> partial_packet_id \<Rightarrow> out_udp_packet option" where
  "unacked r qi k = map_option rec_packet (bt_get (rs_full r qi) k)"

text \<open>An entry of the send queue whose packet is still there.\<close>

definition known :: "resender \<Rightarrow> send_record_id \<Rightarrow> bool" where
  "known r e \<longleftrightarrow> (case packet_type_to_index (pk_type (sr_id e)) of
      None \<Rightarrow> False | Some qi \<Rightarrow> unacked r qi (pk_part (sr_id e)) \<noteq> None)"

definition stale :: "resender \<Rightarrow> nat" where
  "stale r = length (filter (\<lambda>e. \<not> known r e) (rs_send_queue r))"

section \<open>Filling the queue\<close>

lemma pick_queue_SomeD: "pick_queue iters = Some i \<Longrightarrow> iters i \<noteq> []"
  by (auto simp: pick_queue_def split: list.splits if_splits)

lemma fill_loop_spec:
  "fill_loop n iters r = (r', full) \<Longrightarrow> rs_full r' = rs_full r \<and> (\<exists>add. rs_send_queue r' = rs_send_queue r @ add
     \<and> (\<forall>e\<in>set add. \<exists>i. e \<in> rec_id ` set (iters i)))"
proof (induction n iters r rule: fill_loop.induct)
  case (1 iters r)
  then show ?case by simp
next
  case (2 n iters r)
  show ?case
  proof (cases "pick_queue iters")
    case None
    then show ?thesis using 2(2) by simp
  next
    case (Some i)
    obtain v vs where v: "iters i = v # vs" using pick_queue_SomeD [OF Some] by (cases "iters i") auto
    define r1 where "r1 = r\<lparr>rs_indices := (rs_indices r)(i := pid_add (pk_part (sr_id (rec_id v))) 1),
      rs_send_queue := rs_send_queue r @ [rec_id v]\<rparr>"
    have "fill_loop n (iters(i := vs)) r1 = (r', full)"
      using 2(2) Some v by (simp add: Let_def r1_def)
    moreover have "r1 = r\<lparr>rs_indices := (rs_indices r)(i := pid_add (pk_part (sr_id (rec_id (hd (iters i))))) 1),
      rs_send_queue := rs_send_queue r @ [rec_id (hd (iters i))]\<rparr>" "vs = tl (iters i)"
      using v by (simp_all add: r1_def)
    ultimately obtain add where h: "rs_full r' = rs_full r1" "rs_send_queue r' = rs_send_queue r1 @ add"
      "\<forall>e\<in>set add. \<exists>j. e \<in> rec_id ` set ((iters(i := vs)) j)"
      using 2(1) [OF Some refl] by metis
    have "\<exists>j. e \<in> rec_id ` set (iters j)" if e: "e \<in> set (rec_id v # add)" for e
    proof (cases "e = rec_id v")
      case True
      then show ?thesis using v by (intro exI [of _ i]) simp
    next
      case False
      then have "e \<in> set add" using e by simp
      then obtain j where "e \<in> rec_id ` set ((iters(i := vs)) j)" using h(3) by blast
      then show ?thesis using v by (intro exI [of _ j]) (auto split: if_splits)
    qed
    moreover have "rs_full r' = rs_full r" "rs_send_queue r' = rs_send_queue r @ (rec_id v # add)"
      using h(1,2) by (simp_all add: r1_def)
    ultimately show ?thesis by blast
  qed
qed

text \<open>Only packets that wait for an acknowledgement are added to the send queue.\<close>

lemma fill_up_spec:
  obtains add where "rs_full (fill_up_send_queue lib now r) = rs_full r"
    "rs_send_queue (fill_up_send_queue lib now r) = rs_send_queue r @ add"
    "\<forall>e\<in>set add. \<exists>i. e \<in> rec_id ` snd ` set (rs_full r i)"
proof -
  obtain r' full where f: "fill_loop (unat (get_window lib now r) - length (rs_send_queue r)) (unsent r) r = (r', full)"
    by fastforce
  from fill_loop_spec [OF f] obtain add where h: "rs_full r' = rs_full r" "rs_send_queue r' = rs_send_queue r @ add"
    "\<forall>e\<in>set add. \<exists>i. e \<in> rec_id ` set (unsent r i)" by blast
  have "set (unsent r i) \<subseteq> snd ` set (rs_full r i)" for i
    unfolding unsent_def by (rule subsetI) (drule set_dropWhileD, simp only: set_map)
  then have "rec_id ` set (unsent r i) \<subseteq> rec_id ` snd ` set (rs_full r i)" for i by (rule image_mono)
  with h(3) have "\<forall>e\<in>set add. \<exists>i. e \<in> rec_id ` snd ` set (rs_full r i)" by (meson subsetD)
  moreover have "rs_full (fill_up_send_queue lib now r) = rs_full r'"
    "rs_send_queue (fill_up_send_queue lib now r) = rs_send_queue r'"
    by (cases "rs_no_congestion_since r'"; simp add: fill_up_send_queue_def f)+
  ultimately show ?thesis using that h(1,2) by simp
qed

lemma records_ok_known:
  assumes "\<forall>qi. records_ok qi (rs_full r qi)" "e \<in> rec_id ` snd ` set (rs_full r i)"
  shows "known r e" "packet_type_to_index (pk_type (sr_id e)) \<noteq> None"
proof -
  obtain k v where v: "(k, v) \<in> set (rs_full r i)" "e = rec_id v" using assms(2) by auto
  have ok: "bt_ok (rs_full r i)" "pk_part (sr_id e) = k" "packet_type_to_index (pk_type (sr_id e)) = Some i"
    using assms(1) v by (auto simp: records_ok_def dest: spec [of _ i])
  then show "known r e" "packet_type_to_index (pk_type (sr_id e)) \<noteq> None"
    using v(1) bt_get_iff [OF ok(1), of k v] by (simp_all add: known_def unacked_def)
qed

text \<open>What an operation on the queues may change, except for the entries \<open>es\<close> it leaves in the send queue.\<close>

definition refilled :: "send_record_id list \<Rightarrow> resender \<Rightarrow> resender \<Rightarrow> bool" where
  "refilled es r r' \<longleftrightarrow> (\<forall>qi. records_ok qi (rs_full r' qi)) \<and> unacked r' = unacked r
     \<and> (\<exists>add. rs_send_queue r' = es @ add \<and> (\<forall>e\<in>set add. known r' e))"

lemma known_cong: "unacked r = unacked r' \<Longrightarrow> known r = known r'"
  by (rule ext) (simp add: known_def split: option.split)

lemma refilled_fill:
  assumes "\<forall>qi. records_ok qi (rs_full r qi)"
  shows "refilled (rs_send_queue r) r (fill_up_send_queue lib now r)"
proof -
  obtain add where h: "rs_full (fill_up_send_queue lib now r) = rs_full r"
    "rs_send_queue (fill_up_send_queue lib now r) = rs_send_queue r @ add"
    "\<forall>e\<in>set add. \<exists>i. e \<in> rec_id ` snd ` set (rs_full r i)"
    by (rule fill_up_spec)
  have un: "unacked (fill_up_send_queue lib now r) = unacked r" by (intro ext) (simp add: unacked_def h(1))
  have "\<forall>e\<in>set add. known r e" using h(3) records_ok_known(1) [OF assms] by blast
  then show ?thesis using assms h(1,2) un known_cong [OF un] by (auto simp: refilled_def)
qed

lemma refilled_ok:
  assumes "refilled es r r'" "\<forall>e\<in>set es. packet_type_to_index (pk_type (sr_id e)) \<noteq> None"
  shows "resender_ok r'" "stale r' = length (filter (\<lambda>e. \<not> known r e) es)"
proof -
  obtain add where a: "rs_send_queue r' = es @ add" "\<forall>e\<in>set add. known r' e"
    and un: "unacked r' = unacked r" and ok: "\<forall>qi. records_ok qi (rs_full r' qi)"
    using assms(1) by (auto simp: refilled_def)
  have "\<forall>e\<in>set add. packet_type_to_index (pk_type (sr_id e)) \<noteq> None"
    using a(2) by (auto simp: known_def split: option.splits)
  then show "resender_ok r'" using ok a(1) assms(2) by (auto simp: resender_ok_def queue_ok_def)
  show "stale r' = length (filter (\<lambda>e. \<not> known r e) es)"
    using a known_cong [OF un] by (simp add: stale_def filter_empty_conv)
qed

section \<open>One round of the loop\<close>

lemma heap_peek_None [simp]: "heap_peek xs = None \<longleftrightarrow> xs = []"
  by (cases xs) (auto split: option.split)

lemma heap_peek_set: "heap_peek xs = Some (e, others) \<Longrightarrow> set xs = set (e # others)"
  by (induction xs arbitrary: e others) (auto split: option.splits if_splits)

lemma heap_peek_count:
  "heap_peek xs = Some (e, others) \<Longrightarrow> length (filter P xs) = length (filter P (e # others))"
  by (induction xs arbitrary: e others) (auto split: option.splits if_splits)

lemma loss_frame [simp]:
  "rs_full (handle_loss_resend_command r) = rs_full r"
  "rs_send_queue (handle_loss_resend_command r) = rs_send_queue r"
  "rs_full (handle_loss_outgoing t u r) = rs_full r"
  "rs_send_queue (handle_loss_outgoing t u r) = rs_send_queue r"
  by (simp_all add: handle_loss_resend_command_def handle_loss_outgoing_def Let_def)

lemma unacked_cong: "rs_full r = rs_full r' \<Longrightarrow> unacked r = unacked r'"
  by (intro ext) (simp add: unacked_def)

lemma refilled_lost:
  assumes "\<forall>qi. records_ok qi (rs_full r qi)"
  shows "refilled [] r (packet_lost lib now timeout r)"
proof -
  define r1 where "r1 = r\<lparr>rs_config := (rs_config r)\<lparr>srtt := min (srtt (rs_config r) * 2) timeout\<rparr>\<rparr>"
  define r2 where "r2 = (r1\<lparr>rs_w_max := get_window lib now r1, rs_last_loss := now, rs_no_congestion_since := None,
    rs_send_queue := [], rs_indices := (\<lambda>_. pid_zero)\<rparr>)"
  have "packet_lost lib now timeout r = fill_up_send_queue lib now r2"
    unfolding packet_lost_def rebuild_send_queue_def Let_def r2_def r1_def by (rule arg_cong) simp
  moreover have "rs_full r2 = rs_full r" "rs_send_queue r2 = []" by (simp_all add: r2_def r1_def)
  ultimately show ?thesis
    using refilled_fill [of r2 lib now] assms unacked_cong [of r2 r] by (simp add: refilled_def)
qed

text \<open>The entry of a packet that was sent is replaced.\<close>

definition touch :: "partial_packet_id \<Rightarrow> send_record_id \<Rightarrow> partial_packet_id \<times> send_record
    \<Rightarrow> partial_packet_id \<times> send_record" where
  "touch part e kv = (case kv of (k, v) \<Rightarrow> (k, if k = part then v\<lparr>rec_id := e\<rparr> else v))"

lemma touch_simps [simp]:
  "fst (touch part e kv) = fst kv" "rec_packet (snd (touch part e kv)) = rec_packet (snd kv)"
  "map fst (map (touch part e) t) = map fst t"
  "map_option rec_packet (bt_get (map (touch part e) t) k) = map_option rec_packet (bt_get t k)"
  by (auto simp: touch_def case_prod_unfold) (induction t, auto simp: touch_def)

lemma records_ok_touch:
  assumes "records_ok qi t" "pk_part (sr_id e) = part" "packet_type_to_index (pk_type (sr_id e)) = Some qi"
  shows "records_ok qi (map (touch part e) t)"
  using assms by (auto simp: records_ok_def bt_ok_def touch_def case_prod_unfold comp_def)

lemma record_sent_spec:
  assumes ok: "resender_ok r" and q: "heap_peek (rs_send_queue r) = Some (e, others)"
    and qi: "packet_type_to_index (pk_type (sr_id e)) = Some qi"
    and rec: "bt_get (rs_full r qi) (pk_part (sr_id e)) = Some v"
  shows "resender_ok (record_sent lib now timeout qi e others v r)
    \<and> unacked (record_sent lib now timeout qi e others v r) = unacked r
    \<and> stale (record_sent lib now timeout qi e others v r) \<le> stale r"
proof -
  define e' where "e' = e\<lparr>sr_last := now, sr_tries := sr_tries e + 1\<rparr>"
  define r0 where "r0 = (if sr_tries e \<noteq> 0 then handle_loss_resend_command r else r)"
  define r1 where "r1 = r0\<lparr>rs_send_queue := e' # others,
    rs_full := (rs_full r0)(qi := map (touch (pk_part (sr_id e)) e') (rs_full r0 qi))\<rparr>"
  define r2 where "r2 = (case udp_packet_type (rec_packet v) of
      None \<Rightarrow> r1 | Some t \<Rightarrow> handle_loss_outgoing t (rec_packet v) r1)"
  have e': "sr_id e' = sr_id e" by (simp add: e'_def)
  have run: "record_sent lib now timeout qi e others v r
      = (if sr_tries e' \<noteq> 1 then packet_lost lib now timeout r2 else r2)"
    unfolding record_sent_def Let_def r2_def r1_def r0_def e'_def [symmetric] touch_def by simp
  have r2: "rs_full r2 = (rs_full r)(qi := map (touch (pk_part (sr_id e)) e') (rs_full r qi))"
    "rs_send_queue r2 = e' # others"
    by (simp_all add: r2_def r1_def r0_def split: option.split)
  have recs: "\<forall>j. records_ok j (rs_full r2 j)"
    using ok records_ok_touch [of qi "rs_full r qi" e'] qi e' unfolding r2 by (simp add: resender_ok_def)
  have un: "unacked r2 = unacked r" by (intro ext) (simp add: unacked_def r2(1))
  have known: "known r e" "known r e'" using qi rec e' by (simp_all add: known_def unacked_def)
  have qok: "\<forall>x\<in>set (e' # others). packet_type_to_index (pk_type (sr_id x)) \<noteq> None"
    using ok heap_peek_set [OF q] e' by (auto simp: resender_ok_def queue_ok_def)
  have st: "stale r = length (filter (\<lambda>x. \<not> known r x) (e' # others))"
    unfolding stale_def heap_peek_count [OF q] using known by simp
  show ?thesis
  proof (cases "sr_tries e' \<noteq> 1")
    case True
    note l = refilled_lost [OF recs, of lib now timeout]
    have "unacked (packet_lost lib now timeout r2) = unacked r" using l un by (simp add: refilled_def)
    then show ?thesis using refilled_ok [OF l] True run by simp
  next
    case False
    have "refilled (e' # others) r r2" using recs un r2(2) by (simp add: refilled_def)
    from refilled_ok [OF this qok] show ?thesis using False run un st by simp
  qed
qed

text \<open>A round either drops an entry of an acknowledged packet or sends a packet that waits.\<close>

lemma resend_step_again:
  assumes "resender_ok (con_resender con)" "resend_step lib now con = Again con'"
  shows "resender_ok (con_resender con') \<and> unacked (con_resender con') = unacked (con_resender con)
    \<and> length (sock_answers con') + stale (con_resender con') < length (sock_answers con) + stale (con_resender con)
    \<and> (\<exists>us. wire con' = wire con @ us \<and> (\<forall>u\<in>set us. \<exists>qi k. unacked (con_resender con) qi k = Some u))"
proof -
  let ?r = "con_resender con"
  obtain e others where q: "heap_peek (rs_send_queue ?r) = Some (e, others)"
    using assms(2) by (auto simp: resend_step_def Let_def split: option.splits)
  obtain qi where qi: "packet_type_to_index (pk_type (sr_id e)) = Some qi"
    using assms(2) q by (auto simp: resend_step_def Let_def split: option.splits)
  have recs: "\<forall>j. records_ok j (rs_full ?r j)" using assms(1) by (simp add: resender_ok_def)
  show ?thesis
  proof (cases "bt_get (rs_full ?r qi) (pk_part (sr_id e))")
    case None
    define r1 where "r1 = ?r\<lparr>rs_send_queue := others\<rparr>"
    have con': "con' = con\<lparr>con_resender := fill_up_send_queue lib now r1\<rparr>"
      using assms(2) q qi None by (simp add: resend_step_def Let_def r1_def)
    have r1: "rs_full r1 = rs_full ?r" "rs_send_queue r1 = others" by (simp_all add: r1_def)
    have un: "unacked r1 = unacked ?r" by (rule unacked_cong [OF r1(1)])
    note f = refilled_fill [of r1 lib now, unfolded r1, OF recs]
    have qok: "\<forall>x\<in>set others. packet_type_to_index (pk_type (sr_id x)) \<noteq> None"
      using assms(1) heap_peek_set [OF q] by (auto simp: resender_ok_def queue_ok_def)
    have "\<not> known ?r e" using qi None by (simp add: known_def unacked_def)
    then have "stale ?r = Suc (length (filter (\<lambda>x. \<not> known ?r x) others))"
      unfolding stale_def heap_peek_count [OF q] by simp
    then have "stale (fill_up_send_queue lib now r1) < stale ?r"
      using refilled_ok(2) [OF f qok] known_cong [OF un] by simp
    then show ?thesis using refilled_ok(1) [OF f qok] f un con' by (simp add: refilled_def)
  next
    case (Some v)
    obtain con1 where s: "sock_send (rec_packet v) con = (SendOk, con1)"
      and con': "con' = upd_resender (record_sent lib now (get_timeout ?r) qi e others v) con1"
      using assms(2) q qi Some
      by (auto simp: resend_step_def Let_def split: if_splits prod.splits send_answer.splits)
    have con1: "con_resender con1 = ?r" "length (sock_answers con) = Suc (length (sock_answers con1))"
      "wire con1 = wire con @ [rec_packet v]"
      using s by (auto simp: sock_send_def split: list.splits send_answer.splits)
    have "unacked ?r qi (pk_part (sr_id e)) = Some (rec_packet v)" using Some by (simp add: unacked_def)
    then show ?thesis
      using record_sent_spec [OF assms(1) q qi Some, of lib now "get_timeout ?r"] con' con1 by auto
  qed
qed

section \<open>The loop\<close>

text \<open>Everything a call of the loop does, for any fuel above the bound.\<close>

lemma poll_resend_spec:
  "resender_ok (con_resender con) \<Longrightarrow> length (sock_answers con) + stale (con_resender con) < n
   \<Longrightarrow> \<exists>con' e. poll_resend n lib now con = Some (con', e) \<and> resender_ok (con_resender con')
     \<and> unacked (con_resender con') = unacked (con_resender con)
     \<and> (\<exists>us. wire con' = wire con @ us \<and> (\<forall>u\<in>set us. \<exists>qi k. unacked (con_resender con) qi k = Some u))"
proof (induction n arbitrary: con)
  case 0
  then show ?case by simp
next
  case (Suc n)
  show ?case
  proof (cases "resend_step lib now con")
    case (Again con1)
    note st = resend_step_again [OF Suc.prems(1) Again]
    obtain us where us: "wire con1 = wire con @ us"
      "\<forall>u\<in>set us. \<exists>qi k. unacked (con_resender con) qi k = Some u" using st by blast
    have "length (sock_answers con1) + stale (con_resender con1) < n" using st Suc.prems(2) by linarith
    from Suc.IH [OF _ this] obtain con' e vs where h: "poll_resend n lib now con1 = Some (con', e)"
      "resender_ok (con_resender con')" "unacked (con_resender con') = unacked (con_resender con1)"
      "wire con' = wire con1 @ vs" "\<forall>u\<in>set vs. \<exists>qi k. unacked (con_resender con1) qi k = Some u"
      using st by blast
    have "wire con' = wire con @ (us @ vs)"
      "\<forall>u\<in>set (us @ vs). \<exists>qi k. unacked (con_resender con) qi k = Some u"
      using us h(4,5) st by auto
    moreover have "unacked (con_resender con') = unacked (con_resender con)" using h(3) st by simp
    ultimately show ?thesis using Again h(1,2) by auto
  next
    case (Stopped con1)
    then have "con_resender con1 = con_resender con" "wire con1 = wire con"
      by (auto simp: resend_step_def Let_def sock_send_def split: option.splits list.splits send_answer.splits if_splits)
    then show ?thesis using Stopped Suc.prems(1) by simp
  next
    case (Failed con1 e)
    then have "con_resender con1 = con_resender con" "wire con1 = wire con"
      by (auto simp: resend_step_def Let_def sock_send_def split: option.splits list.splits send_answer.splits if_splits)
    then show ?thesis using Failed Suc.prems(1) by simp
  qed
qed

section \<open>The specification\<close>

datatype resend_op = OpSend instant out_udp_packet | OpAck instant packet_type u16 | OpPoll instant

text \<open>The fuel is enough: every round uses an answer of the socket or an entry of the send queue.\<close>

definition resend_fuel :: "proto_con \<Rightarrow> nat" where
  "resend_fuel con = Suc (length (sock_answers con) + length (rs_send_queue (con_resender con)))"

definition run_op :: "proto_lib \<Rightarrow> resend_op \<Rightarrow> proto_con \<Rightarrow> proto_con option" where
  "run_op lib op con = (case op of
      OpSend now u \<Rightarrow> resender_send_packet lib now u con
    | OpAck now t i \<Rightarrow> resender_ack_packet now t i con
    | OpPoll now \<Rightarrow> map_option fst (poll_resend (resend_fuel con) lib now con))"

type_synonym waiting = "queue_index \<Rightarrow> partial_packet_id \<Rightarrow> out_udp_packet option"

text \<open>
  An acknowledgement carries 16 bits. It stands for the first identifier with these bits from the
  first waiting packet on.
\<close>

definition stands_for :: "u16 \<Rightarrow> partial_packet_id \<Rightarrow> partial_packet_id \<Rightarrow> bool" where
  "stands_for i k0 k \<longleftrightarrow> pid_packet k = i \<and> (k0 \<le> k \<or> pid_generation k0 = - 1)
     \<and> (\<forall>j. k0 \<le> j \<and> j < k \<longrightarrow> pid_packet j \<noteq> i)"

definition spec_op :: "resend_op \<Rightarrow> waiting \<Rightarrow> waiting \<Rightarrow> bool" where
  "spec_op op w w' \<longleftrightarrow> (case op of
      OpSend now u \<Rightarrow> (\<exists>pid qi. packet_id_of u = Some pid \<and> packet_type_to_index (pk_type pid) = Some qi
        \<and> w' = w(qi := (w qi)(pk_part pid \<mapsto> u)))
    | OpAck now t i \<Rightarrow> (if t = Ping then w' = w
        else (\<exists>qi. packet_type_to_index t = Some qi \<and>
          (if w qi = Map.empty then w' = w
           else (\<exists>k0 k. k0 \<in> dom (w qi) \<and> (\<forall>j\<in>dom (w qi). k0 \<le> j) \<and> stands_for i k0 k
             \<and> w' = w(qi := (w qi)(k := None))))))
    | OpPoll now \<Rightarrow> w' = w)"

lemma unat_next: "(x :: u32) \<noteq> - 1 \<Longrightarrow> unat (x + 1) = Suc (unat x)"
  using unatSuc [of x] by (metis add.commute add_eq_0_iff2)

lemma stands_for_acked: "stands_for i k0 (acked_id i k0)"
proof (cases "pid_packet k0 = i")
  case True
  then show ?thesis by (auto simp: stands_for_def acked_id_def)
next
  case False
  define g where "g = pid_generation k0"
  have up: "g < g + 1" if "g \<noteq> - 1" using unat_next [OF that] by (simp add: word_less_nat_alt)
  have gap: "\<not> (g < h \<and> h < g + 1)" for h
  proof (cases "g = - 1")
    case False
    show ?thesis using unat_next [OF False] by (simp add: word_less_nat_alt)
  qed simp
  show ?thesis
  proof (cases "i < pid_packet k0")
    case True
    then show ?thesis using False up gap
      by (auto simp: stands_for_def acked_id_def pid_order
        g_def [symmetric])
  next
    case less: False
    then show ?thesis using False
      by (auto simp: stands_for_def acked_id_def pid_order)
  qed
qed

lemma set_bt_insert_subset: "set (bt_insert k v t) \<subseteq> insert (k, v) (set t)"
  by (induction k v t rule: bt_insert.induct) auto

lemma send_refines:
  assumes "resender_ok (con_resender con)" "resender_send_packet lib now u con = Some con'"
  shows "resender_ok (con_resender con')"
    "spec_op (OpSend now u) (unacked (con_resender con)) (unacked (con_resender con'))"
proof -
  let ?r = "con_resender con"
  obtain pid qi where p: "packet_id_of u = Some pid" "packet_type_to_index (pk_type pid) = Some qi"
    using assms(2) by (auto simp: resender_send_packet_def bind_eq_Some_conv)
  define v where "v = \<lparr>rec_sent = now, rec_id = \<lparr>sr_last = now, sr_tries = 0, sr_id = pid\<rparr>, rec_packet = u\<rparr>"
  define r1 where "r1 = add_record qi v (?r\<lparr>rs_last_send := now\<rparr>)"
  have con': "con_resender con' = fill_up_send_queue lib now r1"
    using assms(2) p by (auto simp: resender_send_packet_def r1_def v_def Let_def)
  have r1: "rs_full r1 = (rs_full ?r)(qi := bt_insert (pk_part pid) v (rs_full ?r qi))"
    "rs_send_queue r1 = rs_send_queue ?r"
    by (simp_all add: r1_def add_record_def Let_def v_def)
  have ok: "records_ok j (rs_full ?r j)" for j using assms(1) by (simp add: resender_ok_def)
  have bt: "bt_ok (rs_full ?r qi)" using ok by (simp add: records_ok_def)
  have "records_ok qi (rs_full r1 qi)"
    using bt_ok_insert [OF bt] set_bt_insert_subset [of "pk_part pid" v "rs_full ?r qi"] ok [of qi] p(2)
    unfolding r1 records_ok_def by (fastforce simp: v_def)
  then have recs: "\<forall>j. records_ok j (rs_full r1 j)" using ok unfolding r1 by simp
  note f = refilled_fill [OF recs, of lib now, unfolded r1(2)]
  have "queue_ok ?r" using assms(1) by (simp add: resender_ok_def)
  then show "resender_ok (con_resender con')" using refilled_ok(1) [OF f] con' by (simp add: queue_ok_def)
  have "unacked r1 = (unacked ?r)(qi := (unacked ?r qi)(pk_part pid \<mapsto> u))"
    by (intro ext) (simp add: unacked_def r1 bt_get_insert [OF bt], simp add: v_def)
  then show "spec_op (OpSend now u) (unacked ?r) (unacked (con_resender con'))"
    using f p con' by (simp add: spec_op_def refilled_def)
qed

lemma update_srtt_frame [simp]:
  "rs_full (update_srtt d r) = rs_full r" "rs_send_queue (update_srtt d r) = rs_send_queue r"
  by (simp_all add: update_srtt_def Let_def)

lemma ack_ping_frame [simp]:
  "rs_full (ack_ping now i r) = rs_full r" "rs_send_queue (ack_ping now i r) = rs_send_queue r"
  by (simp_all add: ack_ping_def split: option.split)

lemma remove_acked_frame:
  "rs_full (remove_acked now qi k r) = (rs_full r)(qi := bt_remove k (rs_full r qi))"
  "rs_send_queue (remove_acked now qi k r) = rs_send_queue r"
proof -
  have same: "bt_remove k t = t" if "bt_get t k = None" for t :: "'a btree"
    using that by (simp add: bt_remove_def map_of_eq_None_iff filter_id_conv image_iff) fastforce
  then show "rs_full (remove_acked now qi k r) = (rs_full r)(qi := bt_remove k (rs_full r qi))"
    "rs_send_queue (remove_acked now qi k r) = rs_send_queue r"
    by (auto simp: remove_acked_def Let_def fun_eq_iff same split: option.split)
qed

lemma records_ok_remove: "records_ok qi t \<Longrightarrow> records_ok qi (bt_remove k t)"
  using bt_ok_remove [of t k] by (auto simp: records_ok_def bt_remove_def)

lemma dom_unacked: "dom (unacked r qi) = fst ` set (rs_full r qi)"
  by (simp add: unacked_def dom_def map_of_eq_None_iff)

lemma ack_refines:
  assumes "resender_ok (con_resender con)" "resender_ack_packet now t i con = Some con'"
  shows "resender_ok (con_resender con')"
    "spec_op (OpAck now t i) (unacked (con_resender con)) (unacked (con_resender con'))"
proof -
  let ?r = "con_resender con" and ?r' = "con_resender con'"
  have ok: "records_ok j (rs_full ?r j)" "queue_ok ?r" for j using assms(1) by (simp_all add: resender_ok_def)
  have "resender_ok ?r' \<and> spec_op (OpAck now t i) (unacked ?r) (unacked ?r')"
  proof (cases "t = Ping")
    case True
    then have r': "?r' = ack_ping now i ?r" using assms(2) by (auto simp: resender_ack_packet_def)
    then show ?thesis using True assms(1) unacked_cong [of ?r' ?r]
      by (simp add: spec_op_def resender_ok_def queue_ok_def)
  next
    case False
    obtain qi where qi: "packet_type_to_index t = Some qi"
      using assms(2) False by (auto simp: resender_ack_packet_def split: option.splits)
    show ?thesis
    proof (cases "rs_full ?r qi")
      case Nil
      then have "con' = con" "unacked ?r qi = Map.empty"
        using assms(2) False qi by (auto simp: resender_ack_packet_def unacked_def)
      then show ?thesis using assms(1) False qi by (simp add: spec_op_def)
    next
      case (Cons x rest)
      obtain k0 v where x: "x = (k0, v)" by (cases x)
      define k where "k = acked_id i k0"
      have "con_resender con' = remove_acked now qi k ?r"
        using assms(2) False qi Cons x by (auto simp: resender_ack_packet_def Let_def push_item_def k_def)
      then have r': "rs_full ?r' = (rs_full ?r)(qi := bt_remove k (rs_full ?r qi))"
        "rs_send_queue ?r' = rs_send_queue ?r" by (simp_all add: remove_acked_frame)
      have "resender_ok ?r'"
        using ok records_ok_remove unfolding resender_ok_def queue_ok_def r' by simp
      moreover have un: "unacked ?r' = (unacked ?r)(qi := (unacked ?r qi)(k := None))"
        by (intro ext) (simp add: unacked_def r'(1))
      moreover have "k0 \<in> dom (unacked ?r qi)" "\<forall>j\<in>dom (unacked ?r qi). k0 \<le> j"
        using ok(1) [of qi] unfolding dom_unacked Cons x by (auto simp: records_ok_def bt_ok_def)
      moreover have "stands_for i k0 k" unfolding k_def by (rule stands_for_acked)
      ultimately show ?thesis using False qi by (auto simp: spec_op_def)
    qed
  qed
  then show "resender_ok ?r'" "spec_op (OpAck now t i) (unacked ?r) (unacked ?r')" by simp_all
qed

lemma stale_le: "stale r \<le> length (rs_send_queue r)"
  by (simp add: stale_def)

lemma run_op_spec:
  assumes "resender_ok (con_resender con)" "run_op lib op con = Some con'"
  shows "resender_ok (con_resender con') \<and> spec_op op (unacked (con_resender con)) (unacked (con_resender con'))"
proof (cases op)
  case (OpSend now u)
  then show ?thesis using send_refines [OF assms(1)] assms(2) by (simp add: run_op_def)
next
  case (OpAck now t i)
  then show ?thesis using ack_refines [OF assms(1)] assms(2) by (simp add: run_op_def)
next
  case (OpPoll now)
  have "length (sock_answers con) + stale (con_resender con) < resend_fuel con"
    using stale_le [of "con_resender con"] by (simp add: resend_fuel_def)
  from poll_resend_spec [OF assms(1) this, of lib now] show ?thesis
    using assms(2) OpPoll by (auto simp: run_op_def spec_op_def)
qed

text \<open>C5. The resender implements the specification: a packet that is sent waits from then on, an
  acknowledgement takes exactly the packet it stands for out of the map, and resending changes nothing.
\<close>

theorem resender_refines:
  assumes "resender_ok (con_resender con)" "run_op lib op con = Some con'"
  shows "resender_ok (con_resender con') \<and> spec_op op (unacked (con_resender con)) (unacked (con_resender con'))"
  by (rule run_op_spec [OF assms])

lemma resender_refines_witness:
  "resender_ok (con_resender (connection_new True 0)) \<and>
   spec_op (OpAck 5 Command 7) (unacked (con_resender (connection_new True 0))) (unacked (con_resender (connection_new True 0)))"
proof -
  have new: "resender_ok (con_resender (connection_new True 0))"
    by (simp add: connection_new_def resender_default_def resender_ok_def records_ok_def queue_ok_def bt_ok_def)
  have "run_op test_lib (OpAck 5 Command 7) (connection_new True 0) = Some (connection_new True 0)"
    by (simp add: run_op_def resender_ack_packet_def connection_new_def resender_default_def)
  from resender_refines [OF new this] show ?thesis .
qed

section \<open>All runs\<close>

text \<open>
  Every state of a connection, however its other parts change between the operations of the resender:
  the socket, the statistics, the round trip times, the codec.
\<close>

inductive resender_reach :: "proto_lib \<Rightarrow> proto_con \<Rightarrow> bool" for lib where
  reach_new: "resender_reach lib (connection_new client now)"
| reach_op: "resender_reach lib con \<Longrightarrow> run_op lib op con = Some con' \<Longrightarrow> resender_reach lib con'"
| reach_other: "resender_reach lib con \<Longrightarrow> rs_full (con_resender con') = rs_full (con_resender con)
    \<Longrightarrow> rs_send_queue (con_resender con') = rs_send_queue (con_resender con) \<Longrightarrow> resender_reach lib con'"

lemma resender_reach_ok: "resender_reach lib con \<Longrightarrow> resender_ok (con_resender con)"
proof (induction rule: resender_reach.induct)
  case (reach_new client now)
  then show ?case
    by (simp add: connection_new_def resender_default_def resender_ok_def records_ok_def queue_ok_def bt_ok_def)
next
  case (reach_op con op con')
  then show ?case using run_op_spec by blast
next
  case (reach_other con con')
  then show ?case by (simp add: resender_ok_def queue_ok_def)
qed


text \<open>A connection that sent one command, with a socket that takes two datagrams.\<close>

definition sample_udp :: out_udp_packet where
  "sample_udp = \<lparr>generation_id = 0, udp_data = mk C2S (replicate 12 0) 2 [97]\<rparr>"

definition sample_sent :: proto_con where
  "sample_sent = the (resender_send_packet test_lib 0 sample_udp (connection_new True 0))\<lparr>sock_answers := [SendOk, SendOk]\<rparr>"


section \<open>What is left when the loop stops\<close>

lemma sr_less_trans: "\<not> sr_less x y \<Longrightarrow> \<not> sr_less y z \<Longrightarrow> \<not> sr_less x z"
  by (auto simp: sr_less_def split: if_splits)

lemma heap_peek_greatest: "heap_peek xs = Some (e, others) \<Longrightarrow> x \<in> set xs \<Longrightarrow> \<not> sr_less e x"
proof (induction xs arbitrary: e others x)
  case (Cons y ys)
  have irr: "\<not> sr_less z z" for z by (auto simp: sr_less_def)
  have asym: "sr_less a b \<Longrightarrow> \<not> sr_less b a" for a b by (auto simp: sr_less_def split: if_splits)
  show ?case
  proof (cases "heap_peek ys")
    case None
    then show ?thesis using Cons.prems irr by auto
  next
    case (Some r)
    obtain z zs where z: "r = (z, zs)" by (cases r)
    have top: "\<not> sr_less z w" if "w \<in> set ys" for w using Cons.IH that Some z by blast
    show ?thesis
      using Cons.prems Some z top asym irr sr_less_trans [of y z x]
      by (auto split: if_splits)
  qed
qed simp

text \<open>Sent, and not longer ago than the retransmission timeout.\<close>

definition recently_sent :: "instant \<Rightarrow> resender \<Rightarrow> send_record_id \<Rightarrow> bool" where
  "recently_sent now r e \<longleftrightarrow> sr_tries e \<noteq> 0 \<and> now - rto r < sr_last e"

lemma resend_step_stopped:
  assumes "resend_step lib now con = Stopped con'" "sock_answers con' \<noteq> []" "SendPending \<notin> set (sock_answers con)"
    "e \<in> set (rs_send_queue (con_resender con'))"
  shows "recently_sent now (con_resender con') e"
proof -
  let ?r = "con_resender con"
  obtain top others where q: "heap_peek (rs_send_queue ?r) = Some (top, others)"
    and stop: "con' = con" "recently_sent now ?r top"
    using assms
    by (auto simp: resend_step_def Let_def recently_sent_def sock_send_def
      split: option.splits if_splits list.splits send_answer.splits)
  then show ?thesis
    using heap_peek_greatest [OF q, of e] assms(4) by (auto simp: recently_sent_def sr_less_def split: if_splits)
qed

lemma resend_step_answers:
  "resend_step lib now con = Again con' \<Longrightarrow> set (sock_answers con') \<subseteq> set (sock_answers con)"
  by (auto simp: resend_step_def Let_def sock_send_def
    split: option.splits if_splits list.splits send_answer.splits)


text \<open>A packet that was sent a moment ago is not sent again.\<close>

definition sample_entry :: send_record_id where
  "sample_entry = \<lparr>sr_last = 9999999999, sr_tries = 1, sr_id = \<lparr>pk_type = Command, pk_part = PartialPacketId 0 1\<rparr>\<rparr>"

definition sample_waiting :: proto_con where
  "sample_waiting = (connection_new True 0)\<lparr>sock_answers := [SendOk], con_resender := (resender_default 0)\<lparr>
     rs_send_queue := [sample_entry], rs_full := (\<lambda>_. [])(QCommand :=
       [(PartialPacketId 0 1, \<lparr>rec_sent = 9000000000, rec_id = sample_entry, rec_packet = sample_udp\<rparr>)])\<rparr>\<rparr>"


end
