(* ===== verification/ClientFacts.thy ===== *)
theory ClientFacts
  imports SessionKeys KeyFacts
begin

unbundle bit_operations_syntax

text \<open>
  The client as a state machine: polling changes the own identifier and the state of the connection
  exactly as the commands that pass through say. And the answer to the puzzle of the server.
\<close>

section \<open>The session as a state machine\<close>

type_synonym session_view = "(u16 \<times> bool \<times> u8 list \<times> u8 list) option \<times> resender_state \<times> bool"

text \<open>What a command does to the session of a client.\<close>

definition session_step :: "u8 list \<Rightarrow> session_view \<Rightarrow> session_view" where
  "session_step content sess =
     (let (name, rest) = command_parser_new content; items = parse_items rest in
      case sess of
        (None, _, _) \<Rightarrow> sess
      | (Some (c, keys), state, client) \<Rightarrow>
          if name = ascii ''initserver''
          then (case find_aclid items of Inr (Some c') \<Rightarrow> (Some (c', keys), Connected, client) | _ \<Rightarrow> sess)
          else if name = ascii ''notifyclientleftview'' \<and> own_client_left c items False = Inr True
          then (Some (c, keys), Disconnected, client)
          else sess)"

lemma version_answer_content:
  assumes "version_answer version sender = Some p"
  shows "\<not> starts_with ''clientdisconnect'' (out_content p)"
proof -
  define ops where "ops = [WriteArg (ascii ''name'') (ascii ''getversion''), WriteArg (ascii ''data'') version,
      WriteArg (ascii ''targetmode'') (decimal 2), WriteArg (ascii ''target'') (decimal (unat sender))]"
  have "\<forall>op\<in>set ops. plain_op op"
    by (simp add: ops_def plain_name_def ascii_def ends_name_def is_space_def)
  moreover have "ascii ''plugincmd'' \<noteq> []" "\<forall>c\<in>set (ascii ''plugincmd''). byte_alphanumeric c"
    by (simp_all add: ascii_def byte_alphanumeric_def)
  moreover have "ops = [] \<or> hd ops \<noteq> StartNewPart" by (simp add: ops_def)
  ultimately have "out_content p = ascii ''plugincmd'' @ render True ops"
    using written_command_parses [of 0 "ascii ''plugincmd''" ops C2S Command] assms
    by (auto simp: version_answer_def ops_def)
  then show ?thesis by (simp add: starts_with_def ascii_def)
qed

lemma send_session:
  assumes "\<And>q. p = Some q \<Longrightarrow> \<not> starts_with ''clientdisconnect'' (out_content q)"
  shows "session_of (hs_con (snd (client_send_packet env p s))) = session_of (hs_con s)"
proof (cases p)
  case (Some q)
  then have l: "leave_on_disconnect (hs_now s) q (hs_con s) = hs_con s"
    using assms by (simp add: leave_on_disconnect_def)
  obtain r con where r: "send_packet (env_lib env) (hs_now s) q (hs_con s) = (r, con)" by (metis surj_pair)
  then show ?thesis using Some l send_packet_session [OF r]
    by (auto simp: client_send_packet_def split: sum.splits proto_error.splits)
qed (simp add: client_send_packet_def)

lemma answer_plugin_session: "session_of (hs_con (snd (answer_plugin env c s))) = session_of (hs_con s)"
proof -
  have "snd (hs_then (client_send_packet env p) (\<lambda>_. hs_return ()) s) = snd (client_send_packet env p s)" for p
    by (simp add: hs_then_def hs_return_def split: prod.split outcome.split)
  then show ?thesis using version_answer_content
    by (simp add: answer_plugin_def hs_return_def send_session split: option.split)
qed

lemma handle_plugin_session: "session_of (hs_con (snd (handle_plugin env items c s))) = session_of (hs_con s)"
proof (induction env items c arbitrary: s rule: handle_plugin.induct)
  case (3 env items c)
  obtain r s1 where r: "answer_plugin env c s = (r, s1)" by (metis surj_pair)
  with answer_plugin_session [of env c s] have "session_of (hs_con s1) = session_of (hs_con s)" by simp
  with 3 r show ?case by (cases r) (simp_all add: hs_then_def)
qed (simp_all add: hs_return_def)

lemma initserver_session:
  "session_of (snd (handle_initserver now items con)) = (case session_of con of
      (Some (c, keys), state, client) \<Rightarrow>
        (case find_aclid items of Inr (Some c') \<Rightarrow> (Some (c', keys), Connected, client) | _ \<Rightarrow> session_of con)
    | _ \<Rightarrow> session_of con)"
  by (auto simp: handle_initserver_def session_of_def set_state_def split: option.splits sum.splits)

lemma left_view_session:
  "session_of (snd (handle_left_view now items con)) = (case session_of con of
      (Some (c, keys), state, client) \<Rightarrow>
        if own_client_left c items False = Inr True then (Some (c, keys), Disconnected, client) else session_of con
    | _ \<Rightarrow> session_of con)"
  by (auto simp: handle_left_view_def session_of_def set_state_def split: option.splits sum.splits bool.splits)

lemma on_con_snd: "hs_con (snd (on_con f s)) = snd (f (hs_con s))"
  by (simp add: on_con_def split: prod.split option.split)

lemma command_session:
  "session_of (hs_con (snd (client_handle_command env content s))) = session_step content (session_of (hs_con s))"
proof -
  obtain name rest where n: "command_parser_new content = (name, rest)" by (metis surj_pair)
  have d: "ascii ''initserver'' \<noteq> ascii ''notifyclientleftview''" by (simp add: ascii_def)
  obtain keys state client where s: "session_of (hs_con s) = (keys, state, client)" by (metis prod_cases3)
  consider (init) "name = ascii ''initserver''" | (left) "name = ascii ''notifyclientleftview''"
    | (other) "name \<noteq> ascii ''initserver''" "name \<noteq> ascii ''notifyclientleftview''" by blast
  then show ?thesis
  proof cases
    case init
    then have "session_of (hs_con (snd (client_handle_command env content s)))
        = session_of (snd (handle_initserver (hs_now s) (parse_items rest) (hs_con s)))"
      using n by (simp add: client_handle_command_def Let_def on_con_snd)
    then show ?thesis using n init s
      by (simp add: session_step_def Let_def initserver_session split: option.split sum.split)
  next
    case left
    then have "session_of (hs_con (snd (client_handle_command env content s)))
        = session_of (snd (handle_left_view (hs_now s) (parse_items rest) (hs_con s)))"
      using n d [symmetric] by (simp add: client_handle_command_def Let_def on_con_snd)
    then show ?thesis using n left s d [symmetric]
      by (simp add: session_step_def Let_def left_view_session split: option.split)
  next
    case other
    then show ?thesis using n s
      by (simp add: client_handle_command_def session_step_def Let_def handle_plugin_session split: option.split)
  qed
qed

text \<open>A command that raised an error has not changed the session.\<close>

lemma raised_session:
  assumes "client_handle_command env content s = (r, s')" "\<forall>u. r \<noteq> Returned u"
  shows "session_of (hs_con s') = session_of (hs_con s)"
proof -
  obtain name rest where n: "command_parser_new content = (name, rest)" by (metis surj_pair)
  have i: "handle_initserver now items con = (Some e, con') \<Longrightarrow> con' = con"
    "handle_left_view now items con = (Some e, con') \<Longrightarrow> con' = con" for now items con con' e
    by (auto simp: handle_initserver_def handle_left_view_def split: option.splits sum.splits bool.splits)
  have "hs_con s' = hs_con s" if "on_con f s = (r, s')" "\<And>e con'. f (hs_con s) = (Some e, con') \<Longrightarrow> con' = hs_con s" for f
    using that assms(2) by (auto simp: on_con_def split: prod.splits option.splits)
  moreover have "session_of (hs_con s') = session_of (hs_con s)"
    if "handle_plugin env its c s = (r, s')" for its c
    using handle_plugin_session [of env its c s] that by simp
  ultimately show ?thesis using assms n i
    by (auto simp: client_handle_command_def Let_def split: if_splits)
qed

definition own_session_after :: "stream_item option outcome \<Rightarrow> session_view \<Rightarrow> session_view" where
  "own_session_after r sess = (case r of
      Returned (Some (StreamCommand p)) \<Rightarrow> session_step (ip_content p) sess
    | _ \<Rightarrow> sess)"

lemma deliver_session:
  "session_of (hs_con (snd (deliver env r s))) = own_session_after (fst (deliver env r s)) (session_of (hs_con s))"
proof (cases r)
  case (ReadyItem it)
  show ?thesis
  proof (cases it)
    case (StreamCommand p)
    obtain q s1 where q: "client_handle_command env (ip_content p) s = (q, s1)" by (metis surj_pair)
    with command_session [of env "ip_content p" s]
    have "session_of (hs_con s1) = session_step (ip_content p) (session_of (hs_con s))" by simp
    with q raised_session [OF q] ReadyItem StreamCommand show ?thesis
      by (cases q) (simp_all add: deliver_def hs_then_def hs_return_def own_session_after_def)
  qed (simp_all add: ReadyItem deliver_def hs_return_def own_session_after_def)
next
  case (ReadyError e)
  then show ?thesis by (cases e) (simp_all add: deliver_def hs_raise_def own_session_after_def)
qed (simp_all add: deliver_def hs_return_def own_session_after_def)

lemma next_loop_session:
  "session_of (hs_con (snd (next_loop env rounds s))) = own_session_after (fst (next_loop env rounds s)) (session_of (hs_con s))"
proof (induction env rounds s rule: next_loop.induct)
  case (2 env now arrived rounds s)
  show ?case
  proof (cases "poll_next (env_fuel env) (env_lib env) now (hs_inbox s @ arrived) (hs_con s)")
    case (Some res)
    obtain r con inbox where r: "res = (r, con, inbox)" by (metis prod_cases3)
    have "session_of con = session_of (hs_con s)" using poll_next_session Some r by blast
    then show ?thesis using 2 Some r by (cases "r = NotReady") (simp_all add: Let_def deliver_session)
  qed (simp add: own_session_after_def)
qed (simp add: own_session_after_def)

text \<open>C12. The client refines the state machine of its commands: whatever is sent, resent, received or lost, the
  own client identifier, the keys and the state of the connection change only with a command that is
  handed on, and then as \<open>session_step\<close> says.
\<close>

theorem client_refines_session:
  "session_of (hs_con (snd (client_next env s)))
    = own_session_after (fst (client_next env s)) (session_of (hs_con s))"
  unfolding client_next_def by (rule next_loop_session)

text \<open>\<open>initserver\<close> makes a connection \<open>Connected\<close> whatever its state was, also while it disconnects.\<close>

lemma late_initserver_revives:
  assumes "command_parser_new content = (ascii ''initserver'', rest)" "find_aclid (parse_items rest) = Inr (Some c)"
  shows "session_step content (Some (own, keys), Disconnecting, client) = (Some (c, keys), Connected, client)"
  using assms by (simp add: session_step_def)

text \<open>A part of \<open>notifyplugincmd\<close> without arguments of its own is answered like the part before it.\<close>

lemma stale_plugin_request:
  assumes "name \<notin> {ascii ''name'', ascii ''data'', ascii ''invokerid''}"
  shows "handle_plugin env [Argument name v, NextCommand] c = hs_then (answer_plugin env c) (\<lambda>_. hs_return ())"
  using assms by (simp add: plugin_arg_def)

section \<open>The puzzle\<close>

lemma power_mod_squarings:
  "(x :: int) ^ (2 ^ k) mod n = ((\<lambda>r. r * r mod n) ^^ k) (x mod n)"
proof (induction k)
  case (Suc k)
  have "x ^ (2 ^ Suc k) mod n = (x ^ (2 ^ k) mod n) * (x ^ (2 ^ k) mod n) mod n"
    by (simp add: power_mult power2_eq_square mult_2 power_add mod_mult_eq)
  with Suc show ?case by simp
qed simp

text \<open>C21. The answer to the puzzle is what \<open>level\<close> squarings give, in 64 bytes; only the modulus zero, which the
  server may send, makes the computation panic.
\<close>

theorem puzzle_is_solved:
  assumes "length n \<le> 64"
  shows "case solve_puzzle x n level of
      None \<Rightarrow> array_to_biguint n = 0
    | Some y \<Rightarrow> array_to_biguint n \<noteq> 0 \<and> length y = 64
        \<and> array_to_biguint y = ((\<lambda>r. r * r mod array_to_biguint n) ^^ unat level) (array_to_biguint x mod array_to_biguint n)"
proof (cases "big_from n = 0")
  case False
  define y where "y = big_from x ^ (2 ^ unat level) mod big_from n"
  have n: "0 < big_from n" using False big_from_ge0 [of n] by linarith
  have y: "0 \<le> y" "y < big_from n" using n by (simp_all add: y_def)
  have "(256 :: int) ^ length n \<le> 256 ^ 64" using assms by (intro power_increasing) simp_all
  then have "y < 256 ^ 64" using y(2) big_from_less [of n] by linarith
  then have "nat y < 256 ^ Suc 63" using y(1) by (simp add: nat_less_iff)
  then have len: "length (big_bytes y) \<le> 64" using length_big_digits [of "nat y" 63] y(1) by (simp add: big_bytes_def)
  have "big_from (big_bytes y) = y" using y(1) by (simp add: big_bytes_def big_from_digits)
  then show ?thesis using False len
    by (simp add: solve_puzzle_def biguint_to_array_def array_to_biguint_def y_def [symmetric] Let_def
      big_from_zeros power_mod_squarings [symmetric])
qed (simp add: solve_puzzle_def array_to_biguint_def)

theorem puzzle_is_solved_witness:
  "\<exists>y. solve_puzzle [3] [55] 2 = Some y \<and> array_to_biguint y = 26"
proof -
  have n: "array_to_biguint [55] = 55" "array_to_biguint [3] = 3"
    by (simp_all add: array_to_biguint_def big_from_def)
  obtain y where y: "solve_puzzle [3] [55] 2 = Some y"
    using puzzle_is_solved [of "[55]" 2 "[3]"] n by (cases "solve_puzzle [3] [55] 2") auto
  have f: "((\<lambda>r. r * r mod 55) ^^ 2) (3 :: int) = 26" by (simp add: numeral_2_eq_2)
  show ?thesis using puzzle_is_solved [of "[55]" 2 "[3]"] y n f by simp
qed

end
