(* ===== verification/SlidingWindow.thy ===== *)
theory SlidingWindow
  imports Prelude
begin

text \<open>
  \<open>SlidingWindowMinimum\<close> of \<open>tsclientlib/src/audio.rs\<close>: the least of the last \<open>size\<close> values, with
  insertion times that wrap after 256 values. It yields the least of the last \<open>size\<close> values however
  many were inserted.
\<close>

section \<open>Reversed order\<close>

text \<open>\<open>std::cmp::Reverse\<close>\<close>

datatype 'a reversed = Reverse (unreverse: 'a)

instantiation reversed :: (linorder) linorder
begin

definition less_eq_reversed :: "'a reversed \<Rightarrow> 'a reversed \<Rightarrow> bool" where
  "a \<le> b \<longleftrightarrow> unreverse b \<le> unreverse a"

definition less_reversed :: "'a reversed \<Rightarrow> 'a reversed \<Rightarrow> bool" where
  "a < b \<longleftrightarrow> unreverse b < unreverse a"

instance
  by standard (auto simp: less_eq_reversed_def less_reversed_def intro: reversed.expand)

end

instantiation reversed :: (zero) zero
begin

definition zero_reversed :: "'a reversed" where
  "0 = Reverse 0"

instance ..

end

section \<open>The window\<close>

text \<open>The front of the queue is the head of the list; the default value is zero.\<close>

record 'a window =
  win_size :: u8
  win_queue :: "(u8 \<times> 'a) list"
  win_time :: u8

definition window_new :: "u8 \<Rightarrow> 'a window" where
  "window_new n = \<lparr>win_size = n, win_queue = [], win_time = 0\<rparr>"

definition window_push :: "('a::linorder) \<Rightarrow> 'a window \<Rightarrow> 'a window" where
  "window_push v w =
     (let q = rev (dropWhile (\<lambda>e. v \<le> snd e) (rev (win_queue w)));
          q = q @ [(win_time w, v)];
          q = dropWhile (\<lambda>e. win_size w \<le> win_time w - fst e) q
      in w\<lparr>win_queue := q, win_time := win_time w + 1\<rparr>)"

definition get_min :: "('a::{linorder, zero}) window \<Rightarrow> 'a" where
  "get_min w = (case win_queue w of [] \<Rightarrow> 0 | e # _ \<Rightarrow> snd e)"

section \<open>What the queue holds\<close>

text \<open>
  The queue with ages instead of times, for the values \<open>vs\<close>, the newest first: every entry is one of the
  last \<open>n\<close> values, ages fall and values rise along the queue, and every one of the last \<open>n\<close> values has
  an entry that is not older and not greater.
\<close>

definition ages_ok :: "nat \<Rightarrow> ('a::linorder) list \<Rightarrow> (nat \<times> 'a) list \<Rightarrow> bool" where
  "ages_ok n vs q \<longleftrightarrow>
     sorted_wrt (\<lambda>a b. fst b < fst a \<and> snd a < snd b) q
     \<and> (\<forall>e\<in>set q. fst e < n \<and> fst e < length vs \<and> vs ! fst e = snd e)
     \<and> (\<forall>i<length vs. i < n \<longrightarrow> (\<exists>e\<in>set q. fst e \<le> i \<and> snd e \<le> vs ! i))"

definition push_ages :: "nat \<Rightarrow> ('a::linorder) \<Rightarrow> (nat \<times> 'a) list \<Rightarrow> (nat \<times> 'a) list" where
  "push_ages n v q = filter (\<lambda>e. fst e < n) (map (\<lambda>e. (Suc (fst e), snd e)) (filter (\<lambda>e. snd e < v) q) @ [(0, v)])"

lemma ages_ok_push:
  assumes "ages_ok n vs q" "0 < n"
  shows "ages_ok n (v # vs) (push_ages n v q)"
  unfolding ages_ok_def
proof (intro conjI)
  let ?R = "\<lambda>a b :: nat \<times> 'a. fst b < fst a \<and> snd a < snd b"
  have "sorted_wrt ?R (filter (\<lambda>e. snd e < v) q)" using assms(1) by (simp add: ages_ok_def sorted_wrt_filter)
  then have "sorted_wrt ?R (map (\<lambda>e. (Suc (fst e), snd e)) (filter (\<lambda>e. snd e < v) q) @ [(0, v)])"
    by (simp add: sorted_wrt_append sorted_wrt_map)
  then show "sorted_wrt ?R (push_ages n v q)" unfolding push_ages_def by (rule sorted_wrt_filter)
  show "\<forall>e\<in>set (push_ages n v q). fst e < n \<and> fst e < length (v # vs) \<and> (v # vs) ! fst e = snd e"
    using assms by (auto simp: push_ages_def ages_ok_def)
  show "\<forall>i<length (v # vs). i < n \<longrightarrow> (\<exists>e\<in>set (push_ages n v q). fst e \<le> i \<and> snd e \<le> (v # vs) ! i)"
  proof (intro allI impI)
    fix i
    assume i: "i < length (v # vs)" "i < n"
    have new: "(0, v) \<in> set (push_ages n v q)" using assms(2) by (simp add: push_ages_def)
    show "\<exists>e\<in>set (push_ages n v q). fst e \<le> i \<and> snd e \<le> (v # vs) ! i"
    proof (cases i)
      case 0
      then show ?thesis using new by force
    next
      case (Suc j)
      then obtain e where e: "e \<in> set q" "fst e \<le> j" "snd e \<le> vs ! j"
        using i assms(1) by (auto simp: ages_ok_def)
      show ?thesis
      proof (cases "snd e < v")
        case True
        then have "(Suc (fst e), snd e) \<in> set (push_ages n v q)"
          using e i(2) Suc by (auto simp: push_ages_def image_iff intro!: bexI [of _ e])
        then show ?thesis using e Suc by (intro bexI [of _ "(Suc (fst e), snd e)"]) simp_all
      next
        case False
        then show ?thesis using new e Suc by (intro bexI [of _ "(0, v)"]) simp_all
      qed
    qed
  qed
qed

lemma ages_ok_head:
  assumes "ages_ok n vs (e # q)"
  shows "snd e = Min (set (take n vs))"
proof (rule Min_eqI [symmetric])
  have e: "fst e < n" "fst e < length vs" "vs ! fst e = snd e" using assms by (simp_all add: ages_ok_def)
  then show "snd e \<in> set (take n vs)" by (metis in_set_conv_nth length_take min_less_iff_conj nth_take)
  fix y
  assume "y \<in> set (take n vs)"
  then obtain i where i: "i < length vs" "i < n" "y = vs ! i" by (auto simp: in_set_conv_nth)
  then obtain d where d: "d \<in> set (e # q)" "snd d \<le> y" using assms unfolding ages_ok_def by metis
  moreover have "d = e \<or> snd e < snd d" using assms d(1) by (auto simp: ages_ok_def)
  ultimately show "snd e \<le> y" by auto
qed simp

section \<open>Times and ages\<close>

text \<open>The time of an entry is its age before the current time.\<close>

definition timed :: "u8 \<Rightarrow> (nat \<times> 'a) list \<Rightarrow> (u8 \<times> 'a) list" where
  "timed t q = map (\<lambda>e. (t - 1 - of_nat (fst e), snd e)) q"

definition window_holds :: "('a::linorder) list \<Rightarrow> 'a window \<Rightarrow> bool" where
  "window_holds vs w \<longleftrightarrow> (\<exists>q. win_queue w = timed (win_time w) q \<and> ages_ok (unat (win_size w)) vs q)"

lemma window_new_holds: "window_holds [] (window_new n)"
  by (auto simp: window_holds_def window_new_def timed_def ages_ok_def)

lemma dropWhile_sorted:
  assumes "sorted_wrt R xs" "\<And>x y. R x y \<Longrightarrow> P y \<Longrightarrow> P x"
  shows "dropWhile P xs = filter (\<lambda>x. \<not> P x) xs"
  using assms(1)
proof (induction xs)
  case (Cons x xs)
  then have "\<not> P x \<Longrightarrow> \<forall>y\<in>set xs. \<not> P y" using assms(2) by auto
  with Cons show ?case by (auto simp: filter_id_conv)
qed simp

lemma window_push_holds:
  assumes "window_holds vs w" "0 < win_size w"
  shows "window_holds (v # vs) (window_push v w)"
proof -
  define n where "n = unat (win_size w)"
  define t where "t = win_time w"
  obtain q where q: "win_queue w = timed t q" "ages_ok n vs q" using assms(1) by (auto simp: window_holds_def n_def t_def)
  have n: "0 < n" "n < 256" using assms(2) unsigned_less [of "win_size w", where ?'a = nat]
    by (simp_all add: n_def word_less_nat_alt)
  let ?R = "\<lambda>a b :: nat \<times> 'a. fst b < fst a \<and> snd a < snd b"
  have sorted: "sorted_wrt ?R q" using q(2) by (simp add: ages_ok_def)
  have "rev (dropWhile (\<lambda>e. v \<le> snd e) (rev q)) = filter (\<lambda>e. snd e < v) q"
  proof -
    have "sorted_wrt (\<lambda>a b. ?R b a) (rev q)" using sorted by (simp add: sorted_wrt_rev)
    then have "dropWhile (\<lambda>e. v \<le> snd e) (rev q) = filter (\<lambda>e. \<not> v \<le> snd e) (rev q)"
      by (rule dropWhile_sorted) auto
    then show ?thesis by (simp add: rev_filter [symmetric] not_le)
  qed
  moreover have "rev (dropWhile (\<lambda>e. v \<le> snd e) (rev (timed t q))) = timed t (rev (dropWhile (\<lambda>e. v \<le> snd e) (rev q)))"
    by (simp add: timed_def rev_map dropWhile_map comp_def)
  ultimately have rear: "rev (dropWhile (\<lambda>e. v \<le> snd e) (rev (timed t q))) = timed t (filter (\<lambda>e. snd e < v) q)"
    by simp
  define q1 where "q1 = map (\<lambda>e. (Suc (fst e), snd e)) (filter (\<lambda>e. snd e < v) q) @ [(0, v)]"
  have t1: "timed t (filter (\<lambda>e. snd e < v) q) @ [(t, v)] = timed (t + 1) q1"
    by (simp add: timed_def q1_def comp_def algebra_simps)
  have ages: "\<forall>e\<in>set q1. fst e \<le> n" using q(2) by (auto simp: q1_def ages_ok_def)
  have old: "(win_size w \<le> t - (t + 1 - 1 - of_nat (fst e))) = (n \<le> fst e)" if "e \<in> set q1" for e
  proof -
    have "fst e < 256" using ages that n by fastforce
    then have "unat (of_nat (fst e) :: u8) = fst e" by (simp add: unsigned_of_nat take_bit_nat_eq_self)
    then show ?thesis by (simp add: word_le_nat_alt n_def)
  qed
  have "sorted_wrt ?R q1"
    using sorted by (simp add: q1_def sorted_wrt_append sorted_wrt_map sorted_wrt_filter)
  then have "dropWhile (\<lambda>e. n \<le> fst e) q1 = filter (\<lambda>e. \<not> n \<le> fst e) q1"
    by (rule dropWhile_sorted) auto
  then have "dropWhile (\<lambda>e. n \<le> fst e) q1 = push_ages n v q"
    by (simp add: push_ages_def q1_def not_le)
  moreover have "dropWhile (\<lambda>e. win_size w \<le> t - fst e) (timed (t + 1) q1)
      = timed (t + 1) (dropWhile (\<lambda>e. n \<le> fst e) q1)"
    unfolding timed_def dropWhile_map
    by (rule arg_cong [where f = "map _"], rule dropWhile_cong) (simp_all add: old [simplified])
  ultimately have "win_queue (window_push v w) = timed (t + 1) (push_ages n v q)"
    by (simp add: window_push_def Let_def q(1) t_def [symmetric] rear t1)
  then show ?thesis using ages_ok_push [OF q(2) n(1), of v]
    by (auto simp: window_holds_def window_push_def Let_def n_def t_def)
qed

lemma window_size_push [simp]: "win_size (window_push v w) = win_size w"
  by (simp add: window_push_def Let_def)

lemma window_min:
  assumes "window_holds vs w" "0 < win_size w"
  shows "get_min w = (if vs = [] then 0 else Min (set (take (unat (win_size w)) vs)))"
proof -
  obtain q where q: "win_queue w = timed (win_time w) q" "ages_ok (unat (win_size w)) vs q"
    using assms(1) by (auto simp: window_holds_def)
  show ?thesis
  proof (cases q)
    case Nil
    have "0 < unat (win_size w)" using assms(2) by (simp add: word_less_nat_alt)
    then have "vs = []" using q(2) Nil by (auto simp: ages_ok_def)
    then show ?thesis using q(1) Nil by (simp add: get_min_def timed_def)
  next
    case (Cons e q')
    then have "vs \<noteq> []" using q(2) by (auto simp: ages_ok_def)
    then show ?thesis using q Cons ages_ok_head [of "unat (win_size w)" vs e q'] by (simp add: get_min_def timed_def)
  qed
qed

lemma window_fold:
  assumes "0 < win_size w" "window_holds us w"
  shows "window_holds (rev vs @ us) (fold window_push vs w) \<and> win_size (fold window_push vs w) = win_size w"
  using assms
proof (induction vs arbitrary: us w)
  case (Cons v vs)
  then show ?case using window_push_holds [of us w v] Cons.IH [of "window_push v w" "v # us"] by simp
qed simp

text \<open>C24. After any number of values, also after the insertion times have wrapped, the minimum is the least of
  the last \<open>size\<close> values.
\<close>

theorem sliding_window_is_minimum:
  fixes n :: u8
  assumes "0 < n" "vs \<noteq> []"
  shows "get_min (fold window_push vs (window_new n)) = Min (set (drop (length vs - unat n) vs))"
proof -
  have "window_holds (rev vs) (fold window_push vs (window_new n))"
      "win_size (fold window_push vs (window_new n)) = n"
    using window_fold [of "window_new n" "[]" vs, OF _ window_new_holds] assms(1)
    by (simp_all add: window_new_def)
  then show ?thesis using window_min [of "rev vs"] assms by (simp add: take_rev)
qed

theorem sliding_window_is_minimum_witness:
  "get_min (fold window_push [5, 6, 3, 4, 6, 5, 6, 6 :: nat] (window_new 5)) = 4"
  using sliding_window_is_minimum [of 5 "[5, 6, 3, 4, 6, 5, 6, 6 :: nat]"] by simp

end
