(* ===== verification/AudioQueue.thy ===== *)
theory AudioQueue
  imports SlidingWindow AudioPackets F32
begin

text \<open>
  The queues for incoming audio of the client library, \<open>tsclientlib/src/audio.rs\<close>: packets are put in
  order, decoded, sped up when the buffer is long, and mixed. The decoder is \<open>libopus\<close> through the crate
  \<open>audiopus\<close>; its functions are the fields of \<open>opus_lib\<close>. Indices count \<open>f32\<close> values, two for each
  sample.
\<close>

section \<open>The decoder\<close>

text \<open>
  \<open>nb_samples\<close> and \<open>decode_float\<close> may fail (\<open>None\<close>). Decoding gets the packet or \<open>None\<close> for a lost one,
  the room for the result and the flag for error correction; it returns the new state of the decoder.
\<close>

record 'd opus_lib =
  nb_samples :: "u8 list \<Rightarrow> nat option"
  new_decoder :: "'d option"
  decode_float :: "'d \<Rightarrow> u8 list option \<Rightarrow> nat \<Rightarrow> bool \<Rightarrow> f32 list option \<times> 'd"

text \<open>\<open>TryFrom<&[u8]> for Packet\<close> refuses an empty slice.\<close>

definition as_opus :: "u8 list \<Rightarrow> u8 list option" where
  "as_opus data = (if data = [] then None else Some data)"

section \<open>Constants and state\<close>

definition CHANNEL_NUM :: nat where "CHANNEL_NUM = 2"
definition MAX_PACKET_LOSSES :: nat where "MAX_PACKET_LOSSES = 3"
definition LAST_BUFFER_SIZE_COUNT :: u8 where "LAST_BUFFER_SIZE_COUNT = 255"
definition MAX_BUFFER_SIZE :: nat where "MAX_BUFFER_SIZE = 24000"
definition MAX_BUFFER_PACKETS :: nat where "MAX_BUFFER_PACKETS = 50"
definition MAX_BUFFER_TIME :: nat where "MAX_BUFFER_TIME = 24000"
definition SPEED_CHANGE_STEPS :: nat where "SPEED_CHANGE_STEPS = 100"
definition USUAL_FRAME_SIZE :: nat where "USUAL_FRAME_SIZE = 960"

datatype audio_error =
    CreateDecoder
  | DecodeFailed
  | Duplicate u16
  | GetPacketSample
  | QueueFull
  | TooLate u16 u16
  | TooManySamples
  | UnsupportedCodec codec_type
  | AudioPanic

record queue_packet =
  qp_data :: audio_data
  qp_samples :: nat
  qp_id :: u16

record 'd audio_queue =
  aq_decoder :: 'd
  aq_volume :: f32
  aq_next_id :: u16
  aq_whispering :: bool
  aq_packets :: "queue_packet list"
  aq_packet_samples :: nat
  aq_decoded :: "f32 list"
  aq_pos :: nat
  aq_last_samples :: nat
  aq_losses :: nat
  aq_buffering :: nat
  aq_size_min :: "u8 window"
  aq_size_max :: "u8 reversed window"
  aq_buffered_for :: nat

fun is_s2c_whisper :: "audio_data \<Rightarrow> bool" where
  "is_s2c_whisper (AudioS2CWhisper _ _ _ _) = True"
| "is_s2c_whisper _ = False"

section \<open>Buffer sizes\<close>

text \<open>A size of more than 255 frames is only logged.\<close>

definition add_buffer_size :: "nat \<Rightarrow> 'd audio_queue \<Rightarrow> 'd audio_queue" where
  "add_buffer_size n q =
     (let frames = n div USUAL_FRAME_SIZE in
      if frames < 256
      then q\<lparr>aq_size_min := window_push (of_nat frames) (aq_size_min q),
             aq_size_max := window_push (Reverse (of_nat frames)) (aq_size_max q)\<rparr>
      else q)"

text \<open>A subtraction that would underflow is \<open>None\<close>, here and below.\<close>

definition get_deviation :: "'d audio_queue \<Rightarrow> u8 option" where
  "get_deviation q =
     (let greatest = unreverse (get_min (aq_size_max q)); least = get_min (aq_size_min q) in
      if greatest < least then None else Some (greatest - least))"

section \<open>Putting packets in order\<close>

text \<open>
  The packets at the rear whose identifier is not before the new one, within the range of the buffer,
  stay behind it.
\<close>

definition insert_position :: "u16 \<Rightarrow> queue_packet list \<Rightarrow> nat" where
  "insert_position i ps = length ps
     - length (takeWhile (\<lambda>p. qp_id p - i \<le> of_nat MAX_BUFFER_PACKETS) (rev ps))"

definition packet_samples :: "'d opus_lib \<Rightarrow> u8 list \<Rightarrow> audio_error + nat" where
  "packet_samples lib data =
     (if length data \<le> 1 then Inr 0
      else case Option.bind (as_opus data) (nb_samples lib) of
          None \<Rightarrow> Inl GetPacketSample
        | Some n \<Rightarrow> if MAX_BUFFER_SIZE < n then Inl TooManySamples else Inr n)"

text \<open>The counter of the samples to wait for; subtraction saturates.\<close>

definition less_buffering :: "u16 \<Rightarrow> nat \<Rightarrow> 'd audio_queue \<Rightarrow> nat" where
  "less_buffering i samples q =
     (let last_id = (if aq_packets q = [] then i else qp_id (last (aq_packets q)) + 1) in
      if last_id \<le> i then aq_buffering q - samples - unat (i - last_id) * aq_last_samples q
      else aq_buffering q)"

definition add_packet :: "'d opus_lib \<Rightarrow> audio_data \<Rightarrow> 'd audio_queue \<Rightarrow> (audio_error + unit) \<times> 'd audio_queue" where
  "add_packet lib data q =
     (if MAX_BUFFER_PACKETS \<le> length (aq_packets q) then (Inl QueueFull, q)
      else case packet_samples lib (audio_bytes data) of
        Inl e \<Rightarrow> (Inl e, q)
      | Inr samples \<Rightarrow>
          (let i = audio_id data; pos = insert_position i (aq_packets q) in
           if of_nat MAX_BUFFER_PACKETS < i - aq_next_id q then (Inl (TooLate (aq_next_id q) i), q)
           else if pos < length (aq_packets q) \<and> qp_id (aq_packets q ! pos) = i then (Inl (Duplicate i), q)
           else (Inr (), q\<lparr>aq_buffering := less_buffering i samples q,
             aq_packet_samples := aq_packet_samples q + samples,
             aq_packets := take pos (aq_packets q) @ [\<lparr>qp_data = data, qp_samples = samples, qp_id = i\<rparr>]
               @ drop pos (aq_packets q)\<rparr>)))"

definition audio_queue_new :: "'d opus_lib \<Rightarrow> audio_data \<Rightarrow> audio_error + 'd audio_queue" where
  "audio_queue_new lib data =
     (case Option.bind (as_opus (audio_bytes data)) (nb_samples lib) of
        None \<Rightarrow> Inl GetPacketSample
      | Some n \<Rightarrow>
          if MAX_BUFFER_SIZE < n then Inl TooManySamples
          else case new_decoder lib of
            None \<Rightarrow> Inl CreateDecoder
          | Some d \<Rightarrow>
              (let q = \<lparr>aq_decoder = d, aq_volume = Fin 1, aq_next_id = audio_id data,
                 aq_whispering = is_s2c_whisper data, aq_packets = [], aq_packet_samples = 0, aq_decoded = [],
                 aq_pos = 0, aq_last_samples = n * CHANNEL_NUM, aq_losses = 0, aq_buffering = 0,
                 aq_size_min = window_new LAST_BUFFER_SIZE_COUNT,
                 aq_size_max = window_new LAST_BUFFER_SIZE_COUNT, aq_buffered_for = 0\<rparr>
               in case add_packet lib data (add_buffer_size 0 q) of
                 (Inl e, _) \<Rightarrow> Inl e
               | (Inr _, q) \<Rightarrow> Inr q))"

section \<open>Decoding\<close>

definition resize :: "nat \<Rightarrow> f32 list \<Rightarrow> f32 list" where
  "resize n xs = take n xs @ replicate (n - length xs) (Fin 0)"

text \<open>
  The samples behind \<open>aq_next_id\<close> when a packet was decoded, lost packets included; the subtraction
  underflows when there are more packets than identifiers up to the last one.
\<close>

definition buffered_samples :: "'d audio_queue \<Rightarrow> nat option" where
  "buffered_samples q =
     (if aq_packets q = [] then Some (aq_packet_samples q)
      else let ids = unat (qp_id (last (aq_packets q)) - aq_next_id q) + 1 in
        if ids < length (aq_packets q) then None
        else Some (aq_packet_samples q + (ids - length (aq_packets q)) * aq_last_samples q))"

definition queue_decode_packet ::
    "'d opus_lib \<Rightarrow> queue_packet option \<Rightarrow> bool \<Rightarrow> 'd audio_queue \<Rightarrow> audio_error option \<times> 'd audio_queue" where
  "queue_decode_packet lib p fec q =
     (if \<exists>x. p = Some x \<and> as_opus (audio_bytes (qp_data x)) = None then (Some GetPacketSample, q)
      else
        let n = (case p of Some x \<Rightarrow> qp_samples x | None \<Rightarrow> aq_last_samples q);
            q = (case p of Some x \<Rightarrow> q\<lparr>aq_whispering := is_s2c_whisper (qp_data x)\<rparr> | None \<Rightarrow> q);
            q = q\<lparr>aq_losses := aq_losses q + 1, aq_decoded := resize (aq_pos q + n * CHANNEL_NUM) (aq_decoded q)\<rparr>
        in case decode_float lib (aq_decoder q) (map_option (\<lambda>x. audio_bytes (qp_data x)) p) (n * CHANNEL_NUM) fec of
          (None, d) \<Rightarrow> (Some DecodeFailed, q\<lparr>aq_decoder := d\<rparr>)
        | (Some samples, d) \<Rightarrow>
            let n = length samples div CHANNEL_NUM;
                q = q\<lparr>aq_decoder := d, aq_last_samples := n,
                  aq_decoded := take (aq_pos q) (aq_decoded q) @ take (n * CHANNEL_NUM) samples,
                  aq_pos := aq_pos q + n * CHANNEL_NUM,
                  aq_losses := (if p \<noteq> None \<and> \<not> fec then 0 else aq_losses q)\<rparr>
            in case buffered_samples q of
                None \<Rightarrow> (Some AudioPanic, q)
              | Some count \<Rightarrow> (None, add_buffer_size count q))"

section \<open>Speed\<close>

text \<open>\<open>drain(i..i + CHANNEL_NUM)\<close>\<close>

definition drain_sample :: "nat \<Rightarrow> f32 list \<Rightarrow> f32 list option" where
  "drain_sample i xs = (if length xs < i + CHANNEL_NUM then None else Some (take i xs @ drop (i + CHANNEL_NUM) xs))"

fun drain_loop :: "nat \<Rightarrow> nat list \<Rightarrow> f32 list \<Rightarrow> f32 list option" where
  "drain_loop start [] xs = Some xs"
| "drain_loop start (k # ks) xs =
     Option.bind (drain_sample (start + k * (SPEED_CHANGE_STEPS - 1) * CHANNEL_NUM) xs) (drain_loop start ks)"

definition speed_up :: "'d audio_queue \<Rightarrow> 'd audio_queue option" where
  "speed_up q =
     (let n = aq_last_samples q in
      if length (aq_decoded q) < n * CHANNEL_NUM then None
      else map_option (\<lambda>xs. q\<lparr>aq_decoded := xs\<rparr>)
        (drain_loop (length (aq_decoded q) - n * CHANNEL_NUM) [0..<n div SPEED_CHANGE_STEPS] (aq_decoded q)))"

text \<open>How many packets at the rear stay when the buffer is truncated.\<close>

fun keep_count :: "nat \<Rightarrow> nat \<Rightarrow> queue_packet list \<Rightarrow> nat" where
  "keep_count limit kept [] = 0"
| "keep_count limit kept (p # ps) =
     (let kept = kept + qp_samples p in if kept < limit then Suc (keep_count limit kept ps) else 0)"

definition truncate_packets :: "u8 \<Rightarrow> 'd audio_queue \<Rightarrow> 'd audio_queue" where
  "truncate_packets least q =
     (let keep = keep_count (unat least + USUAL_FRAME_SIZE) 0 (rev (aq_packets q));
          ps = drop (length (aq_packets q) - keep) (aq_packets q)
      in q\<lparr>aq_packets := ps, aq_packet_samples := sum_list (map qp_samples ps),
           aq_next_id := (case ps of [] \<Rightarrow> aq_next_id q | p # _ \<Rightarrow> qp_id p)\<rparr>)"

definition adapt_speed :: "'d audio_queue \<Rightarrow> 'd audio_queue option" where
  "adapt_speed q =
     (let least = get_min (aq_size_min q) in case get_deviation q of
        None \<Rightarrow> None
      | Some dev \<Rightarrow>
          if of_nat (MAX_BUFFER_SIZE div USUAL_FRAME_SIZE) < least then Some (truncate_packets least q)
          else if dev < least then speed_up q
          else Some q)"

section \<open>Fetching audio\<close>

text \<open>One packet is taken or a loss is concealed; \<open>Inr True\<close> is the end of the stream.\<close>

definition decode_next :: "'d opus_lib \<Rightarrow> 'd audio_queue \<Rightarrow> (audio_error + bool) \<times> 'd audio_queue" where
  "decode_next lib q = (case aq_packets q of
      [] \<Rightarrow> (case queue_decode_packet lib None False q of
          (Some e, q) \<Rightarrow> (Inl e, q) | (None, q) \<Rightarrow> (Inr False, q))
    | p # ps \<Rightarrow>
        let q = q\<lparr>aq_packets := ps\<rparr> in
        if length (audio_bytes (qp_data p)) \<le> 1 then (Inr True, q)
        else if aq_packet_samples q < qp_samples p then (Inl AudioPanic, q)
        else let cur_id = aq_next_id q;
                 q = q\<lparr>aq_packet_samples := aq_packet_samples q - qp_samples p, aq_next_id := cur_id + 1\<rparr>
             in if qp_id p \<noteq> cur_id
                then (case (if qp_id p = aq_next_id q then queue_decode_packet lib (Some p) True q
                            else queue_decode_packet lib None False q) of
                    (Some e, q) \<Rightarrow> (Inl e, q)
                  | (None, q) \<Rightarrow> (Inr False, q\<lparr>aq_packet_samples := aq_packet_samples q + qp_samples p,
                      aq_packets := p # aq_packets q\<rparr>))
                else (case queue_decode_packet lib (Some p) False q of
                    (Some e, q) \<Rightarrow> (Inl e, q) | (None, q) \<Rightarrow> (Inr False, q)))"

text \<open>
  The loop until enough is decoded: the flag says that the stream ended. Every round moves \<open>aq_pos\<close>
  by two at least, so \<open>fuel\<close> for \<open>n\<close> rounds is enough (\<open>fetch_ends\<close>).
\<close>

fun fetch_loop :: "nat \<Rightarrow> 'd opus_lib \<Rightarrow> nat \<Rightarrow> 'd audio_queue \<Rightarrow> ((audio_error + bool) \<times> 'd audio_queue) option" where
  "fetch_loop fuel lib n q =
     (if n \<le> length (aq_decoded q) then Some (Inr False, q)
      else case fuel of
        0 \<Rightarrow> None
      | Suc fuel \<Rightarrow> (case decode_next lib q of
          (Inl e, q) \<Rightarrow> Some (Inl e, q)
        | (Inr True, q) \<Rightarrow> Some (Inr True, q)
        | (Inr False, q) \<Rightarrow>
            if aq_last_samples q = 0 then Some (Inr False, q)
            else (case adapt_speed q of
                None \<Rightarrow> Some (Inl AudioPanic, q)
              | Some q \<Rightarrow> fetch_loop fuel lib n q)))"

declare fetch_loop.simps [simp del]

text \<open>What was played is dropped before the buffer is refilled.\<close>

definition drop_played :: "'d audio_queue \<Rightarrow> 'd audio_queue" where
  "drop_played q =
     (if aq_pos q < length (aq_decoded q)
      then (if 0 < aq_pos q then q\<lparr>aq_decoded := drop (aq_pos q) (aq_decoded q), aq_pos := 0\<rparr> else q)
      else q\<lparr>aq_decoded := [], aq_pos := 0\<rparr>)"

definition fetch_fuel :: "nat \<Rightarrow> nat" where
  "fetch_fuel n = n + 1"

text \<open>The slice \<open>[..len]\<close> panics when the loop was left early with less.\<close>

definition get_next_data ::
    "'d opus_lib \<Rightarrow> nat \<Rightarrow> 'd audio_queue \<Rightarrow> ((audio_error + f32 list \<times> bool) \<times> 'd audio_queue) option" where
  "get_next_data lib n q =
     (if 0 < aq_buffering q \<and> aq_buffered_for q < MAX_BUFFER_TIME
      then Some (Inr ([], False), q\<lparr>aq_buffered_for := aq_buffered_for q + n\<rparr>)
      else
        let q = (if 0 < aq_buffering q then q\<lparr>aq_buffering := 0, aq_buffered_for := 0\<rparr> else q) in
        case fetch_loop (fetch_fuel n) lib n (drop_played q) of
          None \<Rightarrow> None
        | Some (Inl e, q) \<Rightarrow> Some (Inl e, q)
        | Some (Inr True, q) \<Rightarrow> Some (Inr (aq_decoded q, True), q)
        | Some (Inr False, q) \<Rightarrow>
            if length (aq_decoded q) < n then Some (Inl AudioPanic, q\<lparr>aq_pos := n\<rparr>)
            else Some (Inr (take n (aq_decoded q), False), q\<lparr>aq_pos := n\<rparr>))"

section \<open>All queues\<close>

record ('i, 'd) audio_handler =
  ah_queues :: "('i, 'd audio_queue) table"
  ah_avg :: nat

definition audio_handler_new :: "('i, 'd) audio_handler" where
  "audio_handler_new = \<lparr>ah_queues = [], ah_avg = 0\<rparr>"

definition audio_reset :: "('i, 'd) audio_handler \<Rightarrow> ('i, 'd) audio_handler" where
  "audio_reset h = h\<lparr>ah_queues := []\<rparr>"

definition mix_into :: "f32 list \<Rightarrow> f32 \<Rightarrow> f32 list \<Rightarrow> f32 list" where
  "mix_into buf vol r = map2 (\<lambda>b x. fadd b (fmul x vol)) (take (length r) buf) r @ drop (length r) buf"

text \<open>
  One queue: its new state, the buffer, whether it is removed and the call of the preprocessor.
  The result is \<open>None\<close> when the code panics.
\<close>

definition fill_from ::
    "'d opus_lib \<Rightarrow> f32 list \<Rightarrow> 'd audio_queue \<Rightarrow> ('d audio_queue \<times> f32 list \<times> bool \<times> f32 list option) option" where
  "fill_from lib buf q =
     (if MAX_PACKET_LOSSES \<le> aq_losses q then Some (q, buf, True, None)
      else case get_next_data lib (length buf) q of
        None \<Rightarrow> None
      | Some (Inl e, q) \<Rightarrow> if e = AudioPanic then None else Some (q, buf, False, None)
      | Some (Inr (r, is_end), q') \<Rightarrow>
          if length buf < length r then None
          else Some (q', mix_into buf (aq_volume q) r, is_end, Some r))"

text \<open>The loop over the queues with the identifiers to remove and the calls made.\<close>

fun fill_queues ::
    "'d opus_lib \<Rightarrow> ('i \<times> 'd audio_queue) list \<Rightarrow> f32 list
      \<Rightarrow> (('i \<times> 'd audio_queue) list \<times> f32 list \<times> 'i list \<times> ('i \<times> f32 list) list) option" where
  "fill_queues lib [] buf = Some ([], buf, [], [])"
| "fill_queues lib ((i, q) # qs) buf = (case fill_from lib buf q of
      None \<Rightarrow> None
    | Some (q, buf, remove, called) \<Rightarrow> (case fill_queues lib qs buf of
        None \<Rightarrow> None
      | Some (qs, buf, to_remove, calls) \<Rightarrow> Some ((i, q) # qs, buf, (if remove then i # to_remove else to_remove),
          (case called of None \<Rightarrow> calls | Some r \<Rightarrow> (i, r) # calls))))"

definition fill_buffer_with_proc ::
    "'d opus_lib \<Rightarrow> f32 list \<Rightarrow> ('i, 'd) audio_handler
      \<Rightarrow> (('i list \<times> f32 list \<times> ('i \<times> f32 list) list) \<times> ('i, 'd) audio_handler) option" where
  "fill_buffer_with_proc lib buf h = map_option
     (\<lambda>(qs, buf, to_remove, calls). ((to_remove, buf, calls), h\<lparr>ah_queues := fold tdel to_remove qs\<rparr>))
     (fill_queues lib (ah_queues h) buf)"

definition fill_buffer ::
    "'d opus_lib \<Rightarrow> f32 list \<Rightarrow> ('i, 'd) audio_handler \<Rightarrow> (('i list \<times> f32 list) \<times> ('i, 'd) audio_handler) option" where
  "fill_buffer lib buf h = map_option (\<lambda>((to_remove, buf, _), h). ((to_remove, buf), h)) (fill_buffer_with_proc lib buf h)"

definition average_buffer :: "('i, 'd audio_queue) table \<Rightarrow> nat" where
  "average_buffer qs = USUAL_FRAME_SIZE
     + sum_list (map (\<lambda>e. unat (get_min (aq_size_min (snd e)))) qs) div length qs"

definition handle_packet ::
    "'d opus_lib \<Rightarrow> 'i \<Rightarrow> audio_data \<Rightarrow> ('i, 'd) audio_handler \<Rightarrow> (audio_error + 'i option) \<times> ('i, 'd) audio_handler" where
  "handle_packet lib i data h =
     (if audio_codec data \<notin> {OpusMusic, OpusVoice} then (Inl (UnsupportedCodec (audio_codec data)), h)
      else case tget (ah_queues h) i of
        Some q \<Rightarrow> (case add_packet lib data q of
            (Inl e, q) \<Rightarrow> (Inl e, h\<lparr>ah_queues := tput i q (ah_queues h)\<rparr>)
          | (Inr _, q) \<Rightarrow> (Inr None, h\<lparr>ah_queues := tput i q (ah_queues h)\<rparr>))
      | None \<Rightarrow>
          if length (audio_bytes data) \<le> 1 then (Inr None, h)
          else (case audio_queue_new lib data of
              Inl e \<Rightarrow> (Inl e, h)
            | Inr q \<Rightarrow>
                let h = (if ah_queues h = [] then h else h\<lparr>ah_avg := average_buffer (ah_queues h)\<rparr>)
                in (Inr (Some i), h\<lparr>ah_queues := tput i (q\<lparr>aq_buffering := ah_avg h\<rparr>) (ah_queues h)\<rparr>)))"

end
