(* ===== verification/AudioQueueFacts.thy ===== *)
theory AudioQueueFacts
  imports AudioQueue
begin

text \<open>
  The queue for audio keeps its packets in order and counts their samples; fetching audio always ends,
  and mixing does not panic as long as the decoder yields samples.
\<close>

lemmas audio_constants = CHANNEL_NUM_def MAX_PACKET_LOSSES_def LAST_BUFFER_SIZE_COUNT_def MAX_BUFFER_SIZE_def
  MAX_BUFFER_PACKETS_def MAX_BUFFER_TIME_def SPEED_CHANGE_STEPS_def USUAL_FRAME_SIZE_def

section \<open>Identifiers that wrap\<close>

text \<open>How far an identifier is ahead of the next one.\<close>

definition ahead :: "u16 \<Rightarrow> queue_packet \<Rightarrow> nat" where
  "ahead n p = unat (qp_id p - n)"

definition packets_ok :: "u16 \<Rightarrow> queue_packet list \<Rightarrow> bool" where
  "packets_ok n ps \<longleftrightarrow> sorted_wrt (<) (map (ahead n) ps) \<and> (\<forall>p\<in>set ps. ahead n p \<le> MAX_BUFFER_PACKETS)"

lemma unat_small_add:
  fixes a b :: u16
  assumes "unat a + unat b < 65536"
  shows "unat (a + b) = unat a + unat b"
  using assms by (simp add: unat_word_ariths)

lemma ahead_diff:
  fixes x y :: u16
  assumes "unat y \<le> unat x"
  shows "unat (x - y) = unat x - unat y"
  using assms by (simp add: unat_sub word_le_nat_alt)

lemma not_before:
  assumes "unat (a - n :: u16) \<le> 50" "unat (b - n) \<le> 50"
  shows "a - b \<le> of_nat MAX_BUFFER_PACKETS \<longleftrightarrow> unat (b - n) \<le> unat (a - n)"
proof -
  define x y where "x = a - n" and "y = b - n"
  have d: "a - b = x - y" by (simp add: x_def y_def)
  have m: "(z \<le> of_nat MAX_BUFFER_PACKETS) = (unat z \<le> 50)" for z :: u16
    by (simp add: MAX_BUFFER_PACKETS_def word_le_nat_alt)
  show ?thesis
  proof (cases "unat y \<le> unat x")
    case True
    then show ?thesis using assms ahead_diff [OF True] m by (simp add: d x_def [symmetric] y_def [symmetric])
  next
    case False
    have "\<not> unat (x - y) \<le> 50"
    proof
      assume "unat (x - y) \<le> 50"
      then have "unat ((x - y) + y) = unat (x - y) + unat y"
        using assms by (intro unat_small_add) (simp add: y_def)
      then show False using False by simp
    qed
    then show ?thesis using False m by (simp add: d x_def [symmetric] y_def [symmetric])
  qed
qed

lemma packets_ok_simps [simp]: "packets_ok n []"
  by (simp add: packets_ok_def)

lemma packets_ok_Cons:
  "packets_ok n (p # ps) \<longleftrightarrow> ahead n p \<le> 50 \<and> (\<forall>x\<in>set ps. ahead n p < ahead n x) \<and> packets_ok n ps"
  by (auto simp: packets_ok_def MAX_BUFFER_PACKETS_def)

lemma packets_ok_drop: "packets_ok n ps \<Longrightarrow> packets_ok n (drop k ps)"
  by (auto simp: packets_ok_def drop_map [symmetric] sorted_wrt_drop dest: in_set_dropD)

lemma ahead_rebase:
  assumes "ahead n p \<le> ahead n x"
  shows "ahead (qp_id p) x = ahead n x - ahead n p"
  using ahead_diff [of "qp_id p - n" "qp_id x - n"] assms by (simp add: ahead_def)

lemma packets_ok_rebase:
  assumes "packets_ok n (p # ps)"
  shows "packets_ok (qp_id p) (p # ps)"
proof -
  have a: "ahead (qp_id p) x = ahead n x - ahead n p" if "x \<in> set (p # ps)" for x
    using assms that by (intro ahead_rebase) (auto simp: packets_ok_Cons)
  have "sorted_wrt (<) (map (\<lambda>x. ahead n x - ahead n p) (p # ps))"
    using assms unfolding packets_ok_def sorted_wrt_map
    by (auto simp: less_diff_conv2 le_less intro!: sorted_wrt_mono_rel [of ps "\<lambda>a b. ahead n a < ahead n b"])
  then have "sorted_wrt (<) (map (ahead (qp_id p)) (p # ps))" using a by (simp cong: map_cong)
  moreover have "\<forall>x\<in>set (p # ps). ahead (qp_id p) x \<le> MAX_BUFFER_PACKETS"
    using assms a by (fastforce simp: packets_ok_def)
  ultimately show ?thesis by (simp add: packets_ok_def)
qed

lemma ahead_next: "0 < ahead n p \<Longrightarrow> ahead (n + 1) p = ahead n p - 1"
  using ahead_diff [of 1 "qp_id p - n"] by (simp add: ahead_def algebra_simps)

lemma packets_ok_next:
  assumes "packets_ok n ps" "\<forall>p\<in>set ps. 0 < ahead n p"
  shows "packets_ok (n + 1) ps"
  using assms
proof (induction ps)
  case (Cons p ps)
  then show ?case using ahead_next by (force simp: packets_ok_Cons)
qed simp

text \<open>There are no more packets than identifiers up to the last one, so the count does not underflow.\<close>

lemma queue_counts: "packets_ok n ps \<Longrightarrow> ps \<noteq> [] \<Longrightarrow> length ps \<le> ahead n (last ps) + 1"
proof (induction ps rule: rev_induct)
  case (snoc p ps)
  show ?case
  proof (cases "ps = []")
    case False
    then have "ahead n (last ps) < ahead n p" "packets_ok n ps"
      using snoc.prems by (auto simp: packets_ok_def sorted_wrt_append)
    then show ?thesis using snoc.IH False by simp
  qed simp
qed simp

section \<open>Inserting\<close>

lemma insert_position_spec:
  assumes "packets_ok n ps" "unat (i - n) \<le> 50"
  shows "insert_position i ps = length (filter (\<lambda>p. ahead n p < unat (i - n)) ps)"
    "take (insert_position i ps) ps = filter (\<lambda>p. ahead n p < unat (i - n)) ps"
    "drop (insert_position i ps) ps = filter (\<lambda>p. \<not> ahead n p < unat (i - n)) ps"
proof -
  let ?L = "\<lambda>p. ahead n p < unat (i - n)"
  have "(qp_id p - i \<le> of_nat MAX_BUFFER_PACKETS) = (\<not> ?L p)" if "p \<in> set ps" for p
  proof -
    have "unat (qp_id p - n) \<le> 50" using assms(1) that by (auto simp: packets_ok_def ahead_def MAX_BUFFER_PACKETS_def)
    from not_before [OF this assms(2)] show ?thesis by (simp add: ahead_def not_less)
  qed
  then have "takeWhile (\<lambda>p. qp_id p - i \<le> of_nat MAX_BUFFER_PACKETS) (rev ps) = takeWhile (\<lambda>p. \<not> ?L p) (rev ps)"
    by (intro takeWhile_cong) auto
  moreover have rs: "sorted_wrt (\<lambda>a b. ahead n b < ahead n a) (rev ps)"
    using assms(1) by (simp add: packets_ok_def sorted_wrt_rev sorted_wrt_map)
  have "dropWhile (\<lambda>p. \<not> ?L p) (rev ps) = filter (\<lambda>p. \<not> \<not> ?L p) (rev ps)"
    by (rule dropWhile_sorted [OF rs]) auto
  moreover have "length (takeWhile (\<lambda>p. \<not> ?L p) (rev ps)) + length (dropWhile (\<lambda>p. \<not> ?L p) (rev ps)) = length ps"
    by (metis length_append length_rev takeWhile_dropWhile_id)
  ultimately show pos: "insert_position i ps = length (filter ?L ps)"
    by (simp add: insert_position_def rev_filter [symmetric])
  have "ps = filter ?L ps @ filter (\<lambda>p. \<not> ?L p) ps"
    using assms(1)
  proof (induction ps)
    case (Cons p ps)
    show ?case
    proof (cases "?L p")
      case False
      then have "\<forall>x\<in>set ps. \<not> ?L x" using Cons.prems by (fastforce simp: packets_ok_Cons)
      then have "filter ?L ps = []" "filter (\<lambda>p. \<not> ?L p) ps = ps" by (simp_all add: filter_empty_conv)
      then show ?thesis using False by simp
    qed (use Cons in \<open>simp add: packets_ok_Cons\<close>)
  qed simp
  then show "take (insert_position i ps) ps = filter ?L ps" "drop (insert_position i ps) ps = filter (\<lambda>p. \<not> ?L p) ps"
    unfolding pos by (metis append_eq_conv_conj)+
qed

lemma insert_ok:
  assumes "packets_ok n ps" "unat (qp_id x - n) \<le> 50"
    "\<not> (insert_position (qp_id x) ps < length ps \<and> qp_id (ps ! insert_position (qp_id x) ps) = qp_id x)"
  shows "packets_ok n (take (insert_position (qp_id x) ps) ps @ [x] @ drop (insert_position (qp_id x) ps) ps)"
proof -
  let ?L = "\<lambda>p. ahead n p < ahead n x"
  have x: "unat (qp_id x - n) = ahead n x" by (simp add: ahead_def)
  note pos = insert_position_spec [OF assms(1,2), unfolded x]
  have sub: "sorted_wrt (<) (map (ahead n) (filter P ps))" for P
    using assms(1) by (auto simp: packets_ok_def sorted_wrt_map intro: sorted_wrt_filter)
  have "ahead n x \<noteq> ahead n p" if "p \<in> set (filter (\<lambda>p. \<not> ?L p) ps)" for p
  proof
    assume eq: "ahead n x = ahead n p"
    let ?k = "insert_position (qp_id x) ps"
    have ne: "drop ?k ps \<noteq> []" unfolding pos(3) using that by (metis empty_iff list.set(1))
    then have hd: "hd (drop ?k ps) = ps ! ?k" "?k < length ps" by (simp_all add: hd_drop_conv_nth)
    have "hd (drop ?k ps) \<in> set (filter (\<lambda>p. \<not> ?L p) ps)" using ne pos(3) by (metis hd_in_set)
    moreover have "ahead n (hd (drop ?k ps)) \<le> ahead n p"
      using that sub [of "\<lambda>p. \<not> ?L p"] ne unfolding pos(3) by (cases "filter (\<lambda>p. \<not> ?L p) ps") auto
    ultimately have "ahead n (ps ! ?k) = ahead n x" using eq hd(1) by auto
    then have "qp_id (ps ! ?k) - n = qp_id x - n" unfolding ahead_def by (rule word_unat_eq_iff [THEN iffD2])
    then have "qp_id (ps ! ?k) = qp_id x" by simp
    then show False using assms(3) hd(2) by simp
  qed
  then have "sorted_wrt (<) (map (ahead n) (filter ?L ps @ [x] @ filter (\<lambda>p. \<not> ?L p) ps))"
    using sub by (auto simp: sorted_wrt_append not_less le_less)
  moreover have "\<forall>p\<in>set (filter ?L ps @ [x] @ filter (\<lambda>p. \<not> ?L p) ps). ahead n p \<le> MAX_BUFFER_PACKETS"
    using assms(1,2) unfolding packets_ok_def x by (auto simp: MAX_BUFFER_PACKETS_def)
  ultimately show ?thesis unfolding packets_ok_def pos(2,3) by blast
qed

section \<open>The invariant\<close>

text \<open>
  Packets are in order and not too far ahead, packets that end the stream count no samples, the sum of the
  samples is right, and both windows hold the same sizes, one at least.
\<close>

definition packets_counted :: "u16 \<Rightarrow> nat \<Rightarrow> queue_packet list \<Rightarrow> bool" where
  "packets_counted n k ps \<longleftrightarrow> packets_ok n ps \<and> k = sum_list (map qp_samples ps)
     \<and> (\<forall>p\<in>set ps. length (audio_bytes (qp_data p)) \<le> 1 \<longrightarrow> qp_samples p = 0)"

definition windows_agree :: "u8 window \<Rightarrow> u8 reversed window \<Rightarrow> bool" where
  "windows_agree a b \<longleftrightarrow> win_size a = LAST_BUFFER_SIZE_COUNT \<and> win_size b = LAST_BUFFER_SIZE_COUNT
     \<and> (\<exists>vs. vs \<noteq> [] \<and> window_holds vs a \<and> window_holds (map Reverse vs) b)"

definition queue_ok :: "'d audio_queue \<Rightarrow> bool" where
  "queue_ok q \<longleftrightarrow> packets_counted (aq_next_id q) (aq_packet_samples q) (aq_packets q)
     \<and> windows_agree (aq_size_min q) (aq_size_max q)"

lemma windows_agree_push:
  assumes "windows_agree a b"
  shows "windows_agree (window_push v a) (window_push (Reverse v) b)"
proof -
  obtain vs where "window_holds vs a" "window_holds (map Reverse vs) b"
    using assms by (auto simp: windows_agree_def)
  moreover have "win_size a = 255" "win_size b = 255"
    using assms by (simp_all add: windows_agree_def LAST_BUFFER_SIZE_COUNT_def)
  ultimately have "window_holds (v # vs) (window_push v a)" "window_holds (map Reverse (v # vs)) (window_push (Reverse v) b)"
      "win_size a = 255" "win_size b = 255"
    by (simp_all add: window_push_holds)
  then show ?thesis unfolding windows_agree_def LAST_BUFFER_SIZE_COUNT_def window_size_push by blast
qed

lemma windows_agree_start:
  "windows_agree (window_push v (window_new LAST_BUFFER_SIZE_COUNT)) (window_push (Reverse v) (window_new LAST_BUFFER_SIZE_COUNT))"
proof -
  have "0 < win_size (window_new 255 :: u8 window)" "0 < win_size (window_new 255 :: u8 reversed window)"
    by (simp_all add: window_new_def)
  then have "window_holds [v] (window_push v (window_new 255))"
      "window_holds (map Reverse [v]) (window_push (Reverse v) (window_new 255))"
    by (simp_all add: window_push_holds window_new_holds)
  then show ?thesis unfolding windows_agree_def LAST_BUFFER_SIZE_COUNT_def window_size_push
    by (metis list.distinct(1) window_new_def window.select_convs(1))
qed

lemma windows_agree_order:
  assumes "windows_agree a b"
  shows "get_min a \<le> unreverse (get_min b)"
proof -
  obtain vs where vs: "vs \<noteq> []" "window_holds vs a" "window_holds (map Reverse vs) b"
    using assms by (auto simp: windows_agree_def)
  have n: "win_size a = 255" "win_size b = 255"
    using assms by (simp_all add: windows_agree_def LAST_BUFFER_SIZE_COUNT_def)
  have a: "get_min a = Min (set (take 255 vs))" using window_min [OF vs(2)] vs(1) n by simp
  have b: "get_min b = Min (set (take 255 (map Reverse vs)))" using window_min [OF vs(3)] vs(1) n by simp
  have "set (take 255 (map Reverse vs)) \<noteq> {}" using vs(1) by simp
  then have "get_min b \<in> set (take 255 (map Reverse vs))" unfolding b by (intro Min_in) simp_all
  then have "unreverse (get_min b) \<in> set (take 255 vs)" by (auto simp: take_map)
  then show ?thesis unfolding a by (intro Min_le) simp_all
qed

lemma add_buffer_size_simps [simp]:
  "aq_packets (add_buffer_size n q) = aq_packets q" "aq_next_id (add_buffer_size n q) = aq_next_id q"
  "aq_packet_samples (add_buffer_size n q) = aq_packet_samples q" "aq_pos (add_buffer_size n q) = aq_pos q"
  "aq_decoded (add_buffer_size n q) = aq_decoded q" "aq_last_samples (add_buffer_size n q) = aq_last_samples q"
  by (simp_all add: add_buffer_size_def Let_def)

lemma add_buffer_size_windows:
  "windows_agree (aq_size_min q) (aq_size_max q)
    \<Longrightarrow> windows_agree (aq_size_min (add_buffer_size n q)) (aq_size_max (add_buffer_size n q))"
  by (simp add: add_buffer_size_def Let_def windows_agree_push)

section \<open>Operations keep it\<close>

lemma packets_counted_insert:
  assumes "packets_counted n k ps" "unat (qp_id x - n) \<le> 50"
    "\<not> (insert_position (qp_id x) ps < length ps \<and> qp_id (ps ! insert_position (qp_id x) ps) = qp_id x)"
    "length (audio_bytes (qp_data x)) \<le> 1 \<longrightarrow> qp_samples x = 0"
  shows "packets_counted n (k + qp_samples x)
    (take (insert_position (qp_id x) ps) ps @ [x] @ drop (insert_position (qp_id x) ps) ps)"
proof -
  let ?k = "insert_position (qp_id x) ps"
  have "sum_list (map qp_samples ps) = sum_list (map qp_samples (take ?k ps)) + sum_list (map qp_samples (drop ?k ps))"
    by (metis append_take_drop_id map_append sum_list_append)
  then show ?thesis
    using insert_ok [OF _ assms(2,3)] assms(1,4)
    by (auto simp: packets_counted_def dest: in_set_takeD in_set_dropD)
qed

lemma packet_samples_end: "packet_samples lib data = Inr n \<Longrightarrow> length data \<le> 1 \<longrightarrow> n = 0"
  by (auto simp: packet_samples_def)

lemma add_packet_ok:
  assumes "queue_ok q" "add_packet lib data q = (r, q')"
  shows "queue_ok q'"
proof (cases "q' = q")
  case False
  then obtain n where n: "packet_samples lib (audio_bytes data) = Inr n"
    using assms(2) by (auto simp: add_packet_def split: if_splits sum.splits)
  let ?x = "\<lparr>qp_data = data, qp_samples = n, qp_id = audio_id data\<rparr>"
  let ?k = "insert_position (qp_id ?x) (aq_packets q)"
  have le: "\<not> of_nat MAX_BUFFER_PACKETS < audio_id data - aq_next_id q"
    and dup: "\<not> (?k < length (aq_packets q) \<and> qp_id (aq_packets q ! ?k) = qp_id ?x)"
    using assms(2) False n by (auto simp: add_packet_def Let_def split: if_splits)
  have q': "q' = q\<lparr>aq_buffering := less_buffering (audio_id data) n q, aq_packet_samples := aq_packet_samples q + n,
      aq_packets := take ?k (aq_packets q) @ [?x] @ drop ?k (aq_packets q)\<rparr>"
    using assms(2) False n by (auto simp: add_packet_def Let_def split: if_splits)
  have "unat (qp_id ?x - aq_next_id q) \<le> 50" using le by (simp add: MAX_BUFFER_PACKETS_def word_less_nat_alt)
  from packets_counted_insert [OF _ this dup] show ?thesis
    using assms(1) packet_samples_end [OF n] by (simp add: queue_ok_def q')
qed (use assms in simp)

lemma packets_counted_simps [simp]: "packets_counted n 0 []"
  by (simp add: packets_counted_def)

lemma audio_queue_new_ok:
  assumes "audio_queue_new lib data = Inr q"
  shows "queue_ok q"
proof -
  obtain q0 r where q0: "add_packet lib data (add_buffer_size 0 q0) = (r, q)"
    "aq_packets q0 = []" "aq_packet_samples q0 = 0"
    "aq_size_min q0 = window_new LAST_BUFFER_SIZE_COUNT" "aq_size_max q0 = window_new LAST_BUFFER_SIZE_COUNT"
    using assms by (auto simp: audio_queue_new_def Let_def split: option.splits if_splits prod.splits sum.splits)
  have "queue_ok (add_buffer_size 0 q0)"
    using windows_agree_start [of 0] by (simp add: queue_ok_def add_buffer_size_def Let_def q0)
  then show ?thesis using q0(1) by (rule add_packet_ok)
qed

lemma decode_packet_ok:
  assumes "queue_ok q" "queue_decode_packet lib p fec q = (r, q')"
  shows "queue_ok q'" "aq_packets q' = aq_packets q" "aq_next_id q' = aq_next_id q"
    "aq_packet_samples q' = aq_packet_samples q"
  using assms
  by (auto simp: queue_decode_packet_def queue_ok_def Let_def add_buffer_size_windows split: if_splits option.splits prod.splits)

lemma packets_counted_Cons:
  "packets_counted n k (p # ps) \<longleftrightarrow> packets_ok n (p # ps) \<and> qp_samples p \<le> k
     \<and> packets_counted n (k - qp_samples p) ps \<and> (length (audio_bytes (qp_data p)) \<le> 1 \<longrightarrow> qp_samples p = 0)"
  by (auto simp: packets_counted_def packets_ok_Cons)

text \<open>A first packet that is not the next one stays in order when the next one is given up.\<close>

lemma packets_ok_lost:
  assumes "packets_ok n (p # ps)" "qp_id p \<noteq> n"
  shows "packets_ok (n + 1) (p # ps)"
proof (rule packets_ok_next [OF assms(1)])
  have "qp_id p - n \<noteq> 0" using assms(2) by simp
  then have "0 < ahead n p" by (simp add: ahead_def unat_gt_0)
  then show "\<forall>x\<in>set (p # ps). 0 < ahead n x" using assms(1) by (auto simp: packets_ok_Cons)
qed

lemma packets_counted_rest:
  assumes "packets_counted n k (p # ps)"
  shows "packets_counted (n + 1) (k - qp_samples p) ps"
proof -
  have "packets_ok n ps" "\<forall>x\<in>set ps. 0 < ahead n x"
    using assms by (fastforce simp: packets_counted_Cons packets_ok_Cons)+
  then show ?thesis using assms packets_ok_next by (auto simp: packets_counted_def)
qed

lemma decode_next_ok:
  assumes "queue_ok q" "decode_next lib q = (r, q')"
  shows "queue_ok q'"
proof (cases "aq_packets q")
  case Nil
  then show ?thesis using assms decode_packet_ok(1) [OF assms(1)]
    by (auto simp: decode_next_def split: prod.splits option.splits)
next
  case (Cons p ps)
  have c: "packets_counted (aq_next_id q) (aq_packet_samples q) (p # ps)" using assms(1) Cons by (simp add: queue_ok_def)
  show ?thesis
  proof (cases "length (audio_bytes (qp_data p)) \<le> 1")
    case True
    have "q' = q\<lparr>aq_packets := ps\<rparr>" using assms(2) Cons True by (simp add: decode_next_def Let_def)
    then show ?thesis using assms(1) c True by (auto simp: queue_ok_def packets_counted_Cons)
  next
    case False
    define q1 where "q1 = q\<lparr>aq_packets := ps, aq_packet_samples := aq_packet_samples q - qp_samples p,
      aq_next_id := aq_next_id q + 1\<rparr>"
    have le: "\<not> aq_packet_samples q < qp_samples p" using c by (simp add: packets_counted_Cons)
    have ok: "queue_ok q1" using assms(1) packets_counted_rest [OF c] by (simp add: queue_ok_def q1_def)
    show ?thesis
    proof (cases "qp_id p = aq_next_id q")
      case True
      then have "\<exists>e. queue_decode_packet lib (Some p) False q1 = (e, q')"
        using assms(2) Cons False le by (auto simp: decode_next_def Let_def q1_def split: prod.splits option.splits)
      then show ?thesis using decode_packet_ok(1) [OF ok] by blast
    next
      case lost: False
      obtain e q2 where d: "(if qp_id p = aq_next_id q1 then queue_decode_packet lib (Some p) True q1
          else queue_decode_packet lib None False q1) = (e, q2)" by fastforce
      then obtain x fec where "queue_decode_packet lib x fec q1 = (e, q2)" by metis
      note same = decode_packet_ok [OF ok this]
      then have q2: "queue_ok q2" "aq_packets q2 = ps" "aq_next_id q2 = aq_next_id q + 1"
          "aq_packet_samples q2 = aq_packet_samples q - qp_samples p"
        by (simp_all add: q1_def)
      have "q' = (case e of Some _ \<Rightarrow> q2 | None \<Rightarrow> q2\<lparr>aq_packet_samples := aq_packet_samples q2 + qp_samples p,
          aq_packets := p # aq_packets q2\<rparr>)"
        using assms(2) Cons False le lost d
        by (auto simp: decode_next_def Let_def q1_def split: prod.splits option.splits if_splits)
      moreover have "packets_counted (aq_next_id q + 1) (aq_packet_samples q - qp_samples p + qp_samples p) (p # ps)"
        using q2(1) c packets_ok_lost [OF _ lost] unfolding queue_ok_def q2 by (simp add: packets_counted_Cons)
      ultimately show ?thesis using q2 by (cases e) (auto simp: queue_ok_def)
    qed
  qed
qed

lemma truncate_packets_ok:
  assumes "queue_ok q"
  shows "queue_ok (truncate_packets least q)"
proof -
  define k where "k = length (aq_packets q) - keep_count (unat least + USUAL_FRAME_SIZE) 0 (rev (aq_packets q))"
  have d: "packets_ok (aq_next_id q) (drop k (aq_packets q))"
    using assms packets_ok_drop by (simp add: queue_ok_def packets_counted_def)
  have "packets_ok (case drop k (aq_packets q) of [] \<Rightarrow> aq_next_id q | p # _ \<Rightarrow> qp_id p) (drop k (aq_packets q))"
  proof (cases "drop k (aq_packets q)")
    case (Cons p ps)
    then show ?thesis using d packets_ok_rebase by simp
  qed simp
  moreover have "\<forall>p\<in>set (drop k (aq_packets q)). length (audio_bytes (qp_data p)) \<le> 1 \<longrightarrow> qp_samples p = 0"
    using assms by (auto simp: queue_ok_def packets_counted_def dest: in_set_dropD)
  ultimately show ?thesis
    using assms unfolding truncate_packets_def Let_def k_def [symmetric] by (simp add: queue_ok_def packets_counted_def)
qed

lemma adapt_speed_ok:
  assumes "queue_ok q" "adapt_speed q = Some q'"
  shows "queue_ok q'"
  using assms truncate_packets_ok [OF assms(1)]
  by (auto simp: adapt_speed_def speed_up_def Let_def queue_ok_def split: if_splits option.splits)

lemma fetch_loop_ok:
  "queue_ok q \<Longrightarrow> fetch_loop fuel lib n q = Some (r, q') \<Longrightarrow> queue_ok q'"
proof (induction fuel arbitrary: q)
  case 0
  then show ?case by (auto simp: fetch_loop.simps split: if_splits)
next
  case (Suc fuel)
  obtain r1 q1 where d: "decode_next lib q = (r1, q1)" by fastforce
  have q1: "queue_ok q1" using Suc.prems(1) d by (rule decode_next_ok)
  then have q2: "adapt_speed q1 = Some q2 \<Longrightarrow> queue_ok q2" for q2 by (rule adapt_speed_ok)
  show ?case
    using Suc.prems d q1 q2 Suc.IH
    by (auto simp: fetch_loop.simps [of "Suc fuel"] split: if_splits sum.splits bool.splits option.splits)
qed

lemma queue_ok_fields [simp]:
  "queue_ok (q\<lparr>aq_buffering := a\<rparr>) = queue_ok q" "queue_ok (q\<lparr>aq_buffered_for := a\<rparr>) = queue_ok q"
  "queue_ok (q\<lparr>aq_pos := a\<rparr>) = queue_ok q" "queue_ok (q\<lparr>aq_decoded := xs\<rparr>) = queue_ok q"
  "queue_ok (q\<lparr>aq_volume := v\<rparr>) = queue_ok q"
  by (simp_all add: queue_ok_def)

lemma get_next_data_ok:
  assumes "queue_ok q" "get_next_data lib n q = Some (r, q')"
  shows "queue_ok q'"
proof -
  have "queue_ok (drop_played q0)" if "queue_ok q0" for q0 :: "'a audio_queue"
    using that by (simp add: drop_played_def)
  then show ?thesis using assms
    by (auto simp: get_next_data_def Let_def split: if_splits option.splits prod.splits sum.splits bool.splits
        dest!: fetch_loop_ok [rotated])
qed

section \<open>No underflow\<close>

text \<open>
  Queues that can come up: created, volume and buffering set from outside, packets added and audio
  fetched, in any order, whatever the server sends and the decoder answers.
\<close>

inductive queue_reachable :: "'d opus_lib \<Rightarrow> 'd audio_queue \<Rightarrow> bool" for lib where
  reach_new: "audio_queue_new lib data = Inr q \<Longrightarrow> queue_reachable lib q"
| reach_buffering: "queue_reachable lib q \<Longrightarrow> queue_reachable lib (q\<lparr>aq_buffering := n\<rparr>)"
| reach_volume: "queue_reachable lib q \<Longrightarrow> queue_reachable lib (q\<lparr>aq_volume := v\<rparr>)"
| reach_add: "queue_reachable lib q \<Longrightarrow> queue_reachable lib (snd (add_packet lib data q))"
| reach_fetch: "queue_reachable lib q \<Longrightarrow> get_next_data lib n q = Some (r, q') \<Longrightarrow> queue_reachable lib q'"

lemma reachable_ok: "queue_reachable lib q \<Longrightarrow> queue_ok q"
  by (induction rule: queue_reachable.induct)
    (auto intro: audio_queue_new_ok add_packet_ok [OF _ surjective_pairing] get_next_data_ok)

lemma buffered_samples_ok: "packets_ok (aq_next_id q) (aq_packets q) \<Longrightarrow> buffered_samples q \<noteq> None"
  using queue_counts [of "aq_next_id q" "aq_packets q"]
  by (cases "aq_packets q = []") (auto simp: buffered_samples_def ahead_def Let_def)

lemma buffered_samples_fine: "packets_ok (aq_next_id q) (aq_packets q) \<Longrightarrow> (buffered_samples q = None) = False"
  using buffered_samples_ok by simp

lemma get_deviation_ok: "queue_ok q \<Longrightarrow> \<exists>d. get_deviation q = Some d"
  using windows_agree_order by (auto simp: get_deviation_def queue_ok_def Let_def not_less)

text \<open>
  When the position is at the start, as it is after what was played has been dropped, what is left of the
  last packet is overwritten by the next one: those samples are never played.
\<close>

lemma leftover_is_lost:
  assumes "aq_pos q = 0"
  shows "fst (queue_decode_packet lib p fec (q\<lparr>aq_decoded := xs\<rparr>)) = None
    \<Longrightarrow> queue_decode_packet lib p fec (q\<lparr>aq_decoded := xs\<rparr>) = queue_decode_packet lib p fec q"
  using assms
  by (auto simp: queue_decode_packet_def Let_def buffered_samples_def split: if_splits option.splits prod.splits)

section \<open>Fetching ends\<close>

text \<open>What a round without an error leaves: all is decoded, by \<open>n\<close> samples more than before.\<close>

lemma decode_packet_grows:
  assumes "queue_decode_packet lib p fec q = (None, q')"
  shows "aq_pos q' = aq_pos q + aq_last_samples q' * 2 \<and> length (aq_decoded q') = aq_pos q'"
  using assms
  by (auto simp: queue_decode_packet_def Let_def audio_constants resize_def min_def
      split: if_splits option.splits prod.splits)

lemma decode_next_grows:
  assumes "decode_next lib q = (Inr False, q')"
  shows "aq_pos q' = aq_pos q + aq_last_samples q' * 2 \<and> length (aq_decoded q') = aq_pos q'"
  using assms
  by (auto simp: decode_next_def Let_def split: list.splits if_splits option.splits prod.splits
      dest!: decode_packet_grows)

text \<open>Dropping every hundredth sample never reaches beyond the end.\<close>

lemma drain_loop_ok:
  assumes "length xs + k * 2 = start + n * 2" "k \<le> n div 100"
  shows "\<exists>ys. drain_loop start [k..<n div 100] xs = Some ys \<and> length ys + (n div 100) * 2 = start + n * 2"
  using assms
proof (induction "n div 100 - k" arbitrary: k xs)
  case (Suc d)
  then have k: "k < n div 100" by simp
  then have "start + k * 198 + 2 \<le> length xs" using Suc.prems by (simp add: less_eq_Suc_le)
  then have d: "drain_sample (start + k * (SPEED_CHANGE_STEPS - 1) * CHANNEL_NUM) xs
      = Some (take (start + k * 198) xs @ drop (start + k * 198 + 2) xs)" (is "_ = Some ?ys")
    by (simp add: drain_sample_def audio_constants ac_simps)
  have "length ?ys + Suc k * 2 = start + n * 2" using Suc.prems \<open>start + k * 198 + 2 \<le> length xs\<close> by simp
  moreover have "d = n div 100 - Suc k" "Suc k \<le> n div 100" using Suc.hyps(2) k by simp_all
  ultimately show ?case using Suc.hyps(1) [of "Suc k" ?ys] d k by (simp add: upt_conv_Cons)
qed simp

lemma speed_up_ok:
  assumes "length (aq_decoded q) = m + aq_last_samples q * 2"
  shows "\<exists>q'. speed_up q = Some q' \<and> aq_pos q' = aq_pos q \<and> m + aq_last_samples q \<le> length (aq_decoded q')"
proof -
  let ?n = "aq_last_samples q"
  obtain ys where "drain_loop m [0..<?n div 100] (aq_decoded q) = Some ys" "length ys + (?n div 100) * 2 = m + ?n * 2"
    using drain_loop_ok [of "aq_decoded q" 0 m ?n] assms by auto
  moreover from this(2) have "m + ?n \<le> length ys" by arith
  ultimately show ?thesis using assms by (simp add: speed_up_def audio_constants)
qed

lemma adapt_speed_grows:
  assumes "length (aq_decoded q) = m + aq_last_samples q * 2" "adapt_speed q = Some q'"
  shows "aq_pos q' = aq_pos q" "m + aq_last_samples q \<le> length (aq_decoded q')"
  using assms(2) speed_up_ok [OF assms(1)] assms(1)
  by (auto simp: adapt_speed_def truncate_packets_def Let_def split: if_splits option.splits)

lemma fetch_loop_ends:
  assumes "n < m + fuel" "m \<le> length (aq_decoded q)" "m \<le> aq_pos q"
  shows "fetch_loop fuel lib n q \<noteq> None"
  using assms
proof (induction fuel arbitrary: q m)
  case (Suc fuel)
  obtain r q1 where d: "decode_next lib q = (r, q1)" by fastforce
  have "fetch_loop fuel lib n q2 \<noteq> None"
    if "r = Inr False" "aq_last_samples q1 \<noteq> 0" "adapt_speed q1 = Some q2" for q2
  proof -
    note g = decode_next_grows [of lib q q1] adapt_speed_grows [of q1 "aq_pos q" q2, OF _ that(3)]
    have "Suc m \<le> length (aq_decoded q2)" "Suc m \<le> aq_pos q2" using g d that Suc.prems by auto
    then show ?thesis using Suc.IH [of "Suc m" q2] Suc.prems by simp
  qed
  then show ?case using d
    by (auto simp: fetch_loop.simps [of "Suc fuel"] split: sum.splits bool.splits option.splits)
qed (simp add: fetch_loop.simps)

lemma drop_played_start [simp]: "aq_pos (drop_played q) = 0"
  by (simp add: drop_played_def)

lemma get_next_data_ends: "\<exists>r q'. get_next_data lib n q = Some (r, q')"
proof -
  define q1 where "q1 = drop_played (if 0 < aq_buffering q then q\<lparr>aq_buffering := 0, aq_buffered_for := 0\<rparr> else q)"
  have "fetch_loop (fetch_fuel n) lib n q1 \<noteq> None"
    by (intro fetch_loop_ends [of _ 0]) (simp_all add: fetch_fuel_def q1_def)
  then obtain r q2 where "fetch_loop (fetch_fuel n) lib n q1 = Some (r, q2)" by auto
  then show ?thesis unfolding get_next_data_def Let_def q1_def [symmetric]
    by (simp split: sum.splits bool.splits)
qed

text \<open>
  Fetching audio returns: whatever was received, whatever the decoder answers, and however much is
  asked for, the loop ends within \<open>fetch_fuel\<close> rounds.
\<close>

theorem fetching_audio_ends: "\<exists>r q'. get_next_data lib n q = Some (r, q')"
  by (rule get_next_data_ends)

section \<open>Mixing does not panic\<close>

text \<open>\<open>libopus\<close>: a call that succeeds yields one sample for each channel at least.\<close>

definition yields_samples :: "'d opus_lib \<Rightarrow> bool" where
  "yields_samples lib \<longleftrightarrow> (\<forall>d p k fec xs d'. decode_float lib d p k fec = (Some xs, d') \<longrightarrow> CHANNEL_NUM \<le> length xs)"

lemma decode_packet_fine:
  assumes "queue_ok q"
  shows "queue_decode_packet lib p fec q \<noteq> (Some AudioPanic, q')"
proof -
  have "packets_ok (aq_next_id q) (aq_packets q)" using assms by (simp add: queue_ok_def packets_counted_def)
  then show ?thesis
    by (auto simp: queue_decode_packet_def Let_def buffered_samples_fine split: if_splits option.splits prod.splits)
qed

lemma decode_packet_yields:
  assumes "yields_samples lib" "queue_decode_packet lib p fec q = (None, q')"
  shows "0 < aq_last_samples q'"
  using assms
  by (fastforce simp: queue_decode_packet_def Let_def yields_samples_def audio_constants div_greater_zero_iff
      split: if_splits option.splits prod.splits)

lemma decode_next_yields:
  assumes "yields_samples lib" "decode_next lib q = (Inr False, q')"
  shows "0 < aq_last_samples q'"
  using assms(2) decode_packet_yields [OF assms(1)]
  by (auto simp: decode_next_def Let_def split: list.splits if_splits option.splits prod.splits)

text \<open>The state a packet is decoded in keeps the invariant, so no error of a round is a panic.\<close>

lemma decode_next_fine:
  assumes "queue_ok q" "decode_next lib q = (r, q')"
  shows "r \<noteq> Inl AudioPanic"
proof (cases "aq_packets q")
  case Nil
  then show ?thesis using assms(2) decode_packet_fine [OF assms(1)]
    by (auto simp: decode_next_def split: prod.splits option.splits)
next
  case (Cons p ps)
  then have c: "packets_counted (aq_next_id q) (aq_packet_samples q) (p # ps)" using assms(1) by (simp add: queue_ok_def)
  have le: "\<not> aq_packet_samples q < qp_samples p" using c by (simp add: packets_counted_Cons)
  have "queue_ok (q\<lparr>aq_packets := ps, aq_packet_samples := aq_packet_samples q - qp_samples p,
      aq_next_id := aq_next_id q + 1\<rparr>)"
    using assms(1) packets_counted_rest [OF c] by (simp add: queue_ok_def)
  note fine = decode_packet_fine [OF this]
  show ?thesis using assms(2) Cons le fine
    by (auto simp: decode_next_def Let_def split: prod.splits option.splits if_splits)
qed

lemma adapt_speed_fine:
  assumes "queue_ok q" "length (aq_decoded q) = m + aq_last_samples q * 2"
  shows "adapt_speed q \<noteq> None"
  using get_deviation_ok [OF assms(1)] speed_up_ok [OF assms(2)] by (auto simp: adapt_speed_def Let_def)

text \<open>What the loop returns fits what was asked for.\<close>

definition fetched_ok :: "nat \<Rightarrow> audio_error + bool \<Rightarrow> 'd audio_queue \<Rightarrow> bool" where
  "fetched_ok n r q \<longleftrightarrow> (case r of Inl e \<Rightarrow> e \<noteq> AudioPanic
     | Inr True \<Rightarrow> length (aq_decoded q) < n | Inr False \<Rightarrow> n \<le> length (aq_decoded q))"

lemma fetch_loop_fine:
  assumes "yields_samples lib"
  shows "queue_ok q \<Longrightarrow> fetch_loop fuel lib n q = Some (r, q') \<Longrightarrow> fetched_ok n r q'"
proof (induction fuel arbitrary: q)
  case 0
  then show ?case by (auto simp: fetch_loop.simps fetched_ok_def split: if_splits)
next
  case (Suc fuel)
  obtain r1 q1 where d: "decode_next lib q = (r1, q1)" by fastforce
  have ok: "queue_ok q1" using Suc.prems(1) d by (rule decode_next_ok)
  show ?case
  proof (cases "r1 = Inr False \<and> \<not> n \<le> length (aq_decoded q)")
    case True
    then have g: "length (aq_decoded q1) = aq_pos q + aq_last_samples q1 * 2" "aq_last_samples q1 \<noteq> 0"
      using decode_next_grows [of lib q q1] decode_next_yields [OF assms, of q q1] d by auto
    obtain q2 where q2: "adapt_speed q1 = Some q2" using adapt_speed_fine [OF ok g(1)] by auto
    have "fetch_loop fuel lib n q2 = Some (r, q')"
      using Suc.prems(2) d True g(2) q2 by (simp add: fetch_loop.simps [of "Suc fuel"])
    then show ?thesis using Suc.IH adapt_speed_ok [OF ok q2] by simp
  next
    case False
    moreover have "aq_decoded q1 = aq_decoded q" if "r1 = Inr True"
      using d that by (auto simp: decode_next_def Let_def split: list.splits if_splits prod.splits option.splits)
    ultimately show ?thesis using Suc.prems d decode_next_fine [OF Suc.prems(1) d]
      by (auto simp: fetch_loop.simps [of "Suc fuel"] fetched_ok_def split: if_splits sum.splits bool.splits)
  qed
qed

lemma get_next_data_fine:
  assumes "yields_samples lib" "queue_ok q" "get_next_data lib n q = Some (r, q')"
  shows "case r of Inl e \<Rightarrow> e \<noteq> AudioPanic | Inr (xs, is_end) \<Rightarrow> length xs \<le> n"
proof -
  define q1 where "q1 = drop_played (if 0 < aq_buffering q then q\<lparr>aq_buffering := 0, aq_buffered_for := 0\<rparr> else q)"
  have "queue_ok q1" using assms(2) by (simp add: q1_def drop_played_def)
  then have "fetched_ok n r2 q2" if "fetch_loop (fetch_fuel n) lib n q1 = Some (r2, q2)" for r2 q2
    using fetch_loop_fine [OF assms(1)] that by blast
  then show ?thesis using assms(3) unfolding get_next_data_def Let_def q1_def [symmetric]
    by (fastforce simp: fetched_ok_def split: if_splits option.splits prod.splits sum.splits bool.splits)
qed

lemma fill_from_fine:
  assumes "yields_samples lib" "queue_ok q"
  shows "\<exists>q' buf' remove called. fill_from lib buf q = Some (q', buf', remove, called) \<and> queue_ok q' \<and> length buf' = length buf"
proof (cases "MAX_PACKET_LOSSES \<le> aq_losses q")
  case False
  obtain r q1 where g: "get_next_data lib (length buf) q = Some (r, q1)" using get_next_data_ends by blast
  note get_next_data_fine [OF assms g] get_next_data_ok [OF assms(2) g]
  then show ?thesis using False g by (cases r) (auto simp: fill_from_def mix_into_def split: prod.splits)
qed (use assms in \<open>auto simp: fill_from_def\<close>)

lemma fill_queues_fine:
  assumes "yields_samples lib"
  shows "\<forall>e\<in>set qs. queue_ok (snd e) \<Longrightarrow> \<exists>qs' buf' out calls. fill_queues lib qs buf = Some (qs', buf', out, calls)
    \<and> map fst qs' = map fst qs \<and> (\<forall>e\<in>set qs'. queue_ok (snd e)) \<and> length buf' = length buf"
proof (induction qs arbitrary: buf)
  case (Cons e qs)
  obtain i q where e: "e = (i, q)" by fastforce
  then obtain q1 buf1 remove called where f: "fill_from lib buf q = Some (q1, buf1, remove, called)"
      "queue_ok q1" "length buf1 = length buf"
    using fill_from_fine [OF assms] Cons.prems by fastforce
  from Cons.IH [of buf1] Cons.prems obtain qs' buf' out calls where
      "fill_queues lib qs buf1 = Some (qs', buf', out, calls)" "map fst qs' = map fst qs"
      "\<forall>e\<in>set qs'. queue_ok (snd e)" "length buf' = length buf1"
    by auto
  then show ?case using e f by simp
qed simp

text \<open>
  All queues: created, reset, packets handled and buffers filled in any order. \<open>get_mut_queues\<close> gives out
  the queues, whose only public field is the volume.
\<close>

inductive audio_reachable :: "'d opus_lib \<Rightarrow> ('i, 'd) audio_handler \<Rightarrow> bool" for lib where
  audio_start: "audio_reachable lib audio_handler_new"
| audio_resets: "audio_reachable lib h \<Longrightarrow> audio_reachable lib (audio_reset h)"
| audio_volume: "audio_reachable lib h \<Longrightarrow> tget (ah_queues h) i = Some q
    \<Longrightarrow> audio_reachable lib (h\<lparr>ah_queues := tput i (q\<lparr>aq_volume := v\<rparr>) (ah_queues h)\<rparr>)"
| audio_handles: "audio_reachable lib h \<Longrightarrow> audio_reachable lib (snd (handle_packet lib i data h))"
| audio_fills: "audio_reachable lib h \<Longrightarrow> fill_buffer lib buf h = Some (r, h') \<Longrightarrow> audio_reachable lib h'"

definition queues_ok :: "('i, 'd) audio_handler \<Rightarrow> bool" where
  "queues_ok h \<longleftrightarrow> (\<forall>e\<in>set (ah_queues h). queue_ok (snd e))"

lemma set_tput: "set (tput k v t) \<subseteq> insert (k, v) (set t)"
  by (induction t) auto

lemma set_fold_tdel: "set (fold tdel ks t) \<subseteq> set t"
proof (induction ks arbitrary: t)
  case (Cons k ks)
  then show ?case by (fastforce simp: AList.delete_eq)
qed simp

lemma queues_ok_put: "queues_ok h \<Longrightarrow> queue_ok q \<Longrightarrow> queues_ok (h\<lparr>ah_queues := tput i q (ah_queues h)\<rparr>)"
  using set_tput [of i q "ah_queues h"] by (fastforce simp: queues_ok_def)

lemma queues_ok_get: "queues_ok h \<Longrightarrow> tget (ah_queues h) i = Some q \<Longrightarrow> queue_ok q"
  by (auto simp: queues_ok_def dest!: map_of_SomeD)

lemma queues_ok_average [simp]: "queues_ok (h\<lparr>ah_avg := n\<rparr>) = queues_ok h"
  by (simp add: queues_ok_def)

lemma queues_ok_fill:
  assumes "yields_samples lib" "queues_ok h"
  shows "\<exists>r buf' h'. fill_buffer lib buf h = Some ((r, buf'), h') \<and> queues_ok h' \<and> length buf' = length buf"
proof -
  obtain qs buf' out calls where f: "fill_queues lib (ah_queues h) buf = Some (qs, buf', out, calls)"
      "\<forall>e\<in>set qs. queue_ok (snd e)" "length buf' = length buf"
    using fill_queues_fine [OF assms(1)] assms(2) unfolding queues_ok_def by metis
  then show ?thesis using set_fold_tdel [of out qs]
    by (auto simp: fill_buffer_def fill_buffer_with_proc_def queues_ok_def)
qed

lemma handle_packet_ok:
  assumes "queues_ok h"
  shows "queues_ok (snd (handle_packet lib i data h))"
proof (cases "tget (ah_queues h) i")
  case None
  then show ?thesis using assms
    by (auto simp: handle_packet_def Let_def queues_ok_def split: sum.splits
        dest!: set_tput [THEN subsetD] dest: audio_queue_new_ok)
next
  case (Some q)
  obtain r q' where a: "add_packet lib data q = (r, q')" by fastforce
  have "queue_ok q'" using queues_ok_get [OF assms Some] a by (rule add_packet_ok)
  then show ?thesis using assms Some a by (auto simp: handle_packet_def split: sum.splits intro: queues_ok_put)
qed

lemma audio_reachable_ok:
  assumes "yields_samples lib"
  shows "audio_reachable lib h \<Longrightarrow> queues_ok h"
proof (induction rule: audio_reachable.induct)
  case (audio_fills h buf r h')
  then show ?case using queues_ok_fill [OF assms, of h buf] by auto
qed (auto simp: handle_packet_ok queues_ok_put queues_ok_get audio_handler_new_def audio_reset_def queues_ok_def [of "_\<lparr>ah_queues := []\<rparr>"]
    queues_ok_def [of "\<lparr>ah_queues = [], ah_avg = 0\<rparr>"])


text \<open>C26. The counters of a queue agree with its packets: the samples are the sum over the packets, the
  identifiers are ordered and at most 50 ahead of the next one, so that there are no more packets than
  identifiers, and the least buffer size of the window is not above the greatest.
\<close>

theorem audio_queue_invariant:
  assumes "queue_reachable lib q"
  shows "aq_packet_samples q = sum_list (map qp_samples (aq_packets q))
    \<and> sorted_wrt (<) (map (\<lambda>p. unat (qp_id p - aq_next_id q)) (aq_packets q))
    \<and> (\<forall>p\<in>set (aq_packets q). unat (qp_id p - aq_next_id q) \<le> 50)
    \<and> length (aq_packets q) \<le> 51
    \<and> get_min (aq_size_min q) \<le> unreverse (get_min (aq_size_max q))"
proof -
  have ok: "packets_counted (aq_next_id q) (aq_packet_samples q) (aq_packets q)"
      "windows_agree (aq_size_min q) (aq_size_max q)"
    using reachable_ok [OF assms] by (simp_all add: queue_ok_def)
  have p: "packets_ok (aq_next_id q) (aq_packets q)" using ok(1) by (simp add: packets_counted_def)
  have "length (aq_packets q) \<le> 51"
  proof (cases "aq_packets q = []")
    case False
    then have "ahead (aq_next_id q) (last (aq_packets q)) \<le> 50" using p by (simp add: packets_ok_def MAX_BUFFER_PACKETS_def)
    then show ?thesis using queue_counts [OF p False] by simp
  qed simp
  then show ?thesis using ok(1) p windows_agree_order [OF ok(2)]
    by (simp add: packets_counted_def packets_ok_def ahead_def [abs_def] MAX_BUFFER_PACKETS_def)
qed

text \<open>A decoder with two samples for each packet.\<close>

definition sample_opus :: "unit opus_lib" where
  "sample_opus = \<lparr>nb_samples = \<lambda>_. Some 2, new_decoder = Some (), decode_float = \<lambda>_ _ _ _. (Some [Fin 1, Fin 1, Fin 0, Fin 0], ())\<rparr>"

definition sample_audio :: "u16 \<Rightarrow> audio_data" where
  "sample_audio i = AudioS2C i 7 OpusVoice [1, 2, 3]"

lemma sample_yields: "yields_samples sample_opus"
  by (simp add: yields_samples_def sample_opus_def CHANNEL_NUM_def)


theorem audio_queue_invariant_witness:
  "\<exists>q. audio_queue_new sample_opus (sample_audio 65535) = Inr q \<and> aq_packet_samples q = 2 \<and> length (aq_packets q) \<le> 51"
proof -
  obtain q where q: "audio_queue_new sample_opus (sample_audio 65535) = Inr q" "map qp_samples (aq_packets q) = [2]"
    by (simp add: audio_queue_new_def sample_opus_def sample_audio_def as_opus_def audio_constants Let_def
        add_packet_def add_buffer_size_def packet_samples_def insert_position_def)
  then show ?thesis using audio_queue_invariant [OF reach_new [OF q(1)]] by auto
qed

end
