(* ===== verification/Spec2Isabelle.thy ===== *)
theory Spec2Isabelle
  imports ChannelOrder LibraryFacts ResolveFacts Sync ConnectErrors Redact FileRequests Interface Isolation Transfers Delivery CommandSyntax Receiver Retransmit LicenseChain
    ConnectFacts ClientFacts KeyFacts AudioQueueFacts
begin

text \<open>
  A verification library for the Rust code of a TeamSpeak client: the native engine
  (\<open>src/native/src\<close>) and the protocol library it is built on (\<open>src/native/local_tsclientlib\<close>).

  \<^bold>\<open>The program.\<close> The user interface calls exported functions (\<open>ts_connect\<close>, \<open>ts_kick_client\<close>, ...). They change
  the global state of the engine, and most of them queue a command for the session they name. A session is a
  task: its event loop releases queued commands as far as a token bucket allows, turns them into messages of the
  client library, reads what the library yields, sends recorded voice and reports events. Received voice goes
  through decoders and jitter buffers to the callback of the sound card. Below the client library, the protocol
  connects with a handshake, splits, compresses, numbers and encrypts packets, resends them until they are
  acknowledged, and puts incoming commands in order.

  \<^bold>\<open>Shared theories.\<close>
  \<^item> \<open>Prelude\<close>: machine integers, strings, tables for hash maps, the generic lemmas; \<open>Utf8\<close>, \<open>Base64\<close> and \<open>IpAddr\<close>:
    texts; \<open>F32\<close> and \<open>Sqrt\<close>: single precision arithmetic, rounding to even.

  \<^bold>\<open>The engine\<close>, \<open>native/src/lib.rs\<close> and \<open>native/src/api.rs\<close>.
  \<^item> \<open>Commands\<close> (the command type), \<open>Budget\<close> (\<open>CommandBudget\<close>: well-formedness, rate bound, liveness), \<open>Messages\<close> and
    \<open>State\<close> (messages, events and the engine's statics as one record).
  \<^item> \<open>Requests\<close>, \<open>FileRequests\<close>, \<open>Whisper\<close>, \<open>Interface\<close>: the exported functions; \<open>Redact\<close>: what the log leaves out;
    \<open>ConnectErrors\<close>: the classification of failures.
  \<^item> \<open>Dispatch\<close>, \<open>Control\<close>, \<open>Voice\<close>, \<open>Jitter\<close>, \<open>Roster\<close>, \<open>Lifecycle\<close>: what the event loop does with a command, with an
    incoming item, with recorded and received voice, with the book of a server, and how a session starts and ends.
  \<^item> \<open>EventLoop\<close> puts them together, one turn at a time. \<open>Delivery\<close> follows a request to the message it becomes,
    the locale \<open>session_contract\<close> of \<open>SessionContract\<close> carries a relation that a few primitive updates satisfy
    through every step of a turn. \<open>Isolation\<close> uses it to show that sessions do not touch each other, \<open>Transfers\<close>,
    which also models the tasks that move files, to show that downloads stay within what was asked for.

  \<^bold>\<open>The protocol\<close>, \<open>utils/tsproto-packets\<close>, \<open>utils/tsproto-types\<close> and \<open>tsproto\<close>.
  \<^item> \<open>Packets\<close>, \<open>AudioPackets\<close>, \<open>CommandSyntax\<close>: headers, voice packets, the text of commands, each with its writer, its
    parser and their round trip; accepted packets make no accessor panic.
  \<^item> \<open>Crypto\<close> and \<open>Codec\<close> (\<open>algorithms.rs\<close>, \<open>packet_codec.rs\<close>): \<open>Transport\<close> and \<open>Receiver\<close> show that a command survives
    compression, splitting, encryption and reassembly; \<open>Ordering\<close> that commands are assembled in order whatever order
    the datagrams come in, with identifiers that wrap.
  \<^item> \<open>ProtoState\<close>, \<open>Resend\<close>, \<open>ProtoConnection\<close> (\<open>connection.rs\<close>, \<open>resend.rs\<close>): \<open>Retransmit\<close> shows that the resender
    implements a map of packets waiting for acknowledgements, that its loop ends, and what it leaves unsent.
  \<^item> \<open>License\<close> and \<open>LicenseChain\<close> (\<open>license.rs\<close>): the chain of license blocks, its nested times, its keys.
  \<^item> \<open>Keys\<close> and \<open>KeyFacts\<close> (\<open>crypto.rs\<close>, \<open>Identity\<close> of \<open>lib.rs\<close>): the encodings of keys, their import, identities.
  \<^item> \<open>Handshake\<close> and \<open>Connect\<close> (\<open>client.rs\<close>): the client. \<open>SessionKeys\<close> and \<open>ClientFacts\<close> show that it refines a small state
    machine of the session, \<open>ConnectFacts\<close> that its keys come from a licensed server and that an honest server computes
    the same ones.

  \<^bold>\<open>The book of a server\<close>, \<open>utils/ts-bookkeeping\<close>.
  \<^item> \<open>Book\<close> (\<open>data.rs\<close>, \<open>events.rs\<close>): the functions that are written by hand, for messages, limits, types, subscriptions
    and names; limits and types written by one side are read back. \<open>ChannelOrder\<close>: the order of channels is a linked
    list below each parent, and the messages about channels are insertions and removals in it.

  \<^bold>\<open>The client library\<close>, \<open>tsclientlib\<close>.
  \<^item> \<open>Resolve\<close> (\<open>resolver.rs\<close>): from the address that is typed to the addresses to try, by nickname, service, tsdns
    and host; services are tried by priority. \<open>ResolveFacts\<close>: an address that is printed is read back, IPv6 with its
    longest run of zeros included, and only malformed addresses fail to resolve.
  \<^item> \<open>Options\<close> (\<open>lib.rs\<close>): the options, their builder, and connecting: each address is tried with the handshake of
    \<open>Connect\<close>, then \<open>clientinit\<close> is sent and \<open>initserver\<close> awaited. \<open>Library\<close>: the connection, what it sends, and what a
    command from the server does to its book, its options and its items. \<open>LibraryPoll\<close>: its state machine, one poll at a
    time; the loop over what the client yields ends because each round uses up a future poll.
  \<^item> \<open>LibraryFacts\<close>: over whole histories of calls, the items about audio agree with the state, and an established
    connection has the keys of a licensed server, the one asked for.
  \<^item> \<open>Sync\<close> (\<open>sync.rs\<close>): the connection that serves handles of other threads; every call of a handle waits or has been
    answered once.
  \<^item> \<open>SlidingWindow\<close> and \<open>AudioQueue\<close> (\<open>audio.rs\<close>): its own queues for received voice. \<open>AudioQueueFacts\<close>: the
    invariant of a queue, fetching ends, and mixing does not panic.

  \<^bold>\<open>How code is modelled.\<close> A struct is a record, an enum a datatype, a machine integer a word, a hash map an association
  list without duplicate keys. An operation takes the state and returns it; an error is a value of a sum type; where
  the code panics or an integer underflows, the model has an error of its own for it. The clock, random values, the
  answers of the socket and of futures, and the results of other crates (ciphers, hashes, curves, ASN.1, base64, Opus, the
  JSON decoder, the generated book) are arguments; what is assumed about them is a named predicate
  (\<open>key_crates_ok\<close>, \<open>dalek_ok\<close>, \<open>yields_samples\<close>) or a hypothesis with a witness.

  \<^bold>\<open>Bounds and fuel.\<close> A loop that may take many rounds has fuel, and a theorem says how much is enough:
  \<open>resend_fuel\<close> for the loop that resends packets (each round handles an entry or moves one), \<open>import_fuel\<close> for
  imported keys (each base64 layer is shorter), \<open>fetch_fuel\<close> for voice (each round decodes a sample). \<open>env_fuel\<close> of
  the client is passed to the resend loop. The asynchronous functions of the client recurse over the list of future
  polls and wait when it is used up. The clock stands still within one call. A license has at most eight blocks,
  as in the code.

  \<^bold>\<open>Not modelled.\<close> The messages, most of the book that they are applied to and the enumerations are generated
  at build time by code in this repository that reads tables; the generated handler is a parameter of \<open>Book\<close>, and
  the engine's view of the book is the record type \<open>book\<close>. Packet logs, tracing, event listeners, buffer recycling and
  \<open>Debug\<close> output are left out, as are debug assertions.
\<close>

end
